(* ===== verification/AR_Prelude.thy ===== *)
theory AR_Prelude
  imports Complex_Main "HOL-Library.Finite_Map" "HOL-Library.Sublist" "HOL-Library.Multiset"
begin

text \<open>
  Shared vocabulary of the development: the collections that carry the component proofs,
  the type of raised exceptions, and the generic facts on lists, options, sums and finite
  maps that several components use.
\<close>

named_theorems py_simps \<open>evaluation rules of the modelled Python operations\<close>
named_theorems store_simps \<open>effects of the file operations on the fields of a task directory\<close>
named_theorems pool_simps \<open>effects of the device pool operations on the fields of a pool\<close>

subsection \<open>Raised exceptions\<close>

text \<open>
  One constructor per exception class that the modelled code raises or lets through.
  The string of a constructor stands for the message only as far as the callers can tell
  two raises of the same class apart.
\<close>

datatype py_error =
    TypeError
  | ValueError
  | KeyError
  | AttributeError
  | OverflowError
  | ZeroDivisionError
  | TimeoutError
  | LookupError
  | RuntimeError string
  | ManifestError string
  | TaskError string
  | TaskOwnershipError string
  | TaskConsistencyError
  | TaskNotInitialized
  | TaskCorrupted string
  | TaskPhaseError string

type_synonym 'a res = "py_error + 'a"

text \<open>Sequencing of fallible steps: the first raise wins.\<close>

definition bindR :: "'a res \<Rightarrow> ('a \<Rightarrow> 'b res) \<Rightarrow> 'b res" where
  "bindR m f = (case m of Inl e \<Rightarrow> Inl e | Inr x \<Rightarrow> f x)"

lemma bindR_simps [simp]: "bindR (Inl e) f = Inl e" "bindR (Inr x) f = f x"
  by (simp_all add: bindR_def)

lemma bindR_eq_Inr: "bindR m f = Inr y \<longleftrightarrow> (\<exists>x. m = Inr x \<and> f x = Inr y)"
  by (cases m) auto

lemma bindR_eq_InrE [elim!]:
  assumes "bindR m f = Inr y"
  obtains x where "m = Inr x" "f x = Inr y"
  using assms by (auto simp: bindR_eq_Inr)

lemma bindR_cong [fundef_cong]:
  "m = m' \<Longrightarrow> (\<And>x. m' = Inr x \<Longrightarrow> f x = g x) \<Longrightarrow> bindR m f = bindR m' g"
  by (cases m') auto

subsection \<open>Lists\<close>

lemma take_fold_split:
  "fold (\<lambda>f s. f s) (take (Suc k) fs) s =
     (if k < length fs then (fs ! k) (fold (\<lambda>f s. f s) (take k fs) s)
      else fold (\<lambda>f s. f s) fs s)"
  by (auto simp: take_Suc_conv_app_nth)

lemma last_map_Some: "xs \<noteq> [] \<Longrightarrow> last (map f xs) = f (last xs)"
  by (rule last_map)

lemma sum_list_update_nat:
  "i < length xs \<Longrightarrow> sum_list (xs[i := (v::nat)]) + xs ! i = sum_list xs + v"
  by (induction xs arbitrary: i) (auto split: nat.splits)

lemma distinct_map_upt_inj:
  "inj_on f {m..<n} \<Longrightarrow> distinct (map f [m..<n])"
  by (simp add: distinct_map)

subsection \<open>Finite maps\<close>

lemma fmadd_fmadd_same [simp]: "(m ++\<^sub>f n) ++\<^sub>f n = m ++\<^sub>f n"
  by (rule fmap_ext) simp

lemma fmfilter_id: "(\<And>k. k |\<in>| fmdom m \<Longrightarrow> P k) \<Longrightarrow> fmfilter P m = m"
  by (rule fmap_ext) (metis fmdom_notD fmlookup_filter)

lemma fmadd_shadow: "k |\<in>| fmdom n \<Longrightarrow> fmupd k x m ++\<^sub>f n = m ++\<^sub>f n"
  by (rule fmap_ext) auto

lemma fmlookup_fmadd_left:
  "k |\<notin>| fmdom n \<Longrightarrow> fmlookup (m ++\<^sub>f n) k = fmlookup m k"
  by simp

end
