(* ===== verification/Py_Value.thy ===== *)
theory Py_Value
  imports AR_Prelude
begin

text \<open>
  The Python values the modelled code passes around: what \<open>json.load\<close> returns and what
  the metric dictionaries hold. Floats are exact reals extended by the three non-finite
  IEEE values; rounding is not modelled. An ISO-8601 timestamp string (what
  \<open>datetime.isoformat\<close> writes and \<open>datetime.fromisoformat\<close> reads) is kept as the
  instant it denotes, \<open>PTime\<close>. A dictionary is a finite map, so equality of values is
  independent of insertion order, as it is in Python.
\<close>

subsection \<open>Floats\<close>

datatype pyfloat = Fin real | PosInf | NegInf | NaN

definition isfinite :: "pyfloat \<Rightarrow> bool" where
  "isfinite x = (case x of Fin _ \<Rightarrow> True | _ \<Rightarrow> False)"

lemma isfinite_simps [simp]:
  "isfinite (Fin r)" "\<not> isfinite PosInf" "\<not> isfinite NegInf" "\<not> isfinite NaN"
  by (simp_all add: isfinite_def)

fun flt :: "pyfloat \<Rightarrow> pyfloat \<Rightarrow> bool" where
  "flt NaN _ = False"
| "flt _ NaN = False"
| "flt (Fin a) (Fin b) = (a < b)"
| "flt (Fin _) PosInf = True"
| "flt (Fin _) NegInf = False"
| "flt PosInf _ = False"
| "flt NegInf NegInf = False"
| "flt NegInf _ = True"

definition feq :: "pyfloat \<Rightarrow> pyfloat \<Rightarrow> bool" where
  "feq a b = (a \<noteq> NaN \<and> a = b)"

definition fle :: "pyfloat \<Rightarrow> pyfloat \<Rightarrow> bool" where
  "fle a b = (flt a b \<or> feq a b)"

fun fneg :: "pyfloat \<Rightarrow> pyfloat" where
  "fneg (Fin a) = Fin (- a)"
| "fneg PosInf = NegInf"
| "fneg NegInf = PosInf"
| "fneg NaN = NaN"

fun fadd :: "pyfloat \<Rightarrow> pyfloat \<Rightarrow> pyfloat" where
  "fadd NaN _ = NaN"
| "fadd _ NaN = NaN"
| "fadd (Fin a) (Fin b) = Fin (a + b)"
| "fadd PosInf NegInf = NaN"
| "fadd NegInf PosInf = NaN"
| "fadd PosInf _ = PosInf"
| "fadd _ PosInf = PosInf"
| "fadd NegInf _ = NegInf"
| "fadd _ NegInf = NegInf"

definition fsub :: "pyfloat \<Rightarrow> pyfloat \<Rightarrow> pyfloat" where
  "fsub a b = fadd a (fneg b)"

fun fabs :: "pyfloat \<Rightarrow> pyfloat" where
  "fabs (Fin a) = Fin \<bar>a\<bar>"
| "fabs NaN = NaN"
| "fabs _ = PosInf"

text \<open>Multiplication by a positive finite constant, all the code needs.\<close>

definition fscale :: "real \<Rightarrow> pyfloat \<Rightarrow> pyfloat" where
  "fscale c x = (case x of Fin a \<Rightarrow> Fin (c * a) | _ \<Rightarrow> x)"

text \<open>
  Division. A zero divisor raises \<open>ZeroDivisionError\<close> in Python, so the callers test for
  it; the equation below is used for non-zero divisors only.
\<close>

fun fdiv :: "pyfloat \<Rightarrow> pyfloat \<Rightarrow> pyfloat" where
  "fdiv NaN _ = NaN"
| "fdiv _ NaN = NaN"
| "fdiv (Fin a) (Fin b) = Fin (a / b)"
| "fdiv (Fin _) _ = Fin 0"
| "fdiv PosInf (Fin b) = (if b < 0 then NegInf else PosInf)"
| "fdiv NegInf (Fin b) = (if b < 0 then PosInf else NegInf)"
| "fdiv _ _ = NaN"

lemma flt_irrefl [simp]: "\<not> flt x x"
  by (cases x) auto

lemma flt_trans: "flt x y \<Longrightarrow> flt y z \<Longrightarrow> flt x z"
  by (cases x; cases y; cases z) auto

lemma flt_asym: "flt x y \<Longrightarrow> \<not> flt y x"
  by (cases x; cases y) auto

lemma flt_Fin0_PosInf: "flt (Fin 0) x \<and> flt x PosInf \<longleftrightarrow> (\<exists>r>0. x = Fin r)"
  by (cases x) auto

subsection \<open>Values\<close>

datatype pyval =
    PNone
  | PBool bool
  | PInt int
  | PFloat pyfloat
  | PTime real
  | PStr string
  | PList "pyval list"
  | PDict "(string, pyval) fmap"

type_synonym dict = "(string, pyval) fmap"

fun truthy :: "pyval \<Rightarrow> bool" where
  "truthy PNone = False"
| "truthy (PBool b) = b"
| "truthy (PInt i) = (i \<noteq> 0)"
| "truthy (PFloat f) = (f \<noteq> Fin 0)"
| "truthy (PTime _) = True"
| "truthy (PStr s) = (s \<noteq> [])"
| "truthy (PList xs) = (xs \<noteq> [])"
| "truthy (PDict d) = (d \<noteq> fmempty)"

text \<open>\<open>isinstance(v, (int, float))\<close>, with the number: \<open>bool\<close> is a subclass of \<open>int\<close>.\<close>

fun num_of :: "pyval \<Rightarrow> pyfloat option" where
  "num_of (PBool b) = Some (Fin (if b then 1 else 0))"
| "num_of (PInt i) = Some (Fin (of_int i))"
| "num_of (PFloat f) = Some f"
| "num_of _ = None"

definition is_number :: "pyval \<Rightarrow> bool" where
  "is_number v = (num_of v \<noteq> None)"

definition is_dict :: "pyval \<Rightarrow> bool" where
  "is_dict v = (case v of PDict _ \<Rightarrow> True | _ \<Rightarrow> False)"

lemma is_number_simps [simp]:
  "\<not> is_number PNone" "is_number (PBool b)" "is_number (PInt i)" "is_number (PFloat f)"
  "\<not> is_number (PTime t)" "\<not> is_number (PStr s)" "\<not> is_number (PList xs)" "\<not> is_number (PDict d)"
  by (simp_all add: is_number_def)

text \<open>\<open>d.get(k)\<close> and \<open>d.get(k, default)\<close>.\<close>

definition dget :: "dict \<Rightarrow> string \<Rightarrow> pyval" where
  "dget d k = (case fmlookup d k of None \<Rightarrow> PNone | Some v \<Rightarrow> v)"

definition dget_default :: "dict \<Rightarrow> string \<Rightarrow> pyval \<Rightarrow> pyval" where
  "dget_default d k v0 = (case fmlookup d k of None \<Rightarrow> v0 | Some v \<Rightarrow> v)"

lemma dget_fmupd [simp]: "dget (fmupd k v d) k' = (if k = k' then v else dget d k')"
  by (simp add: dget_def)

lemma dget_fmempty [simp]: "dget fmempty k = PNone"
  by (simp add: dget_def)

lemma dget_fmadd:
  "dget (d ++\<^sub>f e) k = (case fmlookup e k of None \<Rightarrow> dget d k | Some v \<Rightarrow> v)"
  by (auto simp: dget_def fmlookup_dom_iff split: option.splits)

lemma dget_default_fmupd [simp]:
  "dget_default (fmupd k v d) k' v0 = (if k = k' then v else dget_default d k' v0)"
  by (simp add: dget_default_def)

lemma dget_default_empty [simp]: "dget_default fmempty k v0 = v0"
  by (simp add: dget_default_def)

text \<open>\<open>v or w\<close>.\<close>

definition py_or :: "pyval \<Rightarrow> pyval \<Rightarrow> pyval" where
  "py_or v w = (if truthy v then v else w)"

subsection \<open>Equality and order\<close>

text \<open>
  Python compares numbers by value across \<open>bool\<close>, \<open>int\<close> and \<open>float\<close>, also inside
  containers: \<open>num_norm\<close> maps every number to the float of its value.
\<close>

primrec num_norm :: "pyval \<Rightarrow> pyval" where
  "num_norm PNone = PNone"
| "num_norm (PBool b) = PFloat (Fin (if b then 1 else 0))"
| "num_norm (PInt i) = PFloat (Fin (of_int i))"
| "num_norm (PFloat f) = PFloat f"
| "num_norm (PTime t) = PTime t"
| "num_norm (PStr s) = PStr s"
| "num_norm (PList xs) = PList (map num_norm xs)"
| "num_norm (PDict d) = PDict (fmmap num_norm d)"

definition py_eq :: "pyval \<Rightarrow> pyval \<Rightarrow> bool" where
  "py_eq v w = (v \<noteq> PFloat NaN \<and> num_norm v = num_norm w)"

lemma py_eq_simps [simp]:
  "py_eq (PInt i) (PInt j) = (i = j)"
  "py_eq (PStr s) (PStr t) = (s = t)"
  "py_eq PNone PNone"
  "\<not> py_eq PNone (PInt j)" "\<not> py_eq (PInt i) PNone"
  "\<not> py_eq PNone (PStr t)" "\<not> py_eq (PStr s) PNone"
  "\<not> py_eq (PStr s) (PInt j)" "\<not> py_eq (PInt i) (PStr t)"
  "py_eq (PBool b) (PInt j) = ((if b then 1 else 0) = j)"
  by (auto simp: py_eq_def)

lemma py_eq_PInt_iff: "py_eq v (PInt i) \<longleftrightarrow> num_of v = Some (Fin (of_int i))"
  by (cases v) (auto simp: py_eq_def)

lemma py_eq_PNone_iff [simp]: "py_eq v PNone \<longleftrightarrow> v = PNone"
  by (cases v) (auto simp: py_eq_def)

lemma py_eq_PStr_iff: "py_eq v (PStr s) \<longleftrightarrow> v = PStr s"
  by (cases v) (auto simp: py_eq_def)

lemma py_eq_refl: "v \<noteq> PFloat NaN \<Longrightarrow> py_eq v v"
  by (simp add: py_eq_def)

text \<open>\<open>v < w\<close>: numbers and strings are ordered, any other pair raises.\<close>

definition char_less :: "char \<Rightarrow> char \<Rightarrow> bool" where
  "char_less c d = ((of_char c :: nat) < of_char d)"

definition py_lt :: "pyval \<Rightarrow> pyval \<Rightarrow> bool res" where
  "py_lt v w = (case (num_of v, num_of w) of
      (Some a, Some b) \<Rightarrow> Inr (flt a b)
    | _ \<Rightarrow> (case (v, w) of (PStr s, PStr t) \<Rightarrow> Inr (ord.lexordp char_less s t)
                       | _ \<Rightarrow> Inl TypeError))"

definition py_ge :: "pyval \<Rightarrow> pyval \<Rightarrow> bool res" where
  "py_ge v w = (case (num_of v, num_of w) of
      (Some a, Some b) \<Rightarrow> Inr (fle b a)
    | _ \<Rightarrow> (case (v, w) of (PStr s, PStr t) \<Rightarrow> Inr (\<not> ord.lexordp char_less s t)
                       | _ \<Rightarrow> Inl TypeError))"

lemma py_ge_PInt [simp, py_simps]: "py_ge (PInt a) (PInt b) = Inr (b \<le> a)"
  by (auto simp: py_ge_def fle_def feq_def)

lemma py_lt_PInt [simp, py_simps]: "py_lt (PInt a) (PInt b) = Inr (a < b)"
  by (auto simp: py_lt_def)

text \<open>\<open>v + 1\<close>; adding to anything but a number raises.\<close>

definition py_inc :: "pyval \<Rightarrow> pyval res" where
  "py_inc v = (case v of
      PInt i \<Rightarrow> Inr (PInt (i + 1))
    | PBool b \<Rightarrow> Inr (PInt (if b then 2 else 1))
    | PFloat f \<Rightarrow> Inr (PFloat (fadd f (Fin 1)))
    | _ \<Rightarrow> Inl TypeError)"

lemma py_inc_PInt [simp, py_simps]: "py_inc (PInt i) = Inr (PInt (i + 1))"
  by (simp add: py_inc_def)

end
