(* ===== verification/Json_IO.thy ===== *)
theory Json_IO
  imports Py_Value
begin

text \<open>
  \<open>scripts/utils/json_io.py\<close>: what a JSON file of a task holds, the sanitiser every JSON
  write goes through, the atomic replacement of a file and the line-oriented log reader.
  File contents are kept at the level of documents: \<open>Json v\<close> is a file whose text
  \<open>json.load\<close> reads as \<open>v\<close>, \<open>Corrupt\<close> one that it rejects. A log line is a JSON object
  (\<open>HRow\<close>), blank, or text that is no JSON document.
\<close>

datatype json_file = NoFile | Corrupt | Json pyval

datatype hist_line = HRow dict | HBlank | HBad

subsection \<open>sanitize_floats\<close>

primrec sanitize_floats :: "pyval \<Rightarrow> pyval" where
  "sanitize_floats PNone = PNone"
| "sanitize_floats (PBool b) = PBool b"
| "sanitize_floats (PInt i) = PInt i"
| "sanitize_floats (PFloat f) = (if isfinite f then PFloat f else PNone)"
| "sanitize_floats (PTime t) = PTime t"
| "sanitize_floats (PStr s) = PStr s"
| "sanitize_floats (PList xs) = PList (map sanitize_floats xs)"
| "sanitize_floats (PDict d) = PDict (fmmap sanitize_floats d)"

definition sanitize_dict :: "dict \<Rightarrow> dict" where
  "sanitize_dict d = fmmap sanitize_floats d"

text \<open>Strict JSON: no non-finite float at any depth.\<close>

primrec strict_json :: "pyval \<Rightarrow> bool" where
  "strict_json PNone = True"
| "strict_json (PBool b) = True"
| "strict_json (PInt i) = True"
| "strict_json (PFloat f) = isfinite f"
| "strict_json (PTime t) = True"
| "strict_json (PStr s) = True"
| "strict_json (PList xs) = list_all strict_json xs"
| "strict_json (PDict d) = pred_fmap strict_json d"

lemma sanitize_dict_lookup [simp]:
  "fmlookup (sanitize_dict d) k = map_option sanitize_floats (fmlookup d k)"
  by (simp add: sanitize_dict_def)

lemma fmdom_sanitize_dict [simp]: "fmdom (sanitize_dict d) = fmdom d"
  by (simp add: sanitize_dict_def)

lemma sanitize_dict_add [simp]:
  "sanitize_dict (d ++\<^sub>f e) = sanitize_dict d ++\<^sub>f sanitize_dict e"
  by (simp add: sanitize_dict_def)

lemma sanitize_dict_upd [simp]:
  "sanitize_dict (fmupd k v d) = fmupd k (sanitize_floats v) (sanitize_dict d)"
  by (simp add: sanitize_dict_def fmmap_fmupd)

lemma sanitize_dict_filter [simp]:
  "sanitize_dict (fmfilter P d) = fmfilter P (sanitize_dict d)"
  by (rule fmap_ext) simp

lemma sanitize_dict_empty [simp]: "sanitize_dict fmempty = fmempty"
  by (simp add: sanitize_dict_def)

lemma dget_sanitize_dict [simp]: "dget (sanitize_dict d) k = sanitize_floats (dget d k)"
  by (simp add: dget_def split: option.splits)

lemma sanitize_strict: "strict_json (sanitize_floats v)"
  by (induction v) (auto simp: list_all_iff fmpred_iff fmlookup_ran'_iff)

lemma sanitize_id: "strict_json v \<Longrightarrow> sanitize_floats v = v"
proof (induction v)
  case (PList xs)
  then show ?case by (simp add: list_all_iff map_idI)
next
  case (PDict d)
  have "fmmap sanitize_floats d = d"
  proof (rule fmap_ext)
    fix k
    show "fmlookup (fmmap sanitize_floats d) k = fmlookup d k"
      using PDict by (cases "fmlookup d k") (auto simp: fmpred_iff fmlookup_ran'_iff)
  qed
  then show ?case by simp
qed auto

lemma sanitize_idem [simp]: "sanitize_floats (sanitize_floats v) = sanitize_floats v"
  by (rule sanitize_id) (rule sanitize_strict)

lemma sanitize_dict_idem [simp]: "sanitize_dict (sanitize_dict d) = sanitize_dict d"
  by (rule fmap_ext) (simp add: option.map_comp o_def)

lemma sanitize_dict_empty_iff [simp]: "sanitize_dict d = fmempty \<longleftrightarrow> d = fmempty"
  by (metis fmdom_sanitize_dict fmdom_empty fmrestrict_fset_dom fmrestrict_fset_null)

lemma truthy_sanitize_dict [simp]: "truthy (PDict (sanitize_dict d)) = truthy (PDict d)"
  by simp

subsection \<open>atomic_write_text\<close>

text \<open>
  The write as the sequence of its durable effects on a directory (a map from path to
  contents): \<open>mkstemp\<close> creates the temporary file, the text reaches it piecewise
  (\<open>n\<close> characters when the write is cut short), \<open>os.replace\<close> moves it over the target.
  The final \<open>os.remove\<close> finds no file after a successful replace.
\<close>

type_synonym directory = "(string, string) fmap"

definition os_replace :: "string \<Rightarrow> string \<Rightarrow> directory \<Rightarrow> directory" where
  "os_replace src dst fs =
     (case fmlookup fs src of None \<Rightarrow> fs | Some t \<Rightarrow> fmupd dst t (fmdrop src fs))"

definition atomic_write_text ::
    "string \<Rightarrow> string \<Rightarrow> string \<Rightarrow> nat \<Rightarrow> (directory \<Rightarrow> directory) list" where
  "atomic_write_text path tmp text n =
     [fmupd tmp [], fmupd tmp (take n text), fmupd tmp text, os_replace tmp path, fmdrop tmp]"

definition crash_after :: "nat \<Rightarrow> ('s \<Rightarrow> 's) list \<Rightarrow> 's \<Rightarrow> 's" where
  "crash_after k steps s = fold (\<lambda>f s. f s) (take k steps) s"

lemma crash_after_all: "length steps \<le> k \<Longrightarrow> crash_after k steps s = fold (\<lambda>f s. f s) steps s"
  by (simp add: crash_after_def)

text \<open>\<open>atomic_write_json\<close>: the document a later \<open>json.load\<close> sees.\<close>

definition atomic_write_json :: "pyval \<Rightarrow> json_file" where
  "atomic_write_json v = Json (sanitize_floats v)"

subsection \<open>Log files\<close>

text \<open>
  \<open>_read_whole_file\<close>: \<open>os.read\<close> returns at least one byte and at most the requested
  1 MiB until the end of the file; \<open>sz i\<close> is what the \<open>i\<close>-th call returns.
\<close>

function read_chunks :: "(nat \<Rightarrow> nat) \<Rightarrow> nat \<Rightarrow> 'a list \<Rightarrow> 'a list list" where
  "read_chunks sz i bs =
     (if bs = [] then []
      else (let n = max 1 (min (sz i) (1024 * 1024))
            in take n bs # read_chunks sz (Suc i) (drop n bs)))"
  by pat_completeness auto
termination
  by (relation "measure (\<lambda>(sz, i, bs). length bs)") (auto simp: Let_def)

declare read_chunks.simps [simp del]

definition read_whole_file :: "(nat \<Rightarrow> nat) \<Rightarrow> 'a list \<Rightarrow> 'a list" where
  "read_whole_file sz bs = concat (read_chunks sz 0 bs)"

text \<open>\<open>load_jsonl\<close> on the lines of the file: blank and malformed lines are skipped.\<close>

fun load_jsonl :: "hist_line list option \<Rightarrow> dict list" where
  "load_jsonl None = []"
| "load_jsonl (Some []) = []"
| "load_jsonl (Some (HRow d # ls)) = d # load_jsonl (Some ls)"
| "load_jsonl (Some (_ # ls)) = load_jsonl (Some ls)"

lemma concat_read_chunks: "concat (read_chunks sz i bs) = bs"
proof (induction sz i bs rule: read_chunks.induct)
  case (1 sz i bs)
  show ?case
  proof (cases "bs = []")
    case True
    then show ?thesis by (simp add: read_chunks.simps [of sz i "[]"])
  next
    case False
    with 1 [OF False refl] show ?thesis
      by (simp add: read_chunks.simps [of sz i bs] Let_def)
  qed
qed

lemma load_jsonl_append:
  "load_jsonl (Some (xs @ ys)) = load_jsonl (Some xs) @ load_jsonl (Some ys)"
proof (induction xs)
  case (Cons x xs)
  then show ?case by (cases x) simp_all
qed simp

end
