(* ===== verification/Progress_Model.thy ===== *)
theory Progress_Model
  imports Json_IO Py_Text
begin

text \<open>
  \<open>scripts/phase_machine/models.py\<close>: the typed view of the accounting fields of
  \<open>state.json\<close>. The dataclass checks no types at run time, so every field holds a Python
  value; \<open>wf_progress\<close> states the types its annotations promise, as an invariant.
\<close>

record Progress =
  task :: pyval
  eval_rounds :: pyval
  max_rounds :: pyval
  consecutive_failures :: pyval
  best_metric :: pyval
  best_commit :: pyval
  best_speedup :: pyval
  baseline_metric :: pyval
  baseline_source :: pyval
  baseline_outcome :: pyval
  baseline_error_source :: pyval
  baseline_per_shape_us :: pyval
  baseline_fingerprint :: pyval
  seed_metric :: pyval
  plan_version :: pyval
  next_pid :: pyval
  num_cases :: pyval
  per_shape_descs :: pyval
  diagnose_attempts :: pyval
  diagnose_attempts_for_version :: pyval
  last_diagnose_failure_reason :: pyval
  last_stop_reason :: pyval
  last_stop_time :: pyval

definition Progress_default :: Progress where
  "Progress_default = \<lparr>
     task = PStr [],
     eval_rounds = PInt 0,
     max_rounds = PInt 999,
     consecutive_failures = PInt 0,
     best_metric = PNone,
     best_commit = PNone,
     best_speedup = PNone,
     baseline_metric = PNone,
     baseline_source = PNone,
     baseline_outcome = PNone,
     baseline_error_source = PNone,
     baseline_per_shape_us = PNone,
     baseline_fingerprint = PNone,
     seed_metric = PNone,
     plan_version = PInt 0,
     next_pid = PInt 0,
     num_cases = PNone,
     per_shape_descs = PNone,
     diagnose_attempts = PInt 0,
     diagnose_attempts_for_version = PNone,
     last_diagnose_failure_reason = PNone,
     last_stop_reason = PNone,
     last_stop_time = PNone\<rparr>"

definition progress_fields :: "string list" where
  "progress_fields = [
     ''task'', ''eval_rounds'', ''max_rounds'', ''consecutive_failures'',
     ''best_metric'', ''best_commit'', ''best_speedup'', ''baseline_metric'',
     ''baseline_source'', ''baseline_outcome'', ''baseline_error_source'', ''baseline_per_shape_us'',
     ''baseline_fingerprint'', ''seed_metric'', ''plan_version'', ''next_pid'',
     ''num_cases'', ''per_shape_descs'', ''diagnose_attempts'', ''diagnose_attempts_for_version'',
     ''last_diagnose_failure_reason'', ''last_stop_reason'', ''last_stop_time'']"

definition next_round :: "Progress \<Rightarrow> pyval res" where
  "next_round p = py_inc (eval_rounds p)"

definition to_dict :: "Progress \<Rightarrow> dict" where
  "to_dict p = fmap_of_list [
     (''task'', task p),
     (''eval_rounds'', eval_rounds p),
     (''max_rounds'', max_rounds p),
     (''consecutive_failures'', consecutive_failures p),
     (''best_metric'', best_metric p),
     (''best_commit'', best_commit p),
     (''best_speedup'', best_speedup p),
     (''baseline_metric'', baseline_metric p),
     (''baseline_source'', baseline_source p),
     (''baseline_outcome'', baseline_outcome p),
     (''baseline_error_source'', baseline_error_source p),
     (''baseline_per_shape_us'', baseline_per_shape_us p),
     (''baseline_fingerprint'', baseline_fingerprint p),
     (''seed_metric'', seed_metric p),
     (''plan_version'', plan_version p),
     (''next_pid'', next_pid p),
     (''num_cases'', num_cases p),
     (''per_shape_descs'', per_shape_descs p),
     (''diagnose_attempts'', diagnose_attempts p),
     (''diagnose_attempts_for_version'', diagnose_attempts_for_version p),
     (''last_diagnose_failure_reason'', last_diagnose_failure_reason p),
     (''last_stop_reason'', last_stop_reason p),
     (''last_stop_time'', last_stop_time p)]"

text \<open>\<open>cls(**kept)\<close>: a keyword for every field present, the default for the others.\<close>

definition from_kwargs :: "dict \<Rightarrow> Progress" where
  "from_kwargs d = \<lparr>
     task = dget_default d ''task'' (PStr []),
     eval_rounds = dget_default d ''eval_rounds'' (PInt 0),
     max_rounds = dget_default d ''max_rounds'' (PInt 999),
     consecutive_failures = dget_default d ''consecutive_failures'' (PInt 0),
     best_metric = dget_default d ''best_metric'' (PNone),
     best_commit = dget_default d ''best_commit'' (PNone),
     best_speedup = dget_default d ''best_speedup'' (PNone),
     baseline_metric = dget_default d ''baseline_metric'' (PNone),
     baseline_source = dget_default d ''baseline_source'' (PNone),
     baseline_outcome = dget_default d ''baseline_outcome'' (PNone),
     baseline_error_source = dget_default d ''baseline_error_source'' (PNone),
     baseline_per_shape_us = dget_default d ''baseline_per_shape_us'' (PNone),
     baseline_fingerprint = dget_default d ''baseline_fingerprint'' (PNone),
     seed_metric = dget_default d ''seed_metric'' (PNone),
     plan_version = dget_default d ''plan_version'' (PInt 0),
     next_pid = dget_default d ''next_pid'' (PInt 0),
     num_cases = dget_default d ''num_cases'' (PNone),
     per_shape_descs = dget_default d ''per_shape_descs'' (PNone),
     diagnose_attempts = dget_default d ''diagnose_attempts'' (PInt 0),
     diagnose_attempts_for_version = dget_default d ''diagnose_attempts_for_version'' (PNone),
     last_diagnose_failure_reason = dget_default d ''last_diagnose_failure_reason'' (PNone),
     last_stop_reason = dget_default d ''last_stop_reason'' (PNone),
     last_stop_time = dget_default d ''last_stop_time'' (PNone)\<rparr>"

definition from_dict :: "dict \<Rightarrow> Progress" where
  "from_dict data =
     (if data = fmempty then Progress_default
      else from_kwargs (fmfilter (\<lambda>k. k \<in> set progress_fields) data))"

text \<open>\<open>get\<close>, \<open>__contains__\<close> and \<open>__getitem__\<close> on field names.\<close>

definition progress_get :: "Progress \<Rightarrow> string \<Rightarrow> pyval \<Rightarrow> pyval" where
  "progress_get p k d = dget_default (to_dict p) k d"

definition progress_item :: "Progress \<Rightarrow> string \<Rightarrow> pyval res" where
  "progress_item p k = (case fmlookup (to_dict p) k of None \<Rightarrow> Inl KeyError | Some v \<Rightarrow> Inr v)"

text \<open>\<open>apply(**changes)\<close>: \<open>dataclasses.replace\<close> refuses a name that is no field.\<close>

definition progress_apply :: "Progress \<Rightarrow> dict \<Rightarrow> Progress res" where
  "progress_apply p changes =
     (if fset (fmdom changes) \<subseteq> set progress_fields
      then Inr (from_kwargs (to_dict p ++\<^sub>f changes)) else Inl TypeError)"

text \<open>The annotations of the fields that drive the phase machine.\<close>

definition is_count :: "pyval \<Rightarrow> bool" where
  "is_count v = (case v of PInt i \<Rightarrow> 0 \<le> i | _ \<Rightarrow> False)"

definition wf_progress :: "Progress \<Rightarrow> bool" where
  "wf_progress p \<longleftrightarrow> is_count (eval_rounds p) \<and> is_count (max_rounds p)
     \<and> is_count (consecutive_failures p) \<and> is_count (plan_version p) \<and> is_count (next_pid p)
     \<and> is_count (diagnose_attempts p)"

definition count_of :: "pyval \<Rightarrow> nat" where
  "count_of v = (case v of PInt i \<Rightarrow> nat i | _ \<Rightarrow> 0)"

lemma is_count_PInt [simp]: "is_count (PInt i) \<longleftrightarrow> 0 \<le> i"
  by (simp add: is_count_def)

lemma is_countE: "is_count v \<Longrightarrow> (\<And>n. v = PInt (int n) \<Longrightarrow> P) \<Longrightarrow> P"
  by (cases v) (auto simp: is_count_def elim: nonneg_int_cases)

lemma count_of_PInt [simp]: "count_of (PInt i) = nat i"
  by (simp add: count_of_def)

subsection \<open>Conversion to and from dictionaries\<close>

lemma set_progress_fields_dom: "fset (fmdom (to_dict p)) = set progress_fields"
  by (simp add: to_dict_def progress_fields_def fmdom_of_list fset_of_list.rep_eq)

lemma fmlookup_to_dict_default:
  "dget_default (to_dict p ++\<^sub>f d) k v = dget_default d k (dget_default (to_dict p) k v)"
  by (simp add: dget_default_def fmlookup_dom_iff split: option.splits)

lemma to_dict_lookup:
  "dget_default (to_dict p) ''task'' v = task p"
  "dget_default (to_dict p) ''eval_rounds'' v = eval_rounds p"
  "dget_default (to_dict p) ''max_rounds'' v = max_rounds p"
  "dget_default (to_dict p) ''consecutive_failures'' v = consecutive_failures p"
  "dget_default (to_dict p) ''best_metric'' v = best_metric p"
  "dget_default (to_dict p) ''best_commit'' v = best_commit p"
  "dget_default (to_dict p) ''best_speedup'' v = best_speedup p"
  "dget_default (to_dict p) ''baseline_metric'' v = baseline_metric p"
  "dget_default (to_dict p) ''baseline_source'' v = baseline_source p"
  "dget_default (to_dict p) ''baseline_outcome'' v = baseline_outcome p"
  "dget_default (to_dict p) ''baseline_error_source'' v = baseline_error_source p"
  "dget_default (to_dict p) ''baseline_per_shape_us'' v = baseline_per_shape_us p"
  "dget_default (to_dict p) ''baseline_fingerprint'' v = baseline_fingerprint p"
  "dget_default (to_dict p) ''seed_metric'' v = seed_metric p"
  "dget_default (to_dict p) ''plan_version'' v = plan_version p"
  "dget_default (to_dict p) ''next_pid'' v = next_pid p"
  "dget_default (to_dict p) ''num_cases'' v = num_cases p"
  "dget_default (to_dict p) ''per_shape_descs'' v = per_shape_descs p"
  "dget_default (to_dict p) ''diagnose_attempts'' v = diagnose_attempts p"
  "dget_default (to_dict p) ''diagnose_attempts_for_version'' v = diagnose_attempts_for_version p"
  "dget_default (to_dict p) ''last_diagnose_failure_reason'' v = last_diagnose_failure_reason p"
  "dget_default (to_dict p) ''last_stop_reason'' v = last_stop_reason p"
  "dget_default (to_dict p) ''last_stop_time'' v = last_stop_time p"
  by (simp_all add: to_dict_def dget_default_def fmlookup_of_list)

lemma from_kwargs_to_dict [simp]: "from_kwargs (to_dict p) = p"
  by (simp add: from_kwargs_def to_dict_lookup)

lemma to_dict_not_empty [simp]: "to_dict p \<noteq> fmempty"
proof
  assume "to_dict p = fmempty"
  then have "set progress_fields = {}" using set_progress_fields_dom [of p] by simp
  then show False by (simp add: progress_fields_def)
qed

lemma from_dict_to_dict [simp]: "from_dict (to_dict p) = p"
proof -
  have "fmfilter (\<lambda>k. k \<in> set progress_fields) (to_dict p) = to_dict p"
    using set_progress_fields_dom [of p] by (intro fmfilter_id) blast
  then show ?thesis by (simp add: from_dict_def)
qed

end
