(* ===== verification/State_Store.thy ===== *)
theory State_Store
  imports Progress_Model
begin

text \<open>
  \<open>scripts/phase_machine/state_store.py\<close>, the part that serves one task directory: the
  files under \<open>.ar_state\<close>, loading and saving \<open>state.json\<close>, the phase and progress views
  of it, the append-only history and the cross-file consistency check. The clock is the
  argument \<open>now\<close>. Every save runs under the task's lock, so an operation is one function
  from the contents of the directory to its new contents.
\<close>

subsection \<open>Phases\<close>

datatype phase = INIT | BASELINE | PLAN | EDIT | DIAGNOSE | REPLAN | FINISH

fun phase_name :: "phase \<Rightarrow> string" where
  "phase_name INIT = ''INIT''"
| "phase_name BASELINE = ''BASELINE''"
| "phase_name PLAN = ''PLAN''"
| "phase_name EDIT = ''EDIT''"
| "phase_name DIAGNOSE = ''DIAGNOSE''"
| "phase_name REPLAN = ''REPLAN''"
| "phase_name FINISH = ''FINISH''"

definition ALL_PHASES :: "phase list" where
  "ALL_PHASES = [INIT, BASELINE, PLAN, EDIT, DIAGNOSE, REPLAN, FINISH]"

definition phase_of :: "pyval \<Rightarrow> phase option" where
  "phase_of v = (case v of PStr s \<Rightarrow> find (\<lambda>ph. phase_name ph = s) ALL_PHASES | _ \<Rightarrow> None)"

lemma phase_of_name [simp]: "phase_of (PStr (phase_name ph)) = Some ph"
  by (cases ph) (simp_all add: phase_of_def ALL_PHASES_def)

lemma phase_name_inj [simp]: "phase_name a = phase_name b \<longleftrightarrow> a = b"
  by (metis option.inject phase_of_name)

subsection \<open>The files of a task\<close>

text \<open>
  \<open>history_file\<close> holds the lines of \<open>history.jsonl\<close>; \<open>history_eol\<close> is off when the last
  of them lacks its newline, which is what an interrupted append leaves. The diagnose
  reports are indexed by the text their file name carries as the plan version.
\<close>

record task_fs =
  state_file :: json_file
  intent_file :: json_file
  history_file :: "hist_line list option"
  history_eol :: bool
  plan_file :: "string option"
  diagnose_files :: "(string, string) fmap"
  edit_marker :: bool

definition empty_fs :: task_fs where
  "empty_fs = \<lparr>state_file = NoFile, intent_file = NoFile, history_file = None, history_eol = True,
     plan_file = None, diagnose_files = fmempty, edit_marker = False\<rparr>"

text \<open>The retuning knobs of \<open>config.yaml\<close> that \<open>utils/settings.py\<close> hands to this code.\<close>

record config =
  consecutive_fail_threshold :: int
  diagnose_max_attempts :: int
  heartbeat_fresh_seconds :: real

subsection \<open>state.json\<close>

definition load_state :: "task_fs \<Rightarrow> dict option" where
  "load_state fs = (case state_file fs of Json (PDict d) \<Rightarrow> Some d | _ \<Rightarrow> None)"

definition save_state :: "real \<Rightarrow> dict \<Rightarrow> task_fs \<Rightarrow> task_fs" where
  "save_state now st fs =
     fs\<lparr>state_file := atomic_write_json (PDict (fmupd ''last_touched'' (PTime now) st))\<rparr>"

definition fresh_state :: "real \<Rightarrow> dict" where
  "fresh_state now = fmap_of_list [
     (''phase'', PStr ''INIT''),
     (''owner'', PNone),
     (''last_touched'', PTime now),
     (''progress_initialized'', PBool False),
     (''pending_settle'', PNone),
     (''expected_plan_version'', PInt 0),
     (''expected_history_round'', PInt 0)]"

text \<open>\<open>load_state(td) or _fresh_state()\<close> and \<open>load_state(td) or {}\<close>.\<close>

definition state_or_fresh :: "real \<Rightarrow> task_fs \<Rightarrow> dict" where
  "state_or_fresh now fs = (case load_state fs of
      Some d \<Rightarrow> if d = fmempty then fresh_state now else d | None \<Rightarrow> fresh_state now)"

definition state_or_empty :: "task_fs \<Rightarrow> dict" where
  "state_or_empty fs = (case load_state fs of Some d \<Rightarrow> d | None \<Rightarrow> fmempty)"

definition age_seconds :: "real \<Rightarrow> pyval \<Rightarrow> pyfloat" where
  "age_seconds now v = (case v of PTime t \<Rightarrow> Fin (now - t) | _ \<Rightarrow> PosInf)"

definition heartbeat_fresh :: "config \<Rightarrow> real \<Rightarrow> dict \<Rightarrow> bool" where
  "heartbeat_fresh cfg now st =
     flt (age_seconds now (dget st ''last_touched'')) (Fin (heartbeat_fresh_seconds cfg))"

definition touch_heartbeat :: "real \<Rightarrow> task_fs \<Rightarrow> task_fs" where
  "touch_heartbeat now fs = save_state now (state_or_fresh now fs) fs"

definition read_phase :: "task_fs \<Rightarrow> phase" where
  "read_phase fs = (case load_state fs of
      None \<Rightarrow> INIT
    | Some st \<Rightarrow> (case phase_of (dget st ''phase'') of Some ph \<Rightarrow> ph | None \<Rightarrow> INIT))"

definition load_progress :: "task_fs \<Rightarrow> Progress option" where
  "load_progress fs = (case load_state fs of
      None \<Rightarrow> None
    | Some st \<Rightarrow> if truthy (dget st ''progress_initialized'')
                then Some (from_dict (fmfilter (\<lambda>k. k \<in> set progress_fields) st)) else None)"

definition merge_progress :: "dict \<Rightarrow> dict \<Rightarrow> dict" where
  "merge_progress st payload = st ++\<^sub>f fmfilter (\<lambda>k. k \<in> set progress_fields) payload"

definition save_progress :: "real \<Rightarrow> dict \<Rightarrow> task_fs \<Rightarrow> task_fs" where
  "save_progress now payload fs = save_state now (merge_progress (state_or_fresh now fs) payload) fs"

definition update_progress :: "real \<Rightarrow> dict \<Rightarrow> task_fs \<Rightarrow> (task_fs \<times> Progress option) res" where
  "update_progress now changes fs = (case load_progress fs of
      None \<Rightarrow> Inr (fs, None)
    | Some p \<Rightarrow> bindR (progress_apply p changes)
                 (\<lambda>p'. Inr (save_progress now (to_dict p') fs, Some p')))"

subsection \<open>history.jsonl\<close>

text \<open>
  An append starts right after the last byte of the file: behind a line without newline it
  continues that line. Two documents on one line are no document.
\<close>

fun merge_line :: "hist_line \<Rightarrow> hist_line \<Rightarrow> hist_line" where
  "merge_line HBlank r = r"
| "merge_line _ _ = HBad"

definition append_history :: "dict \<Rightarrow> task_fs \<Rightarrow> task_fs" where
  "append_history rec fs =
     (let row = HRow (sanitize_dict rec) in
      fs\<lparr>history_file := Some (case history_file fs of
           None \<Rightarrow> [row]
         | Some ls \<Rightarrow> if history_eol fs \<or> ls = [] then ls @ [row]
                     else butlast ls @ [merge_line (last ls) row]),
         history_eol := True\<rparr>)"

definition row_round :: "dict \<Rightarrow> int option res" where
  "row_round row = (case num_of (dget row ''round'') of
      None \<Rightarrow> Inr None
    | Some (Fin r) \<Rightarrow> Inr (Some (trunc_real r))
    | Some NaN \<Rightarrow> Inr None
    | Some _ \<Rightarrow> Inl OverflowError)"

definition read_last_history_round :: "task_fs \<Rightarrow> int option res" where
  "read_last_history_round fs = (case history_file fs of
      None \<Rightarrow> Inr None
    | Some ls \<Rightarrow> if ls = [] then Inr None
                else (case last ls of HRow row \<Rightarrow> row_round row | _ \<Rightarrow> Inr None))"

subsection \<open>plan.md version header\<close>

definition header_version :: "string \<Rightarrow> int option" where
  "header_version first =
     (case first of
        CHR ''#'' # r \<Rightarrow>
          (let r1 = lstrip r in
           if starts_with ''Plan'' r1
           then let r2 = drop 4 r1; r3 = lstrip r2 in
                (case r3 of
                   CHR ''v'' # r4 \<Rightarrow>
                     (let ds = takeWhile is_digit r4; rest = dropWhile is_digit r4 in
                      if r3 \<noteq> r2 \<and> ds \<noteq> [] \<and> (case rest of [] \<Rightarrow> True | c # _ \<Rightarrow> \<not> is_word c)
                      then Some (int (digits_val ds)) else None)
                 | _ \<Rightarrow> None)
           else None)
      | _ \<Rightarrow> None)"

definition read_plan_version_from_disk :: "task_fs \<Rightarrow> int option" where
  "read_plan_version_from_disk fs = (case plan_file fs of
      None \<Rightarrow> None
    | Some s \<Rightarrow> header_version (strip (takeWhile (\<lambda>c. c \<noteq> newline) s)))"

subsection \<open>Cross-file consistency\<close>

datatype issue = PlanAhead int int | HistoryAhead int int

record consistency_report =
  consistent :: bool
  report_state :: "dict option"
  issues :: "issue list"

definition expected_int :: "dict \<Rightarrow> string \<Rightarrow> int res" where
  "expected_int st k = py_int (py_or (dget st k) (PInt 0))"

definition check_state_consistency :: "task_fs \<Rightarrow> consistency_report res" where
  "check_state_consistency fs = (case load_state fs of
      None \<Rightarrow> Inr \<lparr>consistent = True, report_state = None, issues = []\<rparr>
    | Some st \<Rightarrow>
        bindR (expected_int st ''expected_plan_version'') (\<lambda>expected_plan.
        let plan_issues = (case read_plan_version_from_disk fs of
              Some v \<Rightarrow> if v \<noteq> expected_plan then [PlanAhead v expected_plan] else []
            | None \<Rightarrow> []) in
        bindR (expected_int st ''expected_history_round'') (\<lambda>expected_round.
        bindR (read_last_history_round fs) (\<lambda>last_round.
        let history_issues = (case last_round of
              Some r \<Rightarrow> if r \<noteq> expected_round then [HistoryAhead r expected_round] else []
            | None \<Rightarrow> []);
            all_issues = plan_issues @ history_issues in
        Inr \<lparr>consistent = (all_issues = []), report_state = Some st, issues = all_issues\<rparr>))))"

subsection \<open>Views for other processes\<close>

definition owner_of :: "dict \<Rightarrow> dict res" where
  "owner_of st = (let ow = py_or (dget st ''owner'') (PDict fmempty) in
     case ow of PDict d \<Rightarrow> Inr d | _ \<Rightarrow> Inl AttributeError)"

definition is_task_active :: "config \<Rightarrow> real \<Rightarrow> task_fs \<Rightarrow> bool res" where
  "is_task_active cfg now fs = (case load_state fs of
      None \<Rightarrow> Inr False
    | Some st \<Rightarrow> bindR (owner_of st) (\<lambda>owner.
        Inr (truthy (dget owner ''session_id'') \<and> heartbeat_fresh cfg now st)))"

definition task_owner_info :: "task_fs \<Rightarrow> pyval" where
  "task_owner_info fs = (case load_state fs of None \<Rightarrow> PNone | Some st \<Rightarrow> dget st ''owner'')"

record task_view =
  tv_phase :: pyval
  tv_owner :: pyval
  tv_last_touched :: pyval
  tv_is_fresh :: bool
  tv_is_active :: bool
  tv_progress_initialized :: bool
  tv_numbers :: "(string \<times> pyval) list"
  tv_pending_settle :: pyval
  tv_consistent :: bool
  tv_issues :: "issue list"

definition task_summary :: "config \<Rightarrow> real \<Rightarrow> task_fs \<Rightarrow> task_view option res" where
  "task_summary cfg now fs = (case load_state fs of
      None \<Rightarrow> Inr None
    | Some st \<Rightarrow>
        bindR (check_state_consistency fs) (\<lambda>consistency.
        bindR (owner_of st) (\<lambda>owner.
        let fresh = heartbeat_fresh cfg now st in
        Inr (Some \<lparr>
          tv_phase = dget_default st ''phase'' (PStr ''INIT''),
          tv_owner = dget st ''owner'',
          tv_last_touched = dget st ''last_touched'',
          tv_is_fresh = fresh,
          tv_is_active = (fresh \<and> truthy (dget owner ''session_id'')),
          tv_progress_initialized = truthy (dget st ''progress_initialized''),
          tv_numbers = [
            (''task'', py_or (dget st ''task'') (PStr [])),
            (''eval_rounds'', py_or (dget st ''eval_rounds'') (PInt 0)),
            (''max_rounds'', py_or (dget st ''max_rounds'') (PInt 0)),
            (''best_metric'', dget st ''best_metric''),
            (''best_speedup'', dget st ''best_speedup''),
            (''baseline_metric'', dget st ''baseline_metric''),
            (''baseline_outcome'', dget st ''baseline_outcome''),
            (''baseline_error_source'', dget st ''baseline_error_source''),
            (''consecutive_failures'', py_or (dget st ''consecutive_failures'') (PInt 0)),
            (''plan_version'', py_or (dget st ''plan_version'') (PInt 0))],
          tv_pending_settle = dget st ''pending_settle'',
          tv_consistent = consistent consistency,
          tv_issues = issues consistency\<rparr>))))"

subsection \<open>Effects on the files\<close>

lemma load_state_save [simp, store_simps]:
  "load_state (save_state now st fs) = Some (fmupd ''last_touched'' (PTime now) (sanitize_dict st))"
  by (simp add: load_state_def save_state_def atomic_write_json_def sanitize_dict_def [symmetric])

lemma save_state_frame [simp, store_simps]:
  "intent_file (save_state now st fs) = intent_file fs"
  "history_file (save_state now st fs) = history_file fs"
  "history_eol (save_state now st fs) = history_eol fs"
  "plan_file (save_state now st fs) = plan_file fs"
  "diagnose_files (save_state now st fs) = diagnose_files fs"
  "edit_marker (save_state now st fs) = edit_marker fs"
  by (simp_all add: save_state_def)

lemma append_history_frame [simp, store_simps]:
  "state_file (append_history r fs) = state_file fs"
  "intent_file (append_history r fs) = intent_file fs"
  "history_eol (append_history r fs)"
  "plan_file (append_history r fs) = plan_file fs"
  "diagnose_files (append_history r fs) = diagnose_files fs"
  "edit_marker (append_history r fs) = edit_marker fs"
  by (simp_all add: append_history_def Let_def)

lemma load_state_append [simp, store_simps]: "load_state (append_history r fs) = load_state fs"
  by (simp add: load_state_def)

lemma read_plan_version_frame [simp, store_simps]:
  "read_plan_version_from_disk (save_state now st fs) = read_plan_version_from_disk fs"
  "read_plan_version_from_disk (append_history r fs) = read_plan_version_from_disk fs"
  by (simp_all add: read_plan_version_from_disk_def)

lemma read_last_round_save [simp, store_simps]:
  "read_last_history_round (save_state now st fs) = read_last_history_round fs"
  by (simp add: read_last_history_round_def)

text \<open>The round a well-formed row carries is the round the tail reader reports.\<close>

lemma row_round_PInt [simp]: "dget row ''round'' = PInt n \<Longrightarrow> row_round row = Inr (Some n)"
  by (simp add: row_round_def trunc_real_def)

lemma append_history_lines:
  "history_eol fs \<Longrightarrow> history_file (append_history r fs) =
     Some ((case history_file fs of None \<Rightarrow> [] | Some ls \<Rightarrow> ls) @ [HRow (sanitize_dict r)])"
  by (simp add: append_history_def Let_def split: option.splits)

lemma read_last_round_append:
  "history_eol fs \<Longrightarrow> dget r ''round'' = PInt n \<Longrightarrow>
   read_last_history_round (append_history r fs) = Inr (Some n)"
  by (simp add: read_last_history_round_def append_history_lines)

lemma read_phase_save:
  "read_phase (save_state now st fs) =
     (case phase_of (dget (sanitize_dict (fmupd ''last_touched'' (PTime now) st)) ''phase'') of
        Some ph \<Rightarrow> ph | None \<Rightarrow> INIT)"
  by (simp add: read_phase_def)

subsection \<open>The clock field\<close>

text \<open>
  Two directories that differ only in \<open>last_touched\<close> hold the same committed task: every
  save bumps that field, so recovery theorems compare directories up to it.
\<close>

definition untouched :: "task_fs \<Rightarrow> task_fs" where
  "untouched fs = (case load_state fs of
      Some d \<Rightarrow> fs\<lparr>state_file := Json (PDict (fmdrop ''last_touched'' d))\<rparr> | None \<Rightarrow> fs)"

definition same_task :: "task_fs \<Rightarrow> task_fs \<Rightarrow> bool" where
  "same_task a b = (untouched a = untouched b)"

lemma same_task_refl [simp]: "same_task a a"
  by (simp add: same_task_def)

lemma same_task_sym: "same_task a b \<Longrightarrow> same_task b a"
  by (simp add: same_task_def)

lemma same_task_trans: "same_task a b \<Longrightarrow> same_task b c \<Longrightarrow> same_task a c"
  by (simp add: same_task_def)

lemma save_state_now: "save_state t (fmupd ''last_touched'' v st) fs = save_state t st fs"
  by (simp add: save_state_def)

lemma same_task_save:
  "sanitize_dict st = sanitize_dict st' \<Longrightarrow> same_task (save_state t st fs) (save_state t' st' fs)"
  by (simp add: same_task_def untouched_def save_state_def atomic_write_json_def load_state_def
      sanitize_dict_def [symmetric] fmdrop_fmupd)

lemma load_state_untouched:
  "load_state (untouched fs) = map_option (fmdrop ''last_touched'') (load_state fs)"
  by (auto simp: untouched_def load_state_def split: option.splits)

lemma same_task_load:
  "same_task a b \<Longrightarrow>
   map_option (fmdrop ''last_touched'') (load_state a) = map_option (fmdrop ''last_touched'') (load_state b)"
  by (metis load_state_untouched same_task_def)

end
