(* ===== verification/Baseline_Anchor.thy ===== *)
theory Baseline_Anchor
  imports Progress_Model
begin

text \<open>
  \<open>scripts/utils/baseline_anchor.py\<close>: which reference timing anchors the speedups of a
  task, when it is reused and when it is measured again. The digest of \<open>hashlib\<close> and the
  text \<open>str()\<close> gives a float or a container are functions of the environment, collected in
  the record \<open>runtime\<close>.
\<close>

record runtime =
  sha256_hex :: "string \<Rightarrow> string"
  repr_other :: "pyval \<Rightarrow> string"
  fmt1 :: "pyfloat \<Rightarrow> string"

text \<open>\<open>str(v)\<close>.\<close>

definition py_str :: "runtime \<Rightarrow> pyval \<Rightarrow> string" where
  "py_str rt v = (case v of
      PStr s \<Rightarrow> s
    | PInt i \<Rightarrow> int_str i
    | PBool b \<Rightarrow> if b then ''True'' else ''False''
    | PNone \<Rightarrow> ''None''
    | _ \<Rightarrow> repr_other rt v)"

definition valid_metric :: "pyval \<Rightarrow> bool" where
  "valid_metric v = (case num_of v of Some f \<Rightarrow> flt (Fin 0) f \<and> flt f PosInf | None \<Rightarrow> False)"

text \<open>\<open>float(v)\<close> of a number.\<close>

definition to_float :: "pyval \<Rightarrow> pyval" where
  "to_float v = (case num_of v of Some f \<Rightarrow> PFloat f | None \<Rightarrow> v)"

definition valid_per_shape :: "pyval \<Rightarrow> pyval" where
  "valid_per_shape v = (case v of
      PList vs \<Rightarrow> if vs \<noteq> [] \<and> list_all valid_metric vs then PList (map to_float vs) else PNone
    | _ \<Rightarrow> PNone)"

definition shape_signature :: "runtime \<Rightarrow> pyval \<Rightarrow> pyval" where
  "shape_signature rt descs = (case descs of
      PList ds \<Rightarrow> if ds = [] then PNone
                 else PStr (take 16 (sha256_hex rt (join [CHR 0x1F] (map (py_str rt) ds))))
    | _ \<Rightarrow> PNone)"

definition current_fingerprint :: "runtime \<Rightarrow> pyval \<Rightarrow> pyval \<Rightarrow> dict res" where
  "current_fingerprint rt n descs =
     bindR (py_int (py_or n (PInt 1))) (\<lambda>i.
       Inr (fmap_of_list [(''num_cases'', PInt i), (''shape_signature'', shape_signature rt descs)]))"

definition fingerprint_mismatch :: "pyval \<Rightarrow> dict \<Rightarrow> (string, pyval \<times> pyval) fmap option" where
  "fingerprint_mismatch stored current = (case stored of
      PDict d \<Rightarrow>
        if d = fmempty then None
        else let mismatch = fmmap_keys (\<lambda>k v. (dget d k, v))
                              (fmfilter (\<lambda>k. \<not> py_eq (dget d k) (dget current k)) current)
             in if mismatch = fmempty then None else Some mismatch
    | _ \<Rightarrow> None)"

definition exact_fingerprint_match :: "pyval \<Rightarrow> dict \<Rightarrow> bool" where
  "exact_fingerprint_match stored current = (case stored of
      PDict d \<Rightarrow> fmpred (\<lambda>k v. py_eq (dget d k) v) current
    | _ \<Rightarrow> False)"

record StickyOverride =
  so_metric :: pyval
  so_per_shape_us :: pyval

record StickyDecision =
  sd_override :: "StickyOverride option"
  sd_mismatch :: "(string, pyval \<times> pyval) fmap option"

definition sticky_override_from_progress :: "Progress option \<Rightarrow> dict \<Rightarrow> StickyDecision" where
  "sticky_override_from_progress progress fingerprint = (case progress of
      None \<Rightarrow> \<lparr>sd_override = None, sd_mismatch = None\<rparr>
    | Some p \<Rightarrow>
        if \<not> py_eq (baseline_source p) (PStr ''ref'') then \<lparr>sd_override = None, sd_mismatch = None\<rparr>
        else if \<not> valid_metric (baseline_metric p) then \<lparr>sd_override = None, sd_mismatch = None\<rparr>
        else (case fingerprint_mismatch (baseline_fingerprint p) fingerprint of
                Some m \<Rightarrow> \<lparr>sd_override = None, sd_mismatch = Some m\<rparr>
              | None \<Rightarrow> \<lparr>sd_override = Some \<lparr>so_metric = to_float (baseline_metric p),
                           so_per_shape_us = valid_per_shape (baseline_per_shape_us p)\<rparr>,
                         sd_mismatch = None\<rparr>))"

datatype anchor_message =
    StickyMatch | Reanchored | StaleKept | RefCaptured | NoRef | MismatchRefreshed | Backfilled

record AnchorDecision =
  ad_metric :: pyval
  ad_source :: pyval
  ad_per_shape_us :: pyval
  ad_fingerprint :: pyval
  ad_reused_existing :: bool
  ad_changed :: bool
  ad_message :: "anchor_message option"

definition anchor_tuple :: "Progress \<Rightarrow> pyval list" where
  "anchor_tuple p = [baseline_metric p, baseline_source p, baseline_per_shape_us p, baseline_fingerprint p]"

definition anchor_changed :: "Progress \<Rightarrow> AnchorDecision \<Rightarrow> bool" where
  "anchor_changed p d = (\<not> list_all2 py_eq (anchor_tuple p)
      [ad_metric d, ad_source d, ad_per_shape_us d, ad_fingerprint d])"

definition ref_from_metrics :: "dict \<Rightarrow> pyval" where
  "ref_from_metrics m = (let v = dget m ''ref_latency_us'' in if valid_metric v then to_float v else PNone)"

definition per_shape_from_metrics :: "dict \<Rightarrow> pyval" where
  "per_shape_from_metrics m = valid_per_shape (dget m ''per_shape_base_us'')"

definition metrics_fingerprint :: "runtime \<Rightarrow> dict \<Rightarrow> dict res" where
  "metrics_fingerprint rt m =
     current_fingerprint rt (py_or (dget m ''num_cases'') (PInt 1)) (dget m ''per_shape_descs'')"

definition resolve_baseline_init_anchor :: "runtime \<Rightarrow> Progress \<Rightarrow> dict \<Rightarrow> AnchorDecision res" where
  "resolve_baseline_init_anchor rt p metrics =
     (let ref_metric = ref_from_metrics metrics in
      bindR (metrics_fingerprint rt metrics) (\<lambda>fp.
      let fresh = (\<lambda>msg. \<lparr>ad_metric = ref_metric, ad_source = PStr ''ref'',
                         ad_per_shape_us = per_shape_from_metrics metrics,
                         ad_fingerprint = PDict fp, ad_reused_existing = False,
                         ad_changed = True, ad_message = Some msg\<rparr>);
          keep = (\<lambda>msg. \<lparr>ad_metric = to_float (baseline_metric p), ad_source = PStr ''ref'',
                        ad_per_shape_us = valid_per_shape (baseline_per_shape_us p),
                        ad_fingerprint = baseline_fingerprint p, ad_reused_existing = True,
                        ad_changed = False, ad_message = Some msg\<rparr>)
      in Inr (if valid_metric (baseline_metric p) \<and> py_eq (baseline_source p) (PStr ''ref'') then
                (if exact_fingerprint_match (baseline_fingerprint p) fp then keep StickyMatch
                 else if ref_metric \<noteq> PNone then fresh Reanchored
                 else keep StaleKept)
              else if ref_metric \<noteq> PNone then fresh RefCaptured
              else \<lparr>ad_metric = PNone, ad_source = PStr ''none'', ad_per_shape_us = PNone,
                    ad_fingerprint = PNone, ad_reused_existing = False, ad_changed = True,
                    ad_message = Some NoRef\<rparr>)))"

definition refresh_round_anchor :: "runtime \<Rightarrow> Progress \<Rightarrow> dict \<Rightarrow> AnchorDecision res" where
  "refresh_round_anchor rt p metrics =
     (let ref_metric = ref_from_metrics metrics in
      bindR (metrics_fingerprint rt metrics) (\<lambda>fp.
      let existing_per_shape = valid_per_shape (baseline_per_shape_us p) in
      Inr (if valid_metric (baseline_metric p) \<and> py_eq (baseline_source p) (PStr ''ref'') then
             (if fingerprint_mismatch (baseline_fingerprint p) fp \<noteq> None \<and> ref_metric \<noteq> PNone then
                \<lparr>ad_metric = ref_metric, ad_source = PStr ''ref'',
                 ad_per_shape_us = per_shape_from_metrics metrics, ad_fingerprint = PDict fp,
                 ad_reused_existing = False, ad_changed = True, ad_message = Some MismatchRefreshed\<rparr>
              else
                \<lparr>ad_metric = to_float (baseline_metric p), ad_source = PStr ''ref'',
                 ad_per_shape_us = existing_per_shape, ad_fingerprint = baseline_fingerprint p,
                 ad_reused_existing = True, ad_changed = False, ad_message = None\<rparr>)
           else if ref_metric \<noteq> PNone then
             (let decision = \<lparr>ad_metric = ref_metric, ad_source = PStr ''ref'',
                 ad_per_shape_us = per_shape_from_metrics metrics, ad_fingerprint = PDict fp,
                 ad_reused_existing = False, ad_changed = True, ad_message = Some Backfilled\<rparr>
              in decision\<lparr>ad_changed := anchor_changed p decision\<rparr>)
           else
             \<lparr>ad_metric = (if valid_metric (baseline_metric p) then to_float (baseline_metric p) else PNone),
              ad_source = baseline_source p, ad_per_shape_us = existing_per_shape,
              ad_fingerprint = baseline_fingerprint p, ad_reused_existing = True,
              ad_changed = False, ad_message = None\<rparr>)))"

subsection \<open>Facts about the anchor\<close>

text \<open>The anchor fields a decision writes into the progress record.\<close>

definition with_anchor :: "Progress \<Rightarrow> AnchorDecision \<Rightarrow> Progress" where
  "with_anchor p d = p\<lparr>baseline_metric := ad_metric d, baseline_source := ad_source d,
     baseline_per_shape_us := ad_per_shape_us d, baseline_fingerprint := ad_fingerprint d\<rparr>"

definition anchored :: "Progress \<Rightarrow> bool" where
  "anchored p = (valid_metric (baseline_metric p) \<and> baseline_source p = PStr ''ref'')"

lemma num_of_to_float [simp]: "num_of (to_float v) = num_of v"
  by (cases v) (simp_all add: to_float_def)

lemma valid_metric_to_float [simp]: "valid_metric (to_float v) = valid_metric v"
  by (simp add: valid_metric_def)

lemma to_float_idem [simp]: "to_float (to_float v) = to_float v"
  by (simp add: to_float_def [of "to_float v"] split: option.split) (simp add: to_float_def)

lemma not_valid_PNone [simp]: "\<not> valid_metric PNone"
  by (simp add: valid_metric_def)

lemma valid_metric_iff: "valid_metric v \<longleftrightarrow> (\<exists>r>0. num_of v = Some (Fin r))"
  using flt_Fin0_PosInf by (auto simp: valid_metric_def split: option.splits)

lemma valid_per_shape_idem [simp]: "valid_per_shape (valid_per_shape v) = valid_per_shape v"
  by (cases v) (auto simp: valid_per_shape_def list_all_iff)

lemma ref_from_metrics_valid: "ref_from_metrics m \<noteq> PNone \<Longrightarrow> valid_metric (ref_from_metrics m)"
  by (auto simp: ref_from_metrics_def Let_def split: if_splits)

lemma ref_from_metrics_float [simp]: "to_float (ref_from_metrics m) = ref_from_metrics m"
  by (auto simp: ref_from_metrics_def Let_def to_float_def [of PNone])

lemma per_shape_from_metrics_idem [simp]:
  "valid_per_shape (per_shape_from_metrics m) = per_shape_from_metrics m"
  by (simp add: per_shape_from_metrics_def)

lemma fingerprint_not_NaN: "metrics_fingerprint rt m = Inr fp \<Longrightarrow> fmlookup fp k = Some v \<Longrightarrow> v \<noteq> PFloat NaN"
  by (auto simp: metrics_fingerprint_def current_fingerprint_def shape_signature_def fmlookup_of_list
      split: if_splits pyval.splits)

lemma fingerprint_self: "metrics_fingerprint rt m = Inr fp \<Longrightarrow> fingerprint_mismatch (PDict fp) fp = None"
proof -
  assume fp: "metrics_fingerprint rt m = Inr fp"
  have "fmfilter (\<lambda>k. \<not> py_eq (dget fp k) (dget fp k)) fp = fmempty"
    using fingerprint_not_NaN [OF fp]
    by (intro fmap_ext) (auto simp: py_eq_def dget_def split: option.splits)
  moreover have "fmmap_keys f fmempty = fmempty" for f :: "string \<Rightarrow> pyval \<Rightarrow> pyval \<times> pyval"
    by (rule fmap_ext) simp
  ultimately show ?thesis by (simp add: fingerprint_mismatch_def Let_def)
qed

lemma refresh_fingerprint:
  "refresh_round_anchor rt p m = Inr d \<Longrightarrow> \<exists>fp. metrics_fingerprint rt m = Inr fp"
  by (auto simp: refresh_round_anchor_def Let_def)

lemma refresh_cases:
  assumes "refresh_round_anchor rt p m = Inr d" and "metrics_fingerprint rt m = Inr fp"
  obtains
    (fresh) "ref_from_metrics m \<noteq> PNone" "ad_metric d = ref_from_metrics m" "ad_source d = PStr ''ref''"
      "ad_per_shape_us d = per_shape_from_metrics m" "ad_fingerprint d = PDict fp"
      "\<not> ad_reused_existing d" "anchored p \<Longrightarrow> fingerprint_mismatch (baseline_fingerprint p) fp \<noteq> None"
  | (keep) "anchored p" "ad_metric d = to_float (baseline_metric p)" "ad_source d = PStr ''ref''"
      "ad_per_shape_us d = valid_per_shape (baseline_per_shape_us p)"
      "ad_fingerprint d = baseline_fingerprint p" "ad_reused_existing d"
      "fingerprint_mismatch (baseline_fingerprint p) fp = None \<or> ref_from_metrics m = PNone"
  | (none) "\<not> anchored p" "ref_from_metrics m = PNone"
      "ad_metric d = (if valid_metric (baseline_metric p) then to_float (baseline_metric p) else PNone)"
      "ad_source d = baseline_source p" "ad_per_shape_us d = valid_per_shape (baseline_per_shape_us p)"
      "ad_fingerprint d = baseline_fingerprint p" "ad_reused_existing d"
proof -
  have a: "anchored p \<longleftrightarrow> valid_metric (baseline_metric p) \<and> py_eq (baseline_source p) (PStr ''ref'')"
    by (simp add: anchored_def py_eq_PStr_iff)
  consider (1) "anchored p" "fingerprint_mismatch (baseline_fingerprint p) fp \<noteq> None" "ref_from_metrics m \<noteq> PNone"
    | (2) "anchored p" "fingerprint_mismatch (baseline_fingerprint p) fp = None \<or> ref_from_metrics m = PNone"
    | (3) "\<not> anchored p" "ref_from_metrics m \<noteq> PNone" | (4) "\<not> anchored p" "ref_from_metrics m = PNone"
    by satx
  then show thesis
  proof cases
    case 1
    then show thesis using assms by (intro fresh) (auto simp: refresh_round_anchor_def Let_def a)
  next
    case 2
    then show thesis using assms by (intro keep) (auto simp: refresh_round_anchor_def Let_def a)
  next
    case 3
    then show thesis using assms by (intro fresh) (auto simp: refresh_round_anchor_def Let_def a)
  next
    case 4
    then show thesis using assms by (intro none) (auto simp: refresh_round_anchor_def Let_def a)
  qed
qed

lemma anchored_with_anchor [simp]:
  "anchored (with_anchor p d) \<longleftrightarrow> valid_metric (ad_metric d) \<and> ad_source d = PStr ''ref''"
  by (simp add: anchored_def with_anchor_def)

lemma with_anchor_fields [simp]:
  "baseline_metric (with_anchor p d) = ad_metric d" "baseline_source (with_anchor p d) = ad_source d"
  "baseline_per_shape_us (with_anchor p d) = ad_per_shape_us d"
  "baseline_fingerprint (with_anchor p d) = ad_fingerprint d"
  by (simp_all add: with_anchor_def)

lemma with_anchor_same:
  "ad_metric e = ad_metric d \<Longrightarrow> ad_source e = ad_source d \<Longrightarrow> ad_per_shape_us e = ad_per_shape_us d \<Longrightarrow>
   ad_fingerprint e = ad_fingerprint d \<Longrightarrow> with_anchor (with_anchor p d) e = with_anchor p d"
  by (simp add: with_anchor_def)

lemma refresh_total:
  "metrics_fingerprint rt m = Inr fp \<Longrightarrow> \<exists>d. refresh_round_anchor rt p m = Inr d"
  by (auto simp: refresh_round_anchor_def Let_def)

lemma refresh_stable:
  assumes "refresh_round_anchor rt p m = Inr d" and "refresh_round_anchor rt (with_anchor p d) m = Inr e"
  shows "ad_reused_existing e \<and> with_anchor (with_anchor p d) e = with_anchor p d"
proof -
  obtain fp where fp: "metrics_fingerprint rt m = Inr fp" using refresh_fingerprint [OF assms(1)] ..
  note self = fingerprint_self [OF fp] and valid = ref_from_metrics_valid [of m]
  show ?thesis
    by (cases rule: refresh_cases [OF assms(1) fp]; cases rule: refresh_cases [OF assms(2) fp])
       (use self valid in \<open>auto simp: anchored_def intro!: with_anchor_same split: if_splits\<close>)
qed

subsection \<open>Properties\<close>

text \<open>
  The reference anchor of a task is sticky: a round never loses a valid anchor, a fresh
  reference timing is adopted exactly when there is no valid anchor or the evaluated shapes
  differ from those it was measured on, the timing the evaluator was told to reuse is the one
  the round keeps, and evaluating the same shapes again leaves the anchor as it is.
\<close>

theorem refresh_round_anchor_sticky:
  assumes "refresh_round_anchor rt p m = Inr d" and "metrics_fingerprint rt m = Inr fp"
  shows "(anchored p \<or> ref_from_metrics m \<noteq> PNone \<longrightarrow> anchored (with_anchor p d))
     \<and> (\<not> ad_reused_existing d \<longleftrightarrow> ref_from_metrics m \<noteq> PNone \<and>
          (\<not> anchored p \<or> fingerprint_mismatch (baseline_fingerprint p) fp \<noteq> None))
     \<and> (\<forall>ov. sd_override (sticky_override_from_progress (Some p) fp) = Some ov \<longrightarrow>
          ad_metric d = so_metric ov \<and> ad_per_shape_us d = so_per_shape_us ov \<and> ad_reused_existing d)
     \<and> (\<exists>e. refresh_round_anchor rt (with_anchor p d) m = Inr e \<and> ad_reused_existing e
          \<and> with_anchor (with_anchor p d) e = with_anchor p d)"
proof -
  have keeps: "anchored p \<or> ref_from_metrics m \<noteq> PNone \<longrightarrow> anchored (with_anchor p d)"
    by (cases rule: refresh_cases [OF assms])
       (use ref_from_metrics_valid [of m] in \<open>auto simp: anchored_def\<close>)
  have fresh: "\<not> ad_reused_existing d \<longleftrightarrow> ref_from_metrics m \<noteq> PNone \<and>
      (\<not> anchored p \<or> fingerprint_mismatch (baseline_fingerprint p) fp \<noteq> None)"
    by (cases rule: refresh_cases [OF assms]) auto
  have over: "ad_metric d = so_metric ov \<and> ad_per_shape_us d = so_per_shape_us ov \<and> ad_reused_existing d"
    if "sd_override (sticky_override_from_progress (Some p) fp) = Some ov" for ov
  proof -
    have ov: "anchored p" "fingerprint_mismatch (baseline_fingerprint p) fp = None"
        "ov = \<lparr>so_metric = to_float (baseline_metric p),
               so_per_shape_us = valid_per_shape (baseline_per_shape_us p)\<rparr>"
      using that by (auto simp: sticky_override_from_progress_def anchored_def py_eq_PStr_iff
          split: if_splits option.splits)
    show ?thesis by (cases rule: refresh_cases [OF assms]) (use ov in auto)
  qed
  obtain e where e: "refresh_round_anchor rt (with_anchor p d) m = Inr e"
    using refresh_total [OF assms(2)] by blast
  with refresh_stable [OF assms(1) e] keeps fresh over show ?thesis by blast
qed

definition demo_runtime :: runtime where
  "demo_runtime = \<lparr>sha256_hex = (\<lambda>s. s), repr_other = (\<lambda>_. ''?''), fmt1 = (\<lambda>_. ''0.0'')\<rparr>"

theorem refresh_round_anchor_sticky_witness:
  "anchored (with_anchor Progress_default \<lparr>ad_metric = PFloat (Fin 5), ad_source = PStr ''ref'',
      ad_per_shape_us = PNone, ad_fingerprint = PDict (fmap_of_list
        [(''num_cases'', PInt 1), (''shape_signature'', PNone)]),
      ad_reused_existing = False, ad_changed = True, ad_message = Some Backfilled\<rparr>)"
proof -
  let ?m = "fmap_of_list [(''ref_latency_us'', PInt 5)]"
  let ?fp = "fmap_of_list [(''num_cases'', PInt 1), (''shape_signature'', PNone)]"
  have f: "metrics_fingerprint demo_runtime ?m = Inr ?fp"
    by (simp add: metrics_fingerprint_def current_fingerprint_def dget_def fmlookup_of_list py_or_def
        shape_signature_def)
  have d: "refresh_round_anchor demo_runtime Progress_default ?m = Inr \<lparr>ad_metric = PFloat (Fin 5),
      ad_source = PStr ''ref'', ad_per_shape_us = PNone, ad_fingerprint = PDict ?fp,
      ad_reused_existing = False, ad_changed = True, ad_message = Some Backfilled\<rparr>"
    by (simp add: refresh_round_anchor_def f [simplified] ref_from_metrics_def valid_metric_def dget_def
        to_float_def Progress_default_def per_shape_from_metrics_def valid_per_shape_def anchor_changed_def
        anchor_tuple_def py_eq_def)
  from refresh_round_anchor_sticky [OF d f] show ?thesis
    by (simp add: ref_from_metrics_def valid_metric_def dget_def fmlookup_of_list to_float_def)
qed

end
