(* ===== verification/Plan_Parser.thy ===== *)
theory Plan_Parser
  imports State_Store Baseline_Anchor
begin

text \<open>
  \<open>scripts/phase_machine/validators.py\<close>: the parser of \<open>plan.md\<close> and the validators that
  gate a phase. Each regular expression is translated by hand into the scan it performs; the
  patterns are deterministic, so the greedy scan finds the match whenever there is one.
\<close>

record plan_item =
  pi_id :: string
  pi_description :: string
  pi_done :: bool
  pi_active :: bool
  pi_tag :: string
  pi_rationale :: string
  pi_skill :: string

definition active_mark :: string where
  "active_mark = ''(ACTIVE)''"

subsection \<open>The patterns\<close>

text \<open>\<open>_PLAN_ITEM_RE\<close> at the start of a line: the box character, the id and the rest.\<close>

definition match_item :: "string \<Rightarrow> (char \<times> string \<times> string) option" where
  "match_item line =
     (case lstrip line of
        CHR ''-'' # r1 \<Rightarrow>
          (case lstrip r1 of
             CHR ''['' # c # CHR '']'' # r3 \<Rightarrow>
               (let r4 = lstrip r3 in
                if (c = CHR '' '' \<or> c = CHR ''x'') \<and> starts_with ''**'' r4
                then let r5 = drop 2 r4; pid = takeWhile is_word r5; r6 = dropWhile is_word r5
                     in if pid \<noteq> [] \<and> starts_with ''**'' r6
                        then Some (c, pid, takeWhile (\<lambda>x. x \<noteq> newline) (lstrip (drop 2 r6)))
                        else None
                else None)
           | _ \<Rightarrow> None)
      | _ \<Rightarrow> None)"

text \<open>\<open>_PLAN_TAG_RE\<close>: a bracketed tag, an optional colon, the remainder.\<close>

definition match_tag :: "string \<Rightarrow> (string \<times> string) option" where
  "match_tag s =
     (case s of
        CHR ''['' # r \<Rightarrow>
          (case dropWhile (\<lambda>c. c \<noteq> CHR '']'') r of
             [] \<Rightarrow> None
           | _ # r2 \<Rightarrow>
               (let r3 = (case r2 of CHR '':'' # r' \<Rightarrow> r' | _ \<Rightarrow> r2)
                in Some (takeWhile (\<lambda>c. c \<noteq> CHR '']'') r,
                         takeWhile (\<lambda>x. x \<noteq> newline) (lstrip r3))))
      | _ \<Rightarrow> None)"

text \<open>\<open>_PLAN_SKILL_RE.search\<close>; the flag says whether the previous character is in \<open>[\w.-]\<close>.\<close>

definition is_skill_char :: "char \<Rightarrow> bool" where
  "is_skill_char c = (is_word c \<or> c = CHR ''.'' \<or> c = CHR ''-'')"

fun skill_search :: "bool \<Rightarrow> string \<Rightarrow> bool" where
  "skill_search prev [] = False"
| "skill_search prev (c # cs) =
     ((prev \<and> (c = CHR ''/'' \<or> c = CHR 0x5C) \<and> map lower (take 8 cs) = ''skill.md''
        \<and> (case drop 8 cs of [] \<Rightarrow> True | d # _ \<Rightarrow> \<not> is_word d))
      \<or> skill_search (is_skill_char c) cs)"

definition is_settled_table_header :: "string \<Rightarrow> bool" where
  "is_settled_table_header line =
     (let s = strip line in starts_with ''|'' s \<and> contains ''Item'' s \<and> contains ''Outcome'' s)"

definition lstrip_colon :: "string \<Rightarrow> string" where
  "lstrip_colon s = dropWhile (\<lambda>c. c = CHR '':'' \<or> c = CHR '' '') s"

subsection \<open>parse_plan_text\<close>

definition after_colon :: "string \<Rightarrow> string" where
  "after_colon s = drop 1 (dropWhile (\<lambda>c. c \<noteq> CHR '':'') s)"

fun scan_meta :: "string list \<Rightarrow> string \<Rightarrow> string \<Rightarrow> string \<times> string" where
  "scan_meta [] rationale skill = (rationale, skill)"
| "scan_meta (l # ls) rationale skill =
     (let sub = strip l in
      if starts_with ''- rationale:'' sub then scan_meta ls (strip (after_colon sub)) skill
      else if starts_with ''- skill:'' sub then scan_meta ls rationale (strip (after_colon sub))
      else if starts_with ''- '' sub \<and> \<not> starts_with ''- ['' sub then scan_meta ls rationale skill
      else (rationale, skill))"

definition clean_desc :: "string \<Rightarrow> string" where
  "clean_desc s = strip (lstrip_colon (strip (replace_all active_mark [] s)))"

definition item_of_match :: "char \<Rightarrow> string \<Rightarrow> string \<Rightarrow> string \<times> string \<Rightarrow> plan_item" where
  "item_of_match c pid g3 meta =
     (let rest = strip g3;
          tag = (case match_tag rest of Some (t, _) \<Rightarrow> strip t | None \<Rightarrow> []);
          rest' = (case match_tag rest of Some (_, r) \<Rightarrow> r | None \<Rightarrow> rest)
      in \<lparr>pi_id = pid, pi_description = clean_desc rest', pi_done = (c = CHR ''x''),
          pi_active = contains active_mark rest, pi_tag = tag,
          pi_rationale = fst meta, pi_skill = snd meta\<rparr>)"

fun parse_lines :: "bool \<Rightarrow> string list \<Rightarrow> plan_item list" where
  "parse_lines include_meta [] = []"
| "parse_lines include_meta (l # ls) =
     (case match_item l of
        None \<Rightarrow> parse_lines include_meta ls
      | Some (c, pid, g3) \<Rightarrow>
          item_of_match c pid g3 (if include_meta then scan_meta ls [] [] else ([], []))
          # parse_lines include_meta ls)"

definition parse_plan_text :: "string \<Rightarrow> bool \<Rightarrow> plan_item list" where
  "parse_plan_text text include_meta = parse_lines include_meta (split_lines text)"

definition get_plan_items :: "task_fs \<Rightarrow> bool \<Rightarrow> plan_item list" where
  "get_plan_items fs include_meta =
     (case plan_file fs of None \<Rightarrow> [] | Some text \<Rightarrow> parse_plan_text text include_meta)"

definition has_pending_items :: "task_fs \<Rightarrow> bool" where
  "has_pending_items fs = list_ex (\<lambda>it. \<not> pi_done it) (get_plan_items fs False)"

definition get_active_item :: "task_fs \<Rightarrow> plan_item option" where
  "get_active_item fs = find (\<lambda>it. pi_active it \<and> \<not> pi_done it) (get_plan_items fs True)"

subsection \<open>Validators\<close>

datatype plan_error =
    NoPlan
  | TooFewItems nat
  | RationaleTooShort string nat
  | RationaleTooLong string nat
  | BadSkill string
  | ActiveCount nat

fun item_error :: "plan_item list \<Rightarrow> plan_error option" where
  "item_error [] = None"
| "item_error (it # its) =
     (let n = length (pi_rationale it) in
      if n < 30 then Some (RationaleTooShort (pi_id it) n)
      else if 400 < n then Some (RationaleTooLong (pi_id it) n)
      else if \<not> skill_search False (pi_skill it) then Some (BadSkill (pi_id it))
      else item_error its)"

text \<open>\<open>validate_plan\<close>: the reason for refusing the plan, or none.\<close>

definition validate_plan :: "task_fs \<Rightarrow> plan_error option" where
  "validate_plan fs =
     (if plan_file fs = None then Some NoPlan
      else let items = get_plan_items fs True;
               pending = filter (\<lambda>it. \<not> pi_done it) items;
               n_active = length (filter pi_active pending)
           in if length items < 3 then Some (TooFewItems (length items))
              else case item_error pending of
                     Some e \<Rightarrow> Some e
                   | None \<Rightarrow> if n_active \<noteq> 1 then Some (ActiveCount n_active) else None)"

datatype diagnose_error =
    InvalidVersion
  | MissingArtifact
  | EmptyArtifact
  | MissingMarker
  | MissingSections "string list"

definition diagnose_required_sections :: "string list" where
  "diagnose_required_sections = [''Root cause'', ''Fix directions'', ''What to avoid'']"

definition diagnose_marker :: "string \<Rightarrow> string" where
  "diagnose_marker v = ''[AR DIAGNOSE COMPLETE marker_v'' @ v @ '']''"

definition validate_diagnose :: "runtime \<Rightarrow> task_fs \<Rightarrow> pyval \<Rightarrow> diagnose_error option res" where
  "validate_diagnose rt fs pv =
     bindR (if pv = PNone then Inr True else py_lt pv (PInt 0)) (\<lambda>invalid.
       if invalid then Inr (Some InvalidVersion)
       else case fmlookup (diagnose_files fs) (py_str rt pv) of
          None \<Rightarrow> Inr (Some MissingArtifact)
        | Some body \<Rightarrow>
            if strip body = [] then Inr (Some EmptyArtifact)
            else if \<not> contains (diagnose_marker (py_str rt pv)) body then Inr (Some MissingMarker)
            else let missing = filter (\<lambda>s. \<not> contains s body) diagnose_required_sections
                 in Inr (if missing \<noteq> [] then Some (MissingSections missing) else None))"

datatype diagnose_action = NEED_DIAGNOSIS | DIAGNOSIS_READY | MANUAL_FALLBACK

record DiagnoseState =
  ds_plan_version :: pyval
  ds_attempts :: pyval
  ds_action :: diagnose_action
  ds_reason :: "diagnose_error option"

definition diagnose_state :: "runtime \<Rightarrow> config \<Rightarrow> task_fs \<Rightarrow> DiagnoseState res" where
  "diagnose_state rt cfg fs =
     (let d = (case load_progress fs of Some p \<Rightarrow> to_dict p | None \<Rightarrow> fmempty);
          pv = py_or (dget_default d ''plan_version'' (PInt 0)) (PInt 0);
          attempts = (if py_eq (dget d ''diagnose_attempts_for_version'') pv
                      then py_or (dget_default d ''diagnose_attempts'' (PInt 0)) (PInt 0) else PInt 0)
      in bindR (validate_diagnose rt fs pv) (\<lambda>err.
         bindR (py_ge attempts (PInt (diagnose_max_attempts cfg))) (\<lambda>exhausted.
           Inr \<lparr>ds_plan_version = pv, ds_attempts = attempts,
                ds_action = (if err = None then DIAGNOSIS_READY
                             else if exhausted then MANUAL_FALLBACK else NEED_DIAGNOSIS),
                ds_reason = err\<rparr>)))"

end
