(* ===== verification/Plan_Store.thy ===== *)
theory Plan_Store
  imports Plan_Parser
begin

text \<open>
  \<open>scripts/workflow/planning.py\<close>: the owner of \<open>plan.md\<close>. Rendering a fresh plan,
  carrying the settled history over, settling the active item and allocating ids. Functions
  on the text of the file; the operations on a task directory replace \<open>plan_file\<close> in one
  step, because the code writes it through \<open>atomic_write_text\<close>.
\<close>

record plan_input =
  in_desc :: string
  in_rationale :: string
  in_skill :: string

subsection \<open>Settled history\<close>

fun settled_lines :: "bool \<Rightarrow> string list \<Rightarrow> string list" where
  "settled_lines in_table [] = []"
| "settled_lines in_table (l # ls) =
     (if is_settled_table_header l then settled_lines True ls
      else if in_table \<and> starts_with ''|---'' (strip l) then settled_lines in_table ls
      else if in_table \<and> starts_with ''|'' (strip l) then l # settled_lines in_table ls
      else settled_lines False ls)"

definition settled_text :: "string \<Rightarrow> string" where
  "settled_text text =
     (let rows = settled_lines False (split_lines text)
      in if rows = [] then [] else join_lines rows @ [newline])"

definition parse_settled_history :: "task_fs \<Rightarrow> string" where
  "parse_settled_history fs = (case plan_file fs of None \<Rightarrow> [] | Some text \<Rightarrow> settled_text text)"

definition parse_pending :: "task_fs \<Rightarrow> plan_item list" where
  "parse_pending fs = filter (\<lambda>it. \<not> pi_done it) (get_plan_items fs False)"

subsection \<open>Plan ids\<close>

text \<open>The ids \<open>re.finditer\<close> finds for \<open>\*\*p(\d+)\*\*\<close>, left to right without overlap.\<close>

function scan_pids :: "string \<Rightarrow> nat list" where
  "scan_pids s =
     (if s = [] then []
      else let ds = takeWhile is_digit (drop 3 s); rest = dropWhile is_digit (drop 3 s)
           in if starts_with ''**p'' s \<and> ds \<noteq> [] \<and> starts_with ''**'' rest
              then digits_val ds # scan_pids (drop 2 rest)
              else scan_pids (tl s))"
  by pat_completeness auto
termination
proof (relation "measure length", goal_cases)
  case (2 s ds rest)
  have "length rest \<le> length (drop 3 s)" using 2 length_dropWhile_le [of is_digit "drop 3 s"] by simp
  then show ?case using 2 by (cases s) auto
qed auto

declare scan_pids.simps [simp del]

definition compute_next_pid :: "pyval \<Rightarrow> task_fs \<Rightarrow> pyval" where
  "compute_next_pid progress_next_pid fs =
     (if truthy progress_next_pid then progress_next_pid
      else PInt (case plan_file fs of
             None \<Rightarrow> 1
           | Some text \<Rightarrow> int (fold (\<lambda>p n. max n (p + 1)) (scan_pids text) 1)))"

text \<open>\<open>v + i\<close> for an integer \<open>i\<close>.\<close>

definition py_add :: "pyval \<Rightarrow> int \<Rightarrow> pyval res" where
  "py_add v i = (case v of
      PInt j \<Rightarrow> Inr (PInt (j + i))
    | PBool b \<Rightarrow> Inr (PInt ((if b then 1 else 0) + i))
    | PFloat f \<Rightarrow> Inr (PFloat (fadd f (Fin (of_int i))))
    | _ \<Rightarrow> Inl TypeError)"

fun alloc_from :: "runtime \<Rightarrow> pyval \<Rightarrow> int \<Rightarrow> nat \<Rightarrow> string list res" where
  "alloc_from rt v i 0 = Inr []"
| "alloc_from rt v i (Suc n) =
     bindR (py_add v i) (\<lambda>w. bindR (alloc_from rt v (i + 1) n) (\<lambda>ids.
       Inr ((CHR ''p'' # py_str rt w) # ids)))"

definition allocate_ids :: "runtime \<Rightarrow> nat \<Rightarrow> pyval \<Rightarrow> (string list \<times> pyval) res" where
  "allocate_ids rt n v =
     bindR (alloc_from rt v 0 n) (\<lambda>ids. bindR (py_add v (int n)) (\<lambda>w. Inr (ids, w)))"

subsection \<open>Rendering\<close>

definition item_lines :: "string \<Rightarrow> plan_input \<Rightarrow> string \<Rightarrow> string list" where
  "item_lines marker it pid =
     [''- [ ] **'' @ pid @ ''**'' @ marker @ '': '' @ strip (in_desc it),
      ''  - rationale: '' @ strip (in_rationale it)]
     @ (if in_skill it \<noteq> [] then [''  - skill: '' @ strip (in_skill it)] else [])"

fun active_lines :: "string \<Rightarrow> (plan_input \<times> string) list \<Rightarrow> string list" where
  "active_lines marker [] = []"
| "active_lines marker ((it, pid) # rest) = item_lines marker it pid @ active_lines [] rest"

definition table_header :: string where
  "table_header = ''| Item | Outcome | Metric | Reason |''"

definition table_rule :: string where
  "table_rule = ''|------|---------|--------|--------|''"

definition render_lines :: "string \<Rightarrow> string list \<Rightarrow> plan_input list \<Rightarrow> string \<Rightarrow> string list" where
  "render_lines version ids items settled_rows =
     [''# Plan v'' @ version, [], ''## Active Items'']
     @ active_lines '' (ACTIVE)'' (zip items ids)
     @ [[], ''## Settled History'', table_header, table_rule]
     @ (if settled_rows \<noteq> [] then [rstrip settled_rows] else [])"

definition render :: "string \<Rightarrow> string list \<Rightarrow> plan_input list \<Rightarrow> string \<Rightarrow> string" where
  "render version ids items settled_rows =
     join_lines (render_lines version ids items settled_rows) @ [newline]"

definition write_plan :: "string \<Rightarrow> string list \<Rightarrow> plan_input list \<Rightarrow> string \<Rightarrow> task_fs \<Rightarrow> task_fs" where
  "write_plan version ids items settled_rows fs =
     fs\<lparr>plan_file := Some (render version ids items settled_rows)\<rparr>"

subsection \<open>Settlement\<close>

definition settle_tag :: "runtime \<Rightarrow> pyval \<Rightarrow> pyval \<Rightarrow> string res" where
  "settle_tag rt decision metric =
     (if py_eq decision (PStr ''KEEP'') \<and> metric \<noteq> PNone then
        (case num_of metric of
           Some f \<Rightarrow> Inr (''[KEEP, metric='' @ fmt1 rt f @ '']'')
         | None \<Rightarrow> Inl (case metric of PStr _ \<Rightarrow> ValueError | PTime _ \<Rightarrow> ValueError | _ \<Rightarrow> TypeError))
      else if py_eq decision (PStr ''DISCARD'') then Inr ''[DISCARD]''
      else Inr ''[FAIL]'')"

text \<open>The first line the predicate holds of, with its index and its match.\<close>

fun find_item :: "(nat \<Rightarrow> string \<Rightarrow> bool) \<Rightarrow> nat \<Rightarrow> string list \<Rightarrow> (nat \<times> string \<times> string) option" where
  "find_item P i [] = None"
| "find_item P i (l # ls) =
     (case match_item l of
        Some (c, pid, g3) \<Rightarrow>
          if c = CHR '' '' \<and> P i l then Some (i, pid, g3) else find_item P (Suc i) ls
      | None \<Rightarrow> find_item P (Suc i) ls)"

definition before_box :: "string \<Rightarrow> string" where
  "before_box line = (case index_of ''[ ]'' line of Some b \<Rightarrow> take b line | None \<Rightarrow> line)"

definition settled_desc :: "string \<Rightarrow> string" where
  "settled_desc g3 = clean_desc g3"

definition settled_line :: "string \<Rightarrow> string \<Rightarrow> string \<Rightarrow> string \<Rightarrow> string" where
  "settled_line line pid tag rest = before_box line @ ''[x] **'' @ pid @ ''** '' @ tag @ '': '' @ rest"

definition promoted_line :: "string \<Rightarrow> string \<Rightarrow> string \<Rightarrow> string" where
  "promoted_line line pid g3 =
     before_box line @ ''[ ] **'' @ pid @ ''** (ACTIVE): '' @ strip (lstrip_colon g3)"

definition history_line :: "runtime \<Rightarrow> string \<Rightarrow> pyval \<Rightarrow> pyval \<Rightarrow> string \<Rightarrow> string" where
  "history_line rt pid decision metric desc =
     ''| '' @ pid @ '' | '' @ py_str rt decision @ '' | ''
     @ (if metric \<noteq> PNone then py_str rt metric else ''N/A'') @ '' | '' @ desc @ '' |''"

text \<open>The insertion point: behind the rows of the last table header.\<close>

fun last_header :: "nat \<Rightarrow> string list \<Rightarrow> nat option" where
  "last_header i [] = None"
| "last_header i (l # ls) =
     (case last_header (Suc i) ls of
        Some j \<Rightarrow> Some j
      | None \<Rightarrow> if is_settled_table_header l then Some i else None)"

definition is_row :: "string \<Rightarrow> bool" where
  "is_row l = starts_with ''|'' (strip l)"

definition table_end :: "string list \<Rightarrow> nat option" where
  "table_end ls = map_option (\<lambda>i. i + 2 + length (takeWhile is_row (drop (i + 2) ls))) (last_header 0 ls)"

definition insert_line :: "nat \<Rightarrow> string \<Rightarrow> string list \<Rightarrow> string list" where
  "insert_line n x ls = take n ls @ x # drop n ls"

text \<open>The three passes over the lines: settle the active item, promote the next pending one, log a row.\<close>

definition promote_next :: "nat \<Rightarrow> string list \<Rightarrow> string list" where
  "promote_next a lines = (case find_item (\<lambda>i l. i \<noteq> a \<and> \<not> contains active_mark l) 0 lines of
      None \<Rightarrow> lines
    | Some (b, pid, g3) \<Rightarrow> lines[b := promoted_line (lines ! b) pid g3])"

definition append_row :: "string \<Rightarrow> string list \<Rightarrow> string list" where
  "append_row row lines = (case table_end lines of None \<Rightarrow> lines | Some n \<Rightarrow> insert_line n row lines)"

definition settle_lines ::
    "runtime \<Rightarrow> pyval \<Rightarrow> pyval \<Rightarrow> string list \<Rightarrow> (string list \<times> string \<times> string) res" where
  "settle_lines rt decision metric lines =
     bindR (settle_tag rt decision metric) (\<lambda>tag.
       case find_item (\<lambda>_ l. contains active_mark l) 0 lines of
         None \<Rightarrow> Inl (RuntimeError ''no (ACTIVE) item found in plan.md'')
       | Some (a, pid, g3) \<Rightarrow>
           let desc = settled_desc g3;
               row = history_line rt pid decision metric desc
           in Inr (append_row row (promote_next a (lines[a := settled_line (lines ! a) pid tag desc])),
                   pid, desc))"

definition settle_active ::
    "runtime \<Rightarrow> pyval \<Rightarrow> pyval \<Rightarrow> task_fs \<Rightarrow> (task_fs \<times> string \<times> string) res" where
  "settle_active rt decision metric fs = (case plan_file fs of
      None \<Rightarrow> Inl (RuntimeError ''plan.md not found'')
    | Some text \<Rightarrow>
        bindR (settle_lines rt decision metric (split_lines text)) (\<lambda>(ls, pid, desc).
          Inr (fs\<lparr>plan_file := Some (join_lines ls)\<rparr>, pid, desc)))"

record settle_report =
  sr_item :: pyval
  sr_decision :: pyval
  sr_metric :: pyval
  sr_already_settled :: bool

definition settle_result :: "runtime \<Rightarrow> dict \<Rightarrow> task_fs \<Rightarrow> (task_fs \<times> settle_report) res" where
  "settle_result rt result fs =
     (if plan_file fs = None then Inl (RuntimeError ''plan.md not found'')
      else let decision = dget_default result ''decision'' (PStr ''FAIL'');
               metric = dget result ''round_metric'';
               expected = dget result ''plan_item'';
               active_id = (case get_active_item fs of Some it \<Rightarrow> PStr (pi_id it) | None \<Rightarrow> PNone)
           in if truthy expected \<and> \<not> py_eq active_id expected then
                (if contains (''| '' @ py_str rt expected @ '' |'') (parse_settled_history fs)
                 then Inr (fs, \<lparr>sr_item = expected, sr_decision = decision, sr_metric = metric,
                                sr_already_settled = True\<rparr>)
                 else Inl (RuntimeError ''recorded item is neither ACTIVE nor settled''))
              else bindR (settle_active rt decision metric fs) (\<lambda>(fs', pid, _).
                     Inr (fs', \<lparr>sr_item = PStr pid, sr_decision = decision, sr_metric = metric,
                                sr_already_settled = False\<rparr>)))"

lemma settle_linesE:
  assumes "settle_lines rt d m ls = Inr (ls', pid, desc)"
  obtains tag a g3 where "settle_tag rt d m = Inr tag"
    and "find_item (\<lambda>_ l. contains active_mark l) 0 ls = Some (a, pid, g3)"
    and "desc = settled_desc g3"
    and "ls' = append_row (history_line rt pid d m desc)
                 (promote_next a (ls[a := settled_line (ls ! a) pid tag desc]))"
  using assms by (auto simp: settle_lines_def Let_def split: option.splits prod.splits)

end
