(* ===== verification/Plan_Facts.thy ===== *)
theory Plan_Facts
  imports Plan_Store
begin

text \<open>
  What the plan file promises: a rendered plan is read back item by item and passes its
  validator, the settled history survives a new plan, and settling the active item is the
  abstract step on the list of item states.
\<close>

subsection \<open>Shape of an item line\<close>

definition spaces :: "string \<Rightarrow> bool" where
  "spaces s = list_all is_space s"

lemma lstrip_decomp: "\<exists>a. spaces a \<and> s = a @ lstrip s"
  by (rule exI [of _ "takeWhile is_space s"]) (auto simp: spaces_def lstrip_def list_all_iff dest: set_takeWhileD)

lemma lstrip_spaces [simp]: "spaces a \<Longrightarrow> lstrip (a @ s) = lstrip s"
  by (induction a) (auto simp: spaces_def lstrip_def)

lemma lstrip_Cons: "\<not> is_space c \<Longrightarrow> lstrip (c # s) = c # s"
  by (simp add: lstrip_def)

lemma punct_not_space [simp]:
  "\<not> is_space CHR ''-''" "\<not> is_space CHR ''[''" "\<not> is_space CHR '']''" "\<not> is_space CHR ''*''"
  "\<not> is_space CHR ''x''" "is_space CHR '' ''" "\<not> is_space CHR ''|''" "\<not> is_space CHR ''#''"
  "\<not> is_space CHR ''(''" "\<not> is_space CHR '':''" "is_space newline"
  by (simp_all add: is_space_def newline_def)

lemma star_not_word [simp]: "\<not> is_word CHR ''*''"
  by (simp add: is_word_def)

lemma match_itemE:
  assumes "match_item l = Some (c, pid, g3)"
  obtains s1 s2 s3 r where "spaces s1" "spaces s2" "spaces s3" "c = CHR '' '' \<or> c = CHR ''x''"
    "pid \<noteq> []" "list_all is_word pid"
    "l = s1 @ ''-'' @ s2 @ [CHR ''['', c, CHR '']''] @ s3 @ ''**'' @ pid @ ''**'' @ r"
    "g3 = takeWhile (\<lambda>x. x \<noteq> newline) (lstrip r)"
proof -
  obtain r1 where r1: "lstrip l = CHR ''-'' # r1"
    using assms by (auto simp: match_item_def split: list.splits char.splits bool.splits)
  then obtain r3 where r3: "lstrip r1 = CHR ''['' # c # CHR '']'' # r3"
    and c: "c = CHR '' '' \<or> c = CHR ''x''" and st: "starts_with ''**'' (lstrip r3)"
    and pid: "pid = takeWhile is_word (drop 2 (lstrip r3))" "pid \<noteq> []"
    and st2: "starts_with ''**'' (dropWhile is_word (drop 2 (lstrip r3)))"
    and g3: "g3 = takeWhile (\<lambda>x. x \<noteq> newline) (lstrip (drop 2 (dropWhile is_word (drop 2 (lstrip r3)))))"
    using assms
    by (auto simp: match_item_def Let_def split: list.splits char.splits bool.splits if_splits)
  obtain s1 s2 s3 where s: "spaces s1" "l = s1 @ lstrip l" "spaces s2" "r1 = s2 @ lstrip r1" "spaces s3" "r3 = s3 @ lstrip r3"
    using lstrip_decomp by metis
  obtain r5 where r5: "lstrip r3 = ''**'' @ r5" using st by (auto simp: starts_with_iff)
  obtain r where r: "dropWhile is_word r5 = ''**'' @ r" using st2 r5 by (auto simp: starts_with_iff)
  have p: "pid = takeWhile is_word r5" "r5 = pid @ ''**'' @ r"
    using pid(1) r5 r takeWhile_dropWhile_id [of is_word r5] by auto
  have "list_all is_word pid" unfolding p(1) by (auto simp: list_all_iff dest: set_takeWhileD)
  moreover have "l = s1 @ ''-'' @ s2 @ [CHR ''['', c, CHR '']''] @ s3 @ ''**'' @ pid @ ''**'' @ r"
    using s r1 r3 r5 p(2) by simp
  moreover have "g3 = takeWhile (\<lambda>x. x \<noteq> newline) (lstrip r)" using g3 r5 r by simp
  ultimately show thesis using that s c pid(2) by blast
qed

lemma match_itemI:
  assumes "spaces s1" "spaces s2" "spaces s3" "c = CHR '' '' \<or> c = CHR ''x''" "pid \<noteq> []" "list_all is_word pid"
  shows "match_item (s1 @ ''-'' @ s2 @ [CHR ''['', c, CHR '']''] @ s3 @ ''**'' @ pid @ ''**'' @ r)
           = Some (c, pid, takeWhile (\<lambda>x. x \<noteq> newline) (lstrip r))"
proof -
  have w: "takeWhile is_word (pid @ ''**'' @ r) = pid" "dropWhile is_word (pid @ ''**'' @ r) = ''**'' @ r"
    using assms(6) by (induction pid) auto
  have l: "lstrip (CHR ''-'' # s) = CHR ''-'' # s" "lstrip (CHR ''['' # s) = CHR ''['' # s"
      "lstrip (CHR ''*'' # s) = CHR ''*'' # s" for s
    by (simp_all add: lstrip_Cons)
  show ?thesis
    using assms w by (auto simp: match_item_def l)
qed

lemma index_of_box: "CHR ''['' \<notin> set a \<Longrightarrow> index_of ''[ ]'' (a @ ''[ ]'' @ r) = Some (length a)"
  by (induction a) auto

lemma spaces_no_bracket: "spaces s \<Longrightarrow> CHR ''['' \<notin> set s"
  by (auto simp: spaces_def list_all_iff)

lemma before_box_eq:
  assumes "spaces s1" and "spaces s2"
  shows "before_box (s1 @ ''-'' @ s2 @ ''[ ]'' @ r) = s1 @ ''-'' @ s2"
proof -
  have "CHR ''['' \<notin> set (s1 @ ''-'' @ s2)" using assms spaces_no_bracket by auto
  from index_of_box [OF this, of r] show ?thesis by (simp add: before_box_def)
qed

lemma before_box_item:
  assumes "match_item l = Some (CHR '' '', pid, g3)"
  obtains s1 s2 where "spaces s1" "spaces s2" "before_box l = s1 @ ''-'' @ s2" "pid \<noteq> []" "list_all is_word pid"
proof -
  from match_itemE [OF assms] obtain s1 s2 s3 r where
    "spaces s1" "spaces s2" "pid \<noteq> []" "list_all is_word pid"
    "l = s1 @ ''-'' @ s2 @ [CHR ''['', CHR '' '', CHR '']''] @ s3 @ ''**'' @ pid @ ''**'' @ r" by metis
  with before_box_eq [of s1 s2 "s3 @ ''**'' @ pid @ ''**'' @ r"] that show thesis by simp
qed

lemma spaces_simps [simp]: "spaces []" "spaces '' ''"
  by (simp_all add: spaces_def)

lemma match_settled_line:
  assumes "match_item l = Some (CHR '' '', pid, g3)"
  shows "\<exists>g. match_item (settled_line l pid tag rest) = Some (CHR ''x'', pid, g)"
proof -
  from before_box_item [OF assms] obtain s1 s2 where b: "spaces s1" "spaces s2" "before_box l = s1 @ ''-'' @ s2"
    "pid \<noteq> []" "list_all is_word pid" by metis
  have "settled_line l pid tag rest = s1 @ ''-'' @ s2 @ [CHR ''['', CHR ''x'', CHR '']''] @ '' '' @ ''**'' @ pid @ ''**''
      @ ('' '' @ tag @ '': '' @ rest)"
    by (simp add: settled_line_def b(3))
  moreover have "match_item (s1 @ ''-'' @ s2 @ [CHR ''['', CHR ''x'', CHR '']''] @ '' '' @ ''**'' @ pid @ ''**''
      @ ('' '' @ tag @ '': '' @ rest)) = Some (CHR ''x'', pid, takeWhile (\<lambda>x. x \<noteq> newline) (lstrip ('' '' @ tag @ '': '' @ rest)))"
    using b by (intro match_itemI) simp_all
  ultimately show ?thesis by (simp only:) blast
qed

lemma match_promoted_line:
  assumes "match_item l = Some (CHR '' '', pid, g3)"
  shows "\<exists>g. match_item (promoted_line l pid g3') = Some (CHR '' '', pid, g)"
proof -
  from before_box_item [OF assms] obtain s1 s2 where b: "spaces s1" "spaces s2" "before_box l = s1 @ ''-'' @ s2"
    "pid \<noteq> []" "list_all is_word pid" by metis
  have "promoted_line l pid g3' = s1 @ ''-'' @ s2 @ [CHR ''['', CHR '' '', CHR '']''] @ '' '' @ ''**'' @ pid @ ''**''
      @ ('' (ACTIVE): '' @ strip (lstrip_colon g3'))"
    by (simp add: promoted_line_def b(3))
  moreover have "match_item (s1 @ ''-'' @ s2 @ [CHR ''['', CHR '' '', CHR '']''] @ '' '' @ ''**'' @ pid @ ''**''
      @ ('' (ACTIVE): '' @ strip (lstrip_colon g3')))
      = Some (CHR '' '', pid, takeWhile (\<lambda>x. x \<noteq> newline) (lstrip ('' (ACTIVE): '' @ strip (lstrip_colon g3'))))"
    using b by (intro match_itemI) simp_all
  ultimately show ?thesis by (simp only:) blast
qed

lemma promoted_active: "contains active_mark (promoted_line l pid g3)"
  using contains_self [of active_mark "before_box l @ ''[ ] **'' @ pid @ ''** ''" "'': '' @ strip (lstrip_colon g3)"]
  by (simp add: promoted_line_def active_mark_def)

lemma history_line_head: "history_line rt pid d m desc = CHR ''|'' # tl (history_line rt pid d m desc)"
  by (simp add: history_line_def)

lemma bar_not_item: "match_item (CHR ''|'' # s) = None"
  by (simp add: match_item_def lstrip_Cons)

lemma history_line_not_item: "match_item (history_line rt pid d m desc) = None"
  by (subst history_line_head) (rule bar_not_item)

subsection \<open>The abstract plan\<close>

text \<open>
  A plan as the phase machine sees it: the items in order, each settled, active or pending.
\<close>

datatype item_status = Settled | Active | Pending

type_synonym plan_view = "(string \<times> item_status) list"

definition line_view :: "string \<Rightarrow> plan_view" where
  "line_view l = (case match_item l of
      None \<Rightarrow> []
    | Some (c, pid, _) \<Rightarrow> [(pid, if c = CHR ''x'' then Settled
                              else if contains active_mark l then Active else Pending)])"

definition lines_view :: "string list \<Rightarrow> plan_view" where
  "lines_view ls = concat (map line_view ls)"

text \<open>The specification of a settlement: the first active item is settled, the next pending one becomes active.\<close>

fun set_first :: "item_status \<Rightarrow> item_status \<Rightarrow> plan_view \<Rightarrow> plan_view" where
  "set_first old new [] = []"
| "set_first old new ((pid, st) # xs) = (if st = old then (pid, new) # xs else (pid, st) # set_first old new xs)"

definition settle_view :: "plan_view \<Rightarrow> plan_view" where
  "settle_view xs = set_first Pending Active (set_first Active Settled xs)"

fun first_with :: "item_status \<Rightarrow> plan_view \<Rightarrow> string option" where
  "first_with st [] = None"
| "first_with st ((pid, s) # xs) = (if s = st then Some pid else first_with st xs)"

subsection \<open>Settlement refines the abstract step\<close>

definition is_open :: "(nat \<Rightarrow> string \<Rightarrow> bool) \<Rightarrow> nat \<Rightarrow> string \<Rightarrow> bool" where
  "is_open P i l \<longleftrightarrow> (\<exists>pid g3. match_item l = Some (CHR '' '', pid, g3)) \<and> P i l"

lemma find_item_Some:
  "find_item P i ls = Some (j, pid, g3) \<Longrightarrow> \<exists>xs l ys. ls = xs @ l # ys \<and> j = i + length xs
     \<and> match_item l = Some (CHR '' '', pid, g3) \<and> P j l \<and> (\<forall>k < length xs. \<not> is_open P (i + k) (xs ! k))"
proof (induction P i ls rule: find_item.induct)
  case (2 P i l ls)
  show ?case
  proof (cases "is_open P i l")
    case True
    then have "j = i" "match_item l = Some (CHR '' '', pid, g3)" using 2(3) by (auto simp: is_open_def)
    then show ?thesis using True
      by (intro exI [of _ "[]"] exI [of _ l] exI [of _ ls]) (auto simp: is_open_def)
  next
    case False
    then have "find_item P (Suc i) ls = Some (j, pid, g3)"
      using 2(3) by (auto simp: is_open_def split: option.splits if_splits)
    moreover have "find_item P (Suc i) ls = Some (j, pid, g3) \<Longrightarrow> \<exists>xs l ys. ls = xs @ l # ys \<and> j = Suc i + length xs
     \<and> match_item l = Some (CHR '' '', pid, g3) \<and> P j l \<and> (\<forall>k < length xs. \<not> is_open P (Suc i + k) (xs ! k))"
      using 2(1,2) False by (cases "match_item l") (auto simp: is_open_def)
    ultimately obtain xs l' ys where x: "ls = xs @ l' # ys" "j = Suc i + length xs"
        "match_item l' = Some (CHR '' '', pid, g3)" "P j l'" "\<forall>k < length xs. \<not> is_open P (Suc i + k) (xs ! k)" by blast
    then show ?thesis using False
      by (intro exI [of _ "l # xs"] exI [of _ l'] exI [of _ ys]) (auto simp: nth_Cons split: nat.splits)
  qed
qed simp

lemma find_item_None:
  "find_item P i ls = None \<Longrightarrow> k < length ls \<Longrightarrow> \<not> is_open P (i + k) (ls ! k)"
proof (induction ls arbitrary: i k)
  case (Cons l ls)
  then have l: "\<not> is_open P i l" by (auto simp: is_open_def split: option.splits if_splits)
  then have "find_item P (Suc i) ls = None"
    using Cons(2) by (auto simp: is_open_def split: option.splits if_splits)
  from Cons(1) [OF this] l show ?case using Cons(3) by (cases k) auto
qed simp

definition no_status :: "item_status \<Rightarrow> plan_view \<Rightarrow> bool" where
  "no_status st xs = list_all (\<lambda>(_, s). s \<noteq> st) xs"

lemma no_status_append [simp]: "no_status st (xs @ ys) \<longleftrightarrow> no_status st xs \<and> no_status st ys"
  by (simp add: no_status_def)

lemma set_first_skip: "no_status old xs \<Longrightarrow> set_first old new (xs @ zs) = xs @ set_first old new zs"
  by (induction xs) (auto simp: no_status_def)

lemma set_first_none: "no_status old xs \<Longrightarrow> set_first old new xs = xs"
  using set_first_skip [of old xs new "[]"] by simp

lemma first_with_skip: "no_status st xs \<Longrightarrow> first_with st (xs @ zs) = first_with st zs"
  by (induction xs) (auto simp: no_status_def)

lemma lines_view_append [simp]: "lines_view (xs @ ys) = lines_view xs @ lines_view ys"
  by (simp add: lines_view_def)

lemma lines_view_Cons [simp]: "lines_view (l # ls) = line_view l @ lines_view ls"
  by (simp add: lines_view_def)

lemma no_status_lines: "no_status st (lines_view ls) \<longleftrightarrow> list_all (\<lambda>l. no_status st (line_view l)) ls"
  by (induction ls) (simp_all add: lines_view_def no_status_def)

lemma match_item_box: "match_item l = Some (c, pid, g3) \<Longrightarrow> c = CHR '' '' \<or> c = CHR ''x''"
  by (erule match_itemE) simp

lemma no_active_line: "no_status Active (line_view l) \<longleftrightarrow> \<not> is_open (\<lambda>_ l. contains active_mark l) i l"
  by (auto simp: no_status_def line_view_def is_open_def split: option.splits dest: match_item_box)

lemma no_pending_line: "no_status Pending (line_view l) \<longleftrightarrow> \<not> is_open (\<lambda>_ l. \<not> contains active_mark l) i l"
  by (auto simp: no_status_def line_view_def is_open_def split: option.splits dest: match_item_box)

lemma line_view_settled:
  "match_item l = Some (CHR '' '', pid, g3) \<Longrightarrow> line_view (settled_line l pid tag d) = [(pid, Settled)]"
  using match_settled_line [of l pid g3 tag d] by (auto simp: line_view_def)

lemma line_view_promoted:
  "match_item l = Some (CHR '' '', pid, g3) \<Longrightarrow> line_view (promoted_line l pid g3) = [(pid, Active)]"
  using match_promoted_line [of l pid g3 g3] promoted_active [of l pid g3] by (auto simp: line_view_def)

lemma promote_view:
  assumes "\<not> is_open (\<lambda>_ l. True) a (ls ! a)" and "a < length ls"
  shows "lines_view (promote_next a ls) = set_first Pending Active (lines_view ls)"
proof (cases "find_item (\<lambda>i l. i \<noteq> a \<and> \<not> contains active_mark l) 0 ls")
  case None
  have "no_status Pending (line_view (ls ! k))" if "k < length ls" for k
    using find_item_None [OF None that] assms(1) by (cases "k = a") (auto simp: no_pending_line [of _ k] is_open_def)
  then have "no_status Pending (lines_view ls)" by (simp add: no_status_lines list_all_length)
  with None show ?thesis by (simp add: promote_next_def set_first_none)
next
  case (Some r)
  obtain b pid g3 where r: "r = (b, pid, g3)" by (cases r)
  from find_item_Some [of _ _ _ b pid g3] Some r obtain xs l ys where
    x: "ls = xs @ l # ys" "b = length xs" "match_item l = Some (CHR '' '', pid, g3)" "\<not> contains active_mark l"
    and before: "\<forall>k < length xs. \<not> is_open (\<lambda>i l. i \<noteq> a \<and> \<not> contains active_mark l) (0 + k) (xs ! k)"
    by (metis (no_types, lifting) add_0)
  have "no_status Pending (line_view (xs ! k))" if k: "k < length xs" for k
  proof (cases "k = a")
    case True
    then have "ls ! a = xs ! k" using k x(1) by (simp add: nth_append)
    then show ?thesis using assms(1) by (auto simp: no_pending_line [of _ k] is_open_def)
  next
    case False
    then show ?thesis using before k by (auto simp: no_pending_line [of _ k] is_open_def)
  qed
  then have "no_status Pending (lines_view xs)" by (simp add: no_status_lines list_all_length)
  moreover have "line_view l = [(pid, Pending)]" using x(3,4) by (simp add: line_view_def)
  ultimately show ?thesis
    using Some r x line_view_promoted [OF x(3)] by (simp add: promote_next_def set_first_skip)
qed

lemma insert_line_view: "match_item row = None \<Longrightarrow> lines_view (insert_line n row ls) = lines_view ls"
  by (metis append_take_drop_id append_Nil insert_line_def line_view_def lines_view_Cons lines_view_append option.simps(4))

lemma append_row_view: "match_item row = None \<Longrightarrow> lines_view (append_row row ls) = lines_view ls"
  by (simp add: append_row_def insert_line_view split: option.splits)

lemma settle_lines_view:
  assumes "settle_lines rt d m ls = Inr (ls', pid, desc)"
  shows "lines_view ls' = settle_view (lines_view ls) \<and> first_with Active (lines_view ls) = Some pid"
proof -
  from assms obtain tag a g3 where
    a: "find_item (\<lambda>_ l. contains active_mark l) 0 ls = Some (a, pid, g3)" and
    ls': "ls' = append_row (history_line rt pid d m desc) (promote_next a (ls[a := settled_line (ls ! a) pid tag desc]))"
    by (elim settle_linesE)
  from find_item_Some [OF a] obtain xs l ys where
    x: "ls = xs @ l # ys" "a = length xs" "match_item l = Some (CHR '' '', pid, g3)" "contains active_mark l"
    and before: "\<forall>k < length xs. \<not> is_open (\<lambda>_ l. contains active_mark l) (0 + k) (xs ! k)"
    by (metis (no_types, lifting) add_0)
  have xs: "no_status Active (lines_view xs)"
    using before by (auto simp: no_status_lines list_all_length no_active_line [of _ 0] is_open_def)
  have l: "line_view l = [(pid, Active)]" using x(3,4) by (simp add: line_view_def)
  let ?l1 = "ls[a := settled_line (ls ! a) pid tag desc]"
  have l1: "?l1 = xs @ settled_line l pid tag desc # ys" using x(1,2) by simp
  have closed: "\<not> is_open (\<lambda>_ l. True) a (?l1 ! a)"
    using match_settled_line [OF x(3), of tag desc] x(1,2) by (auto simp: is_open_def l1 nth_append)
  have "lines_view ?l1 = set_first Active Settled (lines_view ls)"
    unfolding l1 using xs l line_view_settled [OF x(3)] by (simp add: x(1) set_first_skip)
  then have "lines_view ls' = settle_view (lines_view ls)"
    using promote_view [OF closed] x(1,2) by (simp add: ls' append_row_view history_line_not_item settle_view_def)
  moreover have "first_with Active (lines_view ls) = Some pid" using xs l x(1) by (simp add: first_with_skip)
  ultimately show ?thesis ..
qed

subsection \<open>Settlement on the task directory\<close>

definition plan_view_of :: "task_fs \<Rightarrow> plan_view" where
  "plan_view_of fs = (case plan_file fs of None \<Rightarrow> [] | Some text \<Rightarrow> lines_view (split_lines text))"

abbreviation one_line :: "string \<Rightarrow> bool" where
  "one_line s \<equiv> newline \<notin> set s"

text \<open>The printed values a settlement writes take one line each.\<close>

definition prints_on_line :: "runtime \<Rightarrow> pyval \<Rightarrow> pyval \<Rightarrow> bool" where
  "prints_on_line rt d m \<longleftrightarrow> one_line (py_str rt d) \<and> one_line (py_str rt m)
     \<and> (\<forall>f. num_of m = Some f \<longrightarrow> one_line (fmt1 rt f))"

lemma newline_neq [simp]:
  "newline \<noteq> CHR ''['' \<and> newline \<noteq> CHR '']'' \<and> newline \<noteq> CHR '' '' \<and> newline \<noteq> CHR ''*'' \<and> newline \<noteq> CHR '':''
   \<and> newline \<noteq> CHR ''|'' \<and> newline \<noteq> CHR ''x'' \<and> newline \<noteq> CHR ''-''"
  by (simp add: newline_def)

lemma settle_tag_line: "prints_on_line rt d m \<Longrightarrow> settle_tag rt d m = Inr tag \<Longrightarrow> one_line tag"
  by (auto simp: settle_tag_def prints_on_line_def newline_def split: if_splits option.splits)

lemma set_replace_all: "set (replace_all old new s) \<subseteq> set new \<union> set s"
proof (induction old new s rule: replace_all.induct)
  case (1 old new s)
  then show ?case
    by (subst replace_all.simps) (auto dest: in_set_dropD list.set_sel)
qed

lemma clean_desc_line: "one_line s \<Longrightarrow> one_line (clean_desc s)"
  unfolding clean_desc_def lstrip_colon_def
  using set_strip set_dropWhileD set_replace_all [of active_mark "[]" s] by fastforce

lemma match_item_line: "match_item l = Some (c, pid, g3) \<Longrightarrow> one_line g3 \<and> one_line pid"
  by (erule match_itemE)
     (auto simp: list_all_iff is_word_def newline_def Let_def dest: set_takeWhileD)

lemma before_box_line: "one_line l \<Longrightarrow> one_line (before_box l)"
  by (auto simp: before_box_def split: option.splits dest: in_set_takeD)

lemma settled_line_line:
  "one_line l \<Longrightarrow> one_line pid \<Longrightarrow> one_line tag \<Longrightarrow> one_line d \<Longrightarrow> one_line (settled_line l pid tag d)"
  by (auto simp: settled_line_def dest: before_box_line)

lemma promoted_line_line: "one_line l \<Longrightarrow> one_line pid \<Longrightarrow> one_line g3 \<Longrightarrow> one_line (promoted_line l pid g3)"
  unfolding promoted_line_def lstrip_colon_def
  using set_strip set_dropWhileD before_box_line by (fastforce simp: newline_def)

lemma history_line_line:
  "prints_on_line rt d m \<Longrightarrow> one_line pid \<Longrightarrow> one_line desc \<Longrightarrow> one_line (history_line rt pid d m desc)"
  by (auto simp: history_line_def prints_on_line_def newline_def)

abbreviation all_lines :: "string list \<Rightarrow> bool" where
  "all_lines \<equiv> list_all (\<lambda>l. newline \<notin> set l)"

lemma all_lines_update: "all_lines ls \<Longrightarrow> one_line x \<Longrightarrow> all_lines (ls[i := x])"
  by (auto simp: list_all_iff dest!: set_update_subset_insert [THEN subsetD])

lemma all_lines_append_row: "all_lines ls \<Longrightarrow> one_line row \<Longrightarrow> all_lines (append_row row ls)"
  by (auto simp: append_row_def insert_line_def list_all_iff split: option.splits dest: in_set_takeD in_set_dropD)

lemma find_item_line:
  assumes "find_item P 0 ls = Some (a, pid, g3)" and "all_lines ls"
  shows "one_line (ls ! a) \<and> one_line pid \<and> one_line g3 \<and> a < length ls"
  using find_item_Some [OF assms(1)] assms(2) match_item_line by (fastforce simp: nth_append)

lemma all_lines_promote: "all_lines ls \<Longrightarrow> all_lines (promote_next a ls)"
  using find_item_line promoted_line_line all_lines_update
  by (fastforce simp: promote_next_def split: option.splits prod.splits)

lemma settle_lines_lines:
  assumes "settle_lines rt d m ls = Inr (ls', pid, desc)" and "prints_on_line rt d m" and "all_lines ls"
  shows "all_lines ls'"
proof -
  from assms(1) obtain tag a g3 where t: "settle_tag rt d m = Inr tag" and desc: "desc = settled_desc g3"
    and a: "find_item (\<lambda>_ l. contains active_mark l) 0 ls = Some (a, pid, g3)"
    and ls': "ls' = append_row (history_line rt pid d m desc) (promote_next a (ls[a := settled_line (ls ! a) pid tag desc]))"
    by (elim settle_linesE)
  from find_item_line [OF a assms(3)] have l: "one_line (ls ! a)" "one_line pid" "one_line g3" by auto
  then have d: "one_line desc" by (simp add: desc settled_desc_def clean_desc_line)
  show ?thesis unfolding ls'
    using l d assms(2,3) settle_tag_line [OF assms(2) t]
    by (intro all_lines_append_row all_lines_promote all_lines_update settled_line_line history_line_line)
qed

lemma append_row_not_Nil: "ls \<noteq> [] \<Longrightarrow> append_row row ls \<noteq> []"
  by (auto simp: append_row_def insert_line_def split: option.splits)

lemma settle_lines_not_Nil: "settle_lines rt d m ls = Inr (ls', pid, desc) \<Longrightarrow> ls \<noteq> [] \<Longrightarrow> ls' \<noteq> []"
  by (erule settle_linesE) (simp add: append_row_not_Nil promote_next_def split: option.splits)

text \<open>What a successful settlement reads and writes.\<close>

lemma settle_activeE:
  assumes "settle_active rt d m fs = Inr (fs', pid, desc)" and "prints_on_line rt d m"
  obtains body ls where "plan_file fs = Some body"
    and "settle_lines rt d m (split_lines body) = Inr (ls, pid, desc)"
    and "fs' = fs\<lparr>plan_file := Some (join_lines ls)\<rparr>" and "split_lines (join_lines ls) = ls"
proof -
  from assms(1) obtain body ls where t: "plan_file fs = Some body"
      "settle_lines rt d m (split_lines body) = Inr (ls, pid, desc)" "fs' = fs\<lparr>plan_file := Some (join_lines ls)\<rparr>"
    by (auto simp: settle_active_def split: option.splits elim!: bindR_eq_InrE)
  moreover have "split_lines (join_lines ls) = ls"
    using settle_lines_lines [OF t(2) assms(2) split_lines_no_nl] settle_lines_not_Nil [OF t(2)]
    by (intro split_join_lines) simp_all
  ultimately show thesis using that by blast
qed

text \<open>C27. Settling refines the abstract plan step: the first active item becomes settled, the next
  pending item becomes the active one, every other item keeps its state, the reported id is the
  one that was active, and no file of the task but \<open>plan.md\<close> changes.\<close>
theorem settle_active_refines:
  assumes "settle_active rt d m fs = Inr (fs', pid, desc)" and "prints_on_line rt d m"
  shows "plan_view_of fs' = settle_view (plan_view_of fs) \<and> first_with Active (plan_view_of fs) = Some pid
    \<and> fs'\<lparr>plan_file := plan_file fs\<rparr> = fs"
  using assms
proof (elim settle_activeE)
  fix body ls assume x: "plan_file fs = Some body" "settle_lines rt d m (split_lines body) = Inr (ls, pid, desc)"
    "fs' = fs\<lparr>plan_file := Some (join_lines ls)\<rparr>" "split_lines (join_lines ls) = ls"
  from settle_lines_view [OF x(2)] x(1,4) show ?thesis by (simp add: plan_view_of_def x(3))
qed

subsection \<open>The settled history\<close>

lemma header_is_row: "is_settled_table_header l \<Longrightarrow> is_row l"
  by (simp add: is_settled_table_header_def is_row_def Let_def)

lemma strip_spaces_append: "spaces a \<Longrightarrow> strip (a @ s) = strip s"
  by (simp add: strip_def)

lemma strip_head: "\<not> is_space c \<Longrightarrow> \<exists>t. strip (c # s) = c # t"
proof -
  assume c: "\<not> is_space c"
  obtain t where t: "c # s = rstrip (c # s) @ t" "list_all is_space t" using rstrip_decomp by metis
  with c have "rstrip (c # s) \<noteq> []" by (cases t) auto
  with t(1) c show ?thesis by (cases "rstrip (c # s)") (auto simp: strip_def lstrip_Cons)
qed

lemma item_not_row:
  assumes "match_item l = Some r"
  shows "\<not> is_row l"
proof -
  obtain c pid g3 where "r = (c, pid, g3)" by (cases r)
  with assms obtain s1 r' where "spaces s1" "l = s1 @ CHR ''-'' # r'" by (auto elim!: match_itemE)
  moreover obtain t where "strip (CHR ''-'' # r') = CHR ''-'' # t" using strip_head [of "CHR ''-''" r'] by auto
  ultimately show ?thesis by (simp add: is_row_def strip_spaces_append)
qed

text \<open>Lines that differ only where neither is a table row give the same table.\<close>

definition same_table :: "string list \<Rightarrow> string list \<Rightarrow> bool" where
  "same_table = list_all2 (\<lambda>x y. x = y \<or> \<not> is_row x \<and> \<not> is_row y)"

lemma settled_lines_not_row: "\<not> is_row z \<Longrightarrow> settled_lines b (z # zs) = settled_lines False zs"
  using header_is_row [of z] by (auto simp: is_row_def starts_with_iff)

lemma same_table_induct [consumes 1, case_names Nil Cons]:
  assumes "same_table xs ys" and "P [] []"
    and "\<And>x xs y ys. x = y \<or> \<not> is_row x \<and> \<not> is_row y \<Longrightarrow> same_table xs ys \<Longrightarrow> P xs ys \<Longrightarrow> P (x # xs) (y # ys)"
  shows "P xs ys"
  using assms unfolding same_table_def by (rule list_all2_induct)

lemma same_table_settled: "same_table xs ys \<Longrightarrow> settled_lines b xs = settled_lines b ys"
proof (induction arbitrary: b rule: same_table_induct)
  case (Cons x xs y ys)
  then show ?case by (cases "x = y") (simp, simp only: settled_lines_not_row simp_thms)
qed simp

lemma same_table_last: "same_table xs ys \<Longrightarrow> last_header i xs = last_header i ys"
proof (induction arbitrary: i rule: same_table_induct)
  case (Cons x xs y ys)
  then show ?case using header_is_row [of x] header_is_row [of y] by (auto split: option.splits)
qed simp

lemma same_table_update:
  "i < length ls \<Longrightarrow> \<not> is_row (ls ! i) \<Longrightarrow> \<not> is_row x \<Longrightarrow> same_table ls (ls[i := x])"
  by (auto simp: same_table_def list_all2_conv_all_nth nth_list_update)

lemma same_table_refl [simp]: "same_table ls ls"
  by (simp add: same_table_def list_all2_refl)

lemma same_table_trans: "same_table xs ys \<Longrightarrow> same_table ys zs \<Longrightarrow> same_table xs zs"
  unfolding same_table_def by (rule list_all2_trans) auto

lemma find_item_not_row:
  "find_item P 0 ls = Some (a, pid, g3) \<Longrightarrow>
     a < length ls \<and> match_item (ls ! a) = Some (CHR '' '', pid, g3) \<and> \<not> is_row (ls ! a)"
  by (drule find_item_Some) (auto simp: nth_append dest: item_not_row)

lemma promote_same_table: "same_table ls (promote_next a ls)"
proof (cases "find_item (\<lambda>i l. i \<noteq> a \<and> \<not> contains active_mark l) 0 ls")
  case (Some r)
  obtain b pid g3 where r: "r = (b, pid, g3)" by (cases r)
  from find_item_not_row [OF Some [unfolded r]] have f: "b < length ls"
    "match_item (ls ! b) = Some (CHR '' '', pid, g3)" "\<not> is_row (ls ! b)" by auto
  from match_promoted_line [OF f(2)] have "\<not> is_row (promoted_line (ls ! b) pid g3)" using item_not_row by blast
  with f show ?thesis by (simp add: promote_next_def Some r same_table_update)
qed (simp add: promote_next_def)

text \<open>A table the settlement can append to: behind the last header comes its rule.\<close>

definition table_ok :: "string list \<Rightarrow> bool" where
  "table_ok ls = (case last_header 0 ls of
      None \<Rightarrow> False | Some i \<Rightarrow> Suc i < length ls \<and> is_row (ls ! Suc i))"

lemma same_table_ok: "same_table xs ys \<Longrightarrow> table_ok xs \<Longrightarrow> table_ok ys"
  by (auto simp: table_ok_def same_table_last same_table_def list_all2_conv_all_nth split: option.splits)

lemma last_header_None: "last_header i ls = None \<Longrightarrow> list_all (\<lambda>l. \<not> is_settled_table_header l) ls"
  by (induction ls arbitrary: i) (auto split: option.splits if_splits)

lemma last_header_Some:
  "last_header i ls = Some j \<Longrightarrow> \<exists>xs h ys. ls = xs @ h # ys \<and> j = i + length xs \<and> is_settled_table_header h
     \<and> list_all (\<lambda>l. \<not> is_settled_table_header l) ys"
proof (induction ls arbitrary: i)
  case (Cons l ls)
  show ?case
  proof (cases "last_header (Suc i) ls")
    case None
    then show ?thesis using Cons(2) last_header_None [OF None]
      by (intro exI [of _ "[]"] exI [of _ l] exI [of _ ls]) (auto split: if_splits)
  next
    case (Some j')
    with Cons obtain xs h ys where "ls = xs @ h # ys" "j = Suc i + length xs" "is_settled_table_header h"
      "list_all (\<lambda>l. \<not> is_settled_table_header l) ys" by fastforce
    then show ?thesis by (intro exI [of _ "l # xs"] exI [of _ h] exI [of _ ys]) simp
  qed
qed simp

fun table_state :: "bool \<Rightarrow> string list \<Rightarrow> bool" where
  "table_state b [] = b"
| "table_state b (l # ls) = table_state (is_settled_table_header l \<or> b \<and> is_row l) ls"

lemma settled_lines_append:
  "settled_lines b (xs @ ys) = settled_lines b xs @ settled_lines (table_state b xs) ys"
proof (induction xs arbitrary: b)
  case (Cons l ls)
  have "starts_with ''|---'' (strip l) \<Longrightarrow> is_row l" by (auto simp: is_row_def starts_with_iff)
  with Cons show ?case by (cases b) (auto simp: is_row_def [symmetric])
qed simp

lemma settled_lines_outside: "list_all (\<lambda>l. \<not> is_settled_table_header l) ls \<Longrightarrow> settled_lines False ls = []"
  by (induction ls) auto

lemma settled_lines_after:
  assumes "list_all (\<lambda>l. \<not> is_settled_table_header l) ls" and "case ls of [] \<Rightarrow> True | l # _ \<Rightarrow> \<not> is_row l"
  shows "settled_lines True ls = []"
proof (cases ls)
  case (Cons l ls')
  then have "\<not> starts_with ''|---'' (strip l)" using assms(2) by (auto simp: is_row_def starts_with_iff)
  with Cons assms show ?thesis by (simp add: is_row_def [symmetric] settled_lines_outside)
qed simp

lemma table_state_rows: "list_all is_row ls \<Longrightarrow> table_state True ls"
  by (induction ls) auto

lemma insert_line_at: "insert_line (length xs) x (xs @ ys) = xs @ x # ys"
  by (simp add: insert_line_def)

lemma append_row_settled:
  assumes "table_ok ls" and "is_row row" and "\<not> is_settled_table_header row" and "\<not> starts_with ''|---'' (strip row)"
  shows "settled_lines False (append_row row ls) = settled_lines False ls @ [row]"
proof -
  from assms(1) obtain i where i: "last_header 0 ls = Some i" "Suc i < length ls" "is_row (ls ! Suc i)"
    by (auto simp: table_ok_def split: option.splits)
  from last_header_Some [OF i(1)] obtain xs h ys where l: "ls = xs @ h # ys" "i = length xs" "is_settled_table_header h"
    "list_all (\<lambda>l. \<not> is_settled_table_header l) ys" by auto
  with i obtain r zs where ys: "ys = r # zs" "is_row r" by (cases ys) (auto simp: nth_append)
  let ?rows = "takeWhile is_row zs" let ?rest = "dropWhile is_row zs"
  have zs: "zs = ?rows @ ?rest" by simp
  have ls: "ls = (xs @ h # r # ?rows) @ ?rest" using l ys zs by simp
  have "table_end ls = Some (length (xs @ h # r # ?rows))"
    using i(1) l ys by (simp add: table_end_def)
  then have "append_row row ls = insert_line (length (xs @ h # r # ?rows)) row ls" by (simp add: append_row_def)
  also have "\<dots> = (xs @ h # r # ?rows) @ row # ?rest"
    by (subst ls) (simp only: insert_line_at)
  finally have row: "append_row row ls = (xs @ h # r # ?rows) @ row # ?rest" .
  have st: "table_state b (xs @ h # r # ?rows)" for b
    using l(3) ys(2) table_state_rows [of ?rows] set_takeWhileD [of _ is_row zs]
    by (induction xs arbitrary: b) (auto simp: list_all_iff)
  have "case ?rest of [] \<Rightarrow> True | l # _ \<Rightarrow> \<not> is_row l"
    by (metis hd_dropWhile list.case_eq_if)
  then have rest: "settled_lines True ?rest = []"
    using l(4) ys by (intro settled_lines_after) (auto simp: list_all_iff dest: set_dropWhileD)
  have "settled_lines False ls = settled_lines False (xs @ h # r # ?rows)"
    using rest st by (subst ls, subst settled_lines_append) simp
  moreover have "settled_lines False (append_row row ls) = settled_lines False (xs @ h # r # ?rows) @ [row]"
    unfolding row using rest st assms by (subst settled_lines_append) (simp add: is_row_def)
  ultimately show ?thesis by simp
qed

lemma history_line_row:
  "is_row (history_line rt pid d m desc) \<and> \<not> starts_with ''|---'' (strip (history_line rt pid d m desc))"
proof -
  let ?t = "pid @ '' | '' @ py_str rt d @ '' | '' @ (if m \<noteq> PNone then py_str rt m else ''N/A'') @ '' | '' @ desc @ '' |''"
  have "history_line rt pid d m desc = CHR ''|'' # CHR '' '' # ?t" by (simp add: history_line_def)
  moreover have "strip (CHR ''|'' # CHR '' '' # ?t) = CHR ''|'' # CHR '' '' # ?t" by (rule strip_id) simp
  ultimately show ?thesis by (simp add: is_row_def)
qed

text \<open>A settlement appends exactly its own row to the settled history.\<close>

lemma settle_lines_history:
  assumes "settle_lines rt d m ls = Inr (ls', pid, desc)" and "table_ok ls"
    and "\<not> is_settled_table_header (history_line rt pid d m desc)"
  shows "settled_lines False ls' = settled_lines False ls @ [history_line rt pid d m desc] "
proof -
  from assms(1) obtain tag a g3 where
    a: "find_item (\<lambda>_ l. contains active_mark l) 0 ls = Some (a, pid, g3)" and
    ls': "ls' = append_row (history_line rt pid d m desc) (promote_next a (ls[a := settled_line (ls ! a) pid tag desc]))"
    by (elim settle_linesE)
  let ?l1 = "ls[a := settled_line (ls ! a) pid tag desc]"
  note f = find_item_not_row [OF a]
  from match_settled_line f have "\<not> is_row (settled_line (ls ! a) pid tag desc)" using item_not_row by blast
  with f have "same_table ls ?l1" by (simp add: same_table_update)
  then have st: "same_table ls (promote_next a ?l1)" using promote_same_table same_table_trans by blast
  show ?thesis unfolding ls' same_table_settled [OF st]
    using same_table_ok [OF st assms(2)] history_line_row assms(3) by (intro append_row_settled) auto
qed

lemma contains_join: "x \<in> set ls \<Longrightarrow> contains p x \<Longrightarrow> contains p (join_lines ls @ s)"
proof -
  assume x: "x \<in> set ls" "contains p x"
  have "\<exists>a b. join d ls = a @ x @ b" for d
    using x(1)
  proof (induction d ls rule: join.induct)
    case (3 d y z zs)
    show ?case
    proof (cases "x = y")
      case True
      then show ?thesis by (metis append_Nil join.simps(3))
    next
      case False
      with 3 show ?thesis by (metis append_assoc join.simps(3) set_ConsD)
    qed
  qed (auto intro: exI [of _ "[]"])
  then obtain a b where "join_lines ls = a @ x @ b" unfolding join_lines_def by blast
  with contains_append [OF x(2), of a "b @ s"] show ?thesis by simp
qed

subsection \<open>The parser and the abstract plan\<close>

lemma contains_skip: "hd p \<notin> set a \<Longrightarrow> p \<noteq> [] \<Longrightarrow> contains p (a @ s) = contains p s"
proof (induction a)
  case (Cons c a)
  then have "\<not> starts_with p (c # a @ s)" by (cases p) auto
  with Cons show ?case by simp
qed simp

lemma contains_lstrip: "p \<noteq> [] \<Longrightarrow> \<not> is_space (hd p) \<Longrightarrow> contains p (lstrip s) = contains p s"
proof -
  assume p: "p \<noteq> []" "\<not> is_space (hd p)"
  obtain a where "spaces a" "s = a @ lstrip s" using lstrip_decomp by blast
  with p show ?thesis by (metis contains_skip list_all_iff spaces_def)
qed

lemma contains_snoc_space:
  assumes "p \<noteq> []" "\<not> is_space (last p)" "list_all is_space t"
  shows "contains p (s @ t) \<longleftrightarrow> contains p s"
  using assms(3)
proof (induction t rule: rev_induct)
  case (snoc c t)
  have "contains p (u @ [c]) \<longleftrightarrow> contains p u" for u
  proof
    assume "contains p (u @ [c])"
    then obtain a b where b: "u @ [c] = a @ p @ b" by (auto simp: contains_iff)
    have "b \<noteq> []" using b assms(1,2) snoc(2) by (auto simp: append_eq_append_conv2 dest: arg_cong [of _ _ last])
    then obtain b' where "b = b' @ [c]" using b by (cases b rule: rev_cases) auto
    with b show "contains p u" by (auto simp: contains_iff)
  qed (use contains_append [of p u "[]" "[c]"] in simp)
  from this [of "s @ t"] snoc show ?case by simp
qed simp

lemma contains_strip: "p \<noteq> [] \<Longrightarrow> \<not> is_space (hd p) \<Longrightarrow> \<not> is_space (last p) \<Longrightarrow> contains p (strip s) = contains p s"
  by (metis contains_lstrip contains_snoc_space rstrip_decomp strip_def)

lemma active_line_rest:
  assumes "match_item l = Some (c, pid, g3)" and "one_line l"
  shows "contains active_mark (strip g3) \<longleftrightarrow> contains active_mark l"
proof -
  from match_itemE [OF assms(1)] obtain s1 s2 s3 r where x: "spaces s1" "spaces s2" "spaces s3"
    "c = CHR '' '' \<or> c = CHR ''x''" "list_all is_word pid"
    "l = s1 @ ''-'' @ s2 @ [CHR ''['', c, CHR '']''] @ s3 @ ''**'' @ pid @ ''**'' @ r"
    "g3 = takeWhile (\<lambda>x. x \<noteq> newline) (lstrip r)" by metis
  let ?a = "s1 @ ''-'' @ s2 @ [CHR ''['', c, CHR '']''] @ s3 @ ''**'' @ pid @ ''**''"
  have m: "active_mark \<noteq> []" "hd active_mark = CHR ''(''" "last active_mark = CHR '')''" by (simp_all add: active_mark_def)
  have "CHR ''('' \<notin> set ?a"
    using x(1-5) by (auto simp: spaces_def list_all_iff is_word_def Let_def)
  then have "contains active_mark l \<longleftrightarrow> contains active_mark r"
    using contains_skip [of active_mark ?a r] m x(6) by simp
  moreover have "g3 = lstrip r" using x(6,7) assms(2) by (auto simp: lstrip_def intro: takeWhile_all dest: set_dropWhileD)
  moreover have "\<not> is_space CHR '')''" by (simp add: is_space_def)
  ultimately show ?thesis using m by (simp add: contains_strip contains_lstrip)
qed

definition item_status_of :: "plan_item \<Rightarrow> item_status" where
  "item_status_of it = (if pi_done it then Settled else if pi_active it then Active else Pending)"

lemma parse_lines_view:
  "all_lines ls \<Longrightarrow> map (\<lambda>it. (pi_id it, item_status_of it)) (parse_lines meta ls) = lines_view ls"
proof (induction ls)
  case (Cons l ls)
  then show ?case
    by (cases "match_item l")
       (auto simp: line_view_def item_of_match_def Let_def item_status_of_def active_line_rest)
qed (simp add: lines_view_def)

lemma plan_items_view: "map (\<lambda>it. (pi_id it, item_status_of it)) (get_plan_items fs meta) = plan_view_of fs"
  by (simp add: get_plan_items_def plan_view_of_def parse_plan_text_def parse_lines_view split_lines_no_nl
      lines_view_def split: option.splits)

lemma find_first_with:
  "map_option pi_id (find (\<lambda>it. pi_active it \<and> \<not> pi_done it) its)
     = first_with Active (map (\<lambda>it. (pi_id it, item_status_of it)) its)"
  by (induction its) (auto simp: item_status_of_def)

lemma active_item_view: "map_option pi_id (get_active_item fs) = first_with Active (plan_view_of fs)"
  by (simp add: get_active_item_def find_first_with plan_items_view)

lemma pending_view: "has_pending_items fs \<longleftrightarrow> \<not> no_status Active (plan_view_of fs) \<or> \<not> no_status Pending (plan_view_of fs)"
  unfolding plan_items_view [of fs False, symmetric]
  by (auto simp: has_pending_items_def no_status_def list_ex_iff list_all_iff item_status_of_def)

subsection \<open>Settling twice\<close>

lemma set_first_others: "(pid, st) \<in> set (set_first old new xs) \<Longrightarrow> (pid, st) \<in> set xs \<or> st = new \<and> (pid, old) \<in> set xs"
  by (induction xs) (auto split: if_splits)

lemma first_with_mem: "first_with st xs = Some pid \<Longrightarrow> (pid, st) \<in> set xs"
  by (induction xs) (auto split: if_splits)

lemma fst_mem: "(x, y) \<in> set xs \<Longrightarrow> x \<in> fst ` set xs"
  by force

lemma set_first_settled:
  "distinct (map fst xs) \<Longrightarrow> first_with old xs = Some pid \<Longrightarrow> (pid, st) \<in> set (set_first old new xs) \<Longrightarrow> st = new"
proof (induction xs)
  case (Cons x xs)
  obtain p s where x: "x = (p, s)" by (cases x)
  show ?case
  proof (cases "s = old")
    case True
    then have "pid = p" "pid \<notin> fst ` set xs" using Cons(2,3) x by auto
    then show ?thesis using Cons(4) x True fst_mem [of pid st xs] by auto
  next
    case False
    then have "first_with old xs = Some pid" "p \<noteq> pid"
      using Cons(2,3) x first_with_mem [of old xs pid] fst_mem [of pid old xs] by auto
    then show ?thesis using Cons x False by simp
  qed
qed simp

lemma settle_view_moves_on:
  assumes "distinct (map fst xs)" and "first_with Active xs = Some pid"
  shows "first_with Active (settle_view xs) \<noteq> Some pid"
proof
  assume "first_with Active (settle_view xs) = Some pid"
  then have "(pid, Active) \<in> set (set_first Active Settled xs) \<or> (pid, Pending) \<in> set (set_first Active Settled xs)"
    unfolding settle_view_def using first_with_mem set_first_others by fastforce
  then show False using set_first_settled [OF assms, of _ Settled] by blast
qed

lemma py_eq_left: "py_eq PNone v \<longleftrightarrow> v = PNone" "py_eq (PStr s) v \<longleftrightarrow> v = PStr s"
  by (cases v; auto simp: py_eq_def)+

text \<open>The row a settlement would log; it must not look like a second table header.\<close>

definition log_row :: "runtime \<Rightarrow> dict \<Rightarrow> task_fs \<Rightarrow> string option" where
  "log_row rt result fs =
     (let d = dget_default result ''decision'' (PStr ''FAIL''); m = dget result ''round_metric''
      in case plan_file fs of
           None \<Rightarrow> None
         | Some body \<Rightarrow> (case settle_lines rt d m (split_lines body) of
               Inl _ \<Rightarrow> None
             | Inr (_, pid, desc) \<Rightarrow> Some (history_line rt pid d m desc)))"

definition settleable :: "runtime \<Rightarrow> dict \<Rightarrow> task_fs \<Rightarrow> bool" where
  "settleable rt result fs \<longleftrightarrow>
     distinct (map fst (plan_view_of fs))
     \<and> (case plan_file fs of None \<Rightarrow> False | Some body \<Rightarrow> table_ok (split_lines body))
     \<and> (case log_row rt result fs of None \<Rightarrow> True | Some row \<Rightarrow> \<not> is_settled_table_header row)"

lemma history_after_settle:
  assumes "settle_active rt d m fs = Inr (fs', pid, desc)" and "prints_on_line rt d m"
    and "table_ok (split_lines (the (plan_file fs)))" and "\<not> is_settled_table_header (history_line rt pid d m desc)"
  shows "contains (''| '' @ pid @ '' |'') (parse_settled_history fs')"
  using assms(1,2)
proof (elim settle_activeE)
  fix body ls assume x: "plan_file fs = Some body" "settle_lines rt d m (split_lines body) = Inr (ls, pid, desc)"
    "fs' = fs\<lparr>plan_file := Some (join_lines ls)\<rparr>" "split_lines (join_lines ls) = ls"
  have "settled_lines False ls = settled_lines False (split_lines body) @ [history_line rt pid d m desc]"
    using settle_lines_history [OF x(2)] assms(3,4) x(1) by simp
  moreover have "contains (''| '' @ pid @ '' |'') (history_line rt pid d m desc)"
    using contains_self [of "''| '' @ pid @ '' |''" "[]"] by (simp add: history_line_def)
  ultimately show ?thesis
    using contains_join [of "history_line rt pid d m desc" "settled_lines False ls" _ "[newline]"]
    by (simp add: parse_settled_history_def x(3,4) settled_text_def Let_def)
qed

text \<open>A round's settlement can be repeated after a crash: once \<open>settle_result\<close> has settled the item
  the record names, a second call with the same record finds the item in the settled history, reports
  it as already settled and leaves every file as it is.\<close>
theorem settle_result_idempotent:
  assumes "settle_result rt result fs = Inr (fs', rep)" and "truthy (dget result ''plan_item'')"
    and "settleable rt result fs"
    and "prints_on_line rt (dget_default result ''decision'' (PStr ''FAIL'')) (dget result ''round_metric'')"
  shows "settle_result rt result fs' = Inr (fs', rep\<lparr>sr_already_settled := True\<rparr>)"
proof (cases "sr_already_settled rep")
  case True
  with assms(1,2) show ?thesis by (auto simp: settle_result_def Let_def split: if_splits option.splits)
next
  case False
  let ?d = "dget_default result ''decision'' (PStr ''FAIL'')" and ?m = "dget result ''round_metric''"
  from assms(1,2) False obtain pid desc it where s: "settle_active rt ?d ?m fs = Inr (fs', pid, desc)"
    and rep: "rep = \<lparr>sr_item = PStr pid, sr_decision = ?d, sr_metric = ?m, sr_already_settled = False\<rparr>"
    and it: "get_active_item fs = Some it" "py_eq (PStr (pi_id it)) (dget result ''plan_item'')"
    by (auto simp: settle_result_def Let_def py_eq_left split: if_splits option.splits)
  obtain body ls where b: "plan_file fs = Some body"
      "settle_lines rt ?d ?m (split_lines body) = Inr (ls, pid, desc)"
      "plan_file fs' = Some (join_lines ls)" "split_lines (join_lines ls) = ls"
    by (rule settle_activeE [OF s assms(4)]) simp
  from settle_lines_view [OF b(2)] b(1) have pid: "first_with Active (plan_view_of fs) = Some pid"
    by (simp add: plan_view_of_def)
  then have exp: "dget result ''plan_item'' = PStr pid"
    using it active_item_view [of fs] by (simp add: py_eq_left)
  have "plan_view_of fs' = settle_view (plan_view_of fs)"
    using settle_lines_view [OF b(2)] b by (simp add: plan_view_of_def)
  then have "first_with Active (plan_view_of fs') \<noteq> Some pid"
    using settle_view_moves_on [OF _ pid] assms(3) by (simp add: settleable_def)
  then have act: "\<not> py_eq (case get_active_item fs' of Some it \<Rightarrow> PStr (pi_id it) | None \<Rightarrow> PNone) (PStr pid)"
    using active_item_view [of fs'] by (auto simp: py_eq_left split: option.splits)
  have "contains (''| '' @ pid @ '' |'') (parse_settled_history fs')"
    using history_after_settle [OF s assms(4)] assms(3) b by (simp add: settleable_def log_row_def)
  with act exp assms(2) b(3) show ?thesis by (simp add: settle_result_def Let_def rep py_str_def)
qed

subsection \<open>A plan of two items\<close>

definition demo_plan_lines :: "string list" where
  "demo_plan_lines = [''# Plan v1'', [], ''## Active Items'', ''- [ ] **p1** (ACTIVE): fuse the loops'',
     ''- [ ] **p2**: tile the rows'', [], ''## Settled History'', table_header, table_rule, []]"

definition demo_settled_lines :: "string list" where
  "demo_settled_lines = [''# Plan v1'', [], ''## Active Items'', ''- [x] **p1** [DISCARD]: fuse the loops'',
     ''- [ ] **p2** (ACTIVE): tile the rows'', [], ''## Settled History'', table_header, table_rule,
     ''| p1 | DISCARD | N/A | fuse the loops |'', []]"

definition demo_plan_fs :: task_fs where
  "demo_plan_fs = empty_fs\<lparr>plan_file := Some (join_lines demo_plan_lines)\<rparr>"

definition demo_round :: dict where
  "demo_round = fmap_of_list [(''decision'', PStr ''DISCARD''), (''plan_item'', PStr ''p1'')]"

lemma demo_plan_split:
  "split_lines (join_lines demo_plan_lines) = demo_plan_lines"
  "split_lines (join_lines demo_settled_lines) = demo_settled_lines"
  by code_simp+

lemma demo_settle_lines:
  "settle_lines demo_runtime (PStr ''DISCARD'') PNone demo_plan_lines = Inr (demo_settled_lines, ''p1'', ''fuse the loops'')"
  by code_simp

lemma demo_prints: "prints_on_line demo_runtime (PStr ''DISCARD'') PNone"
  by (simp add: prints_on_line_def py_str_def newline_def)

lemma demo_settle: "settle_active demo_runtime (PStr ''DISCARD'') PNone demo_plan_fs
    = Inr (demo_plan_fs\<lparr>plan_file := Some (join_lines demo_settled_lines)\<rparr>, ''p1'', ''fuse the loops'')"
  by (simp add: settle_active_def demo_plan_fs_def demo_plan_split demo_settle_lines)

lemma demo_views:
  "lines_view demo_plan_lines = [(''p1'', Active), (''p2'', Pending)]"
  "lines_view demo_settled_lines = [(''p1'', Settled), (''p2'', Active)]"
  "table_ok demo_plan_lines" "\<not> is_settled_table_header ''| p1 | DISCARD | N/A | fuse the loops |''"
  by code_simp+

theorem settle_active_refines_witness:
  "plan_view_of (demo_plan_fs\<lparr>plan_file := Some (join_lines demo_settled_lines)\<rparr>) = settle_view (plan_view_of demo_plan_fs)
     \<and> plan_view_of demo_plan_fs = [(''p1'', Active), (''p2'', Pending)]"
  using settle_active_refines [OF demo_settle demo_prints]
  by (simp add: plan_view_of_def demo_plan_fs_def demo_plan_split demo_views)

lemma demo_round_fields:
  "dget_default demo_round ''decision'' (PStr ''FAIL'') = PStr ''DISCARD''"
  "dget demo_round ''round_metric'' = PNone" "dget demo_round ''plan_item'' = PStr ''p1''"
  by (simp_all add: demo_round_def dget_default_def dget_def fmlookup_of_list)

lemma demo_active: "\<exists>it. get_active_item demo_plan_fs = Some it \<and> pi_id it = ''p1''"
  using active_item_view [of demo_plan_fs]
  by (cases "get_active_item demo_plan_fs") (auto simp: plan_view_of_def demo_plan_fs_def demo_plan_split demo_views)

lemma demo_settleable: "settleable demo_runtime demo_round demo_plan_fs"
  by (simp add: settleable_def log_row_def demo_round_fields plan_view_of_def demo_plan_fs_def demo_plan_split demo_views
      demo_settle_lines history_line_def py_str_def)

lemma demo_settle_result:
  "settle_result demo_runtime demo_round demo_plan_fs = Inr (demo_plan_fs\<lparr>plan_file := Some (join_lines demo_settled_lines)\<rparr>,
     \<lparr>sr_item = PStr ''p1'', sr_decision = PStr ''DISCARD'', sr_metric = PNone, sr_already_settled = False\<rparr>)"
proof -
  obtain it where "get_active_item demo_plan_fs = Some it" "pi_id it = ''p1''" using demo_active by blast
  then show ?thesis
    by (simp add: settle_result_def Let_def demo_round_fields demo_settle)
       (simp add: demo_plan_fs_def)
qed

theorem settle_result_idempotent_witness:
  "settle_result demo_runtime demo_round (demo_plan_fs\<lparr>plan_file := Some (join_lines demo_settled_lines)\<rparr>)
     = Inr (demo_plan_fs\<lparr>plan_file := Some (join_lines demo_settled_lines)\<rparr>,
         \<lparr>sr_item = PStr ''p1'', sr_decision = PStr ''DISCARD'', sr_metric = PNone, sr_already_settled = True\<rparr>)"
  using settle_result_idempotent [OF demo_settle_result _ demo_settleable] demo_prints
  by (simp add: demo_round_fields)

end
