(* ===== verification/Journal.thy ===== *)
theory Journal
  imports State_Store
begin

text \<open>
  The write-ahead journal of \<open>scripts/phase_machine/state_store.py\<close>: \<open>intent.json\<close>, its
  replay after a crash for the three kinds of transaction, and the gate that heals and then
  checks a task. Replay either raises before it writes anything (the \<open>int()\<close> of a corrupt
  counter) or returns the healed directory.
\<close>

definition write_intent :: "dict \<Rightarrow> task_fs \<Rightarrow> task_fs" where
  "write_intent intent fs = fs\<lparr>intent_file := atomic_write_json (PDict intent)\<rparr>"

definition read_intent :: "task_fs \<Rightarrow> dict option" where
  "read_intent fs = (case intent_file fs of Json (PDict d) \<Rightarrow> Some d | _ \<Rightarrow> None)"

definition clear_intent :: "task_fs \<Rightarrow> task_fs" where
  "clear_intent fs = fs\<lparr>intent_file := NoFile\<rparr>"

definition intent_control_fields :: "string list" where
  "intent_control_fields = [''phase'', ''progress_initialized'', ''pending_settle'',
     ''expected_history_round'', ''expected_plan_version'']"

definition patch_key :: "string \<Rightarrow> bool" where
  "patch_key k = (k \<in> set progress_fields \<or> k \<in> set intent_control_fields)"

definition apply_intent_patch :: "dict \<Rightarrow> dict \<Rightarrow> (dict \<times> bool) res" where
  "apply_intent_patch st intent = (case dget intent ''state_patch'' of
      PDict patch \<Rightarrow> Inr (st ++\<^sub>f fmfilter patch_key patch, True)
    | _ \<Rightarrow> (case py_or (dget intent ''progress_fields'') (PDict fmempty) of
              PDict pf \<Rightarrow> Inr (merge_progress st pf, False)
            | _ \<Rightarrow> Inl AttributeError))"

datatype replay_action = Cleared | Rebuilt | Discarded | Skipped

type_synonym replay_outcome = "(task_fs \<times> replay_action) res"

definition intent_result :: "replay_action \<Rightarrow> task_fs \<Rightarrow> replay_outcome" where
  "intent_result act fs = Inr (clear_intent fs, act)"

definition replay_round_intent :: "real \<Rightarrow> dict \<Rightarrow> task_fs \<Rightarrow> replay_outcome" where
  "replay_round_intent now intent fs =
     bindR (expected_int intent ''round'') (\<lambda>target_round.
     let st = state_or_empty fs in
     if py_eq (dget st ''expected_history_round'') (PInt target_round) then intent_result Cleared fs
     else bindR (read_last_history_round fs) (\<lambda>last_round.
       if last_round = Some target_round then
         bindR (apply_intent_patch st intent) (\<lambda>(st', patched).
           let kd_json = py_or (dget intent ''kd_json'') (PDict fmempty);
               st'' = (if patched then st'
                       else fmupd ''expected_history_round'' (PInt target_round)
                              (fmupd ''pending_settle'' kd_json st'))
           in intent_result Rebuilt (save_state now st'' fs))
       else intent_result Discarded fs))"

definition replay_baseline_intent :: "real \<Rightarrow> dict \<Rightarrow> task_fs \<Rightarrow> replay_outcome" where
  "replay_baseline_intent now intent fs =
     (let st = state_or_empty fs in
      if truthy (dget st ''progress_initialized'') \<and> py_eq (dget st ''expected_history_round'') (PInt 0)
      then intent_result Cleared fs
      else bindR (read_last_history_round fs) (\<lambda>last_round.
        if last_round = Some 0 then
          bindR (apply_intent_patch st intent) (\<lambda>(st', patched).
            let st'' = (if patched then st'
                        else fmupd ''expected_history_round'' (PInt 0)
                               (fmupd ''progress_initialized'' (PBool True) st'))
            in intent_result Rebuilt (save_state now st'' fs))
        else intent_result Discarded fs))"

definition replay_plan_intent :: "real \<Rightarrow> dict \<Rightarrow> task_fs \<Rightarrow> replay_outcome" where
  "replay_plan_intent now intent fs =
     bindR (expected_int intent ''version'') (\<lambda>target_version.
     let st = state_or_empty fs in
     bindR (expected_int st ''expected_plan_version'') (\<lambda>expected.
     if expected = target_version then intent_result Cleared fs
     else if read_plan_version_from_disk fs = Some target_version then
       bindR (apply_intent_patch st intent) (\<lambda>(st', patched).
         let st'' = (if patched then st'
                     else fmupd ''expected_plan_version'' (PInt target_version) st')
         in intent_result Rebuilt (save_state now st'' fs))
     else intent_result Discarded fs))"

definition replay_intent :: "real \<Rightarrow> task_fs \<Rightarrow> (task_fs \<times> replay_action option) res" where
  "replay_intent now fs = (case read_intent fs of
      None \<Rightarrow> Inr (fs, None)
    | Some intent \<Rightarrow>
        let kind = dget intent ''kind'';
            lift = (\<lambda>r. bindR r (\<lambda>(fs', act). Inr (fs', Some act)))
        in if py_eq kind (PStr ''round'') then lift (replay_round_intent now intent fs)
           else if py_eq kind (PStr ''baseline'') then lift (replay_baseline_intent now intent fs)
           else if py_eq kind (PStr ''plan'') then lift (replay_plan_intent now intent fs)
           else Inr (fs, Some Skipped))"

text \<open>
  \<open>require_state_consistency\<close> returns the directory after the heal beside the report;
  \<open>on_inconsistent = "raise"\<close> is the flag \<open>raises\<close>.
\<close>

definition require_state_consistency ::
    "real \<Rightarrow> bool \<Rightarrow> bool \<Rightarrow> task_fs \<Rightarrow> (task_fs \<times> consistency_report) res" where
  "require_state_consistency now raises auto_replay fs =
     bindR (if auto_replay then bindR (replay_intent now fs) (\<lambda>(fs', _). Inr fs') else Inr fs) (\<lambda>fs'.
     bindR (check_state_consistency fs') (\<lambda>report.
       if consistent report then Inr (fs', report)
       else if raises then Inl (RuntimeError ''.ar_state is inconsistent'')
       else Inr (fs', report)))"

text \<open>The directory a heal leaves: unchanged when replay raises.\<close>

definition heal :: "real \<Rightarrow> task_fs \<Rightarrow> task_fs" where
  "heal now fs = (case replay_intent now fs of Inr (fs', _) \<Rightarrow> fs' | Inl _ \<Rightarrow> fs)"

subsection \<open>Effects on the files\<close>

lemma read_intent_write [simp, store_simps]: "read_intent (write_intent d fs) = Some (sanitize_dict d)"
  by (simp add: read_intent_def write_intent_def atomic_write_json_def sanitize_dict_def)

lemma read_intent_clear [simp, store_simps]: "read_intent (clear_intent fs) = None"
  by (simp add: read_intent_def clear_intent_def)

lemma intent_frame [simp, store_simps]:
  "intent_file (clear_intent fs) = NoFile"
  "state_file (write_intent d fs) = state_file fs" "state_file (clear_intent fs) = state_file fs"
  "history_file (write_intent d fs) = history_file fs" "history_file (clear_intent fs) = history_file fs"
  "history_eol (write_intent d fs) = history_eol fs" "history_eol (clear_intent fs) = history_eol fs"
  "plan_file (write_intent d fs) = plan_file fs" "plan_file (clear_intent fs) = plan_file fs"
  "edit_marker (write_intent d fs) = edit_marker fs" "edit_marker (clear_intent fs) = edit_marker fs"
  "diagnose_files (write_intent d fs) = diagnose_files fs"
  "diagnose_files (clear_intent fs) = diagnose_files fs"
  by (simp_all add: write_intent_def clear_intent_def)

lemma read_intent_frame [simp, store_simps]:
  "read_intent (save_state now st fs) = read_intent fs"
  "read_intent (append_history r fs) = read_intent fs"
  by (simp_all add: read_intent_def)

lemma load_state_intent [simp, store_simps]:
  "load_state (write_intent d fs) = load_state fs" "load_state (clear_intent fs) = load_state fs"
  by (simp_all add: load_state_def)

lemma state_or_empty_frame [simp, store_simps]:
  "state_or_empty (write_intent d fs) = state_or_empty fs"
  "state_or_empty (clear_intent fs) = state_or_empty fs"
  "state_or_empty (append_history r fs) = state_or_empty fs"
  "state_or_empty (save_state now st fs) = fmupd ''last_touched'' (PTime now) (sanitize_dict st)"
  by (simp_all add: state_or_empty_def)

lemma last_round_intent [simp, store_simps]:
  "read_last_history_round (write_intent d fs) = read_last_history_round fs"
  "read_last_history_round (clear_intent fs) = read_last_history_round fs"
  by (simp_all add: read_last_history_round_def)

lemma plan_version_intent [simp, store_simps]:
  "read_plan_version_from_disk (write_intent d fs) = read_plan_version_from_disk fs"
  "read_plan_version_from_disk (clear_intent fs) = read_plan_version_from_disk fs"
  by (simp_all add: read_plan_version_from_disk_def)

lemma clear_write_intent: "intent_file fs = NoFile \<Longrightarrow> clear_intent (write_intent d fs) = fs"
  by (simp add: clear_intent_def write_intent_def)

lemma clear_save: "clear_intent (save_state now st fs) = save_state now st (clear_intent fs)"
  by (simp add: clear_intent_def save_state_def)

text \<open>A log whose last line the tail reader accepts keeps that property under an append.\<close>

lemma last_round_append_ok:
  assumes "dget r ''round'' = PInt n"
  shows "\<exists>v. read_last_history_round (append_history r fs) = Inr v"
proof -
  have row: "row_round (sanitize_dict r) = Inr (Some n)" using assms by simp
  have "\<exists>ls. history_file (append_history r fs) = Some (ls @ [HRow (sanitize_dict r)])
          \<or> history_file (append_history r fs) = Some (ls @ [HBad])"
  proof (cases "\<exists>ls. history_file fs = Some ls \<and> ls \<noteq> [] \<and> \<not> history_eol fs")
    case True
    then obtain ls where "history_file fs = Some ls" "ls \<noteq> []" "\<not> history_eol fs" by blast
    then show ?thesis by (cases "last ls") (auto simp: append_history_def Let_def)
  next
    case False
    then show ?thesis by (cases "history_file fs") (auto simp: append_history_def Let_def)
  qed
  then show ?thesis using row by (auto simp: read_last_history_round_def)
qed

lemma read_intent_NoFile: "intent_file fs = NoFile \<Longrightarrow> read_intent fs = None"
  by (simp add: read_intent_def)

text \<open>A patch journaled with known keys only is applied whole.\<close>

lemma apply_intent_patch_whole:
  assumes "dget intent ''state_patch'' = PDict patch" and "fset (fmdom patch) \<subseteq> Collect patch_key"
  shows "apply_intent_patch st intent = Inr (st ++\<^sub>f patch, True)"
proof -
  have "fmfilter patch_key patch = patch" using assms(2) by (intro fmfilter_id) auto
  then show ?thesis using assms(1) by (simp add: apply_intent_patch_def)
qed

lemma expected_int_PInt: "dget d k = PInt n \<Longrightarrow> expected_int d k = Inr n"
  by (simp add: expected_int_def py_or_def)

lemma heal_idle: "read_intent fs = None \<Longrightarrow> heal now fs = fs"
  by (simp add: heal_def replay_intent_def)

subsection \<open>The contract of a journaled transaction\<close>

text \<open>
  What makes \<open>journal; body; commit; clear\<close> atomic: how recovery decides (the journal is
  present, the state has caught up, the body has landed) and what each step does to those
  three observations. \<open>same\<close> compares states up to what recovery may change.
\<close>

locale journaled_txn =
  fixes pre :: "'p \<Rightarrow> 's \<Rightarrow> bool"
    and journal :: "'p \<Rightarrow> 's \<Rightarrow> 's"
    and body :: "'p \<Rightarrow> 's \<Rightarrow> 's"
    and commit :: "'p \<Rightarrow> 's \<Rightarrow> 's"
    and rebuild :: "'p \<Rightarrow> 's \<Rightarrow> 's"
    and clear :: "'s \<Rightarrow> 's"
    and recover :: "'s \<Rightarrow> 's"
    and has_journal :: "'p \<Rightarrow> 's \<Rightarrow> bool"
    and no_journal :: "'s \<Rightarrow> bool"
    and caught_up :: "'p \<Rightarrow> 's \<Rightarrow> bool"
    and landed :: "'p \<Rightarrow> 's \<Rightarrow> bool"
    and same :: "'s \<Rightarrow> 's \<Rightarrow> bool"
  assumes same_refl: "same s s"
    and recover_idle: "no_journal s \<Longrightarrow> recover s = s"
    and recover_journal: "has_journal p s \<Longrightarrow>
      recover s = clear (if caught_up p s then s else if landed p s then rebuild p s else s)"
    and pre_idle: "pre p s \<Longrightarrow> no_journal s"
    and journal_has: "pre p s \<Longrightarrow> has_journal p (journal p s)"
    and journal_not_yet: "pre p s \<Longrightarrow> \<not> caught_up p (journal p s) \<and> \<not> landed p (journal p s)"
    and journal_clear: "pre p s \<Longrightarrow> same (clear (journal p s)) s"
    and body_has: "has_journal p s \<Longrightarrow> has_journal p (body p s)"
    and body_lands: "pre p s \<Longrightarrow>
      \<not> caught_up p (body p (journal p s)) \<and> landed p (body p (journal p s))"
    and commit_has: "has_journal p s \<Longrightarrow> has_journal p (commit p s)"
    and commit_caught: "pre p s \<Longrightarrow> caught_up p (commit p (body p (journal p s)))"
    and rebuild_has: "has_journal p s \<Longrightarrow> has_journal p (rebuild p s)"
    and rebuild_caught: "pre p s \<Longrightarrow> caught_up p (rebuild p (body p (journal p s)))"
    and rebuild_commit: "pre p s \<Longrightarrow>
      same (clear (rebuild p (body p (journal p s)))) (clear (commit p (body p (journal p s))))"
    and clear_idle: "no_journal (clear s)"
begin

definition steps :: "'p \<Rightarrow> ('s \<Rightarrow> 's) list" where
  "steps p = [journal p, body p, commit p, clear]"

definition complete :: "'p \<Rightarrow> 's \<Rightarrow> 's" where
  "complete p s = clear (commit p (body p (journal p s)))"

lemma crash_cases:
  "crash_after k (steps p) s =
     (if k = 0 then s else if k = 1 then journal p s else if k = 2 then body p (journal p s)
      else if k = 3 then commit p (body p (journal p s)) else complete p s)"
proof -
  have "k = 0 \<or> k = 1 \<or> k = 2 \<or> k = 3 \<or> 4 \<le> k" by linarith
  then show ?thesis
    by (auto simp: crash_after_def steps_def complete_def numeral_2_eq_2 numeral_3_eq_3
        take_Cons' split: nat.splits)
qed

lemma recover_before: "pre p s \<Longrightarrow> k \<le> 1 \<Longrightarrow> same (recover (crash_after k (steps p) s)) s"
  using recover_idle [OF pre_idle] recover_journal [OF journal_has] journal_not_yet journal_clear
  by (cases "k = 0") (auto simp: crash_cases same_refl)

lemma recover_after:
  assumes "pre p s" and "2 \<le> k"
  shows "same (recover (crash_after k (steps p) s)) (complete p s)"
proof -
  note h = body_has [OF journal_has [OF assms(1)]]
  have "recover (body p (journal p s)) = clear (rebuild p (body p (journal p s)))"
    using recover_journal [OF h] body_lands [OF assms(1)] by simp
  moreover have "recover (commit p (body p (journal p s))) = complete p s"
    using recover_journal [OF commit_has [OF h]] commit_caught [OF assms(1)] by (simp add: complete_def)
  moreover have "recover (complete p s) = complete p s"
    by (simp add: complete_def recover_idle clear_idle)
  ultimately show ?thesis
    using rebuild_commit [OF assms(1)] assms(2)
    by (auto simp: crash_cases complete_def same_refl)
qed

text \<open>All or nothing: whatever the crash point, recovery ends before or after the transaction.\<close>

lemma crash_atomic:
  "pre p s \<Longrightarrow> same (recover (crash_after k (steps p) s)) (if k \<le> 1 then s else complete p s)"
  using recover_before [of p s k] recover_after [of p s k] by simp

text \<open>A crash inside the recovery itself, before it clears the journal, is recovered again.\<close>

lemma crash_in_recovery:
  assumes "pre p s"
  shows "same (recover (rebuild p (body p (journal p s)))) (complete p s)"
  using recover_journal [OF rebuild_has [OF body_has [OF journal_has [OF assms]]]]
    rebuild_caught [OF assms] rebuild_commit [OF assms]
  by (simp add: complete_def)

end

end
