(* ===== verification/Metric_Policy.thy ===== *)
theory Metric_Policy
  imports Py_Value
begin

text \<open>
  \<open>scripts/task_config/metric_policy.py\<close>: the outcome of one evaluation, the hard
  constraints of a task and the comparison that decides whether a round beats the best
  kernel so far.
\<close>

datatype EvalOutcome = OK | KERNEL_FAIL | INFRA_FAIL

record EvalResult =
  er_outcome :: EvalOutcome
  er_metrics :: dict
  er_error :: pyval
  er_raw_output :: string
  er_error_source :: pyval
  er_fail_report :: "string option"
  er_failure_signals :: dict

definition correctness :: "EvalResult \<Rightarrow> bool" where
  "correctness r = (er_outcome r = OK)"

subsection \<open>Hard constraints\<close>

text \<open>
  The constraint dictionary in iteration order, with the operator text and the threshold
  of each metric; the four kinds of violation the code appends.
\<close>

type_synonym constraints = "(string \<times> string \<times> pyval) list"

datatype violation =
    UnknownOperator string string
  | MetricMissing string string pyval
  | NonNumeric string pyval
  | Violates string pyval string pyval

definition constraint_op :: "string \<Rightarrow> (pyval \<Rightarrow> pyval \<Rightarrow> bool res) option" where
  "constraint_op s =
     (if s = ''<='' then Some (\<lambda>v t. py_ge t v)
      else if s = ''>='' then Some py_ge
      else if s = ''<'' then Some py_lt
      else if s = ''>'' then Some (\<lambda>v t. py_lt t v)
      else if s = ''=='' then Some (\<lambda>v t. Inr (py_eq v t))
      else None)"

fun check_constraints :: "EvalResult \<Rightarrow> constraints \<Rightarrow> violation list res" where
  "check_constraints r [] = Inr []"
| "check_constraints r ((name, op_str, threshold) # cs) =
     (let value = dget (er_metrics r) name;
          here = (case constraint_op op_str of
                    None \<Rightarrow> Inr [UnknownOperator name op_str]
                  | Some func \<Rightarrow>
                      if value = PNone then Inr [MetricMissing name op_str threshold]
                      else if \<not> is_number value then Inr [NonNumeric name value]
                      else bindR (func value threshold) (\<lambda>b.
                             Inr (if b then [] else [Violates name value op_str threshold])))
      in bindR here (\<lambda>vs. bindR (check_constraints r cs) (\<lambda>rest. Inr (vs @ rest))))"

text \<open>
  The reference reading of one constraint over numbers: the metric is present and numeric
  and stands in the named relation to the threshold.
\<close>

fun rel_holds :: "string \<Rightarrow> pyfloat \<Rightarrow> pyfloat \<Rightarrow> bool" where
  "rel_holds s a b =
     (s = ''<='' \<and> fle a b \<or> s = ''>='' \<and> fle b a \<or> s = ''<'' \<and> flt a b
      \<or> s = ''>'' \<and> flt b a \<or> s = ''=='' \<and> feq a b)"

definition satisfied :: "dict \<Rightarrow> string \<times> string \<times> pyval \<Rightarrow> bool" where
  "satisfied m c = (case c of (name, op_str, threshold) \<Rightarrow>
     (\<exists>a b. num_of (dget m name) = Some a \<and> num_of threshold = Some b \<and> rel_holds op_str a b))"

definition violation_metric :: "violation \<Rightarrow> string" where
  "violation_metric v = (case v of UnknownOperator n _ \<Rightarrow> n | MetricMissing n _ _ \<Rightarrow> n
     | NonNumeric n _ \<Rightarrow> n | Violates n _ _ _ \<Rightarrow> n)"

lemma num_of_feq: "num_of v = Some a \<Longrightarrow> num_of w = Some b \<Longrightarrow> py_eq v w = feq a b"
  by (cases v; cases w) (auto simp: py_eq_def feq_def)

text \<open>One constraint with a numeric threshold never raises and reports iff not satisfied.\<close>

lemma check_one:
  assumes "num_of threshold = Some b"
  shows "\<exists>vs. check_constraints r [(name, op_str, threshold)] = Inr vs
              \<and> map violation_metric vs = (if satisfied (er_metrics r) (name, op_str, threshold) then [] else [name])"
  using assms
  by (cases "num_of (dget (er_metrics r) name)")
     (auto simp: satisfied_def constraint_op_def is_number_def Let_def py_ge_def py_lt_def
        num_of_feq violation_metric_def)

lemma check_constraints_Cons:
  "check_constraints r (c # cs) =
     bindR (check_constraints r [c]) (\<lambda>vs. bindR (check_constraints r cs) (\<lambda>rest. Inr (vs @ rest)))"
proof -
  obtain n s t where "c = (n, s, t)" by (cases c)
  moreover have "bindR (bindR m (\<lambda>vs. Inr (vs @ []))) f = bindR m f" for m :: "violation list res" and f :: "violation list \<Rightarrow> violation list res"
    by (cases m) simp_all
  ultimately show ?thesis by (simp add: Let_def)
qed

lemma check_constraints_all:
  assumes "list_all (\<lambda>(_, _, t). is_number t) cs"
  shows "\<exists>vs. check_constraints r cs = Inr vs
              \<and> map violation_metric vs = map fst (filter (\<lambda>c. \<not> satisfied (er_metrics r) c) cs)"
  using assms
proof (induction cs)
  case (Cons c cs)
  obtain n s t where c: "c = (n, s, t)" by (cases c)
  with Cons.prems obtain b where "num_of t = Some b" by (auto simp: is_number_def)
  from check_one [OF this, of r n s] c obtain vs where
    vs: "check_constraints r [c] = Inr vs"
        "map violation_metric vs = (if satisfied (er_metrics r) c then [] else [fst c])" by auto
  from Cons obtain ws where
    ws: "check_constraints r cs = Inr ws"
        "map violation_metric ws = map fst (filter (\<lambda>c. \<not> satisfied (er_metrics r) c) cs)" by auto
  have "check_constraints r (c # cs) = Inr (vs @ ws)"
    by (subst check_constraints_Cons) (simp only: vs ws bindR_simps)
  then show ?case using vs(2) ws(2) by auto
qed simp

subsection \<open>is_improvement\<close>

text \<open>\<open>(a - b) / abs(d) * 100\<close> on numbers; any other operand raises \<open>TypeError\<close>.\<close>

definition relative_pct :: "pyval \<Rightarrow> pyval \<Rightarrow> pyval \<Rightarrow> pyfloat res" where
  "relative_pct a b d =
     (case (num_of a, num_of b, num_of d) of
        (Some x, Some y, Some z) \<Rightarrow> Inr (fscale 100 (fdiv (fsub x y) (fabs z)))
      | _ \<Rightarrow> Inl TypeError)"

definition is_improvement ::
    "EvalResult \<Rightarrow> EvalResult \<Rightarrow> string \<Rightarrow> bool \<Rightarrow> pyfloat \<Rightarrow> bool res" where
  "is_improvement current best metric lower_is_better threshold =
     (if \<not> correctness current then Inr False
      else let cur_val = dget (er_metrics current) metric;
               best_val = dget (er_metrics best) metric
           in if cur_val = PNone then Inr False
              else if best_val = PNone then Inr True
              else if py_eq best_val (PInt 0) then
                (if lower_is_better then py_lt cur_val (PInt 0) else py_lt (PInt 0) cur_val)
              else bindR (if lower_is_better then relative_pct best_val cur_val best_val
                          else relative_pct cur_val best_val best_val)
                         (\<lambda>pct. Inr (flt threshold pct)))"

text \<open>\<open>better\<close>: the strict order on measured numbers in the configured direction.\<close>

definition better :: "bool \<Rightarrow> real \<Rightarrow> real \<Rightarrow> bool" where
  "better lower a b = (if lower then a < b else b < a)"

definition metric_real :: "EvalResult \<Rightarrow> string \<Rightarrow> real option" where
  "metric_real r metric =
     (case num_of (dget (er_metrics r) metric) of Some (Fin x) \<Rightarrow> Some x | _ \<Rightarrow> None)"

lemma metric_real_SomeD:
  "metric_real r m = Some x \<Longrightarrow> num_of (dget (er_metrics r) m) = Some (Fin x)"
  by (auto simp: metric_real_def split: option.splits pyfloat.splits)

lemma num_of_not_None: "num_of v = Some f \<Longrightarrow> v \<noteq> PNone"
  by auto

text \<open>On finite numbers the comparison never raises and has a closed form.\<close>

lemma is_improvement_finite:
  assumes "correctness c" and "metric_real c m = Some x" and "metric_real b m = Some y"
  shows "is_improvement c b m lower (Fin t) =
           Inr (if y = 0 then better lower x 0
                else better lower x (if lower then y - t / 100 * \<bar>y\<bar> else y + t / 100 * \<bar>y\<bar>))"
proof -
  note n = metric_real_SomeD [OF assms(2)] metric_real_SomeD [OF assms(3)]
  have e0: "py_eq (dget (er_metrics b) m) (PInt 0) \<longleftrightarrow> y = 0"
    using n by (simp add: py_eq_PInt_iff)
  have pct: "t < 100 * (d / \<bar>y\<bar>) \<longleftrightarrow> t / 100 * \<bar>y\<bar> < d" if "y \<noteq> 0" for d
    using that by (simp add: field_simps)
  show ?thesis
    using n assms(1) pct [of "y - x"] pct [of "x - y"]
    by (auto simp: is_improvement_def Let_def e0 num_of_not_None py_lt_def better_def
        relative_pct_def fsub_def fscale_def)
qed

lemma is_improvement_strict:
  assumes "metric_real c m = Some x" and "metric_real b m = Some y" and "0 \<le> t"
    and "is_improvement c b m lower (Fin t) = Inr True"
  shows "correctness c \<and> better lower x y"
proof -
  have c: "correctness c" using assms(4) by (auto simp: is_improvement_def split: if_splits)
  have "0 \<le> t / 100 * \<bar>y\<bar>" using assms(3) by simp
  with assms(4) show ?thesis
    unfolding is_improvement_finite [OF c assms(1,2)]
    by (auto simp: better_def c split: if_splits)
qed

lemma better_trans: "better l a b \<Longrightarrow> better l b c \<Longrightarrow> better l a c"
  by (auto simp: better_def split: if_splits)

lemma better_asym: "better l a b \<Longrightarrow> \<not> better l b a"
  by (auto simp: better_def split: if_splits)

lemma is_improvement_better_trans:
  assumes "correctness a" and "metric_real a m = Some x" and "metric_real c m = Some z"
    and "correctness b" and "metric_real b m = Some y"
    and "better lower x y" and "is_improvement b c m lower (Fin t) = Inr True"
  shows "is_improvement a c m lower (Fin t) = Inr True"
  using assms(6,7) unfolding is_improvement_finite [OF assms(1,2,3)] is_improvement_finite [OF assms(4,5,3)]
  by (auto simp: better_def split: if_splits)

subsection \<open>Properties\<close>

text \<open>
  Hard constraints with numeric thresholds: the check never raises, and it names
  exactly the constraints that are not satisfied, in their order (so the list is empty iff
  all hold). A constraint on a missing or non-numeric metric, or with an unknown operator,
  counts as not satisfied, and \<open>NaN\<close> satisfies nothing.
\<close>

theorem check_constraints_spec:
  assumes "list_all (\<lambda>(_, _, t). is_number t) cs"
  shows "\<exists>vs. check_constraints r cs = Inr vs
     \<and> map violation_metric vs = map fst (filter (\<lambda>c. \<not> satisfied (er_metrics r) c) cs)
     \<and> (vs = [] \<longleftrightarrow> list_all (satisfied (er_metrics r)) cs)"
proof -
  from check_constraints_all [OF assms] obtain vs where
    vs: "check_constraints r cs = Inr vs"
        "map violation_metric vs = map fst (filter (\<lambda>c. \<not> satisfied (er_metrics r) c) cs)" by blast
  then have "vs = [] \<longleftrightarrow> filter (\<lambda>c. \<not> satisfied (er_metrics r) c) cs = []"
    by (metis Nil_is_map_conv)
  then show ?thesis using vs by (auto simp: filter_empty_conv list_all_iff)
qed

theorem check_constraints_spec_witness:
  "\<exists>vs. check_constraints \<lparr>er_outcome = OK, er_metrics = fmap_of_list [(''m'', PInt 3), (''n'', PFloat NaN)],
        er_error = PNone, er_raw_output = [], er_error_source = PNone, er_fail_report = None,
        er_failure_signals = fmempty\<rparr>
      [(''m'', ''<='', PInt 3), (''n'', ''<='', PInt 3), (''m'', ''=='', PFloat (Fin 4))] = Inr vs
    \<and> map violation_metric vs = [''n'', ''m''] \<and> vs \<noteq> []"
  using check_constraints_spec [of "[(''m'', ''<='', PInt 3), (''n'', ''<='', PInt 3), (''m'', ''=='', PFloat (Fin 4))]"
    "\<lparr>er_outcome = OK, er_metrics = fmap_of_list [(''m'', PInt 3), (''n'', PFloat NaN)],
        er_error = PNone, er_raw_output = [], er_error_source = PNone, er_fail_report = None,
        er_failure_signals = fmempty\<rparr>"]
  by (simp add: satisfied_def dget_def fmlookup_of_list fle_def feq_def)

text \<open>
  The keep-or-discard comparison is a strict order on finite measurements: with a
  non-negative threshold an improvement is strictly better in the configured direction, two
  results never improve on each other, and improvements chain, so the best kernel is never
  replaced by a slower one through any sequence of accepted rounds. A result that is not
  correct never improves on anything.
\<close>

theorem is_improvement_strict_order:
  assumes "metric_real a m = Some x" and "metric_real b m = Some y" and "metric_real c m = Some z"
    and "0 \<le> t"
    and "is_improvement a b m lower (Fin t) = Inr True"
  shows "better lower x y
     \<and> is_improvement b a m lower (Fin t) = Inr False
     \<and> (is_improvement b c m lower (Fin t) = Inr True \<longrightarrow> is_improvement a c m lower (Fin t) = Inr True)
     \<and> (\<not> correctness c \<longrightarrow> is_improvement c b m lower (Fin t) = Inr False)"
proof -
  have a: "correctness a" "better lower x y"
    using is_improvement_strict [OF assms(1,2,4,5)] by auto
  have asym: "is_improvement b a m lower (Fin t) = Inr False"
  proof (cases "correctness b")
    case True
    obtain v where v: "is_improvement b a m lower (Fin t) = Inr v"
      using is_improvement_finite [OF True assms(2,1)] by simp
    with is_improvement_strict [OF assms(2,1,4)] better_asym [OF a(2)] show ?thesis
      by (cases v) auto
  qed (simp add: is_improvement_def)
  have trans: "is_improvement a c m lower (Fin t) = Inr True"
    if "is_improvement b c m lower (Fin t) = Inr True"
  proof -
    have "correctness b" using that by (auto simp: is_improvement_def split: if_splits)
    from is_improvement_better_trans [OF a(1) assms(1,3) this assms(2) a(2) that] show ?thesis .
  qed
  show ?thesis using a asym trans by (auto simp: is_improvement_def)
qed

definition result_with :: "real \<Rightarrow> EvalResult" where
  "result_with x = \<lparr>er_outcome = OK, er_metrics = fmap_of_list [(''latency_us'', PFloat (Fin x))],
     er_error = PNone, er_raw_output = [], er_error_source = PNone, er_fail_report = None,
     er_failure_signals = fmempty\<rparr>"

theorem is_improvement_strict_order_witness:
  "is_improvement (result_with 90) (result_with 100) ''latency_us'' True (Fin 2) = Inr True
   \<and> is_improvement (result_with 100) (result_with 90) ''latency_us'' True (Fin 2) = Inr False
   \<and> is_improvement (result_with 90) (result_with 200) ''latency_us'' True (Fin 2) = Inr True"
proof -
  have m: "metric_real (result_with x) ''latency_us'' = Some x" for x
    by (simp add: metric_real_def result_with_def dget_def fmlookup_of_list)
  have c: "correctness (result_with x)" for x by (simp add: correctness_def result_with_def)
  have i: "is_improvement (result_with 90) (result_with 100) ''latency_us'' True (Fin 2) = Inr True"
      "is_improvement (result_with 100) (result_with 200) ''latency_us'' True (Fin 2) = Inr True"
    by (simp_all add: is_improvement_finite [OF c m m] better_def)
  show ?thesis
    using is_improvement_strict_order [OF m m m [of 200] _ i(1)] i by simp
qed

end
