(* ===== verification/Workflow_Round.thy ===== *)
theory Workflow_Round
  imports Journal Baseline_Anchor Metric_Policy
begin

text \<open>
  \<open>scripts/workflow/round.py\<close> and the round half of
  \<open>scripts/workflow/progress_reducer.py\<close>: the decision on one evaluated edit and the
  journaled transaction that records it. The task configuration is what \<open>task.yaml\<close> holds.
  Git is not part of the repository: whether the commit of the editable files succeeded, and
  the abbreviated head commit, are arguments.
\<close>

record task_config =
  tc_name :: string
  tc_primary_metric :: string
  tc_lower_is_better :: bool
  tc_improvement_threshold :: pyfloat
  tc_constraints :: constraints
  tc_max_rounds :: pyval

record git_env =
  commit_result :: "bool \<times> string"
  head_short :: "string option"

subsection \<open>Reading an evaluation\<close>

fun outcome_value :: "EvalOutcome \<Rightarrow> string" where
  "outcome_value OK = ''ok''"
| "outcome_value KERNEL_FAIL = ''kernel_fail''"
| "outcome_value INFRA_FAIL = ''infra_fail''"

definition outcome_of :: "pyval \<Rightarrow> EvalOutcome option" where
  "outcome_of v = find (\<lambda>oc. py_eq v (PStr (outcome_value oc))) [OK, KERNEL_FAIL, INFRA_FAIL]"

definition read_outcome :: "dict \<Rightarrow> EvalOutcome" where
  "read_outcome eval_data =
     (let s0 = dget eval_data ''outcome'';
          s = (if s0 = PNone then PStr (outcome_value (if truthy (dget eval_data ''correctness'') then OK
                                                      else KERNEL_FAIL)) else s0)
      in case outcome_of s of Some oc \<Rightarrow> oc | None \<Rightarrow> INFRA_FAIL)"

text \<open>\<open>eval_data.get("metrics", {})\<close>, of which the code then reads keys.\<close>

definition metrics_of :: "dict \<Rightarrow> dict res" where
  "metrics_of eval_data = (case dget_default eval_data ''metrics'' (PDict fmempty) of
      PDict m \<Rightarrow> Inr m | _ \<Rightarrow> Inl AttributeError)"

definition eval_result_from_data :: "dict \<Rightarrow> EvalResult res" where
  "eval_result_from_data eval_data = bindR (metrics_of eval_data) (\<lambda>m.
     Inr \<lparr>er_outcome = read_outcome eval_data, er_metrics = m, er_error = dget eval_data ''error'',
          er_raw_output = [], er_error_source = dget eval_data ''error_source'',
          er_fail_report = None, er_failure_signals = fmempty\<rparr>)"

text \<open>\<open>_shape_progress_fields\<close>: the shape metadata overlaid on a progress record.\<close>

definition shape_num_cases :: "dict \<Rightarrow> pyval option" where
  "shape_num_cases m = (case dget m ''num_cases'' of
      PInt n \<Rightarrow> if 1 \<le> n then Some (PInt n) else None
    | PBool b \<Rightarrow> if b then Some (PInt 1) else None
    | _ \<Rightarrow> None)"

definition shape_descs :: "runtime \<Rightarrow> dict \<Rightarrow> pyval option" where
  "shape_descs rt m = (case dget m ''per_shape_descs'' of
      PList ds \<Rightarrow> if ds = [] then None
                 else Some (PList (map (\<lambda>d. PStr (py_str rt d)) (filter truthy ds)))
    | _ \<Rightarrow> None)"

definition shape_progress_fields :: "runtime \<Rightarrow> dict \<Rightarrow> Progress \<Rightarrow> Progress" where
  "shape_progress_fields rt m p =
     (let p1 = (case shape_num_cases m of Some v \<Rightarrow> p\<lparr>num_cases := v\<rparr> | None \<Rightarrow> p)
      in case shape_descs rt m of Some v \<Rightarrow> p1\<lparr>per_shape_descs := v\<rparr> | None \<Rightarrow> p1)"

subsection \<open>The decision\<close>

datatype decision = KEEP | DISCARD | FAIL

fun decision_name :: "decision \<Rightarrow> string" where
  "decision_name KEEP = ''KEEP''"
| "decision_name DISCARD = ''DISCARD''"
| "decision_name FAIL = ''FAIL''"

definition measured :: "pyval \<Rightarrow> bool" where
  "measured v = (case num_of v of None \<Rightarrow> False | Some f \<Rightarrow> f \<noteq> NaN)"

definition result_of_metric :: "string \<Rightarrow> pyval \<Rightarrow> EvalResult" where
  "result_of_metric name v = \<lparr>er_outcome = OK, er_metrics = fmap_of_list [(name, v)], er_error = PNone,
     er_raw_output = [], er_error_source = PNone, er_fail_report = None, er_failure_signals = fmempty\<rparr>"

definition first_decision :: "task_config \<Rightarrow> Progress \<Rightarrow> EvalResult \<Rightarrow> decision res" where
  "first_decision config p er =
     (if \<not> correctness er then Inr FAIL
      else bindR (if tc_constraints config \<noteq> [] then check_constraints er (tc_constraints config)
                  else Inr []) (\<lambda>violations.
        if violations \<noteq> [] then Inr FAIL
        else let cur = dget (er_metrics er) (tc_primary_metric config); best = best_metric p
             in if \<not> measured cur then Inr FAIL
                else if best = PNone then Inr KEEP
                else bindR (is_improvement er (result_of_metric (tc_primary_metric config) best)
                             (tc_primary_metric config) (tc_lower_is_better config)
                             (tc_improvement_threshold config))
                       (\<lambda>b. Inr (if b then KEEP else DISCARD))))"

record round_outcome =
  ro_decision :: decision
  ro_commit :: pyval
  ro_failures :: pyval
  ro_best_metric :: pyval
  ro_best_commit :: pyval
  ro_best_speedup :: pyval

definition positive_number :: "pyval \<Rightarrow> bool" where
  "positive_number v = (case num_of v of Some f \<Rightarrow> flt (Fin 0) f | None \<Rightarrow> False)"

definition decide_round :: "task_config \<Rightarrow> git_env \<Rightarrow> Progress \<Rightarrow> EvalResult \<Rightarrow> round_outcome res" where
  "decide_round config git p er =
     bindR (first_decision config p er) (\<lambda>d.
       let failed = bindR (py_inc (consecutive_failures p)) (\<lambda>n.
             Inr \<lparr>ro_decision = FAIL, ro_commit = PNone, ro_failures = n,
                  ro_best_metric = best_metric p, ro_best_commit = best_commit p,
                  ro_best_speedup = best_speedup p\<rparr>)
       in case d of
            FAIL \<Rightarrow> failed
          | DISCARD \<Rightarrow> Inr \<lparr>ro_decision = DISCARD, ro_commit = PNone,
                ro_failures = consecutive_failures p, ro_best_metric = best_metric p,
                ro_best_commit = best_commit p, ro_best_speedup = best_speedup p\<rparr>
          | KEEP \<Rightarrow>
              (case commit_result git of (ok, info) \<Rightarrow>
                 if \<not> ok then failed
                 else let head = (case head_short git of Some h \<Rightarrow> if h = [] then best_commit p else PStr h
                                  | None \<Rightarrow> best_commit p);
                          commit_hash = (if info = ''noop'' then head else PStr info);
                          speedup = dget (er_metrics er) ''speedup_vs_ref''
                      in Inr \<lparr>ro_decision = KEEP, ro_commit = commit_hash, ro_failures = PInt 0,
                              ro_best_metric = dget (er_metrics er) (tc_primary_metric config),
                              ro_best_commit = commit_hash,
                              ro_best_speedup = (if positive_number speedup then to_float speedup
                                                 else best_speedup p)\<rparr>))"

definition reduce_round_progress ::
    "runtime \<Rightarrow> Progress \<Rightarrow> EvalResult \<Rightarrow> pyval \<Rightarrow> round_outcome \<Rightarrow> (Progress \<times> AnchorDecision) res" where
  "reduce_round_progress rt p er round_num ro =
     bindR (refresh_round_anchor rt p (er_metrics er)) (\<lambda>anchor.
       Inr (shape_progress_fields rt (er_metrics er)
              (p\<lparr>eval_rounds := round_num,
                 consecutive_failures := ro_failures ro,
                 best_metric := ro_best_metric ro,
                 best_commit := ro_best_commit ro,
                 best_speedup := ro_best_speedup ro,
                 baseline_metric := ad_metric anchor,
                 baseline_source := ad_source anchor,
                 baseline_per_shape_us := ad_per_shape_us anchor,
                 baseline_fingerprint := ad_fingerprint anchor\<rparr>),
            anchor))"

subsection \<open>The transaction\<close>

text \<open>What one round writes: the row, the settlement payload and the state patch.\<close>

record round_txn =
  rx_round :: pyval
  rx_progress :: Progress
  rx_kd_json :: dict
  rx_hist :: dict

definition kd_json_of :: "task_config \<Rightarrow> Progress \<Rightarrow> EvalResult \<Rightarrow> round_outcome \<Rightarrow> pyval \<Rightarrow> pyval \<Rightarrow> dict" where
  "kd_json_of config p er ro round_num plan_item = fmap_of_list [
     (''decision'', PStr (decision_name (ro_decision ro))),
     (''best_metric'', best_metric p),
     (''round_metric'', dget (er_metrics er) (tc_primary_metric config)),
     (''eval_rounds'', round_num),
     (''max_rounds'', py_or (max_rounds p) (tc_max_rounds config)),
     (''consecutive_failures'', consecutive_failures p),
     (''plan_item'', plan_item),
     (''plan_version'', plan_version p),
     (''round'', round_num)]"

definition failure_signals_of :: "dict \<Rightarrow> dict option" where
  "failure_signals_of eval_data = (case dget eval_data ''failure_signals'' of
      PDict sig \<Rightarrow> if truthy (dget sig ''primary'') \<or> truthy (dget sig ''python_error'')
                     \<or> truthy (dget sig ''signals'') then Some sig else None
    | _ \<Rightarrow> None)"

definition output_tail :: "dict \<Rightarrow> string res" where
  "output_tail eval_data = (case py_or (dget eval_data ''raw_output_tail'') (PStr []) of
      PStr s \<Rightarrow> (let t = strip s in Inr (drop (length t - 1500) t))
    | _ \<Rightarrow> Inl AttributeError)"

definition history_row ::
    "dict \<Rightarrow> EvalResult \<Rightarrow> round_outcome \<Rightarrow> pyval \<Rightarrow> pyval \<Rightarrow> pyval \<Rightarrow> dict res" where
  "history_row eval_data er ro round_num plan_item description =
     (let base = fmap_of_list [
        (''round'', round_num),
        (''plan_item'', plan_item),
        (''description'', description),
        (''decision'', PStr (decision_name (ro_decision ro))),
        (''metrics'', PDict (er_metrics er)),
        (''correctness'', PBool (correctness er)),
        (''error'', er_error er),
        (''commit'', ro_commit ro)]
      in if ro_decision ro = FAIL then
           bindR (output_tail eval_data) (\<lambda>tail.
             let d1 = (case failure_signals_of eval_data of
                         Some sig \<Rightarrow> fmupd ''failure_signals'' (PDict sig) base | None \<Rightarrow> base)
             in Inr (if tail \<noteq> [] then fmupd ''raw_output_tail'' (PStr tail) d1 else d1))
         else Inr base)"

definition prepare_round ::
    "runtime \<Rightarrow> task_config \<Rightarrow> git_env \<Rightarrow> dict \<Rightarrow> pyval \<Rightarrow> pyval \<Rightarrow> task_fs \<Rightarrow> round_txn res" where
  "prepare_round rt config git eval_data description plan_item fs =
     (let p = (case load_progress fs of Some p \<Rightarrow> p | None \<Rightarrow> Progress_default) in
      bindR (eval_result_from_data eval_data) (\<lambda>er.
      bindR (next_round p) (\<lambda>round_num.
      bindR (decide_round config git p er) (\<lambda>ro.
      bindR (reduce_round_progress rt p er round_num ro) (\<lambda>(p', anchor).
      bindR (history_row eval_data er ro round_num plan_item description) (\<lambda>hist.
        Inr \<lparr>rx_round = round_num, rx_progress = p',
             rx_kd_json = kd_json_of config p' er ro round_num plan_item, rx_hist = hist\<rparr>))))))"

definition round_patch :: "round_txn \<Rightarrow> dict" where
  "round_patch tx = fmupd ''expected_history_round'' (rx_round tx)
     (fmupd ''pending_settle'' (PDict (rx_kd_json tx)) (to_dict (rx_progress tx)))"

definition round_intent :: "round_txn \<Rightarrow> dict" where
  "round_intent tx = fmap_of_list [
     (''kind'', PStr ''round''),
     (''round'', rx_round tx),
     (''kd_json'', PDict (rx_kd_json tx)),
     (''state_patch'', PDict (round_patch tx))]"

definition commit_patch :: "real \<Rightarrow> dict \<Rightarrow> task_fs \<Rightarrow> task_fs" where
  "commit_patch now patch fs = save_state now (state_or_empty fs ++\<^sub>f patch) fs"

text \<open>The durable effects of one recorded round, in order.\<close>

definition round_steps :: "real \<Rightarrow> round_txn \<Rightarrow> (task_fs \<Rightarrow> task_fs) list" where
  "round_steps now tx =
     [write_intent (round_intent tx), append_history (rx_hist tx),
      commit_patch now (round_patch tx), clear_intent]"

definition record_round ::
    "runtime \<Rightarrow> real \<Rightarrow> task_config option \<Rightarrow> git_env \<Rightarrow> dict \<Rightarrow> pyval \<Rightarrow> pyval \<Rightarrow> task_fs
     \<Rightarrow> (task_fs \<times> dict) res" where
  "record_round rt now config git eval_data description plan_item fs = (case config of
      None \<Rightarrow> Inr (fs, fmap_of_list [(''decision'', PStr ''ERROR''), (''error'', PStr ''task.yaml not found'')])
    | Some c \<Rightarrow> bindR (prepare_round rt c git eval_data description plan_item fs) (\<lambda>tx.
        Inr (fold (\<lambda>step s. step s) (round_steps now tx) fs, rx_kd_json tx)))"

subsection \<open>Crash recovery of the transaction\<close>

text \<open>What \<open>prepare_round\<close> guarantees about the transaction it builds for round \<open>n\<close>.\<close>

definition wf_round_txn :: "int \<Rightarrow> round_txn \<Rightarrow> bool" where
  "wf_round_txn n tx \<longleftrightarrow> rx_round tx = PInt n \<and> dget (rx_hist tx) ''round'' = PInt n"

lemma round_patch_keys: "fset (fmdom (round_patch tx)) \<subseteq> Collect patch_key"
  using set_progress_fields_dom [of "rx_progress tx"]
  by (auto simp: round_patch_def patch_key_def intent_control_fields_def)

lemma dget_round_intent [simp]:
  "dget (round_intent tx) ''kind'' = PStr ''round''"
  "dget (round_intent tx) ''round'' = rx_round tx"
  "dget (round_intent tx) ''kd_json'' = PDict (rx_kd_json tx)"
  "dget (round_intent tx) ''state_patch'' = PDict (round_patch tx)"
  by (simp_all add: round_intent_def dget_def)

definition round_caught_up :: "int \<Rightarrow> task_fs \<Rightarrow> bool" where
  "round_caught_up n fs = py_eq (dget (state_or_empty fs) ''expected_history_round'') (PInt n)"

definition round_landed :: "int \<Rightarrow> task_fs \<Rightarrow> bool" where
  "round_landed n fs = (read_last_history_round fs = Inr (Some n))"

definition round_rebuild :: "real \<Rightarrow> round_txn \<Rightarrow> task_fs \<Rightarrow> task_fs" where
  "round_rebuild now tx fs = save_state now (state_or_empty fs ++\<^sub>f sanitize_dict (round_patch tx)) fs"

definition round_journaled :: "int \<Rightarrow> round_txn \<Rightarrow> task_fs \<Rightarrow> bool" where
  "round_journaled n tx fs \<longleftrightarrow> wf_round_txn n tx \<and> read_intent fs = Some (sanitize_dict (round_intent tx))
     \<and> (\<exists>v. read_last_history_round fs = Inr v)"

lemma heal_round:
  assumes "round_journaled n tx fs"
  shows "heal now fs = clear_intent (if round_caught_up n fs then fs
           else if round_landed n fs then round_rebuild now tx fs else fs)"
proof -
  have n: "rx_round tx = PInt n" and i: "read_intent fs = Some (sanitize_dict (round_intent tx))"
    using assms by (auto simp: round_journaled_def wf_round_txn_def)
  obtain v where v: "read_last_history_round fs = Inr v" using assms by (auto simp: round_journaled_def)
  let ?i = "sanitize_dict (round_intent tx)"
  have "apply_intent_patch (state_or_empty fs) ?i = Inr (state_or_empty fs ++\<^sub>f sanitize_dict (round_patch tx), True)"
    by (rule apply_intent_patch_whole) (use round_patch_keys in \<open>simp_all add: sanitize_dict_def [symmetric]\<close>)
  then show ?thesis
    using i v n
    by (simp add: heal_def replay_intent_def replay_round_intent_def Let_def intent_result_def
        expected_int_PInt round_caught_up_def round_landed_def round_rebuild_def)
qed

text \<open>The precondition of a crash-safe round: no leftover journal, whole lines, a new round number.\<close>

definition round_pre :: "int \<Rightarrow> round_txn \<Rightarrow> task_fs \<Rightarrow> bool" where
  "round_pre n tx fs \<longleftrightarrow> wf_round_txn n tx \<and> intent_file fs = NoFile \<and> history_eol fs
     \<and> (\<exists>v. read_last_history_round fs = Inr v) \<and> \<not> round_caught_up n fs \<and> \<not> round_landed n fs"

lemma dget_round_patch:
  "dget (st ++\<^sub>f sanitize_dict (round_patch tx)) ''expected_history_round'' = sanitize_floats (rx_round tx)"
  by (simp add: dget_fmadd round_patch_def)

interpretation round_txn: journaled_txn
  "\<lambda>(n, now, tx). round_pre n tx" "\<lambda>(n, now, tx). write_intent (round_intent tx)"
  "\<lambda>(n, now, tx). append_history (rx_hist tx)" "\<lambda>(n, now, tx). commit_patch now (round_patch tx)"
  "\<lambda>(n, now, tx). round_rebuild now' tx" clear_intent "heal now'"
  "\<lambda>(n, now, tx). round_journaled n tx" "\<lambda>fs. read_intent fs = None"
  "\<lambda>(n, now, tx). round_caught_up n" "\<lambda>(n, now, tx). round_landed n" same_task
  for now'
proof (unfold_locales, goal_cases)
  case (2 s)
  then show ?case by (rule heal_idle)
next
  case (3 p s)
  then show ?case by (cases p) (simp add: heal_round)
qed (auto simp: round_pre_def round_journaled_def round_caught_up_def round_landed_def read_intent_NoFile
    clear_write_intent wf_round_txn_def read_last_round_append last_round_append_ok commit_patch_def
    round_rebuild_def dget_round_patch clear_save
    intro!: same_task_save)

end
