(* ===== verification/Workflow_Baseline.thy ===== *)
theory Workflow_Baseline
  imports Workflow_Round
begin

text \<open>
  \<open>scripts/workflow/baseline.py\<close> and the baseline half of
  \<open>scripts/workflow/progress_reducer.py\<close>: the round-0 transaction that commits the
  reference anchor and the seed measurement, with the classification a retry starts from.
\<close>

subsection \<open>The reducer\<close>

record BaselineReduction =
  br_progress :: Progress
  br_outcome :: EvalOutcome
  br_metrics :: dict
  br_seed_metric :: pyval
  br_dropped_seed_metric :: pyval
  br_anchor :: AnchorDecision

definition reduce_baseline_init ::
    "runtime \<Rightarrow> Progress \<Rightarrow> task_config \<Rightarrow> dict \<Rightarrow> pyval \<Rightarrow> BaselineReduction res" where
  "reduce_baseline_init rt existing config eval_data head =
     (let oc = read_outcome eval_data in
      bindR (metrics_of eval_data) (\<lambda>m.
      let raw_seed = dget m (tc_primary_metric config);
          seed0 = (if valid_metric raw_seed then to_float raw_seed else PNone);
          seed = (if oc \<noteq> OK then PNone else seed0);
          dropped = (if oc \<noteq> OK then seed0 else PNone);
          raw_speedup = dget m ''speedup_vs_ref'';
          seed_speedup = (if seed \<noteq> PNone \<and> valid_metric raw_speedup then to_float raw_speedup else PNone)
      in bindR (resolve_baseline_init_anchor rt existing m) (\<lambda>anchor.
         Inr \<lparr>br_progress = shape_progress_fields rt m (Progress_default\<lparr>
                task := PStr (tc_name config),
                eval_rounds := PInt 0,
                max_rounds := tc_max_rounds config,
                best_metric := seed,
                best_commit := (if seed \<noteq> PNone then head else PStr ''seed_profile_failed''),
                best_speedup := seed_speedup,
                baseline_metric := ad_metric anchor,
                baseline_source := ad_source anchor,
                baseline_outcome := PStr (outcome_value oc),
                baseline_error_source := dget eval_data ''error_source'',
                baseline_per_shape_us := ad_per_shape_us anchor,
                baseline_fingerprint := ad_fingerprint anchor,
                seed_metric := seed,
                consecutive_failures := PInt 0,
                plan_version := PInt 0\<rparr>),
              br_outcome = oc, br_metrics = m, br_seed_metric = seed,
              br_dropped_seed_metric = dropped, br_anchor = anchor\<rparr>)))"

subsection \<open>Classification before a run\<close>

datatype BaselinePrecheckOutcome = PROCEED | ALREADY_DONE | ORPHAN_SEED | MISSING_SEED

definition existing_seed_row :: "task_fs \<Rightarrow> bool" where
  "existing_seed_row fs = (case history_file fs of
      Some (HRow row # _) \<Rightarrow> py_eq (dget row ''round'') (PInt 0) \<and> py_eq (dget row ''decision'') (PStr ''SEED'')
    | _ \<Rightarrow> False)"

definition classify_baseline :: "task_fs \<Rightarrow> BaselinePrecheckOutcome" where
  "classify_baseline fs =
     (let progress_done = truthy (dget (state_or_empty fs) ''progress_initialized'');
          seed_on_disk = existing_seed_row fs
      in if progress_done \<and> seed_on_disk then ALREADY_DONE
         else if progress_done \<and> \<not> seed_on_disk then MISSING_SEED
         else if seed_on_disk \<and> \<not> progress_done then ORPHAN_SEED
         else PROCEED)"

definition precheck_baseline :: "real \<Rightarrow> task_fs \<Rightarrow> (task_fs \<times> BaselinePrecheckOutcome) res" where
  "precheck_baseline now fs =
     bindR (replay_intent now fs) (\<lambda>(fs', _). Inr (fs', classify_baseline fs'))"

definition exit_for :: "EvalOutcome \<Rightarrow> int" where
  "exit_for oc = (case oc of OK \<Rightarrow> 0 | KERNEL_FAIL \<Rightarrow> 0 | INFRA_FAIL \<Rightarrow> 4)"

definition baseline_exit_code :: "task_fs \<Rightarrow> int" where
  "baseline_exit_code fs = (case load_progress fs of
      None \<Rightarrow> 0
    | Some p \<Rightarrow> if \<not> truthy (baseline_outcome p) then 0
               else (case outcome_of (baseline_outcome p) of None \<Rightarrow> 0 | Some oc \<Rightarrow> exit_for oc))"

subsection \<open>The transaction\<close>

record baseline_txn =
  bx_progress :: Progress
  bx_row :: dict

definition baseline_patch :: "baseline_txn \<Rightarrow> dict" where
  "baseline_patch tx = fmupd ''progress_initialized'' (PBool True)
     (fmupd ''expected_history_round'' (PInt 0)
     (fmupd ''phase'' (PStr (phase_name PLAN)) (to_dict (bx_progress tx))))"

definition baseline_intent :: "baseline_txn \<Rightarrow> dict" where
  "baseline_intent tx = fmap_of_list [
     (''kind'', PStr ''baseline''),
     (''round'', PInt 0),
     (''state_patch'', PDict (baseline_patch tx))]"

definition seed_row :: "BaselineReduction \<Rightarrow> pyval \<Rightarrow> dict" where
  "seed_row br head = fmap_of_list [
     (''round'', PInt 0),
     (''description'', PStr ''seed kernel initial eval''),
     (''decision'', PStr ''SEED''),
     (''metrics'', PDict (br_metrics br)),
     (''outcome'', PStr (outcome_value (br_outcome br))),
     (''correctness'', PBool (br_outcome br = OK)),
     (''commit'', head)]"

definition append_seed :: "dict \<Rightarrow> task_fs \<Rightarrow> task_fs" where
  "append_seed row fs = (if existing_seed_row fs then fs else append_history row fs)"

definition baseline_steps :: "real \<Rightarrow> baseline_txn \<Rightarrow> (task_fs \<Rightarrow> task_fs) list" where
  "baseline_steps now tx =
     [write_intent (baseline_intent tx), append_seed (bx_row tx),
      commit_patch now (baseline_patch tx), clear_intent]"

text \<open>Parking the task at BASELINE after an evaluation that commits nothing.\<close>

definition park_baseline :: "real \<Rightarrow> task_fs \<Rightarrow> task_fs" where
  "park_baseline now fs =
     clear_intent (save_state now (fmupd ''phase'' (PStr (phase_name BASELINE)) (state_or_empty fs)) fs)"

definition baseline_metrics :: "dict \<Rightarrow> dict res" where
  "baseline_metrics eval_data = (case py_or (dget eval_data ''metrics'') (PDict fmempty) of
      PDict m \<Rightarrow> Inr m | _ \<Rightarrow> Inl AttributeError)"

definition run_baseline_init ::
    "runtime \<Rightarrow> real \<Rightarrow> task_config option \<Rightarrow> git_env \<Rightarrow> dict \<Rightarrow> task_fs \<Rightarrow> (task_fs \<times> int) res" where
  "run_baseline_init rt now config git eval_data fs = (case config of
      None \<Rightarrow> Inr (fs, 1)
    | Some c \<Rightarrow>
        bindR (baseline_metrics eval_data) (\<lambda>m.
        let oc = (case outcome_of (dget eval_data ''outcome'') of Some oc \<Rightarrow> oc | None \<Rightarrow> INFRA_FAIL) in
        if oc = INFRA_FAIL \<or> \<not> valid_metric (dget m ''ref_latency_us'')
        then Inr (park_baseline now fs, exit_for INFRA_FAIL)
        else
          let existing = (case load_progress fs of Some p \<Rightarrow> p | None \<Rightarrow> Progress_default);
              head = PStr (case head_short git of
                       Some h \<Rightarrow> if h = [] then ''unknown'' else h | None \<Rightarrow> ''unknown'')
          in bindR (reduce_baseline_init rt existing c eval_data head) (\<lambda>br.
             if br_outcome br = OK \<and> br_seed_metric br = PNone
             then Inr (park_baseline now fs, 2)
             else Inr (fold (\<lambda>step s. step s)
                         (baseline_steps now \<lparr>bx_progress = br_progress br, bx_row = seed_row br head\<rparr>) fs,
                       exit_for (br_outcome br)))))"

subsection \<open>Crash recovery of the transaction\<close>

lemma baseline_patch_keys: "fset (fmdom (baseline_patch tx)) \<subseteq> Collect patch_key"
  using set_progress_fields_dom [of "bx_progress tx"]
  by (auto simp: baseline_patch_def patch_key_def intent_control_fields_def)

lemma dget_baseline_intent [simp]:
  "dget (baseline_intent tx) ''kind'' = PStr ''baseline''"
  "dget (baseline_intent tx) ''state_patch'' = PDict (baseline_patch tx)"
  by (simp_all add: baseline_intent_def dget_def)

lemma existing_seed_row_intent [simp]:
  "existing_seed_row (write_intent d fs) = existing_seed_row fs"
  "existing_seed_row (clear_intent fs) = existing_seed_row fs"
  "existing_seed_row (save_state now st fs) = existing_seed_row fs"
  by (simp_all add: existing_seed_row_def)

definition baseline_caught_up :: "task_fs \<Rightarrow> bool" where
  "baseline_caught_up fs \<longleftrightarrow> truthy (dget (state_or_empty fs) ''progress_initialized'')
     \<and> py_eq (dget (state_or_empty fs) ''expected_history_round'') (PInt 0)"

definition baseline_rebuild :: "real \<Rightarrow> baseline_txn \<Rightarrow> task_fs \<Rightarrow> task_fs" where
  "baseline_rebuild now tx fs = save_state now (state_or_empty fs ++\<^sub>f sanitize_dict (baseline_patch tx)) fs"

definition baseline_journaled :: "baseline_txn \<Rightarrow> task_fs \<Rightarrow> bool" where
  "baseline_journaled tx fs \<longleftrightarrow> dget (bx_row tx) ''round'' = PInt 0
     \<and> read_intent fs = Some (sanitize_dict (baseline_intent tx))
     \<and> (\<exists>v. read_last_history_round fs = Inr v)"

lemma heal_baseline:
  assumes "baseline_journaled tx fs"
  shows "heal now fs = clear_intent (if baseline_caught_up fs then fs
           else if round_landed 0 fs then baseline_rebuild now tx fs else fs)"
proof -
  have i: "read_intent fs = Some (sanitize_dict (baseline_intent tx))"
    using assms by (auto simp: baseline_journaled_def)
  obtain v where v: "read_last_history_round fs = Inr v" using assms by (auto simp: baseline_journaled_def)
  let ?i = "sanitize_dict (baseline_intent tx)"
  have "apply_intent_patch (state_or_empty fs) ?i = Inr (state_or_empty fs ++\<^sub>f sanitize_dict (baseline_patch tx), True)"
    by (rule apply_intent_patch_whole) (use baseline_patch_keys in \<open>simp_all add: sanitize_dict_def [symmetric]\<close>)
  then show ?thesis
    using i v
    by (simp add: heal_def replay_intent_def replay_baseline_intent_def Let_def intent_result_def
        baseline_caught_up_def round_landed_def baseline_rebuild_def)
qed

definition baseline_pre :: "baseline_txn \<Rightarrow> task_fs \<Rightarrow> bool" where
  "baseline_pre tx fs \<longleftrightarrow> dget (bx_row tx) ''round'' = PInt 0 \<and> intent_file fs = NoFile \<and> history_eol fs
     \<and> (\<exists>v. read_last_history_round fs = Inr v) \<and> \<not> baseline_caught_up fs \<and> \<not> round_landed 0 fs
     \<and> \<not> existing_seed_row fs"

lemma dget_baseline_patch:
  "dget (st ++\<^sub>f sanitize_dict (baseline_patch tx)) ''expected_history_round'' = PInt 0"
  "dget (st ++\<^sub>f sanitize_dict (baseline_patch tx)) ''progress_initialized'' = PBool True"
  by (simp_all add: dget_fmadd baseline_patch_def)

interpretation baseline_txn: journaled_txn
  "\<lambda>(now, tx). baseline_pre tx" "\<lambda>(now, tx). write_intent (baseline_intent tx)"
  "\<lambda>(now, tx). append_seed (bx_row tx)" "\<lambda>(now, tx). commit_patch now (baseline_patch tx)"
  "\<lambda>(now, tx). baseline_rebuild now' tx" clear_intent "heal now'"
  "\<lambda>(now, tx). baseline_journaled tx" "\<lambda>fs. read_intent fs = None"
  "\<lambda>(now, tx). baseline_caught_up" "\<lambda>(now, tx). round_landed 0" same_task
  for now'
proof (unfold_locales, goal_cases)
  case (2 s)
  then show ?case by (rule heal_idle)
next
  case (3 p s)
  then show ?case by (cases p) (simp add: heal_baseline)
qed (auto simp: baseline_pre_def baseline_journaled_def baseline_caught_up_def round_landed_def
    read_intent_NoFile clear_write_intent read_last_round_append last_round_append_ok commit_patch_def
    append_seed_def baseline_rebuild_def dget_baseline_patch clear_save intro!: same_task_save)

end
