(* ===== verification/Task_Handle.thy ===== *)
theory Task_Handle
  imports Plan_Store Workflow_Baseline
begin

text \<open>
  \<open>scripts/workflow/transition.py\<close> and the transactional methods of
  \<open>scripts/task_handle.py\<close>, on the directory of one entered task. A method returns the
  directory it leaves beside its result, because a method that raises may already have
  written a body. Report generation at FINISH writes a file outside this model and its
  failures are swallowed; it is left out.
\<close>

type_synonym 'a task_op = "task_fs \<Rightarrow> task_fs \<times> 'a res"

text \<open>A pure step that reads the directory and may raise before anything is written.\<close>

definition reading :: "'a res \<Rightarrow> ('a \<Rightarrow> task_fs \<times> 'b res) \<Rightarrow> task_fs \<Rightarrow> task_fs \<times> 'b res" where
  "reading r k fs = (case r of Inl e \<Rightarrow> (fs, Inl e) | Inr x \<Rightarrow> k x)"

lemma reading_simps [simp]:
  "reading (Inl e) k fs = (fs, Inl e)" "reading (Inr x) k fs = k x"
  by (simp_all add: reading_def)

subsection \<open>Phase selection\<close>

definition phase_after_round :: "config \<Rightarrow> task_fs \<Rightarrow> phase res" where
  "phase_after_round cfg fs = (case load_progress fs of
      None \<Rightarrow> Inl (RuntimeError ''cannot settle a round without committed baseline progress'')
    | Some p \<Rightarrow>
        bindR (py_ge (eval_rounds p) (max_rounds p)) (\<lambda>fin.
        if fin then Inr FINISH
        else bindR (py_ge (consecutive_failures p) (PInt (consecutive_fail_threshold cfg))) (\<lambda>diag.
          if diag then Inr DIAGNOSE
          else if has_pending_items fs then Inr EDIT
          else Inr REPLAN)))"

definition phase_on_resume :: "task_fs \<Rightarrow> phase res" where
  "phase_on_resume fs = (case load_progress fs of
      None \<Rightarrow> Inr BASELINE
    | Some p \<Rightarrow>
        bindR (py_ge (eval_rounds p) (max_rounds p)) (\<lambda>fin.
        if fin then Inr FINISH
        else if seed_metric p = PNone \<or> \<not> py_eq (baseline_outcome p) (PStr ''ok'') then Inr PLAN
        else if plan_file fs = None then Inr PLAN
        else if get_active_item fs \<noteq> None \<or> has_pending_items fs then Inr EDIT
        else Inr REPLAN))"

subsection \<open>Baseline and round\<close>

definition pending_settle :: "task_fs \<Rightarrow> pyval" where
  "pending_settle fs = dget (state_or_empty fs) ''pending_settle''"

definition progress_initialized :: "task_fs \<Rightarrow> bool" where
  "progress_initialized fs = truthy (dget (state_or_empty fs) ''progress_initialized'')"

definition require_phase :: "phase \<Rightarrow> string \<Rightarrow> task_fs \<Rightarrow> unit res" where
  "require_phase ph action fs = (if read_phase fs = ph then Inr () else Inl (TaskPhaseError action))"

definition baseline_preflight :: "real \<Rightarrow> BaselinePrecheckOutcome task_op" where
  "baseline_preflight now fs = (case precheck_baseline now fs of
      Inl e \<Rightarrow> (fs, Inl e)
    | Inr (fs', oc) \<Rightarrow>
        if oc = ALREADY_DONE \<and> read_phase fs' = PLAN then (fs', Inr oc)
        else (fs', bindR (require_phase BASELINE ''baseline'' fs') (\<lambda>_. Inr oc)))"

definition record_baseline ::
    "runtime \<Rightarrow> real \<Rightarrow> task_config option \<Rightarrow> git_env \<Rightarrow> dict \<Rightarrow> int task_op" where
  "record_baseline rt now config git eval_data fs =
     reading (require_phase BASELINE ''record baseline'' fs) (\<lambda>_.
       case precheck_baseline now fs of
         Inl e \<Rightarrow> (fs, Inl e)
       | Inr (fs1, oc) \<Rightarrow>
           if oc \<noteq> PROCEED then (fs1, Inl (TaskCorrupted ''record_baseline called without PROCEED''))
           else if fmlookup eval_data ''outcome'' = None
           then (fs1, Inl (TaskCorrupted ''record_baseline requires a real eval_data dict''))
           else (case run_baseline_init rt now config git eval_data fs1 of
                   Inl e \<Rightarrow> (fs1, Inl e) | Inr (fs2, rc) \<Rightarrow> (fs2, Inr rc))) fs"

definition task_record_round ::
    "runtime \<Rightarrow> real \<Rightarrow> task_config option \<Rightarrow> git_env \<Rightarrow> dict \<Rightarrow> pyval \<Rightarrow> pyval \<Rightarrow> dict task_op" where
  "task_record_round rt now config git eval_data description plan_item fs =
     reading (require_phase EDIT ''record round'' fs) (\<lambda>_.
       if pending_settle fs \<noteq> PNone
       then (fs, Inl (TaskPhaseError ''cannot record a new round while pending_settle must be replayed''))
       else (case record_round rt now config git eval_data description plan_item fs of
               Inl e \<Rightarrow> (fs, Inl e) | Inr (fs', kd) \<Rightarrow> (fs', Inr kd))) fs"

subsection \<open>Settlement\<close>

record settle_out =
  so_item :: pyval
  so_decision :: pyval
  so_phase :: phase
  so_finish :: bool

definition corrupted :: "py_error \<Rightarrow> py_error" where
  "corrupted e = (case e of RuntimeError s \<Rightarrow> TaskCorrupted s | _ \<Rightarrow> e)"

text \<open>The commit of a settlement: target phase and cleared sentinel in one save.\<close>

definition settle_state :: "phase \<Rightarrow> dict \<Rightarrow> dict" where
  "settle_state ph st = fmupd ''pending_settle'' PNone (fmupd ''phase'' (PStr (phase_name ph)) st)"

definition drop_marker :: "task_fs \<Rightarrow> task_fs" where
  "drop_marker fs = fs\<lparr>edit_marker := False\<rparr>"

definition settle_round :: "runtime \<Rightarrow> config \<Rightarrow> real \<Rightarrow> settle_out task_op" where
  "settle_round rt cfg now fs =
     reading (require_phase EDIT ''settle round'' fs) (\<lambda>_.
       case pending_settle fs of
         PNone \<Rightarrow> (fs, Inl (TaskPhaseError ''cannot settle without pending_settle''))
       | PDict pending \<Rightarrow>
           (case settle_result rt pending fs of
              Inl e \<Rightarrow> (fs, Inl (corrupted e))
            | Inr (fs1, report) \<Rightarrow>
                (case phase_after_round cfg fs1 of
                   Inl e \<Rightarrow> (fs1, Inl (corrupted e))
                 | Inr ph \<Rightarrow>
                     (case load_state fs1 of
                        None \<Rightarrow> (fs1, Inl (TaskCorrupted ''state.json disappeared during settlement''))
                      | Some st \<Rightarrow>
                          (drop_marker (save_state now (settle_state ph st) fs1),
                           Inr \<lparr>so_item = sr_item report, so_decision = dget pending ''decision'',
                                so_phase = ph, so_finish = (ph = FINISH)\<rparr>))))
       | _ \<Rightarrow> (fs, Inl AttributeError)) fs"

subsection \<open>Plan commit\<close>

record plan_out =
  po_version :: pyval
  po_item_ids :: "string list"
  po_dropped :: "string list"

record plan_txn =
  px_version :: pyval
  px_text :: string
  px_patch :: dict
  px_progress :: Progress

definition plan_intent :: "plan_txn \<Rightarrow> dict" where
  "plan_intent tx = fmap_of_list [
     (''kind'', PStr ''plan''),
     (''version'', px_version tx),
     (''state_patch'', PDict (px_patch tx))]"

definition put_plan :: "string \<Rightarrow> task_fs \<Rightarrow> task_fs" where
  "put_plan text fs = fs\<lparr>plan_file := Some text\<rparr>"

definition plan_commit :: "real \<Rightarrow> plan_txn \<Rightarrow> task_fs \<Rightarrow> task_fs" where
  "plan_commit now tx fs = (case load_state fs of
      None \<Rightarrow> fs
    | Some st \<Rightarrow> save_state now (st ++\<^sub>f to_dict (px_progress tx) ++\<^sub>f px_patch tx) fs)"

definition plan_steps :: "real \<Rightarrow> plan_txn \<Rightarrow> (task_fs \<Rightarrow> task_fs) list" where
  "plan_steps now tx =
     [write_intent (plan_intent tx), put_plan (px_text tx), plan_commit now tx, clear_intent]"

definition can_commit_plan :: "dict \<Rightarrow> bool" where
  "can_commit_plan st =
     (let source_phase = dget_default st ''phase'' (PStr (phase_name INIT)) in
      list_ex (\<lambda>ph. py_eq source_phase (PStr (phase_name ph))) [PLAN, REPLAN, DIAGNOSE]
      \<or> (py_eq source_phase (PStr (phase_name EDIT)) \<and> truthy (dget st ''pending_settle'')))"

definition plan_patch :: "dict \<Rightarrow> pyval \<Rightarrow> pyval \<Rightarrow> dict" where
  "plan_patch st version new_next_pid =
     fmupd ''expected_plan_version'' version
     (fmupd ''pending_settle'' PNone
     (fmupd ''phase'' (PStr (phase_name EDIT))
     ((if py_eq (dget_default st ''phase'' (PStr (phase_name INIT))) (PStr (phase_name DIAGNOSE))
       then fmupd ''consecutive_failures'' (PInt 0) else (\<lambda>d. d))
     (fmupd ''next_pid'' new_next_pid (fmupd ''plan_version'' version fmempty)))))"

definition plan_progress :: "dict \<Rightarrow> pyval \<Rightarrow> pyval \<Rightarrow> Progress \<Rightarrow> Progress" where
  "plan_progress st version new_next_pid p =
     (let p1 = p\<lparr>plan_version := version, next_pid := new_next_pid\<rparr>
      in if py_eq (dget_default st ''phase'' (PStr (phase_name INIT))) (PStr (phase_name DIAGNOSE))
         then p1\<lparr>consecutive_failures := PInt 0\<rparr> else p1)"

definition prepare_plan ::
    "runtime \<Rightarrow> plan_input list \<Rightarrow> task_fs \<Rightarrow> (plan_txn \<times> plan_out) res" where
  "prepare_plan rt items fs = (case load_progress fs of
      None \<Rightarrow> Inl (TaskCorrupted ''cannot commit a plan before baseline progress'')
    | Some prog \<Rightarrow>
        bindR (py_inc (plan_version prog)) (\<lambda>version.
        bindR (allocate_ids rt (length items) (compute_next_pid (next_pid prog) fs)) (\<lambda>(ids, new_next_pid).
        let st = state_or_empty fs in
        if \<not> can_commit_plan st
        then Inl (TaskPhaseError ''commit plan requires PLAN/REPLAN/DIAGNOSE or EDIT+pending_settle'')
        else Inr (\<lparr>px_version = version,
                   px_text = render (py_str rt version) ids items (parse_settled_history fs),
                   px_patch = plan_patch st version new_next_pid,
                   px_progress = plan_progress st version new_next_pid prog\<rparr>,
                  \<lparr>po_version = version, po_item_ids = ids, po_dropped = map pi_id (parse_pending fs)\<rparr>))))"

definition commit_plan :: "runtime \<Rightarrow> real \<Rightarrow> plan_input list \<Rightarrow> plan_out task_op" where
  "commit_plan rt now items fs = reading (prepare_plan rt items fs) (\<lambda>(tx, out).
     let fs' = fold (\<lambda>step s. step s) (plan_steps now tx) fs
     in (fs', if po_item_ids out = [] then Inl LookupError else Inr out)) fs"

subsection \<open>Activation\<close>

definition activation_target :: "bool \<Rightarrow> task_fs \<Rightarrow> phase res" where
  "activation_target fresh fs =
     (let current = read_phase fs in
      if fresh then Inr BASELINE
      else if pending_settle fs \<noteq> PNone then Inr EDIT
      else if current \<in> {INIT, PLAN, REPLAN} \<or> (current = BASELINE \<and> progress_initialized fs)
      then phase_on_resume fs
      else Inr current)"

definition activate :: "real \<Rightarrow> bool \<Rightarrow> phase task_op" where
  "activate now fresh fs = reading (activation_target fresh fs) (\<lambda>target.
     (if target \<noteq> read_phase fs
      then save_state now (fmupd ''phase'' (PStr (phase_name target)) (state_or_empty fs)) fs
      else fs, Inr target)) fs"

text \<open>\<open>rollback_edit\<close>: the working tree is restored by git; the marker goes.\<close>

definition rollback_edit :: "task_fs \<Rightarrow> task_fs" where
  "rollback_edit fs = drop_marker fs"

subsection \<open>Crash recovery of a plan commit\<close>

text \<open>The header a rendered plan starts with is read back as its version.\<close>

lemma header_version_render: "header_version (''# Plan v'' @ nat_str n) = Some (int n)"
proof -
  have ds: "takeWhile is_digit (nat_str n) = nat_str n" "dropWhile is_digit (nat_str n) = []"
    using takeWhile_digits [OF nat_str_digits, of "[]" n] by simp_all
  have sp: "is_space CHR '' ''" "\<not> is_space CHR ''P''" "\<not> is_space CHR ''v''"
    by (simp_all add: is_space_def)
  show ?thesis by (simp add: header_version_def lstrip_def sp ds)
qed

lemma nat_str_no_newline: "newline \<notin> set (nat_str n)"
  using nat_str_digits [of n] by (auto simp: list_all_iff newline_def is_digit_def)

lemma first_line_render:
  "newline \<notin> set v \<Longrightarrow> takeWhile (\<lambda>c. c \<noteq> newline) (render v ids items rows) = ''# Plan v'' @ v"
proof -
  assume "newline \<notin> set v"
  moreover obtain w where "render v ids items rows = (''# Plan v'' @ v) @ newline # w"
    by (simp add: render_def render_lines_def join_lines_def)
  ultimately show ?thesis
    by (simp only:) (rule takeWhile_until, simp add: newline_def)
qed

lemma strip_header: "strip (''# Plan v'' @ nat_str n) = ''# Plan v'' @ nat_str n"
proof (rule strip_id, intro disjI2 conjI)
  show "\<not> is_space (hd (''# Plan v'' @ nat_str n))" by (simp add: is_space_def)
  have "last (nat_str n) \<in> set (nat_str n)" by simp
  then have "is_digit (last (nat_str n))" using nat_str_digits [of n] by (metis list_all_iff)
  then show "\<not> is_space (last (''# Plan v'' @ nat_str n))" by (simp add: digit_not_space)
qed

definition text_version :: "string \<Rightarrow> int option" where
  "text_version s = header_version (strip (takeWhile (\<lambda>c. c \<noteq> newline) s))"

lemma plan_version_on_disk: "read_plan_version_from_disk fs = Option.bind (plan_file fs) text_version"
  by (simp add: read_plan_version_from_disk_def text_version_def split: option.splits)

lemma text_version_render:
  "0 \<le> v \<Longrightarrow> text_version (render (int_str v) ids items rows) = Some v"
proof -
  assume v: "0 \<le> v"
  then have "int_str v = nat_str (nat v)" by (simp add: int_str_def)
  with v show ?thesis
    unfolding text_version_def
    by (simp only: first_line_render [OF nat_str_no_newline] strip_header header_version_render) simp
qed

lemma put_plan_frame [simp, store_simps]:
  "state_file (put_plan t fs) = state_file fs" "intent_file (put_plan t fs) = intent_file fs"
  "history_file (put_plan t fs) = history_file fs" "history_eol (put_plan t fs) = history_eol fs"
  "plan_file (put_plan t fs) = Some t" "edit_marker (put_plan t fs) = edit_marker fs"
  "load_state (put_plan t fs) = load_state fs" "read_intent (put_plan t fs) = read_intent fs"
  "state_or_empty (put_plan t fs) = state_or_empty fs"
  by (simp_all add: put_plan_def load_state_def read_intent_def state_or_empty_def)

text \<open>What \<open>prepare_plan\<close> guarantees about the transaction it builds on a complete state.\<close>

definition wf_plan_txn :: "int \<Rightarrow> dict \<Rightarrow> plan_txn \<Rightarrow> bool" where
  "wf_plan_txn v st tx \<longleftrightarrow> px_version tx = PInt v \<and> text_version (px_text tx) = Some v
     \<and> fset (fmdom (px_patch tx)) \<subseteq> Collect patch_key
     \<and> dget (px_patch tx) ''expected_plan_version'' = PInt v
     \<and> fmlookup (px_patch tx) ''expected_plan_version'' \<noteq> None
     \<and> st ++\<^sub>f to_dict (px_progress tx) ++\<^sub>f px_patch tx = st ++\<^sub>f px_patch tx"

definition plan_caught_up :: "int \<Rightarrow> task_fs \<Rightarrow> bool" where
  "plan_caught_up v fs = (expected_int (state_or_empty fs) ''expected_plan_version'' = Inr v)"

definition plan_landed :: "int \<Rightarrow> task_fs \<Rightarrow> bool" where
  "plan_landed v fs = (read_plan_version_from_disk fs = Some v)"

definition plan_rebuild :: "real \<Rightarrow> plan_txn \<Rightarrow> task_fs \<Rightarrow> task_fs" where
  "plan_rebuild now tx fs = save_state now (state_or_empty fs ++\<^sub>f sanitize_dict (px_patch tx)) fs"

definition plan_journaled :: "int \<Rightarrow> plan_txn \<Rightarrow> task_fs \<Rightarrow> bool" where
  "plan_journaled v tx fs \<longleftrightarrow> px_version tx = PInt v \<and> dget (px_patch tx) ''expected_plan_version'' = PInt v
     \<and> fmlookup (px_patch tx) ''expected_plan_version'' \<noteq> None
     \<and> fset (fmdom (px_patch tx)) \<subseteq> Collect patch_key
     \<and> read_intent fs = Some (sanitize_dict (plan_intent tx))
     \<and> (\<exists>e. expected_int (state_or_empty fs) ''expected_plan_version'' = Inr e)"

lemma heal_plan:
  assumes "plan_journaled v tx fs"
  shows "heal now fs = clear_intent (if plan_caught_up v fs then fs
           else if plan_landed v fs then plan_rebuild now tx fs else fs)"
proof -
  let ?i = "sanitize_dict (plan_intent tx)"
  have j: "px_version tx = PInt v" "read_intent fs = Some ?i" "fset (fmdom (px_patch tx)) \<subseteq> Collect patch_key"
    using assms by (auto simp: plan_journaled_def)
  obtain e where e: "expected_int (state_or_empty fs) ''expected_plan_version'' = Inr e"
    using assms by (auto simp: plan_journaled_def)
  have d: "dget ?i ''kind'' = PStr ''plan''" "dget ?i ''version'' = PInt v"
      "dget ?i ''state_patch'' = PDict (sanitize_dict (px_patch tx))"
    using j(1) by (simp_all add: plan_intent_def dget_def [of "fmupd _ _ _"] sanitize_dict_def [symmetric])
  have "apply_intent_patch (state_or_empty fs) ?i = Inr (state_or_empty fs ++\<^sub>f sanitize_dict (px_patch tx), True)"
    by (rule apply_intent_patch_whole) (use j(3) d in simp_all)
  then show ?thesis
    using j e d
    by (simp add: heal_def replay_intent_def replay_plan_intent_def Let_def intent_result_def
        expected_int_PInt plan_caught_up_def plan_landed_def plan_rebuild_def)
qed

lemma expected_version_patch:
  assumes "dget (px_patch tx) ''expected_plan_version'' = PInt v"
    and "fmlookup (px_patch tx) ''expected_plan_version'' \<noteq> None"
  shows "expected_int (fmupd ''last_touched'' x (st ++\<^sub>f sanitize_dict (px_patch tx))) ''expected_plan_version'' = Inr v"
proof (rule expected_int_PInt)
  have "fmlookup (px_patch tx) ''expected_plan_version'' = Some (PInt v)"
    using assms by (auto simp: dget_def)
  then show "dget (fmupd ''last_touched'' x (st ++\<^sub>f sanitize_dict (px_patch tx))) ''expected_plan_version'' = PInt v"
    by (simp add: dget_fmadd)
qed

definition plan_pre :: "int \<Rightarrow> plan_txn \<Rightarrow> task_fs \<Rightarrow> bool" where
  "plan_pre v tx fs \<longleftrightarrow> (\<exists>st. load_state fs = Some st \<and> wf_plan_txn v st tx) \<and> intent_file fs = NoFile
     \<and> (\<exists>e. expected_int (state_or_empty fs) ''expected_plan_version'' = Inr e)
     \<and> \<not> plan_caught_up v fs \<and> \<not> plan_landed v fs"

lemma plan_commit_eq:
  assumes "load_state fs = Some st" and "wf_plan_txn v st tx"
  shows "plan_commit now tx fs = save_state now (state_or_empty fs ++\<^sub>f px_patch tx) fs"
  using assms by (simp add: plan_commit_def wf_plan_txn_def state_or_empty_def)

lemma plan_journaled_commit:
  assumes "plan_journaled v tx fs"
  shows "plan_journaled v tx (plan_commit now tx fs)" and "plan_journaled v tx (plan_rebuild now tx fs)"
proof -
  have p: "dget (px_patch tx) ''expected_plan_version'' = PInt v"
      "fmlookup (px_patch tx) ''expected_plan_version'' \<noteq> None"
    using assms by (auto simp: plan_journaled_def)
  show "plan_journaled v tx (plan_rebuild now tx fs)"
    using assms expected_version_patch [OF p] by (auto simp: plan_journaled_def plan_rebuild_def)
  show "plan_journaled v tx (plan_commit now tx fs)"
    using assms expected_version_patch [OF p]
    by (auto simp: plan_journaled_def plan_commit_def split: option.splits)
qed

interpretation plan_txn: journaled_txn
  "\<lambda>(v, now, tx). plan_pre v tx" "\<lambda>(v, now, tx). write_intent (plan_intent tx)"
  "\<lambda>(v, now, tx). put_plan (px_text tx)" "\<lambda>(v, now, tx). plan_commit now tx"
  "\<lambda>(v, now, tx). plan_rebuild now' tx" clear_intent "heal now'"
  "\<lambda>(v, now, tx). plan_journaled v tx" "\<lambda>fs. read_intent fs = None"
  "\<lambda>(v, now, tx). plan_caught_up v" "\<lambda>(v, now, tx). plan_landed v" same_task
  for now'
proof (unfold_locales, goal_cases)
  case (2 s)
  then show ?case by (rule heal_idle)
next
  case (3 p s)
  then show ?case by (cases p) (simp add: heal_plan)
next
  case (10 p s)
  then show ?case by (cases p) (simp add: plan_journaled_commit)
next
  case (12 p s)
  then show ?case by (cases p) (simp add: plan_journaled_commit)
next
  case (11 p s)
  obtain v now tx where [simp]: "p = (v, now, tx)" by (cases p)
  from 11 obtain st where st: "load_state s = Some st" "wf_plan_txn v st tx" by (auto simp: plan_pre_def)
  then show ?case
    using expected_version_patch [of tx v] plan_commit_eq [of "put_plan (px_text tx) (write_intent (plan_intent tx) s)" st v tx now]
    by (auto simp: plan_caught_up_def wf_plan_txn_def)
next
  case (14 p s)
  obtain v now tx where [simp]: "p = (v, now, tx)" by (cases p)
  from 14 obtain st where st: "load_state s = Some st" "wf_plan_txn v st tx" by (auto simp: plan_pre_def)
  then show ?case
    using plan_commit_eq [of "put_plan (px_text tx) (write_intent (plan_intent tx) s)" st v tx now]
    by (simp add: plan_rebuild_def clear_save same_task_save)
qed (auto simp: plan_pre_def plan_journaled_def wf_plan_txn_def plan_caught_up_def plan_landed_def
    read_intent_NoFile clear_write_intent plan_version_on_disk plan_rebuild_def
    expected_version_patch)

end
