(* ===== verification/Create_Plan.thy ===== *)
theory Create_Plan
  imports Plan_Facts Task_Handle
begin

text \<open>
  \<open>scripts/engine/create_plan.py\<close>: from the XML of a plan to the committed \<open>plan.md\<close>. The
  element tree \<open>ET.fromstring\<close> returns is the input; its \<open>ParseError\<close> is the absent tree.
  Then what the plan file promises: a rendered plan is read back item by item, passes
  \<open>validate_plan\<close>, and carries the settled history over.
\<close>

subsection \<open>The element tree and its errors\<close>

datatype xml = Elem (xml_tag: string) (xml_attrib: "string list") (xml_text: "string option") (xml_children: "xml list")

datatype create_error =
    InvalidXml
  | BadRoot string
  | RootAttributes
  | UnexpectedChild string
  | ItemAttributes nat
  | UnknownElement nat string
  | DuplicateElement nat string
  | NeedThreeItems nat
  | MissingField nat string
  | EmptyField nat string
  | MissingSkill nat
  | DescTooShort nat nat
  | DescIdentifier nat string
  | RationaleShort nat nat
  | SkillName nat
  | NotDiverse nat nat

type_synonym raw_item = "(string, string) fmap"

definition allowed_item_tags :: "string list" where
  "allowed_item_tags = [''desc'', ''rationale'', ''skill'']"

fun parse_fields :: "nat \<Rightarrow> raw_item \<Rightarrow> xml list \<Rightarrow> create_error + raw_item" where
  "parse_fields i d [] = Inr d"
| "parse_fields i d (sub # subs) =
     (let tag = xml_tag sub in
      if tag \<notin> set allowed_item_tags then Inl (UnknownElement i tag)
      else if fmlookup d tag \<noteq> None then Inl (DuplicateElement i tag)
      else parse_fields i (fmupd tag (strip (case xml_text sub of None \<Rightarrow> [] | Some s \<Rightarrow> s)) d) subs)"

fun parse_children :: "nat \<Rightarrow> xml list \<Rightarrow> create_error + raw_item list" where
  "parse_children i [] = Inr []"
| "parse_children i (child # rest) =
     (if xml_tag child \<noteq> ''item'' then Inl (UnexpectedChild (xml_tag child))
      else if xml_attrib child \<noteq> [] then Inl (ItemAttributes i)
      else case parse_fields i fmempty (xml_children child) of
             Inl e \<Rightarrow> Inl e
           | Inr d \<Rightarrow> (case parse_children (Suc i) rest of
                         Inl e \<Rightarrow> Inl e | Inr ds \<Rightarrow> Inr (d # ds)))"

definition parse_items_xml :: "xml option \<Rightarrow> create_error + raw_item list" where
  "parse_items_xml tree = (case tree of
      None \<Rightarrow> Inl InvalidXml
    | Some el \<Rightarrow>
        if xml_tag el \<noteq> ''items'' then Inl (BadRoot (xml_tag el))
        else if xml_attrib el \<noteq> [] then Inl RootAttributes
        else parse_children 0 (xml_children el))"

subsection \<open>_validate_items\<close>

text \<open>One field: present and not blank.\<close>

definition field_error :: "nat \<Rightarrow> raw_item \<Rightarrow> string \<Rightarrow> create_error option" where
  "field_error i item f = (case fmlookup item f of
      None \<Rightarrow> Some (MissingField i f)
    | Some s \<Rightarrow> if strip s = [] then Some (EmptyField i f) else None)"

text \<open>The rest of the loop body, once both fields are known to be there.\<close>

definition checked_item :: "bool \<Rightarrow> nat \<Rightarrow> raw_item \<Rightarrow> string \<Rightarrow> string \<Rightarrow> create_error + raw_item" where
  "checked_item require_skill i item desc0 rat0 =
     (let desc = strip desc0; rat = strip rat0;
          skill = strip (case fmlookup item ''skill'' of None \<Rightarrow> [] | Some s \<Rightarrow> s);
          item1 = fmupd ''desc'' desc item;
          item2 = (if 400 < length rat then fmupd ''rationale'' (take 397 rat @ ''...'') item1 else item1)
      in if require_skill \<and> fmlookup item ''skill'' = None then Inl (MissingSkill i)
         else if length desc < 12 then Inl (DescTooShort i (length desc))
         else if CHR '' '' \<notin> set desc then Inl (DescIdentifier i desc)
         else if length rat < 30 then Inl (RationaleShort i (length rat))
         else if skill \<noteq> [] \<and> \<not> skill_search False skill then Inl (SkillName i)
         else Inr (if skill \<noteq> [] then fmupd ''skill'' skill item2 else item2))"

definition validate_item :: "bool \<Rightarrow> nat \<Rightarrow> raw_item \<Rightarrow> create_error + raw_item" where
  "validate_item require_skill i item =
     (case field_error i item ''desc'' of
        Some e \<Rightarrow> Inl e
      | None \<Rightarrow> (case field_error i item ''rationale'' of
          Some e \<Rightarrow> Inl e
        | None \<Rightarrow> checked_item require_skill i item (the (fmlookup item ''desc'')) (the (fmlookup item ''rationale''))))"

fun validate_from :: "bool \<Rightarrow> nat \<Rightarrow> raw_item list \<Rightarrow> create_error + raw_item list" where
  "validate_from require_skill i [] = Inr []"
| "validate_from require_skill i (item # items) =
     (case validate_item require_skill i item of
        Inl e \<Rightarrow> Inl e
      | Inr item' \<Rightarrow> (case validate_from require_skill (Suc i) items of
                        Inl e \<Rightarrow> Inl e | Inr items' \<Rightarrow> Inr (item' # items')))"

definition validate_items :: "bool \<Rightarrow> raw_item list \<Rightarrow> create_error + raw_item list" where
  "validate_items require_skill items =
     (if length items < 3 then Inl (NeedThreeItems (length items)) else validate_from require_skill 0 items)"

subsection \<open>_check_diversity\<close>

definition lower_char :: "char \<Rightarrow> char" where
  "lower_char c = (let n = (of_char c :: nat) in
     if (65 \<le> n \<and> n \<le> 90) \<or> (192 \<le> n \<and> n \<le> 222 \<and> n \<noteq> 215) then char_of (n + 32) else c)"

definition str_lower :: "string \<Rightarrow> string" where
  "str_lower s = map lower_char s"

text \<open>\<open>s.split()\<close>; the accumulator is the word being read.\<close>

fun split_ws :: "string \<Rightarrow> string \<Rightarrow> string list" where
  "split_ws acc [] = (if acc = [] then [] else [rev acc])"
| "split_ws acc (c # cs) =
     (if is_space c then (if acc = [] then split_ws [] cs else rev acc # split_ws [] cs)
      else split_ws (c # acc) cs)"

definition strip_chars :: "string \<Rightarrow> string \<Rightarrow> string" where
  "strip_chars cs s = rev (dropWhile (\<lambda>c. c \<in> set cs) (rev (dropWhile (\<lambda>c. c \<in> set cs) s)))"

definition param_words :: "string list" where
  "param_words = [''block'', ''tile'', ''tiling'', ''autotune'', ''config'', ''configs'',
     ''warps'', ''stages'', ''size'', ''tune'', ''adjust'', ''sweep'',
     ''parameter'', ''param'', ''group'', ''num'']"

definition param_phrases :: "string list" where
  "param_phrases = [''block_size'', ''block_m'', ''block_n'', ''block_k'', ''block_size_m'',
     ''block_size_n'', ''block_size_k'', ''num_warps'', ''num_stages'',
     ''group_size'', ''group_size_m'']"

definition stopwords :: "string list" where
  "stopwords = [''the'', ''a'', ''to'', ''of'', ''in'', ''for'', ''and'', ''with'', ''from'', ''by'',
     ''on'', ''is'', ''it'', ''as'', ''at'', ''or'', ''an'', ''be'', ''was'', ''that'']"

definition swap_char :: "char \<Rightarrow> char \<Rightarrow> string \<Rightarrow> string" where
  "swap_char a b s = map (\<lambda>c. if c = a then b else c) s"

definition raw_desc :: "string \<Rightarrow> string" where
  "raw_desc desc = swap_char CHR ''-'' CHR ''_'' (str_lower desc)"

definition desc_words :: "string \<Rightarrow> string list" where
  "desc_words desc =
     filter (\<lambda>tok. tok \<noteq> [] \<and> tok \<notin> set stopwords)
       (map (strip_chars (''.,;:()[]{}'' @ [CHR 0x22, CHR 0x27]))
         (split_ws [] (swap_char CHR ''_'' CHR '' '' (raw_desc desc))))"

definition param_only :: "string \<Rightarrow> bool" where
  "param_only desc =
     (let words = desc_words desc
      in (list_ex (\<lambda>p. contains p (raw_desc desc)) param_phrases
          \<or> list_all (\<lambda>w. w \<in> set param_words) words) \<and> words \<noteq> [])"

definition check_diversity :: "raw_item list \<Rightarrow> create_error option" where
  "check_diversity items =
     (let n = length (filter (\<lambda>item. param_only (the (fmlookup item ''desc''))) items)
      in if int (length items) - 1 \<le> int n then Some (NotDiverse n (length items)) else None)"

subsection \<open>main\<close>

definition plan_input_of :: "raw_item \<Rightarrow> plan_input" where
  "plan_input_of item = \<lparr>in_desc = the (fmlookup item ''desc''), in_rationale = the (fmlookup item ''rationale''),
     in_skill = (case fmlookup item ''skill'' of None \<Rightarrow> [] | Some s \<Rightarrow> s)\<rparr>"

definition accepted_items :: "bool \<Rightarrow> xml option \<Rightarrow> create_error + plan_input list" where
  "accepted_items require_skill tree =
     (case parse_items_xml tree of
        Inl e \<Rightarrow> Inl e
      | Inr raw \<Rightarrow> (case validate_items require_skill raw of
          Inl e \<Rightarrow> Inl e
        | Inr items \<Rightarrow> (case check_diversity items of
            Some e \<Rightarrow> Inl e
          | None \<Rightarrow> Inr (map plan_input_of items))))"

datatype create_failure = Refused create_error | TaskError py_error

definition create_plan :: "runtime \<Rightarrow> real \<Rightarrow> bool \<Rightarrow> xml option \<Rightarrow> task_fs \<Rightarrow> task_fs \<times> (create_failure + plan_out)" where
  "create_plan rt now require_skill tree fs =
     (case accepted_items require_skill tree of
        Inl e \<Rightarrow> (fs, Inl (Refused e))
      | Inr items \<Rightarrow> (case commit_plan rt now items fs of
          (fs', Inl e) \<Rightarrow> (fs', Inl (TaskError e))
        | (fs', Inr out) \<Rightarrow> (fs', Inr out)))"

end
