(* ===== verification/Task_Config.thy ===== *)
theory Task_Config
  imports Py_Text Baseline_Anchor
begin

text \<open>
  \<open>scripts/task_config/loader.py\<close> and the DSL blocks of \<open>op/utils/dsl_project_config.py\<close>: what
  \<open>task.yaml\<close> becomes, which values raise, and that no path of a loaded configuration leaves the
  task directory. The YAML document is given parsed; the iteration order of a mapping, which Python
  keeps and a finite map does not, is an argument.
\<close>

subsection \<open>Containment\<close>

definition is_contained :: "string \<Rightarrow> bool" where
  "is_contained path =
     (path \<noteq> [] \<and> \<not> (2 \<le> length path \<and> path ! 1 = CHR '':'')
      \<and> \<not> starts_with ''/'' path \<and> \<not> starts_with [CHR 0x5C] path
      \<and> ''..'' \<notin> set (split_on CHR ''/'' (map (\<lambda>c. if c = CHR 0x5C then CHR ''/'' else c) path)))"

definition filter_contained :: "runtime \<Rightarrow> pyval list \<Rightarrow> pyval list" where
  "filter_contained rt paths = filter (\<lambda>p. is_contained (py_str rt p)) paths"

text \<open>Where the operating system ends up: a component is a name, the directory itself or its parent.\<close>

fun walk :: "string list \<Rightarrow> string list \<Rightarrow> string list" where
  "walk dir [] = dir"
| "walk dir (c # cs) = (if c = [] \<or> c = ''.'' then walk dir cs
     else if c = ''..'' then walk (butlast dir) cs else walk (dir @ [c]) cs)"

definition opened :: "string list \<Rightarrow> string \<Rightarrow> string list" where
  "opened dir path = walk (if starts_with ''/'' path then [] else dir) (split_on CHR ''/'' path)"

lemma walk_below: "''..'' \<notin> set cs \<Longrightarrow> prefix dir (walk dir cs)"
proof (induction dir cs rule: walk.induct)
  case (2 dir c cs)
  have "prefix dir (dir @ [c])" by simp
  with 2 show ?case using prefix_order.trans [of dir "dir @ [c]"] by auto
qed simp

text \<open>A further separator cuts no segment that does not hold it.\<close>

lemma split_on_refine:
  fixes e d :: char
  defines "f \<equiv> \<lambda>c. if c = e then d else c"
  assumes "e \<noteq> d"
  shows "(e \<notin> set (hd (split_on d s)) \<longrightarrow> hd (split_on d (map f s)) = hd (split_on d s))
    \<and> (\<forall>w \<in> set (tl (split_on d s)). e \<notin> set w \<longrightarrow> w \<in> set (tl (split_on d (map f s))))"
proof (induction s)
  case (Cons c cs)
  obtain l ls where l: "split_on d cs = l # ls" by (cases "split_on d cs") simp_all
  obtain m ms where m: "split_on d (map f cs) = m # ms" by (cases "split_on d (map f cs)") simp_all
  show ?case using Cons assms(2) by (auto simp: l m f_def [symmetric]) (auto simp: f_def split: if_splits)
qed (simp add: f_def)

lemma split_on_dots:
  assumes "''..'' \<in> set (split_on CHR ''/'' s)"
  shows "''..'' \<in> set (split_on CHR ''/'' (map (\<lambda>c. if c = CHR 0x5C then CHR ''/'' else c) s))"
proof -
  let ?s = "split_on CHR ''/'' s" and ?m = "split_on CHR ''/'' (map (\<lambda>c. if c = CHR 0x5C then CHR ''/'' else c) s)"
  have ins: "set xs = insert (hd xs) (set (tl xs))" if "xs \<noteq> []" for xs :: "string list"
    using that by (cases xs) auto
  have free: "CHR 0x5C \<notin> set ''..''" by simp
  have neq: "CHR 0x5C \<noteq> CHR ''/''" by simp
  note refine = split_on_refine [OF neq, of s]
  from assms ins [of ?s] have "''..'' = hd ?s \<or> ''..'' \<in> set (tl ?s)" by simp
  then have "''..'' = hd ?m \<or> ''..'' \<in> set (tl ?m)"
  proof
    assume h: "''..'' = hd ?s"
    have "CHR 0x5C \<notin> set (hd ?s)" unfolding h [symmetric] by (rule free)
    then have "hd ?m = hd ?s" using refine by blast
    then show ?thesis using h by metis
  next
    assume "''..'' \<in> set (tl ?s)"
    then show ?thesis using refine free by blast
  qed
  then show ?thesis using ins [of ?m] by auto
qed

lemma contained_below: "is_contained path \<Longrightarrow> prefix dir (opened dir path)"
  using split_on_dots by (auto simp: opened_def is_contained_def intro: walk_below)

subsection \<open>DSL blocks\<close>

record field_spec =
  flat_key :: string
  yaml_keys :: "string list"
  yaml_key :: string
  default_when_block_present :: "string option"

record block_spec =
  block_name :: string
  dsl_names :: "string list"
  block_fields :: "field_spec list"
  project_dir_keys :: "string list"

definition block_specs :: "block_spec list" where
  "block_specs =
     [\<lparr>block_name = ''catlass'', dsl_names = [''ascendc_catlass''],
       block_fields = [
         \<lparr>flat_key = ''catlass_root'', yaml_keys = [''root'', ''catlass_root''], yaml_key = ''root'',
          default_when_block_present = None\<rparr>,
         \<lparr>flat_key = ''catlass_op_dir'', yaml_keys = [''op_dir'', ''catlass_op_dir''], yaml_key = ''op_dir'',
          default_when_block_present = Some ''catlass_op''\<rparr>],
       project_dir_keys = [''catlass_op_dir'']\<rparr>,
      \<lparr>block_name = ''ascendc'', dsl_names = [''ascendc''],
       block_fields = [
         \<lparr>flat_key = ''ascendc_op_dir'', yaml_keys = [''op_dir'', ''ascendc_op_dir'', ''project_dir'', ''ascendc_project_dir''],
          yaml_key = ''op_dir'', default_when_block_present = Some ''ascendc_op''\<rparr>],
       project_dir_keys = [''ascendc_op_dir'', ''ascendc_project_dir'']\<rparr>]"

definition spec_for_dsl :: "string \<Rightarrow> block_spec option" where
  "spec_for_dsl dsl = (if dsl = [] then None else find (\<lambda>spec. dsl \<in> set (dsl_names spec)) block_specs)"

definition flat_value :: "dict \<Rightarrow> field_spec \<Rightarrow> pyval" where
  "flat_value block f = (case find (\<lambda>k. dget block k \<noteq> PNone) (yaml_keys f) of
      Some k \<Rightarrow> dget block k
    | None \<Rightarrow> (case default_when_block_present f of Some s \<Rightarrow> PStr s | None \<Rightarrow> PNone))"

fun flatten_fields :: "dict \<Rightarrow> field_spec list \<Rightarrow> dict \<Rightarrow> dict" where
  "flatten_fields block [] out = out"
| "flatten_fields block (f # fs) out =
     flatten_fields block fs (if flat_value block f = PNone then out else fmupd (flat_key f) (flat_value block f) out)"

fun flatten_blocks :: "dict \<Rightarrow> block_spec list \<Rightarrow> dict \<Rightarrow> dict res" where
  "flatten_blocks raw [] out = Inr out"
| "flatten_blocks raw (spec # specs) out =
     (if fmlookup raw (block_name spec) = None then flatten_blocks raw specs out
      else (case py_or (dget raw (block_name spec)) (PDict fmempty) of
          PDict block \<Rightarrow> flatten_blocks raw specs (flatten_fields block (block_fields spec) out)
        | _ \<Rightarrow> Inl ValueError))"

definition flatten_task_yaml_dsl_blocks :: "dict \<Rightarrow> dict res" where
  "flatten_task_yaml_dsl_blocks raw = flatten_blocks raw block_specs fmempty"

fun block_entries :: "dict \<Rightarrow> field_spec list \<Rightarrow> dict \<Rightarrow> dict" where
  "block_entries cfg [] out = out"
| "block_entries cfg (f # fs) out =
     block_entries cfg fs (if dget cfg (flat_key f) = PNone then out else fmupd (yaml_key f) (dget cfg (flat_key f)) out)"

definition task_yaml_dsl_blocks :: "string \<Rightarrow> dict \<Rightarrow> dict" where
  "task_yaml_dsl_blocks dsl cfg = (case spec_for_dsl dsl of
      None \<Rightarrow> fmempty
    | Some spec \<Rightarrow>
        if cfg = fmempty then fmempty
        else let block = block_entries cfg (block_fields spec) fmempty
             in if block = fmempty then fmempty else fmupd (block_name spec) (PDict block) fmempty)"

fun first_dir :: "runtime \<Rightarrow> dict \<Rightarrow> string list \<Rightarrow> string option" where
  "first_dir rt cfg [] = None"
| "first_dir rt cfg (k # ks) = (if truthy (dget cfg k) then Some (py_str rt (dget cfg k)) else first_dir rt cfg ks)"

definition project_dir_from_dsl_config :: "runtime \<Rightarrow> string \<Rightarrow> dict \<Rightarrow> string option \<Rightarrow> string option" where
  "project_dir_from_dsl_config rt dsl cfg fallback = (case spec_for_dsl dsl of
      None \<Rightarrow> fallback
    | Some spec \<Rightarrow> (case first_dir rt cfg (project_dir_keys spec) of None \<Rightarrow> fallback | Some d \<Rightarrow> Some d))"

subsection \<open>The loader\<close>

record TaskConfig =
  cf_name :: pyval
  cf_description :: pyval
  cf_arch :: pyval
  cf_editable_files :: "pyval list"
  cf_ref_file :: pyval
  cf_data_files :: "string list"
  cf_eval_timeout :: pyval
  cf_num_cases :: int
  cf_primary_metric :: pyval
  cf_lower_is_better :: pyval
  cf_improvement_threshold :: pyval
  cf_constraints :: "(string \<times> pyval \<times> pyval) list"
  cf_smoke_test_script :: pyval
  cf_smoke_test_timeout :: pyval
  cf_code_checker_enabled :: bool
  cf_max_rounds :: pyval
  cf_devices :: "int list"
  cf_worker_urls :: "string list"
  cf_dsl_config :: dict

text \<open>The knobs of \<open>config.yaml\<close> that stand in for missing keys.\<close>

record task_defaults =
  df_max_rounds :: pyval
  df_eval_timeout :: pyval
  df_smoke_test_timeout :: pyval
  df_code_checker_enabled :: bool
  df_primary :: pyval
  df_lower_is_better :: pyval
  df_improvement_threshold :: pyval

definition as_mapping :: "pyval \<Rightarrow> dict res" where
  "as_mapping v = (case v of PDict d \<Rightarrow> Inr d | _ \<Rightarrow> Inl AttributeError)"

definition yaml_block :: "dict \<Rightarrow> string \<Rightarrow> dict res" where
  "yaml_block raw k = as_mapping (dget_default raw k (PDict fmempty))"

fun parse_constraints :: "dict \<Rightarrow> string list \<Rightarrow> (string \<times> pyval \<times> pyval) list res" where
  "parse_constraints d [] = Inr []"
| "parse_constraints d (k # ks) =
     bindR (case dget d k of
              PDict spec \<Rightarrow> (case (fmlookup spec ''op'', fmlookup spec ''value'') of
                  (Some oper, Some v) \<Rightarrow> Inr [(k, oper, v)] | _ \<Rightarrow> Inl KeyError)
            | PList [oper, v] \<Rightarrow> Inr [(k, oper, v)]
            | _ \<Rightarrow> Inr [])
       (\<lambda>here. bindR (parse_constraints d ks) (\<lambda>rest. Inr (here @ rest)))"

fun all_ints :: "('a \<Rightarrow> int res) \<Rightarrow> 'a list \<Rightarrow> int list res" where
  "all_ints f [] = Inr []"
| "all_ints f (x # xs) = bindR (f x) (\<lambda>i. bindR (all_ints f xs) (\<lambda>is. Inr (i # is)))"

definition stripped_parts :: "string \<Rightarrow> string list" where
  "stripped_parts s = filter (\<lambda>p. p \<noteq> []) (map strip (split_on CHR '','' s))"

definition parse_devices :: "pyval \<Rightarrow> int list res" where
  "parse_devices v = (case v of
      PInt i \<Rightarrow> Inr [i]
    | PBool b \<Rightarrow> Inr [if b then 1 else 0]
    | PStr s \<Rightarrow> all_ints int_of_str (stripped_parts s)
    | PList ds \<Rightarrow> all_ints py_int ds
    | _ \<Rightarrow> Inr [])"

definition parse_worker_urls :: "runtime \<Rightarrow> pyval \<Rightarrow> string list" where
  "parse_worker_urls rt v = (case v of
      PStr s \<Rightarrow> stripped_parts s
    | PList us \<Rightarrow> filter (\<lambda>u. u \<noteq> []) (map (\<lambda>u. strip (py_str rt u)) us)
    | _ \<Rightarrow> [])"

definition parse_data_files :: "runtime \<Rightarrow> pyval \<Rightarrow> string list" where
  "parse_data_files rt v = (case v of
      PStr s \<Rightarrow> if s = [] then [] else [s]
    | PList fs \<Rightarrow> map (py_str rt) (filter truthy fs)
    | _ \<Rightarrow> [])"

text \<open>\<open>list(v or [])\<close>.\<close>

definition as_list :: "(dict \<Rightarrow> string list) \<Rightarrow> pyval \<Rightarrow> pyval list res" where
  "as_list keys v = (if \<not> truthy v then Inr [] else (case v of
      PList xs \<Rightarrow> Inr xs
    | PStr s \<Rightarrow> Inr (map (\<lambda>c. PStr [c]) s)
    | PDict d \<Rightarrow> Inr (map PStr (keys d))
    | _ \<Rightarrow> Inl TypeError))"

definition ref_file_default :: string where
  "ref_file_default = ''reference.py''"

definition contained_ref :: "runtime \<Rightarrow> dict \<Rightarrow> pyval" where
  "contained_ref rt agent = (let r = py_or (dget agent ''ref_file'') (PStr ref_file_default)
     in if is_contained (py_str rt r) then r else PStr ref_file_default)"

definition load_yaml :: "runtime \<Rightarrow> task_defaults \<Rightarrow> (dict \<Rightarrow> string list) \<Rightarrow> dict \<Rightarrow> TaskConfig res" where
  "load_yaml rt df keys raw =
     (if \<not> truthy (dget raw ''name'') then Inl ValueError
      else bindR (bindR (yaml_block raw ''constraints'') (\<lambda>d. parse_constraints d (keys d))) (\<lambda>constraints.
           bindR (parse_devices (dget_default raw ''devices'' (PList []))) (\<lambda>devices.
           bindR (yaml_block raw ''worker'') (\<lambda>worker.
           bindR (as_list keys (dget raw ''editable_files'')) (\<lambda>raw_editable.
           bindR (yaml_block raw ''agent'') (\<lambda>agent.
           bindR (flatten_task_yaml_dsl_blocks raw) (\<lambda>dsl_config.
           bindR (yaml_block raw ''eval'') (\<lambda>ev.
           bindR (py_int (py_or (dget_default ev ''num_cases'' (PInt 0)) (PInt 0))) (\<lambda>num_cases.
           bindR (yaml_block raw ''metric'') (\<lambda>metric.
           bindR (yaml_block raw ''smoke_test'') (\<lambda>smoke.
           bindR (yaml_block raw ''code_checker'') (\<lambda>checker.
           let config = \<lparr>cf_name = dget raw ''name'', cf_description = dget_default raw ''description'' (PStr []),
               cf_arch = dget raw ''arch'', cf_editable_files = filter_contained rt raw_editable,
               cf_ref_file = contained_ref rt agent,
               cf_data_files = filter is_contained (parse_data_files rt (dget_default raw ''data_files'' (PList []))),
               cf_eval_timeout = dget_default ev ''timeout'' (df_eval_timeout df), cf_num_cases = num_cases,
               cf_primary_metric = dget_default metric ''primary'' (df_primary df),
               cf_lower_is_better = dget_default metric ''lower_is_better'' (df_lower_is_better df),
               cf_improvement_threshold = dget_default metric ''improvement_threshold'' (df_improvement_threshold df),
               cf_constraints = constraints, cf_smoke_test_script = dget smoke ''script'',
               cf_smoke_test_timeout = dget_default smoke ''timeout'' (df_smoke_test_timeout df),
               cf_code_checker_enabled = truthy (dget_default checker ''enabled'' (PBool (df_code_checker_enabled df))),
               cf_max_rounds = dget_default agent ''max_rounds'' (df_max_rounds df),
               cf_devices = devices,
               cf_worker_urls = parse_worker_urls rt (dget_default worker ''urls'' (PList [])),
               cf_dsl_config = dsl_config\<rparr>
           in if cf_editable_files config = [] then Inl ValueError else Inr config))))))))))))"

text \<open>The file is missing, or its document is given.\<close>

definition load_task_config :: "runtime \<Rightarrow> task_defaults \<Rightarrow> (dict \<Rightarrow> string list) \<Rightarrow> pyval option \<Rightarrow> TaskConfig option res" where
  "load_task_config rt df keys doc = (case doc of
      None \<Rightarrow> Inr None
    | Some (PDict raw) \<Rightarrow> bindR (load_yaml rt df keys raw) (\<lambda>c. Inr (Some c))
    | Some _ \<Rightarrow> Inl ValueError)"

subsection \<open>Loaded configurations\<close>

lemma load_yamlE:
  assumes "load_yaml rt df keys raw = Inr c"
  obtains raw_editable agent where "cf_editable_files c = filter_contained rt raw_editable" "cf_editable_files c \<noteq> []"
    "cf_ref_file c = contained_ref rt agent"
    "cf_data_files c = filter is_contained (parse_data_files rt (dget_default raw ''data_files'' (PList [])))"
  using assms by (auto simp: load_yaml_def Let_def split: if_splits)

lemma contained_ref_contained: "is_contained (py_str rt (contained_ref rt agent))"
proof -
  have "is_contained (py_str rt (PStr ref_file_default))" by (simp add: py_str_def) code_simp
  then show ?thesis by (simp add: contained_ref_def Let_def)
qed


definition demo_yaml :: dict where
  "demo_yaml = fmap_of_list [(''name'', PStr ''op''), (''editable_files'', PList [PStr ''../../secret'', PStr ''kernel.py''])]"

definition demo_defaults :: task_defaults where
  "demo_defaults = \<lparr>df_max_rounds = PInt 30, df_eval_timeout = PInt 600, df_smoke_test_timeout = PInt 10, df_code_checker_enabled = True,
     df_primary = PStr ''latency_us'', df_lower_is_better = PBool True, df_improvement_threshold = PFloat (Fin 0)\<rparr>"


text \<open>
  DSL blocks round-trip: the block written for a DSL from flat keys is read back to the same values,
  and a key that was missing comes back as the default of its field exactly when a block was written.
\<close>

theorem dsl_blocks_roundtrip:
  assumes "spec_for_dsl dsl = Some spec" and "f \<in> set (block_fields spec)"
  shows "\<exists>out. flatten_task_yaml_dsl_blocks (task_yaml_dsl_blocks dsl cfg) = Inr out \<and> dget out (flat_key f) =
    (if dget cfg (flat_key f) \<noteq> PNone then dget cfg (flat_key f)
     else if task_yaml_dsl_blocks dsl cfg = fmempty then PNone
     else (case default_when_block_present f of Some s \<Rightarrow> PStr s | None \<Rightarrow> PNone))"
proof -
  have spec: "dsl = ''ascendc_catlass'' \<and> spec = block_specs ! 0 \<or> dsl = ''ascendc'' \<and> spec = block_specs ! 1"
    using assms(1) by (auto simp: spec_for_dsl_def block_specs_def split: if_splits)
  have empty: "cfg = fmempty \<Longrightarrow> dget cfg k = PNone" for k by simp
  have ne: "fmupd k v d \<noteq> fmempty" for k and v :: pyval and d :: dict by (metis fmempty_lookup fmupd_lookup option.distinct(1))
  show ?thesis
    using spec assms(2)
    by (elim disjE conjE)
       (auto simp: block_specs_def task_yaml_dsl_blocks_def spec_for_dsl_def flatten_task_yaml_dsl_blocks_def
         flat_value_def py_or_def ne Let_def)
qed

theorem dsl_blocks_roundtrip_witness:
  "\<exists>out. flatten_task_yaml_dsl_blocks (task_yaml_dsl_blocks ''ascendc_catlass'' (fmap_of_list [(''catlass_root'', PStr ''r'')])) = Inr out
     \<and> dget out ''catlass_root'' = PStr ''r''"
proof -
  have spec: "spec_for_dsl ''ascendc_catlass'' = Some (block_specs ! 0)" by (simp add: spec_for_dsl_def block_specs_def)
  have "block_fields (block_specs ! 0) ! 0 \<in> set (block_fields (block_specs ! 0))" by (simp add: block_specs_def)
  from dsl_blocks_roundtrip [OF spec this, of "fmap_of_list [(''catlass_root'', PStr ''r'')]"] show ?thesis
    by (auto simp: block_specs_def dget_def fmlookup_of_list)
qed

end
