(* ===== verification/Edit_Check.thy ===== *)
theory Edit_Check
  imports Create_Plan Task_Config
begin

text \<open>
  \<open>scripts/engine/quick_check.py\<close>: is an edit worth an evaluation? The reader of a \<open>git diff\<close>, the
  comment rule, the static check of the editable files and the smoke test, as \<open>pipeline.py\<close>
  runs them. Git, the code checker and the smoke script are parameters.
\<close>

subsection \<open>Lines of text\<close>

text \<open>\<open>str.splitlines\<close>: every line boundary of Latin-1, a carriage return with its line feed once.\<close>

definition is_break :: "char \<Rightarrow> bool" where
  "is_break c = (c \<in> {CHR 0x0A, CHR 0x0B, CHR 0x0C, CHR 0x0D, CHR 0x1C, CHR 0x1D, CHR 0x1E, CHR 0x85})"

function splitlines :: "string \<Rightarrow> string list" where
  "splitlines [] = []"
| "splitlines (c # cs) =
     (if is_break c then [] # splitlines (if c = CHR 0x0D \<and> cs \<noteq> [] \<and> hd cs = CHR 0x0A then tl cs else cs)
      else (case splitlines cs of [] \<Rightarrow> [[c]] | l # ls \<Rightarrow> (c # l) # ls))"
  by pat_completeness auto
termination by (relation "measure length") auto

definition basename :: "string \<Rightarrow> string" where
  "basename p = rev (takeWhile (\<lambda>c. c \<noteq> CHR ''/'') (rev p))"

text \<open>\<open>os.path.splitext(name)[1]\<close> of a name without separators: leading dots are no extension.\<close>

definition extension :: "string \<Rightarrow> string" where
  "extension name = (let rest = dropWhile (\<lambda>c. c \<noteq> CHR ''.'') (rev name)
     in if rest = [] \<or> list_all (\<lambda>c. c = CHR ''.'') rest then []
        else CHR ''.'' # rev (takeWhile (\<lambda>c. c \<noteq> CHR ''.'') (rev name)))"

subsection \<open>Reading a diff\<close>

definition diff_noise :: "string list" where
  "diff_noise = [''diff --git '', ''index '', ''--- '', ''@@'']"

fun diff_lines :: "string \<Rightarrow> string list \<Rightarrow> (string \<times> string) list" where
  "diff_lines current [] = []"
| "diff_lines current (raw # rest) =
     (if starts_with ''+++ '' raw
      then let path = strip (drop 4 raw)
           in diff_lines (if starts_with ''b/'' path then drop 2 path else path) rest
      else if list_ex (\<lambda>p. starts_with p raw) diff_noise then diff_lines current rest
      else if raw = [] \<or> hd raw \<notin> {CHR ''+'', CHR ''-''} then diff_lines current rest
      else if starts_with ''+++'' raw \<or> starts_with ''---'' raw then diff_lines current rest
      else (current, tl raw) # diff_lines current rest)"

definition diff_changed_lines :: "string \<Rightarrow> (string \<times> string) list" where
  "diff_changed_lines diff_text = diff_lines [] (splitlines diff_text)"

subsection \<open>Comment lines\<close>

definition c_extensions :: "string list" where
  "c_extensions = [''.c'', ''.cc'', ''.cpp'', ''.cxx'', ''.h'', ''.hpp'', ''.hh'', ''.asc'']"

definition is_comment_line :: "string \<Rightarrow> string \<Rightarrow> bool" where
  "is_comment_line path line =
     (let stripped = strip line; name = str_lower (basename path); ext = extension name
      in if stripped = [] then True
         else if ext = ''.py'' \<or> name = ''cmakelists.txt'' \<or> ext = ''.cmake'' then starts_with ''#'' stripped
         else if ext \<in> set c_extensions
         then starts_with ''//'' stripped \<or> starts_with ''/*'' stripped \<or> starts_with ''*'' stripped \<or> starts_with ''*/'' stripped
         else False)"

subsection \<open>The checks\<close>

datatype edit_issue = DiffUnavailable | GitFailed string | ZeroEdit | CommentOnly | FileMissing string | CheckFailed string | CheckCrashed

record git_diff =
  gd_returncode :: int
  gd_stdout :: string
  gd_stderr :: string

datatype smoke_outcome = SmokeExit int | SmokeTimeout | SmokeLaunchError

record check_env =
  qe_diff :: "git_diff res"
  qe_dsl :: string
  qe_exists :: "string \<Rightarrow> bool"
  qe_code_ok :: "string \<Rightarrow> bool res"
  qe_smoke :: smoke_outcome

definition git_message :: "git_diff \<Rightarrow> string" where
  "git_message d = take 800 (strip (if gd_stderr d \<noteq> [] then gd_stderr d else if gd_stdout d \<noteq> [] then gd_stdout d else ''git diff failed''))"

definition effective_edit_issue :: "check_env \<Rightarrow> TaskConfig \<Rightarrow> edit_issue option" where
  "effective_edit_issue env config =
     (if cf_editable_files config = [] then None
      else (case qe_diff env of
          Inl _ \<Rightarrow> Some DiffUnavailable
        | Inr d \<Rightarrow>
            if gd_returncode d \<noteq> 0 then Some (GitFailed (git_message d))
            else if strip (gd_stdout d) = [] then Some ZeroEdit
            else let changed = diff_changed_lines (gd_stdout d)
                 in if changed \<noteq> [] \<and> list_all (\<lambda>(path, line). is_comment_line path line) changed then Some CommentOnly else None))"

definition ends_with :: "string \<Rightarrow> string \<Rightarrow> bool" where
  "ends_with suf s = starts_with (rev suf) (rev s)"

fun check_files :: "check_env \<Rightarrow> bool \<Rightarrow> pyval list \<Rightarrow> edit_issue list res" where
  "check_files env use_checker [] = Inr []"
| "check_files env use_checker (f # fs) =
     (case f of
        PStr fname \<Rightarrow>
          bindR (if \<not> ends_with ''.py'' fname \<and> qe_dsl env \<noteq> ''ascendc'' then Inr []
                 else if \<not> qe_exists env fname then Inr [FileMissing fname]
                 else if \<not> use_checker then Inr []
                 else bindR (qe_code_ok env fname) (\<lambda>passed. Inr (if passed then [] else [CheckFailed fname])))
            (\<lambda>here. bindR (check_files env use_checker fs) (\<lambda>rest. Inr (here @ rest)))
      | _ \<Rightarrow> Inl AttributeError)"

definition check_editable_files :: "check_env \<Rightarrow> TaskConfig \<Rightarrow> edit_issue list res" where
  "check_editable_files env config = check_files env (cf_code_checker_enabled config) (cf_editable_files config)"

definition run_smoke_test :: "check_env \<Rightarrow> TaskConfig \<Rightarrow> smoke_outcome list res" where
  "run_smoke_test env config =
     (if \<not> truthy (cf_smoke_test_script config) then Inr []
      else (case cf_smoke_test_script config of
          PStr script \<Rightarrow>
            if \<not> qe_exists env script then Inr []
            else Inr (if qe_smoke env = SmokeExit 0 then [] else [qe_smoke env])
        | _ \<Rightarrow> Inl TypeError))"

text \<open>Step 1 of \<open>pipeline.py\<close>: a check that raises is an issue like any other.\<close>

definition quick_check :: "check_env \<Rightarrow> TaskConfig \<Rightarrow> edit_issue list \<times> smoke_outcome list" where
  "quick_check env config =
     (case bindR (case effective_edit_issue env config of
                    Some i \<Rightarrow> Inr [i] | None \<Rightarrow> check_editable_files env config)
             (\<lambda>file_issues. bindR (run_smoke_test env config) (\<lambda>smoke_errors. Inr (file_issues, smoke_errors))) of
        Inl _ \<Rightarrow> ([CheckCrashed], []) | Inr r \<Rightarrow> r)"

subsection \<open>What git prints\<close>

text \<open>
  The unified diff without context of a list of files with their hunks: removed lines before added
  lines, each with its sign. The texts of the index line and of a hunk header are arguments.
\<close>

record file_diff =
  fd_path :: string
  fd_index :: string
  fd_hunks :: "(string \<times> string list \<times> string list) list"

definition hunk_text :: "string \<times> string list \<times> string list \<Rightarrow> string list" where
  "hunk_text h = (case h of (pos, removed, added) \<Rightarrow>
     (''@@ '' @ pos) # map (\<lambda>l. CHR ''-'' # l) removed @ map (\<lambda>l. CHR ''+'' # l) added)"

definition file_diff_text :: "file_diff \<Rightarrow> string list" where
  "file_diff_text d = [''diff --git a/'' @ fd_path d @ '' b/'' @ fd_path d, ''index '' @ fd_index d,
     ''--- a/'' @ fd_path d, ''+++ b/'' @ fd_path d] @ concat (map hunk_text (fd_hunks d))"

definition diff_text :: "file_diff list \<Rightarrow> string" where
  "diff_text ds = concat (map (\<lambda>l. l @ [newline]) (concat (map file_diff_text ds)))"

definition file_changes :: "file_diff \<Rightarrow> (string \<times> string) list" where
  "file_changes d = concat (map (\<lambda>(_, removed, added). map (Pair (fd_path d)) (removed @ added)) (fd_hunks d))"

text \<open>Texts that keep their place: whole lines, and no content that looks like a file header.\<close>

definition one_piece :: "string \<Rightarrow> bool" where
  "one_piece l = list_all (\<lambda>c. \<not> is_break c) l"

definition plain_diff :: "file_diff \<Rightarrow> bool" where
  "plain_diff d \<longleftrightarrow> one_piece (fd_path d) \<and> one_piece (fd_index d) \<and> strip (fd_path d) = fd_path d \<and> fd_path d \<noteq> []
     \<and> (\<forall>(pos, removed, added) \<in> set (fd_hunks d). one_piece pos
          \<and> (\<forall>l \<in> set removed. one_piece l \<and> \<not> starts_with ''--'' l) \<and> (\<forall>l \<in> set added. one_piece l \<and> \<not> starts_with ''++'' l))"

lemma splitlines_line: "one_piece l \<Longrightarrow> splitlines (l @ newline # s) = l # splitlines s"
  by (induction l) (auto simp: one_piece_def is_break_def newline_def)

lemma splitlines_concat: "list_all one_piece ls \<Longrightarrow> splitlines (concat (map (\<lambda>l. l @ [newline]) ls)) = ls"
  by (induction ls) (simp_all add: splitlines_line)

lemma diff_lines_added:
  assumes "\<not> starts_with ''++'' l"
  shows "diff_lines cur ((CHR ''+'' # l) # rest) = (cur, l) # diff_lines cur rest"
proof -
  have "\<not> starts_with ''++ '' l" using assms by (cases l rule: remdups_adj.cases) auto
  then show ?thesis using assms by (simp add: diff_noise_def)
qed

lemma diff_lines_removed:
  assumes "\<not> starts_with ''--'' l"
  shows "diff_lines cur ((CHR ''-'' # l) # rest) = (cur, l) # diff_lines cur rest"
proof -
  have "\<not> starts_with ''-- '' l" using assms by (cases l rule: remdups_adj.cases) auto
  then show ?thesis using assms by (simp add: diff_noise_def)
qed

lemma diff_lines_hunk:
  assumes "\<forall>l \<in> set removed. \<not> starts_with ''--'' l" and "\<forall>l \<in> set added. \<not> starts_with ''++'' l"
  shows "diff_lines cur (hunk_text (pos, removed, added) @ rest) = map (Pair cur) (removed @ added) @ diff_lines cur rest"
proof -
  have "diff_lines cur (map (\<lambda>l. CHR ''+'' # l) added @ rest) = map (Pair cur) added @ diff_lines cur rest"
    using assms(2) by (induction added) (simp_all add: diff_lines_added del: diff_lines.simps)
  moreover have "diff_lines cur (map (\<lambda>l. CHR ''-'' # l) removed @ r) = map (Pair cur) removed @ diff_lines cur r" for r
    using assms(1) by (induction removed) (simp_all add: diff_lines_removed del: diff_lines.simps)
  ultimately show ?thesis by (simp add: hunk_text_def diff_noise_def)
qed

lemma diff_lines_hunks:
  assumes "\<forall>(pos, removed, added) \<in> set hs. (\<forall>l \<in> set removed. \<not> starts_with ''--'' l) \<and> (\<forall>l \<in> set added. \<not> starts_with ''++'' l)"
  shows "diff_lines cur (concat (map hunk_text hs) @ rest) =
     concat (map (\<lambda>(_, removed, added). map (Pair cur) (removed @ added)) hs) @ diff_lines cur rest"
  using assms by (induction hs) (auto simp: diff_lines_hunk)

lemma diff_lines_file:
  assumes "plain_diff d"
  shows "diff_lines cur (file_diff_text d @ rest) = file_changes d @ diff_lines (fd_path d) rest"
proof -
  have "strip (''b/'' @ fd_path d) = ''b/'' @ fd_path d"
  proof (rule strip_id, intro disjI2 conjI)
    show "\<not> is_space (hd (''b/'' @ fd_path d))" by (simp add: is_space_def)
    show "\<not> is_space (last (''b/'' @ fd_path d))" using assms strip_edges [of "fd_path d"] by (auto simp: plain_diff_def)
  qed
  then have p: "strip (CHR ''b'' # CHR ''/'' # fd_path d) = CHR ''b'' # CHR ''/'' # fd_path d" by simp
  have "\<forall>(pos, removed, added) \<in> set (fd_hunks d). (\<forall>l \<in> set removed. \<not> starts_with ''--'' l) \<and> (\<forall>l \<in> set added. \<not> starts_with ''++'' l)"
    using assms by (auto simp: plain_diff_def)
  from diff_lines_hunks [OF this] show ?thesis
    by (simp add: file_diff_text_def diff_noise_def p file_changes_def Let_def)
qed

lemma one_piece_file: "plain_diff d \<Longrightarrow> list_all one_piece (file_diff_text d)"
proof -
  assume d: "plain_diff d"
  have lit: "one_piece (x @ y) = (one_piece x \<and> one_piece y)" "one_piece [] = True" "one_piece (c # x) = (\<not> is_break c \<and> one_piece x)" for x y c
    by (simp_all add: one_piece_def)
  have "list_all one_piece (hunk_text h)" if "h \<in> set (fd_hunks d)" for h
  proof -
    obtain pos rem add where h: "h = (pos, rem, add)" by (cases h)
    with that d have "one_piece pos" "\<forall>l \<in> set rem. one_piece l" "\<forall>l \<in> set add. one_piece l" by (auto simp: plain_diff_def)
    then show ?thesis by (auto simp: h hunk_text_def lit is_break_def list_all_iff)
  qed
  then have "list_all one_piece (concat (map hunk_text (fd_hunks d)))" by (auto simp: list_all_iff)
  then show ?thesis using d by (simp add: file_diff_text_def lit is_break_def plain_diff_def)
qed

text \<open>
  The reader of a diff returns what git printed: for every list of files with their hunks, exactly the
  removed and added lines, in order, each with the path of its file. Needed of a changed line is that it is one line
  and that, removed, it does not start with two minus signs, or, added, with two plus signs.
\<close>

theorem diff_roundtrip:
  assumes "list_all plain_diff ds"
  shows "diff_changed_lines (diff_text ds) = concat (map file_changes ds)"
proof -
  have "diff_lines cur (concat (map file_diff_text ds)) = concat (map file_changes ds)" for cur
    using assms by (induction ds arbitrary: cur) (simp_all add: diff_lines_file)
  moreover have "list_all one_piece (concat (map file_diff_text ds))"
    using assms one_piece_file by (induction ds) simp_all
  ultimately show ?thesis by (simp add: diff_changed_lines_def diff_text_def splitlines_concat)
qed

definition one_change :: "string \<Rightarrow> string list \<Rightarrow> string list \<Rightarrow> file_diff" where
  "one_change path removed added = \<lparr>fd_path = path, fd_index = ''1..2 100644'', fd_hunks = [(''-1 +1 @@'', removed, added)]\<rparr>"

theorem diff_roundtrip_witness:
  "diff_changed_lines (diff_text [one_change ''k.py'' [''x = 1''] [''x = 2'', ''y = x''], one_change ''h.cpp'' [] [''#pragma once'']]) =
     [(''k.py'', ''x = 1''), (''k.py'', ''x = 2''), (''k.py'', ''y = x''), (''h.cpp'', ''#pragma once'')]"
proof -
  have "strip ''k.py'' = ''k.py''" "strip ''h.cpp'' = ''h.cpp''" by code_simp+
  then have "list_all plain_diff [one_change ''k.py'' [''x = 1''] [''x = 2'', ''y = x''], one_change ''h.cpp'' [] [''#pragma once'']]"
    by (simp add: plain_diff_def one_change_def one_piece_def is_break_def)
  from diff_roundtrip [OF this] show ?thesis by (simp add: file_changes_def one_change_def)
qed

text \<open>
  Edits of code that the comment rule refuses: in a C or C++ file a line that starts with an asterisk is
  taken for a comment, so an edit that only stores through a pointer is refused and rolled back as
  comment-only; and a changed line that starts with a decrement (removed) or an increment (added) is taken for
  a file header, so beside a comment it is not seen.
\<close>

theorem comment_only_refuses_code:
  "effective_edit_issue (env\<lparr>qe_diff := Inr \<lparr>gd_returncode = 0,
       gd_stdout = diff_text [one_change ''k.cpp'' [''*out = acc;''] [''*out = acc * s;'']], gd_stderr = err\<rparr>\<rparr>)
     (config\<lparr>cf_editable_files := [PStr ''k.cpp'']\<rparr>) = Some CommentOnly
   \<and> effective_edit_issue (env\<lparr>qe_diff := Inr \<lparr>gd_returncode = 0,
       gd_stdout = diff_text [one_change ''k.cpp'' [''--n;''] [''++n;'', ''// up'']], gd_stderr = err\<rparr>\<rparr>)
     (config\<lparr>cf_editable_files := [PStr ''k.cpp'']\<rparr>) = Some CommentOnly"
proof -
  have "strip (diff_text [one_change ''k.cpp'' [''*out = acc;''] [''*out = acc * s;'']]) \<noteq> []"
    "diff_changed_lines (diff_text [one_change ''k.cpp'' [''*out = acc;''] [''*out = acc * s;'']]) =
       [(''k.cpp'', ''*out = acc;''), (''k.cpp'', ''*out = acc * s;'')]"
    "is_comment_line ''k.cpp'' ''*out = acc;''" "is_comment_line ''k.cpp'' ''*out = acc * s;''"
    "strip (diff_text [one_change ''k.cpp'' [''--n;''] [''++n;'', ''// up'']]) \<noteq> []"
    "diff_changed_lines (diff_text [one_change ''k.cpp'' [''--n;''] [''++n;'', ''// up'']]) = [(''k.cpp'', ''// up'')]"
    "is_comment_line ''k.cpp'' ''// up''"
    by code_simp+
  then show ?thesis by (simp add: effective_edit_issue_def)
qed

end
