(* ===== verification/Ownership.thy ===== *)
theory Ownership
  imports Journal Baseline_Anchor
begin

text \<open>
  The ownership half of \<open>scripts/phase_machine/state_store.py\<close> and the entry and exit of a
  \<open>Task\<close> (\<open>scripts/task_handle.py\<close>). A world holds the task directories by absolute path, the
  index files by name, and the listing of \<open>ar_tasks/\<close>. The caller's session id is an argument
  (empty for a supervisor), as are the clock and the process id. Each function runs under the
  session and state locks, so it is one step.
\<close>

record world =
  tasks :: "(string, task_fs) fmap"
  session_index :: "(string, string) fmap"
  listing :: "string list"

definition put_task :: "string \<Rightarrow> task_fs \<Rightarrow> world \<Rightarrow> world" where
  "put_task td fs w = w\<lparr>tasks := fmupd td fs (tasks w)\<rparr>"

definition load_task :: "world \<Rightarrow> string \<Rightarrow> dict option" where
  "load_task w td = Option.bind (fmlookup (tasks w) td) load_state"

text \<open>A directory that does not exist has no state file.\<close>

definition task_at :: "world \<Rightarrow> string \<Rightarrow> task_fs" where
  "task_at w td = (case fmlookup (tasks w) td of None \<Rightarrow> empty_fs | Some fs \<Rightarrow> fs)"

subsection \<open>The session index\<close>

definition session_index_path :: "runtime \<Rightarrow> string \<Rightarrow> string" where
  "session_index_path rt s = take 16 (sha256_hex rt s)"

definition write_session_index :: "runtime \<Rightarrow> string \<Rightarrow> string \<Rightarrow> world \<Rightarrow> world" where
  "write_session_index rt s td w =
     (if s = [] then w else w\<lparr>session_index := fmupd (session_index_path rt s) td (session_index w)\<rparr>)"

definition read_session_index :: "runtime \<Rightarrow> string \<Rightarrow> world \<Rightarrow> string option" where
  "read_session_index rt s w =
     (if s = [] then None
      else case fmlookup (session_index w) (session_index_path rt s) of
             None \<Rightarrow> None
           | Some raw \<Rightarrow> (let td = strip raw in if td \<noteq> [] \<and> fmlookup (tasks w) td \<noteq> None then Some td else None))"

definition clear_session_index :: "runtime \<Rightarrow> string \<Rightarrow> world \<Rightarrow> world" where
  "clear_session_index rt s w =
     (if s = [] then w else w\<lparr>session_index := fmdrop (session_index_path rt s) (session_index w)\<rparr>)"

text \<open>\<open>(state.get("owner") or {}).get("session_id")\<close>.\<close>

definition owner_session :: "dict \<Rightarrow> pyval res" where
  "owner_session st = bindR (owner_of st) (\<lambda>owner. Inr (dget owner ''session_id''))"

subsection \<open>Lookup\<close>

definition iter_task_dirs :: "world \<Rightarrow> string list" where
  "iter_task_dirs w = filter (\<lambda>td. case fmlookup (tasks w) td of
      None \<Rightarrow> False | Some fs \<Rightarrow> state_file fs \<noteq> NoFile) (listing w)"

text \<open>The tasks of the listing whose owner passes a test, with their ages.\<close>

fun scan_tasks :: "real \<Rightarrow> (pyval \<Rightarrow> bool) \<Rightarrow> world \<Rightarrow> string list \<Rightarrow> (pyfloat \<times> string) list res" where
  "scan_tasks now P w [] = Inr []"
| "scan_tasks now P w (td # tds) =
     (case load_task w td of
        None \<Rightarrow> scan_tasks now P w tds
      | Some st \<Rightarrow>
          if st = fmempty then scan_tasks now P w tds
          else bindR (owner_session st) (\<lambda>sid. bindR (scan_tasks now P w tds) (\<lambda>ms.
            Inr (if P sid then (age_seconds now (dget st ''last_touched''), td) # ms else ms))))"

text \<open>The first entry of least age.\<close>

fun freshest :: "(pyfloat \<times> string) list \<Rightarrow> (pyfloat \<times> string) option" where
  "freshest [] = None"
| "freshest (x # xs) = (case freshest xs of
      None \<Rightarrow> Some x | Some y \<Rightarrow> Some (if flt (fst y) (fst x) then y else x))"

definition current_session_task_dir :: "runtime \<Rightarrow> real \<Rightarrow> string \<Rightarrow> world \<Rightarrow> (world \<times> string option) res" where
  "current_session_task_dir rt now s w =
     (if s = [] then Inr (w, None)
      else bindR (case read_session_index rt s w of
                    None \<Rightarrow> Inr (w, None)
                  | Some td \<Rightarrow> bindR (owner_session (case load_task w td of None \<Rightarrow> fmempty | Some st \<Rightarrow> st)) (\<lambda>sid.
                      if py_eq sid (PStr s) then Inr (w, Some td)
                      else Inr (clear_session_index rt s w, None))) (\<lambda>(w1, hit).
           case hit of
             Some td \<Rightarrow> Inr (w1, Some td)
           | None \<Rightarrow> bindR (scan_tasks now (\<lambda>sid. py_eq sid (PStr s)) w1 (iter_task_dirs w1)) (\<lambda>ms.
               case freshest ms of
                 None \<Rightarrow> Inr (w1, None)
               | Some (_, td) \<Rightarrow> Inr (write_session_index rt s td w1, Some td))))"

definition get_task_dir :: "runtime \<Rightarrow> real \<Rightarrow> string \<Rightarrow> string \<Rightarrow> world \<Rightarrow> (world \<times> string) res" where
  "get_task_dir rt now s env w = bindR (current_session_task_dir rt now s w) (\<lambda>(w', td).
     Inr (w', case td of Some d \<Rightarrow> (if d = [] then env else d) | None \<Rightarrow> env))"

definition find_active_task_dir :: "runtime \<Rightarrow> real \<Rightarrow> string \<Rightarrow> world \<Rightarrow> (world \<times> string option) res" where
  "find_active_task_dir rt now s w = bindR (current_session_task_dir rt now s w) (\<lambda>(w1, pinned).
     case pinned of
       Some td \<Rightarrow> Inr (w1, Some td)
     | None \<Rightarrow> bindR (scan_tasks now truthy w1 (iter_task_dirs w1)) (\<lambda>owned.
                bindR (scan_tasks now (\<lambda>_. True) w1 (iter_task_dirs w1)) (\<lambda>any_task.
                  Inr (w1, map_option snd (case freshest owned of Some x \<Rightarrow> Some x | None \<Rightarrow> freshest any_task)))))"

subsection \<open>Claim and release\<close>

definition owner_record :: "string \<Rightarrow> int \<Rightarrow> real \<Rightarrow> pyval" where
  "owner_record s pid now = PDict (fmap_of_list
     [(''session_id'', PStr s), (''pid'', PInt pid), (''claimed_at'', PTime now)])"

text \<open>The refusal: another session's id on record and a fresh heartbeat.\<close>

definition claim_refused :: "config \<Rightarrow> real \<Rightarrow> string \<Rightarrow> dict \<Rightarrow> bool res" where
  "claim_refused cfg now s st = bindR (owner_session st) (\<lambda>sid0.
     let sid = py_or sid0 (PStr []);
         same_session = (s \<noteq> [] \<and> py_eq sid (PStr s))
     in Inr (truthy sid \<and> \<not> same_session \<and> heartbeat_fresh cfg now st))"

text \<open>The task this session drove before gives up its owner.\<close>

definition release_prior :: "real \<Rightarrow> string \<Rightarrow> string option \<Rightarrow> string \<Rightarrow> world \<Rightarrow> world res" where
  "release_prior now s prior td w = (case prior of
      None \<Rightarrow> Inr w
    | Some q \<Rightarrow>
        if q = td then Inr w
        else (case (fmlookup (tasks w) q, load_task w q) of
                (Some fs, Some st) \<Rightarrow>
                  if st = fmempty then Inr w
                  else bindR (owner_session st) (\<lambda>sid.
                    Inr (if py_eq sid (PStr s) then put_task q (save_state now (fmupd ''owner'' PNone st) fs) w else w))
              | _ \<Rightarrow> Inr w))"

definition set_task_dir ::
    "runtime \<Rightarrow> config \<Rightarrow> real \<Rightarrow> int \<Rightarrow> string \<Rightarrow> bool \<Rightarrow> string \<Rightarrow> world \<Rightarrow> (world \<times> bool) res" where
  "set_task_dir rt cfg now pid s force td w = (case fmlookup (tasks w) td of
      None \<Rightarrow> Inr (w, False)
    | Some fs \<Rightarrow>
        let prior = (if s \<noteq> [] then read_session_index rt s w else None);
            st = state_or_fresh now fs
        in bindR (if force then Inr False else claim_refused cfg now s st) (\<lambda>refused.
           if refused then Inr (w, False)
           else bindR (release_prior now s prior td w) (\<lambda>w1.
             Inr (write_session_index rt s td
                    (put_task td (save_state now (fmupd ''owner'' (owner_record s pid now) st) fs) w1), True))))"

definition release_target ::
    "runtime \<Rightarrow> config \<Rightarrow> real \<Rightarrow> string \<Rightarrow> bool \<Rightarrow> bool \<Rightarrow> string \<Rightarrow> task_fs \<Rightarrow> world \<Rightarrow> (world \<times> bool) res" where
  "release_target rt cfg now s force supervisor_claim td fs w = (case load_state fs of
      None \<Rightarrow> Inr (clear_session_index rt s w, True)
    | Some st \<Rightarrow>
        if st = fmempty \<or> \<not> truthy (dget st ''owner'') then Inr (clear_session_index rt s w, True)
        else bindR (owner_session st) (\<lambda>sid0.
          let sid = py_or sid0 (PStr []);
              same_session = (s \<noteq> [] \<and> py_eq sid (PStr s))
          in if force \<or> same_session \<or> supervisor_claim \<or> \<not> heartbeat_fresh cfg now st
             then let w1 = put_task td (save_state now (fmupd ''owner'' PNone st) fs) w
                  in Inr (if s \<noteq> [] \<and> (same_session \<or> force) then clear_session_index rt s w1 else w1, True)
             else Inr (w, False)))"

definition clear_active_task ::
    "runtime \<Rightarrow> config \<Rightarrow> real \<Rightarrow> string \<Rightarrow> string option \<Rightarrow> bool \<Rightarrow> world \<Rightarrow> (world \<times> bool) res" where
  "clear_active_task rt cfg now s expected force w =
     (let has_expected = (case expected of None \<Rightarrow> False | Some td \<Rightarrow> td \<noteq> []);
          target = (if has_expected
                    then (if fmlookup (tasks w) (the expected) \<noteq> None then expected else None)
                    else read_session_index rt s w)
      in case target of
           None \<Rightarrow> Inr (clear_session_index rt s w, True)
         | Some td \<Rightarrow> (case fmlookup (tasks w) td of
               None \<Rightarrow> Inr (clear_session_index rt s w, True)
             | Some fs \<Rightarrow> release_target rt cfg now s force has_expected td fs w))"

subsection \<open>Entering and leaving a task\<close>

datatype role = AGENT | SUPERVISOR | READER

record caller =
  c_session :: string
  c_pid :: int
  c_role :: role
  c_force :: bool

text \<open>\<open>__enter__\<close>: heal, check, claim; the second component is \<open>_claimed\<close>.\<close>

definition enter_task :: "runtime \<Rightarrow> config \<Rightarrow> real \<Rightarrow> caller \<Rightarrow> string \<Rightarrow> world \<Rightarrow> world \<times> bool res" where
  "enter_task rt cfg now c td w = (case fmlookup (tasks w) td of
      None \<Rightarrow> (w, Inl (TaskError ''Not a directory''))
    | Some fs \<Rightarrow>
        if c_role c = READER then (w, Inr False)
        else (case require_state_consistency now False True fs of
                Inl e \<Rightarrow> (w, Inl e)
              | Inr (fs1, report) \<Rightarrow>
                  let w1 = put_task td fs1 w
                  in if \<not> consistent report then (w1, Inl TaskConsistencyError)
                     else if c_role c \<noteq> AGENT then (w1, Inr False)
                     else (case set_task_dir rt cfg now (c_pid c) (c_session c) (c_force c) td w1 of
                             Inl e \<Rightarrow> (w1, Inl e)
                           | Inr (w2, False) \<Rightarrow> (w2, Inl (TaskOwnershipError ''refused to claim''))
                           | Inr (w2, True) \<Rightarrow>
                               (put_task td (touch_heartbeat now (the (fmlookup (tasks w2) td))) w2, Inr True))))"

text \<open>\<open>__exit__\<close>: an exception releases what was claimed, a clean exit keeps it.\<close>

definition exit_task :: "runtime \<Rightarrow> config \<Rightarrow> real \<Rightarrow> caller \<Rightarrow> bool \<Rightarrow> bool \<Rightarrow> string \<Rightarrow> world \<Rightarrow> world" where
  "exit_task rt cfg now c claimed raised td w =
     (if raised \<and> claimed
      then (case clear_active_task rt cfg now (c_session c) (Some td) False w of
              Inl _ \<Rightarrow> w | Inr (w', _) \<Rightarrow> w')
      else w)"

definition release_task :: "runtime \<Rightarrow> config \<Rightarrow> real \<Rightarrow> caller \<Rightarrow> bool \<Rightarrow> string \<Rightarrow> world \<Rightarrow> (world \<times> bool) res" where
  "release_task rt cfg now c force td w = clear_active_task rt cfg now (c_session c) (Some td) force w"

subsection \<open>Who owns what\<close>

definition owner_is :: "world \<Rightarrow> string \<Rightarrow> string \<Rightarrow> bool" where
  "owner_is w td s = (case load_task w td of None \<Rightarrow> False | Some st \<Rightarrow> owner_session st = Inr (PStr s))"

lemma sanitize_eq_PStr: "sanitize_floats v = PStr s \<longleftrightarrow> v = PStr s"
  by (cases v) auto

lemma sanitize_eq_PDict: "sanitize_floats v = PDict d \<Longrightarrow> \<exists>e. v = PDict e \<and> d = sanitize_dict e"
  by (cases v) (auto simp: sanitize_dict_def split: if_splits)

lemma owner_session_PStr:
  "owner_session st = Inr (PStr s) \<longleftrightarrow> (\<exists>d. dget st ''owner'' = PDict d \<and> dget d ''session_id'' = PStr s)"
proof
  assume "owner_session st = Inr (PStr s)"
  then obtain d where d: "py_or (dget st ''owner'') (PDict fmempty) = PDict d" "dget d ''session_id'' = PStr s"
    by (auto simp: owner_session_def owner_of_def Let_def split: pyval.splits)
  then have "d \<noteq> fmempty" by auto
  with d show "\<exists>d. dget st ''owner'' = PDict d \<and> dget d ''session_id'' = PStr s"
    by (auto simp: py_or_def split: if_splits)
next
  assume "\<exists>d. dget st ''owner'' = PDict d \<and> dget d ''session_id'' = PStr s"
  then obtain d where d: "dget st ''owner'' = PDict d" "dget d ''session_id'' = PStr s" by blast
  then have "d \<noteq> fmempty" by auto
  with d show "owner_session st = Inr (PStr s)" by (simp add: owner_session_def owner_of_def py_or_def)
qed

lemma owner_session_saved:
  "owner_session (fmupd ''last_touched'' t (sanitize_dict st)) = Inr (PStr s) \<longleftrightarrow> owner_session st = Inr (PStr s)"
  by (auto simp: owner_session_PStr sanitize_eq_PStr sanitize_dict_def [symmetric] dest: sanitize_eq_PDict)

lemma owner_is_put:
  "owner_is (put_task td fs w) td' s =
     (if td' = td then (case load_state fs of None \<Rightarrow> False | Some st \<Rightarrow> owner_session st = Inr (PStr s)) else owner_is w td' s)"
  by (simp add: owner_is_def put_task_def load_task_def)

lemma owner_is_put_save:
  "owner_is (put_task td (save_state now st fs) w) td' s =
     (if td' = td then owner_session st = Inr (PStr s) else owner_is w td' s)"
  by (simp add: owner_is_put owner_session_saved)

lemma owner_session_cleared: "owner_session (fmupd ''owner'' PNone st) \<noteq> Inr (PStr s)"
  by (simp add: owner_session_PStr)

lemma owner_session_claimed: "owner_session (fmupd ''owner'' (owner_record s pid now) st) = Inr (PStr s') \<longleftrightarrow> s' = s"
  by (auto simp: owner_session_PStr owner_record_def dget_def [of "fmap_of_list _"] fmlookup_of_list)

lemma index_frame [simp]:
  "owner_is (write_session_index rt s td w) = owner_is w" "owner_is (clear_session_index rt s w) = owner_is w"
  "tasks (write_session_index rt s td w) = tasks w" "tasks (clear_session_index rt s w) = tasks w"
  "listing (write_session_index rt s td w) = listing w" "listing (clear_session_index rt s w) = listing w"
  by (simp_all add: fun_eq_iff owner_is_def load_task_def write_session_index_def clear_session_index_def)

lemma put_task_frame [simp]: "session_index (put_task td fs w) = session_index w" "listing (put_task td fs w) = listing w"
  "fmlookup (tasks (put_task td fs w)) td' = (if td' = td then Some fs else fmlookup (tasks w) td')"
  by (simp_all add: put_task_def)

lemma session_index_write:
  "s \<noteq> [] \<Longrightarrow> fmlookup (session_index (write_session_index rt s td w)) (session_index_path rt s') =
     (if session_index_path rt s' = session_index_path rt s then Some td else fmlookup (session_index w) (session_index_path rt s'))"
  by (simp add: write_session_index_def)

lemma session_index_clear:
  "fmlookup (session_index (clear_session_index rt s w)) k =
     (if s \<noteq> [] \<and> k = session_index_path rt s then None else fmlookup (session_index w) k)"
  by (simp add: clear_session_index_def)

subsection \<open>One task per session\<close>

text \<open>
  The invariant \<open>set_task_dir\<close> promises: a task that names a session as its owner is the one the index
  of that session points to. It is stated for a set of session ids that the shortened hash keeps
  apart, over directories with plain paths.
\<close>

definition plain_paths :: "world \<Rightarrow> bool" where
  "plain_paths w \<longleftrightarrow> (\<forall>td. fmlookup (tasks w) td \<noteq> None \<longrightarrow> td \<noteq> [] \<and> strip td = td)"

definition single_task :: "runtime \<Rightarrow> string set \<Rightarrow> world \<Rightarrow> bool" where
  "single_task rt S w \<longleftrightarrow> plain_paths w
     \<and> (\<forall>s \<in> S. \<forall>td. owner_is w td s \<longrightarrow> fmlookup (session_index w) (session_index_path rt s) = Some td)"

lemma owner_is_task: "owner_is w td s \<Longrightarrow> fmlookup (tasks w) td \<noteq> None"
  by (auto simp: owner_is_def load_task_def split: option.splits bind_splits)

lemma single_task_index:
  assumes "single_task rt S w" and "s \<in> S" and "s \<noteq> []" and "owner_is w td s"
  shows "read_session_index rt s w = Some td"
proof -
  have "fmlookup (session_index w) (session_index_path rt s) = Some td" using assms by (auto simp: single_task_def)
  moreover have "td \<noteq> []" "strip td = td" "fmlookup (tasks w) td \<noteq> None"
    using owner_is_task [OF assms(4)] assms(1) by (auto simp: single_task_def plain_paths_def)
  ultimately show ?thesis using assms(3) by (simp add: read_session_index_def)
qed

lemma plain_paths_put: "plain_paths w \<Longrightarrow> fmlookup (tasks w) td \<noteq> None \<Longrightarrow> plain_paths (put_task td fs w)"
  by (auto simp: plain_paths_def)

lemma plain_paths_index: "plain_paths (write_session_index rt s td w) = plain_paths w"
  "plain_paths (clear_session_index rt s w) = plain_paths w"
  by (simp_all add: plain_paths_def)

lemma release_priorE:
  assumes "release_prior now s prior td w = Inr w'"
  obtains (kept) "w' = w" "\<And>q. prior = Some q \<Longrightarrow> q \<noteq> td \<Longrightarrow> \<not> owner_is w q s"
  | (freed) q fs st where "prior = Some q" "q \<noteq> td" "fmlookup (tasks w) q = Some fs"
      "w' = put_task q (save_state now (fmupd ''owner'' PNone st) fs) w"
proof (cases "\<exists>q fs st. prior = Some q \<and> q \<noteq> td \<and> fmlookup (tasks w) q = Some fs
    \<and> w' = put_task q (save_state now (fmupd ''owner'' PNone st) fs) w")
  case True
  then show thesis using freed by blast
next
  case False
  have e: "owner_session fmempty \<noteq> Inr (PStr s)" by (simp add: owner_session_PStr)
  have "w' = w" using assms False
    by (auto simp: release_prior_def split: option.splits if_splits)
  moreover have "\<not> owner_is w q s" if "prior = Some q" "q \<noteq> td" for q
  proof
    assume "owner_is w q s"
    then obtain fs st where st: "fmlookup (tasks w) q = Some fs" "load_task w q = Some st" "owner_session st = Inr (PStr s)"
      using owner_is_task by (fastforce simp: owner_is_def split: option.splits)
    moreover have "st \<noteq> fmempty" using st(3) e by auto
    ultimately show False using assms False that by (auto simp: release_prior_def py_eq_PStr_iff)
  qed
  ultimately show thesis by (rule kept)
qed

lemma release_prior_owner:
  assumes "release_prior now s prior td w = Inr w'"
  shows "owner_is w' td' s' \<longrightarrow> owner_is w td' s'" and "session_index w' = session_index w"
    and "plain_paths w \<longrightarrow> plain_paths w'" and "prior = Some q \<and> q \<noteq> td \<longrightarrow> \<not> owner_is w' q s"
    and "fmlookup (tasks w') td = fmlookup (tasks w) td"
  by (rule release_priorE [OF assms]; simp add: owner_is_put_save owner_session_cleared plain_paths_put)+

text \<open>A successful claim, taken apart.\<close>

lemma set_task_dirE:
  assumes "set_task_dir rt cfg now pid s force td w = Inr (w', True)"
  obtains fs w1 where "fmlookup (tasks w) td = Some fs"
    and "force \<or> claim_refused cfg now s (state_or_fresh now fs) = Inr False"
    and "release_prior now s (if s \<noteq> [] then read_session_index rt s w else None) td w = Inr w1"
    and "w' = write_session_index rt s td
       (put_task td (save_state now (fmupd ''owner'' (owner_record s pid now) (state_or_fresh now fs)) fs) w1)"
  using assms by (auto simp: set_task_dir_def Let_def split: option.splits if_splits)

lemma set_task_dir_False: "set_task_dir rt cfg now pid s force td w = Inr (w', False) \<Longrightarrow> w' = w"
  by (auto simp: set_task_dir_def Let_def split: option.splits if_splits)

lemma claim_owner:
  assumes "set_task_dir rt cfg now pid s force td w = Inr (w', True)"
  shows "owner_is w' td s'' \<longleftrightarrow> s'' = s" and "td' \<noteq> td \<Longrightarrow> owner_is w' td' s'' \<Longrightarrow> owner_is w td' s''"
    and "s \<noteq> [] \<Longrightarrow> read_session_index rt s w = Some q \<Longrightarrow> q \<noteq> td \<Longrightarrow> \<not> owner_is w' q s"
proof -
  from assms obtain fs w1 where w1: "release_prior now s (if s \<noteq> [] then read_session_index rt s w else None) td w = Inr w1"
    and w': "w' = write_session_index rt s td
       (put_task td (save_state now (fmupd ''owner'' (owner_record s pid now) (state_or_fresh now fs)) fs) w1)"
    by (elim set_task_dirE)
  have o: "owner_is w' x y = (if x = td then y = s else owner_is w1 x y)" for x y
    by (simp add: w' owner_is_put_save owner_session_claimed)
  show "owner_is w' td s'' \<longleftrightarrow> s'' = s" by (simp add: o)
  show "owner_is w td' s''" if "td' \<noteq> td" "owner_is w' td' s''"
    using that release_prior_owner(1) [OF w1, of td' s''] by (simp add: o)
  show "\<not> owner_is w' q s" if "s \<noteq> []" "read_session_index rt s w = Some q" "q \<noteq> td"
    using that release_prior_owner(4) [OF w1, of q] by (simp add: o)
qed

lemma claim_single:
  assumes "set_task_dir rt cfg now pid s force td w = Inr (w', True)" and "single_task rt S w" and "[] \<notin> S"
    and "s = [] \<or> s \<in> S" and "inj_on (session_index_path rt) S"
  shows "single_task rt S w'"
proof -
  from assms(1) obtain fs w1 where fs: "fmlookup (tasks w) td = Some fs"
    and w1: "release_prior now s (if s \<noteq> [] then read_session_index rt s w else None) td w = Inr w1"
    and w': "w' = write_session_index rt s td
       (put_task td (save_state now (fmupd ''owner'' (owner_record s pid now) (state_or_fresh now fs)) fs) w1)"
    by (rule set_task_dirE) (rule that)
  have "plain_paths w1" using release_prior_owner(3) [OF w1] assms(2) by (simp add: single_task_def)
  then have pp: "plain_paths w'"
    unfolding w' plain_paths_index by (rule plain_paths_put) (simp add: fs release_prior_owner(5) [OF w1])
  have "fmlookup (session_index w') (session_index_path rt s'') = Some td''"
    if s'': "s'' \<in> S" and o: "owner_is w' td'' s''" for s'' td''
  proof (cases "td'' = td")
    case True
    then have "s'' = s" using claim_owner(1) [OF assms(1)] o by simp
    moreover from this have "s \<noteq> []" using s'' assms(3) by metis
    ultimately show ?thesis unfolding w' using True by (simp add: session_index_write)
  next
    case False
    have before: "owner_is w td'' s''" using claim_owner(2) [OF assms(1) False o] .
    then have idx: "fmlookup (session_index w) (session_index_path rt s'') = Some td''"
      using assms(2) s'' by (auto simp: single_task_def)
    have "s'' \<noteq> s"
    proof
      assume "s'' = s"
      then have ne: "s \<noteq> []" using s'' assms(3) by metis
      then have "read_session_index rt s w = Some td''"
        using single_task_index [OF assms(2) s'' _ before] \<open>s'' = s\<close> by simp
      from claim_owner(3) [OF assms(1) ne this False] o \<open>s'' = s\<close> show False by simp
    qed
    then have "s \<noteq> [] \<longrightarrow> session_index_path rt s'' \<noteq> session_index_path rt s"
      using assms(4) s'' inj_onD [OF assms(5), of s'' s] by metis
    then show ?thesis using idx release_prior_owner(2) [OF w1]
      unfolding w' by (cases "s = []") (simp_all add: session_index_write write_session_index_def)
  qed
  with pp show ?thesis by (simp add: single_task_def)
qed

text \<open>A release: the named task loses its owner or nothing changes but the caller's index.\<close>

lemma release_targetE:
  assumes "release_target rt cfg now s force claim td fs w = Inr (w', ok)" and "fmlookup (tasks w) td = Some fs"
  obtains (refused) "w' = w" "\<not> ok" "\<not> force" "\<not> claim"
  | (unowned) "ok" "w' = clear_session_index rt s w" "\<And>s'. \<not> owner_is w td s'"
  | (freed) st where "ok" "load_state fs = Some st"
      "w' = put_task td (save_state now (fmupd ''owner'' PNone st) fs) w"
  | (freed_own) st where "ok" "load_state fs = Some st" "s \<noteq> []"
      "w' = clear_session_index rt s (put_task td (save_state now (fmupd ''owner'' PNone st) fs) w)"
proof -
  have lt: "load_task w td = load_state fs" using assms(2) by (simp add: load_task_def)
  have un: "\<not> owner_is w td s'" if st: "load_state fs = Some st" and "\<not> truthy (dget st ''owner'')" for st s'
  proof
    assume "owner_is w td s'"
    then obtain d where "dget st ''owner'' = PDict d" "dget d ''session_id'' = PStr s'"
      unfolding owner_is_def lt st by (auto simp: owner_session_PStr)
    moreover from this have "d \<noteq> fmempty" by auto
    ultimately show False using that(2) by simp
  qed
  show thesis
  proof (cases "load_state fs")
    case None
    then show thesis using assms(1) unowned lt by (simp add: release_target_def owner_is_def)
  next
    case (Some st)
    show thesis
    proof (cases "truthy (dget st ''owner'')")
      case False
      then show thesis using assms(1) unowned un [OF Some False] Some by (simp add: release_target_def)
    next
      case True
      then have "st \<noteq> fmempty" by auto
      with True Some assms(1) show thesis
        using refused freed [OF _ Some] freed_own [OF _ Some]
        by (auto simp: release_target_def Let_def split: if_splits)
    qed
  qed
qed

lemma release_single:
  assumes "release_target rt cfg now s force claim td fs w = Inr (w', ok)" and "fmlookup (tasks w) td = Some fs"
    and "single_task rt S w" and "s = [] \<or> s \<in> S" and "inj_on (session_index_path rt) S"
    and "\<And>td'. owner_is w td' s \<Longrightarrow> td' = td"
  shows "single_task rt S w'"
proof -
  have pp: "plain_paths w" using assms(3) by (simp add: single_task_def)
  have idx: "fmlookup (session_index (clear_session_index rt s w0)) (session_index_path rt s'') = Some td''"
    if "s'' \<in> S" "owner_is w td'' s''" "s'' \<noteq> s \<or> s = []" "session_index w0 = session_index w" for s'' td'' w0
    using that assms(3,4) inj_onD [OF assms(5), of s'' s] by (auto simp: single_task_def session_index_clear)
  from assms(1,2) show ?thesis
  proof (cases rule: release_targetE)
    case refused
    then show ?thesis using assms(3) by simp
  next
    case unowned
    have "\<not> owner_is w td'' s" for td'' using assms(6) unowned(3) by blast
    then show ?thesis using idx [OF _ _ _ refl] pp unowned(2) assms(3)
      by (auto simp: single_task_def plain_paths_index)
  next
    case (freed st)
    then show ?thesis using assms(3) pp plain_paths_put [OF pp, of td] assms(2)
      by (auto simp: single_task_def owner_is_put_save owner_session_cleared)
  next
    case (freed_own st)
    let ?w = "put_task td (save_state now (fmupd ''owner'' PNone st) fs) w"
    have o: "owner_is ?w td'' s'' \<Longrightarrow> owner_is w td'' s'' \<and> td'' \<noteq> td" for td'' s''
      by (auto simp: owner_is_put_save owner_session_cleared split: if_splits)
    have "fmlookup (session_index w') (session_index_path rt s'') = Some td''" if "s'' \<in> S" "owner_is w' td'' s''" for s'' td''
    proof -
      have *: "owner_is w td'' s''" "td'' \<noteq> td" using that(2) o freed_own(4) by auto
      then have "s'' \<noteq> s" using assms(6) by blast
      then show ?thesis using idx [OF that(1) *(1), of ?w] freed_own(4) by simp
    qed
    then show ?thesis using plain_paths_put [OF pp, of td] assms(2) freed_own(4)
      by (auto simp: single_task_def plain_paths_index)
  qed
qed

lemma clear_single:
  assumes "clear_active_task rt cfg now s expected force w = Inr (w', ok)"
    and "single_task rt S w" and "[] \<notin> S" and "s = [] \<or> s \<in> S" and "inj_on (session_index_path rt) S"
    and "s \<noteq> [] \<Longrightarrow> (case expected of None \<Rightarrow> True | Some td \<Rightarrow> td = [] \<or> (\<forall>td'. owner_is w td' s \<longrightarrow> td' = td))"
  shows "single_task rt S w'"
proof -
  have only: "td' = td" if "s \<noteq> []" "read_session_index rt s w = Some td" "owner_is w td' s" for td td'
    using single_task_index [OF assms(2) _ that(1,3)] assms(4) that(1,2) by auto
  have pp: "plain_paths w" using assms(2) by (simp add: single_task_def)
  have cleared: "single_task rt S (clear_session_index rt s w)" if "\<And>td. \<not> owner_is w td s \<or> s = []"
    using that assms(2,4,5) pp
    by (auto simp: single_task_def plain_paths_index session_index_clear dest: inj_onD)
  show ?thesis
  proof (cases "expected = None \<or> expected = Some []")
    case True
    then have w': "(case read_session_index rt s w of
         None \<Rightarrow> Inr (clear_session_index rt s w, True)
       | Some td \<Rightarrow> (case fmlookup (tasks w) td of
               None \<Rightarrow> Inr (clear_session_index rt s w, True)
             | Some fs \<Rightarrow> release_target rt cfg now s force False td fs w)) = Inr (w', ok)"
      using assms(1) by (auto simp: clear_active_task_def Let_def split: option.splits)
    show ?thesis
    proof (cases "read_session_index rt s w")
      case None
      then have "\<not> owner_is w td s \<or> s = []" for td
        using single_task_index [OF assms(2)] assms(4) by fastforce
      then show ?thesis using cleared w' None by simp
    next
      case (Some td)
      then have "s \<noteq> []" by (auto simp: read_session_index_def)
      moreover obtain fs where fs: "fmlookup (tasks w) td = Some fs"
        using Some by (auto simp: read_session_index_def Let_def split: option.splits if_splits)
      ultimately show ?thesis using w' Some release_single [OF _ fs assms(2,4,5)] only [OF _ Some] by simp
    qed
  next
    case False
    then obtain td where td: "expected = Some td" "td \<noteq> []" by auto
    have mine: "td' = td" if "s \<noteq> []" "owner_is w td' s" for td' using assms(6) td that by simp
    show ?thesis
    proof (cases "fmlookup (tasks w) td")
      case None
      then have "\<not> owner_is w td' s \<or> s = []" for td'
        using mine owner_is_task by fastforce
      then show ?thesis using cleared assms(1) td None by (simp add: clear_active_task_def)
    next
      case (Some fs)
      have r: "release_target rt cfg now s force True td fs w = Inr (w', ok)"
        using assms(1) td Some by (simp add: clear_active_task_def)
      show ?thesis
      proof (cases "s = []")
        case False
        then show ?thesis using release_single [OF r Some assms(2,4,5)] mine by blast
      next
        case True
        from r Some show ?thesis
          by (cases rule: release_targetE)
             (use assms(2) True pp plain_paths_put [OF pp, of td] Some in
               \<open>auto simp: single_task_def clear_session_index_def owner_is_put_save owner_session_cleared\<close>)
      qed
    qed
  qed
qed

end
