(* ===== verification/Engine.thy ===== *)
theory Engine
  imports Edit_Check Task_Handle Ownership
begin

text \<open>
  The scripts an agent runs (\<open>scripts/engine/pipeline.py\<close>, \<open>baseline.py\<close>, \<open>create_plan.py\<close>,
  \<open>scripts/resume.py\<close>) on the world of task directories, with the evaluation client
  (\<open>task_config/eval_client.py\<close>) between them and the kernel evaluation, which is a parameter. A
  script returns its exit code; an exception nobody catches exits with 1. What a script prints is left out.
\<close>

subsection \<open>The evaluation client\<close>

record kernel_report =
  kr_outcome :: pyval
  kr_metrics :: dict
  kr_error :: pyval
  kr_raw_output_tail :: string
  kr_error_source :: pyval
  kr_fail_report :: "string option"
  kr_failure_signals :: dict

datatype device_arg = NoDevice | Device int | Devices "int list"

record engine_env =
  e_rt :: runtime
  e_cfg :: config
  e_now :: real
  e_caller :: caller
  e_config :: "string \<Rightarrow> TaskConfig option res"
  e_check :: check_env
  e_eval_kernel :: "device_arg \<Rightarrow> string option \<Rightarrow> pyval \<Rightarrow> kernel_report res"
  e_git :: git_env
  e_tree_clean :: "string \<Rightarrow> bool"
  e_abspath :: "string \<Rightarrow> string"

definition resolve_worker_url :: "string list \<Rightarrow> TaskConfig \<Rightarrow> string option" where
  "resolve_worker_url worker_urls config =
     map_option strip (find (\<lambda>u. strip u \<noteq> []) (if worker_urls \<noteq> [] then worker_urls else cf_worker_urls config))"

definition resolve_device_arg :: "int option \<Rightarrow> TaskConfig \<Rightarrow> string option \<Rightarrow> device_arg" where
  "resolve_device_arg device_id config worker_url = (case device_id of
      Some d \<Rightarrow> Device d
    | None \<Rightarrow> (case cf_devices config of
        d # ds \<Rightarrow> (if worker_url \<noteq> None then Devices (d # ds) else Device d)
      | [] \<Rightarrow> if worker_url \<noteq> None then NoDevice else Device 0))"

definition infra_result :: EvalResult where
  "infra_result = \<lparr>er_outcome = INFRA_FAIL, er_metrics = fmempty, er_error = PStr ''eval raised'', er_raw_output = [],
     er_error_source = PStr ''infra'', er_fail_report = None, er_failure_signals = fmempty\<rparr>"

definition report_outcome :: "pyval \<Rightarrow> EvalOutcome" where
  "report_outcome v = (case outcome_of v of Some oc \<Rightarrow> oc | None \<Rightarrow> INFRA_FAIL)"

definition run_eval :: "engine_env \<Rightarrow> TaskConfig \<Rightarrow> int option \<Rightarrow> string list \<Rightarrow> pyval \<Rightarrow> EvalResult" where
  "run_eval env config device_id worker_urls step =
     (let worker_url = resolve_worker_url worker_urls config
      in case e_eval_kernel env (resolve_device_arg device_id config worker_url) worker_url step of
           Inl _ \<Rightarrow> infra_result
         | Inr raw \<Rightarrow> \<lparr>er_outcome = report_outcome (kr_outcome raw), er_metrics = kr_metrics raw, er_error = kr_error raw,
             er_raw_output = kr_raw_output_tail raw, er_error_source = kr_error_source raw,
             er_fail_report = kr_fail_report raw, er_failure_signals = kr_failure_signals raw\<rparr>)"

text \<open>\<open>eval_result_to_dict\<close>: the document the recording operations consume.\<close>

definition eval_result_to_dict :: "EvalResult \<Rightarrow> dict" where
  "eval_result_to_dict r =
     (let d = fmap_of_list [(''outcome'', PStr (outcome_value (er_outcome r))), (''correctness'', PBool (correctness r)),
            (''metrics'', PDict (er_metrics r)), (''error'', er_error r), (''error_source'', er_error_source r)]
      in if \<not> correctness r \<or> truthy (er_error r)
         then let d1 = fmupd ''raw_output_tail'' (PStr (er_raw_output r)) (fmupd ''failure_signals'' (PDict (er_failure_signals r)) d)
              in (case er_fail_report r of
                    Some p \<Rightarrow> if p \<noteq> [] then fmupd ''fail_report'' (PStr p) d1 else d1 | None \<Rightarrow> d1)
         else d)"

subsection \<open>The decision policy of a configuration\<close>

text \<open>
  What the recording operations read of a \<open>TaskConfig\<close>, at the types its fields are annotated with;
  a value that contradicts its annotation is outside the model and stands for a \<open>TypeError\<close>.
\<close>

definition policy_config :: "runtime \<Rightarrow> TaskConfig \<Rightarrow> task_config res" where
  "policy_config rt c = (case (cf_primary_metric c, num_of (cf_improvement_threshold c)) of
      (PStr metric, Some threshold) \<Rightarrow>
        Inr \<lparr>tc_name = py_str rt (cf_name c), tc_primary_metric = metric, tc_lower_is_better = truthy (cf_lower_is_better c),
             tc_improvement_threshold = threshold,
             tc_constraints = map (\<lambda>(k, oper, v). (k, py_str rt oper, v)) (cf_constraints c),
             tc_max_rounds = cf_max_rounds c\<rparr>
    | _ \<Rightarrow> Inl TypeError)"

definition task_policy :: "engine_env \<Rightarrow> string \<Rightarrow> task_config option res" where
  "task_policy env td = bindR (e_config env td) (\<lambda>c. case c of
      None \<Rightarrow> Inr None
    | Some config \<Rightarrow> bindR (policy_config (e_rt env) config) (\<lambda>p. Inr (Some p)))"

subsection \<open>The with block\<close>

definition with_task_open :: "engine_env \<Rightarrow> bool \<Rightarrow> string \<Rightarrow> 'a task_op \<Rightarrow> world \<Rightarrow> world \<times> 'a res" where
  "with_task_open env force td body w =
     (let c = (e_caller env)\<lparr>c_role := AGENT, c_force := force\<rparr>; leave = exit_task (e_rt env) (e_cfg env) (e_now env) c
      in case enter_task (e_rt env) (e_cfg env) (e_now env) c td w of
           (w1, Inl e) \<Rightarrow> (w1, Inl e)
         | (w1, Inr claimed) \<Rightarrow>
             (case body (task_at w1 td) of
                (fs, Inl e) \<Rightarrow> (leave claimed True td (put_task td fs w1), Inl e)
              | (fs, Inr x) \<Rightarrow> (leave claimed False td (put_task td fs w1), Inr x)))"

subsection \<open>pipeline.py\<close>

definition settle_exit :: "engine_env \<Rightarrow> int task_op" where
  "settle_exit env fs = (case settle_round (e_rt env) (e_cfg env) (e_now env) fs of
      (fs', Inl (TaskCorrupted _)) \<Rightarrow> (fs', Inr 1)
    | (fs', Inl e) \<Rightarrow> (fs', Inl e)
    | (fs', Inr _) \<Rightarrow> (fs', Inr 0))"

definition round_eval :: "engine_env \<Rightarrow> TaskConfig \<Rightarrow> task_fs \<Rightarrow> EvalResult res" where
  "round_eval env config fs = bindR (case load_progress fs of None \<Rightarrow> Inl TaskNotInitialized | Some p \<Rightarrow> next_round p)
     (\<lambda>step. Inr (run_eval env config None [] step))"

definition pipeline_round :: "engine_env \<Rightarrow> TaskConfig \<Rightarrow> int task_op" where
  "pipeline_round env config fs =
     (let active = get_active_item fs;
          desc = PStr (case active of Some it \<Rightarrow> pi_description it | None \<Rightarrow> ''optimization round'');
          plan_item = (case active of Some it \<Rightarrow> PStr (pi_id it) | None \<Rightarrow> PNone)
      in if quick_check (e_check env) config \<noteq> ([], []) then (rollback_edit fs, Inr 0)
         else (case round_eval env config fs of
            Inl _ \<Rightarrow> (rollback_edit fs, Inr 1)
          | Inr result \<Rightarrow>
              if er_outcome result = INFRA_FAIL then (rollback_edit fs, Inr 0)
              else reading (policy_config (e_rt env) config) (\<lambda>policy.
                case task_record_round (e_rt env) (e_now env) (Some policy) (e_git env) (eval_result_to_dict result) desc plan_item fs of
                  (fs1, Inl e) \<Rightarrow> (fs1, Inl e)
                | (fs1, Inr kd) \<Rightarrow>
                    if py_eq (dget kd ''decision'') (PStr ''ERROR'') then (fs1, Inr 1) else settle_exit env fs1) fs))"

definition pipeline_body :: "engine_env \<Rightarrow> string \<Rightarrow> int task_op" where
  "pipeline_body env td fs = reading (require_phase EDIT ''pipeline'' fs) (\<lambda>_.
     if truthy (pending_settle fs) then settle_exit env fs
     else reading (e_config env td) (\<lambda>c. case c of None \<Rightarrow> (fs, Inr 1) | Some config \<Rightarrow> pipeline_round env config fs) fs) fs"

definition pipeline_exit :: "int res \<Rightarrow> int" where
  "pipeline_exit r = (case r of
      Inr rc \<Rightarrow> rc
    | Inl (TaskOwnershipError _) \<Rightarrow> 2
    | Inl (TaskPhaseError _) \<Rightarrow> 2
    | Inl _ \<Rightarrow> 1)"

definition pipeline_main :: "engine_env \<Rightarrow> string list \<Rightarrow> world \<Rightarrow> world \<times> int" where
  "pipeline_main env argv w = (case filter (\<lambda>a. a \<noteq> ''--trace'') argv of
      [] \<Rightarrow> (w, 1)
    | a # _ \<Rightarrow> let td = e_abspath env a in
        (case with_task_open env False td (pipeline_body env td) w of (w', r) \<Rightarrow> (w', pipeline_exit r)))"

subsection \<open>baseline.py\<close>

definition baseline_body :: "engine_env \<Rightarrow> int option \<Rightarrow> string list \<Rightarrow> string \<Rightarrow> int task_op" where
  "baseline_body env device_id worker_urls td fs = (case baseline_preflight (e_now env) fs of
      (fs1, Inl e) \<Rightarrow> (fs1, Inl e)
    | (fs1, Inr ALREADY_DONE) \<Rightarrow> (case activate (e_now env) False fs1 of
          (fs2, Inl e) \<Rightarrow> (fs2, Inl e) | (fs2, Inr _) \<Rightarrow> (fs2, Inr (baseline_exit_code fs2)))
    | (fs1, Inr PROCEED) \<Rightarrow>
        let result = (case e_config env td of
              Inr (Some config) \<Rightarrow> run_eval env config device_id worker_urls (PInt 0) | _ \<Rightarrow> infra_result)
        in reading (task_policy env td) (\<lambda>policy.
             record_baseline (e_rt env) (e_now env) policy (e_git env) (eval_result_to_dict result) fs1) fs1
    | (fs1, Inr _) \<Rightarrow> (fs1, Inl (TaskCorrupted ''seed row and state disagree'')))"

definition baseline_exit :: "int res \<Rightarrow> int" where
  "baseline_exit r = (case r of
      Inr rc \<Rightarrow> rc
    | Inl TaskConsistencyError \<Rightarrow> 4
    | Inl (TaskOwnershipError _) \<Rightarrow> 2
    | Inl (TaskPhaseError _) \<Rightarrow> 2
    | Inl (TaskCorrupted _) \<Rightarrow> 4
    | Inl _ \<Rightarrow> 1)"

text \<open>The state directory is made before anything is checked, the task directory with it.\<close>

definition make_state_dir :: "string \<Rightarrow> world \<Rightarrow> world" where
  "make_state_dir td w = (if fmlookup (tasks w) td = None then put_task td empty_fs w else w)"

definition baseline_main :: "engine_env \<Rightarrow> string \<Rightarrow> int option \<Rightarrow> string \<Rightarrow> world \<Rightarrow> world \<times> int" where
  "baseline_main env dir device_id worker_url w =
     (let td = e_abspath env dir; w0 = make_state_dir td w in
      case e_config env td of
        Inr (Some _) \<Rightarrow> (case with_task_open env False td (baseline_body env device_id (stripped_parts worker_url) td) w0 of
            (w', r) \<Rightarrow> (w', baseline_exit r))
      | _ \<Rightarrow> (w0, 1))"

subsection \<open>create_plan.py\<close>

definition create_plan_main :: "engine_env \<Rightarrow> bool \<Rightarrow> xml option \<Rightarrow> string \<Rightarrow> world \<Rightarrow> world \<times> int" where
  "create_plan_main env require_skill tree dir w = (case accepted_items require_skill tree of
      Inl _ \<Rightarrow> (w, 1)
    | Inr items \<Rightarrow> (case with_task_open env False (e_abspath env dir) (commit_plan (e_rt env) (e_now env) items) w of
        (w', Inr _) \<Rightarrow> (w', 0) | (w', Inl _) \<Rightarrow> (w', 1)))"

subsection \<open>resume.py\<close>

definition validate_resumable :: "task_fs \<Rightarrow> bool" where
  "validate_resumable fs = (case load_progress fs of
      None \<Rightarrow> read_phase fs = BASELINE
    | Some p \<Rightarrow> {''task'', ''eval_rounds'', ''max_rounds''} \<subseteq> set progress_fields
        \<and> \<not> (plan_file fs \<noteq> None \<and> has_pending_items fs \<and> validate_plan fs \<noteq> None))"

text \<open>\<open>sys.exit(1)\<close> inside the block leaves through \<open>__exit__\<close> like any exception.\<close>

definition system_exit :: py_error where
  "system_exit = RuntimeError ''SystemExit''"

definition resume_body :: "engine_env \<Rightarrow> string \<Rightarrow> unit task_op" where
  "resume_body env td fs =
     (if \<not> validate_resumable fs then (fs, Inl system_exit)
      else let fs1 = (if edit_marker fs \<and> e_tree_clean env td then drop_marker fs else fs)
           in reading (task_summary (e_cfg env) (e_now env) fs1) (\<lambda>_. (fs1, Inr ())) fs1)"

definition resume_main :: "engine_env \<Rightarrow> bool \<Rightarrow> string option \<Rightarrow> world \<Rightarrow> world \<times> int" where
  "resume_main env force dir w =
     (case (case dir of
              Some d \<Rightarrow> Inr (w, e_abspath env d)
            | None \<Rightarrow> bindR (find_active_task_dir (e_rt env) (e_now env) (c_session (e_caller env)) w) (\<lambda>(w1, found).
                Inr (w1, case found of Some d \<Rightarrow> d | None \<Rightarrow> []))) of
        Inl _ \<Rightarrow> (w, 1)
      | Inr (w1, td) \<Rightarrow>
          if td = [] \<or> fmlookup (tasks w1) td = None \<or> e_config env td = Inr None then (w1, 1)
          else (case with_task_open env force td (resume_body env td) w1 of (w2, Inr _) \<Rightarrow> (w2, 0) | (w2, Inl _) \<Rightarrow> (w2, 1)))"

end
