(* ===== verification/Shell_Text.thy ===== *)
theory Shell_Text
  imports Py_Text
begin

text \<open>
  Two pieces of the Python library the command gate rests on: \<open>shlex.split\<close> in POSIX mode, and a
  backtracking matcher for regular expressions. The matcher returns what is left of the input for
  every way to match, in the order the engine of \<open>re\<close> tries them.
\<close>

subsection \<open>\<open>shlex.split(s, posix=True, comments=False)\<close>\<close>

datatype lex_state = Blank | Word | Single | Double | EscapeWord | EscapeDouble

definition squote :: char where
  "squote = CHR 0x27"

definition dquote :: char where
  "dquote = CHR 0x22"

definition backslash :: char where
  "backslash = CHR 0x5C"

definition shlex_white :: "char \<Rightarrow> bool" where
  "shlex_white c = (c = CHR '' '' \<or> c = CHR 0x09 \<or> c = CHR 0x0D \<or> c = CHR 0x0A)"

fun shlex_run :: "lex_state \<Rightarrow> string \<Rightarrow> string \<Rightarrow> string list option" where
  "shlex_run st tok [] = (case st of
      Blank \<Rightarrow> Some []
    | Word \<Rightarrow> Some [tok]
    | _ \<Rightarrow> None)"
| "shlex_run st tok (c # cs) = (case st of
      Blank \<Rightarrow> if shlex_white c then shlex_run Blank [] cs
        else if c = backslash then shlex_run EscapeWord [] cs
        else if c = squote then shlex_run Single [] cs
        else if c = dquote then shlex_run Double [] cs
        else shlex_run Word [c] cs
    | Word \<Rightarrow> if shlex_white c then map_option (\<lambda>ws. tok # ws) (shlex_run Blank [] cs)
        else if c = squote then shlex_run Single tok cs
        else if c = dquote then shlex_run Double tok cs
        else if c = backslash then shlex_run EscapeWord tok cs
        else shlex_run Word (tok @ [c]) cs
    | Single \<Rightarrow> if c = squote then shlex_run Word tok cs else shlex_run Single (tok @ [c]) cs
    | Double \<Rightarrow> if c = dquote then shlex_run Word tok cs
        else if c = backslash then shlex_run EscapeDouble tok cs
        else shlex_run Double (tok @ [c]) cs
    | EscapeWord \<Rightarrow> shlex_run Word (tok @ [c]) cs
    | EscapeDouble \<Rightarrow> shlex_run Double (tok @ (if c = backslash \<or> c = dquote then [c] else [backslash, c])) cs)"

definition shlex_split :: "string \<Rightarrow> string list option" where
  "shlex_split s = shlex_run Blank [] s"

subsection \<open>Regular expressions\<close>

datatype rx =
    Sym "char \<Rightarrow> bool"
  | Lit string
  | Cat "rx list"
  | Or "rx list"
  | Rep rx
  | Maybe rx

text \<open>The first occurrence of each result, so that the order of preference is kept.\<close>

definition uniq :: "'a list \<Rightarrow> 'a list" where
  "uniq xs = rev (remdups (rev xs))"

text \<open>Greedy repetition over a matcher; an empty iteration is not repeated.\<close>

function rep_rests :: "(string \<Rightarrow> string list) \<Rightarrow> string \<Rightarrow> string list" where
  "rep_rests f s = concat (map (rep_rests f) (filter (\<lambda>t. length t < length s) (f s))) @ [s]"
  by pat_completeness auto
termination by (relation "measure (\<lambda>(f, s). length s)") auto

declare rep_rests.simps [simp del]

fun cat_rests :: "(string \<Rightarrow> string list) list \<Rightarrow> string \<Rightarrow> string list" where
  "cat_rests [] s = [s]"
| "cat_rests (f # fs) s = uniq (concat (map (cat_rests fs) (f s)))"

fun rests :: "rx \<Rightarrow> string \<Rightarrow> string list" where
  "rests (Sym P) s = (case s of [] \<Rightarrow> [] | c # cs \<Rightarrow> if P c then [cs] else [])"
| "rests (Lit l) s = (if starts_with l s then [drop (length l) s] else [])"
| "rests (Cat rs) s = cat_rests (map rests rs) s"
| "rests (Or rs) s = uniq (concat (map (\<lambda>r. rests r s) rs))"
| "rests (Rep r) s = uniq (rep_rests (rests r) s)"
| "rests (Maybe r) s = rests r s @ [s]"

definition Rep1 :: "rx \<Rightarrow> rx" where
  "Rep1 r = Cat [r, Rep r]"

definition chars :: "string \<Rightarrow> rx" where
  "chars l = Sym (\<lambda>c. c \<in> set l)"

abbreviation white :: rx where
  "white \<equiv> Sym is_space"

abbreviation nonwhite :: rx where
  "nonwhite \<equiv> Sym (\<lambda>c. \<not> is_space c)"

abbreviation digit :: rx where
  "digit \<equiv> Sym is_digit"

end
