(* ===== verification/Phase_Policy.thy ===== *)
theory Phase_Policy
  imports Shell_Text Plan_Parser
begin

text \<open>
  The command and edit gates of the phase machine (\<open>scripts/phase_machine/phase_policy.py\<close>): the
  classifier of a command string, the table of scripts per phase, and the two checks. The texts of the
  rejections are left out.
\<close>

subsection \<open>Canonical script invocations\<close>

definition name_start :: "char \<Rightarrow> bool" where
  "name_start c = (let n = (of_char c :: nat) in 65 \<le> n \<and> n \<le> 90 \<or> n = 95 \<or> 97 \<le> n \<and> n \<le> 122)"

definition common_py_flags :: rx where
  "common_py_flags = Or [
     Cat [Lit ''-'', Rep1 (chars ''OuBdESIqs'')],
     Cat [Lit ''-X'', Or [Cat [Rep1 white, Rep1 nonwhite], Rep1 nonwhite]],
     Cat [Lit ''-W'', Or [Cat [Rep1 white, Rep1 nonwhite], Rep1 nonwhite]]]"

definition launcher :: rx where
  "launcher = Or [
     Cat [Lit ''py'', Rep (Cat [Rep1 white,
        Or [Cat [Lit ''-'', Rep1 digit, Maybe (Cat [Lit ''.'', Rep1 digit])], common_py_flags]])],
     Cat [Lit ''python'', Maybe (Cat [Rep1 digit, Maybe (Cat [Lit ''.'', Rep1 digit])]),
        Rep (Cat [Rep1 white, common_py_flags])]]"

definition invocation_prefix :: rx where
  "invocation_prefix = Cat [Rep white,
     Rep (Cat [Sym name_start, Rep (Sym is_word), Lit ''='', Rep1 nonwhite, Rep1 white]),
     launcher, Rep1 white, Maybe (Lit ''./''), Lit ''scripts/'']"

definition plain_arg_char :: "char \<Rightarrow> bool" where
  "plain_arg_char c = (\<not> is_space c \<and> c \<notin> set ''&|;()<>'' \<and> c \<noteq> CHR 0x60)"

definition script_arg :: rx where
  "script_arg = Or [
     Cat [Sym (\<lambda>c. c = dquote), Rep (Sym (\<lambda>c. c \<noteq> dquote)), Sym (\<lambda>c. c = dquote)],
     Cat [Sym (\<lambda>c. c = squote), Rep (Sym (\<lambda>c. c \<noteq> squote)), Sym (\<lambda>c. c = squote)],
     Rep1 (Sym plain_arg_char)]"

definition redirection :: rx where
  "redirection = Or [
     Cat [Maybe digit, Lit ''>'', Maybe (Lit ''>''), Rep white, Rep1 nonwhite],
     Cat [Maybe digit, Lit ''<'', Rep white, Rep1 nonwhite],
     Lit ''2>&1'', Lit ''1>&2'',
     Cat [Lit ''&>'', Maybe (Lit ''>''), Rep white, Rep1 nonwhite]]"

definition invocation_suffix :: rx where
  "invocation_suffix = Cat [Rep (Cat [Rep1 white, script_arg]), Rep (Cat [Rep1 white, redirection]), Rep white]"

text \<open>\<open>[A-Za-z_]\w*\.py\b\<close>, with what follows it.\<close>

definition script_basename :: "string \<Rightarrow> (string \<times> string) option" where
  "script_basename s = (case s of
      [] \<Rightarrow> None
    | c # cs \<Rightarrow>
        let w = takeWhile is_word cs; rest = dropWhile is_word cs
        in if name_start c \<and> starts_with ''.py'' rest \<and> (case drop 3 rest of [] \<Rightarrow> True | d # _ \<Rightarrow> \<not> is_word d)
           then Some (c # w @ ''.py'', drop 3 rest) else None)"

text \<open>\<open>_CANONICAL_AR_RE.match\<close>: the presence of \<open>engine/\<close> and the basename of the first match.\<close>

definition canonical_matches :: "string \<Rightarrow> (bool \<times> string) list" where
  "canonical_matches s = concat (map (\<lambda>r1.
     concat (map (\<lambda>(eng, r2). case script_basename r2 of
         None \<Rightarrow> []
       | Some (nm, r3) \<Rightarrow> if [] \<in> set (rests invocation_suffix r3) then [(eng, nm)] else [])
       ((if starts_with ''engine/'' r1 then [(True, drop 7 r1)] else []) @ [(False, r1)])))
     (rests invocation_prefix s))"

definition canonical_ar :: "string \<Rightarrow> (bool \<times> string) option" where
  "canonical_ar s = (case canonical_matches s of [] \<Rightarrow> None | m # _ \<Rightarrow> Some m)"

text \<open>\<open>_CANONICAL_LOCATION\<close>: true for scripts under \<open>engine/\<close>.\<close>

definition canonical_location :: "(string \<times> bool) list" where
  "canonical_location = [(''baseline.py'', True), (''create_plan.py'', True), (''parse_args.py'', True), (''pipeline.py'', True),
     (''dashboard.py'', False), (''resume.py'', False), (''scaffold.py'', False)]"

subsection \<open>Read-only segments\<close>

definition safe_readonly_arg :: "string \<Rightarrow> bool" where
  "safe_readonly_arg a = (a \<noteq> ''--output'' \<and> \<not> starts_with ''--output='' a)"

definition find_effect_actions :: "string list" where
  "find_effect_actions = [''-delete'', ''-exec'', ''-execdir'', ''-ok'', ''-okdir'', ''-fprint'', ''-fprint0'', ''-fprintf'', ''-fls'']"

definition safe_find_arg :: "string \<Rightarrow> bool" where
  "safe_find_arg a = list_all (\<lambda>action. a \<noteq> action \<and> \<not> starts_with (action @ ''='') a) find_effect_actions"

fun has_redirect :: "bool \<Rightarrow> bool \<Rightarrow> string \<Rightarrow> bool" where
  "has_redirect in_s in_d [] = False"
| "has_redirect in_s in_d (c # cs) =
     (if c = backslash \<and> \<not> in_s \<and> cs \<noteq> [] then has_redirect in_s in_d (tl cs)
      else if c = squote \<and> \<not> in_d then has_redirect (\<not> in_s) in_d cs
      else if c = dquote \<and> \<not> in_s then has_redirect in_s (\<not> in_d) cs
      else \<not> in_s \<and> \<not> in_d \<and> (c = CHR ''<'' \<or> c = CHR ''>'') \<or> has_redirect in_s in_d cs)"

definition has_unquoted_redirect :: "string \<Rightarrow> bool" where
  "has_unquoted_redirect s = has_redirect False False s"

definition readonly_heads :: "string list" where
  "readonly_heads = [''ls'', ''cat'', ''head'', ''tail'', ''wc'', ''grep'', ''echo'', ''pwd'']"

definition readonly_git_ops :: "string list" where
  "readonly_git_ops = [''log'', ''diff'', ''status'', ''show'', ''rev-parse'', ''blame'']"

definition git_branch_listing_flags :: "string list" where
  "git_branch_listing_flags = [''--list'', ''--show-current'', ''-a'', ''-r'', ''-v'', ''-vv'']"

definition readonly_words :: "string list \<Rightarrow> bool" where
  "readonly_words tokens = (case tokens of
      [] \<Rightarrow> False
    | prog # args \<Rightarrow>
        if prog = ''git'' then
          (case args of [] \<Rightarrow> False
           | sub # rest \<Rightarrow>
               if sub = ''branch'' then list_all (\<lambda>a. a \<in> set git_branch_listing_flags) rest
               else sub \<in> set readonly_git_ops \<and> list_all safe_readonly_arg rest)
        else if prog = ''export'' \<and> args \<noteq> [] then starts_with ''AR_TASK_DIR='' (args ! 0) \<and> length args = 1
        else if prog = ''find'' then list_all safe_find_arg args
        else prog \<in> set readonly_heads \<and> list_all safe_readonly_arg args)"

definition readonly_segment :: "string \<Rightarrow> bool" where
  "readonly_segment seg = (let s = strip seg in
     s \<noteq> [] \<and> \<not> has_unquoted_redirect s
     \<and> (case shlex_split s of None \<Rightarrow> False | Some tokens \<Rightarrow> readonly_words tokens))"

text \<open>\<open>_split_chain\<close>: the current segment is accumulated in order.\<close>

definition last_nonspace :: "string \<Rightarrow> char option" where
  "last_nonspace cur = (case dropWhile is_space (rev cur) of [] \<Rightarrow> None | c # _ \<Rightarrow> Some c)"

fun split_chain :: "bool \<Rightarrow> bool \<Rightarrow> string \<Rightarrow> string \<Rightarrow> string list" where
  "split_chain in_s in_d cur [] = [cur]"
| "split_chain in_s in_d cur (c # cs) =
     (if c = backslash \<and> \<not> in_s \<and> cs \<noteq> [] then split_chain in_s in_d (cur @ [c, hd cs]) (tl cs)
      else if c = squote \<and> \<not> in_d then split_chain (\<not> in_s) in_d (cur @ [c]) cs
      else if c = dquote \<and> \<not> in_s then split_chain in_s (\<not> in_d) (cur @ [c]) cs
      else if in_s \<or> in_d then split_chain in_s in_d (cur @ [c]) cs
      else if cs \<noteq> [] \<and> (c = CHR ''&'' \<and> hd cs = CHR ''&'' \<or> c = CHR ''|'' \<and> hd cs = CHR ''|'')
        then cur # split_chain in_s in_d [] (tl cs)
      else if c = CHR '';'' \<or> c = CHR ''|'' then cur # split_chain in_s in_d [] cs
      else if c = CHR ''&'' then
        (if last_nonspace cur = Some (CHR ''>'') \<or> last_nonspace cur = Some (CHR ''<'') \<or> cs \<noteq> [] \<and> hd cs = CHR ''>''
         then split_chain in_s in_d (cur @ [c]) cs
         else cur # split_chain in_s in_d [] cs)
      else split_chain in_s in_d (cur @ [c]) cs)"

subsection \<open>The classifier\<close>

datatype CommandShape = AR string | LIFECYCLE string | READONLY | OTHER

definition lifecycle_scripts :: "string list" where
  "lifecycle_scripts = [''dashboard.py'', ''parse_args.py'', ''scaffold.py'', ''resume.py'']"

definition normalize :: "string \<Rightarrow> string" where
  "normalize cmd = map (\<lambda>c. if c = backslash then CHR ''/'' else c) cmd"

definition segments :: "string \<Rightarrow> string list" where
  "segments cmd = filter (\<lambda>s. strip s \<noteq> []) (split_chain False False [] cmd)"

definition classify :: "string \<Rightarrow> CommandShape" where
  "classify cmd =
     (if contains ''$('' cmd \<or> CHR 0x60 \<in> set cmd then OTHER
      else (case canonical_ar (normalize cmd) of
          Some (has_engine, nm) \<Rightarrow>
            if map_of canonical_location nm = Some has_engine
            then (if nm \<in> set lifecycle_scripts then LIFECYCLE nm else AR nm)
            else if segments cmd \<noteq> [] \<and> list_all readonly_segment (segments cmd) then READONLY else OTHER
        | None \<Rightarrow> if segments cmd \<noteq> [] \<and> list_all readonly_segment (segments cmd) then READONLY else OTHER))"

definition parse_canonical_ar :: "string \<Rightarrow> string option" where
  "parse_canonical_ar cmd = (case classify cmd of AR nm \<Rightarrow> Some nm | LIFECYCLE nm \<Rightarrow> Some nm | _ \<Rightarrow> None)"

definition is_single_foreground_ar_invocation :: "string \<Rightarrow> string \<Rightarrow> bool" where
  "is_single_foreground_ar_invocation cmd script = (parse_canonical_ar cmd = Some script)"

subsection \<open>Script names in a command\<close>

text \<open>\<open>\bpython(?:\d+(?:\.\d+)?)?\b\<close> anywhere; the argument says whether a word character precedes.\<close>

definition at_boundary :: "bool \<Rightarrow> string \<Rightarrow> bool" where
  "at_boundary prev_word s = (prev_word \<noteq> (case s of [] \<Rightarrow> False | c # _ \<Rightarrow> is_word c))"

definition python_version :: rx where
  "python_version = Cat [Lit ''python'', Maybe (Cat [Rep1 digit, Maybe (Cat [Lit ''.'', Rep1 digit])])]"

fun has_py_launcher :: "bool \<Rightarrow> string \<Rightarrow> bool" where
  "has_py_launcher prev_word [] = False"
| "has_py_launcher prev_word (c # cs) =
     (at_boundary prev_word (c # cs) \<and> list_ex (at_boundary True) (rests python_version (c # cs))
      \<or> has_py_launcher (is_word c) cs)"

text \<open>\<open>\bscripts/((?:engine/)?[A-Za-z_]\w*\.py)\b\<close>, with what follows it; then all of them, left to right.\<close>

definition script_shape :: "bool \<Rightarrow> string \<Rightarrow> (string \<times> string) option" where
  "script_shape prev_word s =
     (if at_boundary prev_word s \<and> starts_with ''scripts/'' s
      then let r = drop 8 s in
        (case (if starts_with ''engine/'' r then script_basename (drop 7 r) else None) of
           Some m \<Rightarrow> Some m
         | None \<Rightarrow> script_basename r)
      else None)"

lemma script_basename_shorter: "script_basename s = Some (nm, r) \<Longrightarrow> length r < length s"
  by (auto simp: script_basename_def Let_def split: list.splits if_splits)
     (metis diff_le_self length_drop length_dropWhile_le less_Suc_eq_le order.trans)+

lemma script_shape_shorter: "script_shape b s = Some (nm, r) \<Longrightarrow> length r < length s"
  by (auto simp: script_shape_def Let_def split: if_splits option.splits dest!: script_basename_shorter)

function script_names :: "bool \<Rightarrow> string \<Rightarrow> string list" where
  "script_names prev_word s = (case script_shape prev_word s of
      Some (nm, r) \<Rightarrow> nm # script_names True r
    | None \<Rightarrow> (case s of [] \<Rightarrow> [] | c # cs \<Rightarrow> script_names (is_word c) cs))"
  by pat_completeness auto
termination by (relation "measure (\<lambda>(b, s). length s)") (auto dest: script_shape_shorter)

declare script_names.simps [simp del]

definition parse_script_names :: "string \<Rightarrow> string list" where
  "parse_script_names cmd =
     (if has_py_launcher False (normalize cmd) then script_names False (normalize cmd) else [])"

subsection \<open>The checks\<close>

definition ar_allowed_by_phase :: "phase \<Rightarrow> string list" where
  "ar_allowed_by_phase ph = (case ph of
      BASELINE \<Rightarrow> [''baseline.py'']
    | DIAGNOSE \<Rightarrow> [''create_plan.py''] | PLAN \<Rightarrow> [''create_plan.py''] | REPLAN \<Rightarrow> [''create_plan.py'']
    | EDIT \<Rightarrow> [''pipeline.py'']
    | _ \<Rightarrow> [])"

definition check_bash :: "phase \<Rightarrow> string \<Rightarrow> bool" where
  "check_bash ph cmd =
     (\<not> contains ''git commit'' cmd
      \<and> (case classify cmd of
           LIFECYCLE _ \<Rightarrow> True
         | READONLY \<Rightarrow> True
         | AR nm \<Rightarrow> nm \<in> set (ar_allowed_by_phase ph)
         | OTHER \<Rightarrow> False))"

text \<open>\<open>^\.ar_state/diagnose_v\d+\.md$\<close>; the dollar sign also matches before a final newline.\<close>

definition is_diagnose_artifact :: "string \<Rightarrow> bool" where
  "is_diagnose_artifact p =
     (starts_with ''.ar_state/diagnose_v'' p
      \<and> (let r = drop 20 p; rest = dropWhile is_digit r
         in takeWhile is_digit r \<noteq> [] \<and> (rest = ''.md'' \<or> rest = ''.md'' @ [newline])))"

definition check_edit :: "phase \<Rightarrow> string \<Rightarrow> string list \<Rightarrow> diagnose_action option \<Rightarrow> bool \<Rightarrow> bool" where
  "check_edit ph rel editable_files action pending_settle =
     (if starts_with ''.ar_state/'' rel then
        (if rel = ''.ar_state/plan_items.xml'' then
           (if ph = PLAN \<or> ph = REPLAN then True
            else if ph = DIAGNOSE then action = Some DIAGNOSIS_READY \<or> action = Some MANUAL_FALLBACK
            else ph = EDIT \<and> pending_settle)
         else if is_diagnose_artifact rel then ph = DIAGNOSE
         else False)
      else ph = EDIT \<and> rel \<in> set editable_files)"

subsection \<open>Splitting keeps the quoting\<close>

text \<open>A prefix that leaves the scanner in a given quoting state.\<close>

definition leads :: "string \<Rightarrow> bool \<Rightarrow> bool \<Rightarrow> bool" where
  "leads cur in_s in_d \<longleftrightarrow>
     (\<forall>r. has_redirect False False (cur @ r) = (has_redirect False False cur \<or> has_redirect in_s in_d r))"

lemma quote_chars [simp]:
  "squote \<noteq> backslash" "backslash \<noteq> squote" "dquote \<noteq> backslash" "backslash \<noteq> dquote" "squote \<noteq> dquote" "dquote \<noteq> squote"
  by (simp_all add: squote_def dquote_def backslash_def)

lemma operator_chars [simp]:
  "c \<in> set ''&|;<>'' \<Longrightarrow> c \<noteq> backslash" "c \<in> set ''&|;<>'' \<Longrightarrow> c \<noteq> squote" "c \<in> set ''&|;<>'' \<Longrightarrow> c \<noteq> dquote"
  by (auto simp: squote_def dquote_def backslash_def)

lemma leads_Nil: "leads [] False False"
  by (simp add: leads_def)

lemma leads_step:
  assumes "leads cur in_s in_d" and "\<And>r. has_redirect in_s in_d (x @ r) = (has_redirect in_s in_d x \<or> has_redirect in_s' in_d' r)"
  shows "leads (cur @ x) in_s' in_d'"
  unfolding leads_def
proof
  fix r
  have "has_redirect False False (cur @ x @ r) = (has_redirect False False cur \<or> has_redirect in_s in_d (x @ r))"
    using assms(1) by (simp only: leads_def)
  moreover have "has_redirect False False (cur @ x) = (has_redirect False False cur \<or> has_redirect in_s in_d x)"
    using assms(1) by (simp only: leads_def)
  ultimately show "has_redirect False False ((cur @ x) @ r) = (has_redirect False False (cur @ x) \<or> has_redirect in_s' in_d' r)"
    using assms(2) by auto
qed

lemma split_chain_redirect:
  assumes "leads cur in_s in_d" and "has_redirect False False cur \<or> has_redirect in_s in_d s"
  shows "\<exists>seg \<in> set (split_chain in_s in_d cur s). has_redirect False False seg"
  using assms
proof (induction in_s in_d cur s rule: split_chain.induct)
  case (1 in_s in_d cur)
  then show ?case by simp
next
  case (2 in_s in_d cur c cs)
  have one: "leads (cur @ [c]) in_s' in_d'" if "\<And>r. has_redirect in_s in_d (c # r) = (has_redirect in_s in_d [c] \<or> has_redirect in_s' in_d' r)"
    for in_s' in_d' using leads_step [OF "2.prems"(1), of "[c]"] that by simp
  have keep: "has_redirect False False (cur @ [c]) \<longleftrightarrow> has_redirect False False cur \<or> has_redirect in_s in_d [c]"
    using "2.prems"(1) by (simp only: leads_def)
  consider (esc) "c = backslash" "\<not> in_s" "cs \<noteq> []" | (last) "c = backslash" "\<not> in_s" "cs = []"
    | (quote) "c = squote" "\<not> in_d" | (dq) "c = dquote" "\<not> in_s"
    | (quoted) "c = backslash \<longrightarrow> in_s" "c = squote \<longrightarrow> in_d" "c = dquote \<longrightarrow> in_s" "in_s \<or> in_d"
    | (pair) "c \<noteq> backslash" "c \<noteq> squote" "c \<noteq> dquote" "\<not> in_s" "\<not> in_d" "cs \<noteq> []"
        "c = CHR ''&'' \<and> hd cs = CHR ''&'' \<or> c = CHR ''|'' \<and> hd cs = CHR ''|''"
    | (plain) "c \<noteq> backslash" "c \<noteq> squote" "c \<noteq> dquote" "\<not> in_s" "\<not> in_d"
        "\<not> (cs \<noteq> [] \<and> (c = CHR ''&'' \<and> hd cs = CHR ''&'' \<or> c = CHR ''|'' \<and> hd cs = CHR ''|''))"
    by blast
  then show ?case
  proof cases
    case esc
    then obtain d ds where cs: "cs = d # ds" by (cases cs) auto
    have l: "leads (cur @ [c, d]) in_s in_d" by (rule leads_step [OF "2.prems"(1)]) (simp_all add: esc)
    have "has_redirect False False (cur @ [c, d]) \<or> has_redirect in_s in_d ds"
      using "2.prems" esc cs by (simp add: leads_def)
    then show ?thesis using "2.IH"(1) l esc cs by simp
  next
    case last
    have "split_chain in_s in_d cur (c # cs) = [cur @ [c]]" using last by (simp add: backslash_def)
    moreover have "has_redirect False False (cur @ [c])" using "2.prems"(2) last keep by simp
    ultimately show ?thesis by simp
  next
    case quote
    then have n: "c \<noteq> backslash" by simp
    have l: "leads (cur @ [c]) (\<not> in_s) in_d" by (rule one) (simp add: n quote)
    have "has_redirect False False (cur @ [c]) \<or> has_redirect (\<not> in_s) in_d cs" using "2.prems"(2) keep by (simp add: n quote)
    then show ?thesis using "2.IH"(2) l n quote by simp
  next
    case dq
    then have n: "c \<noteq> backslash" "c \<noteq> squote" by simp_all
    have l: "leads (cur @ [c]) in_s (\<not> in_d)" by (rule one) (simp add: n dq)
    have "has_redirect False False (cur @ [c]) \<or> has_redirect in_s (\<not> in_d) cs" using "2.prems"(2) keep by (simp add: n dq)
    then show ?thesis using "2.IH"(3) l n dq by simp
  next
    case quoted
    then have e: "\<not> (c = backslash \<and> \<not> in_s \<and> cs \<noteq> [])" "\<not> (c = squote \<and> \<not> in_d)" "\<not> (c = dquote \<and> \<not> in_s)" by auto
    have h: "has_redirect in_s in_d (c # r) = has_redirect in_s in_d r" for r using quoted by auto
    have l: "leads (cur @ [c]) in_s in_d" by (rule one) (simp only: h, simp)
    have "has_redirect False False (cur @ [c]) \<or> has_redirect in_s in_d cs" using "2.prems"(2) keep h by blast
    then show ?thesis using "2.IH"(4) [OF e quoted(4) l] e quoted(4) by (simp only: split_chain.simps if_False if_True)
  next
    case pair
    then obtain d ds where cs: "cs = d # ds" by (cases cs) auto
    have n: "d \<noteq> backslash" "d \<noteq> squote" "d \<noteq> dquote" "d \<noteq> CHR ''<''" "d \<noteq> CHR ''>''" "c \<noteq> CHR ''<''" "c \<noteq> CHR ''>''"
      using pair(7) cs by (auto simp: squote_def dquote_def backslash_def)
    have eq: "split_chain in_s in_d cur (c # cs) = cur # split_chain False False [] ds" using pair cs by simp
    have "has_redirect False False cur \<or> has_redirect False False ds" using "2.prems"(2) pair(1-5) n cs by simp
    then show ?thesis unfolding eq using "2.IH"(5) pair cs leads_Nil by auto
  next
    case plain
    have l: "leads (cur @ [c]) False False" by (rule one) (simp add: plain(1-5))
    have h: "has_redirect False False (cur @ [c]) \<or> has_redirect False False cs" using "2.prems"(2) keep plain(1-5) by auto
    have cut: ?thesis if "split_chain in_s in_d cur (c # cs) = cur # split_chain False False [] cs" "c \<noteq> CHR ''<''" "c \<noteq> CHR ''>''"
      "has_redirect False False cs \<Longrightarrow> \<exists>seg \<in> set (split_chain False False [] cs). has_redirect False False seg"
      using "2.prems"(2) that plain(1-5) by auto
    show ?thesis
    proof (cases "c = CHR '';'' \<or> c = CHR ''|''")
      case True
      have eq: "split_chain in_s in_d cur (c # cs) = cur # split_chain False False [] cs"
        unfolding split_chain.simps(2) using plain True by (simp only: if_False if_True simp_thms)
      show ?thesis using True leads_Nil "2.IH"(6) plain by (intro cut [OF eq]) auto
    next
      case nosep: False
      show ?thesis
      proof (cases "c = CHR ''&'' \<and> \<not> (last_nonspace cur = Some (CHR ''>'') \<or> last_nonspace cur = Some (CHR ''<'') \<or> cs \<noteq> [] \<and> hd cs = CHR ''>'')")
        case True
        have eq: "split_chain in_s in_d cur (c # cs) = cur # split_chain False False [] cs"
          unfolding split_chain.simps(2) using plain True nosep by (simp only: if_False if_True simp_thms)
        show ?thesis using True leads_Nil "2.IH"(8) plain nosep by (intro cut [OF eq]) auto
      next
        case False
        have eq: "split_chain in_s in_d cur (c # cs) = split_chain False False (cur @ [c]) cs"
          unfolding split_chain.simps(2) using plain False nosep by (simp only: if_False if_True simp_thms) auto
        have s: "in_s = False" "in_d = False" using plain by simp_all
        show ?thesis unfolding eq using "2.IH"(7,9) [unfolded s] l h plain False nosep unfolding s by blast
      qed
    qed
  qed
qed

lemma has_redirect_space: "is_space sp \<Longrightarrow> has_redirect in_s in_d (s @ [sp]) \<Longrightarrow> has_redirect in_s in_d s"
  by (induction in_s in_d s rule: has_redirect.induct)
     (auto simp: is_space_def Let_def split: if_splits)

lemma has_redirect_strip: "has_redirect False False s \<Longrightarrow> has_redirect False False (strip s)"
proof -
  have l: "has_redirect False False (lstrip s)" if "has_redirect False False s" for s
    using that by (induction s) (auto simp: lstrip_def is_space_def squote_def dquote_def backslash_def Let_def split: if_splits)
  have "has_redirect False False (rev (dropWhile is_space r))" if "has_redirect False False (rev r)" for r
    using that by (induction r) (auto dest: has_redirect_space)
  from this [of "rev (lstrip s)"] show "has_redirect False False s \<Longrightarrow> has_redirect False False (strip s)"
    using l by (simp add: strip_def rstrip_def)
qed

text \<open>
  A command the gate takes for read-only has no redirection outside quotes, however its quotes,
  escapes and chain operators are arranged: the test on each segment covers the whole command.
\<close>

theorem readonly_no_redirect:
  assumes "classify cmd = READONLY"
  shows "\<not> has_unquoted_redirect cmd"
proof
  assume "has_unquoted_redirect cmd"
  then obtain seg where seg: "seg \<in> set (split_chain False False [] cmd)" "has_redirect False False seg"
    using split_chain_redirect [OF leads_Nil, of cmd] by (auto simp: has_unquoted_redirect_def)
  then have r: "has_redirect False False (strip seg)" by (simp add: has_redirect_strip)
  then have "strip seg \<noteq> []" by auto
  then have "seg \<in> set (segments cmd)" using seg(1) by (simp add: segments_def)
  then have "readonly_segment seg"
    using assms by (auto simp: classify_def list_all_iff split: if_splits option.splits)
  then show False using r by (simp add: readonly_segment_def has_unquoted_redirect_def Let_def)
qed

theorem readonly_no_redirect_witness:
  "classify ''git diff \"a>b\" | head -3'' = READONLY \<and> \<not> has_unquoted_redirect ''git diff \"a>b\" | head -3''"
proof -
  have "classify ''git diff \"a>b\" | head -3'' = READONLY" by code_simp
  then show ?thesis using readonly_no_redirect by blast
qed


end
