(* ===== verification/Hooks.thy ===== *)
theory Hooks
  imports Phase_Policy Ownership Task_Handle
begin

text \<open>
  The decision layer between an agent and the phase machine (\<open>scripts/decide.py\<close>): what a tool call,
  its completion and a stop are answered, and what they change on disk. The texts shown to the agent are
  left out; what is kept of a decision is the reason for a block, the todo list and the instruction
  for the next turn. Configuration, git and path resolution are functions of the environment.
\<close>

record hook_env =
  h_rt :: runtime
  h_cfg :: config
  h_now :: real
  h_pid :: int
  h_session :: string
  h_task_env :: string
  h_abspath :: "string \<Rightarrow> string"
  h_editable :: "string \<Rightarrow> string list option"
  h_git_root :: "string \<Rightarrow> bool"
  h_git_dirty :: "string \<Rightarrow> string \<Rightarrow> bool"
  h_tree_clean :: "string \<Rightarrow> bool"
  h_aliases :: "string list"

datatype AgentEvent =
    PreShell string | PreEdit string | PreSubagent string
  | PostShell string | PostEdit string | PostSubagent
  | Stop string | OtherEvent

datatype block_reason =
    ScriptDoesNotExist string | LibraryNotCli string | UnknownScript string
  | NeedDiagnosis | NotSingleForeground | CommandRefused | EditRefused | OutsideTask
  | UncommittedChange string | ArtifactReady | AttemptsExhausted | WrongSubagent | CannotStop phase

datatype next_turn = RetryDiagnosis int | ManualPlanning

record todo =
  todo_content :: string
  todo_active_form :: string
  todo_in_progress :: bool

record Decision =
  d_block :: "block_reason option"
  d_context :: "next_turn option"
  d_todos :: "todo list option"

definition proceed :: Decision where
  "proceed = \<lparr>d_block = None, d_context = None, d_todos = None\<rparr>"

definition blocked :: "block_reason \<Rightarrow> Decision" where
  "blocked r = proceed\<lparr>d_block := Some r\<rparr>"

type_synonym hook = "world \<Rightarrow> world \<times> Decision res"

text \<open>Reading that may raise, then the rest of a handler.\<close>

definition check_then :: "'a res \<Rightarrow> ('a \<Rightarrow> world \<times> Decision res) \<Rightarrow> hook" where
  "check_then r k w = (case r of Inl e \<Rightarrow> (w, Inl e) | Inr x \<Rightarrow> k x)"

lemma check_then_simps [simp]: "check_then (Inl e) k w = (w, Inl e)" "check_then (Inr x) k w = k x"
  by (simp_all add: check_then_def)

definition touch_task :: "real \<Rightarrow> string \<Rightarrow> world \<Rightarrow> world" where
  "touch_task now td w = put_task td (touch_heartbeat now (task_at w td)) w"

text \<open>The task of the session with its heartbeat bumped, or nothing to do.\<close>

definition with_task :: "hook_env \<Rightarrow> (string \<Rightarrow> hook) \<Rightarrow> hook" where
  "with_task h k w = check_then (get_task_dir (h_rt h) (h_now h) (h_session h) (h_task_env h) w) (\<lambda>(w1, td).
     if td = [] then (w1, Inr proceed) else k td (touch_task (h_now h) td w1)) w"

definition has_state_file :: "world \<Rightarrow> string \<Rightarrow> bool" where
  "has_state_file w td = (state_file (task_at w td) \<noteq> NoFile)"

definition has_pending_settle :: "task_fs \<Rightarrow> bool" where
  "has_pending_settle fs = (case load_state fs of None \<Rightarrow> False | Some st \<Rightarrow> truthy (dget st ''pending_settle''))"

subsection \<open>Before a shell command\<close>

definition blessed_scripts :: "string list" where
  "blessed_scripts = [''scaffold.py'', ''baseline.py'', ''dashboard.py'', ''create_plan.py'', ''pipeline.py'', ''resume.py'', ''parse_args.py'']"

definition library_not_cli :: "string list" where
  "library_not_cli = [''eval_kernel.py'', ''quick_check.py'', ''report.py'']"

fun script_name_check :: "string list \<Rightarrow> string list \<Rightarrow> block_reason option" where
  "script_name_check aliases [] = None"
| "script_name_check aliases (nm # nms) =
     (if nm \<in> set aliases then Some (ScriptDoesNotExist nm)
      else if nm \<in> set library_not_cli then Some (LibraryNotCli nm)
      else if nm \<notin> set blessed_scripts then Some (UnknownScript nm)
      else script_name_check aliases nms)"

definition gate_command :: "phase \<Rightarrow> string \<Rightarrow> Decision" where
  "gate_command ph cmd = (if check_bash ph cmd then proceed else blocked CommandRefused)"

definition pre_bash :: "hook_env \<Rightarrow> string \<Rightarrow> hook" where
  "pre_bash h cmd = with_task h (\<lambda>td w.
     case script_name_check (h_aliases h) (parse_script_names cmd) of
       Some r \<Rightarrow> (w, Inr (blocked r))
     | None \<Rightarrow>
         let fs = task_at w td; ph = read_phase fs; invoked = parse_canonical_ar cmd
         in check_then (if ph = DIAGNOSE \<and> invoked = Some ''create_plan.py''
                        then bindR (diagnose_state (h_rt h) (h_cfg h) fs) (\<lambda>st. Inr (ds_action st = NEED_DIAGNOSIS))
                        else Inr False) (\<lambda>need.
              (w, Inr (if need then blocked NeedDiagnosis
                       else if ph = EDIT \<and> invoked = Some ''create_plan.py'' \<and> has_pending_settle fs
                       then (if is_single_foreground_ar_invocation cmd ''create_plan.py'' then gate_command REPLAN cmd
                             else blocked NotSingleForeground)
                       else gate_command ph cmd))) w)"

subsection \<open>Before an edit\<close>

definition sep :: char where
  "sep = CHR ''/''"

definition dirname :: "string \<Rightarrow> string" where
  "dirname p = (let front = dropWhile (\<lambda>c. c \<noteq> sep) (rev p)
     in if list_all (\<lambda>c. c = sep) front then rev front else rev (dropWhile (\<lambda>c. c = sep) front))"

lemma dirname_shorter: "dirname p = p \<or> length (dirname p) < length p"
proof -
  let ?f = "dropWhile (\<lambda>c. c \<noteq> sep) (rev p)"
  have le: "length ?f \<le> length p" using length_dropWhile_le [of _ "rev p"] by simp
  show ?thesis
  proof (cases "list_all (\<lambda>c. c = sep) ?f")
    case True
    show ?thesis
    proof (cases "length ?f = length p")
      case True
      then have "?f = rev p" by (metis append_eq_conv_conj length_rev takeWhile_dropWhile_id append_Nil length_append add_cancel_left_left length_0_conv)
      then show ?thesis using \<open>list_all _ ?f\<close> by (simp add: dirname_def)
    next
      case False
      then show ?thesis using le True by (simp add: dirname_def)
    qed
  next
    case False
    then have ne: "?f \<noteq> []" by (metis list.pred_inject(1))
    then have "hd ?f = sep" using hd_dropWhile by blast
    then have "length (dropWhile (\<lambda>c. c = sep) ?f) < length ?f" using ne
      by (cases ?f) (simp_all add: le_imp_less_Suc length_dropWhile_le)
    then show ?thesis using le False by (simp add: dirname_def)
  qed
qed

function task_dir_from_edit_target :: "world \<Rightarrow> string \<Rightarrow> string option" where
  "task_dir_from_edit_target w p = (let parent = dirname p in
     if parent = p then None
     else if has_state_file w parent then Some parent
     else task_dir_from_edit_target w parent)"
  by pat_completeness auto
termination by (relation "measure (\<lambda>(w, p). length p)") (use dirname_shorter in auto)

declare task_dir_from_edit_target.simps [simp del]

definition rel_to_task :: "string \<Rightarrow> string \<Rightarrow> string option" where
  "rel_to_task p td = (let root = (if td = [sep] then [] else td)
     in if starts_with (root @ [sep]) p then Some (drop (length root + 1) p)
        else if p = td then Some ''.'' else None)"

definition edit_phase_git_gate :: "hook_env \<Rightarrow> string \<Rightarrow> string list \<Rightarrow> hook" where
  "edit_phase_git_gate h td editable w =
     (if \<not> h_git_root h td \<or> edit_marker (task_at w td) then (w, Inr proceed)
      else (case filter (h_git_dirty h td) editable of
              ef # _ \<Rightarrow> (w, Inr (blocked (UncommittedChange ef)))
            | [] \<Rightarrow> (put_task td ((task_at w td)\<lparr>edit_marker := True\<rparr>) w, Inr proceed)))"

definition pre_edit :: "hook_env \<Rightarrow> string \<Rightarrow> hook" where
  "pre_edit h file_path w =
     (if file_path = [] then (w, Inr proceed)
      else let p = h_abspath h file_path in
        (case task_dir_from_edit_target w p of
           Some td \<Rightarrow>
             let w1 = touch_task (h_now h) td w; fs = task_at w1 td; ph = read_phase fs;
                 editable = (case h_editable h td of None \<Rightarrow> [] | Some es \<Rightarrow> es)
             in check_then (if ph = DIAGNOSE
                            then bindR (diagnose_state (h_rt h) (h_cfg h) fs) (\<lambda>st. Inr (Some (ds_action st))) else Inr None)
                  (\<lambda>action. case rel_to_task p td of
                      None \<Rightarrow> (w1, Inl AttributeError)
                    | Some rel \<Rightarrow>
                        if \<not> check_edit ph rel editable action (ph = EDIT \<and> has_pending_settle fs)
                        then (w1, Inr (blocked EditRefused))
                        else if ph = EDIT \<and> rel \<in> set editable then edit_phase_git_gate h td editable w1
                        else (w1, Inr proceed)) w1
         | None \<Rightarrow> check_then (get_task_dir (h_rt h) (h_now h) (h_session h) (h_task_env h) w) (\<lambda>(w1, owned).
             (w1, Inr (if owned = [] then proceed else blocked OutsideTask))) w))"

subsection \<open>Before and after a subagent\<close>

definition required_subagent :: string where
  "required_subagent = ''ar-diagnosis''"

definition pre_task :: "hook_env \<Rightarrow> string \<Rightarrow> hook" where
  "pre_task h subagent = with_task h (\<lambda>td w.
     let fs = task_at w td in
     if read_phase fs \<noteq> DIAGNOSE then (w, Inr proceed)
     else check_then (diagnose_state (h_rt h) (h_cfg h) fs) (\<lambda>st.
       (w, Inr (case ds_action st of
          DIAGNOSIS_READY \<Rightarrow> blocked ArtifactReady
        | MANUAL_FALLBACK \<Rightarrow> blocked AttemptsExhausted
        | NEED_DIAGNOSIS \<Rightarrow> if subagent \<noteq> required_subagent then blocked WrongSubagent else proceed))) w)"

text \<open>\<open>state.attempts + 1\<close>.\<close>

definition incremented :: "pyval \<Rightarrow> int res" where
  "incremented v = (case v of PInt n \<Rightarrow> Inr (n + 1) | PBool b \<Rightarrow> Inr (if b then 2 else 1) | _ \<Rightarrow> Inl TypeError)"

definition save_progress_of :: "hook_env \<Rightarrow> string \<Rightarrow> dict \<Rightarrow> Decision \<Rightarrow> hook" where
  "save_progress_of h td changes d w =
     check_then (update_progress (h_now h) changes (task_at w td)) (\<lambda>(fs, _). (put_task td fs w, Inr d)) w"

definition reason_text :: "diagnose_error option \<Rightarrow> pyval" where
  "reason_text e = (case e of None \<Rightarrow> PStr [] | Some _ \<Rightarrow> PStr ''artifact check failed'')"

definition post_task :: "hook_env \<Rightarrow> hook" where
  "post_task h = with_task h (\<lambda>td w.
     let fs = task_at w td in
     if read_phase fs \<noteq> DIAGNOSE then (w, Inr proceed)
     else check_then (diagnose_state (h_rt h) (h_cfg h) fs) (\<lambda>st.
       if ds_action st = DIAGNOSIS_READY
       then save_progress_of h td (fmap_of_list [(''diagnose_attempts'', PInt 0),
              (''diagnose_attempts_for_version'', ds_plan_version st)]) proceed w
       else check_then (incremented (ds_attempts st)) (\<lambda>n.
              save_progress_of h td (fmap_of_list [(''diagnose_attempts'', PInt n),
                (''diagnose_attempts_for_version'', ds_plan_version st),
                (''last_diagnose_failure_reason'', reason_text (ds_reason st))])
                (proceed\<lparr>d_context := Some (if n \<ge> diagnose_max_attempts (h_cfg h) then ManualPlanning else RetryDiagnosis n)\<rparr>) w) w) w)"

subsection \<open>After a shell command\<close>

definition task_var :: string where
  "task_var = ''AR_TASK_DIR=''"

definition activation_dir :: "string \<Rightarrow> string option" where
  "activation_dir cmd =
     (if \<not> contains task_var cmd then None
      else (case shlex_split cmd of
          None \<Rightarrow> None
        | Some tokens \<Rightarrow> (case filter (starts_with task_var) tokens of
            [] \<Rightarrow> None
          | tok # _ \<Rightarrow> let td = drop (length task_var) tok in if td = [] then None else Some td)))"

definition task_dir_from_command :: "hook_env \<Rightarrow> world \<Rightarrow> string \<Rightarrow> string option" where
  "task_dir_from_command h w cmd = (case shlex_split cmd of
      None \<Rightarrow> None
    | Some tokens \<Rightarrow> (case filter (\<lambda>tok. tok \<noteq> [] \<and> has_state_file w (h_abspath h tok)) tokens of
        [] \<Rightarrow> None | tok # _ \<Rightarrow> Some (h_abspath h tok)))"

definition clean_stale_edit_marker :: "hook_env \<Rightarrow> string \<Rightarrow> world \<Rightarrow> world" where
  "clean_stale_edit_marker h td w =
     (if edit_marker (task_at w td) \<and> h_tree_clean h td then put_task td (drop_marker (task_at w td)) w else w)"

text \<open>The reads of \<open>_print_resume_context\<close> that can raise: unparsable history, a description that cannot be sliced.\<close>

fun history_rows :: "hist_line list \<Rightarrow> dict list res" where
  "history_rows [] = Inr []"
| "history_rows (l # ls) = (case l of
      HBlank \<Rightarrow> history_rows ls
    | HBad \<Rightarrow> Inl ValueError
    | HRow r \<Rightarrow> bindR (history_rows ls) (\<lambda>rs. Inr (r # rs)))"

definition sliceable :: "pyval \<Rightarrow> bool" where
  "sliceable v = (case v of PStr _ \<Rightarrow> True | PTime _ \<Rightarrow> True | PList _ \<Rightarrow> True | _ \<Rightarrow> False)"

definition resume_context :: "task_fs \<Rightarrow> unit res" where
  "resume_context fs = (case load_progress fs of
      None \<Rightarrow> Inr ()
    | Some _ \<Rightarrow> (case history_file fs of
        None \<Rightarrow> Inr ()
      | Some ls \<Rightarrow> bindR (history_rows ls) (\<lambda>rows.
          if list_all (\<lambda>r. sliceable (dget_default r ''description'' (PStr []))) (drop (length rows - 3) rows)
          then Inr () else Inl TypeError)))"

definition agent_caller :: "hook_env \<Rightarrow> caller" where
  "agent_caller h = \<lparr>c_session = h_session h, c_pid = h_pid h, c_role = AGENT, c_force = False\<rparr>"

text \<open>\<open>_handle_activation\<close>: a refused entry is reported, an exception in the body leaves through \<open>__exit__\<close>.\<close>

definition handle_activation :: "hook_env \<Rightarrow> string \<Rightarrow> hook" where
  "handle_activation h target w =
     (let td = h_abspath h target in
      if fmlookup (tasks w) td = None then (w, Inr proceed)
      else let has_state = has_state_file w td in
        (case enter_task (h_rt h) (h_cfg h) (h_now h) (agent_caller h) td w of
           (w1, Inl TaskConsistencyError) \<Rightarrow> (w1, Inr proceed)
         | (w1, Inl (TaskOwnershipError _)) \<Rightarrow> (w1, Inr proceed)
         | (w1, Inl e) \<Rightarrow> (w1, Inl e)
         | (w1, Inr claimed) \<Rightarrow>
             let w2 = clean_stale_edit_marker h td w1;
                 leave = (\<lambda>e w'. (exit_task (h_rt h) (h_cfg h) (h_now h) (agent_caller h) claimed True td w', Inl e))
             in (case activate (h_now h) (\<not> has_state) (task_at w2 td) of
                   (fs, Inl e) \<Rightarrow> leave e (put_task td fs w2)
                 | (fs, Inr _) \<Rightarrow>
                     let w3 = put_task td fs w2
                     in if \<not> has_state then (w3, Inr proceed)
                        else (case resume_context fs of Inl e \<Rightarrow> leave e w3 | Inr _ \<Rightarrow> (w3, Inr proceed)))))"

definition todos_of :: "task_fs \<Rightarrow> todo list" where
  "todos_of fs = map (\<lambda>it. \<lparr>todo_content = ''['' @ pi_id it @ ''] '' @ take 80 (pi_description it),
       todo_active_form = ''Working on '' @ pi_id it @ '': '' @ take 60 (pi_description it), todo_in_progress = pi_active it\<rparr>)
     (filter (\<lambda>it. \<not> pi_done it) (get_plan_items fs False))"

definition plan_committed :: "task_fs \<Rightarrow> bool" where
  "plan_committed fs = (let st = state_or_empty fs in
     py_eq (dget st ''phase'') (PStr (phase_name EDIT)) \<and> dget st ''pending_settle'' = PNone \<and> validate_plan fs = None)"

definition post_bash :: "hook_env \<Rightarrow> string \<Rightarrow> hook" where
  "post_bash h cmd w = (case activation_dir cmd of
      Some target \<Rightarrow> handle_activation h target w
    | None \<Rightarrow> (case task_dir_from_command h w cmd of
        None \<Rightarrow> (w, Inr proceed)
      | Some td \<Rightarrow> check_then (set_task_dir (h_rt h) (h_cfg h) (h_now h) (h_pid h) (h_session h) False td w) (\<lambda>(w1, _).
          let w2 = touch_task (h_now h) td w1; fs = task_at w2 td; invoked = parse_canonical_ar cmd
          in (w2, Inr (if invoked = Some ''pipeline.py'' \<or> invoked = Some ''create_plan.py'' \<and> plan_committed fs
                       then proceed\<lparr>d_todos := Some (todos_of fs)\<rparr> else proceed))) w))"

definition post_edit :: "hook_env \<Rightarrow> hook" where
  "post_edit h = with_task h (\<lambda>td w. (w, Inr proceed))"

subsection \<open>Stopping\<close>

definition is_stuck :: "phase \<Rightarrow> Progress option \<Rightarrow> bool" where
  "is_stuck ph progress = (ph = BASELINE \<and> progress = None)"

definition on_stop :: "hook_env \<Rightarrow> string \<Rightarrow> hook" where
  "on_stop h stop_reason w =
     check_then (get_task_dir (h_rt h) (h_now h) (h_session h) (h_task_env h) w) (\<lambda>(w1, td).
       if td = [] then (w1, Inr proceed)
       else let fs = task_at w1 td; ph = read_phase fs; progress = load_progress fs; stuck = is_stuck ph progress
            in if ph \<noteq> FINISH \<and> \<not> stuck then (w1, Inr (blocked (CannotStop ph)))
               else if stuck \<or> progress = None then (w1, Inr proceed)
               else save_progress_of h td (fmap_of_list [(''last_stop_reason'', PStr stop_reason),
                      (''last_stop_time'', PTime (h_now h))]) proceed w1) w"

definition decide :: "hook_env \<Rightarrow> AgentEvent \<Rightarrow> hook" where
  "decide h ev = (case ev of
      PreShell cmd \<Rightarrow> pre_bash h cmd
    | PreEdit p \<Rightarrow> pre_edit h p
    | PreSubagent s \<Rightarrow> pre_task h s
    | PostShell cmd \<Rightarrow> post_bash h cmd
    | PostEdit p \<Rightarrow> post_edit h
    | PostSubagent \<Rightarrow> post_task h
    | Stop r \<Rightarrow> on_stop h r
    | OtherEvent \<Rightarrow> (\<lambda>w. (w, Inr proceed)))"

end
