(* ===== verification/Ownership_Steps.thy ===== *)
theory Ownership_Steps
  imports Ownership
begin

text \<open>
  Interleavings of the sessions, supervisors and task writers of one machine over the operations of
  \<open>Ownership\<close>, and what they keep: a session owns at most one task, its index finds it, and a claim
  or an entry does what it announces.
\<close>

subsection \<open>The heal keeps the owner\<close>

definition fs_owner :: "task_fs \<Rightarrow> string \<Rightarrow> bool" where
  "fs_owner fs s = (case load_state fs of None \<Rightarrow> False | Some st \<Rightarrow> owner_session st = Inr (PStr s))"

lemma owner_is_put_fs: "owner_is (put_task td fs w) td' s = (if td' = td then fs_owner fs s else owner_is w td' s)"
  by (simp add: owner_is_put fs_owner_def)

lemma fs_owner_save: "fs_owner (save_state now st fs) s \<longleftrightarrow> owner_session st = Inr (PStr s)"
  by (simp add: fs_owner_def owner_session_saved)

lemma owner_session_cong: "dget st ''owner'' = dget st' ''owner'' \<Longrightarrow> owner_session st = owner_session st'"
  by (simp add: owner_session_def owner_of_def)

lemma patch_key_owner: "\<not> patch_key ''owner''"
  by (simp add: patch_key_def intent_control_fields_def progress_fields_def)

lemma apply_intent_patch_owner:
  assumes "apply_intent_patch st intent = Inr (st', b)"
  shows "dget st' ''owner'' = dget st ''owner''"
  using assms patch_key_owner
  by (auto simp: apply_intent_patch_def merge_progress_def dget_def progress_fields_def split: pyval.splits)

lemma fs_owner_empty: "owner_session (state_or_empty fs) = Inr (PStr s) \<longleftrightarrow> fs_owner fs s"
  by (auto simp: state_or_empty_def fs_owner_def owner_session_PStr split: option.splits)

lemma replay_intent_owner:
  assumes "replay_intent now fs = Inr (fs', act)"
  shows "fs_owner fs' s \<longleftrightarrow> fs_owner fs s"
proof -
  have idle: "fs_owner (clear_intent fs) s = fs_owner fs s" by (simp add: fs_owner_def)
  have patched: "fs_owner (clear_intent (save_state now st'' fs)) s = fs_owner fs s"
    if "apply_intent_patch (state_or_empty fs) intent = Inr (st', b)" "dget st'' ''owner'' = dget st' ''owner''"
    for intent st' st'' b
    using that apply_intent_patch_owner [OF that(1)] owner_session_cong [of st'' "state_or_empty fs"]
    by (simp add: fs_owner_save fs_owner_empty fs_owner_def [of "clear_intent _"] owner_session_saved)
  from assms show ?thesis
    by (auto simp: replay_intent_def replay_round_intent_def replay_baseline_intent_def replay_plan_intent_def
        intent_result_def Let_def idle patched split: option.splits if_splits)
qed

subsection \<open>Interleaved callers\<close>

text \<open>
  The sessions of a machine are those of \<open>S\<close>; a caller without a session is a supervisor. A session
  releases through its index (\<open>Release\<close>) or names a directory (\<open>ReleaseNamed\<close>) while it owns no other.
  \<open>Work\<close> is any writer of one directory that leaves its owner, and \<open>Scaffold\<close> creates a directory.
\<close>

inductive own_step :: "runtime \<Rightarrow> config \<Rightarrow> string set \<Rightarrow> world \<Rightarrow> world \<Rightarrow> bool"
  for rt :: runtime and cfg :: config and S :: "string set" where
  Claim: "s = [] \<or> s \<in> S \<Longrightarrow> set_task_dir rt cfg now pid s force td w = Inr (w', ok) \<Longrightarrow> own_step rt cfg S w w'"
| Release: "s = [] \<or> s \<in> S \<Longrightarrow> clear_active_task rt cfg now s None force w = Inr (w', ok) \<Longrightarrow> own_step rt cfg S w w'"
| Supervise: "clear_active_task rt cfg now [] (Some td) force w = Inr (w', ok) \<Longrightarrow> own_step rt cfg S w w'"
| ReleaseNamed: "s \<in> S \<Longrightarrow> \<forall>td'. owner_is w td' s \<longrightarrow> td' = td
    \<Longrightarrow> clear_active_task rt cfg now s (Some td) force w = Inr (w', ok) \<Longrightarrow> own_step rt cfg S w w'"
| Lookup: "s = [] \<or> s \<in> S \<Longrightarrow> current_session_task_dir rt now s w = Inr (w', hit) \<Longrightarrow> own_step rt cfg S w w'"
| Enter: "c_session c = [] \<or> c_session c \<in> S \<Longrightarrow> enter_task rt cfg now c td w = (w', r) \<Longrightarrow> own_step rt cfg S w w'"
| Work: "fmlookup (tasks w) td = Some fs \<Longrightarrow> \<forall>s. fs_owner fs' s \<longleftrightarrow> fs_owner fs s
    \<Longrightarrow> own_step rt cfg S w (put_task td fs' w)"
| Scaffold: "fmlookup (tasks w) td = None \<Longrightarrow> td \<noteq> [] \<Longrightarrow> strip td = td \<Longrightarrow> \<forall>s. \<not> fs_owner fs s
    \<Longrightarrow> own_step rt cfg S w ((put_task td fs w)\<lparr>listing := td # listing w\<rparr>)"

definition own_reachable :: "runtime \<Rightarrow> config \<Rightarrow> string set \<Rightarrow> world \<Rightarrow> world \<Rightarrow> bool" where
  "own_reachable rt cfg S = (own_step rt cfg S)\<^sup>*\<^sup>*"

lemma fs_owner_task: "fmlookup (tasks w) td = Some fs \<Longrightarrow> fs_owner fs s = owner_is w td s"
  by (simp add: fs_owner_def owner_is_def load_task_def)

lemma work_single:
  assumes "single_task rt S w" and "fmlookup (tasks w) td = Some fs" and "\<forall>s. fs_owner fs' s \<longleftrightarrow> fs_owner fs s"
  shows "single_task rt S (put_task td fs' w)"
  using assms plain_paths_put [of w td fs'] fs_owner_task [OF assms(2)]
  by (auto simp: single_task_def owner_is_put_fs)

lemma touch_owner: "fs_owner (touch_heartbeat now fs) s \<longleftrightarrow> fs_owner fs s"
  unfolding touch_heartbeat_def fs_owner_save
  by (auto simp: state_or_fresh_def fs_owner_def fresh_state_def owner_session_PStr
      dget_def [of "fmap_of_list _"] fmlookup_of_list split: option.splits if_splits)

text \<open>A session that owns a task is sent to it, and nothing is rewritten.\<close>

lemma lookup_owned:
  assumes "single_task rt S w" and "s \<in> S" and "s \<noteq> []" and "owner_is w td s"
  shows "current_session_task_dir rt now s w = Inr (w, Some td)"
proof -
  have "read_session_index rt s w = Some td" by (rule single_task_index [OF assms])
  moreover obtain st where "load_task w td = Some st" "owner_session st = Inr (PStr s)"
    using assms(4) by (auto simp: owner_is_def split: option.splits)
  ultimately show ?thesis using assms(3) by (simp add: current_session_task_dir_def)
qed

lemma freshest_mem: "freshest xs = Some x \<Longrightarrow> x \<in> set xs"
  by (induction xs arbitrary: x) (auto split: option.splits if_splits)

lemma scan_tasks_mem:
  "scan_tasks now P w tds = Inr ms \<Longrightarrow> (a, td) \<in> set ms
     \<Longrightarrow> \<exists>st sid. load_task w td = Some st \<and> owner_session st = Inr sid \<and> P sid"
  by (induction tds arbitrary: ms) (auto split: option.splits if_splits)

lemma lookup_single:
  assumes "current_session_task_dir rt now s w = Inr (w', hit)" and "single_task rt S w" and "[] \<notin> S"
    and "s = [] \<or> s \<in> S" and "inj_on (session_index_path rt) S"
  shows "single_task rt S w'"
proof (cases "s \<noteq> [] \<and> (\<exists>td. owner_is w td s)")
  case True
  then show ?thesis using lookup_owned [OF assms(2)] assms(1,2,4) by fastforce
next
  case False
  show ?thesis
  proof (cases "s = []")
    case True
    then show ?thesis using assms(1,2) by (simp add: current_session_task_dir_def)
  next
    case ne: False
    with False have none: "\<not> owner_is w td s" for td by blast
    have cleared: "single_task rt S (clear_session_index rt s w)"
      using assms(2,4,5) none
      by (auto simp: single_task_def plain_paths_index session_index_clear dest: inj_onD)
    have no_hit: "freshest ms = None" if "scan_tasks now (\<lambda>sid. py_eq sid (PStr s)) w1 tds = Inr ms"
      "owner_is w1 = owner_is w" for w1 tds ms
    proof (rule ccontr)
      assume "freshest ms \<noteq> None"
      then obtain a td where "(a, td) \<in> set ms" using freshest_mem by (metis option.exhaust surj_pair)
      from scan_tasks_mem [OF that(1) this] have "owner_is w1 td s" by (auto simp: owner_is_def py_eq_PStr_iff)
      with that(2) none show False by simp
    qed
    note hits = no_hit [OF _ refl] no_hit [of "clear_session_index rt s w", OF _ index_frame(2)]
    have "w' = w \<or> w' = clear_session_index rt s w"
      using assms(1) ne
      by (auto simp: current_session_task_dir_def split: option.splits if_splits)
         (drule hits, simp)+
    with cleared assms(2) show ?thesis by blast
  qed
qed

text \<open>An entry, taken apart.\<close>

lemma enter_taskE:
  assumes "enter_task rt cfg now c td w = (w', r)"
  obtains (idle) "w' = w" "r \<noteq> Inr True"
  | (healed) fs fs1 where "fmlookup (tasks w) td = Some fs" "\<forall>s. fs_owner fs1 s \<longleftrightarrow> fs_owner fs s"
      "w' = put_task td fs1 w" "r \<noteq> Inr True"
  | (claimed) fs fs1 w2 where "fmlookup (tasks w) td = Some fs" "\<forall>s. fs_owner fs1 s \<longleftrightarrow> fs_owner fs s"
      "set_task_dir rt cfg now (c_pid c) (c_session c) (c_force c) td (put_task td fs1 w) = Inr (w2, True)"
      "w' = put_task td (touch_heartbeat now (the (fmlookup (tasks w2) td))) w2"
      "r = Inr True" "c_role c = AGENT"
proof (cases "fmlookup (tasks w) td")
  case None
  then show thesis using assms by (intro idle) (auto simp: enter_task_def)
next
  case (Some fs)
  show thesis
  proof (cases "c_role c = READER \<or> (\<exists>e. require_state_consistency now False True fs = Inl e)")
    case True
    then show thesis using assms Some by (intro idle) (auto simp: enter_task_def split: if_splits)
  next
    case False
    then obtain fs1 report where r: "require_state_consistency now False True fs = Inr (fs1, report)"
      and nr: "c_role c \<noteq> READER" by (metis sum.exhaust surj_pair)
    then have keep: "\<forall>s. fs_owner fs1 s \<longleftrightarrow> fs_owner fs s"
      by (auto simp: require_state_consistency_def replay_intent_owner split: if_splits)
    note e = assms Some r nr
    show thesis
    proof (cases "set_task_dir rt cfg now (c_pid c) (c_session c) (c_force c) td (put_task td fs1 w)")
      case (Inl err)
      with e show thesis
        by (intro healed [OF Some keep]) (auto simp: enter_task_def Let_def split: if_splits)
    next
      case (Inr q)
      obtain w2 ok where q: "q = (w2, ok)" by (cases q)
      show thesis
      proof (cases "ok \<and> consistent report \<and> c_role c = AGENT")
        case True
        with e Inr q show thesis
          by (intro claimed [OF Some keep]) (auto simp: enter_task_def Let_def)
      next
        case False
        with e Inr q show thesis using set_task_dir_False
          by (intro healed [OF Some keep]) (auto simp: enter_task_def Let_def split: if_splits bool.splits)
      qed
    qed
  qed
qed

lemma enter_single:
  assumes "enter_task rt cfg now c td w = (w', r)" and "single_task rt S w" and "[] \<notin> S"
    and "c_session c = [] \<or> c_session c \<in> S" and "inj_on (session_index_path rt) S"
  shows "single_task rt S w'"
  using assms(1)
proof (cases rule: enter_taskE)
  case idle
  then show ?thesis using assms(2) by simp
next
  case (healed fs fs1)
  then show ?thesis using work_single [OF assms(2)] by simp
next
  case (claimed fs fs1 w2)
  have "single_task rt S w2"
    by (rule claim_single [OF claimed(3) work_single [OF assms(2) claimed(1,2)] assms(3,4,5)])
  moreover obtain fs2 where "fmlookup (tasks w2) td = Some fs2"
    using owner_is_task claim_owner(1) [OF claimed(3)] by blast
  ultimately show ?thesis using claimed(4) work_single touch_owner by simp
qed

lemma own_step_single:
  assumes "own_step rt cfg S w w'" and "single_task rt S w" and "[] \<notin> S" and "inj_on (session_index_path rt) S"
  shows "single_task rt S w'"
  using assms(1)
proof cases
  case (Claim s now pid force td ok)
  then show ?thesis using claim_single [OF _ assms(2,3) _ assms(4)] set_task_dir_False assms(2) by (cases ok) metis+
next
  case (Release s now force ok)
  then show ?thesis using clear_single [OF _ assms(2,3) _ assms(4)] by simp
next
  case (Supervise now td force ok)
  then show ?thesis using clear_single [OF _ assms(2,3) _ assms(4)] by simp
next
  case (ReleaseNamed s td now force ok)
  then show ?thesis using clear_single [OF _ assms(2,3) _ assms(4)] by simp
next
  case (Lookup s now hit)
  then show ?thesis using lookup_single [OF _ assms(2,3) _ assms(4)] by simp
next
  case (Enter c now td r)
  then show ?thesis using enter_single [OF _ assms(2,3) _ assms(4)] by simp
next
  case (Work td fs fs')
  then show ?thesis using work_single [OF assms(2)] by simp
next
  case (Scaffold td fs)
  then show ?thesis using assms(2)
    by (auto simp: single_task_def plain_paths_def owner_is_def load_task_def fs_owner_def put_task_def)
qed

lemma own_reachable_single:
  assumes "own_reachable rt cfg S w w'" and "single_task rt S w" and "[] \<notin> S" and "inj_on (session_index_path rt) S"
  shows "single_task rt S w'"
  using assms(1) unfolding own_reachable_def
  by (induction rule: rtranclp_induct) (use assms own_step_single in auto)


lemma claim_refused_owner:
  assumes "owner_session st = Inr (PStr p)" and "p \<noteq> []"
  shows "claim_refused cfg now s st = Inr (p \<noteq> s \<and> heartbeat_fresh cfg now st)"
  using assms by (auto simp: claim_refused_def py_or_def Let_def py_eq_PStr_iff)

text \<open>
  An unforced claim on a task whose owner is a session \<open>p\<close> is refused exactly when \<open>p\<close> is another
  session with a fresh heartbeat; a refusal changes nothing, and a granted claim makes the caller the
  only owner of the task.
\<close>

theorem claim_contested:
  assumes "owner_is w td p" and "p \<noteq> []" and "load_task w td = Some st"
    and "set_task_dir rt cfg now pid s False td w = Inr (w', ok)"
  shows "(ok \<longleftrightarrow> p = s \<or> \<not> heartbeat_fresh cfg now st) \<and> (\<not> ok \<longrightarrow> w' = w) \<and> (ok \<longrightarrow> (\<forall>s'. owner_is w' td s' \<longleftrightarrow> s' = s))"
proof -
  obtain fs where fs: "fmlookup (tasks w) td = Some fs" "load_state fs = Some st"
    using assms(3) by (auto simp: load_task_def split: bind_splits)
  have o: "owner_session st = Inr (PStr p)" using assms(1,3) by (simp add: owner_is_def)
  then have "st \<noteq> fmempty" by (auto simp: owner_session_PStr)
  then have f: "state_or_fresh now fs = st" using fs(2) by (simp add: state_or_fresh_def)
  have "ok \<longleftrightarrow> p = s \<or> \<not> heartbeat_fresh cfg now st"
    using assms(4) fs f
    by (auto simp: set_task_dir_def claim_refused_owner [OF o assms(2)] Let_def split: if_splits)
  then show ?thesis using assms(4) set_task_dir_False claim_owner(1) by (metis (full_types))
qed

text \<open>A release that names a directory another caller owns.\<close>

lemma clear_named:
  assumes "fmlookup (tasks w) td = Some fs" and "load_state fs = Some st" and "owner_session st = Inr (PStr p)" and "td \<noteq> []"
  shows "clear_active_task rt cfg now s (Some td) force w =
    Inr (let w1 = put_task td (save_state now (fmupd ''owner'' PNone st) fs) w
         in if s \<noteq> [] \<and> (p = s \<or> force) then clear_session_index rt s w1 else w1, True)"
proof -
  obtain d where d: "dget st ''owner'' = PDict d" "dget d ''session_id'' = PStr p"
    using assms(3) by (auto simp: owner_session_PStr)
  then have "d \<noteq> fmempty" "st \<noteq> fmempty" by auto
  then show ?thesis using assms d
    by (auto simp: clear_active_task_def release_target_def Let_def py_or_def py_eq_PStr_iff)
qed

text \<open>
  A \<open>with Task(...)\<close> block of an agent: entering makes the session the only owner, a clean exit
  leaves it so, and an exception gives the task back with no owner at all.
\<close>

theorem enter_exit_owner:
  assumes "enter_task rt cfg now c td w = (w1, Inr True)" and "td \<noteq> []"
  shows "(\<forall>s. owner_is w1 td s \<longleftrightarrow> s = c_session c)
    \<and> exit_task rt cfg now' c True False td w1 = w1
    \<and> (\<forall>s. \<not> owner_is (exit_task rt cfg now' c True True td w1) td s)"
proof -
  have own: "owner_is w1 td s \<longleftrightarrow> s = c_session c" for s
    using assms(1)
  proof (cases rule: enter_taskE)
    case (claimed fs fs1 w2)
    then obtain fs2 where "fmlookup (tasks w2) td = Some fs2"
      using owner_is_task claim_owner(1) [OF claimed(3)] by blast
    then show ?thesis
      using claimed(4) claim_owner(1) [OF claimed(3)] fs_owner_task by (simp add: owner_is_put_fs touch_owner)
  qed simp_all
  then obtain fs1 where fs1: "fmlookup (tasks w1) td = Some fs1" using owner_is_task by blast
  obtain st where st: "load_state fs1 = Some st" "owner_session st = Inr (PStr (c_session c))"
    using own [of "c_session c"] fs1 by (auto simp: owner_is_def load_task_def split: option.splits)
  have "\<not> owner_is (exit_task rt cfg now' c True True td w1) td s" for s
    by (simp add: exit_task_def clear_named [OF fs1 st assms(2)] Let_def owner_is_put_save owner_session_cleared)
  then show ?thesis using own by (simp add: exit_task_def)
qed

text \<open>
  A release that names the directory succeeds whoever calls it: an unforced call by any session, or
  by none, takes the task from an owner whose heartbeat is fresh, and no owner is left. Only a release
  through the session index reaches the heartbeat test, and a supervisor without a session that
  names no directory succeeds without looking at any task.
\<close>

theorem named_release_unconditional:
  assumes "owner_is w td p" and "td \<noteq> []"
  shows "(\<exists>w'. clear_active_task rt cfg now s (Some td) False w = Inr (w', True) \<and> (\<forall>s'. \<not> owner_is w' td s'))
    \<and> clear_active_task rt cfg now [] None False w = Inr (w, True)"
proof -
  obtain fs st where fs: "fmlookup (tasks w) td = Some fs" "load_state fs = Some st" "owner_session st = Inr (PStr p)"
    using assms(1) owner_is_task [OF assms(1)] by (auto simp: owner_is_def load_task_def split: option.splits)
  have "\<exists>w'. clear_active_task rt cfg now s (Some td) False w = Inr (w', True) \<and> (\<forall>s'. \<not> owner_is w' td s')"
    by (simp add: clear_named [OF fs assms(2)] Let_def owner_is_put_save owner_session_cleared)
  moreover have "clear_active_task rt cfg now [] None False w = Inr (w, True)"
    by (simp add: clear_active_task_def read_session_index_def clear_session_index_def)
  ultimately show ?thesis ..
qed

text \<open>
  A session that releases by name a directory nobody owns loses its own index entry, although it
  still owns another task; its next claim then leaves it the recorded owner of two tasks, which the
  claim is meant to rule out.
\<close>

theorem named_release_orphans:
  assumes "s \<noteq> []" and "owner_is w q s" and "load_task w a = Some st" and "\<not> truthy (dget st ''owner'')" and "a \<noteq> []"
    and "clear_active_task rt cfg now s (Some a) False w = Inr (w1, ok)"
    and "set_task_dir rt cfg now' pid s force c w1 = Inr (w2, True)" and "c \<noteq> q"
  shows "read_session_index rt s w1 = None \<and> owner_is w2 q s \<and> owner_is w2 c s"
proof -
  obtain fs where fs: "fmlookup (tasks w) a = Some fs" "load_state fs = Some st"
    using assms(3) by (auto simp: load_task_def split: bind_splits)
  have w1: "w1 = clear_session_index rt s w"
    using assms(4-6) fs by (auto simp: clear_active_task_def release_target_def)
  have idx: "read_session_index rt s w1 = None"
    using assms(1) by (simp add: w1 read_session_index_def session_index_clear)
  obtain fs2 w3 where w3: "release_prior now' s (if s \<noteq> [] then read_session_index rt s w1 else None) c w1 = Inr w3"
    and w2: "w2 = write_session_index rt s c
       (put_task c (save_state now' (fmupd ''owner'' (owner_record s pid now') (state_or_fresh now' fs2)) fs2) w3)"
    using assms(7) by (rule set_task_dirE) (rule that)
  have "w3 = w1" using w3 idx assms(1) by (simp add: release_prior_def)
  then have "owner_is w2 q s" using assms(2,8) by (simp add: w2 w1 owner_is_put_save)
  moreover have "owner_is w2 c s" using claim_owner(1) [OF assms(7)] by simp
  ultimately show ?thesis using idx by simp
qed

subsection \<open>Three directories\<close>

definition demo_task :: "real \<Rightarrow> string option \<Rightarrow> task_fs" where
  "demo_task t owner = save_state t (fmupd ''owner'' (case owner of None \<Rightarrow> PNone | Some s \<Rightarrow> owner_record s 7 t)
     (fresh_state t)) empty_fs"

definition demo_world :: "string option \<Rightarrow> world" where
  "demo_world owner = \<lparr>tasks = fmap_of_list [(''A'', demo_task 0 owner), (''B'', demo_task 0 None), (''C'', demo_task 0 None)],
     session_index = fmempty, listing = [''A'', ''B'', ''C'']\<rparr>"

definition demo_limits :: config where
  "demo_limits = \<lparr>consecutive_fail_threshold = 3, diagnose_max_attempts = 5, heartbeat_fresh_seconds = 180\<rparr>"

lemma demo_tasks:
  "fmlookup (tasks (demo_world ow)) ''A'' = Some (demo_task 0 ow)"
  "fmlookup (tasks (demo_world ow)) ''B'' = Some (demo_task 0 None)"
  "fmlookup (tasks (demo_world ow)) ''C'' = Some (demo_task 0 None)"
  by (simp_all add: demo_world_def fmlookup_of_list)

lemma demo_dirs: "fmlookup (tasks (demo_world ow)) td \<noteq> None \<longleftrightarrow> td = ''A'' \<or> td = ''B'' \<or> td = ''C''"
  by (simp add: demo_world_def fmlookup_of_list)

lemma demo_task_owner: "fs_owner (demo_task t ow) s \<longleftrightarrow> ow = Some s"
  unfolding demo_task_def fs_owner_save
  by (cases ow) (auto simp: owner_session_claimed owner_session_cleared)

lemma demo_owner: "owner_is (demo_world ow) td s \<longleftrightarrow> td = ''A'' \<and> ow = Some s"
proof (cases "fmlookup (tasks (demo_world ow)) td = None")
  case True
  then show ?thesis using demo_tasks(1) [of ow] owner_is_task [of "demo_world ow" td s] by auto
next
  case False
  then consider "td = ''A''" | "td = ''B''" | "td = ''C''" using demo_dirs by blast
  then show ?thesis
    by cases (simp_all add: demo_task_owner fs_owner_task [OF demo_tasks(1), symmetric]
        fs_owner_task [OF demo_tasks(2), symmetric] fs_owner_task [OF demo_tasks(3), symmetric])
qed

lemma demo_single: "single_task demo_runtime {''s'', ''t''} (demo_world None)"
  unfolding single_task_def demo_owner plain_paths_def demo_dirs
  by (auto simp: strip_def lstrip_def rstrip_def is_space_def)

lemma demo_sessions: "inj_on (session_index_path demo_runtime) {''s'', ''t''}"
  by (simp add: session_index_path_def demo_runtime_def)

lemma claim_uncontested:
  assumes "fmlookup (tasks w) td = Some fs" and "force \<or> claim_refused cfg now s (state_or_fresh now fs) = Inr False"
    and "read_session_index rt s w = None \<or> s = []"
  shows "\<exists>w'. set_task_dir rt cfg now pid s force td w = Inr (w', True)"
  using assms by (auto simp: set_task_dir_def Let_def release_prior_def)

lemma demo_unclaimed: "claim_refused demo_limits now s (state_or_fresh now (demo_task 0 None)) = Inr False"
  by (simp add: claim_refused_def state_or_fresh_def demo_task_def owner_session_def owner_of_def Let_def py_or_def)

lemma demo_claim: "\<exists>w'. set_task_dir demo_runtime demo_limits 1 7 ''s'' False ''A'' (demo_world None) = Inr (w', True)"
  by (rule claim_uncontested [OF demo_tasks(1)]) (simp_all add: demo_unclaimed read_session_index_def demo_world_def)


lemma demo_busy: "load_task (demo_world (Some ''s'')) ''A'' = Some st \<Longrightarrow> heartbeat_fresh demo_limits 1 st"
  by (auto simp: load_task_def demo_tasks demo_task_def heartbeat_fresh_def age_seconds_def demo_limits_def)

theorem claim_contested_witness:
  "set_task_dir demo_runtime demo_limits 1 7 ''t'' False ''A'' (demo_world (Some ''s'')) = Inr (demo_world (Some ''s''), False)"
proof -
  let ?w = "demo_world (Some ''s'')"
  have own: "owner_is ?w ''A'' ''s''" by (simp add: demo_owner)
  then obtain st where st: "load_task ?w ''A'' = Some st" "owner_session st = Inr (PStr ''s'')"
    by (auto simp: owner_is_def split: option.splits)
  then have f: "state_or_fresh 1 (demo_task 0 (Some ''s'')) = st"
    by (auto simp: load_task_def demo_tasks state_or_fresh_def owner_session_PStr)
  have "\<exists>w' ok. set_task_dir demo_runtime demo_limits 1 7 ''t'' False ''A'' ?w = Inr (w', ok)"
    by (auto simp: set_task_dir_def demo_tasks f claim_refused_owner [OF st(2)] demo_busy [OF st(1)] intro: exI [of _ False])
  then obtain w' ok where r: "set_task_dir demo_runtime demo_limits 1 7 ''t'' False ''A'' ?w = Inr (w', ok)" by blast
  from claim_contested [OF own _ st(1) r] demo_busy [OF st(1)] show ?thesis using r by simp
qed

lemma demo_fresh: "expected_int (fmupd ''last_touched'' t (fmupd ''owner'' v (sanitize_dict (fresh_state 0)))) k = Inr 0"
  if "k = ''expected_plan_version'' \<or> k = ''expected_history_round''"
  using that by (auto simp: expected_int_def fresh_state_def dget_def fmlookup_of_list py_or_def sanitize_dict_def)

lemma demo_healthy:
  "\<exists>report. require_state_consistency 1 False True (demo_task 0 None) = Inr (demo_task 0 None, report) \<and> consistent report"
  by (simp add: require_state_consistency_def replay_intent_def read_intent_def demo_task_def empty_fs_def
      check_state_consistency_def demo_fresh read_plan_version_from_disk_def read_last_history_round_def)

lemma demo_entry:
  "enter_task demo_runtime demo_limits 1 \<lparr>c_session = ''s'', c_pid = 7, c_role = AGENT, c_force = True\<rparr> ''A'' (demo_world None)
     = (w, r) \<Longrightarrow> r = Inr True"
proof -
  obtain report where "require_state_consistency 1 False True (demo_task 0 None) = Inr (demo_task 0 None, report)" "consistent report"
    using demo_healthy by blast
  moreover obtain w2 where "set_task_dir demo_runtime demo_limits 1 7 ''s'' True ''A'' (put_task ''A'' (demo_task 0 None) (demo_world None)) = Inr (w2, True)"
    using claim_uncontested [of "put_task ''A'' (demo_task 0 None) (demo_world None)" "''A''" "demo_task 0 None" True
      demo_limits 1 "''s''" demo_runtime 7] demo_tasks(1)
    by (auto simp: read_session_index_def demo_world_def [of None])
  ultimately show "enter_task demo_runtime demo_limits 1 \<lparr>c_session = ''s'', c_pid = 7, c_role = AGENT, c_force = True\<rparr> ''A'' (demo_world None)
     = (w, r) \<Longrightarrow> r = Inr True"
    by (auto simp: enter_task_def demo_tasks Let_def)
qed

theorem enter_exit_owner_witness:
  "\<exists>w1. enter_task demo_runtime demo_limits 1 \<lparr>c_session = ''s'', c_pid = 7, c_role = AGENT, c_force = True\<rparr> ''A'' (demo_world None)
       = (w1, Inr True)
    \<and> \<not> owner_is (exit_task demo_runtime demo_limits 2 \<lparr>c_session = ''s'', c_pid = 7, c_role = AGENT, c_force = True\<rparr> True True ''A'' w1) ''A'' ''s''"
  using demo_entry enter_exit_owner by (metis list.distinct(1) surj_pair)

theorem named_release_unconditional_witness:
  "\<exists>w'. clear_active_task demo_runtime demo_limits 1 ''t'' (Some ''A'') False (demo_world (Some ''s'')) = Inr (w', True)
     \<and> (\<forall>s'. \<not> owner_is w' ''A'' s')"
  using named_release_unconditional [of "demo_world (Some ''s'')" "''A''" "''s''"] by (simp add: demo_owner)

theorem named_release_orphans_witness:
  "\<exists>w w1 w2. clear_active_task demo_runtime demo_limits 2 ''s'' (Some ''B'') False w = Inr (w1, True)
     \<and> set_task_dir demo_runtime demo_limits 3 7 ''s'' False ''C'' w1 = Inr (w2, True)
     \<and> owner_is w2 ''A'' ''s'' \<and> owner_is w2 ''C'' ''s''"
proof -
  let ?w = "write_session_index demo_runtime ''s'' ''A'' (demo_world (Some ''s''))"
  let ?w1 = "clear_session_index demo_runtime ''s'' ?w"
  obtain st where st: "load_task ?w ''B'' = Some st" "\<not> truthy (dget st ''owner'')"
    by (simp add: load_task_def demo_tasks demo_task_def)
  have r: "clear_active_task demo_runtime demo_limits 2 ''s'' (Some ''B'') False ?w = Inr (?w1, True)"
    using st by (auto simp: clear_active_task_def demo_tasks release_target_def load_task_def)
  obtain w2 where w2: "set_task_dir demo_runtime demo_limits 3 7 ''s'' False ''C'' ?w1 = Inr (w2, True)"
    using claim_uncontested [of ?w1 "''C''" "demo_task 0 None" False demo_limits 3 "''s''" demo_runtime 7]
    by (auto simp: demo_tasks demo_unclaimed read_session_index_def session_index_clear)
  have "owner_is ?w ''A'' ''s''" by (simp add: demo_owner)
  from named_release_orphans [OF _ this st _ r w2] r w2 show ?thesis by auto
qed

end
