(* ===== verification/Task_Invariant.thy ===== *)
theory Task_Invariant
  imports Task_Handle
begin

text \<open>
  The invariant of a task directory between two operations, and that every transaction
  keeps it, also when it is cut short at any point and healed by the journal.
\<close>

subsection \<open>The version header survives a settlement\<close>

lemma hd_split_lines: "hd (split_lines s) = takeWhile (\<lambda>c. c \<noteq> newline) s"
  unfolding split_lines_def
proof (induction s)
  case (Cons c cs)
  then show ?case by (cases "split_on newline cs") auto
qed simp

lemma text_version_hd: "text_version s = header_version (strip (hd (split_lines s)))"
  by (simp add: text_version_def hd_split_lines)

lemma lstrip_strip_head: "strip l = c # r \<Longrightarrow> \<exists>r'. lstrip l = c # r'"
proof -
  assume "strip l = c # r"
  moreover obtain t where "lstrip l = rstrip (lstrip l) @ t" using rstrip_decomp by blast
  ultimately show ?thesis by (auto simp: strip_def)
qed

lemma header_not_item: "header_version (strip l) = Some v \<Longrightarrow> match_item l = None"
proof -
  assume "header_version (strip l) = Some v"
  then obtain r where "strip l = CHR ''#'' # r"
    by (auto simp: header_version_def split: list.splits char.splits bool.splits)
  then obtain r' where "lstrip l = CHR ''#'' # r'" using lstrip_strip_head by blast
  then show ?thesis by (simp add: match_item_def)
qed

lemma find_item_bounds:
  "find_item P i ls = Some (j, pid, g3) \<Longrightarrow>
   i \<le> j \<and> j < i + length ls \<and> match_item (ls ! (j - i)) = Some (CHR '' '', pid, g3) \<and> P j (ls ! (j - i))"
proof (induction P i ls rule: find_item.induct)
  case (2 P i l ls)
  then show ?case
    by (auto simp: nth_Cons split: option.splits if_splits nat.splits)
       (metis Suc_diff_Suc Suc_le_lessD diff_Suc_Suc nat.inject)+
qed simp

lemma find_item_pos:
  assumes "ls \<noteq> []" and "match_item (hd ls) = None" and "find_item P 0 ls = Some (j, pid, g3)"
  shows "0 < j \<and> j < length ls"
  using assms find_item_bounds [OF assms(3)] by (cases ls; cases j) auto

lemma hd_list_update: "0 < j \<Longrightarrow> hd (ls[j := x]) = hd ls"
  by (cases ls; cases j) auto

lemma hd_insert_line: "ls \<noteq> [] \<Longrightarrow> 0 < n \<Longrightarrow> hd (insert_line n x ls) = hd ls"
  by (cases ls; cases n) (auto simp: insert_line_def)

lemma table_end_pos: "table_end ls = Some n \<Longrightarrow> 0 < n"
  by (auto simp: table_end_def)

lemma promote_next_hd:
  assumes "ls \<noteq> []" and "match_item (hd ls) = None"
  shows "promote_next a ls \<noteq> [] \<and> hd (promote_next a ls) = hd ls"
  using assms find_item_pos [OF assms]
  by (auto simp: promote_next_def hd_list_update split: option.splits)

lemma append_row_hd: "ls \<noteq> [] \<Longrightarrow> append_row x ls \<noteq> [] \<and> hd (append_row x ls) = hd ls"
  by (auto simp: append_row_def hd_insert_line table_end_pos insert_line_def split: option.splits)

lemma settle_lines_hd:
  assumes "settle_lines rt d m ls = Inr (ls', pid, desc)" and "ls \<noteq> []" and "match_item (hd ls) = None"
  shows "ls' \<noteq> [] \<and> hd ls' = hd ls"
proof -
  from assms(1) obtain tag a g3 where
    a: "find_item (\<lambda>_ l. contains active_mark l) 0 ls = Some (a, pid, g3)" and
    ls': "ls' = append_row (history_line rt pid d m desc)
                 (promote_next a (ls[a := settled_line (ls ! a) pid tag desc]))"
    by (elim settle_linesE)
  have "0 < a" using find_item_pos [OF assms(2,3) a] by simp
  then have "hd (ls[a := settled_line (ls ! a) pid tag desc]) = hd ls" by (rule hd_list_update)
  with promote_next_hd [of "ls[a := settled_line (ls ! a) pid tag desc]" a] append_row_hd assms(2,3)
  show ?thesis unfolding ls' by fastforce
qed

lemma hd_split_join: "ls \<noteq> [] \<Longrightarrow> newline \<notin> set (hd ls) \<Longrightarrow> hd (split_lines (join_lines ls)) = hd ls"
proof (cases ls)
  case (Cons x xs)
  assume "newline \<notin> set (hd ls)"
  with Cons show ?thesis
    by (cases xs) (simp_all add: hd_split_lines join_lines_def takeWhile_until takeWhile_all)
qed simp

lemma settle_active_version:
  assumes "settle_active rt d m fs = Inr (fs', pid, desc)" and "Option.bind (plan_file fs) text_version = Some v"
  shows "\<exists>t. fs' = fs\<lparr>plan_file := Some t\<rparr> \<and> text_version t = Some v"
proof -
  obtain t ls where t: "plan_file fs = Some t" "text_version t = Some v"
    and s: "settle_lines rt d m (split_lines t) = Inr (ls, pid, desc)"
    and fs': "fs' = fs\<lparr>plan_file := Some (join_lines ls)\<rparr>"
    using assms by (auto simp: settle_active_def split: option.splits)
  have h: "header_version (strip (hd (split_lines t))) = Some v" using t(2) by (simp add: text_version_hd)
  have "ls \<noteq> [] \<and> hd ls = hd (split_lines t)"
    by (rule settle_lines_hd [OF s split_lines_not_Nil header_not_item [OF h]])
  moreover have "newline \<notin> set (hd (split_lines t))"
    using split_lines_no_nl [of t] by (cases "split_lines t") auto
  ultimately have "text_version (join_lines ls) = Some v"
    using h by (simp add: text_version_hd hd_split_join)
  with fs' show ?thesis by blast
qed

lemma settle_result_version:
  assumes "settle_result rt result fs = Inr (fs', report)" and "Option.bind (plan_file fs) text_version = Some v"
  shows "\<exists>t. fs' = fs\<lparr>plan_file := Some t\<rparr> \<and> text_version t = Some v"
proof -
  obtain t where t: "plan_file fs = Some t" "text_version t = Some v"
    using assms(2) by (cases "plan_file fs") auto
  consider "fs' = fs" | d m pid desc where "settle_active rt d m fs = Inr (fs', pid, desc)"
    using assms(1) by (auto simp: settle_result_def Let_def t split: if_splits)
  then show ?thesis
  proof cases
    case 1
    with t have "fs' = fs\<lparr>plan_file := Some t\<rparr>" by simp
    with t(2) show ?thesis by blast
  next
    case 2
    from settle_active_version [OF this assms(2)] show ?thesis .
  qed
qed

subsection \<open>The invariant\<close>

text \<open>The progress record a state dictionary holds.\<close>

definition state_progress :: "dict \<Rightarrow> Progress" where
  "state_progress st = from_dict (fmfilter (\<lambda>k. k \<in> set progress_fields) st)"

lemma load_progress_eq:
  "load_state fs = Some st \<Longrightarrow> truthy (dget st ''progress_initialized'') \<Longrightarrow>
   load_progress fs = Some (state_progress st)"
  by (simp add: load_progress_def state_progress_def)

text \<open>
  A committed task: the baseline ran, every progress field is present with its promised
  type, the state expects exactly the round at the end of the history and the version at the
  head of the plan, the log ends in a whole line and no journal is left over.
\<close>

definition committed_state :: "dict \<Rightarrow> nat \<Rightarrow> nat \<Rightarrow> bool" where
  "committed_state st n v \<longleftrightarrow> dget st ''progress_initialized'' = PBool True
     \<and> set progress_fields \<subseteq> fset (fmdom st) \<and> wf_progress (state_progress st)
     \<and> eval_rounds (state_progress st) = PInt (int n) \<and> plan_version (state_progress st) = PInt (int v)
     \<and> dget st ''expected_history_round'' = PInt (int n)
     \<and> expected_int st ''expected_plan_version'' = Inr (int v)"

definition plan_at :: "nat \<Rightarrow> task_fs \<Rightarrow> bool" where
  "plan_at v fs \<longleftrightarrow> (case plan_file fs of None \<Rightarrow> v = 0 | Some t \<Rightarrow> 0 < v \<and> text_version t = Some (int v))"

definition committed :: "nat \<Rightarrow> nat \<Rightarrow> task_fs \<Rightarrow> bool" where
  "committed n v fs \<longleftrightarrow> intent_file fs = NoFile \<and> history_eol fs \<and> plan_at v fs
     \<and> read_last_history_round fs = Inr (Some (int n))
     \<and> (\<exists>st. load_state fs = Some st \<and> committed_state st n v)"

definition uncommitted :: "task_fs \<Rightarrow> bool" where
  "uncommitted fs \<longleftrightarrow> intent_file fs = NoFile \<and> history_eol fs \<and> plan_file fs = None
     \<and> (history_file fs = None \<or> history_file fs = Some [])
     \<and> (\<forall>st. load_state fs = Some st \<longrightarrow> \<not> truthy (dget st ''progress_initialized'')
          \<and> expected_int st ''expected_plan_version'' = Inr 0
          \<and> expected_int st ''expected_history_round'' = Inr 0)"

definition task_inv :: "task_fs \<Rightarrow> bool" where
  "task_inv fs \<longleftrightarrow> uncommitted fs \<or> (\<exists>n v. committed n v fs)"

lemma committedE:
  assumes "committed n v fs"
  obtains st where "load_state fs = Some st" "committed_state st n v" "intent_file fs = NoFile"
    "history_eol fs" "plan_at v fs" "read_last_history_round fs = Inr (Some (int n))"
    "load_progress fs = Some (state_progress st)" "state_or_empty fs = st"
  using assms by (auto simp: committed_def committed_state_def load_progress_eq state_or_empty_def)

text \<open>Neither part of the invariant looks at the clock field.\<close>

lemma last_touched_not_progress: "''last_touched'' \<notin> set progress_fields"
  by (simp add: progress_fields_def)

lemma state_progress_touch [simp]: "state_progress (fmupd ''last_touched'' x st) = state_progress st"
  by (simp add: state_progress_def last_touched_not_progress)

lemma state_progress_drop: "state_progress (fmdrop ''last_touched'' st) = state_progress st"
proof -
  have "fmfilter (\<lambda>k. k \<in> set progress_fields) (fmdrop ''last_touched'' st) = fmfilter (\<lambda>k. k \<in> set progress_fields) st"
    using last_touched_not_progress by (intro fmap_ext) auto
  then show ?thesis by (simp add: state_progress_def)
qed

lemma dget_fmdrop: "k \<noteq> k' \<Longrightarrow> dget (fmdrop k d) k' = dget d k'"
  by (simp add: dget_def)

lemma committed_state_drop: "committed_state (fmdrop ''last_touched'' st) n v = committed_state st n v"
  using last_touched_not_progress
  by (auto simp: committed_state_def state_progress_drop dget_fmdrop expected_int_def)

lemma from_dict_filter:
  "from_dict (fmfilter (\<lambda>k. k \<in> set progress_fields) st) = from_kwargs (fmfilter (\<lambda>k. k \<in> set progress_fields) st)"
proof -
  have idem: "fmfilter P (fmfilter P st) = fmfilter P st" for P :: "string \<Rightarrow> bool"
    by (rule fmap_ext) simp
  have empty: "from_kwargs fmempty = Progress_default"
    by (simp only: from_kwargs_def Progress_default_def dget_default_def fmempty_lookup option.case)
  show ?thesis
    by (cases "fmfilter (\<lambda>k. k \<in> set progress_fields) st = fmempty")
       (simp_all only: from_dict_def idem empty if_True if_False simp_thms)
qed

lemma field_names:
  "''task'' \<in> set progress_fields"
  "''eval_rounds'' \<in> set progress_fields"
  "''max_rounds'' \<in> set progress_fields"
  "''consecutive_failures'' \<in> set progress_fields"
  "''best_metric'' \<in> set progress_fields"
  "''best_commit'' \<in> set progress_fields"
  "''best_speedup'' \<in> set progress_fields"
  "''baseline_metric'' \<in> set progress_fields"
  "''baseline_source'' \<in> set progress_fields"
  "''baseline_outcome'' \<in> set progress_fields"
  "''baseline_error_source'' \<in> set progress_fields"
  "''baseline_per_shape_us'' \<in> set progress_fields"
  "''baseline_fingerprint'' \<in> set progress_fields"
  "''seed_metric'' \<in> set progress_fields"
  "''plan_version'' \<in> set progress_fields"
  "''next_pid'' \<in> set progress_fields"
  "''num_cases'' \<in> set progress_fields"
  "''per_shape_descs'' \<in> set progress_fields"
  "''diagnose_attempts'' \<in> set progress_fields"
  "''diagnose_attempts_for_version'' \<in> set progress_fields"
  "''last_diagnose_failure_reason'' \<in> set progress_fields"
  "''last_stop_reason'' \<in> set progress_fields"
  "''last_stop_time'' \<in> set progress_fields"
  by (simp_all add: progress_fields_def)

lemma dget_default_filter:
  "k \<in> set progress_fields \<Longrightarrow>
   dget_default (fmfilter (\<lambda>k. k \<in> set progress_fields) st) k v = dget_default st k v"
  by (simp add: dget_default_def)

lemma state_progress_lookup:
  "task (state_progress st) = dget_default st ''task'' (PStr [])"
  "eval_rounds (state_progress st) = dget_default st ''eval_rounds'' (PInt 0)"
  "max_rounds (state_progress st) = dget_default st ''max_rounds'' (PInt 999)"
  "consecutive_failures (state_progress st) = dget_default st ''consecutive_failures'' (PInt 0)"
  "best_metric (state_progress st) = dget_default st ''best_metric'' (PNone)"
  "best_commit (state_progress st) = dget_default st ''best_commit'' (PNone)"
  "best_speedup (state_progress st) = dget_default st ''best_speedup'' (PNone)"
  "baseline_metric (state_progress st) = dget_default st ''baseline_metric'' (PNone)"
  "baseline_source (state_progress st) = dget_default st ''baseline_source'' (PNone)"
  "baseline_outcome (state_progress st) = dget_default st ''baseline_outcome'' (PNone)"
  "baseline_error_source (state_progress st) = dget_default st ''baseline_error_source'' (PNone)"
  "baseline_per_shape_us (state_progress st) = dget_default st ''baseline_per_shape_us'' (PNone)"
  "baseline_fingerprint (state_progress st) = dget_default st ''baseline_fingerprint'' (PNone)"
  "seed_metric (state_progress st) = dget_default st ''seed_metric'' (PNone)"
  "plan_version (state_progress st) = dget_default st ''plan_version'' (PInt 0)"
  "next_pid (state_progress st) = dget_default st ''next_pid'' (PInt 0)"
  "num_cases (state_progress st) = dget_default st ''num_cases'' (PNone)"
  "per_shape_descs (state_progress st) = dget_default st ''per_shape_descs'' (PNone)"
  "diagnose_attempts (state_progress st) = dget_default st ''diagnose_attempts'' (PInt 0)"
  "diagnose_attempts_for_version (state_progress st) = dget_default st ''diagnose_attempts_for_version'' (PNone)"
  "last_diagnose_failure_reason (state_progress st) = dget_default st ''last_diagnose_failure_reason'' (PNone)"
  "last_stop_reason (state_progress st) = dget_default st ''last_stop_reason'' (PNone)"
  "last_stop_time (state_progress st) = dget_default st ''last_stop_time'' (PNone)"
  by (simp_all add: state_progress_def from_dict_filter from_kwargs_def dget_default_filter field_names)

lemma dget_default_fmadd:
  "dget_default (d ++\<^sub>f e) k v = dget_default e k (dget_default d k v)"
  by (auto simp: dget_default_def fmlookup_dom_iff split: option.splits)

lemma dget_default_sanitize:
  "sanitize_floats v = v \<Longrightarrow> dget_default (sanitize_dict d) k v = sanitize_floats (dget_default d k v)"
  by (simp add: dget_default_def split: option.splits)

lemma sanitize_count: "is_count v \<Longrightarrow> sanitize_floats v = v"
  by (auto elim: is_countE)

lemma dget_from_default: "dget d k = dget_default d k PNone"
  by (simp add: dget_def dget_default_def)

lemma to_dict_fields: "fmfilter (\<lambda>k. k \<in> set progress_fields) (to_dict p) = to_dict p"
proof (rule fmap_ext)
  fix k
  show "fmlookup (fmfilter (\<lambda>k. k \<in> set progress_fields) (to_dict p)) k = fmlookup (to_dict p) k"
    using set_progress_fields_dom [of p] by (cases "fmlookup (to_dict p) k") (auto dest: fmdomI)
qed

text \<open>A record written whole over a state is the record read back.\<close>

lemma state_progress_written [simp]: "state_progress (st ++\<^sub>f to_dict p) = p"
proof -
  have "fmfilter (\<lambda>k. k \<in> set progress_fields) (st ++\<^sub>f to_dict p) = to_dict p"
  proof (rule fmap_ext)
    fix k
    have "k |\<in>| fmdom (to_dict p) \<longleftrightarrow> k \<in> set progress_fields" by (simp flip: set_progress_fields_dom [of p])
    then show "fmlookup (fmfilter (\<lambda>k. k \<in> set progress_fields) (st ++\<^sub>f to_dict p)) k = fmlookup (to_dict p) k"
      by (metis fmdom_notD fmlookup_add fmlookup_filter)
  qed
  then show ?thesis by (simp add: state_progress_def)
qed

lemma state_progress_control: "k \<notin> set progress_fields \<Longrightarrow> state_progress (fmupd k x st) = state_progress st"
  by (simp add: state_progress_def)

lemma phase_of_sanitized: "phase_of (sanitize_floats v) = phase_of v"
  by (cases v) (simp_all add: phase_of_def)

lemma expected_int_sanitize: "expected_int st k = Inr i \<Longrightarrow> expected_int (sanitize_dict st) k = Inr i"
  by (cases "dget st k") (auto simp: expected_int_def py_or_def py_int_def split: pyfloat.splits if_splits)

lemma committed_state_sanitize: "committed_state st n v \<Longrightarrow> committed_state (sanitize_dict st) n v"
  by (auto simp: committed_state_def wf_progress_def state_progress_lookup dget_default_sanitize
      expected_int_sanitize sanitize_count)

text \<open>Control fields the invariant does not mention.\<close>

definition control_key :: "string \<Rightarrow> bool" where
  "control_key k \<longleftrightarrow> k \<notin> set progress_fields
     \<and> k \<notin> {''progress_initialized'', ''expected_history_round'', ''expected_plan_version''}"

lemma control_keys [simp]:
  "control_key ''phase''" "control_key ''pending_settle''" "control_key ''owner''" "control_key ''last_touched''"
  by (simp_all add: control_key_def progress_fields_def)

lemma committed_state_control:
  "control_key k \<Longrightarrow> committed_state st n v \<Longrightarrow> committed_state (fmupd k x st) n v"
  by (auto simp: committed_state_def state_progress_control control_key_def expected_int_def)

lemma committed_save:
  assumes "committed_state st n v" and "intent_file fs = NoFile" and "history_eol fs" and "plan_at v fs"
    and "read_last_history_round fs = Inr (Some (int n))"
  shows "committed n v (save_state now st fs)"
  using assms committed_state_control [OF _ committed_state_sanitize [OF assms(1)], of "''last_touched''"]
  by (simp add: committed_def plan_at_def)

lemma untouched_frame [simp]:
  "intent_file (untouched fs) = intent_file fs" "history_file (untouched fs) = history_file fs"
  "history_eol (untouched fs) = history_eol fs" "plan_file (untouched fs) = plan_file fs"
  by (simp_all add: untouched_def split: option.splits)

lemma committed_untouched: "committed n v (untouched fs) = committed n v fs"
  by (cases "load_state fs")
     (simp_all add: committed_def plan_at_def read_last_history_round_def load_state_untouched
       committed_state_drop)

lemma uncommitted_untouched: "uncommitted (untouched fs) = uncommitted fs"
  by (cases "load_state fs")
     (simp_all add: uncommitted_def load_state_untouched dget_fmdrop expected_int_def)

lemma inv_same:
  assumes "same_task a b"
  shows "committed n v a \<longleftrightarrow> committed n v b" and "uncommitted a \<longleftrightarrow> uncommitted b"
    and "task_inv a \<longleftrightarrow> task_inv b"
  using assms committed_untouched [of n v] uncommitted_untouched
  unfolding same_task_def task_inv_def by (metis committed_untouched uncommitted_untouched)+

subsection \<open>The invariant gives consistency\<close>

lemma consistent_committed:
  assumes "committed n v fs"
  shows "\<exists>r. check_state_consistency fs = Inr r \<and> consistent r"
proof -
  obtain st where st: "load_state fs = Some st" "committed_state st n v" "plan_at v fs"
      "read_last_history_round fs = Inr (Some (int n))" using assms by (elim committedE)
  have "expected_int st ''expected_history_round'' = Inr (int n)"
      "expected_int st ''expected_plan_version'' = Inr (int v)"
    using st(2) by (auto simp: committed_state_def expected_int_PInt)
  then show ?thesis
    using st(1,3,4)
    by (auto simp: check_state_consistency_def plan_version_on_disk plan_at_def Let_def split: option.splits)
qed

lemma consistent_uncommitted:
  assumes "uncommitted fs"
  shows "\<exists>r. check_state_consistency fs = Inr r \<and> consistent r"
proof (cases "load_state fs")
  case None
  then show ?thesis by (simp add: check_state_consistency_def)
next
  case (Some st)
  then show ?thesis using assms
    by (auto simp: check_state_consistency_def uncommitted_def plan_version_on_disk
        read_last_history_round_def Let_def)
qed

lemma consistent_inv: "task_inv fs \<Longrightarrow> \<exists>r. check_state_consistency fs = Inr r \<and> consistent r"
  using consistent_committed consistent_uncommitted by (auto simp: task_inv_def)

subsection \<open>Rounds\<close>

lemma shape_frame [simp]:
  "eval_rounds (shape_progress_fields rt m p) = eval_rounds p"
  "max_rounds (shape_progress_fields rt m p) = max_rounds p"
  "consecutive_failures (shape_progress_fields rt m p) = consecutive_failures p"
  "plan_version (shape_progress_fields rt m p) = plan_version p"
  "next_pid (shape_progress_fields rt m p) = next_pid p"
  "diagnose_attempts (shape_progress_fields rt m p) = diagnose_attempts p"
  "best_metric (shape_progress_fields rt m p) = best_metric p"
  "best_commit (shape_progress_fields rt m p) = best_commit p"
  "seed_metric (shape_progress_fields rt m p) = seed_metric p"
  "baseline_outcome (shape_progress_fields rt m p) = baseline_outcome p"
  by (simp_all add: shape_progress_fields_def Let_def split: option.splits)

lemma decide_round_failures:
  assumes "decide_round c git p er = Inr ro" and "consecutive_failures p = PInt (int k)"
  shows "ro_failures ro = PInt (case ro_decision ro of FAIL \<Rightarrow> int k + 1 | DISCARD \<Rightarrow> int k | KEEP \<Rightarrow> 0)"
  using assms by (auto simp: decide_round_def Let_def split: decision.splits prod.splits if_splits)

lemma history_row_round: "history_row ev er ro r it desc = Inr h \<Longrightarrow> dget h ''round'' = r"
  by (auto simp: history_row_def Let_def dget_def split: if_splits option.splits)

lemma prepare_roundE:
  assumes "prepare_round rt c git ev desc it fs = Inr tx" and "load_progress fs = Some p"
  obtains er ro anchor where "eval_result_from_data ev = Inr er" "next_round p = Inr (rx_round tx)"
    "decide_round c git p er = Inr ro"
    "reduce_round_progress rt p er (rx_round tx) ro = Inr (rx_progress tx, anchor)"
    "history_row ev er ro (rx_round tx) it desc = Inr (rx_hist tx)"
    "rx_kd_json tx = kd_json_of c (rx_progress tx) er ro (rx_round tx) it"
  using assms by (auto simp: prepare_round_def Let_def)

lemma reduce_round_fields:
  assumes "reduce_round_progress rt p er r ro = Inr (p', anchor)"
  shows "eval_rounds p' = r" "consecutive_failures p' = ro_failures ro" "max_rounds p' = max_rounds p"
    "plan_version p' = plan_version p" "next_pid p' = next_pid p" "diagnose_attempts p' = diagnose_attempts p"
    "best_metric p' = ro_best_metric ro" "best_commit p' = ro_best_commit ro"
    "seed_metric p' = seed_metric p" "baseline_outcome p' = baseline_outcome p"
  using assms by (auto simp: reduce_round_progress_def)

lemma prepare_round_facts:
  assumes "prepare_round rt c git ev desc it fs = Inr tx" and "committed n v fs"
  shows "wf_round_txn (int n + 1) tx \<and> wf_progress (rx_progress tx)
     \<and> eval_rounds (rx_progress tx) = PInt (int n + 1) \<and> plan_version (rx_progress tx) = PInt (int v)"
proof -
  obtain st where st: "load_progress fs = Some (state_progress st)" "committed_state st n v"
    using assms(2) by (elim committedE)
  let ?p = "state_progress st"
  have wf: "wf_progress ?p" "eval_rounds ?p = PInt (int n)" "plan_version ?p = PInt (int v)"
    using st(2) by (simp_all add: committed_state_def)
  then obtain k where k: "consecutive_failures ?p = PInt (int k)"
    by (auto simp: wf_progress_def elim: is_countE)
  from prepare_roundE [OF assms(1) st(1)] obtain er ro anchor where
    r: "next_round ?p = Inr (rx_round tx)" "decide_round c git ?p er = Inr ro"
       "reduce_round_progress rt ?p er (rx_round tx) ro = Inr (rx_progress tx, anchor)"
       "history_row ev er ro (rx_round tx) it desc = Inr (rx_hist tx)" by metis
  have n: "rx_round tx = PInt (int n + 1)" using r(1) wf(2) by (simp add: next_round_def)
  have "is_count (ro_failures ro)" using decide_round_failures [OF r(2) k] by (simp split: decision.splits)
  then show ?thesis
    using reduce_round_fields [OF r(3)] history_row_round [OF r(4)] wf n
    by (simp add: wf_round_txn_def wf_progress_def)
qed

lemma round_patch_committed:
  assumes "committed_state st n v" and "rx_round tx = PInt (int n + 1)" and "wf_progress (rx_progress tx)"
    and "eval_rounds (rx_progress tx) = PInt (int n + 1)" and "plan_version (rx_progress tx) = PInt (int v)"
  shows "committed_state (st ++\<^sub>f round_patch tx) (Suc n) v"
proof -
  have keys: "''expected_history_round'' \<notin> set progress_fields" "''pending_settle'' \<notin> set progress_fields"
      "''progress_initialized'' \<notin> set progress_fields" "''expected_plan_version'' \<notin> set progress_fields"
    by (simp_all add: progress_fields_def)
  have nd: "fmlookup (to_dict (rx_progress tx)) k = None" if "k \<notin> set progress_fields" for k
    using that set_progress_fields_dom [of "rx_progress tx"] by (metis fmdom_notD)
  show ?thesis
    using assms keys
    by (auto simp: committed_state_def round_patch_def state_progress_control dget_fmadd nd expected_int_def)
qed

lemma round_keeps_committed:
  assumes "committed n v fs" and "prepare_round rt c git ev desc it fs = Inr tx"
  shows "committed (Suc n) v (fold (\<lambda>step s. step s) (round_steps now tx) fs)"
proof -
  obtain st where st: "load_state fs = Some st" "committed_state st n v" "state_or_empty fs = st"
      "intent_file fs = NoFile" "history_eol fs" "plan_at v fs" using assms(1) by (elim committedE)
  have f: "wf_round_txn (int n + 1) tx" "wf_progress (rx_progress tx)"
      "eval_rounds (rx_progress tx) = PInt (int n + 1)" "plan_version (rx_progress tx) = PInt (int v)"
    using prepare_round_facts [OF assms(2,1)] by auto
  then have "committed_state (st ++\<^sub>f round_patch tx) (Suc n) v"
    using st(2) by (intro round_patch_committed) (auto simp: wf_round_txn_def)
  then have "committed (Suc n) v (save_state now (st ++\<^sub>f round_patch tx)
      (clear_intent (append_history (rx_hist tx) (write_intent (round_intent tx) fs))))"
    using st f(1) read_last_round_append [of "write_intent (round_intent tx) fs" "rx_hist tx" "int n + 1"]
    by (intro committed_save) (auto simp: wf_round_txn_def plan_at_def add.commute)
  then show ?thesis using st(3) by (simp add: round_steps_def commit_patch_def clear_save)
qed

lemma round_pre_committed:
  assumes "committed n v fs" and "prepare_round rt c git ev desc it fs = Inr tx"
  shows "round_pre (int n + 1) tx fs"
proof -
  obtain st where st: "committed_state st n v" "state_or_empty fs = st" "intent_file fs = NoFile"
      "history_eol fs" "read_last_history_round fs = Inr (Some (int n))" using assms(1) by (elim committedE)
  then show ?thesis
    using prepare_round_facts [OF assms(2,1)]
    by (auto simp: round_pre_def round_caught_up_def round_landed_def committed_state_def)
qed

subsection \<open>Plans\<close>

lemma fmlookup_to_dict:
  "fmlookup (to_dict p) ''task'' = Some (task p)"
  "fmlookup (to_dict p) ''eval_rounds'' = Some (eval_rounds p)"
  "fmlookup (to_dict p) ''max_rounds'' = Some (max_rounds p)"
  "fmlookup (to_dict p) ''consecutive_failures'' = Some (consecutive_failures p)"
  "fmlookup (to_dict p) ''best_metric'' = Some (best_metric p)"
  "fmlookup (to_dict p) ''best_commit'' = Some (best_commit p)"
  "fmlookup (to_dict p) ''best_speedup'' = Some (best_speedup p)"
  "fmlookup (to_dict p) ''baseline_metric'' = Some (baseline_metric p)"
  "fmlookup (to_dict p) ''baseline_source'' = Some (baseline_source p)"
  "fmlookup (to_dict p) ''baseline_outcome'' = Some (baseline_outcome p)"
  "fmlookup (to_dict p) ''baseline_error_source'' = Some (baseline_error_source p)"
  "fmlookup (to_dict p) ''baseline_per_shape_us'' = Some (baseline_per_shape_us p)"
  "fmlookup (to_dict p) ''baseline_fingerprint'' = Some (baseline_fingerprint p)"
  "fmlookup (to_dict p) ''seed_metric'' = Some (seed_metric p)"
  "fmlookup (to_dict p) ''plan_version'' = Some (plan_version p)"
  "fmlookup (to_dict p) ''next_pid'' = Some (next_pid p)"
  "fmlookup (to_dict p) ''num_cases'' = Some (num_cases p)"
  "fmlookup (to_dict p) ''per_shape_descs'' = Some (per_shape_descs p)"
  "fmlookup (to_dict p) ''diagnose_attempts'' = Some (diagnose_attempts p)"
  "fmlookup (to_dict p) ''diagnose_attempts_for_version'' = Some (diagnose_attempts_for_version p)"
  "fmlookup (to_dict p) ''last_diagnose_failure_reason'' = Some (last_diagnose_failure_reason p)"
  "fmlookup (to_dict p) ''last_stop_reason'' = Some (last_stop_reason p)"
  "fmlookup (to_dict p) ''last_stop_time'' = Some (last_stop_time p)"
  by (simp_all add: to_dict_def fmlookup_of_list)

lemma to_dict_state_progress:
  assumes "set progress_fields \<subseteq> fset (fmdom st)"
  shows "st ++\<^sub>f to_dict (state_progress st) = st"
proof (rule fmap_ext)
  fix k
  show "fmlookup (st ++\<^sub>f to_dict (state_progress st)) k = fmlookup st k"
  proof (cases "k \<in> set progress_fields")
    case True
    then have "k |\<in>| fmdom st" using assms by auto
    then obtain x where x: "fmlookup st k = Some x" by (auto simp: fmlookup_dom_iff)
    then have "dget_default st k d = x" for d by (simp add: dget_default_def)
    with True have "fmlookup (to_dict (state_progress st)) k = Some x"
      unfolding progress_fields_def
      by (simp only: list.set insert_iff empty_iff) (elim disjE FalseE; simp add: fmlookup_to_dict state_progress_lookup)
    with x show ?thesis by (simp add: fmlookup_dom_iff)
  next
    case False
    then have "k |\<notin>| fmdom (to_dict (state_progress st))" by (simp flip: set_progress_fields_dom [of "state_progress st"])
    then show ?thesis by simp
  qed
qed

lemma to_dict_eqI:
  assumes "fset (fmdom e) = set progress_fields" and "from_kwargs e = p"
  shows "to_dict p = e"
proof -
  have f: "fmfilter (\<lambda>k. k \<in> set progress_fields) e = e"
    using assms(1) by (intro fmfilter_id) auto
  have "state_progress e = p" using assms(2) f from_dict_filter [of e] by (simp add: state_progress_def)
  then have e: "e ++\<^sub>f to_dict p = e" using to_dict_state_progress [of e] assms(1) by simp
  show ?thesis
  proof (rule fmap_ext)
    fix k
    show "fmlookup (to_dict p) k = fmlookup e k"
      using arg_cong [OF e, of "\<lambda>m. fmlookup m k"] set_progress_fields_dom [of p] assms(1)
      by (cases "k |\<in>| fmdom (to_dict p)") (auto simp: fmdom_notD)
  qed
qed

lemma to_dict_update:
  "to_dict (p\<lparr>plan_version := a\<rparr>) = fmupd ''plan_version'' a (to_dict p)"
  "to_dict (p\<lparr>next_pid := a\<rparr>) = fmupd ''next_pid'' a (to_dict p)"
  "to_dict (p\<lparr>consecutive_failures := a\<rparr>) = fmupd ''consecutive_failures'' a (to_dict p)"
  by (rule to_dict_eqI, simp add: set_progress_fields_dom insert_absorb field_names,
      simp add: from_kwargs_def to_dict_lookup)+

lemma prepare_planE:
  assumes "prepare_plan rt items fs = Inr (tx, out)" and "load_progress fs = Some p"
  obtains version ids pid where "py_inc (plan_version p) = Inr version"
    "allocate_ids rt (length items) (compute_next_pid (next_pid p) fs) = Inr (ids, pid)"
    "can_commit_plan (state_or_empty fs)"
    "tx = \<lparr>px_version = version, px_text = render (py_str rt version) ids items (parse_settled_history fs),
            px_patch = plan_patch (state_or_empty fs) version pid,
            px_progress = plan_progress (state_or_empty fs) version pid p\<rparr>"
    "out = \<lparr>po_version = version, po_item_ids = ids, po_dropped = map pi_id (parse_pending fs)\<rparr>"
  using assms by (auto simp: prepare_plan_def Let_def split: if_splits)

lemma compute_next_pid_count: "is_count v \<Longrightarrow> \<exists>k. compute_next_pid v fs = PInt (int (Suc k))"
proof (erule is_countE)
  fix n assume v: "v = PInt (int n)"
  have "1 \<le> fold (\<lambda>p m. max m (p + 1)) ps (m :: nat)" if "1 \<le> m" for ps m
    using that by (induction ps arbitrary: m) (auto simp: max_def)
  then have "\<exists>k. fold (\<lambda>p m. max m (p + 1)) ps 1 = Suc k" for ps :: "nat list"
    by (metis Suc_le_D One_nat_def order_refl)
  then have "\<exists>k. int (fold (\<lambda>p m. max m (p + 1)) ps 1) = int (Suc k)" for ps :: "nat list"
    by metis
  then show ?thesis
    using v by (cases n) (auto simp: compute_next_pid_def simp del: of_nat_Suc split: option.splits intro: exI [of _ 0])
qed

lemma allocate_ids_count:
  assumes "allocate_ids rt m (PInt (int k)) = Inr (ids, pid)"
  shows "pid = PInt (int k + int m)"
  using assms by (auto simp: allocate_ids_def py_add_def)

lemma plan_patch_absorb:
  assumes "set progress_fields \<subseteq> fset (fmdom st)"
  shows "st ++\<^sub>f to_dict (plan_progress st a b (state_progress st)) ++\<^sub>f plan_patch st a b = st ++\<^sub>f plan_patch st a b"
proof -
  let ?patch = "plan_patch st a b"
  let ?diag = "py_eq (dget_default st ''phase'' (PStr (phase_name INIT))) (PStr (phase_name DIAGNOSE))"
  have dom: "''plan_version'' |\<in>| fmdom ?patch" "''next_pid'' |\<in>| fmdom ?patch"
      "?diag \<Longrightarrow> ''consecutive_failures'' |\<in>| fmdom ?patch"
    by (simp_all add: plan_patch_def)
  show ?thesis
    unfolding plan_progress_def Let_def
    by (cases ?diag) (simp_all only: if_True if_False to_dict_update fmadd_fmupd to_dict_state_progress [OF assms]
        fmadd_shadow dom)
qed

lemma plan_patch_committed:
  assumes "committed_state st n v" and "is_count pid"
  shows "committed_state (st ++\<^sub>f plan_patch st (PInt (int v + 1)) pid) n (Suc v)"
  using assms
  by (auto simp: committed_state_def wf_progress_def state_progress_lookup dget_default_fmadd plan_patch_def
      dget_from_default expected_int_PInt sanitize_count)

lemma prepare_plan_facts:
  assumes "prepare_plan rt items fs = Inr (tx, out)" and "committed n v fs"
  shows "plan_pre (int v + 1) tx fs \<and> committed n (Suc v) (fold (\<lambda>step s. step s) (plan_steps now tx) fs)"
proof -
  obtain st where st: "load_state fs = Some st" "committed_state st n v" "load_progress fs = Some (state_progress st)"
      "state_or_empty fs = st" "intent_file fs = NoFile" "history_eol fs" "plan_at v fs"
      "read_last_history_round fs = Inr (Some (int n))"
    using assms(2) by (elim committedE)
  from prepare_planE [OF assms(1) st(3)] obtain version ids pid where
    pl: "py_inc (plan_version (state_progress st)) = Inr version"
      "allocate_ids rt (length items) (compute_next_pid (next_pid (state_progress st)) fs) = Inr (ids, pid)"
      "tx = \<lparr>px_version = version, px_text = render (py_str rt version) ids items (parse_settled_history fs),
            px_patch = plan_patch st version pid, px_progress = plan_progress st version pid (state_progress st)\<rparr>"
    using st(4) by metis
  have v: "version = PInt (int v + 1)" using pl(1) st(2) by (simp add: committed_state_def)
  have "is_count (next_pid (state_progress st))" using st(2) by (simp add: committed_state_def wf_progress_def)
  then obtain k where "compute_next_pid (next_pid (state_progress st)) fs = PInt (int (Suc k))"
    using compute_next_pid_count by blast
  then have "is_count pid" using allocate_ids_count [of rt "length items" "Suc k" ids pid] pl(2) by simp
  note cs = plan_patch_committed [OF st(2) this]
  have dom: "set progress_fields \<subseteq> fset (fmdom st)" using st(2) by (simp add: committed_state_def)
  have wf: "wf_plan_txn (int v + 1) st tx"
    using plan_patch_absorb [OF dom] field_names text_version_render [of "int v + 1"]
    by (auto simp: wf_plan_txn_def pl(3) v py_str_def plan_patch_def patch_key_def intent_control_fields_def)
  have "plan_pre (int v + 1) tx fs"
    using st wf by (auto simp: plan_pre_def plan_caught_up_def plan_landed_def plan_version_on_disk
        committed_state_def plan_at_def split: option.splits)
  moreover have "committed n (Suc v) (save_state now (st ++\<^sub>f px_patch tx)
      (clear_intent (put_plan (px_text tx) (write_intent (plan_intent tx) fs))))"
    using st cs wf
    by (intro committed_save) (auto simp: pl(3) v plan_at_def wf_plan_txn_def read_last_history_round_def add.commute)
  ultimately show ?thesis
    using plan_commit_eq [of "put_plan (px_text tx) (write_intent (plan_intent tx) fs)" st "int v + 1" tx now] st wf
    by (simp add: plan_steps_def clear_save)
qed

subsection \<open>Baseline\<close>

lemma not_truthy_sanitize: "\<not> truthy v \<Longrightarrow> \<not> truthy (sanitize_floats v)"
  by (cases v) (auto simp: sanitize_dict_def [symmetric])

lemma expected_int_fmupd: "k \<noteq> k' \<Longrightarrow> expected_int (fmupd k x d) k' = expected_int d k'"
  by (simp add: expected_int_def)

lemma uncommitted_state:
  assumes "uncommitted fs"
  shows "\<not> truthy (dget (state_or_empty fs) ''progress_initialized'')"
    and "expected_int (state_or_empty fs) ''expected_plan_version'' = Inr 0"
    and "expected_int (state_or_empty fs) ''expected_history_round'' = Inr 0"
  using assms by (cases "load_state fs"; simp add: uncommitted_def state_or_empty_def expected_int_def py_or_def)+

lemma uncommitted_save:
  assumes "uncommitted fs" and "\<not> truthy (dget st ''progress_initialized'')"
    and "expected_int st ''expected_plan_version'' = Inr 0" and "expected_int st ''expected_history_round'' = Inr 0"
  shows "uncommitted (save_state now st fs)"
  using assms expected_int_sanitize [OF assms(3)] expected_int_sanitize [OF assms(4)]
  by (auto simp: uncommitted_def not_truthy_sanitize expected_int_def)

lemma uncommitted_clear: "uncommitted fs \<Longrightarrow> uncommitted (clear_intent fs)"
  by (simp add: uncommitted_def)

lemma park_keeps: "uncommitted fs \<Longrightarrow> uncommitted (park_baseline now fs)"
  unfolding park_baseline_def
  by (intro uncommitted_clear uncommitted_save) (simp_all add: uncommitted_state expected_int_fmupd)

lemma uncommitted_log: "uncommitted fs \<Longrightarrow> read_last_history_round fs = Inr None \<and> \<not> existing_seed_row fs"
  by (auto simp: uncommitted_def read_last_history_round_def existing_seed_row_def)

lemma seed_row_round [simp]: "dget (seed_row br h) ''round'' = PInt 0"
  by (simp add: seed_row_def dget_def)

lemma baseline_pre_uncommitted:
  "uncommitted fs \<Longrightarrow> dget (bx_row tx) ''round'' = PInt 0 \<Longrightarrow> baseline_pre tx fs"
  using uncommitted_state [of fs] uncommitted_log [of fs]
  by (auto simp: baseline_pre_def baseline_caught_up_def round_landed_def uncommitted_def)

lemma reduce_baseline_facts:
  assumes "reduce_baseline_init rt ex c ev head = Inr br" and "is_count (tc_max_rounds c)"
  shows "wf_progress (br_progress br)" "eval_rounds (br_progress br) = PInt 0" "plan_version (br_progress br) = PInt 0"
  using assms by (auto simp: reduce_baseline_init_def Let_def wf_progress_def Progress_default_def)

lemma control_not_field:
  "''expected_history_round'' \<notin> set progress_fields" "''pending_settle'' \<notin> set progress_fields"
  "''progress_initialized'' \<notin> set progress_fields" "''expected_plan_version'' \<notin> set progress_fields"
  "''phase'' \<notin> set progress_fields"
  by (simp_all add: progress_fields_def)

lemma to_dict_no_control: "k \<notin> set progress_fields \<Longrightarrow> fmlookup (to_dict p) k = None"
  using set_progress_fields_dom [of p] by (metis fmdom_notD)

lemma baseline_patch_committed:
  assumes "wf_progress (bx_progress tx)" "eval_rounds (bx_progress tx) = PInt 0" "plan_version (bx_progress tx) = PInt 0"
    and "expected_int st ''expected_plan_version'' = Inr 0"
  shows "committed_state (st ++\<^sub>f baseline_patch tx) 0 0"
proof -
  have "set progress_fields \<subseteq> fset (fmdom (st ++\<^sub>f baseline_patch tx))"
    using set_progress_fields_dom [of "bx_progress tx"] by (auto simp: baseline_patch_def)
  then show ?thesis
    using assms
    by (auto simp: committed_state_def baseline_patch_def state_progress_control control_not_field dget_fmadd
        to_dict_no_control expected_int_def)
qed

lemma baseline_keeps:
  assumes "uncommitted fs" and "wf_progress (bx_progress tx)" "eval_rounds (bx_progress tx) = PInt 0"
    "plan_version (bx_progress tx) = PInt 0" and "dget (bx_row tx) ''round'' = PInt 0"
  shows "committed 0 0 (fold (\<lambda>step s. step s) (baseline_steps now tx) fs)"
proof -
  let ?fs = "append_history (bx_row tx) (write_intent (baseline_intent tx) fs)"
  have f: "history_eol fs" "plan_file fs = None" using assms(1) by (auto simp: uncommitted_def)
  have "committed_state (state_or_empty fs ++\<^sub>f baseline_patch tx) 0 0"
    using baseline_patch_committed assms(2-4) uncommitted_state [OF assms(1)] by blast
  then have "committed 0 0 (save_state now (state_or_empty fs ++\<^sub>f baseline_patch tx) (clear_intent ?fs))"
    using f read_last_round_append [of "write_intent (baseline_intent tx) fs" "bx_row tx" 0] assms(5)
    by (intro committed_save) (auto simp: plan_at_def)
  then show ?thesis
    using uncommitted_log [OF assms(1)]
    by (simp add: baseline_steps_def commit_patch_def clear_save append_seed_def)
qed

lemma run_baseline_cases:
  assumes "run_baseline_init rt now (Some c) git ev fs = Inr (fs', rc)"
  obtains (park) "fs' = park_baseline now fs"
  | (commit) br ex head where "reduce_baseline_init rt ex c ev head = Inr br"
      "fs' = fold (\<lambda>step s. step s) (baseline_steps now \<lparr>bx_progress = br_progress br, bx_row = seed_row br head\<rparr>) fs"
  using assms by (auto simp: run_baseline_init_def Let_def split: if_splits)

lemma baseline_commit_keeps:
  assumes "uncommitted fs" and "reduce_baseline_init rt ex c ev head = Inr br" and "is_count (tc_max_rounds c)"
  shows "committed 0 0 (fold (\<lambda>step s. step s)
           (baseline_steps now \<lparr>bx_progress = br_progress br, bx_row = seed_row br head\<rparr>) fs)"
  using baseline_keeps [OF assms(1), of "\<lparr>bx_progress = br_progress br, bx_row = seed_row br head\<rparr>"]
    reduce_baseline_facts [OF assms(2,3)] by simp

subsection \<open>Settlement, activation, heartbeat\<close>

lemma committed_frame:
  "committed n v fs \<Longrightarrow> committed n v (fs\<lparr>edit_marker := b\<rparr>)"
  by (simp add: committed_def plan_at_def read_last_history_round_def load_state_def)

lemma committed_plan_text:
  "committed n v fs \<Longrightarrow> 0 < v \<Longrightarrow> text_version t = Some (int v) \<Longrightarrow> committed n v (fs\<lparr>plan_file := Some t\<rparr>)"
  by (simp add: committed_def plan_at_def read_last_history_round_def load_state_def)

lemma settle_result_keeps:
  assumes "committed n v fs" and "settle_result rt d fs = Inr (fs', report)"
  shows "committed n v fs'"
proof -
  obtain t where t: "plan_file fs = Some t"
    using assms(2) by (cases "plan_file fs") (auto simp: settle_result_def)
  with assms(1) have v: "0 < v" "Option.bind (plan_file fs) text_version = Some (int v)"
    by (auto simp: committed_def plan_at_def)
  from settle_result_version [OF assms(2) v(2)] obtain t' where
    "fs' = fs\<lparr>plan_file := Some t'\<rparr>" "text_version t' = Some (int v)" by blast
  then show ?thesis using committed_plan_text [OF assms(1) v(1)] by simp
qed

lemma committed_resave:
  assumes "committed n v fs" and "load_state fs = Some st" and "committed_state st' n v"
  shows "committed n v (save_state now st' fs)"
  using assms by (intro committed_save) (auto simp: committed_def)

lemma settle_round_keeps:
  assumes "committed n v fs" and "settle_round rt cfg now fs = (fs', r)"
  shows "committed n v fs'"
proof (cases "fs' = fs")
  case False
  then obtain pending fs1 report where p: "settle_result rt pending fs = Inr (fs1, report)"
    and fs': "fs' = fs1 \<or> (\<exists>ph st. load_state fs1 = Some st \<and> fs' = drop_marker (save_state now (settle_state ph st) fs1))"
    using assms(2)
    by (auto simp: settle_round_def reading_def split: sum.splits pyval.splits option.splits) blast
  have c: "committed n v fs1" by (rule settle_result_keeps [OF assms(1) p])
  have "committed n v (drop_marker (save_state now (settle_state ph st) fs1))" if st: "load_state fs1 = Some st" for ph st
  proof -
    have "committed_state st n v" using c st by (auto simp: committed_def)
    then have "committed_state (settle_state ph st) n v"
      unfolding settle_state_def by (intro committed_state_control) simp_all
    from committed_resave [OF c st this] show ?thesis
      unfolding drop_marker_def by (rule committed_frame)
  qed
  with fs' c show ?thesis by blast
qed (use assms(1) in simp)

lemma phase_save_keeps:
  assumes "task_inv fs"
  shows "task_inv (save_state now (fmupd ''phase'' x (state_or_empty fs)) fs)"
proof (cases "uncommitted fs")
  case True
  then have "uncommitted (save_state now (fmupd ''phase'' x (state_or_empty fs)) fs)"
    by (intro uncommitted_save) (simp_all add: uncommitted_state expected_int_fmupd)
  then show ?thesis by (simp add: task_inv_def)
next
  case False
  with assms obtain n v where c: "committed n v fs" by (auto simp: task_inv_def)
  then obtain st where st: "load_state fs = Some st" "committed_state st n v" "state_or_empty fs = st"
    by (elim committedE)
  then have "committed n v (save_state now (fmupd ''phase'' x st) fs)"
    by (intro committed_resave [OF c st(1)] committed_state_control) simp_all
  then show ?thesis using st(3) by (auto simp: task_inv_def)
qed

lemma activate_keeps: "task_inv fs \<Longrightarrow> activate now fresh fs = (fs', r) \<Longrightarrow> task_inv fs'"
  by (auto simp: activate_def reading_def phase_save_keeps split: sum.splits if_splits)

lemma fresh_state_facts:
  "\<not> truthy (dget (fresh_state now) ''progress_initialized'')"
  "expected_int (fresh_state now) ''expected_plan_version'' = Inr 0"
  "expected_int (fresh_state now) ''expected_history_round'' = Inr 0"
  by (simp_all add: fresh_state_def dget_def expected_int_def py_or_def)

lemma touch_keeps: "task_inv fs \<Longrightarrow> task_inv (touch_heartbeat now fs)"
proof (cases "uncommitted fs")
  case True
  have "\<not> truthy (dget (state_or_fresh now fs) ''progress_initialized'')"
      "expected_int (state_or_fresh now fs) ''expected_plan_version'' = Inr 0"
      "expected_int (state_or_fresh now fs) ''expected_history_round'' = Inr 0"
    using True fresh_state_facts [of now]
    by (cases "load_state fs"; simp add: uncommitted_def state_or_fresh_def)+
  with True show ?thesis unfolding touch_heartbeat_def task_inv_def by (blast intro: uncommitted_save)
next
  case False
  assume "task_inv fs"
  with False obtain n v where c: "committed n v fs" by (auto simp: task_inv_def)
  then obtain st where st: "load_state fs = Some st" "committed_state st n v" by (elim committedE)
  then have "st \<noteq> fmempty" by (auto simp: committed_state_def)
  with st have "state_or_fresh now fs = st" by (simp add: state_or_fresh_def)
  with committed_resave [OF c st(1,2)] show ?thesis by (auto simp: touch_heartbeat_def task_inv_def)
qed

end
