(* ===== verification/Hook_Facts.thy ===== *)
theory Hook_Facts
  imports Hooks Ownership_Steps Task_Invariant
begin

text \<open>
  What the decision layer guarantees: machine-maintained files stay out of the agent's reach, and a
  diagnosis ends, by an artifact that validates or by the attempt cap, with a plan allowed.
\<close>

subsection \<open>Protected files\<close>

lemma starts_with_common [simp]: "starts_with (p @ a) (p @ b) = starts_with a b"
  by (induction p) auto

lemma task_at_put [simp]: "task_at (put_task td fs w) td' = (if td' = td then fs else task_at w td')"
  by (simp add: task_at_def)

lemma git_gate_phase: "edit_phase_git_gate h td es w = (w', r) \<Longrightarrow> read_phase (task_at w' td) = read_phase (task_at w td)"
  by (auto simp: edit_phase_git_gate_def read_phase_def load_state_def split: if_splits list.splits)

lemma blocked_block [simp]: "d_block (blocked r) = Some r" "d_block proceed = None"
  by (simp_all add: blocked_def proceed_def)

text \<open>
  C35. An edit the hook lets pass below the \<open>.ar_state\<close> directory of a task is of the plan input, in
  a phase where a plan may be created, or of a diagnosis artifact, in phase DIAGNOSE: the state, the
  history, the plan, the intent and the report are never writable.
\<close>

theorem state_files_protected:
  assumes "decide h (PreEdit p) w = (w', Inr d)" and "d_block d = None" and "p \<noteq> []"
    and "task_dir_from_edit_target w (h_abspath h p) = Some td" and "h_abspath h p = td @ ''/.ar_state/'' @ f" and "td \<noteq> ''/''"
  shows "f = ''plan_items.xml'' \<and> read_phase (task_at w' td) \<in> {PLAN, REPLAN, DIAGNOSE, EDIT}
    \<or> is_diagnose_artifact (''.ar_state/'' @ f) \<and> read_phase (task_at w' td) = DIAGNOSE"
proof -
  let ?w1 = "touch_task (h_now h) td w"
  let ?fs = "task_at ?w1 td"
  have rel: "rel_to_task (h_abspath h p) td = Some (''.ar_state/'' @ f)"
    using assms(5,6) by (simp add: rel_to_task_def sep_def Let_def)
  have d: "pre_edit h p w = (w', Inr d)" using assms(1) by (simp add: decide_def)
  obtain action where ok: "check_edit (read_phase ?fs) (''.ar_state/'' @ f) (case h_editable h td of None \<Rightarrow> [] | Some es \<Rightarrow> es) action
        (read_phase ?fs = EDIT \<and> has_pending_settle ?fs)"
    and w': "w' = ?w1 \<or> (\<exists>es. edit_phase_git_gate h td es ?w1 = (w', Inr d))"
    using d assms(2,3)
    by (auto simp: pre_edit_def assms(4) rel Let_def check_then_def split: sum.splits if_splits)
  have "read_phase (task_at w' td) = read_phase ?fs" using w' git_gate_phase by blast
  then show ?thesis using ok by (auto simp: check_edit_def split: if_splits)
qed

subsection \<open>The gates of a diagnosis\<close>

text \<open>A session whose index points to the task it owns is answered for that task.\<close>

definition drives :: "hook_env \<Rightarrow> world \<Rightarrow> string \<Rightarrow> bool" where
  "drives h w td \<longleftrightarrow> h_session h \<noteq> [] \<and> td \<noteq> [] \<and> read_session_index (h_rt h) (h_session h) w = Some td
     \<and> owner_is w td (h_session h)"

lemma drives_get: "drives h w td \<Longrightarrow> get_task_dir (h_rt h) now (h_session h) env w = Inr (w, td)"
  by (auto simp: drives_def get_task_dir_def current_session_task_dir_def owner_is_def split: option.splits)

lemma drives_with_task: "drives h w td \<Longrightarrow> with_task h k w = k td (touch_task (h_now h) td w)"
  by (simp add: with_task_def drives_get) (simp add: drives_def)

lemma drives_put:
  assumes "drives h w td" and "\<And>s. fs_owner fs s \<longleftrightarrow> fs_owner (task_at w td) s"
  shows "drives h (put_task td fs w) td"
proof -
  have t: "fmlookup (tasks w) td = Some (task_at w td)"
    using assms(1) owner_is_task [of w td] by (auto simp: drives_def task_at_def split: option.splits)
  have "owner_is (put_task td fs w) td s = owner_is w td s" for s
    using assms(2) fs_owner_task [OF t] by (simp add: owner_is_put_fs)
  then show ?thesis using assms(1) by (auto simp: drives_def read_session_index_def Let_def split: option.splits if_splits)
qed

lemma drives_touch: "drives h w td \<Longrightarrow> drives h (touch_task now td w) td"
  unfolding touch_task_def by (rule drives_put) (simp_all add: touch_owner)

text \<open>Phase DIAGNOSE for plan version \<open>v\<close> after \<open>n\<close> failed attempts, without a valid artifact.\<close>

definition diag_core :: "nat \<Rightarrow> nat \<Rightarrow> dict \<Rightarrow> bool" where
  "diag_core v n st \<longleftrightarrow> dget st ''progress_initialized'' = PBool True \<and> plan_version (state_progress st) = PInt (int v)
     \<and> (if py_eq (diagnose_attempts_for_version (state_progress st)) (PInt (int v))
        then diagnose_attempts (state_progress st) = PInt (int n) else n = 0)"

definition diagnosing :: "runtime \<Rightarrow> nat \<Rightarrow> nat \<Rightarrow> task_fs \<Rightarrow> bool" where
  "diagnosing rt v n fs \<longleftrightarrow>
     (\<exists>st. load_state fs = Some st \<and> phase_of (dget st ''phase'') = Some DIAGNOSE \<and> diag_core v n st)
     \<and> (\<exists>err. validate_diagnose rt fs (PInt (int v)) = Inr (Some err))"

lemma diagnosing_phase: "diagnosing rt v n fs \<Longrightarrow> read_phase fs = DIAGNOSE"
  by (auto simp: diagnosing_def read_phase_def)

lemma diagnosing_state:
  assumes "diagnosing rt v n fs"
  shows "\<exists>st. diagnose_state rt cfg fs = Inr st \<and> ds_plan_version st = PInt (int v) \<and> ds_attempts st = PInt (int n)
     \<and> ds_action st = (if int n \<ge> diagnose_max_attempts cfg then MANUAL_FALLBACK else NEED_DIAGNOSIS)"
proof -
  from assms obtain st err where st: "load_state fs = Some st" "truthy (dget st ''progress_initialized'')"
    "plan_version (state_progress st) = PInt (int v)"
    "if py_eq (diagnose_attempts_for_version (state_progress st)) (PInt (int v))
      then diagnose_attempts (state_progress st) = PInt (int n) else n = 0"
    and err: "validate_diagnose rt fs (PInt (int v)) = Inr (Some err)" by (auto simp: diagnosing_def diag_core_def)
  let ?d = "to_dict (state_progress st)"
  have pv: "py_or (dget_default ?d ''plan_version'' (PInt 0)) (PInt 0) = PInt (int v)"
    by (simp add: to_dict_lookup st(3) py_or_def)
  have at: "(if py_eq (dget ?d ''diagnose_attempts_for_version'') (PInt (int v))
      then py_or (dget_default ?d ''diagnose_attempts'' (PInt 0)) (PInt 0) else PInt 0) = PInt (int n)"
    using st(4) by (simp add: dget_from_default to_dict_lookup py_or_def split: if_splits)
  show ?thesis
    unfolding diagnose_state_def load_progress_eq [OF st(1,2)] option.case Let_def pv at err
    by simp
qed

text \<open>What a diagnosis reads is untouched by a heartbeat, and an update moves only the counters.\<close>

lemma validate_diagnose_cong: "diagnose_files fs' = diagnose_files fs \<Longrightarrow> validate_diagnose rt fs' pv = validate_diagnose rt fs pv"
  by (simp only: validate_diagnose_def)

lemma num_of_sanitized: "num_of (sanitize_floats v) = Some (Fin r) \<longleftrightarrow> num_of v = Some (Fin r)"
  by (cases v) (auto simp: isfinite_def split: pyfloat.splits)

lemma state_progress_saved:
  "plan_version (state_progress (sanitize_dict st)) = sanitize_floats (plan_version (state_progress st))"
  "diagnose_attempts (state_progress (sanitize_dict st)) = sanitize_floats (diagnose_attempts (state_progress st))"
  "diagnose_attempts_for_version (state_progress (sanitize_dict st)) =
     sanitize_floats (diagnose_attempts_for_version (state_progress st))"
  by (simp_all add: state_progress_lookup dget_default_def split: option.splits)

lemma diagnosing_saved:
  assumes "phase_of (dget st ''phase'') = Some DIAGNOSE" and "diag_core v n st" and "\<exists>err. validate_diagnose rt fs (PInt (int v)) = Inr (Some err)"
  shows "diagnosing rt v n (save_state now st fs)"
proof -
  let ?st = "fmupd ''last_touched'' (PTime now) (sanitize_dict st)"
  have "diag_core v n ?st"
    using assms(2) by (auto simp: diag_core_def state_progress_saved py_eq_PInt_iff num_of_sanitized split: if_splits)
  moreover have "phase_of (dget ?st ''phase'') = Some DIAGNOSE" using assms(1) by (simp add: phase_of_sanitized)
  moreover have "validate_diagnose rt (save_state now st fs) pv = validate_diagnose rt fs pv" for pv
    by (rule validate_diagnose_cong) (simp add: save_state_def)
  ultimately show ?thesis using assms(3) by (simp add: diagnosing_def)
qed

lemma diagnosing_touch:
  assumes "diagnosing rt v n fs"
  shows "diagnosing rt v n (touch_heartbeat now fs)"
proof -
  from assms obtain st where st: "load_state fs = Some st" "phase_of (dget st ''phase'') = Some DIAGNOSE" "diag_core v n st"
    "\<exists>err. validate_diagnose rt fs (PInt (int v)) = Inr (Some err)" by (auto simp: diagnosing_def)
  have "st \<noteq> fmempty" using st(3) by (auto simp: diag_core_def)
  then show ?thesis using diagnosing_saved [OF st(2,3,4)] st(1) by (simp add: touch_heartbeat_def state_or_fresh_def)
qed

lemma diagnosing_update:
  assumes "diagnosing rt v n fs"
  shows "\<exists>fs' p. update_progress now (fmap_of_list [(''diagnose_attempts'', PInt (int m)), (''diagnose_attempts_for_version'', PInt (int v)),
       (''last_diagnose_failure_reason'', r)]) fs = Inr (fs', p)
     \<and> diagnosing rt v m fs' \<and> (\<forall>s. fs_owner fs' s \<longleftrightarrow> fs_owner fs s)"
proof -
  let ?ch = "fmap_of_list [(''diagnose_attempts'', PInt (int m)), (''diagnose_attempts_for_version'', PInt (int v)), (''last_diagnose_failure_reason'', r)]"
  from assms obtain st where st: "load_state fs = Some st" "phase_of (dget st ''phase'') = Some DIAGNOSE" "diag_core v n st"
    "\<exists>err. validate_diagnose rt fs (PInt (int v)) = Inr (Some err)" by (auto simp: diagnosing_def)
  let ?p = "state_progress st"
  let ?q = "from_kwargs (to_dict ?p ++\<^sub>f ?ch)"
  have ne: "st \<noteq> fmempty" using st(3) by (auto simp: diag_core_def)
  have lp: "load_progress fs = Some ?p" using st(1,3) by (simp add: load_progress_eq diag_core_def)
  have ap: "progress_apply ?p ?ch = Inr ?q" by (simp add: progress_apply_def field_names)
  let ?st = "merge_progress st (to_dict ?q)"
  have u: "update_progress now ?ch fs = Inr (save_state now ?st fs, Some ?q)"
    by (simp add: update_progress_def lp ap save_progress_def state_or_fresh_def st(1) ne del: fmap_of_list_simps)
  have m: "?st = st ++\<^sub>f to_dict ?q"
    by (simp only: merge_progress_def to_dict_fields)
  have sp: "state_progress ?st = ?q" by (simp only: m state_progress_written)
  have ctl: "dget ?st k = dget st k" if "k \<notin> set progress_fields" for k
    using that by (simp add: merge_progress_def dget_def)
  have q: "plan_version ?q = PInt (int v)" "diagnose_attempts ?q = PInt (int m)" "diagnose_attempts_for_version ?q = PInt (int v)"
    using st(3) by (simp_all add: from_kwargs_def to_dict_lookup diag_core_def)
  have "dget ?st ''progress_initialized'' = PBool True"
    using st(3) ctl [of "''progress_initialized''"] by (simp add: diag_core_def progress_fields_def)
  then have "diag_core v m ?st" unfolding diag_core_def sp q by simp
  moreover have "phase_of (dget ?st ''phase'') = Some DIAGNOSE"
    using st(2) ctl [of "''phase''"] by (simp add: progress_fields_def)
  moreover have "fs_owner (save_state now ?st fs) s \<longleftrightarrow> fs_owner fs s" for s
    using owner_session_cong [of ?st st] ctl [of "''owner''"] st(1) by (simp add: fs_owner_save fs_owner_def [of fs] progress_fields_def)
  ultimately show ?thesis using u diagnosing_saved [OF _ _ st(4)] by blast
qed

text \<open>A command that runs \<open>create_plan.py\<close> and nothing the name check objects to.\<close>

definition plan_command :: "hook_env \<Rightarrow> string \<Rightarrow> bool" where
  "plan_command h cmd \<longleftrightarrow> classify cmd = AR ''create_plan.py'' \<and> script_name_check (h_aliases h) (parse_script_names cmd) = None
     \<and> \<not> contains ''git commit'' cmd"

lemma diagnosis_gates:
  assumes "drives h w td" and "diagnosing (h_rt h) v n (task_at w td)"
  shows "decide h (PreSubagent s) w = (touch_task (h_now h) td w, Inr (if int n \<ge> diagnose_max_attempts (h_cfg h) then blocked AttemptsExhausted
       else if s \<noteq> required_subagent then blocked WrongSubagent else proceed))"
    and "plan_command h cmd \<Longrightarrow> decide h (PreShell cmd) w = (touch_task (h_now h) td w,
       Inr (if int n \<ge> diagnose_max_attempts (h_cfg h) then proceed else blocked NeedDiagnosis))"
proof -
  let ?w = "touch_task (h_now h) td w"
  have d: "diagnosing (h_rt h) v n (task_at ?w td)"
    using diagnosing_touch [OF assms(2)] by (simp add: touch_task_def)
  obtain st where st: "diagnose_state (h_rt h) (h_cfg h) (task_at ?w td) = Inr st"
    "ds_action st = (if int n \<ge> diagnose_max_attempts (h_cfg h) then MANUAL_FALLBACK else NEED_DIAGNOSIS)"
    using diagnosing_state [OF d] by blast
  note ph = diagnosing_phase [OF d]
  show "decide h (PreSubagent s) w = (?w, Inr (if int n \<ge> diagnose_max_attempts (h_cfg h) then blocked AttemptsExhausted
       else if s \<noteq> required_subagent then blocked WrongSubagent else proceed))"
    by (simp add: decide_def pre_task_def drives_with_task [OF assms(1)] ph st)
  show "decide h (PreShell cmd) w = (?w, Inr (if int n \<ge> diagnose_max_attempts (h_cfg h) then proceed else blocked NeedDiagnosis))"
    if "plan_command h cmd"
    using that
    by (simp add: decide_def pre_bash_def drives_with_task [OF assms(1)] ph st plan_command_def Let_def parse_canonical_ar_def
        gate_command_def check_bash_def ar_allowed_by_phase_def)
qed

lemma post_subagent_counts:
  assumes "drives h w td" and "diagnosing (h_rt h) v n (task_at w td)"
  shows "\<exists>w' d. decide h PostSubagent w = (w', Inr d) \<and> drives h w' td \<and> diagnosing (h_rt h) v (Suc n) (task_at w' td)
    \<and> d_context d = Some (if int (Suc n) \<ge> diagnose_max_attempts (h_cfg h) then ManualPlanning else RetryDiagnosis (int (Suc n)))"
proof -
  let ?w = "touch_task (h_now h) td w"
  have d: "diagnosing (h_rt h) v n (task_at ?w td)"
    using diagnosing_touch [OF assms(2)] by (simp add: touch_task_def)
  obtain st where st: "diagnose_state (h_rt h) (h_cfg h) (task_at ?w td) = Inr st"
    "ds_action st = (if int n \<ge> diagnose_max_attempts (h_cfg h) then MANUAL_FALLBACK else NEED_DIAGNOSIS)"
    "ds_plan_version st = PInt (int v)" "ds_attempts st = PInt (int n)"
    using diagnosing_state [OF d] by blast
  obtain fs' p where u: "update_progress (h_now h) (fmap_of_list [(''diagnose_attempts'', PInt (int (Suc n))),
      (''diagnose_attempts_for_version'', PInt (int v)), (''last_diagnose_failure_reason'', reason_text (ds_reason st))]) (task_at ?w td) = Inr (fs', p)"
    "diagnosing (h_rt h) v (Suc n) fs'" "\<forall>s. fs_owner fs' s \<longleftrightarrow> fs_owner (task_at ?w td) s"
    using diagnosing_update [OF d, of "h_now h" "Suc n" "reason_text (ds_reason st)"] by blast
  have "drives h (put_task td fs' ?w) td" using drives_put [OF drives_touch [OF assms(1)]] u(3) by blast
  moreover have n: "int n + 1 = int (Suc n)" by simp
  have "decide h PostSubagent w = (put_task td fs' ?w, Inr (proceed\<lparr>d_context :=
      Some (if int (Suc n) \<ge> diagnose_max_attempts (h_cfg h) then ManualPlanning else RetryDiagnosis (int (Suc n)))\<rparr>))"
    using u(1)
    by (simp add: decide_def post_task_def drives_with_task [OF assms(1)] diagnosing_phase [OF d] st incremented_def save_progress_of_def n
        del: of_nat_Suc fmap_of_list_simps)
  ultimately show ?thesis using u(2) by simp
qed

definition failed_diagnosis :: "hook_env \<Rightarrow> world \<Rightarrow> world" where
  "failed_diagnosis h w = fst (decide h PostSubagent w)"

lemma failed_diagnoses:
  "drives h w td \<Longrightarrow> diagnosing (h_rt h) v n (task_at w td)
     \<Longrightarrow> drives h ((failed_diagnosis h ^^ k) w) td \<and> diagnosing (h_rt h) v (n + k) (task_at ((failed_diagnosis h ^^ k) w) td)"
proof (induction k)
  case (Suc k)
  then show ?case using post_subagent_counts [of h "(failed_diagnosis h ^^ k) w" td v "n + k"]
    by (auto simp: failed_diagnosis_def [of h "(failed_diagnosis h ^^ k) w"])
qed simp

text \<open>
  C34. A diagnosis ends. While the artifact stays invalid, each completed subagent counts once, and after the attempts
  that are left the hook blocks further subagents and lets \<open>create_plan.py\<close> run; before that it does the
  opposite, so at no point are both ways out blocked.
\<close>

theorem diagnosis_ends:
  assumes "drives h w td" and "diagnosing (h_rt h) v n (task_at w td)" and "plan_command h cmd"
    and "int n + int k = diagnose_max_attempts (h_cfg h)"
  shows "(\<forall>j < k. snd (decide h (PreSubagent required_subagent) ((failed_diagnosis h ^^ j) w)) = Inr proceed
            \<and> snd (decide h (PreShell cmd) ((failed_diagnosis h ^^ j) w)) = Inr (blocked NeedDiagnosis))
    \<and> snd (decide h (PreSubagent s) ((failed_diagnosis h ^^ k) w)) = Inr (blocked AttemptsExhausted)
    \<and> snd (decide h (PreShell cmd) ((failed_diagnosis h ^^ k) w)) = Inr proceed"
proof -
  have g: "snd (decide h (PreSubagent s) ((failed_diagnosis h ^^ j) w)) = Inr (if j \<ge> k then blocked AttemptsExhausted
        else if s \<noteq> required_subagent then blocked WrongSubagent else proceed)"
    "snd (decide h (PreShell cmd) ((failed_diagnosis h ^^ j) w)) = Inr (if j \<ge> k then proceed else blocked NeedDiagnosis)" for j s
    using failed_diagnoses [OF assms(1,2), of j] assms(3,4)
    by (auto simp: diagnosis_gates [where v = v and n = "n + j"] simp flip: assms(4))
  show ?thesis unfolding g by simp
qed

subsection \<open>A task in diagnosis\<close>

definition demo_hook :: hook_env where
  "demo_hook = \<lparr>h_rt = demo_runtime, h_cfg = \<lparr>consecutive_fail_threshold = 3, diagnose_max_attempts = 2, heartbeat_fresh_seconds = 180\<rparr>,
     h_now = 1, h_pid = 7, h_session = ''s'', h_task_env = [], h_abspath = (\<lambda>p. p), h_editable = (\<lambda>_. Some [''kernel.py'']),
     h_git_root = (\<lambda>_. True), h_git_dirty = (\<lambda>_ _. False), h_tree_clean = (\<lambda>_. True), h_aliases = []\<rparr>"

definition sick_state :: dict where
  "sick_state = fmap_of_list [(''phase'', PStr ''DIAGNOSE''), (''owner'', owner_record ''s'' 7 0),
     (''progress_initialized'', PBool True), (''plan_version'', PInt 1)]"

definition sick_world :: world where
  "sick_world = \<lparr>tasks = fmap_of_list [(''/t'', save_state 0 sick_state empty_fs)], session_index = fmap_of_list [(''s'', ''/t'')], listing = [''/t'']\<rparr>"

lemma sick_task: "task_at sick_world ''/t'' = save_state 0 sick_state empty_fs"
  by (simp add: task_at_def sick_world_def fmlookup_of_list)

lemma sick_drives: "drives demo_hook sick_world ''/t''"
proof -
  have "dget sick_state ''owner'' = owner_record ''s'' 7 0" by (simp add: sick_state_def dget_def fmlookup_of_list)
  then have "owner_session sick_state = Inr (PStr ''s'')"
    by (simp add: owner_session_PStr owner_record_def dget_def fmlookup_of_list)
  then have "owner_is sick_world ''/t'' ''s''"
    using fs_owner_save [of 0 sick_state empty_fs "''s''"] fs_owner_task [of sick_world "''/t''" "save_state 0 sick_state empty_fs"]
    by (simp add: sick_world_def fmlookup_of_list)
  moreover have "read_session_index demo_runtime ''s'' sick_world = Some ''/t''"
    by (simp add: read_session_index_def sick_world_def session_index_path_def demo_runtime_def fmlookup_of_list strip_def
        lstrip_def rstrip_def is_space_def)
  ultimately show ?thesis by (simp add: drives_def demo_hook_def)
qed

lemma sick_diagnosing: "diagnosing demo_runtime 1 0 (task_at sick_world ''/t'')"
  unfolding sick_task
proof (rule diagnosing_saved)
  have "phase_of (PStr ''DIAGNOSE'') = Some DIAGNOSE" by code_simp
  then show "phase_of (dget sick_state ''phase'') = Some DIAGNOSE" by (simp add: sick_state_def dget_def fmlookup_of_list)
  show "diag_core 1 0 sick_state"
    by (simp add: diag_core_def state_progress_lookup) (simp add: sick_state_def dget_def dget_default_def fmlookup_of_list)
  show "\<exists>err. validate_diagnose demo_runtime empty_fs (PInt (int 1)) = Inr (Some err)"
    by (simp add: validate_diagnose_def empty_fs_def)
qed

lemma demo_plan_command: "plan_command demo_hook ''python scripts/engine/create_plan.py /t''"
proof -
  have "classify ''python scripts/engine/create_plan.py /t'' = AR ''create_plan.py''"
    "script_name_check [] (parse_script_names ''python scripts/engine/create_plan.py /t'') = None"
    "\<not> contains ''git commit'' ''python scripts/engine/create_plan.py /t''" by code_simp+
  then show ?thesis by (simp add: plan_command_def demo_hook_def)
qed

theorem diagnosis_ends_witness:
  "snd (decide demo_hook (PreSubagent ''ar-diagnosis'') ((failed_diagnosis demo_hook ^^ 2) sick_world)) = Inr (blocked AttemptsExhausted)
   \<and> snd (decide demo_hook (PreShell ''python scripts/engine/create_plan.py /t'') ((failed_diagnosis demo_hook ^^ 2) sick_world)) = Inr proceed"
proof -
  have d: "diagnosing (h_rt demo_hook) 1 0 (task_at sick_world ''/t'')" using sick_diagnosing by (simp add: demo_hook_def)
  have "int 0 + int 2 = diagnose_max_attempts (h_cfg demo_hook)" by (simp add: demo_hook_def)
  from diagnosis_ends [OF sick_drives d demo_plan_command this] show ?thesis by blast
qed

theorem state_files_protected_witness:
  "\<exists>w'. decide demo_hook (PreEdit ''/t/.ar_state/diagnose_v1.md'') sick_world = (w', Inr proceed)
     \<and> read_phase (task_at w' ''/t'') = DIAGNOSE"
proof -
  let ?p = "''/t/.ar_state/diagnose_v1.md''"
  let ?w = "touch_task 1 ''/t'' sick_world"
  have dirs: "dirname ?p = ''/t/.ar_state''" "dirname ''/t/.ar_state'' = ''/t''" by code_simp+
  have "has_state_file sick_world ''/t''" "\<not> has_state_file sick_world ''/t/.ar_state''"
    by (simp_all add: has_state_file_def sick_task save_state_def atomic_write_json_def)
      (simp add: task_at_def sick_world_def fmlookup_of_list empty_fs_def)
  then have target: "task_dir_from_edit_target sick_world ?p = Some ''/t''"
    by (simp add: task_dir_from_edit_target.simps [of _ ?p] task_dir_from_edit_target.simps [of _ "''/t/.ar_state''"] dirs)
  have d: "diagnosing demo_runtime 1 0 (task_at ?w ''/t'')"
    using diagnosing_touch [OF sick_diagnosing] by (simp add: touch_task_def)
  obtain st where st: "diagnose_state demo_runtime (h_cfg demo_hook) (task_at ?w ''/t'') = Inr st" using diagnosing_state [OF d] by blast
  have ph: "read_phase (task_at ?w ''/t'') = DIAGNOSE" by (rule diagnosing_phase [OF d])
  have art: "rel_to_task ?p ''/t'' = Some ''.ar_state/diagnose_v1.md''"
    "check_edit DIAGNOSE ''.ar_state/diagnose_v1.md'' [''kernel.py''] a False" for a by code_simp+
  have h: "h_abspath demo_hook = (\<lambda>p. p)" "h_rt demo_hook = demo_runtime" "h_now demo_hook = 1"
    "h_editable demo_hook = (\<lambda>_. Some [''kernel.py''])" by (simp_all add: demo_hook_def)
  have ev: "decide demo_hook (PreEdit ?p) sick_world = (?w, Inr proceed)"
    by (simp add: decide_def pre_edit_def target h ph st art)
  have "is_diagnose_artifact (''.ar_state/'' @ ''diagnose_v1.md'') \<and> read_phase (task_at ?w ''/t'') = DIAGNOSE"
    using state_files_protected [OF ev, of "''/t''" "''diagnose_v1.md''"] target h by simp
  then show ?thesis using ev by blast
qed

end
