(* ===== verification/Plan_Roundtrip.thy ===== *)
theory Plan_Roundtrip
  imports Create_Plan
begin

text \<open>
  Writing a plan and reading it back. The lines of a rendered \<open>plan.md\<close>, what
  \<open>parse_plan_text\<close> and \<open>parse_settled_history\<close> make of them, the ids a plan gets, and the
  contract between \<open>create_plan.py\<close> and \<open>validate_plan\<close>.
\<close>

subsection \<open>The lines of a rendered plan\<close>

lemma join_append: "xs \<noteq> [] \<Longrightarrow> ys \<noteq> [] \<Longrightarrow> join d (xs @ ys) = join d xs @ d @ join d ys"
proof (induction d xs rule: join.induct)
  case (2 d x)
  then show ?case by (cases ys) auto
qed auto

lemma join_lines_snoc_join: "xs \<noteq> [] \<Longrightarrow> ys \<noteq> [] \<Longrightarrow> join_lines (xs @ [join_lines ys]) = join_lines (xs @ ys)"
  by (simp add: join_lines_def join_append)

lemma join_lines_newline: "xs \<noteq> [] \<Longrightarrow> join_lines xs @ [newline] = join_lines (xs @ [[]])"
  by (simp add: join_lines_def join_append)

lemma rstrip_keep: "rstrip b \<noteq> [] \<Longrightarrow> rstrip (a @ b) = a @ rstrip b"
  by (auto simp: rstrip_def dropWhile_append)

lemma rstrip_newline: "rstrip (s @ [newline]) = rstrip s"
  by (simp add: rstrip_def)

definition trim_last :: "string list \<Rightarrow> string list" where
  "trim_last ls = (if ls = [] then [] else butlast ls @ [rstrip (last ls)])"

lemma strip_snoc_space: "is_space c \<Longrightarrow> strip (s @ [c]) = strip s"
  by (cases "\<forall>x \<in> set s. is_space x")
     (auto simp: strip_def lstrip_def rstrip_def dropWhile_append dest: set_dropWhileD)

lemma strip_trailing: "list_all is_space t \<Longrightarrow> strip (s @ t) = strip s"
  by (induction t rule: rev_induct) (simp_all add: strip_snoc_space flip: append_assoc)

lemma is_row_rstrip: "is_row l \<Longrightarrow> rstrip l \<noteq> [] \<and> strip (rstrip l) = strip l"
proof -
  assume r: "is_row l"
  obtain t where t: "l = rstrip l @ t" "list_all is_space t" using rstrip_decomp by blast
  then have s: "strip (rstrip l) = strip l" using strip_trailing by metis
  moreover have "strip [] = []" by (simp add: strip_id)
  ultimately show ?thesis using r by (auto simp: is_row_def)
qed

lemma rstrip_rows:
  assumes "rows \<noteq> []" and "list_all is_row rows"
  shows "rstrip (join_lines rows @ [newline]) = join_lines (trim_last rows)"
proof -
  obtain xs l where r: "rows = xs @ [l]" using assms(1) by (cases rows rule: rev_cases) auto
  then have l: "rstrip l \<noteq> []" using assms(2) is_row_rstrip by simp
  show ?thesis
  proof (cases "xs = []")
    case False
    then have "join_lines rows = (join_lines xs @ [newline]) @ l" using r by (simp add: join_lines_def join_append)
    then have "rstrip (join_lines rows) = (join_lines xs @ [newline]) @ rstrip l" using rstrip_keep [OF l] by metis
    then show ?thesis unfolding rstrip_newline using False r by (simp add: trim_last_def join_lines_def join_append)
  qed (simp add: r rstrip_newline trim_last_def join_lines_def)
qed

definition plan_lines :: "string \<Rightarrow> string list \<Rightarrow> plan_input list \<Rightarrow> string list \<Rightarrow> string list" where
  "plan_lines v ids items rows = [''# Plan v'' @ v, [], ''## Active Items'']
     @ active_lines '' (ACTIVE)'' (zip items ids)
     @ [[], ''## Settled History'', table_header, table_rule] @ trim_last rows @ [[]]"

definition rows_text :: "string list \<Rightarrow> string" where
  "rows_text rows = (if rows = [] then [] else join_lines rows @ [newline])"

lemma settled_text_rows: "settled_text t = rows_text (settled_lines False (split_lines t))"
  by (simp add: settled_text_def rows_text_def Let_def)

lemma render_plan_lines:
  "list_all is_row rows \<Longrightarrow> render v ids items (rows_text rows) = join_lines (plan_lines v ids items rows)"
proof (cases "rows = []")
  case True
  then show ?thesis
    unfolding render_def plan_lines_def
    by (subst join_lines_newline) (simp_all add: render_lines_def rows_text_def trim_last_def)
next
  case False
  assume r: "list_all is_row rows"
  let ?h = "[''# Plan v'' @ v, [], ''## Active Items''] @ active_lines '' (ACTIVE)'' (zip items ids)
     @ [[], ''## Settled History'', table_header, table_rule]"
  have "trim_last rows \<noteq> []" using False by (simp add: trim_last_def)
  then have "join_lines (?h @ [join_lines (trim_last rows)]) = join_lines (?h @ trim_last rows)"
    by (intro join_lines_snoc_join) simp_all
  then have "join_lines (render_lines v ids items (rows_text rows)) = join_lines (?h @ trim_last rows)"
    using False by (simp add: render_lines_def rows_text_def rstrip_rows [OF False r])
  then show ?thesis
    using join_lines_newline [of "?h @ trim_last rows"] by (simp add: render_def plan_lines_def)
qed

subsection \<open>Reading the items back\<close>

text \<open>An input whose fields fit on one line and do not imitate the marks of the format.\<close>

definition clean_input :: "plan_input \<Rightarrow> bool" where
  "clean_input it \<longleftrightarrow> one_line (in_desc it) \<and> one_line (in_rationale it) \<and> one_line (in_skill it)
     \<and> \<not> contains active_mark (in_desc it)
     \<and> (case strip (in_desc it) of [] \<Rightarrow> False | c # _ \<Rightarrow> c \<noteq> CHR '':'')"

definition written_item :: "bool \<Rightarrow> plan_input \<Rightarrow> string \<Rightarrow> plan_item" where
  "written_item first it pid = \<lparr>pi_id = pid, pi_description = strip (in_desc it), pi_done = False,
     pi_active = first, pi_tag = [], pi_rationale = strip (in_rationale it), pi_skill = strip (in_skill it)\<rparr>"

lemma replace_all_id: "\<not> contains old s \<Longrightarrow> replace_all old new s = s"
proof (induction s)
  case (Cons c s)
  then show ?case by (subst replace_all.simps) auto
qed (simp add: replace_all.simps)

lemma replace_all_head: "old \<noteq> [] \<Longrightarrow> replace_all old new (old @ s) = new @ replace_all old new s"
  by (subst replace_all.simps) simp

lemma lstrip_colon_desc: "case d of [] \<Rightarrow> False | c # _ \<Rightarrow> c \<noteq> CHR '':'' \<and> \<not> is_space c \<Longrightarrow> lstrip_colon ('': '' @ d) = d"
  by (cases d) (auto simp: lstrip_colon_def)

lemma colon_strip: "d \<noteq> [] \<Longrightarrow> \<not> is_space (last d) \<Longrightarrow> strip ('': '' @ d) = '': '' @ d"
  by (rule strip_id) simp

lemma clean_input_desc:
  assumes "clean_input it"
  defines "d \<equiv> strip (in_desc it)"
  shows "d \<noteq> []" "\<not> is_space (hd d)" "\<not> is_space (last d)" "\<not> contains active_mark d" "one_line d"
    "lstrip_colon ('': '' @ d) = d"
proof -
  have m: "active_mark \<noteq> []" "\<not> is_space (hd active_mark)" "\<not> is_space (last active_mark)"
    by (simp_all add: active_mark_def is_space_def)
  show ne: "d \<noteq> []" using assms by (auto simp: clean_input_def split: list.splits)
  show e: "\<not> is_space (hd d)" "\<not> is_space (last d)" using ne strip_edges unfolding d_def by auto
  show "\<not> contains active_mark d" using assms(1) contains_strip [OF m] by (simp add: d_def clean_input_def)
  show "one_line d" using assms(1) set_strip [of "in_desc it"] by (auto simp: d_def clean_input_def)
  show "lstrip_colon ('': '' @ d) = d"
    using assms(1) e(1) by (intro lstrip_colon_desc) (auto simp: d_def clean_input_def split: list.splits)
qed

lemma clean_desc_rendered:
  assumes "clean_input it"
  shows "clean_desc ('': '' @ strip (in_desc it)) = strip (in_desc it)"
    "clean_desc (active_mark @ '': '' @ strip (in_desc it)) = strip (in_desc it)"
proof -
  note d = clean_input_desc [OF assms]
  have "\<not> contains active_mark ('': '' @ strip (in_desc it))"
    using contains_skip [of active_mark "'': ''" "strip (in_desc it)"] d(4) by (simp add: active_mark_def)
  then have r: "replace_all active_mark [] ('': '' @ strip (in_desc it)) = '': '' @ strip (in_desc it)"
    by (rule replace_all_id)
  then have r2: "replace_all active_mark [] (active_mark @ '': '' @ strip (in_desc it)) = '': '' @ strip (in_desc it)"
    by (subst replace_all_head) (simp_all add: active_mark_def)
  show "clean_desc ('': '' @ strip (in_desc it)) = strip (in_desc it)"
    "clean_desc (active_mark @ '': '' @ strip (in_desc it)) = strip (in_desc it)"
    unfolding clean_desc_def r r2 colon_strip [OF d(1,3)] d(6) by simp_all
qed

definition marker_of :: "bool \<Rightarrow> string" where
  "marker_of first = (if first then '' (ACTIVE)'' else [])"

definition item_line :: "bool \<Rightarrow> plan_input \<Rightarrow> string \<Rightarrow> string" where
  "item_line first it pid = ''- [ ] **'' @ pid @ ''**'' @ marker_of first @ '': '' @ strip (in_desc it)"

lemma match_item_line_of:
  assumes "clean_input it" "pid \<noteq> []" "list_all is_word pid"
  shows "match_item (item_line first it pid) =
    Some (CHR '' '', pid, (if first then active_mark else []) @ '': '' @ strip (in_desc it))"
proof -
  let ?r = "marker_of first @ '': '' @ strip (in_desc it)"
  have "item_line first it pid = [] @ ''-'' @ '' '' @ [CHR ''['', CHR '' '', CHR '']''] @ '' '' @ ''**'' @ pid @ ''**'' @ ?r"
    by (simp add: item_line_def)
  then have "match_item (item_line first it pid) = Some (CHR '' '', pid, takeWhile (\<lambda>x. x \<noteq> newline) (lstrip ?r))"
    using match_itemI [of "[]" "'' ''" "'' ''" "CHR '' ''" pid ?r] assms by simp
  moreover have "lstrip ?r = (if first then active_mark else []) @ '': '' @ strip (in_desc it)"
    by (simp add: marker_of_def active_mark_def lstrip_def)
  moreover have "one_line ((if first then active_mark else []) @ '': '' @ strip (in_desc it))"
    using clean_input_desc(5) [OF assms(1)] by (simp add: active_mark_def newline_def)
  ultimately show ?thesis by (simp add: takeWhile_all)
qed

lemma item_of_rendered:
  assumes "clean_input it"
  shows "item_of_match CHR '' '' pid ((if first then active_mark else []) @ '': '' @ strip (in_desc it))
     (strip (in_rationale it), strip (in_skill it)) = written_item first it pid"
proof -
  note d = clean_input_desc [OF assms]
  let ?g = "(if first then active_mark else []) @ '': '' @ strip (in_desc it)"
  have g: "strip ?g = ?g" using d by (intro strip_id) (simp add: active_mark_def is_space_def)
  have t: "match_tag ?g = None" by (simp add: match_tag_def active_mark_def)
  have c: "clean_desc ?g = strip (in_desc it)" using clean_desc_rendered [OF assms] by simp
  have "contains active_mark ?g \<longleftrightarrow> first"
    using contains_skip [of active_mark "'': ''" "strip (in_desc it)"] d(4) contains_self [of active_mark "[]" "'': '' @ strip (in_desc it)"]
    by (simp add: active_mark_def)
  then show ?thesis unfolding item_of_match_def Let_def g t c using clean_desc_rendered [OF assms] by (simp add: written_item_def)
qed

subsection \<open>The meta lines\<close>

definition rationale_line :: "plan_input \<Rightarrow> string" where
  "rationale_line it = ''  - rationale: '' @ strip (in_rationale it)"

definition skill_line :: "plan_input \<Rightarrow> string" where
  "skill_line it = ''  - skill: '' @ strip (in_skill it)"

lemma item_lines_eq: "item_lines (marker_of first) it pid =
    item_line first it pid # rationale_line it # (if in_skill it \<noteq> [] then [skill_line it] else [])"
  by (simp add: item_lines_def item_line_def rationale_line_def skill_line_def)

text \<open>A label and a stripped value on an indented line.\<close>

lemma strip_meta:
  assumes "label \<noteq> []" "\<not> is_space (hd label)" "\<not> is_space (last label)"
  shows "\<exists>t. strip (''  '' @ label @ '' '' @ strip v) = label @ t \<and> strip t = strip v"
proof (cases "strip v = []")
  case True
  have "strip (''  '' @ label @ '' '' @ strip v) = strip (label @ '' '')"
    using strip_spaces_append [of "''  ''" "label @ '' ''"] True by (simp add: spaces_def)
  also have "\<dots> = label" using strip_snoc_space [of "CHR '' ''" label] assms by (simp add: strip_id)
  finally show ?thesis using True by (intro exI [of _ "[]"]) (simp add: strip_id)
next
  case False
  have "strip (''  '' @ label @ '' '' @ strip v) = strip (label @ '' '' @ strip v)"
    using strip_spaces_append [of "''  ''" "label @ '' '' @ strip v"] by (simp add: spaces_def)
  also have "\<dots> = label @ '' '' @ strip v" using assms False strip_edges [OF False] by (intro strip_id) simp
  moreover have "strip ('' '' @ strip v) = strip v" using strip_spaces_append [of "'' ''" "strip v"] by simp
  ultimately show ?thesis by metis
qed

lemma rationale_scan: "scan_meta (rationale_line it # ls) r s = scan_meta ls (strip (in_rationale it)) s"
proof -
  obtain t where t: "strip (''  '' @ ''- rationale:'' @ '' '' @ strip (in_rationale it)) = ''- rationale:'' @ t"
    "strip t = strip (in_rationale it)" using strip_meta [of "''- rationale:''" "in_rationale it"] by auto
  then show ?thesis by (simp add: rationale_line_def after_colon_def)
qed

lemma skill_scan: "scan_meta (skill_line it # ls) r s = scan_meta ls r (strip (in_skill it))"
proof -
  obtain t where t: "strip (''  '' @ ''- skill:'' @ '' '' @ strip (in_skill it)) = ''- skill:'' @ t"
    "strip t = strip (in_skill it)" using strip_meta [of "''- skill:''" "in_skill it"] by auto
  then show ?thesis by (simp add: skill_line_def after_colon_def)
qed

lemma meta_not_item [simp]: "match_item (rationale_line it) = None" "match_item (skill_line it) = None"
  by (simp_all add: match_item_def rationale_line_def skill_line_def lstrip_def is_space_def)

text \<open>The lines an item's meta scan stops at.\<close>

definition stops :: "string list \<Rightarrow> bool" where
  "stops ls = (case ls of [] \<Rightarrow> True | l # _ \<Rightarrow> strip l = [] \<or> starts_with ''- ['' (strip l))"

lemma scan_stops: "stops ls \<Longrightarrow> scan_meta ls r s = (r, s)"
proof (cases ls)
  case (Cons l ls')
  assume "stops ls"
  then consider "strip l = []" | t where "strip l = ''- ['' @ t" using Cons by (auto simp: stops_def starts_with_iff)
  then show ?thesis using Cons by cases (simp_all add: Let_def)
qed simp

lemma strip_item_line: "clean_input it \<Longrightarrow> strip (item_line first it pid) = item_line first it pid"
  using clean_input_desc [of it] by (intro strip_id) (simp add: item_line_def)

fun written_items :: "bool \<Rightarrow> (plan_input \<times> string) list \<Rightarrow> plan_item list" where
  "written_items first [] = []"
| "written_items first ((it, pid) # rest) = written_item first it pid # written_items False rest"

definition good_pair :: "plan_input \<times> string \<Rightarrow> bool" where
  "good_pair x \<longleftrightarrow> clean_input (fst x) \<and> snd x \<noteq> [] \<and> list_all is_word (snd x)"

lemma active_lines_marker: "active_lines [] xs = active_lines (marker_of False) xs"
  by (simp add: marker_of_def)

lemma active_lines_stop: "list_all good_pair xs \<Longrightarrow> stops rest \<Longrightarrow> stops (active_lines (marker_of b) xs @ rest)"
proof (cases xs)
  case (Cons x xs')
  obtain it pid where x: "x = (it, pid)" by (cases x)
  assume "list_all good_pair xs"
  then have "strip (item_line b it pid) = item_line b it pid" using Cons x by (simp add: good_pair_def strip_item_line)
  then show ?thesis using Cons x by (simp add: stops_def item_lines_eq) (simp add: item_line_def)
qed simp

lemma parse_active_lines:
  assumes "list_all good_pair xs" and "stops rest"
  shows "parse_lines True (active_lines (marker_of first) xs @ rest) = written_items first xs @ parse_lines True rest"
  using assms(1)
proof (induction xs arbitrary: first)
  case (Cons x xs)
  obtain it pid where x: "x = (it, pid)" by (cases x)
  let ?more = "active_lines (marker_of False) xs @ rest"
  have it: "clean_input it" "pid \<noteq> []" "list_all is_word pid" using Cons(2) x by (simp_all add: good_pair_def)
  have st: "stops ?more" using active_lines_stop Cons(2) assms(2) by simp
  let ?meta = "if in_skill it \<noteq> [] then [skill_line it] else []"
  have e: "active_lines (marker_of first) (x # xs) @ rest = item_line first it pid # rationale_line it # ?meta @ ?more"
    by (simp add: x item_lines_eq active_lines_marker)
  have "scan_meta (rationale_line it # ?meta @ ?more) [] [] = (strip (in_rationale it), strip (in_skill it))"
    unfolding rationale_scan by (cases "in_skill it = []") (simp_all add: skill_scan scan_stops [OF st] strip_id del: scan_meta.simps)
  moreover have "parse_lines True (rationale_line it # ?meta @ ?more) = parse_lines True ?more" by simp
  ultimately have "parse_lines True (item_line first it pid # rationale_line it # ?meta @ ?more)
      = written_item first it pid # parse_lines True ?more"
    using match_item_line_of [OF it, of first] item_of_rendered [OF it(1), of pid first] by (simp del: scan_meta.simps)
  then show ?case using Cons(1,2) unfolding e by (simp add: x)
qed simp

subsection \<open>The whole file\<close>

lemma table_lines: "is_row table_header" "is_row table_rule" "is_settled_table_header table_header"
  "\<not> is_settled_table_header table_rule" "starts_with ''|---'' (strip table_rule)"
  by code_simp+

lemma row_not_item: "is_row l \<Longrightarrow> match_item l = None"
  using item_not_row by (cases "match_item l") auto

lemma parse_rows: "list_all (\<lambda>l. match_item l = None) ls \<Longrightarrow> parse_lines meta ls = []"
  by (induction ls) auto

lemma is_row_trim: "list_all is_row rows \<Longrightarrow> list_all is_row (trim_last rows)"
  by (cases rows rule: rev_cases) (auto simp: trim_last_def is_row_def is_row_rstrip [unfolded is_row_def])

lemma hash_not_item: "match_item (CHR ''#'' # s) = None"
  by (simp add: match_item_def lstrip_Cons)

lemma parse_plan_lines:
  assumes "list_all good_pair (zip items ids)" and "list_all is_row rows"
  shows "parse_lines True (plan_lines v ids items rows) = written_items True (zip items ids)"
proof -
  let ?rest = "[[], ''## Settled History'', table_header, table_rule] @ trim_last rows @ [[]]"
  have nil: "match_item [] = None" by (simp add: match_item_def lstrip_def)
  have "parse_lines True ?rest = []"
    using is_row_trim [OF assms(2)] row_not_item
    by (intro parse_rows) (auto simp: nil hash_not_item table_lines row_not_item list_all_iff)
  moreover have "stops ?rest" by (simp add: stops_def strip_id)
  moreover have "'' (ACTIVE)'' = marker_of True" by (simp add: marker_of_def)
  ultimately show ?thesis
    using parse_active_lines [OF assms(1), of ?rest True] by (simp add: plan_lines_def hash_not_item nil)
qed

text \<open>The rows \<open>parse_settled_history\<close> returns: table rows that are neither header nor rule.\<close>

definition history_row_ok :: "string \<Rightarrow> bool" where
  "history_row_ok l \<longleftrightarrow> is_row l \<and> \<not> is_settled_table_header l \<and> \<not> starts_with ''|---'' (strip l)"

lemma settled_lines_rows: "list_all history_row_ok (settled_lines b ls)"
  by (induction ls arbitrary: b) (auto simp: history_row_ok_def is_row_def)

lemma settled_lines_line: "all_lines ls \<Longrightarrow> all_lines (settled_lines b ls)"
  by (induction ls arbitrary: b) auto

lemma settled_lines_id: "list_all history_row_ok rows \<Longrightarrow> settled_lines True rows = rows"
  by (induction rows) (auto simp: history_row_ok_def is_row_def)

lemma history_row_trim: "list_all history_row_ok rows \<Longrightarrow> list_all history_row_ok (trim_last rows)"
  by (cases rows rule: rev_cases)
     (auto simp: trim_last_def history_row_ok_def is_row_def is_settled_table_header_def is_row_rstrip [unfolded is_row_def])

lemma trim_last_line: "all_lines rows \<Longrightarrow> all_lines (trim_last rows)"
  using set_rstrip by (cases rows rule: rev_cases) (fastforce simp: trim_last_def)+

lemma item_lines_no_header:
  assumes "good_pair (it, pid)"
  shows "list_all (\<lambda>l. \<not> is_settled_table_header l) (item_lines (marker_of first) it pid)"
proof -
  have "\<not> is_row (item_line first it pid)"
    using match_item_line_of [of it pid first] assms item_not_row by (auto simp: good_pair_def)
  moreover have "\<not> is_row (rationale_line it)"
    using strip_meta [of "''- rationale:''" "in_rationale it"] by (auto simp: is_row_def rationale_line_def)
  moreover have "\<not> is_row (skill_line it)"
    using strip_meta [of "''- skill:''" "in_skill it"] by (auto simp: is_row_def skill_line_def)
  ultimately show ?thesis using header_is_row by (auto simp: item_lines_eq)
qed

lemma active_lines_no_header:
  "list_all good_pair xs \<Longrightarrow> list_all (\<lambda>l. \<not> is_settled_table_header l) (active_lines (marker_of first) xs)"
  by (induction xs arbitrary: first) (auto simp: item_lines_no_header active_lines_marker)

lemma settled_lines_skip: "list_all (\<lambda>l. \<not> is_settled_table_header l) xs \<Longrightarrow> settled_lines False (xs @ ys) = settled_lines False ys"
  by (induction xs) auto

lemma settled_plan_lines:
  assumes "list_all good_pair (zip items ids)" and "list_all history_row_ok rows"
  shows "settled_lines False (plan_lines v ids items rows) = trim_last rows"
proof -
  let ?head = "[''# Plan v'' @ v, [], ''## Active Items''] @ active_lines '' (ACTIVE)'' (zip items ids) @ [[], ''## Settled History'']"
  have hash: "\<not> is_settled_table_header (CHR ''#'' # s)" for s
    using strip_head [of "CHR ''#''" s] by (auto simp: is_settled_table_header_def)
  have nil: "\<not> is_settled_table_header []" by (simp add: is_settled_table_header_def strip_id)
  have "'' (ACTIVE)'' = marker_of True" by (simp add: marker_of_def)
  then have "list_all (\<lambda>l. \<not> is_settled_table_header l) ?head"
    using active_lines_no_header [OF assms(1), of True] by (simp add: hash nil)
  from settled_lines_skip [OF this, of "table_header # table_rule # trim_last rows @ [[]]"]
  have "settled_lines False (plan_lines v ids items rows) = settled_lines True (trim_last rows @ [[]])"
    using table_lines by (simp add: plan_lines_def)
  also have "\<dots> = trim_last rows"
    by (simp add: settled_lines_append settled_lines_id [OF history_row_trim [OF assms(2)]] nil strip_id)
  finally show ?thesis .
qed

lemma word_line: "list_all is_word s \<Longrightarrow> one_line s"
  by (auto simp: list_all_iff is_word_def newline_def Let_def)

lemma strip_line: "one_line s \<Longrightarrow> one_line (strip s)"
  using set_strip [of s] by blast

lemma item_lines_line: "good_pair (it, pid) \<Longrightarrow> all_lines (item_lines (marker_of first) it pid)"
  unfolding item_lines_eq
  using strip_line [of "in_desc it"] strip_line [of "in_rationale it"] strip_line [of "in_skill it"] word_line [of pid]
  by (auto simp: item_line_def rationale_line_def skill_line_def marker_of_def good_pair_def clean_input_def
      newline_def)

lemma active_lines_line: "list_all good_pair xs \<Longrightarrow> all_lines (active_lines (marker_of first) xs)"
  by (induction xs arbitrary: first) (auto simp: item_lines_line active_lines_marker)

lemma plan_lines_line:
  assumes "list_all good_pair (zip items ids)" and "one_line v" and "all_lines rows"
  shows "all_lines (plan_lines v ids items rows)"
proof -
  have "'' (ACTIVE)'' = marker_of True" by (simp add: marker_of_def)
  then show ?thesis
    using active_lines_line [OF assms(1), of True] trim_last_line [OF assms(3)] assms(2)
    by (simp add: plan_lines_def table_header_def table_rule_def newline_def)
qed

lemma split_render:
  assumes "list_all good_pair (zip items ids)" and "one_line v"
  shows "split_lines (render v ids items (settled_text t))
    = plan_lines v ids items (settled_lines False (split_lines t))"
proof -
  let ?rows = "settled_lines False (split_lines t)"
  have "list_all is_row ?rows" using settled_lines_rows [of False "split_lines t"] by (auto simp: list_all_iff history_row_ok_def)
  then have "render v ids items (settled_text t) = join_lines (plan_lines v ids items ?rows)"
    by (simp add: settled_text_rows render_plan_lines)
  moreover have "all_lines (plan_lines v ids items ?rows)"
    using plan_lines_line [OF assms] settled_lines_line [OF split_lines_no_nl] by blast
  ultimately show ?thesis by (simp add: split_join_lines plan_lines_def)
qed

lemma plan_items_rendered:
  assumes "list_all clean_input items" and "list_all (\<lambda>pid. pid \<noteq> [] \<and> list_all is_word pid) ids"
    and "one_line v"
  shows "parse_plan_text (render v ids items (settled_text t)) True = written_items True (zip items ids)"
proof -
  have "list_all good_pair (zip items ids)"
    using assms(1,2) by (auto simp: list_all_iff good_pair_def dest: set_zip_leftD set_zip_rightD)
  moreover have "list_all is_row (settled_lines False (split_lines t))"
    using settled_lines_rows [of False "split_lines t"] by (auto simp: list_all_iff history_row_ok_def)
  ultimately show ?thesis using assms(3) by (simp add: parse_plan_text_def split_render parse_plan_lines)
qed

subsection \<open>Round trip\<close>


lemma rows_text_trim:
  assumes "list_all is_row rows"
  shows "rstrip (rows_text (trim_last rows)) = rstrip (rows_text rows)"
proof (cases rows rule: rev_cases)
  case (snoc xs l)
  have "trim_last (trim_last rows) = trim_last rows"
  proof -
    have "rstrip (rstrip l) = rstrip l" by (simp add: rstrip_def)
    then show ?thesis using snoc by (simp add: trim_last_def)
  qed
  moreover have "trim_last rows \<noteq> []" using snoc by (simp add: trim_last_def)
  ultimately show ?thesis
    using rstrip_rows [OF _ assms] rstrip_rows [OF _ is_row_trim [OF assms]] snoc by (simp add: rows_text_def)
qed (simp add: trim_last_def)

text \<open>A new plan keeps the audit chain: the settled history read from the file a re-plan writes is the
  one read before, row by row, up to white space behind the last row.\<close>
theorem replan_keeps_history:
  assumes "list_all clean_input items" and "list_all (\<lambda>pid. pid \<noteq> [] \<and> list_all is_word pid) ids"
    and "one_line v"
  shows "rstrip (parse_settled_history (write_plan v ids items (parse_settled_history fs) fs))
           = rstrip (parse_settled_history fs)"
proof -
  have g: "list_all good_pair (zip items ids)"
    using assms(1,2) by (auto simp: list_all_iff good_pair_def dest: set_zip_leftD set_zip_rightD)
  define t where "t = (case plan_file fs of None \<Rightarrow> [] | Some body \<Rightarrow> body)"
  let ?rows = "settled_lines False (split_lines t)"
  have "split_lines [] = [[]]" by (simp add: split_lines_def)
  then have t: "parse_settled_history fs = settled_text t"
    by (auto simp: parse_settled_history_def t_def settled_text_def is_settled_table_header_def strip_id split: option.splits)
  have "parse_settled_history (write_plan v ids items (settled_text t) fs) = settled_text (render v ids items (settled_text t))"
    by (simp add: parse_settled_history_def write_plan_def)
  also have "\<dots> = rows_text (trim_last ?rows)"
    unfolding settled_text_rows [of "render _ _ _ _"] split_render [OF g assms(3)]
      settled_plan_lines [OF g settled_lines_rows] ..
  finally have "parse_settled_history (write_plan v ids items (parse_settled_history fs) fs) = rows_text (trim_last ?rows)"
    unfolding t .
  moreover have "list_all is_row ?rows"
    using settled_lines_rows [of False "split_lines t"] by (auto simp: list_all_iff history_row_ok_def)
  ultimately show ?thesis by (simp add: rows_text_trim t settled_text_rows)
qed

subsection \<open>A plan of three items\<close>

definition demo_reason :: string where
  "demo_reason = ''one pass over memory less, says the roofline''"

definition demo_items :: "plan_input list" where
  "demo_items = [
     \<lparr>in_desc = ''Fuse the epilogue'', in_rationale = demo_reason, in_skill = ''fuse/SKILL.md''\<rparr>,
     \<lparr>in_desc = ''Vectorise the loads'', in_rationale = demo_reason, in_skill = ''vec/SKILL.md''\<rparr>,
     \<lparr>in_desc = ''Swizzle the layout'', in_rationale = demo_reason, in_skill = ''lay/SKILL.md''\<rparr>]"

lemma demo_items_clean: "list_all clean_input demo_items"
  by code_simp

lemma demo_ids: "list_all (\<lambda>pid. pid \<noteq> [] \<and> list_all is_word pid) [''p1'', ''p2'', ''p3'']" "one_line ''2''"
  by code_simp+


theorem replan_keeps_history_witness:
  "rstrip (parse_settled_history (write_plan ''2'' [''p1'', ''p2'', ''p3''] demo_items
       (parse_settled_history (empty_fs\<lparr>plan_file := Some (join_lines demo_settled_lines)\<rparr>))
       (empty_fs\<lparr>plan_file := Some (join_lines demo_settled_lines)\<rparr>)))
     = ''| p1 | DISCARD | N/A | fuse the loops |''"
proof -
  have "rstrip (settled_text (join_lines demo_settled_lines)) = ''| p1 | DISCARD | N/A | fuse the loops |''"
    by code_simp
  then show ?thesis
    unfolding replan_keeps_history [OF demo_items_clean demo_ids] by (simp add: parse_settled_history_def)
qed

text \<open>Where the audit chain breaks: a settled row whose text speaks of an "Item" and an "Outcome" is
  taken for a table header by \<open>is_settled_table_header\<close>, so the next plan silently drops it.\<close>
theorem header_like_row_dropped:
  "settle_lines demo_runtime (PStr ''DISCARD'') PNone
      [''- [ ] **p1** (ACTIVE): Item order by Outcome'', table_header, table_rule]
     = Inr ([''- [x] **p1** [DISCARD]: Item order by Outcome'', table_header, table_rule,
             ''| p1 | DISCARD | N/A | Item order by Outcome |''], ''p1'', ''Item order by Outcome'')
   \<and> settled_lines False [''- [x] **p1** [DISCARD]: Item order by Outcome'', table_header, table_rule,
             ''| p1 | DISCARD | N/A | Item order by Outcome |''] = []"
  by (rule conjI; code_simp)

end
