(* ===== verification/Lifecycle.thy ===== *)
theory Lifecycle
  imports Task_Invariant
begin

text \<open>
  The life of one task directory as a step relation: every method of \<open>Task\<close>, the claim and
  the heartbeat of its owner, and every journaled transaction cut short after any number of
  its durable steps and healed by the next \<open>open_task\<close>.
\<close>

subsection \<open>Steps\<close>

text \<open>What the hooks note in the progress record: the attempts of a diagnosis and the reason of a stop.\<close>

definition note_keys :: "string list" where
  "note_keys = [''diagnose_attempts'', ''diagnose_attempts_for_version'', ''last_diagnose_failure_reason'',
     ''last_stop_reason'', ''last_stop_time'']"

definition note_changes :: "dict \<Rightarrow> bool" where
  "note_changes changes \<longleftrightarrow> fset (fmdom changes) \<subseteq> set note_keys
     \<and> (\<forall>v. fmlookup changes ''diagnose_attempts'' = Some v \<longrightarrow> is_count v)"

inductive task_step :: "runtime \<Rightarrow> config \<Rightarrow> task_config \<Rightarrow> task_fs \<Rightarrow> task_fs \<Rightarrow> bool"
  for rt :: runtime and cfg :: config and c :: task_config where
  Heal: "task_step rt cfg c fs (heal now fs)"
| Claim: "task_step rt cfg c fs (save_state now (fmupd ''owner'' x (state_or_fresh now fs)) fs)"
| Heartbeat: "task_step rt cfg c fs (touch_heartbeat now fs)"
| Activate: "activate now fresh fs = (fs', r) \<Longrightarrow> task_step rt cfg c fs fs'"
| Preflight: "baseline_preflight now fs = (fs', pr) \<Longrightarrow> task_step rt cfg c fs fs'"
| Baseline: "record_baseline rt now (Some c) git ev fs = (fs', rc) \<Longrightarrow> task_step rt cfg c fs fs'"
| BaselineCrash: "read_phase fs = BASELINE \<Longrightarrow> classify_baseline fs = PROCEED \<Longrightarrow>
    reduce_baseline_init rt Progress_default c ev head = Inr br \<Longrightarrow>
    task_step rt cfg c fs (heal now' (crash_after k
      (baseline_steps now \<lparr>bx_progress = br_progress br, bx_row = seed_row br head\<rparr>) fs))"
| Round: "task_record_round rt now (Some c) git ev desc it fs = (fs', kd) \<Longrightarrow> task_step rt cfg c fs fs'"
| RoundCrash: "read_phase fs = EDIT \<Longrightarrow> prepare_round rt c git ev desc it fs = Inr tx \<Longrightarrow>
    pending_settle fs = PNone \<Longrightarrow> task_step rt cfg c fs (heal now' (crash_after k (round_steps now tx) fs))"
| Settle: "settle_round rt cfg now fs = (fs', so) \<Longrightarrow> task_step rt cfg c fs fs'"
| SettleCrash: "read_phase fs = EDIT \<Longrightarrow> settle_result rt d fs = Inr (fs', report) \<Longrightarrow> task_step rt cfg c fs fs'"
| Plan: "commit_plan rt now items fs = (fs', po) \<Longrightarrow> task_step rt cfg c fs fs'"
| PlanCrash: "prepare_plan rt items fs = Inr (tx, out) \<Longrightarrow>
    task_step rt cfg c fs (heal now' (crash_after k (plan_steps now tx) fs))"
| Marker: "task_step rt cfg c fs (fs\<lparr>edit_marker := b\<rparr>)"
| Note: "note_changes changes \<Longrightarrow> update_progress now changes fs = Inr (fs', p) \<Longrightarrow> task_step rt cfg c fs fs'"

inductive_cases task_stepE: "task_step rt cfg c fs fs'"

definition reachable :: "runtime \<Rightarrow> config \<Rightarrow> task_config \<Rightarrow> task_fs \<Rightarrow> bool" where
  "reachable rt cfg c fs = (task_step rt cfg c)\<^sup>*\<^sup>* empty_fs fs"

subsection \<open>The invariant of the lifecycle\<close>

text \<open>Before the baseline a task is at INIT or BASELINE and has nothing to settle.\<close>

definition parked :: "task_fs \<Rightarrow> bool" where
  "parked fs \<longleftrightarrow> read_phase fs \<in> {INIT, BASELINE} \<and> pending_settle fs = PNone"

definition life_inv :: "task_fs \<Rightarrow> bool" where
  "life_inv fs \<longleftrightarrow> (uncommitted fs \<and> parked fs) \<or> (\<exists>n v. committed n v fs)"

lemma life_invE:
  assumes "life_inv fs"
  obtains (fresh) "uncommitted fs" "parked fs" | (run) n v where "committed n v fs"
  using assms by (auto simp: life_inv_def)

lemma life_inv_task_inv: "life_inv fs \<Longrightarrow> task_inv fs"
  by (auto simp: life_inv_def task_inv_def)

lemma life_inv_idle: "life_inv fs \<Longrightarrow> intent_file fs = NoFile"
  by (auto simp: life_inv_def uncommitted_def committed_def)

lemma heal_inv: "life_inv fs \<Longrightarrow> heal now fs = fs"
  by (simp add: heal_idle life_inv_idle read_intent_NoFile)

lemma parked_same: "same_task a b \<Longrightarrow> parked a = parked b"
proof -
  have "parked (untouched fs) = parked fs" for fs
    by (cases "load_state fs")
       (simp_all add: parked_def read_phase_def pending_settle_def state_or_empty_def load_state_untouched dget_fmdrop)
  then show "same_task a b \<Longrightarrow> parked a = parked b" unfolding same_task_def by metis
qed

lemma life_inv_same: "same_task a b \<Longrightarrow> life_inv a = life_inv b"
  by (simp add: life_inv_def inv_same parked_same)

lemma parked_save:
  assumes "phase_of (dget st ''phase'') \<in> {None, Some INIT, Some BASELINE}" and "dget st ''pending_settle'' = PNone"
  shows "parked (save_state now st fs)"
  using assms by (auto simp: parked_def read_phase_def pending_settle_def phase_of_sanitized)

lemma parked_state:
  assumes "parked fs"
  shows "phase_of (dget (state_or_empty fs) ''phase'') \<in> {None, Some INIT, Some BASELINE}"
    and "dget (state_or_empty fs) ''pending_settle'' = PNone"
  using assms
  by (auto simp: parked_def read_phase_def state_or_empty_def pending_settle_def phase_of_def
      split: option.splits)

lemma parked_clear [simp]: "parked (clear_intent fs) = parked fs"
  by (simp add: parked_def read_phase_def pending_settle_def)

lemma not_committed_load: "uncommitted fs \<Longrightarrow> load_progress fs = None"
  by (auto simp: load_progress_def uncommitted_def split: option.splits)

subsection \<open>Every step keeps it\<close>

lemma state_or_fresh_cases:
  "state_or_fresh now fs = fresh_state now \<and> (load_state fs = None \<or> load_state fs = Some fmempty)
   \<or> state_or_fresh now fs = state_or_empty fs \<and> load_state fs = Some (state_or_empty fs)"
  by (auto simp: state_or_fresh_def state_or_empty_def split: option.splits)

lemma fresh_state_parked:
  "phase_of (dget (fresh_state now) ''phase'') = Some INIT" "dget (fresh_state now) ''pending_settle'' = PNone"
  by (simp_all add: fresh_state_def dget_def phase_of_def ALL_PHASES_def)

lemma fresh_or_state:
  assumes "uncommitted fs" and "parked fs"
  shows "\<not> truthy (dget (state_or_fresh now fs) ''progress_initialized'')"
    and "expected_int (state_or_fresh now fs) ''expected_plan_version'' = Inr 0"
    and "expected_int (state_or_fresh now fs) ''expected_history_round'' = Inr 0"
    and "phase_of (dget (state_or_fresh now fs) ''phase'') \<in> {None, Some INIT, Some BASELINE}"
    and "dget (state_or_fresh now fs) ''pending_settle'' = PNone"
  using state_or_fresh_cases [of now fs] fresh_state_facts [of now] fresh_state_parked [of now]
    uncommitted_state [OF assms(1)] parked_state [OF assms(2)]
  by auto

lemma control_save_keeps:
  assumes "life_inv fs" and "k \<in> {''owner'', ''last_touched''}"
  shows "life_inv (save_state now (fmupd k x (state_or_fresh now fs)) fs)"
  using assms(1)
proof (cases rule: life_invE)
  case fresh
  have "uncommitted (save_state now (fmupd k x (state_or_fresh now fs)) fs)"
    using fresh assms(2) by (intro uncommitted_save) (auto simp: fresh_or_state expected_int_fmupd)
  moreover have "parked (save_state now (fmupd k x (state_or_fresh now fs)) fs)"
    using fresh_or_state [OF fresh] assms(2) by (intro parked_save) auto
  ultimately show ?thesis by (simp add: life_inv_def)
next
  case (run n v)
  then obtain st where st: "load_state fs = Some st" "committed_state st n v" by (elim committedE)
  then have "state_or_fresh now fs = st" by (auto simp: state_or_fresh_def committed_state_def)
  moreover have "control_key k" using assms(2) by auto
  ultimately have "committed n v (save_state now (fmupd k x (state_or_fresh now fs)) fs)"
    using committed_resave [OF run st(1) committed_state_control [OF _ st(2)]] by simp
  then show ?thesis by (auto simp: life_inv_def)
qed

lemma touch_life: "life_inv fs \<Longrightarrow> life_inv (touch_heartbeat now fs)"
  using control_save_keeps [of fs "''last_touched''" now "PTime now"]
  by (simp add: touch_heartbeat_def save_state_now)

lemma park_life: "uncommitted fs \<Longrightarrow> parked fs \<Longrightarrow> life_inv (park_baseline now fs)"
  using park_keeps [of fs now] parked_state [of fs]
  by (auto simp: life_inv_def park_baseline_def intro!: parked_save simp del: phase_name.simps)

lemma phase_on_resume_fresh: "uncommitted fs \<Longrightarrow> phase_on_resume fs = Inr BASELINE"
  by (simp add: phase_on_resume_def not_committed_load)

lemma activation_fresh:
  assumes "uncommitted fs" and "parked fs" and "activation_target f fs = Inr ph"
  shows "ph \<in> {INIT, BASELINE}"
  using assms(2,3) phase_on_resume_fresh [OF assms(1)]
  by (auto simp: activation_target_def Let_def parked_def split: if_splits)

lemma activate_life:
  assumes "life_inv fs" and "activate now f fs = (fs', r)"
  shows "life_inv fs'"
  using assms(1)
proof (cases rule: life_invE)
  case fresh
  show ?thesis
  proof (cases "fs' = fs")
    case False
    then obtain ph where ph: "activation_target f fs = Inr ph"
      "fs' = save_state now (fmupd ''phase'' (PStr (phase_name ph)) (state_or_empty fs)) fs"
      using assms(2) by (auto simp: activate_def reading_def split: sum.splits if_splits)
    have "uncommitted fs'" unfolding ph(2)
      using fresh by (intro uncommitted_save) (simp_all add: uncommitted_state expected_int_fmupd)
    moreover have "parked fs'" unfolding ph(2)
      using activation_fresh [OF fresh ph(1)] parked_state [OF fresh(2)] by (intro parked_save) auto
    ultimately show ?thesis by (simp add: life_inv_def)
  qed (use assms(1) in simp)
next
  case (run n v)
  show ?thesis
  proof (cases "fs' = fs")
    case False
    then obtain ph where fs': "fs' = save_state now (fmupd ''phase'' (PStr (phase_name ph)) (state_or_empty fs)) fs"
      using assms(2) by (auto simp: activate_def reading_def split: sum.splits if_splits)
    obtain st where st: "load_state fs = Some st" "committed_state st n v" "state_or_empty fs = st"
      using run by (elim committedE)
    then have "committed n v fs'" unfolding fs'
      using committed_resave [OF run st(1) committed_state_control [OF _ st(2)]] by simp
    then show ?thesis by (auto simp: life_inv_def)
  qed (use assms(1) in simp)
qed

lemma precheck_life: "life_inv fs \<Longrightarrow> precheck_baseline now fs = Inr (fs, classify_baseline fs)"
  by (simp add: precheck_baseline_def replay_intent_def read_intent_NoFile life_inv_idle)

lemma committed_not_proceed: "committed n v fs \<Longrightarrow> classify_baseline fs \<noteq> PROCEED"
  by (auto simp: classify_baseline_def Let_def committed_state_def elim!: committedE)

lemma record_baseline_life:
  assumes "life_inv fs" and "record_baseline rt now (Some c) git ev fs = (fs', rc)" and "is_count (tc_max_rounds c)"
  shows "life_inv fs'"
  using assms(1)
proof (cases rule: life_invE)
  case fresh
  consider "fs' = fs" | rc' where "run_baseline_init rt now (Some c) git ev fs = Inr (fs', rc')"
    using assms(2) precheck_life [OF assms(1)]
    by (auto simp: record_baseline_def reading_def split: sum.splits if_splits)
  then show ?thesis
  proof cases
    case 2
    from 2 show ?thesis
    proof (cases rule: run_baseline_cases)
      case park
      then show ?thesis using park_life [OF fresh] by simp
    next
      case (commit br ex head)
      then show ?thesis
        using baseline_commit_keeps [OF fresh(1) commit(1) assms(3)] by (auto simp: life_inv_def)
    qed
  qed (use assms(1) in simp)
next
  case (run n v)
  then have "fs' = fs"
    using assms(2) precheck_life [OF assms(1)] committed_not_proceed [OF run]
    by (auto simp: record_baseline_def reading_def split: sum.splits if_splits)
  then show ?thesis using assms(1) by simp
qed

lemma baseline_crash_life:
  assumes "life_inv fs" and "classify_baseline fs = PROCEED" and "reduce_baseline_init rt ex c ev head = Inr br"
    and "is_count (tc_max_rounds c)"
  shows "life_inv (heal now' (crash_after k
      (baseline_steps now \<lparr>bx_progress = br_progress br, bx_row = seed_row br head\<rparr>) fs))"
proof -
  let ?tx = "\<lparr>bx_progress = br_progress br, bx_row = seed_row br head\<rparr>"
  from assms(1,2) have f: "uncommitted fs" using committed_not_proceed by (auto elim: life_invE)
  have pre: "(\<lambda>(now, tx). baseline_pre tx) (now, ?tx) fs" using baseline_pre_uncommitted [OF f, of ?tx] by simp
  have st: "baseline_txn.steps (now, ?tx) = baseline_steps now ?tx"
    by (simp add: baseline_txn.steps_def baseline_steps_def)
  have "baseline_txn.complete (now, ?tx) fs = fold (\<lambda>step s. step s) (baseline_steps now ?tx) fs"
    by (simp add: baseline_txn.complete_def baseline_steps_def)
  then have "life_inv (baseline_txn.complete (now, ?tx) fs)"
    using baseline_commit_keeps [OF f assms(3,4)] by (auto simp: life_inv_def)
  then show ?thesis
    using life_inv_same [OF baseline_txn.crash_atomic [OF pre, of now' k]] assms(1) unfolding st
    by (simp split: if_splits)
qed

lemma edit_committed: "life_inv fs \<Longrightarrow> read_phase fs = EDIT \<Longrightarrow> \<exists>n v. committed n v fs"
  by (erule life_invE) (auto simp: parked_def)

lemma round_crash_committed:
  assumes "committed n v fs" and "prepare_round rt c git ev desc it fs = Inr tx"
  shows "same_task (heal now' (crash_after k (round_steps now tx) fs))
           (if k \<le> 1 then fs else fold (\<lambda>step s. step s) (round_steps now tx) fs)"
proof -
  have pre: "(\<lambda>(n, now, tx). round_pre n tx) (int n + 1, now, tx) fs"
    using round_pre_committed [OF assms] by simp
  show ?thesis
    using round_txn.crash_atomic [OF pre, of now' k]
    by (simp add: round_txn.steps_def round_txn.complete_def round_steps_def split: if_splits)
qed

lemma plan_crash_committed:
  assumes "committed n v fs" and "prepare_plan rt items fs = Inr (tx, out)"
  shows "same_task (heal now' (crash_after k (plan_steps now tx) fs))
           (if k \<le> 1 then fs else fold (\<lambda>step s. step s) (plan_steps now tx) fs)"
proof -
  have pre: "(\<lambda>(v, now, tx). plan_pre v tx) (int v + 1, now, tx) fs"
    using prepare_plan_facts [OF assms(2,1)] by simp
  show ?thesis
    using plan_txn.crash_atomic [OF pre, of now' k]
    by (simp add: plan_txn.steps_def plan_txn.complete_def plan_steps_def split: if_splits)
qed

lemma record_round_eq:
  "record_round rt now (Some c) git ev desc it fs =
     bindR (prepare_round rt c git ev desc it fs)
       (\<lambda>tx. Inr (fold (\<lambda>step s. step s) (round_steps now tx) fs, rx_kd_json tx))"
  by (simp add: record_round_def)

lemma round_life:
  assumes "life_inv fs" and "task_record_round rt now (Some c) git ev desc it fs = (fs', kd)"
  shows "life_inv fs'"
proof (cases "fs' = fs")
  case False
  then obtain tx where tx: "read_phase fs = EDIT" "prepare_round rt c git ev desc it fs = Inr tx"
      "fs' = fold (\<lambda>step s. step s) (round_steps now tx) fs"
    using assms(2)
    by (auto simp: task_record_round_def reading_def require_phase_def record_round_eq
        split: sum.splits if_splits)
  from edit_committed [OF assms(1) tx(1)] obtain n v where "committed n v fs" by blast
  from round_keeps_committed [OF this tx(2), of now] tx(3) show ?thesis by (auto simp: life_inv_def)
qed (use assms(1) in simp)

lemma plan_life:
  assumes "life_inv fs" and "commit_plan rt now items fs = (fs', po)"
  shows "life_inv fs'"
  using assms(1)
proof (cases rule: life_invE)
  case fresh
  then have "fs' = fs" using assms(2) by (simp add: commit_plan_def prepare_plan_def not_committed_load)
  then show ?thesis using assms(1) by simp
next
  case (run n v)
  show ?thesis
  proof (cases "prepare_plan rt items fs")
    case (Inl e)
    then have "fs' = fs" using assms(2) by (simp add: commit_plan_def)
    then show ?thesis using assms(1) by simp
  next
    case (Inr r)
    obtain tx out where r: "r = (tx, out)" by (cases r)
    have "fs' = fold (\<lambda>step s. step s) (plan_steps now tx) fs"
      using assms(2) Inr r by (simp add: commit_plan_def Let_def)
    moreover have "committed n (Suc v) (fold (\<lambda>step s. step s) (plan_steps now tx) fs)"
      using prepare_plan_facts [of rt items fs tx out n v now] Inr r run by simp
    ultimately show ?thesis unfolding life_inv_def by metis
  qed
qed

lemma settle_life:
  assumes "life_inv fs" and "settle_round rt cfg now fs = (fs', so)"
  shows "life_inv fs'"
  using assms(1)
proof (cases rule: life_invE)
  case fresh
  then have "fs' = fs" using assms(2) by (auto simp: settle_round_def require_phase_def parked_def)
  then show ?thesis using assms(1) by simp
next
  case (run n v)
  then show ?thesis using settle_round_keeps [OF run assms(2)] by (auto simp: life_inv_def)
qed

lemma preflight_life: "life_inv fs \<Longrightarrow> baseline_preflight now fs = (fs', pr) \<Longrightarrow> fs' = fs"
  by (auto simp: baseline_preflight_def precheck_life split: if_splits)

lemma life_inv_marker: "life_inv fs \<Longrightarrow> life_inv (fs\<lparr>edit_marker := b\<rparr>)"
proof (erule life_invE)
  assume "uncommitted fs" "parked fs"
  then show ?thesis
    by (simp add: life_inv_def uncommitted_def parked_def load_state_def read_phase_def pending_settle_def
        state_or_empty_def)
next
  fix n v assume "committed n v fs"
  from committed_frame [OF this] show ?thesis unfolding life_inv_def by blast
qed

lemma note_keys_fields: "set note_keys \<subseteq> set progress_fields" "\<And>k. k \<in> set note_keys \<longleftrightarrow>
    k \<in> {''diagnose_attempts'', ''diagnose_attempts_for_version'', ''last_diagnose_failure_reason'', ''last_stop_reason'', ''last_stop_time''}"
  by (auto simp: note_keys_def field_names)

lemma update_progress_committed:
  assumes "committed n v fs" and "note_changes changes" and "update_progress now changes fs = Inr (fs', p)"
  obtains st st' where "load_state fs = Some st" "fs' = save_state now st' fs" "committed_state st' n v"
    "max_rounds (state_progress st') = max_rounds (state_progress st)" "\<And>k. k \<notin> set progress_fields \<Longrightarrow> dget st' k = dget st k"
proof -
  from assms(1) obtain st where st: "load_state fs = Some st" "committed_state st n v" "load_progress fs = Some (state_progress st)"
    by (elim committedE)
  let ?p = "state_progress st"
  let ?q = "from_kwargs (to_dict ?p ++\<^sub>f changes)"
  let ?st = "st ++\<^sub>f to_dict ?q"
  have dom: "fset (fmdom changes) \<subseteq> set note_keys" using assms(2) by (simp add: note_changes_def)
  then have ap: "progress_apply ?p changes = Inr ?q" using note_keys_fields(1) by (auto simp: progress_apply_def)
  have "state_or_fresh now fs = st" using st(1,2) by (auto simp: state_or_fresh_def committed_state_def)
  then have fs': "fs' = save_state now ?st fs"
    using assms(3) st(3) ap by (simp add: update_progress_def save_progress_def merge_progress_def to_dict_fields)
  have kept: "dget_default changes k d = d" if "k \<notin> set note_keys" for k d
  proof -
    have "k |\<notin>| fmdom changes" using that dom by blast
    then show ?thesis by (simp add: dget_default_def fmdom_notD)
  qed
  have ctl: "dget ?st k = dget st k" if "k \<notin> set progress_fields" for k
    using to_dict_no_control [OF that, of ?q] by (simp add: dget_def fmdom_notI)
  have da: "is_count (dget_default changes ''diagnose_attempts'' (diagnose_attempts ?p))"
    using assms(2) st(2) by (auto simp: dget_default_def note_changes_def committed_state_def wf_progress_def split: option.splits)
  have fields: "eval_rounds ?q = eval_rounds ?p" "max_rounds ?q = max_rounds ?p" "consecutive_failures ?q = consecutive_failures ?p"
    "plan_version ?q = plan_version ?p" "next_pid ?q = next_pid ?p" "diagnose_attempts ?q = dget_default changes ''diagnose_attempts'' (diagnose_attempts ?p)"
    by (simp_all add: from_kwargs_def dget_default_fmadd to_dict_lookup kept note_keys_def)
  have "wf_progress ?q" using st(2) da unfolding wf_progress_def fields by (simp add: committed_state_def wf_progress_def)
  moreover have "set progress_fields \<subseteq> fset (fmdom ?st)" using set_progress_fields_dom [of ?q] by auto
  ultimately have "committed_state ?st n v"
    using st(2) ctl by (simp add: committed_state_def fields expected_int_def field_names progress_fields_def)
  then show thesis using that [OF st(1) fs'] ctl fields(2) by simp
qed

lemma update_progress_fresh: "load_progress fs = None \<Longrightarrow> update_progress now changes fs = Inr (fs', p) \<Longrightarrow> fs' = fs"
  by (simp add: update_progress_def)

lemma note_life:
  assumes "life_inv fs" and "note_changes changes" and "update_progress now changes fs = Inr (fs', p)"
  shows "life_inv fs'"
  using assms(1)
proof (cases rule: life_invE)
  case fresh
  then show ?thesis using update_progress_fresh [OF not_committed_load assms(3)] assms(1) by simp
next
  case (run n v)
  from update_progress_committed [OF run assms(2,3)] obtain st st' where
    st: "load_state fs = Some st" "fs' = save_state now st' fs" "committed_state st' n v" by blast
  have "committed n v fs'" unfolding st(2) by (rule committed_resave [OF run st(1,3)])
  then show ?thesis by (auto simp: life_inv_def)
qed

lemma step_keeps:
  assumes "task_step rt cfg c fs fs'" and "life_inv fs" and "is_count (tc_max_rounds c)"
  shows "life_inv fs'"
  using assms(1)
proof (cases rule: task_step.cases)
  case (Heal now)
  then show ?thesis using heal_inv [OF assms(2)] assms(2) by simp
next
  case (Claim now x)
  then show ?thesis using control_save_keeps [OF assms(2)] by simp
next
  case (RoundCrash git ev desc it tx now' k now)
  from edit_committed [OF assms(2) RoundCrash(2)] obtain n v where c: "committed n v fs" by blast
  from life_inv_same [OF round_crash_committed [OF c RoundCrash(3), of now' k now]]
    round_keeps_committed [OF c RoundCrash(3), of now] assms(2) RoundCrash(1)
  show ?thesis by (auto simp: life_inv_def split: if_splits)
next
  case (SettleCrash d report)
  from edit_committed [OF assms(2) SettleCrash(1)] obtain n v where c: "committed n v fs" by blast
  from settle_result_keeps [OF c SettleCrash(2)] show ?thesis by (auto simp: life_inv_def)
next
  case (PlanCrash items tx out now' k now)
  show ?thesis
    using assms(2)
  proof (cases rule: life_invE)
    case fresh
    then show ?thesis using PlanCrash(2) by (simp add: prepare_plan_def not_committed_load)
  next
    case (run n v)
    from life_inv_same [OF plan_crash_committed [OF run PlanCrash(2), of now' k now]]
      prepare_plan_facts [OF PlanCrash(2) run, of now] assms(2) PlanCrash(1)
    show ?thesis by (auto simp: life_inv_def split: if_splits)
  qed
next
  case (Heartbeat now)
  then show ?thesis using touch_life [OF assms(2)] by simp
next
  case (Activate now fresh r)
  then show ?thesis using activate_life [OF assms(2)] by blast
next
  case (Preflight now pr)
  then show ?thesis using preflight_life [OF assms(2)] assms(2) by blast
next
  case (Baseline now git ev rc)
  then show ?thesis using record_baseline_life [OF assms(2) _ assms(3)] by blast
next
  case (BaselineCrash ev head br now' k now)
  then show ?thesis using baseline_crash_life [OF assms(2) _ _ assms(3)] by simp
next
  case (Round now git ev desc it kd)
  then show ?thesis using round_life [OF assms(2)] by blast
next
  case (Settle now so)
  then show ?thesis using settle_life [OF assms(2)] by blast
next
  case (Plan now items po)
  then show ?thesis using plan_life [OF assms(2)] by blast
next
  case (Marker b)
  then show ?thesis using life_inv_marker [OF assms(2)] by simp
next
  case (Note changes now p)
  then show ?thesis using note_life [OF assms(2)] by blast
qed

lemma empty_life: "life_inv empty_fs"
  by (simp add: life_inv_def uncommitted_def parked_def empty_fs_def load_state_def read_phase_def
      pending_settle_def state_or_empty_def)

lemma reachable_inv: "reachable rt cfg c fs \<Longrightarrow> is_count (tc_max_rounds c) \<Longrightarrow> life_inv fs"
  unfolding reachable_def
  by (induction rule: rtranclp_induct) (use empty_life step_keeps in blast)+

subsection \<open>A concrete task\<close>

text \<open>
  A task whose seed kernel failed: activated, then given a baseline with a measured
  reference and a kernel failure, then evaluated with a failing kernel.
\<close>

definition demo_config :: task_config where
  "demo_config = \<lparr>tc_name = ''demo'', tc_primary_metric = ''latency_us'', tc_lower_is_better = True,
     tc_improvement_threshold = Fin 2, tc_constraints = [], tc_max_rounds = PInt 1\<rparr>"

definition demo_git :: git_env where
  "demo_git = \<lparr>commit_result = (True, ''abc1234''), head_short = Some ''abc1234''\<rparr>"

definition demo_cfg :: config where
  "demo_cfg = \<lparr>consecutive_fail_threshold = 3, diagnose_max_attempts = 5, heartbeat_fresh_seconds = 180\<rparr>"

definition demo_eval :: dict where
  "demo_eval = fmap_of_list [(''outcome'', PStr ''kernel_fail''),
     (''metrics'', PDict (fmap_of_list [(''ref_latency_us'', PInt 5)]))]"

definition demo_activated :: task_fs where
  "demo_activated = fst (activate 1 True empty_fs)"

definition demo_fs :: task_fs where
  "demo_fs = fst (record_baseline demo_runtime 2 (Some demo_config) demo_git demo_eval demo_activated)"

lemma demo_eval_facts:
  "read_outcome demo_eval = KERNEL_FAIL" "outcome_of (dget demo_eval ''outcome'') = Some KERNEL_FAIL"
  "metrics_of demo_eval = Inr (fmap_of_list [(''ref_latency_us'', PInt 5)])"
  "baseline_metrics demo_eval = Inr (fmap_of_list [(''ref_latency_us'', PInt 5)])"
  "fmlookup demo_eval ''outcome'' = Some (PStr ''kernel_fail'')"
  "failure_signals_of demo_eval = None" "output_tail demo_eval = Inr []"
  by (simp_all add: demo_eval_def read_outcome_def outcome_of_def metrics_of_def baseline_metrics_def
      dget_def dget_default_def py_or_def py_eq_PStr_iff failure_signals_of_def output_tail_def Let_def
      strip_def lstrip_def rstrip_def)

lemma demo_fingerprint: "\<exists>fp. metrics_fingerprint demo_runtime (fmap_of_list [(''ref_latency_us'', PInt 5)]) = Inr fp"
  by (simp add: metrics_fingerprint_def current_fingerprint_def py_or_def dget_def)

lemma demo_reduction: "\<exists>br. reduce_baseline_init demo_runtime p demo_config demo_eval h = Inr br \<and> br_outcome br = KERNEL_FAIL"
  using demo_fingerprint
  by (auto simp: reduce_baseline_init_def Let_def demo_eval_facts [simplified] resolve_baseline_init_anchor_def)

lemma demo_activated_facts: "uncommitted demo_activated" "read_phase demo_activated = BASELINE" "life_inv demo_activated"
proof -
  have a: "demo_activated = save_state 1 (fmupd ''phase'' (PStr ''BASELINE'') fmempty) empty_fs"
    by (simp add: demo_activated_def activate_def activation_target_def read_phase_def empty_fs_def load_state_def
        state_or_empty_def Let_def)
  show ph: "read_phase demo_activated = BASELINE"
    by (simp add: a read_phase_def phase_of_def ALL_PHASES_def)
  show u: "uncommitted demo_activated"
    by (simp add: a) (intro uncommitted_save, simp_all add: uncommitted_def empty_fs_def load_state_def expected_int_def py_or_def)
  show "life_inv demo_activated"
    using u ph by (simp add: life_inv_def parked_def pending_settle_def a)
qed

lemma demo_metric_valid: "valid_metric (dget (fmap_of_list [(''ref_latency_us'', PInt 5)]) ''ref_latency_us'')"
  by (simp add: valid_metric_def dget_def)

lemma demo_record_baseline:
  "\<exists>br head. reduce_baseline_init demo_runtime Progress_default demo_config demo_eval head = Inr br
     \<and> record_baseline demo_runtime 2 (Some demo_config) demo_git demo_eval demo_activated =
         (fold (\<lambda>step s. step s) (baseline_steps 2 \<lparr>bx_progress = br_progress br, bx_row = seed_row br head\<rparr>)
            demo_activated, Inr 0)"
proof -
  let ?head = "PStr ''abc1234''"
  have np: "load_progress demo_activated = None" using demo_activated_facts(1) by (rule not_committed_load)
  have pc: "classify_baseline demo_activated = PROCEED"
    using uncommitted_state(1) [OF demo_activated_facts(1)] uncommitted_log [OF demo_activated_facts(1)]
    by (simp add: classify_baseline_def)
  obtain br where br: "reduce_baseline_init demo_runtime Progress_default demo_config demo_eval ?head = Inr br"
      "br_outcome br = KERNEL_FAIL"
    using demo_reduction by blast
  have "run_baseline_init demo_runtime 2 (Some demo_config) demo_git demo_eval demo_activated =
      Inr (fold (\<lambda>step s. step s) (baseline_steps 2 \<lparr>bx_progress = br_progress br, bx_row = seed_row br ?head\<rparr>)
            demo_activated, 0)"
    unfolding run_baseline_init_def
    by (simp only: option.case demo_eval_facts bindR_simps Let_def demo_metric_valid np)
       (simp add: demo_git_def br exit_for_def)
  then have "record_baseline demo_runtime 2 (Some demo_config) demo_git demo_eval demo_activated =
      (fold (\<lambda>step s. step s) (baseline_steps 2 \<lparr>bx_progress = br_progress br, bx_row = seed_row br ?head\<rparr>)
            demo_activated, Inr 0)"
    by (simp add: record_baseline_def require_phase_def demo_activated_facts(2)
        precheck_life [OF demo_activated_facts(3)] pc demo_eval_facts)
  with br(1) show ?thesis by blast
qed

lemma demo_count: "is_count (tc_max_rounds demo_config)"
  by (simp add: demo_config_def)

lemma demo_committed: "committed 0 0 demo_fs"
proof -
  obtain br head where br: "reduce_baseline_init demo_runtime Progress_default demo_config demo_eval head = Inr br"
      "record_baseline demo_runtime 2 (Some demo_config) demo_git demo_eval demo_activated =
         (fold (\<lambda>step s. step s) (baseline_steps 2 \<lparr>bx_progress = br_progress br, bx_row = seed_row br head\<rparr>)
            demo_activated, Inr 0)" using demo_record_baseline by blast
  from baseline_commit_keeps [OF demo_activated_facts(1) br(1) demo_count, of 2] show ?thesis
    by (simp add: demo_fs_def br(2))
qed

lemma demo_reachable: "reachable demo_runtime demo_cfg demo_config demo_fs"
proof -
  have "task_step demo_runtime demo_cfg demo_config empty_fs demo_activated"
    unfolding demo_activated_def by (metis Activate prod.collapse)
  moreover have "task_step demo_runtime demo_cfg demo_config demo_activated demo_fs"
    unfolding demo_fs_def by (metis Baseline prod.collapse)
  ultimately show ?thesis unfolding reachable_def by (meson rtranclp.simps)
qed

text \<open>A failing evaluation can be recorded on any committed task.\<close>

lemma demo_prepare_round:
  assumes "committed n v fs"
  shows "\<exists>tx. prepare_round demo_runtime demo_config demo_git demo_eval (PStr ''try'') (PStr ''p1'') fs = Inr tx"
proof -
  obtain st where st: "load_progress fs = Some (state_progress st)" "committed_state st n v"
    using assms by (elim committedE)
  let ?p = "state_progress st"
  obtain k where k: "consecutive_failures ?p = PInt (int k)"
    using st(2) by (auto simp: committed_state_def wf_progress_def elim: is_countE)
  let ?er = "\<lparr>er_outcome = KERNEL_FAIL, er_metrics = fmap_of_list [(''ref_latency_us'', PInt 5)],
      er_error = dget demo_eval ''error'', er_raw_output = [], er_error_source = dget demo_eval ''error_source'',
      er_fail_report = None, er_failure_signals = fmempty\<rparr>"
  have er: "eval_result_from_data demo_eval = Inr ?er"
    by (simp only: eval_result_from_data_def demo_eval_facts bindR_simps)
  have nr: "next_round ?p = Inr (PInt (int n + 1))" using st(2) by (simp add: next_round_def committed_state_def)
  obtain ro where ro: "decide_round demo_config demo_git ?p ?er = Inr ro"
    by (simp add: decide_round_def first_decision_def correctness_def k Let_def)
  obtain fp where fp: "metrics_fingerprint demo_runtime (fmap_of_list [(''ref_latency_us'', PInt 5)]) = Inr fp"
    using demo_fingerprint by blast
  obtain d where d: "refresh_round_anchor demo_runtime ?p (er_metrics ?er) = Inr d"
    using refresh_total [OF fp] by auto
  obtain pa where pa: "reduce_round_progress demo_runtime ?p ?er (PInt (int n + 1)) ro = Inr pa"
    by (simp only: reduce_round_progress_def d bindR_simps)
  obtain h where h: "history_row demo_eval ?er ro (PInt (int n + 1)) (PStr ''p1'') (PStr ''try'') = Inr h"
    by (simp only: history_row_def demo_eval_facts bindR_simps Let_def option.case) (cases "ro_decision ro = FAIL"; simp)
  show ?thesis
    by (simp only: prepare_round_def st(1) option.case Let_def er nr ro bindR_simps pa h) (cases pa; simp add: h)
qed

subsection \<open>Properties\<close>

text \<open>
  C26. Recording a round is atomic under crashes. On a committed task, cutting
  \<open>_record_round\<close> short after any number \<open>k\<close> of its durable steps (journal, history row,
  state commit, journal clear) and healing at any later time leaves, up to the clock field,
  the directory as it was before the round when the row never landed, and as after the whole
  round otherwise. The whole round takes a task at round \<open>n\<close> to a committed task at round
  \<open>n + 1\<close>, and a crash inside the heal itself is healed by the next one.
\<close>

theorem record_round_crash_atomic:
  assumes "committed n v fs" and "prepare_round rt c git ev desc it fs = Inr tx"
  shows "\<exists>fs'. record_round rt now (Some c) git ev desc it fs = Inr (fs', rx_kd_json tx)
     \<and> committed (n + 1) v fs'
     \<and> same_task (heal now' (crash_after k (round_steps now tx) fs)) (if k \<le> 1 then fs else fs')
     \<and> same_task (heal now' (round_rebuild now' tx (crash_after 2 (round_steps now tx) fs))) fs'"
proof -
  have pre: "(\<lambda>(n, now, tx). round_pre n tx) (int n + 1, now, tx) fs"
    using round_pre_committed [OF assms] by simp
  let ?fs' = "fold (\<lambda>step s. step s) (round_steps now tx) fs"
  have "same_task (heal now' (round_rebuild now' tx (crash_after 2 (round_steps now tx) fs))) ?fs'"
    using round_txn.crash_in_recovery [OF pre, of now']
    by (simp add: round_txn.complete_def round_steps_def crash_after_def)
  moreover have "record_round rt now (Some c) git ev desc it fs = Inr (?fs', rx_kd_json tx)"
    by (simp add: record_round_eq assms(2))
  ultimately show ?thesis
    using round_keeps_committed [OF assms, of now] round_crash_committed [OF assms, of now' k now]
    by (intro exI [of _ ?fs']) simp
qed

theorem record_round_crash_atomic_witness:
  "\<exists>tx fs'. prepare_round demo_runtime demo_config demo_git demo_eval (PStr ''try'') (PStr ''p1'') demo_fs = Inr tx
     \<and> committed 1 0 fs' \<and> same_task (heal 9 (crash_after 2 (round_steps 5 tx) demo_fs)) fs'
     \<and> same_task (heal 9 (crash_after 1 (round_steps 5 tx) demo_fs)) demo_fs"
proof -
  obtain tx where tx: "prepare_round demo_runtime demo_config demo_git demo_eval (PStr ''try'') (PStr ''p1'') demo_fs = Inr tx"
    using demo_prepare_round [OF demo_committed] ..
  show ?thesis
    using record_round_crash_atomic [OF demo_committed tx, of 5 9 2] record_round_crash_atomic [OF demo_committed tx, of 5 9 1] tx
    by auto
qed

text \<open>
  The baseline transaction is atomic under crashes: on a task with no committed
  baseline, cutting it short after any number of durable steps and healing leaves the
  directory either uncommitted as before, or committed at round 0 exactly as the uninterrupted
  transaction would; in the second case a retry is classified \<open>ALREADY_DONE\<close> and runs no
  second evaluation.
\<close>

theorem baseline_crash_atomic:
  assumes "uncommitted fs" and "reduce_baseline_init rt ex c ev head = Inr br" and "is_count (tc_max_rounds c)"
    and tx: "tx = \<lparr>bx_progress = br_progress br, bx_row = seed_row br head\<rparr>"
  shows "\<exists>fs'. fs' = fold (\<lambda>step s. step s) (baseline_steps now tx) fs \<and> committed 0 0 fs'
     \<and> classify_baseline fs = PROCEED \<and> classify_baseline fs' = ALREADY_DONE
     \<and> same_task (heal now' (crash_after k (baseline_steps now tx) fs)) (if k \<le> 1 then fs else fs')"
proof -
  let ?fs' = "fold (\<lambda>step s. step s) (baseline_steps now tx) fs"
  have pre: "(\<lambda>(now, tx). baseline_pre tx) (now, tx) fs" using baseline_pre_uncommitted [OF assms(1), of tx] tx by simp
  have crash: "same_task (heal now' (crash_after k (baseline_steps now tx) fs)) (if k \<le> 1 then fs else ?fs')"
    using baseline_txn.crash_atomic [OF pre, of now' k]
    by (simp add: baseline_txn.steps_def baseline_txn.complete_def baseline_steps_def split: if_splits)
  have com: "committed 0 0 ?fs'" using baseline_commit_keeps [OF assms(1-3)] tx by simp
  have log: "\<not> existing_seed_row fs" "history_file fs = None \<or> history_file fs = Some []" "history_eol fs"
    using assms(1) uncommitted_log by (auto simp: uncommitted_def)
  have proceed: "classify_baseline fs = PROCEED"
    using uncommitted_state(1) [OF assms(1)] log(1) by (simp add: classify_baseline_def)
  have "history_file ?fs' = Some [HRow (sanitize_dict (seed_row br head))]"
    using log by (auto simp: baseline_steps_def commit_patch_def append_seed_def append_history_lines tx)
  then have "existing_seed_row ?fs'"
    by (simp add: existing_seed_row_def) (simp add: seed_row_def dget_def)
  then have "classify_baseline ?fs' = ALREADY_DONE"
    using com by (auto simp: classify_baseline_def committed_state_def elim!: committedE)
  with crash com proceed show ?thesis by blast
qed

theorem baseline_crash_atomic_witness:
  "\<exists>tx fs'. committed 0 0 fs' \<and> classify_baseline fs' = ALREADY_DONE
     \<and> same_task (heal 9 (crash_after 2 (baseline_steps 2 tx) demo_activated)) fs'"
proof -
  obtain br where br: "reduce_baseline_init demo_runtime Progress_default demo_config demo_eval (PStr ''h'') = Inr br"
    using demo_reduction by blast
  show ?thesis
    using baseline_crash_atomic [OF demo_activated_facts(1) br demo_count refl, of 2 9 2] by auto
qed

lemma demo_state_phase: "dget_default (state_or_empty demo_fs) ''phase'' x = PStr ''PLAN''"
proof -
  obtain br head where "record_baseline demo_runtime 2 (Some demo_config) demo_git demo_eval demo_activated =
         (fold (\<lambda>step s. step s) (baseline_steps 2 \<lparr>bx_progress = br_progress br, bx_row = seed_row br head\<rparr>)
            demo_activated, Inr 0)" using demo_record_baseline by blast
  then show ?thesis
    by (simp add: demo_fs_def baseline_steps_def commit_patch_def append_seed_def dget_default_def baseline_patch_def)
qed

lemma alloc_from_PInt: "\<exists>ids. alloc_from rt (PInt k) i m = Inr ids \<and> length ids = m"
  by (induction m arbitrary: i) (auto simp: py_add_def, metis bindR_simps(2) length_Cons)

lemma prepare_plan_total:
  assumes "committed n v fs" and "can_commit_plan (state_or_empty fs)"
  shows "\<exists>tx out. prepare_plan rt items fs = Inr (tx, out)"
proof -
  obtain st where st: "load_progress fs = Some (state_progress st)" "committed_state st n v"
    using assms(1) by (elim committedE)
  have "is_count (next_pid (state_progress st))" using st(2) by (simp add: committed_state_def wf_progress_def)
  then obtain k where k: "compute_next_pid (next_pid (state_progress st)) fs = PInt (int (Suc k))"
    using compute_next_pid_count by blast
  obtain ids where "allocate_ids rt (length items) (PInt (int (Suc k))) = Inr (ids, PInt (int (Suc k) + int (length items)))"
    using alloc_from_PInt [of rt "int (Suc k)" 0 "length items"] by (auto simp: allocate_ids_def py_add_def)
  then show ?thesis
    using st k assms(2) by (simp add: prepare_plan_def committed_state_def Let_def)
qed

text \<open>
  Committing a plan is atomic under crashes: cutting \<open>_commit_plan\<close> short after any
  number of its durable steps (journal, plan.md, state commit, journal clear) and healing
  leaves, up to the clock field, the directory before the commit or after all of it, although
  the journal carries only the changed fields while the commit rewrites the whole progress
  record. The whole commit moves the task from plan version \<open>v\<close> to \<open>v + 1\<close> in state and file.
\<close>

theorem commit_plan_crash_atomic:
  assumes "committed n v fs" and "prepare_plan rt items fs = Inr (tx, out)"
  shows "\<exists>fs'. fst (commit_plan rt now items fs) = fs' \<and> committed n (v + 1) fs'
     \<and> read_plan_version_from_disk fs' = Some (int v + 1)
     \<and> same_task (heal now' (crash_after k (plan_steps now tx) fs)) (if k \<le> 1 then fs else fs')"
proof -
  let ?fs' = "fold (\<lambda>step s. step s) (plan_steps now tx) fs"
  have c: "committed n (Suc v) ?fs'" using prepare_plan_facts [OF assms(2,1), of now] by simp
  then have "read_plan_version_from_disk ?fs' = Some (int v + 1)"
    by (auto simp: committed_def plan_at_def plan_version_on_disk split: option.splits)
  moreover have "fst (commit_plan rt now items fs) = ?fs'" by (simp add: commit_plan_def assms(2) Let_def)
  ultimately show ?thesis using c plan_crash_committed [OF assms, of now' k now] by simp
qed

theorem commit_plan_crash_atomic_witness:
  "\<exists>tx out fs'. prepare_plan demo_runtime [\<lparr>in_desc = ''Fuse the epilogue'', in_rationale = ''saves a pass'',
        in_skill = ''k/SKILL.md''\<rparr>] demo_fs = Inr (tx, out)
     \<and> committed 0 1 fs' \<and> read_plan_version_from_disk fs' = Some 1
     \<and> same_task (heal 9 (crash_after 2 (plan_steps 5 tx) demo_fs)) fs'"
proof -
  have "can_commit_plan (state_or_empty demo_fs)" by (simp add: can_commit_plan_def demo_state_phase Let_def)
  then obtain tx out where tx: "prepare_plan demo_runtime [\<lparr>in_desc = ''Fuse the epilogue'',
      in_rationale = ''saves a pass'', in_skill = ''k/SKILL.md''\<rparr>] demo_fs = Inr (tx, out)"
    using prepare_plan_total [OF demo_committed] by blast
  show ?thesis using commit_plan_crash_atomic [OF demo_committed tx, of 5 9 2] tx by auto
qed

text \<open>
  C1. Safety of the lifecycle: in every state a task directory reaches from an empty one by
  any interleaving of claims, heartbeats, activations, baselines, rounds, settlements, plan
  commits and crashes of those transactions at any durable step (each healed by the next
  opening), the state file agrees with the history and the plan, so the gate
  \<open>require_state_consistency\<close> that every entry runs never refuses the task; it also changes
  nothing, and a round or a settlement finds the task committed.
\<close>

theorem reachable_consistent:
  assumes "reachable rt cfg c fs" and "is_count (tc_max_rounds c)"
  shows "\<exists>report. require_state_consistency now raises True fs = Inr (fs, report)
     \<and> consistent report \<and> issues report = []
     \<and> (read_phase fs = EDIT \<or> pending_settle fs \<noteq> PNone \<longrightarrow> (\<exists>n v. committed n v fs))"
proof -
  have inv: "life_inv fs" by (rule reachable_inv [OF assms])
  obtain r where r: "check_state_consistency fs = Inr r" "consistent r"
    using consistent_inv [OF life_inv_task_inv [OF inv]] by blast
  have "issues r = []" using r
    by (auto simp: check_state_consistency_def Let_def split: option.splits)
  moreover have "replay_intent now fs = Inr (fs, None)"
    by (simp add: replay_intent_def read_intent_NoFile life_inv_idle [OF inv])
  moreover have "\<exists>n v. committed n v fs" if "read_phase fs = EDIT \<or> pending_settle fs \<noteq> PNone"
    using inv that by (auto simp: parked_def elim!: life_invE)
  ultimately show ?thesis using r by (auto simp: require_state_consistency_def)
qed

theorem reachable_consistent_witness:
  "\<exists>report. require_state_consistency 7 True True demo_fs = Inr (demo_fs, report)
     \<and> consistent report \<and> issues report = []"
  using reachable_consistent [OF demo_reachable demo_count, of 7 True] by blast

end
