(* ===== verification/Plan_Contract.thy ===== *)
theory Plan_Contract
  imports Plan_Roundtrip Lifecycle
begin

text \<open>
  The contract between the writers of \<open>plan.md\<close> and its readers, on a task with a committed
  baseline: the ids a plan gets, and that a plan accepted by \<open>create_plan.py\<close> is one
  \<open>validate_plan\<close> accepts. Where the contract breaks, the plans that show it.
\<close>

subsection \<open>Plan ids\<close>

definition pid_of :: "nat \<Rightarrow> string" where
  "pid_of i = CHR ''p'' # nat_str i"

lemma pid_of_inj: "pid_of i = pid_of j \<longleftrightarrow> i = j"
  by (auto simp: pid_of_def dest: nat_str_inj)

lemma pid_of_word: "pid_of i \<noteq> [] \<and> list_all is_word (pid_of i)"
  using nat_str_digits [of i] digit_word by (auto simp: pid_of_def list_all_iff) (simp add: is_word_def)

lemma distinct_pids: "distinct (map pid_of xs) \<longleftrightarrow> distinct xs"
  by (simp add: distinct_map inj_on_def pid_of_inj)

lemma alloc_from_count: "alloc_from rt (PInt (int n)) (int i) k = Inr (map pid_of [n + i..<n + i + k])"
proof (induction k arbitrary: i)
  case (Suc k)
  have "int_str (int n + int i) = nat_str (n + i)" by (simp add: int_str_def nat_int_add)
  then have w: "CHR ''p'' # py_str rt (PInt (int n + int i)) = pid_of (n + i)" by (simp add: py_str_def pid_of_def)
  have "map pid_of [n + i..<n + i + Suc k] = pid_of (n + i) # map pid_of [n + Suc i..<n + Suc i + k]"
    by (simp add: upt_conv_Cons del: upt_Suc)
  moreover have "alloc_from rt (PInt (int n)) (int i + 1) k = Inr (map pid_of [n + Suc i..<n + Suc i + k])"
    using Suc [of "Suc i"] by (simp add: add.commute)
  ultimately show ?case by (simp add: py_add_def w del: upt_Suc add_Suc_right add_Suc)
qed simp

lemma allocate_ids_eq:
  "allocate_ids rt k (PInt (int n)) = Inr (map pid_of [n..<n + k], PInt (int (n + k)))"
  using alloc_from_count [of rt n 0 k] by (simp add: allocate_ids_def py_add_def)

lemma compute_next_pid_ge:
  assumes "is_count v"
  obtains k where "compute_next_pid v fs = PInt (int k)" "\<forall>m. v = PInt m \<longrightarrow> m \<le> int k" "0 < k"
proof -
  obtain k where k: "compute_next_pid v fs = PInt (int (Suc k))" using compute_next_pid_count [OF assms] by blast
  moreover have "m \<le> int (Suc k)" if "v = PInt m" for m
    using k that by (auto simp: compute_next_pid_def split: if_splits)
  ultimately show thesis using that by blast
qed

lemma commit_planE:
  assumes "commit_plan rt now items fs = (fs', Inr out)" and "committed n v fs"
  obtains st k where "load_state fs = Some st" "committed_state st n v"
    and "po_item_ids out = map pid_of [k..<k + length items]" and "0 < k"
    and "\<forall>m. next_pid (state_progress st) = PInt m \<longrightarrow> m \<le> int k"
    and "plan_file fs' = Some (render (nat_str (Suc v)) (map pid_of [k..<k + length items]) items (parse_settled_history fs))"
    and "\<exists>p. load_progress fs' = Some p \<and> next_pid p = PInt (int (k + length items))"
    and "committed n (Suc v) fs'"
proof -
  from assms(1) obtain tx where tx: "prepare_plan rt items fs = Inr (tx, out)"
      "fs' = fold (\<lambda>step s. step s) (plan_steps now tx) fs"
    by (auto simp: commit_plan_def Let_def reading_def split: sum.splits if_splits)
  obtain st where st: "load_state fs = Some st" "committed_state st n v" "load_progress fs = Some (state_progress st)"
      "state_or_empty fs = st"
    using assms(2) by (elim committedE)
  from prepare_planE [OF tx(1) st(3)] obtain version ids pid where
    pl: "py_inc (plan_version (state_progress st)) = Inr version"
      "allocate_ids rt (length items) (compute_next_pid (next_pid (state_progress st)) fs) = Inr (ids, pid)"
      "tx = \<lparr>px_version = version, px_text = render (py_str rt version) ids items (parse_settled_history fs),
            px_patch = plan_patch st version pid, px_progress = plan_progress st version pid (state_progress st)\<rparr>"
      "po_item_ids out = ids"
    using st(4) by (metis plan_out.select_convs(2))
  have v: "version = PInt (int (Suc v))" using pl(1) st(2) by (simp add: committed_state_def add.commute)
  then have vs: "py_str rt version = nat_str (Suc v)" by (simp add: py_str_def int_str_def del: of_nat_Suc)
  have "is_count (next_pid (state_progress st))" using st(2) by (simp add: committed_state_def wf_progress_def)
  then obtain k where k: "compute_next_pid (next_pid (state_progress st)) fs = PInt (int k)"
      "\<forall>m. next_pid (state_progress st) = PInt m \<longrightarrow> m \<le> int k" "0 < k" 
    by (rule compute_next_pid_ge [where fs = fs])
  have ids: "ids = map pid_of [k..<k + length items]" "pid = PInt (int (k + length items))"
    using pl(2) by (simp_all add: k(1) allocate_ids_eq)
  have c: "committed n (Suc v) fs'" using prepare_plan_facts [OF tx(1) assms(2)] tx(2) by simp
  have fs': "fs' = clear_intent (save_state now (st ++\<^sub>f to_dict (px_progress tx) ++\<^sub>f px_patch tx)
      (put_plan (px_text tx) (write_intent (plan_intent tx) fs)))"
    using st(1) by (simp add: tx(2) plan_steps_def plan_commit_def)
  then have pf: "plan_file fs' = Some (render (nat_str (Suc v)) (map pid_of [k..<k + length items]) items (parse_settled_history fs))"
    by (simp add: clear_intent_def save_state_def pl(3) ids vs)
  have dom: "set progress_fields \<subseteq> fset (fmdom st)" using st(2) by (simp add: committed_state_def)
  obtain st2 where st2: "load_state fs' = Some st2" "load_progress fs' = Some (state_progress st2)"
    using c by (elim committedE)
  have "st2 = fmupd ''last_touched'' (PTime now) (sanitize_dict (st ++\<^sub>f plan_patch st version pid))"
    using plan_patch_absorb [OF dom, of version pid] st2(1)
    by (simp add: fs' clear_save pl(3))
  then have "next_pid (state_progress st2) = PInt (int (k + length items))"
    by (simp add: state_progress_lookup dget_default_def plan_patch_def ids(2))
  then have "\<exists>p. load_progress fs' = Some p \<and> next_pid p = PInt (int (k + length items))" using st2(2) by simp
  with pf c k ids(1) pl(4) st that show thesis by blast
qed

text \<open>Plan ids are never reused: on a committed task a plan commit numbers its items consecutively
  from an id at or above the counter on record, and leaves the counter behind the last of them, so the
  ids of one plan are distinct and differ from those of every later plan.\<close>
theorem commit_plan_ids_fresh:
  assumes "committed n v fs" and "commit_plan rt now items fs = (fs', Inr out)"
    and "load_progress fs = Some p" and "next_pid p = PInt m"
  shows "\<exists>k p'. m \<le> int k \<and> po_item_ids out = map pid_of [k..<k + length items] \<and> distinct (po_item_ids out)
    \<and> load_progress fs' = Some p' \<and> next_pid p' = PInt (int (k + length items))"
  using assms(2,1)
proof (rule commit_planE)
  fix st k
  assume *: "load_state fs = Some st" "committed_state st n v" "po_item_ids out = map pid_of [k..<k + length items]"
    "\<forall>m. next_pid (state_progress st) = PInt m \<longrightarrow> m \<le> int k"
    "\<exists>p. load_progress fs' = Some p \<and> next_pid p = PInt (int (k + length items))"
  have "p = state_progress st" using assms(1,3) *(1) by (auto elim!: committedE)
  then show ?thesis using * assms(4) by (fastforce simp: distinct_pids)
qed

subsection \<open>What create_plan accepts, validate_plan accepts\<close>

text \<open>What \<open>_validate_items\<close> has established of an accepted item.\<close>

definition accepted_input :: "plan_input \<Rightarrow> bool" where
  "accepted_input it \<longleftrightarrow> 30 \<le> length (strip (in_rationale it)) \<and> length (strip (in_rationale it)) \<le> 400
     \<and> (strip (in_skill it) \<noteq> [] \<longrightarrow> skill_search False (strip (in_skill it)))"

lemma truncated_rationale:
  assumes "400 < length (strip r)"
  shows "strip (take 397 (strip r) @ ''...'') = take 397 (strip r) @ ''...''"
proof -
  have "strip r \<noteq> []" using assms by auto
  then have "\<not> is_space (hd (strip r))" using strip_edges by blast
  moreover have "take 397 (strip r) \<noteq> []" "hd (take 397 (strip r)) = hd (strip r)" using assms by (auto simp: hd_take)
  ultimately show ?thesis by (intro strip_id) (simp add: is_space_def)
qed

lemma checked_item_accepted:
  assumes "checked_item req i item d r = Inr item'" and "fmlookup item ''desc'' = Some d" and "fmlookup item ''rationale'' = Some r"
  shows "accepted_input (plan_input_of item')"
proof -
  let ?sk = "strip (case fmlookup item ''skill'' of None \<Rightarrow> [] | Some s \<Rightarrow> s)"
  have c: "30 \<le> length (strip r)" "?sk \<noteq> [] \<Longrightarrow> skill_search False ?sk"
    and item': "item' = (let item1 = fmupd ''desc'' (strip d) item;
        item2 = (if 400 < length (strip r) then fmupd ''rationale'' (take 397 (strip r) @ ''...'') item1 else item1)
        in if ?sk \<noteq> [] then fmupd ''skill'' ?sk item2 else item2)"
    using assms(1) by (auto simp: checked_item_def Let_def split: if_splits)
  have "strip (in_rationale (plan_input_of item')) = (if 400 < length (strip r) then take 397 (strip r) @ ''...'' else strip r)"
    using truncated_rationale [of r] assms(3) by (simp add: item' plan_input_of_def Let_def)
  moreover have "strip (in_skill (plan_input_of item')) = ?sk"
    by (auto simp: item' plan_input_of_def Let_def split: option.splits)
  ultimately show ?thesis using c by (simp add: accepted_input_def)
qed

lemma validate_item_accepted: "validate_item req i item = Inr item' \<Longrightarrow> accepted_input (plan_input_of item')"
  by (auto simp: validate_item_def field_error_def split: option.splits if_splits intro: checked_item_accepted)

lemma validate_from_accepted:
  "validate_from req i items = Inr items' \<Longrightarrow> list_all accepted_input (map plan_input_of items') \<and> length items' = length items"
  by (induction items arbitrary: i items') (auto split: sum.splits dest: validate_item_accepted)

lemma accepted_items_facts:
  assumes "accepted_items req tree = Inr items"
  shows "3 \<le> length items" "list_all accepted_input items"
  using assms
  by (auto simp: accepted_items_def validate_items_def split: sum.splits option.splits if_splits dest!: validate_from_accepted)

lemma length_written: "length (written_items b xs) = length xs"
  by (induction b xs rule: written_items.induct) auto

lemma written_open: "list_all (\<lambda>it. \<not> pi_done it) (written_items b xs)"
  by (induction b xs rule: written_items.induct) (auto simp: written_item_def)

lemma written_inactive: "filter pi_active (written_items False xs) = []"
  by (induction xs) (auto simp: written_item_def)

lemma one_active: "xs \<noteq> [] \<Longrightarrow> length (filter pi_active (written_items True xs)) = 1"
  by (cases xs) (auto simp: written_item_def written_inactive)

lemma item_error_written:
  "list_all (\<lambda>x. accepted_input (fst x) \<and> strip (in_skill (fst x)) \<noteq> []) xs \<Longrightarrow> item_error (written_items b xs) = None"
  by (induction b xs rule: written_items.induct) (auto simp: written_item_def accepted_input_def)

lemma validate_written:
  assumes "get_plan_items fs True = written_items True xs" and "plan_file fs \<noteq> None" and "3 \<le> length xs"
    and "list_all (\<lambda>x. accepted_input (fst x) \<and> strip (in_skill (fst x)) \<noteq> []) xs"
  shows "validate_plan fs = None"
proof -
  have "filter (\<lambda>it. \<not> pi_done it) (written_items True xs) = written_items True xs"
    using written_open [of True xs] by (simp add: filter_id_conv list_all_iff)
  moreover have "length (filter pi_active (written_items True xs)) = 1" using assms(3) one_active [of xs] by (cases xs) auto
  ultimately show ?thesis
    using assms item_error_written [OF assms(4)] by (simp add: validate_plan_def Let_def length_written)
qed

lemma commit_plan_items:
  assumes "committed n v fs" and "commit_plan rt now items fs = (fs', Inr out)" and "list_all clean_input items"
  shows "get_plan_items fs' True = written_items True (zip items (po_item_ids out))"
    "length (po_item_ids out) = length items" "plan_file fs' \<noteq> None"
proof -
  from commit_planE [OF assms(2,1)] obtain k where
    k: "po_item_ids out = map pid_of [k..<k + length items]" and
    f: "plan_file fs' = Some (render (nat_str (Suc v)) (map pid_of [k..<k + length items]) items (parse_settled_history fs))"
    by metis
  show "length (po_item_ids out) = length items" "plan_file fs' \<noteq> None" using k f by simp_all
  obtain t where t: "parse_settled_history fs = settled_text t"
  proof (cases "plan_file fs")
    case None
    then have "parse_settled_history fs = settled_text []"
      by (simp add: parse_settled_history_def settled_text_def split_lines_def is_settled_table_header_def strip_id)
    then show thesis by (rule that)
  qed (auto simp: parse_settled_history_def intro: that)
  have "list_all (\<lambda>pid. pid \<noteq> [] \<and> list_all is_word pid) (map pid_of [k..<k + length items])"
    using pid_of_word by (auto simp: list_all_iff)
  moreover have "newline \<notin> set (nat_str (Suc v))" by (rule nat_str_no_newline)
  ultimately show "get_plan_items fs' True = written_items True (zip items (po_item_ids out))"
    using plan_items_rendered [OF assms(3), of "map pid_of [k..<k + length items]" "nat_str (Suc v)" t] k f t
    by (simp add: get_plan_items_def)
qed


subsection \<open>Accepted plans that the phase machine refuses\<close>

lemma item_error_skillless:
  "list_all (\<lambda>x. accepted_input (fst x)) xs \<Longrightarrow> \<exists>x \<in> set xs. strip (in_skill (fst x)) = [] \<Longrightarrow>
     \<exists>pid. item_error (written_items b xs) = Some (BadSkill pid)"
proof (induction b xs rule: written_items.induct)
  case (2 first it pid rest)
  then show ?case by (cases "strip (in_skill it) = []") (auto simp: written_item_def accepted_input_def)
qed simp

text \<open>The skill gate of \<open>create_plan.py\<close> is weaker than that of \<open>validate_plan\<close>: when no skills
  directory makes the field mandatory, or the field is left blank, an otherwise clean plan is committed,
  and \<open>validate_plan\<close> then refuses it, which is what \<open>resume\<close> runs.\<close>
theorem skillless_plan_refused:
  assumes "committed n v fs" and "create_plan rt now req tree fs = (fs', Inr out)"
    and "accepted_items req tree = Inr items" and "list_all clean_input items"
    and "\<exists>it \<in> set items. strip (in_skill it) = []"
  shows "\<exists>pid. validate_plan fs' = Some (BadSkill pid)"
proof -
  have c: "commit_plan rt now items fs = (fs', Inr out)"
    using assms(2,3) by (auto simp: create_plan_def split: prod.splits sum.splits)
  note p = commit_plan_items [OF assms(1) c assms(4)]
  note a = accepted_items_facts [OF assms(3)]
  let ?xs = "zip items (po_item_ids out)"
  have acc: "list_all (\<lambda>x. accepted_input (fst x)) ?xs"
    using a(2) by (auto simp: list_all_iff dest: set_zip_leftD)
  have "map fst ?xs = items" using p(2) by simp
  then have "\<exists>x \<in> set ?xs. strip (in_skill (fst x)) = []"
    using assms(5) by (metis imageE set_map)
  then obtain pid where "item_error (written_items True ?xs) = Some (BadSkill pid)"
    using item_error_skillless [OF acc] by blast
  moreover have "filter (\<lambda>it. \<not> pi_done it) (written_items True xs) = written_items True xs" for xs
    using written_open [of True xs] by (simp add: filter_id_conv list_all_iff)
  ultimately show ?thesis using p a(1) by (simp add: validate_plan_def Let_def length_written)
qed

subsection \<open>Concrete plans\<close>

definition xml_item :: "string \<Rightarrow> string list \<Rightarrow> xml" where
  "xml_item d sk = Elem ''item'' [] None
     ([Elem ''desc'' [] (Some d) [], Elem ''rationale'' [] (Some demo_reason) []]
      @ map (\<lambda>s. Elem ''skill'' [] (Some s) []) sk)"

definition xml_plan :: "xml list \<Rightarrow> xml option" where
  "xml_plan items = Some (Elem ''items'' [] None items)"

definition demo_tree :: "xml option" where
  "demo_tree = xml_plan [xml_item ''Fuse the epilogue'' [''fuse/SKILL.md''],
     xml_item ''Vectorise the loads'' [''vec/SKILL.md''], xml_item ''Swizzle the layout'' [''lay/SKILL.md'']]"

definition bare_tree :: "xml option" where
  "bare_tree = xml_plan [xml_item ''Fuse the epilogue'' [], xml_item ''Vectorise the loads'' [],
     xml_item ''Swizzle the layout'' []]"

definition bare_items :: "plan_input list" where
  "bare_items = map (\<lambda>it. it\<lparr>in_skill := []\<rparr>) demo_items"

lemma demo_accepted: "accepted_items True demo_tree = Inr demo_items"
  by code_simp

lemma bare_accepted: "accepted_items False bare_tree = Inr bare_items"
  by code_simp

lemma bare_clean: "list_all clean_input bare_items"
  by code_simp

lemma demo_clean: "list_all (\<lambda>it. clean_input it \<and> strip (in_skill it) \<noteq> []) demo_items"
  by code_simp

lemma demo_commit:
  assumes "items \<noteq> []"
  shows "\<exists>fs' out. commit_plan demo_runtime 5 items demo_fs = (fs', Inr out)"
proof -
  have "can_commit_plan (state_or_empty demo_fs)" by (simp add: can_commit_plan_def demo_state_phase Let_def)
  then obtain tx out where tx: "prepare_plan demo_runtime items demo_fs = Inr (tx, out)"
    using prepare_plan_total [OF demo_committed] by blast
  obtain p where p: "load_progress demo_fs = Some p" "is_count (next_pid p)"
    using demo_committed by (auto simp: committed_state_def wf_progress_def elim!: committedE)
  obtain k where k: "compute_next_pid (next_pid p) demo_fs = PInt (int (Suc k))"
    using compute_next_pid_count [OF p(2)] by blast
  have "length (po_item_ids out) = length items"
    by (rule prepare_planE [OF tx p(1)]) (auto simp: k allocate_ids_eq simp del: of_nat_Suc upt_Suc)
  then show ?thesis using assms by (auto simp: commit_plan_def tx Let_def)
qed


theorem skillless_plan_refused_witness:
  "\<exists>fs' out pid. create_plan demo_runtime 5 False bare_tree demo_fs = (fs', Inr out) \<and> validate_plan fs' = Some (BadSkill pid)"
proof -
  obtain fs' out where "commit_plan demo_runtime 5 bare_items demo_fs = (fs', Inr out)"
    using demo_commit [of bare_items] by (auto simp: bare_items_def demo_items_def)
  then have c: "create_plan demo_runtime 5 False bare_tree demo_fs = (fs', Inr out)"
    by (simp add: create_plan_def bare_accepted)
  have "\<exists>it \<in> set bare_items. strip (in_skill it) = []" by (simp add: bare_items_def demo_items_def strip_id)
  from skillless_plan_refused [OF demo_committed c bare_accepted bare_clean this] c show ?thesis by blast
qed

theorem commit_plan_ids_fresh_witness:
  "\<exists>fs' out k p'. commit_plan demo_runtime 5 demo_items demo_fs = (fs', Inr out)
     \<and> po_item_ids out = [pid_of k, pid_of (Suc k), pid_of (Suc (Suc k))]
     \<and> load_progress fs' = Some p' \<and> next_pid p' = PInt (int (k + 3))"
proof -
  obtain fs' out where c: "commit_plan demo_runtime 5 demo_items demo_fs = (fs', Inr out)"
    using demo_commit [of demo_items] by (auto simp: demo_items_def)
  obtain p m where p: "load_progress demo_fs = Some p" "next_pid p = PInt m"
    using demo_committed by (auto simp: committed_state_def wf_progress_def is_count_def elim!: committedE split: pyval.splits)
  have "length demo_items = 3" by (simp add: demo_items_def)
  with commit_plan_ids_fresh [OF demo_committed c p] c show ?thesis
    by (auto simp: numeral_3_eq_3)
qed

text \<open>Two more accepted plans that fail \<open>validate_plan\<close>: a description with a line break hides the
  meta lines of its item, and one that quotes the active mark makes a second item active.\<close>
theorem accepted_plan_refused:
  "(case accepted_items True (xml_plan [xml_item ''Fuse the epilogue'' [''fuse/SKILL.md''],
        xml_item (''Vectorise the'' @ [newline] @ ''loads and stores'') [''vec/SKILL.md''],
        xml_item ''Swizzle the layout'' [''lay/SKILL.md'']]) of
      Inr items \<Rightarrow> validate_plan (write_plan ''1'' [''p1'', ''p2'', ''p3''] items [] empty_fs)
        = Some (RationaleTooShort ''p2'' 0) | Inl _ \<Rightarrow> False)
   \<and> (case accepted_items True (xml_plan [xml_item ''Fuse the epilogue'' [''fuse/SKILL.md''],
        xml_item ''Vectorise the (ACTIVE) loads'' [''vec/SKILL.md''],
        xml_item ''Swizzle the layout'' [''lay/SKILL.md'']]) of
      Inr items \<Rightarrow> validate_plan (write_plan ''1'' [''p1'', ''p2'', ''p3''] items [] empty_fs)
        = Some (ActiveCount 2) | Inl _ \<Rightarrow> False)"
  by (rule conjI; code_simp)

end
