(* ===== verification/Round_Budget.thy ===== *)
theory Round_Budget
  imports Plan_Contract
begin

text \<open>
  The budget of rounds over the life of a task: how many rounds can be recorded before a task
  finishes, that a finished task stays finished, and the one commit that steps over the end.
\<close>

subsection \<open>States from which a round may still come\<close>

definition st_open :: "dict \<Rightarrow> bool" where
  "st_open st \<longleftrightarrow> phase_of (dget st ''phase'') \<in> {Some PLAN, Some REPLAN, Some DIAGNOSE}
     \<or> phase_of (dget st ''phase'') = Some EDIT \<and> dget st ''pending_settle'' = PNone"

definition settle_payload :: "pyval \<Rightarrow> bool" where
  "settle_payload v \<longleftrightarrow> v = PNone \<or> (\<exists>d. v = PDict d)"

definition in_budget :: "int \<Rightarrow> int \<Rightarrow> nat \<Rightarrow> dict \<Rightarrow> bool" where
  "in_budget M B n st \<longleftrightarrow> settle_payload (dget st ''pending_settle'') \<and> max_rounds (state_progress st) = PInt M \<and> int n \<le> B \<and> (st_open st \<longrightarrow> int n < B)"

definition budget :: "int \<Rightarrow> int \<Rightarrow> task_fs \<Rightarrow> bool" where
  "budget M B fs \<longleftrightarrow> (uncommitted fs \<and> parked fs) \<or> (\<exists>n v. committed n v fs \<and> in_budget M B n (state_or_empty fs))"

lemma budget_life: "budget M B fs \<Longrightarrow> life_inv fs"
  by (auto simp: budget_def life_inv_def)

lemma settle_payload_sanitized: "settle_payload v \<Longrightarrow> settle_payload (sanitize_floats v) \<and> (sanitize_floats v = PNone \<longleftrightarrow> v = PNone)"
  by (auto simp: settle_payload_def)

lemma st_open_saved:
  "settle_payload (dget st ''pending_settle'') \<Longrightarrow> st_open (fmupd ''last_touched'' x (sanitize_dict st)) = st_open st"
  by (auto simp: st_open_def phase_of_sanitized settle_payload_sanitized)

lemma in_budget_saved: "in_budget M B n st \<Longrightarrow> in_budget M B n (fmupd ''last_touched'' x (sanitize_dict st))"
  by (simp add: in_budget_def st_open_saved settle_payload_sanitized state_progress_lookup dget_default_sanitize)

lemma in_budget_mono: "in_budget M B n st \<Longrightarrow> B \<le> B' \<Longrightarrow> in_budget M B' n st"
  by (auto simp: in_budget_def)

lemma in_budget_control:
  "in_budget M B n st \<Longrightarrow> k \<notin> {''phase'', ''pending_settle''} \<Longrightarrow> k \<notin> set progress_fields \<Longrightarrow> in_budget M B n (fmupd k x st)"
  by (simp add: in_budget_def st_open_def state_progress_control)

text \<open>A fresh task has no progress to load, which tells the two halves apart.\<close>

lemma fresh_or_run:
  assumes "life_inv fs"
  obtains "uncommitted fs" "parked fs" "load_progress fs = None" | n v p where "committed n v fs" "load_progress fs = Some p"
  using assms by (auto simp: life_inv_def not_committed_load elim: committedE)

lemma budget_fresh: "life_inv fs \<Longrightarrow> load_progress fs = None \<Longrightarrow> budget M B fs"
  by (erule fresh_or_run) (auto simp: budget_def)

lemma budget_save:
  assumes "committed n v fs" and "committed_state st n v" and "in_budget M B n st"
  shows "budget M B (save_state now st fs)"
proof -
  obtain st0 where "load_state fs = Some st0" using assms(1) by (elim committedE)
  from committed_resave [OF assms(1) this assms(2), of now] in_budget_saved [OF assms(3)] show ?thesis
    unfolding budget_def by (intro disjI2 exI conjI) simp_all
qed

lemma budget_same: "same_task a b \<Longrightarrow> budget M B a = budget M B b"
proof -
  have drop: "in_budget M B n (fmdrop ''last_touched'' st) = in_budget M B n st" for n st
    by (simp add: in_budget_def st_open_def state_progress_drop dget_fmdrop)
  have "(\<exists>n v. committed n v (untouched fs) \<and> in_budget M B n (state_or_empty (untouched fs))) =
      (\<exists>n v. committed n v fs \<and> in_budget M B n (state_or_empty fs))" for fs
    by (cases "load_state fs") (simp_all add: committed_untouched state_or_empty_def load_state_untouched drop)
  moreover assume "same_task a b"
  ultimately have "(\<exists>n v. committed n v a \<and> in_budget M B n (state_or_empty a)) = (\<exists>n v. committed n v b \<and> in_budget M B n (state_or_empty b))"
    unfolding same_task_def by metis
  then show ?thesis unfolding budget_def using inv_same(2) [OF \<open>same_task a b\<close>] parked_same [OF \<open>same_task a b\<close>] by blast
qed

lemma budget_marker: "budget M B fs \<Longrightarrow> budget M B (fs\<lparr>edit_marker := b\<rparr>)"
proof -
  assume b: "budget M B fs"
  have "load_progress (fs\<lparr>edit_marker := b\<rparr>) = load_progress fs" "state_or_empty (fs\<lparr>edit_marker := b\<rparr>) = state_or_empty fs"
    by (simp_all add: load_progress_def load_state_def state_or_empty_def)
  then show ?thesis using life_inv_marker [OF budget_life [OF b], of b] b committed_frame
    unfolding budget_def by (metis budget_def budget_fresh not_committed_load)
qed

subsection \<open>Steps\<close>

text \<open>A step that leaves a fresh task without progress keeps every budget.\<close>

lemma committed_progress: "committed n v fs \<Longrightarrow> \<exists>p. load_progress fs = Some p"
  by (elim committedE) blast

lemma not_initialized:
  assumes "load_progress fs = None" and "load_state fs' = None \<or> (\<exists>st. load_state fs' = Some st \<and> \<not> truthy (dget st ''progress_initialized''))"
  shows "load_progress fs' = None"
  using assms(2) by (auto simp: load_progress_def)

lemma save_uncommitted:
  assumes "\<not> truthy (dget st ''progress_initialized'')"
  shows "load_progress (save_state now st fs) = None"
  using assms by (auto simp: load_progress_def not_truthy_sanitize)

lemma budgetE:
  assumes "budget M B fs"
  obtains (fresh) "uncommitted fs" "parked fs" | (run) n v st where "committed n v fs" "load_state fs = Some st"
    "state_or_empty fs = st" "committed_state st n v" "in_budget M B n st"
proof -
  consider "uncommitted fs" "parked fs" | n v where "committed n v fs" "in_budget M B n (state_or_empty fs)"
    using assms unfolding budget_def by blast
  then show thesis
  proof cases
    case 2
    from 2(1) obtain st where "load_state fs = Some st" "committed_state st n v" "state_or_empty fs = st" by (elim committedE)
    with 2 show thesis by (intro run) auto
  qed (rule fresh)
qed

text \<open>Rewriting control fields: the claim, the heartbeat, and a phase that opens nothing new.\<close>

lemma budget_control:
  assumes "budget M B fs" and "k \<in> {''owner'', ''last_touched''}"
  shows "budget M B (save_state now (fmupd k x (state_or_fresh now fs)) fs)"
  using assms(1)
proof (cases rule: budgetE)
  case fresh
  have "life_inv (save_state now (fmupd k x (state_or_fresh now fs)) fs)"
    using control_save_keeps [OF budget_life [OF assms(1)] assms(2)] .
  moreover have "load_progress (save_state now (fmupd k x (state_or_fresh now fs)) fs) = None"
    using fresh_or_state(1) [OF fresh] assms(2) by (intro save_uncommitted) auto
  ultimately show ?thesis by (rule budget_fresh)
next
  case (run n v st)
  then have st: "state_or_fresh now fs = st" by (auto simp: state_or_fresh_def committed_state_def)
  have k: "control_key k" "k \<notin> {''phase'', ''pending_settle''}" "k \<notin> set progress_fields"
    using assms(2) by (auto simp: control_key_def progress_fields_def)
  show ?thesis unfolding st
    by (rule budget_save [OF run(1) committed_state_control [OF k(1) run(4)] in_budget_control [OF run(5) k(2,3)]])
qed

lemma budget_touch: "budget M B fs \<Longrightarrow> budget M B (touch_heartbeat now fs)"
  using budget_control [of M B fs "''last_touched''" now "PTime now"] by (simp add: touch_heartbeat_def save_state_now)

lemma activation_targetE:
  assumes "activation_target f fs = Inr ph" and "ph \<noteq> read_phase fs"
  shows "ph = BASELINE \<or> ph = EDIT \<and> pending_settle fs \<noteq> PNone \<or> phase_on_resume fs = Inr ph"
  using assms unfolding activation_target_def Let_def by (auto split: if_splits simp del: phase_name.simps)

lemma on_resume_phase:
  assumes "phase_on_resume fs = Inr ph" and "load_progress fs = Some p" and "eval_rounds p = PInt (int n)" and "max_rounds p = PInt M"
  shows "ph = FINISH \<or> int n < M"
  using assms(1) by (auto simp: phase_on_resume_def assms(2-4) split: if_splits)

lemma activate_cases:
  assumes "activate now f fs = (fs', r)"
  obtains (same) "fs' = fs" | (moved) ph where "activation_target f fs = Inr ph" "ph \<noteq> read_phase fs"
    "fs' = save_state now (fmupd ''phase'' (PStr (phase_name ph)) (state_or_empty fs)) fs"
proof (cases "activation_target f fs")
  case (Inl e)
  then have "fs' = fs" using assms by (simp add: activate_def)
  then show thesis by (rule same)
next
  case (Inr ph)
  have fs': "fs' = (if ph \<noteq> read_phase fs then save_state now (fmupd ''phase'' (PStr (phase_name ph)) (state_or_empty fs)) fs else fs)"
    using assms unfolding activate_def Inr reading_simps by (rule prod.inject [THEN iffD1, THEN conjunct1, symmetric])
  show thesis
  proof (cases "ph = read_phase fs")
    case True
    with fs' show thesis by (intro same) (simp only: if_False not_True_eq_False simp_thms)
  next
    case False
    with fs' show thesis by (intro moved [OF Inr False]) (simp only: if_True not_False_eq_True simp_thms)
  qed
qed

lemma budget_activate:
  assumes "budget M B fs" and "activate now f fs = (fs', r)" and "M \<le> B"
  shows "budget M B fs'"
  using assms(2)
proof (cases rule: activate_cases)
  case ph: (moved ph)
  from assms(1) show ?thesis
  proof (cases rule: budgetE)
    case fresh
    have "load_progress fs' = None" unfolding ph(3)
      using uncommitted_state(1) [OF fresh(1)] by (intro save_uncommitted) simp
    then show ?thesis using activate_life [OF budget_life [OF assms(1)] assms(2)] by (rule budget_fresh [rotated])
  next
    case (run n v st)
    have p: "load_progress fs = Some (state_progress st)" using run(2,4) by (simp add: load_progress_eq committed_state_def)
    have n: "eval_rounds (state_progress st) = PInt (int n)" "max_rounds (state_progress st) = PInt M" "int n \<le> B"
      using run(4,5) by (simp_all add: committed_state_def in_budget_def)
    have "ph = BASELINE \<or> (ph = FINISH \<or> int n < M) \<or> ph = EDIT \<and> dget st ''pending_settle'' \<noteq> PNone"
      using activation_targetE [OF ph(1,2)] on_resume_phase [OF _ p n(1,2), of ph] unfolding pending_settle_def run(3) by blast
    then have "st_open (fmupd ''phase'' (PStr (phase_name ph)) st) \<longrightarrow> int n < M"
      by (elim disjE conjE) (simp_all add: st_open_def del: phase_name.simps)
    then have "in_budget M B n (fmupd ''phase'' (PStr (phase_name ph)) st)"
      using n assms(3) run(5) by (auto simp: in_budget_def state_progress_control control_not_field simp del: phase_name.simps)
    then show ?thesis unfolding ph(3) run(3)
      by (intro budget_save [OF run(1)] committed_state_control run(4)) simp_all
  qed
qed (use assms(1) in simp)

text \<open>A settlement leaves a budget: it closes the round, and opens a phase only below the maximum.\<close>

lemma settle_roundE:
  assumes "settle_round rt cfg now fs = (fs', r)"
  obtains (same) "fs' = fs"
  | (written) d rep where "settle_result rt d fs = Inr (fs', rep)"
  | (closed) d rep fs1 ph st where "settle_result rt d fs = Inr (fs1, rep)" "phase_after_round cfg fs1 = Inr ph"
      "load_state fs1 = Some st" "fs' = drop_marker (save_state now (settle_state ph st) fs1)" "pending_settle fs = PDict d"
      "so_phase (projr r) = ph" "\<not> isl r"
proof (cases "require_phase EDIT ''settle round'' fs")
  case (Inl e)
  then show thesis using assms same by (simp add: settle_round_def)
next
  case (Inr u)
  show thesis
  proof (cases "pending_settle fs")
    case (PDict d)
    show thesis
    proof (cases "settle_result rt d fs")
      case (Inl e)
      then show thesis using assms same Inr PDict by (simp add: settle_round_def)
    next
      case res: (Inr x)
      obtain fs1 rep where x: "x = (fs1, rep)" by (cases x)
      show thesis
      proof (cases "phase_after_round cfg fs1")
        case (Inl e)
        then show thesis using assms written [of d rep] Inr PDict res x by (simp add: settle_round_def)
      next
        case ph: (Inr ph)
        show thesis
        proof (cases "load_state fs1")
          case None
          then show thesis using assms written [of d rep] Inr PDict res x ph by (simp add: settle_round_def)
        next
          case (Some st)
          then show thesis using assms closed [OF res [unfolded x] ph] Inr PDict res x ph by (auto simp: settle_round_def)
        qed
      qed
    qed
  qed (use assms same Inr in \<open>simp_all add: settle_round_def\<close>)
qed

lemma budget_settle_result:
  assumes "committed n v fs" and "in_budget M B n (state_or_empty fs)" and "settle_result rt d fs = Inr (fs', rep)"
  shows "committed n v fs'" and "state_or_empty fs' = state_or_empty fs" and "budget M B fs'"
proof -
  show c: "committed n v fs'" by (rule settle_result_keeps [OF assms(1,3)])
  obtain t where "plan_file fs = Some t" using assms(3) by (cases "plan_file fs") (auto simp: settle_result_def)
  then have "Option.bind (plan_file fs) text_version = Some (int v)"
    using assms(1) by (auto simp: committed_def plan_at_def)
  then show e: "state_or_empty fs' = state_or_empty fs"
    using settle_result_version [OF assms(3)] by (auto simp: state_or_empty_def load_state_def)
  show "budget M B fs'" using c assms(2) unfolding budget_def e by blast
qed

lemma after_round_phase:
  assumes "phase_after_round cfg fs = Inr ph" and "load_progress fs = Some p" and "eval_rounds p = PInt (int n)" and "max_rounds p = PInt M"
  shows "M \<le> int n \<longleftrightarrow> ph = FINISH"
  using assms(1) by (auto simp: phase_after_round_def assms(2-4) split: if_splits)

lemma budget_settle:
  assumes "budget M B fs" and "settle_round rt cfg now fs = (fs', r)" and "M \<le> B"
  shows "budget M B fs'"
  using assms(1)
proof (cases rule: budgetE)
  case fresh
  then have "fs' = fs" using assms(2) by (auto simp: settle_round_def require_phase_def parked_def)
  then show ?thesis using assms(1) by simp
next
  case (run n v st)
  from assms(2) show ?thesis
  proof (cases rule: settle_roundE)
    case same
    then show ?thesis using assms(1) by simp
  next
    case (written d rep)
    show ?thesis by (rule budget_settle_result(3) [OF run(1) _ written]) (simp add: run)
  next
    case (closed d rep fs1 ph st1)
    have c: "committed n v fs1" and e: "state_or_empty fs1 = st"
      using budget_settle_result(1,2) [OF run(1) _ closed(1)] run by simp_all
    then have st1: "st1 = st" using closed(3) by (simp add: state_or_empty_def)
    have p: "load_progress fs1 = Some (state_progress st)"
      using closed(3) run(4) by (simp add: load_progress_eq committed_state_def st1)
    have n: "eval_rounds (state_progress st) = PInt (int n)" "max_rounds (state_progress st) = PInt M" "int n \<le> B"
      using run(4,5) by (simp_all add: committed_state_def in_budget_def)
    have "ph = FINISH \<or> int n < M" using after_round_phase [OF closed(2) p n(1,2)] by auto
    then have "st_open (settle_state ph st) \<longrightarrow> int n < M"
      by (elim disjE) (simp_all add: st_open_def settle_state_def del: phase_name.simps)
    then have b: "in_budget M B n (settle_state ph st)"
      using n assms(3) by (auto simp: in_budget_def settle_state_def settle_payload_def state_progress_control control_not_field
          simp del: phase_name.simps)
    have "committed_state (settle_state ph st) n v" unfolding settle_state_def by (intro committed_state_control run(4)) simp_all
    then have "budget M B (save_state now (settle_state ph st) fs1)" using budget_save [OF c _ b] by blast
    then show ?thesis unfolding closed(4) st1 drop_marker_def by (rule budget_marker)
  qed
qed

text \<open>A round uses up one unit of an open budget; a crash inside it does or does nothing.\<close>

lemma state_phase: "read_phase fs = ph \<Longrightarrow> ph \<noteq> INIT \<Longrightarrow> phase_of (dget (state_or_empty fs) ''phase'') = Some ph"
  by (auto simp: read_phase_def state_or_empty_def split: option.splits)

lemma round_patch_view:
  "dget (st ++\<^sub>f round_patch tx) ''pending_settle'' = PDict (rx_kd_json tx)"
  "dget (st ++\<^sub>f round_patch tx) ''phase'' = dget st ''phase''"
  "state_progress (st ++\<^sub>f round_patch tx) = rx_progress tx"
  by (simp_all add: round_patch_def dget_fmadd to_dict_no_control control_not_field state_progress_control)

lemma budget_round:
  assumes "committed n v fs" and "in_budget M B n (state_or_empty fs)" and "prepare_round rt c git ev desc it fs = Inr tx"
    and "read_phase fs = EDIT" and "pending_settle fs = PNone"
  shows "budget M B (fold (\<lambda>step s. step s) (round_steps now tx) fs)"
proof -
  obtain st where st: "load_state fs = Some st" "committed_state st n v" "state_or_empty fs = st"
    "load_progress fs = Some (state_progress st)" using assms(1) by (elim committedE)
  let ?fs' = "fold (\<lambda>step s. step s) (round_steps now tx) fs"
  have ph: "phase_of (dget st ''phase'') = Some EDIT" using state_phase [OF assms(4)] st(3) by simp
  then have "int n < B" using assms(2,5) st(3) by (simp add: in_budget_def st_open_def pending_settle_def)
  moreover have "max_rounds (rx_progress tx) = PInt M"
    using prepare_roundE [OF assms(3) st(4)] reduce_round_fields(3) assms(2) st(3) by (metis in_budget_def)
  ultimately have b: "in_budget M B (Suc n) (st ++\<^sub>f round_patch tx)"
    by (simp add: in_budget_def st_open_def settle_payload_def round_patch_view ph)
  then have "in_budget M B (Suc n) (state_or_empty ?fs')"
    using in_budget_saved [OF b, of "PTime now"] st(3) by (simp add: round_steps_def commit_patch_def)
  then show ?thesis using round_keeps_committed [OF assms(1,3), of now] unfolding budget_def by blast
qed

text \<open>A plan opens EDIT with the rounds that are left, unless it replaces a settlement.\<close>

lemma plan_patch_view:
  "dget (st ++\<^sub>f plan_patch st a b) ''pending_settle'' = PNone"
  "dget (st ++\<^sub>f plan_patch st a b) ''phase'' = PStr (phase_name EDIT)"
  "max_rounds (state_progress (st ++\<^sub>f plan_patch st a b)) = max_rounds (state_progress st)"
  by (simp_all add: dget_fmadd plan_patch_def state_progress_lookup dget_default_fmadd)

lemma budget_plan:
  assumes "committed n v fs" and "in_budget M B n (state_or_empty fs)" and "prepare_plan rt items fs = Inr (tx, out)"
  shows "budget M (if read_phase fs = EDIT then B + 1 else B) (fold (\<lambda>step s. step s) (plan_steps now tx) fs)"
    (is "budget M ?B ?fs'")
proof -
  obtain st where st: "load_state fs = Some st" "committed_state st n v" "state_or_empty fs = st"
    "load_progress fs = Some (state_progress st)" using assms(1) by (elim committedE)
  from prepare_planE [OF assms(3) st(4)] obtain version pid where
    pl: "can_commit_plan st" "px_patch tx = plan_patch st version pid" using st(3) by (metis plan_txn.select_convs(3))
  have wf: "wf_plan_txn (int v + 1) st tx"
    using prepare_plan_facts [OF assms(3,1), of now] st(1) by (auto simp: plan_pre_def)
  have "phase_of (dget st ''phase'') \<in> {Some PLAN, Some REPLAN, Some DIAGNOSE} \<or> phase_of (dget st ''phase'') = Some EDIT"
    using pl(1) by (auto simp: can_commit_plan_def Let_def dget_default_def dget_def py_eq_PStr_iff
        split: option.splits simp del: phase_name.simps)
  then have "int n < ?B" using assms(2) st(1,3) by (auto simp: in_budget_def st_open_def read_phase_def)
  then have b: "in_budget M ?B n (st ++\<^sub>f plan_patch st version pid)"
    using assms(2) st(3) by (simp add: in_budget_def settle_payload_def plan_patch_view)
  then have "in_budget M ?B n (state_or_empty ?fs')"
    using in_budget_saved [OF b, of "PTime now"] plan_commit_eq [of "put_plan (px_text tx) (write_intent (plan_intent tx) fs)" st "int v + 1" tx now] st wf
    by (simp add: plan_steps_def pl(2))
  then show ?thesis using prepare_plan_facts [OF assms(3,1), of now] unfolding budget_def by blast
qed

text \<open>The baseline opens the budget of the configuration.\<close>

lemma reduce_baseline_max: "reduce_baseline_init rt ex c ev head = Inr br \<Longrightarrow> max_rounds (br_progress br) = tc_max_rounds c"
  by (auto simp: reduce_baseline_init_def Let_def)

lemma budget_baseline:
  assumes "uncommitted fs" and "parked fs" and "reduce_baseline_init rt ex c ev head = Inr br" and "tc_max_rounds c = PInt M" and "0 < M" and "M \<le> B"
  shows "budget M B (fold (\<lambda>step s. step s) (baseline_steps now \<lparr>bx_progress = br_progress br, bx_row = seed_row br head\<rparr>) fs)"
    (is "budget M B ?fs'")
proof -
  let ?st = "state_or_empty fs ++\<^sub>f baseline_patch \<lparr>bx_progress = br_progress br, bx_row = seed_row br head\<rparr>"
  have cnt: "is_count (tc_max_rounds c)" using assms(4,5) by (auto simp: is_count_def)
  have "state_progress ?st = br_progress br"
    by (simp add: baseline_patch_def state_progress_control control_not_field)
  moreover have "settle_payload (dget ?st ''pending_settle'')"
    using parked_state(2) [OF assms(2)]
    by (simp add: baseline_patch_def dget_fmadd to_dict_no_control control_not_field settle_payload_def)
  ultimately have b: "in_budget M B 0 ?st" using assms(4-6) reduce_baseline_max [OF assms(3)] by (simp add: in_budget_def)
  then have "in_budget M B 0 (state_or_empty ?fs')"
    using in_budget_saved [OF b, of "PTime now"] uncommitted_log [OF assms(1)] by (simp add: baseline_steps_def commit_patch_def append_seed_def)
  then show ?thesis using baseline_commit_keeps [OF assms(1,3) cnt, of now] unfolding budget_def by blast
qed

subsection \<open>Counted runs\<close>

text \<open>A plan committed while the task is in EDIT, which happens only in place of a settlement.\<close>

definition recovery_commit :: "task_fs \<Rightarrow> task_fs \<Rightarrow> bool" where
  "recovery_commit fs fs' \<longleftrightarrow> read_phase fs = EDIT
     \<and> expected_int (state_or_empty fs') ''expected_plan_version'' \<noteq> expected_int (state_or_empty fs) ''expected_plan_version''"

inductive task_run :: "runtime \<Rightarrow> config \<Rightarrow> task_config \<Rightarrow> nat \<Rightarrow> task_fs \<Rightarrow> bool"
  for rt :: runtime and cfg :: config and c :: task_config where
  Start: "task_run rt cfg c 0 empty_fs"
| Step: "task_run rt cfg c r fs \<Longrightarrow> task_step rt cfg c fs fs' \<Longrightarrow>
    task_run rt cfg c (if recovery_commit fs fs' then Suc r else r) fs'"

lemma budget_mono: "budget M B fs \<Longrightarrow> B \<le> B' \<Longrightarrow> budget M B' fs"
  unfolding budget_def using in_budget_mono by blast

lemma committed_expected: "committed n v fs \<Longrightarrow> expected_int (state_or_empty fs) ''expected_plan_version'' = Inr (int v)"
  by (elim committedE) (simp add: committed_state_def)

lemma budget_plan_step:
  assumes "budget M B fs" and "prepare_plan rt items fs = Inr (tx, out)"
  shows "budget M (if recovery_commit fs (fold (\<lambda>step s. step s) (plan_steps now tx) fs) then B + 1 else B)
     (fold (\<lambda>step s. step s) (plan_steps now tx) fs)"
  using assms(1)
proof (cases rule: budgetE)
  case fresh
  then show ?thesis using assms(2) by (simp add: prepare_plan_def not_committed_load)
next
  case (run n v st)
  let ?fs' = "fold (\<lambda>step s. step s) (plan_steps now tx) fs"
  have "committed n (Suc v) ?fs'" using prepare_plan_facts [OF assms(2) run(1), of now] by blast
  then have "recovery_commit fs ?fs' \<longleftrightarrow> read_phase fs = EDIT"
    using committed_expected run(1) by (auto simp: recovery_commit_def)
  then show ?thesis using budget_plan [OF run(1) _ assms(2), of M B now] run(3,5) by simp
qed

lemma recovery_commit_same:
  assumes "same_task a b"
  shows "recovery_commit fs a = recovery_commit fs b"
proof -
  have "expected_int (state_or_empty (untouched x)) ''expected_plan_version'' = expected_int (state_or_empty x) ''expected_plan_version''" for x
    by (cases "load_state x") (simp_all add: state_or_empty_def load_state_untouched expected_int_def dget_fmdrop)
  then show ?thesis using assms unfolding same_task_def recovery_commit_def by metis
qed

lemma baseline_crash_same:
  assumes "uncommitted fs"
  shows "same_task (heal now' (crash_after k (baseline_steps now \<lparr>bx_progress = p, bx_row = seed_row br head\<rparr>) fs))
    (if k \<le> 1 then fs else fold (\<lambda>step s. step s) (baseline_steps now \<lparr>bx_progress = p, bx_row = seed_row br head\<rparr>) fs)"
proof -
  let ?tx = "\<lparr>bx_progress = p, bx_row = seed_row br head\<rparr>"
  have pre: "(\<lambda>(now, tx). baseline_pre tx) (now, ?tx) fs" using baseline_pre_uncommitted [OF assms, of ?tx] by simp
  show ?thesis
    using baseline_txn.crash_atomic [OF pre, of now' k]
    by (simp add: baseline_txn.steps_def baseline_txn.complete_def baseline_steps_def split: if_splits)
qed

lemma budget_record_baseline:
  assumes "budget M B fs" and "record_baseline rt now (Some c) git ev fs = (fs', rc)"
    and "tc_max_rounds c = PInt M" and "0 < M" and "M \<le> B"
  shows "budget M B fs'"
  using assms(1)
proof (cases rule: budgetE)
  case fresh
  have "load_progress (park_baseline now fs) = None"
    using not_truthy_sanitize [OF uncommitted_state(1) [OF fresh(1)]] by (simp add: park_baseline_def load_progress_def)
  note park = budget_fresh [OF park_life [OF fresh] this]
  consider "fs' = fs" | rc' where "run_baseline_init rt now (Some c) git ev fs = Inr (fs', rc')"
    using assms(2) precheck_life [OF budget_life [OF assms(1)]]
    by (auto simp: record_baseline_def reading_def split: sum.splits if_splits)
  then show ?thesis
  proof cases
    case 2
    then show ?thesis
      by (cases rule: run_baseline_cases) (use park budget_baseline [OF fresh _ assms(3-5)] in auto)
  qed (use assms(1) in simp)
next
  case (run n v st)
  then have "fs' = fs"
    using assms(2) precheck_life [OF budget_life [OF assms(1)]] committed_not_proceed [OF run(1)]
    by (auto simp: record_baseline_def reading_def split: sum.splits if_splits)
  then show ?thesis using assms(1) by simp
qed

lemma task_record_roundE:
  assumes "task_record_round rt now (Some c) git ev desc it fs = (fs', kd)"
  obtains (same) "fs' = fs" | (recorded) tx where "read_phase fs = EDIT" "pending_settle fs = PNone"
    "prepare_round rt c git ev desc it fs = Inr tx" "fs' = fold (\<lambda>step s. step s) (round_steps now tx) fs" "kd = Inr (rx_kd_json tx)"
proof (cases "read_phase fs = EDIT \<and> pending_settle fs = PNone")
  case False
  then have "fs' = fs" using assms by (auto simp: task_record_round_def require_phase_def split: if_splits)
  then show thesis by (rule same)
next
  case True
  then have r: "(case record_round rt now (Some c) git ev desc it fs of Inl e \<Rightarrow> (fs, Inl e) | Inr (fs', kd) \<Rightarrow> (fs', Inr kd)) = (fs', kd)"
    using assms by (simp add: task_record_round_def require_phase_def)
  show thesis
  proof (cases "prepare_round rt c git ev desc it fs")
    case (Inl e)
    then have "fs' = fs" using r by (simp add: record_round_eq)
    then show thesis by (rule same)
  next
    case (Inr tx)
    then show thesis using r True by (intro recorded [of tx]) (simp_all add: record_round_eq)
  qed
qed

lemma budget_task_round:
  assumes "budget M B fs" and "task_record_round rt now (Some c) git ev desc it fs = (fs', kd)"
  shows "budget M B fs'"
  using assms(2)
proof (cases rule: task_record_roundE)
  case (recorded tx)
  from assms(1) show ?thesis
  proof (cases rule: budgetE)
    case (run n v st)
    then show ?thesis unfolding recorded(4) using budget_round [OF run(1) _ recorded(3,1,2)] by simp
  qed (use recorded(1) in \<open>simp add: parked_def\<close>)
qed (use assms(1) in simp)

lemma budget_commit_plan:
  assumes "budget M B fs" and "commit_plan rt now items fs = (fs', po)"
  shows "budget M (if recovery_commit fs fs' then B + 1 else B) fs'"
proof (cases "prepare_plan rt items fs")
  case (Inl e)
  then have "fs' = fs" using assms(2) by (simp add: commit_plan_def)
  then show ?thesis using assms(1) by (simp add: recovery_commit_def)
next
  case (Inr x)
  then obtain tx out where x: "prepare_plan rt items fs = Inr (tx, out)" by (cases x) simp
  then have "fs' = fold (\<lambda>step s. step s) (plan_steps now tx) fs" using assms(2) by (simp add: commit_plan_def Let_def)
  then show ?thesis using budget_plan_step [OF assms(1) x, of now] by simp
qed

lemma budget_plan_crash:
  assumes "budget M B fs" and "prepare_plan rt items fs = Inr (tx, out)"
  shows "budget M (if recovery_commit fs (heal now' (crash_after k (plan_steps now tx) fs)) then B + 1 else B)
     (heal now' (crash_after k (plan_steps now tx) fs))"
  using assms(1)
proof (cases rule: budgetE)
  case fresh
  then show ?thesis using assms(2) by (simp add: prepare_plan_def not_committed_load)
next
  case (run n v st)
  let ?fs' = "fold (\<lambda>step s. step s) (plan_steps now tx) fs"
  have same: "same_task (heal now' (crash_after k (plan_steps now tx) fs)) (if k \<le> 1 then fs else ?fs')"
    by (rule plan_crash_committed [OF run(1) assms(2)])
  show ?thesis
  proof (cases "k \<le> 1")
    case True
    then show ?thesis using same budget_same recovery_commit_same assms(1) by (simp add: recovery_commit_def)
  next
    case False
    then show ?thesis using budget_plan_step [OF assms(1,2), of now] same budget_same recovery_commit_same by simp
  qed
qed

lemma budget_note:
  assumes "budget M B fs" and "note_changes changes" and "update_progress now changes fs = Inr (fs', p)"
  shows "budget M B fs'"
  using assms(1)
proof (cases rule: budgetE)
  case fresh
  then show ?thesis using update_progress_fresh [OF not_committed_load assms(3)] assms(1) by simp
next
  case (run n v st)
  from update_progress_committed [OF run(1) assms(2,3)] run(2) obtain st' where
    st: "fs' = save_state now st' fs" "committed_state st' n v" "max_rounds (state_progress st') = max_rounds (state_progress st)"
      "\<And>k. k \<notin> set progress_fields \<Longrightarrow> dget st' k = dget st k" by (metis option.inject)
  have "in_budget M B n st'"
    using run(5) st(3) st(4) [of "''phase''"] st(4) [of "''pending_settle''"]
    by (simp add: in_budget_def st_open_def progress_fields_def)
  then show ?thesis unfolding st(1) by (rule budget_save [OF run(1) st(2)])
qed

lemma budget_run_step:
  assumes "budget M B fs" and "task_step rt cfg c fs fs'" and "tc_max_rounds c = PInt M" and "0 < M" and "M \<le> B"
  shows "budget M (if recovery_commit fs fs' then B + 1 else B) fs'"
proof -
  have cnt: "is_count (tc_max_rounds c)" using assms(3,4) by (auto simp: is_count_def)
  have stay: ?thesis if "budget M B fs'" using that budget_mono [of M B fs' "B + 1"] by simp
  note life = budget_life [OF assms(1)]
  from assms(2) show ?thesis
  proof (cases rule: task_step.cases)
    case (Heal now)
    then show ?thesis using heal_inv [OF life] stay assms(1) by simp
  next
    case (Claim now x)
    then show ?thesis using budget_control [OF assms(1)] stay by simp
  next
    case (Heartbeat now)
    then show ?thesis using budget_touch [OF assms(1)] stay by simp
  next
    case (Activate now f r)
    then show ?thesis using budget_activate [OF assms(1) _ assms(5)] stay by blast
  next
    case (Preflight now pr)
    then show ?thesis using preflight_life [OF life] assms(1) stay by blast
  next
    case (Baseline now git ev rc)
    then show ?thesis using budget_record_baseline [OF assms(1) _ assms(3-5)] stay by blast
  next
    case (BaselineCrash ev head br now' k now)
    have f: "uncommitted fs" "parked fs" using assms(1) committed_not_proceed BaselineCrash(3) by (auto elim: budgetE)
    have "same_task fs' (if k \<le> 1 then fs else fold (\<lambda>step s. step s)
        (baseline_steps now \<lparr>bx_progress = br_progress br, bx_row = seed_row br head\<rparr>) fs)"
      using baseline_crash_same [OF f(1)] BaselineCrash(1) by simp
    then show ?thesis
      using stay budget_same budget_baseline [OF f BaselineCrash(4) assms(3-5), of now] assms(1) by (simp split: if_splits)
  next
    case (Round now git ev desc it kd)
    then show ?thesis using budget_task_round [OF assms(1)] stay by blast
  next
    case (RoundCrash git ev desc it tx now' k now)
    from assms(1) show ?thesis
    proof (cases rule: budgetE)
      case (run n v st)
      show ?thesis
        using stay budget_same [OF round_crash_committed [OF run(1) RoundCrash(3), of now' k now]] assms(1)
          budget_round [OF run(1) _ RoundCrash(3,2,4), of M B now] run(3,5) RoundCrash(1)
        by (simp split: if_splits)
    qed (use RoundCrash(2) in \<open>simp add: parked_def\<close>)
  next
    case (Settle now so)
    then show ?thesis using budget_settle [OF assms(1) _ assms(5)] stay by blast
  next
    case (SettleCrash d report)
    from assms(1) show ?thesis
    proof (cases rule: budgetE)
      case (run n v st)
      then show ?thesis using stay budget_settle_result(3) [OF run(1) _ SettleCrash(2)] by simp
    qed (use SettleCrash(1) in \<open>simp add: parked_def\<close>)
  next
    case (Plan now items po)
    then show ?thesis using budget_commit_plan [OF assms(1)] by simp
  next
    case (PlanCrash items tx out now' k now)
    then show ?thesis using budget_plan_crash [OF assms(1) PlanCrash(2), of now' k now] by simp
  next
    case (Marker b)
    then show ?thesis using stay budget_marker [OF assms(1)] by simp
  next
    case (Note changes now p)
    then show ?thesis using stay budget_note [OF assms(1)] by blast
  qed
qed

lemma task_run_reachable: "task_run rt cfg c r fs \<Longrightarrow> reachable rt cfg c fs"
  by (induction rule: task_run.induct) (auto simp: reachable_def intro: rtranclp.rtrancl_into_rtrancl)

lemma task_run_budget:
  assumes "task_run rt cfg c r fs" and "tc_max_rounds c = PInt M" and "0 < M"
  shows "budget M (M + int r) fs"
  using assms(1)
proof (induction rule: task_run.induct)
  case Start
  show ?case using empty_life by (rule budget_fresh) (simp add: load_progress_def load_state_def empty_fs_def)
next
  case (Step r fs fs')
  from budget_run_step [OF Step.IH Step.hyps(2) assms(2,3)] show ?case by (simp add: algebra_simps split: if_splits)
qed

text \<open>
  C5. The budget of rounds bounds a task: however a task directory is driven and wherever its
  transactions crash, its history never holds more rounds than the configured maximum, plus one for
  each plan that was committed in place of a settlement.
\<close>

theorem rounds_bounded:
  assumes "task_run rt cfg c r fs" and "tc_max_rounds c = PInt M" and "0 < M"
    and "read_last_history_round fs = Inr (Some n)"
  shows "n \<le> M + int r"
proof -
  from task_run_budget [OF assms(1-3)] show ?thesis
  proof (cases rule: budgetE)
    case fresh
    then show ?thesis using uncommitted_log [of fs] assms(4) by simp
  next
    case (run k v st)
    then show ?thesis using assms(4) by (auto simp: committed_def in_budget_def)
  qed
qed

subsection \<open>Stepping over the end\<close>

lemma alloc_from_length: "alloc_from rt v i m = Inr ids \<Longrightarrow> length ids = m"
  by (induction m arbitrary: i ids) auto

lemma phase_of_eq: "phase_of v = Some ph \<Longrightarrow> v = PStr (phase_name ph)"
  by (auto simp: phase_of_def find_Some_iff split: pyval.splits)

lemma kd_json_nonempty: "sanitize_dict (kd_json_of c p er ro r it) \<noteq> fmempty"
proof
  assume "sanitize_dict (kd_json_of c p er ro r it) = fmempty"
  then have "dget (sanitize_dict (kd_json_of c p er ro r it)) ''decision'' = PNone" by simp
  then show False by (simp add: kd_json_of_def dget_def)
qed

lemma dget_PStr_default: "dget d k = PStr s \<Longrightarrow> dget_default d k x = PStr s"
  by (auto simp: dget_def dget_default_def split: option.splits)

lemma read_phase_named: "dget (state_or_empty fs) ''phase'' = PStr (phase_name ph) \<Longrightarrow> read_phase fs = ph"
  using phase_of_name [of ph] by (auto simp: read_phase_def state_or_empty_def split: option.splits simp del: phase_of_name)

lemma commit_plan_opens:
  assumes "committed n v fs" and "can_commit_plan (state_or_empty fs)" and "items \<noteq> []"
  shows "\<exists>fs1 out. commit_plan rt now items fs = (fs1, Inr out) \<and> committed n (Suc v) fs1
    \<and> read_phase fs1 = EDIT \<and> pending_settle fs1 = PNone"
proof -
  obtain tx out where tx: "prepare_plan rt items fs = Inr (tx, out)" using prepare_plan_total [OF assms(1,2)] by blast
  obtain st where st: "load_state fs = Some st" "committed_state st n v" "state_or_empty fs = st"
    "load_progress fs = Some (state_progress st)" using assms(1) by (elim committedE)
  from prepare_planE [OF tx st(4)] obtain version ids pid m where
    pl: "px_patch tx = plan_patch st version pid" "allocate_ids rt (length items) m = Inr (ids, pid)" "po_item_ids out = ids"
    using st(3) by (metis plan_txn.select_convs(3) plan_out.select_convs(2))
  have "length ids = length items"
    using pl(2) by (auto simp: allocate_ids_def dest!: alloc_from_length)
  then have ids: "po_item_ids out \<noteq> []" using assms(3) pl(3) by auto
  let ?fs' = "fold (\<lambda>step s. step s) (plan_steps now tx) fs"
  have c: "committed n (Suc v) ?fs'" and wf: "wf_plan_txn (int v + 1) st tx"
    using prepare_plan_facts [OF tx assms(1), of now] st(1) by (auto simp: plan_pre_def)
  have "dget (state_or_empty ?fs') k = sanitize_floats (dget (st ++\<^sub>f plan_patch st version pid) k)" if "k \<noteq> ''last_touched''" for k
    using plan_commit_eq [of "put_plan (px_text tx) (write_intent (plan_intent tx) fs)" st "int v + 1" tx now] st wf that
    by (simp add: plan_steps_def pl(1) sanitize_dict_add [symmetric] del: sanitize_dict_add)
  then have "dget (state_or_empty ?fs') ''phase'' = PStr (phase_name EDIT)" "dget (state_or_empty ?fs') ''pending_settle'' = PNone"
    by (simp_all add: plan_patch_view)
  moreover from this(1) have "read_phase ?fs' = EDIT" by (rule read_phase_named)
  ultimately show ?thesis
    using c ids by (simp add: commit_plan_def tx Let_def pending_settle_def)
qed

lemma demo_round_recorded:
  assumes "committed n v fs" and "read_phase fs = EDIT" and "pending_settle fs = PNone"
  shows "\<exists>fs1 kd. task_record_round demo_runtime now (Some demo_config) demo_git demo_eval (PStr ''try'') (PStr ''p1'') fs = (fs1, Inr kd)
     \<and> committed (Suc n) v fs1 \<and> can_commit_plan (state_or_empty fs1) \<and> read_phase fs1 = EDIT
     \<and> (\<exists>d. pending_settle fs1 = PDict d \<and> d \<noteq> fmempty)"
proof -
  obtain tx where tx: "prepare_round demo_runtime demo_config demo_git demo_eval (PStr ''try'') (PStr ''p1'') fs = Inr tx"
    using demo_prepare_round [OF assms(1)] by blast
  let ?fs' = "fold (\<lambda>step s. step s) (round_steps now tx) fs"
  have "state_or_empty ?fs' = fmupd ''last_touched'' (PTime now) (sanitize_dict (state_or_empty fs ++\<^sub>f round_patch tx))"
    by (simp add: round_steps_def commit_patch_def)
  then have d: "dget (state_or_empty ?fs') ''pending_settle'' = PDict (sanitize_dict (rx_kd_json tx))"
      "dget (state_or_empty ?fs') ''phase'' = sanitize_floats (dget (state_or_empty fs) ''phase'')"
    using round_patch_view [of "state_or_empty fs" tx]
    by (simp_all add: sanitize_dict_add [symmetric] sanitize_dict_def [symmetric] del: sanitize_dict_add)
  obtain st where st: "load_progress fs = Some (state_progress st)" using assms(1) by (elim committedE)
  from prepare_roundE [OF tx st] have ne: "sanitize_dict (rx_kd_json tx) \<noteq> fmempty" by (metis kd_json_nonempty)
  then have pend: "\<exists>d. pending_settle ?fs' = PDict d \<and> d \<noteq> fmempty" using d(1) by (simp add: pending_settle_def)
  note ne
  moreover have "dget (state_or_empty fs) ''phase'' = PStr (phase_name EDIT)"
    by (rule phase_of_eq, rule state_phase [OF assms(2)]) simp
  ultimately have "can_commit_plan (state_or_empty ?fs')"
    using d dget_PStr_default [of "state_or_empty ?fs'" "''phase''"] by (simp add: can_commit_plan_def Let_def)
  moreover have "task_record_round demo_runtime now (Some demo_config) demo_git demo_eval (PStr ''try'') (PStr ''p1'') fs = (?fs', Inr (rx_kd_json tx))"
    using assms(2,3) tx by (simp add: task_record_round_def require_phase_def record_round_eq)
  moreover have "read_phase ?fs' = EDIT" by (rule read_phase_named) (simp add: d \<open>dget (state_or_empty fs) ''phase'' = _\<close>)
  ultimately show ?thesis using round_keeps_committed [OF assms(1) tx, of now] pend by blast
qed

text \<open>A task with a budget of one round: planned, evaluated, re-planned instead of settled, evaluated again.\<close>

definition demo_items :: "plan_input list" where
  "demo_items = [\<lparr>in_desc = ''Fuse the epilogue'', in_rationale = ''saves a pass'', in_skill = ''k/SKILL.md''\<rparr>]"

lemma task_run_zero: "task_run rt cfg c r fs \<Longrightarrow> task_step rt cfg c fs fs' \<Longrightarrow> read_phase fs \<noteq> EDIT \<Longrightarrow> task_run rt cfg c r fs'"
  using task_run.Step [of rt cfg c r fs fs'] by (simp add: recovery_commit_def)

lemma task_run_round:
  "task_run rt cfg c r fs \<Longrightarrow> committed n v fs \<Longrightarrow> task_step rt cfg c fs fs' \<Longrightarrow> committed m v fs' \<Longrightarrow> task_run rt cfg c r fs'"
  using task_run.Step [of rt cfg c r fs fs'] by (simp add: recovery_commit_def committed_expected)

lemma demo_run: "task_run demo_runtime demo_cfg demo_config 0 demo_fs"
proof -
  have "task_run demo_runtime demo_cfg demo_config 0 demo_activated"
    unfolding demo_activated_def
    by (rule task_run_zero [OF task_run.Start]) (auto intro: Activate [of _ _ _ _ "snd (activate 1 True empty_fs)"] simp: empty_fs_def read_phase_def load_state_def)
  then show ?thesis
    unfolding demo_fs_def
    by (rule task_run_zero) (auto intro: Baseline [of _ _ _ _ _ _ _ "snd (record_baseline demo_runtime 2 (Some demo_config) demo_git demo_eval demo_activated)"]
        simp: demo_activated_facts)
qed

lemma demo_overrun:
  "\<exists>fs1 fs2 fs3 fs4. (\<exists>kd. task_record_round demo_runtime 4 (Some demo_config) demo_git demo_eval (PStr ''try'') (PStr ''p1'') fs1 = (fs2, Inr kd))
     \<and> read_last_history_round fs2 = Inr (Some 1) \<and> (\<exists>d. pending_settle fs2 = PDict d \<and> d \<noteq> fmempty)
     \<and> task_run demo_runtime demo_cfg demo_config 0 fs2
     \<and> (\<exists>out. commit_plan demo_runtime 5 demo_items fs2 = (fs3, Inr out)) \<and> read_phase fs3 = EDIT
     \<and> (\<exists>kd. task_record_round demo_runtime 6 (Some demo_config) demo_git demo_eval (PStr ''try'') (PStr ''p1'') fs3 = (fs4, Inr kd))
     \<and> read_last_history_round fs4 = Inr (Some 2) \<and> task_run demo_runtime demo_cfg demo_config 1 fs4"
proof -
  have items: "demo_items \<noteq> []" by (simp add: demo_items_def)
  have "can_commit_plan (state_or_empty demo_fs)" by (simp add: can_commit_plan_def demo_state_phase Let_def)
  then obtain fs1 o1 where f1: "commit_plan demo_runtime 3 demo_items demo_fs = (fs1, Inr o1)" "committed 0 1 fs1"
    "read_phase fs1 = EDIT" "pending_settle fs1 = PNone"
    using commit_plan_opens [OF demo_committed _ items, of demo_runtime 3] by auto
  obtain fs2 k2 where f2: "task_record_round demo_runtime 4 (Some demo_config) demo_git demo_eval (PStr ''try'') (PStr ''p1'') fs1 = (fs2, Inr k2)"
    "committed 1 1 fs2" "can_commit_plan (state_or_empty fs2)" "read_phase fs2 = EDIT" "\<exists>d. pending_settle fs2 = PDict d \<and> d \<noteq> fmempty"
    using demo_round_recorded [OF f1(2-4), of 4] by auto
  obtain fs3 o3 where f3: "commit_plan demo_runtime 5 demo_items fs2 = (fs3, Inr o3)" "committed 1 2 fs3"
    "read_phase fs3 = EDIT" "pending_settle fs3 = PNone"
    using commit_plan_opens [OF f2(2,3) items, of demo_runtime 5] by (auto simp: numeral_2_eq_2)
  obtain fs4 k4 where f4: "task_record_round demo_runtime 6 (Some demo_config) demo_git demo_eval (PStr ''try'') (PStr ''p1'') fs3 = (fs4, Inr k4)"
    "committed 2 2 fs4"
    using demo_round_recorded [OF f3(2-4), of 6] by (auto simp: numeral_2_eq_2)
  have plan: "read_phase demo_fs = PLAN"
    by (rule read_phase_named) (simp add: dget_from_default demo_state_phase)
  have "task_run demo_runtime demo_cfg demo_config 0 fs1"
    by (rule task_run_zero [OF demo_run Plan [OF f1(1)]]) (simp add: plan)
  then have r2: "task_run demo_runtime demo_cfg demo_config 0 fs2" by (rule task_run_round [OF _ f1(2) Round [OF f2(1)] f2(2)])
  have "recovery_commit fs2 fs3" by (simp add: recovery_commit_def f2(4) committed_expected [OF f2(2)] committed_expected [OF f3(2)])
  then have "task_run demo_runtime demo_cfg demo_config 1 fs3" using task_run.Step [OF r2 Plan [OF f3(1)]] by simp
  then have "task_run demo_runtime demo_cfg demo_config 1 fs4" by (rule task_run_round [OF _ f3(2) Round [OF f4(1)] f4(2)])
  then show ?thesis using f2 f3 f4 r2 by (intro exI [of _ fs1] exI [of _ fs2] exI [of _ fs3] exI [of _ fs4]) (auto simp: committed_def)
qed

theorem rounds_bounded_witness:
  "\<exists>fs. task_run demo_runtime demo_cfg demo_config 1 fs \<and> read_last_history_round fs = Inr (Some 2) \<and> (2::int) \<le> 1 + int 1"
proof -
  obtain fs where fs: "task_run demo_runtime demo_cfg demo_config 1 fs" "read_last_history_round fs = Inr (Some 2)"
    using demo_overrun by blast
  from rounds_bounded [OF fs(1) _ _ fs(2), of 1] have "(2::int) \<le> 1 + int 1" by (simp add: demo_config_def)
  with fs show ?thesis by blast
qed

text \<open>
  A plan committed in place of a settlement does not look at the budget: with \<open>max_rounds\<close> 1, a task
  whose first round is recorded but not settled goes back to EDIT through \<open>create_plan.py\<close>, although
  settling it would have finished the task, and a second round is recorded.
\<close>

theorem recovery_plan_overruns:
  "\<exists>fs1 fs2 fs3 fs4. tc_max_rounds demo_config = PInt 1
     \<and> (\<exists>kd. task_record_round demo_runtime 4 (Some demo_config) demo_git demo_eval (PStr ''try'') (PStr ''p1'') fs1 = (fs2, Inr kd))
     \<and> read_last_history_round fs2 = Inr (Some 1)
     \<and> (\<exists>out. commit_plan demo_runtime 5 demo_items fs2 = (fs3, Inr out)) \<and> read_phase fs3 = EDIT
     \<and> (\<exists>kd. task_record_round demo_runtime 6 (Some demo_config) demo_git demo_eval (PStr ''try'') (PStr ''p1'') fs3 = (fs4, Inr kd))
     \<and> read_last_history_round fs4 = Inr (Some 2) \<and> task_run demo_runtime demo_cfg demo_config 1 fs4"
  using demo_overrun by (fastforce simp: demo_config_def)

end
