(* ===== verification/Machine.thy ===== *)
theory Machine
  imports Engine Hook_Facts Round_Budget
begin

text \<open>
  The scripts of an agent, the hooks around its tool calls and the supervisor's releases as steps of one
  machine over all task directories, and the simulation of that machine by the lifecycle of a single
  directory: whatever a step does to the world, it does to each directory a sequence of lifecycle steps.
\<close>

subsection \<open>What a world step does to each directory\<close>

type_synonym policies = "string \<Rightarrow> task_config"

definition counts :: "policies \<Rightarrow> bool" where
  "counts pol \<longleftrightarrow> (\<forall>td. is_count (tc_max_rounds (pol td)))"

definition evolves :: "runtime \<Rightarrow> config \<Rightarrow> policies \<Rightarrow> world \<Rightarrow> world \<Rightarrow> bool" where
  "evolves rt cfg pol w w' \<longleftrightarrow>
     (\<forall>td. life_inv (task_at w td) \<longrightarrow> (task_step rt cfg (pol td))\<^sup>*\<^sup>* (task_at w td) (task_at w' td))"

lemma steps_life: "(task_step rt cfg c)\<^sup>*\<^sup>* fs fs' \<Longrightarrow> life_inv fs \<Longrightarrow> is_count (tc_max_rounds c) \<Longrightarrow> life_inv fs'"
  by (induction rule: rtranclp_induct) (use step_keeps in blast)+

lemma evolves_life: "evolves rt cfg pol w w' \<Longrightarrow> counts pol \<Longrightarrow> life_inv (task_at w td) \<Longrightarrow> life_inv (task_at w' td)"
  using steps_life by (auto simp: evolves_def counts_def)

lemma evolves_refl [simp]: "evolves rt cfg pol w w"
  by (simp add: evolves_def)

lemma evolves_tasks: "tasks w' = tasks w \<Longrightarrow> evolves rt cfg pol w w'"
  by (simp add: evolves_def task_at_def)

lemma evolves_trans [trans]:
  "evolves rt cfg pol w w1 \<Longrightarrow> counts pol \<Longrightarrow> evolves rt cfg pol w1 w2 \<Longrightarrow> evolves rt cfg pol w w2"
  using evolves_life unfolding evolves_def by (meson rtranclp_trans)

lemma evolves_put:
  assumes "life_inv (task_at w td) \<Longrightarrow> (task_step rt cfg (pol td))\<^sup>*\<^sup>* (task_at w td) fs"
  shows "evolves rt cfg pol w (put_task td fs w)"
  using assms by (simp add: evolves_def)

lemma evolves_step: "task_step rt cfg (pol td) (task_at w td) fs \<Longrightarrow> evolves rt cfg pol w (put_task td fs w)"
  by (rule evolves_put) blast

lemma task_at_lookup: "fmlookup (tasks w) td = Some fs \<Longrightarrow> task_at w td = fs"
  by (simp add: task_at_def)

lemma task_at_tasks: "tasks w' = tasks w \<Longrightarrow> task_at w' = task_at w"
  by (simp add: task_at_def fun_eq_iff)

subsection \<open>Ownership\<close>

lemma disown_step:
  "load_state fs = Some st \<Longrightarrow> st \<noteq> fmempty \<Longrightarrow> task_step rt cfg c fs (save_state now (fmupd ''owner'' PNone st) fs)"
  using task_step.Claim [of rt cfg c fs now PNone] by (simp add: state_or_fresh_def)

lemma touch_evolves: "evolves rt cfg pol w (touch_task now td w)"
  unfolding touch_task_def by (rule evolves_step) (rule task_step.Heartbeat)

lemma release_prior_evolves: "release_prior now s prior td w = Inr w' \<Longrightarrow> evolves rt cfg pol w w'"
  by (auto simp: release_prior_def load_task_def task_at_lookup split: option.splits if_splits
      intro!: evolves_step disown_step)

lemma set_task_dir_evolves:
  assumes "set_task_dir rt' cfg' now pid s force td w = Inr (w', ok)" and "counts pol"
  shows "evolves rt cfg pol w w'"
proof (cases ok)
  case False
  then show ?thesis using set_task_dir_False assms(1) by (metis (full_types) evolves_refl)
next
  case True
  with assms(1) obtain fs w1 where fs: "fmlookup (tasks w) td = Some fs"
    and w1: "release_prior now s (if s \<noteq> [] then read_session_index rt' s w else None) td w = Inr w1"
    and w': "w' = write_session_index rt' s td
       (put_task td (save_state now (fmupd ''owner'' (owner_record s pid now) (state_or_fresh now fs)) fs) w1)"
    by (auto elim: set_task_dirE)
  have "fmlookup (tasks w1) td = Some fs" using release_prior_owner(5) [OF w1] fs by simp
  then have "evolves rt cfg pol w1 (put_task td (save_state now (fmupd ''owner'' (owner_record s pid now) (state_or_fresh now fs)) fs) w1)"
    by (intro evolves_step) (simp add: task_at_lookup task_step.Claim)
  from evolves_trans [OF release_prior_evolves [OF w1] assms(2) this]
  have "evolves rt cfg pol w (put_task td (save_state now (fmupd ''owner'' (owner_record s pid now) (state_or_fresh now fs)) fs) w1)" .
  then show ?thesis unfolding w' evolves_def by (simp add: task_at_def)
qed

lemma release_target_evolves:
  assumes "release_target rt' cfg' now s force claim td fs w = Inr (w', ok)" and "fmlookup (tasks w) td = Some fs"
  shows "evolves rt cfg pol w w'"
proof (cases "load_state fs")
  case None
  then show ?thesis using assms(1) by (auto simp: release_target_def intro: evolves_tasks)
next
  case (Some st)
  have rel: "evolves rt cfg pol w (put_task td (save_state now (fmupd ''owner'' PNone st) fs) w)" if "st \<noteq> fmempty"
    by (rule evolves_step) (simp add: task_at_lookup assms(2) disown_step Some that)
  then have "evolves rt cfg pol w (clear_session_index rt' s (put_task td (save_state now (fmupd ''owner'' PNone st) fs) w))" if "st \<noteq> fmempty"
    using that unfolding evolves_def by (simp add: task_at_def)
  with rel assms(1) show ?thesis
    by (auto simp: release_target_def Some Let_def split: if_splits intro: evolves_tasks)
qed

lemma clear_evolves: "clear_active_task rt' cfg' now s expected force w = Inr (w', ok) \<Longrightarrow> evolves rt cfg pol w w'"
  by (auto simp: clear_active_task_def Let_def split: option.splits if_splits intro: evolves_tasks release_target_evolves)

lemma lookup_tasks:
  "current_session_task_dir rt now s w = Inr (w', hit) \<Longrightarrow> tasks w' = tasks w"
  by (auto simp: current_session_task_dir_def split: option.splits if_splits prod.splits)

lemma get_task_dir_tasks: "get_task_dir rt now s env w = Inr (w', td) \<Longrightarrow> tasks w' = tasks w"
  by (auto simp: get_task_dir_def dest: lookup_tasks)

lemma find_active_tasks: "find_active_task_dir rt now s w = Inr (w', hit) \<Longrightarrow> tasks w' = tasks w"
  by (auto simp: find_active_task_dir_def split: option.splits dest: lookup_tasks)

lemma gate_heals: "require_state_consistency now raises True fs = Inr (fs1, report) \<Longrightarrow> fs1 = heal now fs"
  by (auto simp: require_state_consistency_def heal_def split: if_splits)

lemma enter_evolves:
  assumes "enter_task rt' cfg' now c td w = (w', r)" and "counts pol"
  shows "evolves rt cfg pol w w'"
proof (cases "fmlookup (tasks w) td")
  case (Some fs)
  show ?thesis
  proof (cases "c_role c = READER \<or> (\<exists>e. require_state_consistency now False True fs = Inl e)")
    case False
    then obtain fs1 report where r: "require_state_consistency now False True fs = Inr (fs1, report)" by (metis sum.exhaust surj_pair)
    let ?w1 = "put_task td fs1 w"
    have 1: "evolves rt cfg pol w ?w1"
      using gate_heals [OF r] by (intro evolves_step) (simp add: task_at_lookup Some task_step.Heal)
    note e = assms(1) Some r False
    consider "w' = ?w1" | w2 ok where "set_task_dir rt' cfg' now (c_pid c) (c_session c) (c_force c) td ?w1 = Inr (w2, ok)"
        "w' = w2 \<or> ok \<and> w' = put_task td (touch_heartbeat now (the (fmlookup (tasks w2) td))) w2"
      using e by (auto simp: enter_task_def Let_def split: if_splits sum.splits bool.splits)
    then show ?thesis
    proof cases
      case (2 w2 ok)
      have 2: "evolves rt cfg pol w w2" by (rule evolves_trans [OF 1 assms(2) set_task_dir_evolves [OF 2(1) assms(2)]])
      have "evolves rt cfg pol w2 (put_task td (touch_heartbeat now (the (fmlookup (tasks w2) td))) w2)" if "fmlookup (tasks w2) td \<noteq> None"
        using that by (intro evolves_step) (auto simp: task_at_def task_step.Heartbeat)
      moreover have "fmlookup (tasks w2) td \<noteq> None" if ok
        using \<open>set_task_dir _ _ _ _ _ _ _ _ = _\<close> claim_owner(1) owner_is_task that by (metis (full_types))
      ultimately show ?thesis using 2 \<open>w' = w2 \<or> _\<close> evolves_trans [OF 2 assms(2)] by blast
    qed (use 1 in simp)
  qed (use assms Some in \<open>auto simp: enter_task_def split: if_splits\<close>)
qed (use assms in \<open>simp add: enter_task_def\<close>)

lemma exit_evolves: "evolves rt cfg pol w (exit_task rt' cfg' now c claimed raised td w)"
  by (auto simp: exit_task_def split: sum.splits intro: clear_evolves)

subsection \<open>The scripts\<close>

text \<open>The policies a run works under are those of the configurations it can load.\<close>

definition governed :: "policies \<Rightarrow> engine_env \<Rightarrow> bool" where
  "governed pol env \<longleftrightarrow> (\<forall>td p. task_policy env td = Inr (Some p) \<longrightarrow> p = pol td)"

lemma governed_policy:
  assumes "governed pol env" and "e_config env td = Inr (Some config)" and "policy_config (e_rt env) config = Inr p"
  shows "p = pol td"
  using assms by (auto simp: governed_def task_policy_def)

abbreviation steps :: "engine_env \<Rightarrow> policies \<Rightarrow> string \<Rightarrow> task_fs \<Rightarrow> task_fs \<Rightarrow> bool" where
  "steps env pol td \<equiv> (task_step (e_rt env) (e_cfg env) (pol td))\<^sup>*\<^sup>*"

lemma with_task_open_evolves:
  assumes "with_task_open env force td body w = (w', r)" and "counts pol"
    and "\<And>fs fs' x. body fs = (fs', x) \<Longrightarrow> life_inv fs \<Longrightarrow> steps env pol td fs fs'"
  shows "evolves (e_rt env) (e_cfg env) pol w w'"
proof -
  let ?c = "(e_caller env)\<lparr>c_role := AGENT, c_force := force\<rparr>"
  obtain w1 q where q: "enter_task (e_rt env) (e_cfg env) (e_now env) ?c td w = (w1, q)" by (cases "enter_task (e_rt env) (e_cfg env) (e_now env) ?c td w")
  have 1: "evolves (e_rt env) (e_cfg env) pol w w1" by (rule enter_evolves [OF q assms(2)])
  obtain fs x where b: "body (task_at w1 td) = (fs, x)" by (cases "body (task_at w1 td)")
  have 2: "evolves (e_rt env) (e_cfg env) pol w1 (put_task td fs w1)"
    by (rule evolves_put) (rule assms(3) [OF b])
  have "w' = w1 \<or> (\<exists>claimed raised. w' = exit_task (e_rt env) (e_cfg env) (e_now env) ?c claimed raised td (put_task td fs w1))"
    using assms(1) q b by (cases q; cases x) (auto simp: with_task_open_def Let_def)
  then show ?thesis
    using 1 evolves_trans [OF evolves_trans [OF 1 assms(2) 2] assms(2) exit_evolves] by blast
qed

lemma settle_exit_steps: "settle_exit env fs = (fs', x) \<Longrightarrow> steps env pol td fs fs'"
proof -
  assume "settle_exit env fs = (fs', x)"
  then obtain so where "settle_round (e_rt env) (e_cfg env) (e_now env) fs = (fs', so)"
    by (cases "settle_round (e_rt env) (e_cfg env) (e_now env) fs") (auto simp: settle_exit_def split: sum.splits py_error.splits)
  then show ?thesis by (intro r_into_rtranclp task_step.Settle)
qed

lemma rollback_steps: "steps env pol td fs (rollback_edit fs)"
  unfolding rollback_edit_def drop_marker_def by (rule r_into_rtranclp) (rule task_step.Marker)

lemma pipeline_round_steps:
  assumes "governed pol env" and "e_config env td = Inr (Some config)" and "pipeline_round env config fs = (fs', x)"
  shows "steps env pol td fs fs'"
proof (cases "quick_check (e_check env) config \<noteq> ([], []) \<or> (\<exists>e. round_eval env config fs = Inl e)
    \<or> (\<exists>r. round_eval env config fs = Inr r \<and> er_outcome r = INFRA_FAIL)")
  case True
  then have "fs' = rollback_edit fs" using assms(3) by (auto simp: pipeline_round_def Let_def split: if_splits)
  then show ?thesis using rollback_steps by simp
next
  case False
  then obtain r where r: "round_eval env config fs = Inr r" "er_outcome r \<noteq> INFRA_FAIL" by (cases "round_eval env config fs") auto
  show ?thesis
  proof (cases "policy_config (e_rt env) config")
    case (Inl e)
    then have "fs' = fs" using assms(3) False r by (simp add: pipeline_round_def Let_def)
    then show ?thesis by simp
  next
    case (Inr p)
    have p: "p = pol td" by (rule governed_policy [OF assms(1,2) Inr])
    from assms(3) False r Inr obtain desc it fs1 kd where rec:
      "task_record_round (e_rt env) (e_now env) (Some (pol td)) (e_git env) (eval_result_to_dict r) desc it fs = (fs1, kd)"
      "fs' = fs1 \<or> settle_exit env fs1 = (fs', x)"
      by (auto simp: pipeline_round_def Let_def p split: prod.splits sum.splits if_splits)
    have "steps env pol td fs fs1" using rec(1) by (intro r_into_rtranclp task_step.Round)
    then show ?thesis using rec(2) settle_exit_steps by (metis rtranclp_trans)
  qed
qed

lemma pipeline_body_steps:
  assumes "governed pol env" and "pipeline_body env td fs = (fs', x)"
  shows "steps env pol td fs fs'"
  using assms(2) pipeline_round_steps [OF assms(1)] settle_exit_steps
  by (auto simp: pipeline_body_def reading_def split: sum.splits option.splits if_splits)

lemma pipeline_evolves:
  assumes "governed pol env" and "counts pol" and "pipeline_main env argv w = (w', rc)"
  shows "evolves (e_rt env) (e_cfg env) pol w w'"
proof (cases "filter (\<lambda>a. a \<noteq> ''--trace'') argv")
  case (Cons a as)
  obtain r where "with_task_open env False (e_abspath env a) (pipeline_body env (e_abspath env a)) w = (w', r)"
    using assms(3) Cons by (auto simp: pipeline_main_def Let_def split: prod.splits)
  then show ?thesis by (rule with_task_open_evolves) (use assms pipeline_body_steps in auto)
qed (use assms(3) in \<open>simp add: pipeline_main_def\<close>)

lemma baseline_body_steps:
  assumes "governed pol env" and "e_config env td = Inr (Some config)" and "baseline_body env dev urls td fs = (fs', x)"
  shows "steps env pol td fs fs'"
proof -
  obtain fs1 pr where pr: "baseline_preflight (e_now env) fs = (fs1, pr)" by (cases "baseline_preflight (e_now env) fs")
  have 1: "steps env pol td fs fs1" using pr by (intro r_into_rtranclp task_step.Preflight)
  have "steps env pol td fs1 fs'"
  proof (cases pr)
    case (Inl e)
    then show ?thesis using assms(3) pr by (simp add: baseline_body_def)
  next
    case (Inr oc)
    show ?thesis
    proof (cases oc)
      case PROCEED
      show ?thesis
      proof (cases "policy_config (e_rt env) config")
        case (Inl e)
        then have "fs' = fs1" using assms(2,3) pr Inr PROCEED by (simp add: baseline_body_def Let_def task_policy_def)
        then show ?thesis by simp
      next
        case P: (Inr p)
        have p: "p = pol td" by (rule governed_policy [OF assms(1,2) P])
        obtain ev where "record_baseline (e_rt env) (e_now env) (Some (pol td)) (e_git env) ev fs1 = (fs', x)"
          using assms(2,3) pr Inr PROCEED P p by (simp add: baseline_body_def Let_def task_policy_def)
        then show ?thesis by (intro r_into_rtranclp task_step.Baseline)
      qed
    next
      case ALREADY_DONE
      then obtain y where "activate (e_now env) False fs1 = (fs', y)"
        using assms(3) pr Inr by (cases "activate (e_now env) False fs1") (auto simp: baseline_body_def split: sum.splits)
      then show ?thesis by (intro r_into_rtranclp task_step.Activate)
    qed (use assms(3) pr Inr in \<open>simp_all add: baseline_body_def\<close>)
  qed
  with 1 show ?thesis by (rule rtranclp_trans)
qed

lemma make_state_dir_evolves: "evolves rt cfg pol w (make_state_dir td w)"
  by (auto simp: make_state_dir_def task_at_def intro: evolves_put)

lemma baseline_evolves:
  assumes "governed pol env" and "counts pol" and "baseline_main env dir dev url w = (w', rc)"
  shows "evolves (e_rt env) (e_cfg env) pol w w'"
proof (cases "\<exists>config. e_config env (e_abspath env dir) = Inr (Some config)")
  case True
  then obtain config where c: "e_config env (e_abspath env dir) = Inr (Some config)" by blast
  obtain r where r: "with_task_open env False (e_abspath env dir) (baseline_body env dev (stripped_parts url) (e_abspath env dir))
      (make_state_dir (e_abspath env dir) w) = (w', r)"
    using assms(3) c by (auto simp: baseline_main_def Let_def split: prod.splits)
  have "evolves (e_rt env) (e_cfg env) pol (make_state_dir (e_abspath env dir) w) w'"
    by (rule with_task_open_evolves [OF r assms(2)]) (rule baseline_body_steps [OF assms(1) c])
  then show ?thesis by (rule evolves_trans [OF make_state_dir_evolves assms(2)])
next
  case False
  then have "w' = make_state_dir (e_abspath env dir) w"
    using assms(3) by (auto simp: baseline_main_def Let_def split: sum.splits option.splits)
  then show ?thesis by (simp add: make_state_dir_evolves)
qed

lemma create_plan_evolves:
  assumes "counts pol" and "create_plan_main env require_skill tree dir w = (w', rc)"
  shows "evolves (e_rt env) (e_cfg env) pol w w'"
proof (cases "accepted_items require_skill tree")
  case (Inr items)
  obtain r where "with_task_open env False (e_abspath env dir) (commit_plan (e_rt env) (e_now env) items) w = (w', r)"
    using assms(2) Inr by (auto simp: create_plan_main_def split: prod.splits sum.splits)
  then show ?thesis
    by (rule with_task_open_evolves [OF _ assms(1)]) (auto intro: task_step.Plan)
qed (use assms(2) in \<open>simp add: create_plan_main_def\<close>)

lemma resume_body_steps: "resume_body env td fs = (fs', x) \<Longrightarrow> steps env pol td fs fs'"
proof -
  assume "resume_body env td fs = (fs', x)"
  then have "fs' = fs \<or> fs' = rollback_edit fs"
    by (auto simp: resume_body_def Let_def reading_def rollback_edit_def split: if_splits sum.splits)
  then show ?thesis using rollback_steps by blast
qed

lemma resume_evolves:
  assumes "counts pol" and "resume_main env force dir w = (w', rc)"
  shows "evolves (e_rt env) (e_cfg env) pol w w'"
proof -
  define found where "found = (case dir of Some d \<Rightarrow> Inr (w, e_abspath env d)
     | None \<Rightarrow> bindR (find_active_task_dir (e_rt env) (e_now env) (c_session (e_caller env)) w) (\<lambda>(w1, hit).
          Inr (w1, case hit of Some d \<Rightarrow> d | None \<Rightarrow> [])))"
  have t: "tasks w1 = tasks w" if "found = Inr (w1, td)" for w1 td
    using that by (auto simp: found_def split: option.splits dest: find_active_tasks)
  show ?thesis
  proof (cases found)
    case (Inl e)
    then show ?thesis using assms(2) by (simp add: resume_main_def found_def)
  next
    case (Inr q)
    obtain w1 td where q: "q = (w1, td)" by (cases q)
    have 1: "evolves (e_rt env) (e_cfg env) pol w w1" by (rule evolves_tasks) (use t Inr q in simp)
    consider "w' = w1" | r where "with_task_open env force td (resume_body env td) w1 = (w', r)"
      using assms(2) Inr unfolding q resume_main_def found_def by (auto split: if_splits prod.splits sum.splits)
    then show ?thesis
    proof cases
      case (2 r)
      then have "evolves (e_rt env) (e_cfg env) pol w1 w'"
        by (rule with_task_open_evolves [OF _ assms(1)]) (rule resume_body_steps)
      then show ?thesis by (rule evolves_trans [OF 1 assms(1)])
    qed (use 1 in simp)
  qed
qed

subsection \<open>The hooks\<close>

lemma check_then_cases:
  assumes "check_then r k w = (w', x)"
  obtains e where "r = Inl e" "w' = w" | y where "r = Inr y" "k y = (w', x)"
  using assms by (cases r) auto

lemma with_task_evolves:
  assumes "with_task h k w = (w', r)" and "counts pol"
    and "\<And>td w1. k td w1 = (w', r) \<Longrightarrow> evolves rt cfg pol w1 w'"
  shows "evolves rt cfg pol w w'"
  using assms(1) unfolding with_task_def
proof (cases rule: check_then_cases)
  case (2 y)
  obtain w1 td where y: "y = (w1, td)" by (cases y)
  have 1: "evolves rt cfg pol w w1" by (rule evolves_tasks) (use 2 y get_task_dir_tasks in blast)
  show ?thesis
  proof (cases "td = []")
    case False
    then have "evolves rt cfg pol (touch_task (h_now h) td w1) w'" using 2(2) y assms(3) by simp
    then show ?thesis by (rule evolves_trans [OF evolves_trans [OF 1 assms(2) touch_evolves] assms(2)])
  qed (use 1 2 y in simp)
qed simp

lemma with_task_reads:
  assumes "with_task h k w = (w', r)" and "counts pol" and "\<And>td w1 w2 x. k td w1 = (w2, x) \<Longrightarrow> w2 = w1"
  shows "evolves rt cfg pol w w'"
proof (rule with_task_evolves [OF assms(1,2)])
  show "evolves rt cfg pol w1 w'" if "k td w1 = (w', r)" for td w1 using assms(3) [OF that] by simp
qed

lemma pre_bash_evolves: "pre_bash h cmd w = (w', r) \<Longrightarrow> counts pol \<Longrightarrow> evolves rt cfg pol w w'"
  unfolding pre_bash_def
  by (erule with_task_reads) (auto simp: Let_def split: option.splits elim: check_then_cases)

lemma pre_task_evolves: "pre_task h s w = (w', r) \<Longrightarrow> counts pol \<Longrightarrow> evolves rt cfg pol w w'"
  unfolding pre_task_def
  by (erule with_task_reads) (auto simp: Let_def split: if_splits elim: check_then_cases)

lemma post_edit_evolves: "post_edit h w = (w', r) \<Longrightarrow> counts pol \<Longrightarrow> evolves rt cfg pol w w'"
  unfolding post_edit_def by (erule with_task_reads) auto

lemma git_gate_evolves: "edit_phase_git_gate h td editable w = (w', r) \<Longrightarrow> evolves rt cfg pol w w'"
  by (auto simp: edit_phase_git_gate_def split: if_splits list.splits intro!: evolves_step task_step.Marker)

lemma pre_edit_evolves:
  assumes "pre_edit h p w = (w', r)" and "counts pol"
  shows "evolves rt cfg pol w w'"
proof (cases "p = []")
  case False
  show ?thesis
  proof (cases "task_dir_from_edit_target w (h_abspath h p)")
    case None
    from assms(1) False None show ?thesis
      by (auto simp: pre_edit_def Let_def elim!: check_then_cases intro: evolves_tasks dest: get_task_dir_tasks)
  next
    case (Some td)
    let ?w1 = "touch_task (h_now h) td w"
    from assms(1) False Some have "w' = ?w1 \<or> (\<exists>es. edit_phase_git_gate h td es ?w1 = (w', r))"
      by (auto simp: pre_edit_def Let_def split: option.splits if_splits elim!: check_then_cases)
    then show ?thesis using touch_evolves evolves_trans [OF touch_evolves assms(2) git_gate_evolves] by blast
  qed
qed (use assms in \<open>simp add: pre_edit_def\<close>)

text \<open>A note of the hooks is one of the lifecycle.\<close>

lemma save_progress_of_evolves:
  assumes "save_progress_of h td changes d w = (w', r)" and "life_inv (task_at w td) \<Longrightarrow> note_changes changes"
  shows "evolves rt cfg pol w w'"
  using assms(1) unfolding save_progress_of_def
proof (cases rule: check_then_cases)
  case (2 y)
  obtain fs p where y: "y = (fs, p)" by (cases y)
  have "evolves rt cfg pol w (put_task td fs w)"
    by (rule evolves_put) (use assms(2) 2(1) y task_step.Note in blast)
  then show ?thesis using 2(2) y by simp
qed simp

lemma life_attempts:
  assumes "life_inv fs" and "load_progress fs = Some p"
  shows "is_count (diagnose_attempts p)"
  using assms(1)
proof (cases rule: life_invE)
  case (run n v)
  then obtain st where "committed_state st n v" "load_progress fs = Some (state_progress st)" by (elim committedE)
  then show ?thesis using assms(2) by (simp add: committed_state_def wf_progress_def)
qed (use assms(2) not_committed_load in simp)

lemma attempts_count:
  assumes "life_inv fs" and "diagnose_state rt cfg fs = Inr st" and "incremented (ds_attempts st) = Inr n"
  shows "0 \<le> n"
proof -
  have "is_count (dget_default (case load_progress fs of Some p \<Rightarrow> to_dict p | None \<Rightarrow> fmempty) ''diagnose_attempts'' (PInt 0))"
    using life_attempts [OF assms(1)] by (auto simp: to_dict_lookup dget_default_def [of fmempty] split: option.splits)
  then have "is_count (py_or (dget_default (case load_progress fs of Some p \<Rightarrow> to_dict p | None \<Rightarrow> fmempty) ''diagnose_attempts'' (PInt 0)) (PInt 0))"
    by (auto simp: py_or_def)
  then have "is_count (ds_attempts st)" using assms(2) by (auto simp: diagnose_state_def Let_def)
  then show ?thesis using assms(3) by (auto elim!: is_countE simp: incremented_def)
qed

lemma note_attempts:
  "0 \<le> n \<Longrightarrow> note_changes (fmap_of_list [(''diagnose_attempts'', PInt n), (''diagnose_attempts_for_version'', v), (''last_diagnose_failure_reason'', x)])"
  "note_changes (fmap_of_list [(''diagnose_attempts'', PInt 0), (''diagnose_attempts_for_version'', v)])"
  "note_changes (fmap_of_list [(''last_stop_reason'', x), (''last_stop_time'', y)])"
  by (simp_all add: note_changes_def note_keys_def)

lemma post_task_evolves:
  assumes "post_task h w = (w', r)" and "counts pol"
  shows "evolves rt cfg pol w w'"
  using assms(1) unfolding post_task_def
proof (rule with_task_evolves [OF _ assms(2)], goal_cases)
  case (1 td w1)
  show ?case
  proof (cases "read_phase (task_at w1 td) = DIAGNOSE")
    case True
    with 1 have "check_then (diagnose_state (h_rt h) (h_cfg h) (task_at w1 td)) (\<lambda>st.
       if ds_action st = DIAGNOSIS_READY
       then save_progress_of h td (fmap_of_list [(''diagnose_attempts'', PInt 0),
              (''diagnose_attempts_for_version'', ds_plan_version st)]) proceed w1
       else check_then (incremented (ds_attempts st)) (\<lambda>n.
              save_progress_of h td (fmap_of_list [(''diagnose_attempts'', PInt n),
                (''diagnose_attempts_for_version'', ds_plan_version st),
                (''last_diagnose_failure_reason'', reason_text (ds_reason st))])
                (proceed\<lparr>d_context := Some (if n \<ge> diagnose_max_attempts (h_cfg h) then ManualPlanning else RetryDiagnosis n)\<rparr>) w1) w1) w1 = (w', r)"
      by simp
    then show ?thesis
    proof (cases rule: check_then_cases)
      case (2 st)
      show ?thesis
      proof (cases "ds_action st = DIAGNOSIS_READY")
        case True
        then show ?thesis using 2(2) note_attempts(2) by (auto simp del: fmap_of_list_simps intro: save_progress_of_evolves)
      next
        case False
        then show ?thesis using 2 note_attempts(1) attempts_count
          by (auto simp del: fmap_of_list_simps elim!: check_then_cases intro: save_progress_of_evolves)
      qed
    qed simp
  qed (use 1 in simp)
qed

lemma on_stop_evolves:
  assumes "on_stop h reason w = (w', r)" and "counts pol"
  shows "evolves rt cfg pol w w'"
  using assms(1) unfolding on_stop_def
proof (cases rule: check_then_cases)
  case (2 y)
  obtain w1 td where y: "y = (w1, td)" by (cases y)
  have 1: "evolves rt cfg pol w w1" by (rule evolves_tasks) (use 2 y get_task_dir_tasks in blast)
  have "evolves rt cfg pol w1 w'" using 2(2) note_attempts(3) unfolding y
    by (auto simp: Let_def simp del: fmap_of_list_simps split: if_splits intro: save_progress_of_evolves)
  then show ?thesis by (rule evolves_trans [OF 1 assms(2)])
qed simp

lemma marker_evolves: "evolves rt cfg pol w (clean_stale_edit_marker h td w)"
  by (auto simp: clean_stale_edit_marker_def drop_marker_def intro!: evolves_step task_step.Marker)

lemma activate_evolves: "activate now f (task_at w td) = (fs, x) \<Longrightarrow> evolves rt cfg pol w (put_task td fs w)"
  by (rule evolves_step) (rule task_step.Activate)

lemma handle_activation_evolves:
  assumes "handle_activation h target w = (w', r)" and "counts pol"
  shows "evolves rt cfg pol w w'"
proof -
  let ?td = "h_abspath h target"
  obtain w1 q where q: "enter_task (h_rt h) (h_cfg h) (h_now h) (agent_caller h) ?td w = (w1, q)"
    by (cases "enter_task (h_rt h) (h_cfg h) (h_now h) (agent_caller h) ?td w")
  let ?w2 = "clean_stale_edit_marker h ?td w1"
  obtain fs x where a: "activate (h_now h) (\<not> has_state_file w ?td) (task_at ?w2 ?td) = (fs, x)"
    by (cases "activate (h_now h) (\<not> has_state_file w ?td) (task_at ?w2 ?td)")
  let ?w3 = "put_task ?td fs ?w2"
  have 1: "evolves rt cfg pol w w1" by (rule enter_evolves [OF q assms(2)])
  have 3: "evolves rt cfg pol w ?w3"
    by (rule evolves_trans [OF evolves_trans [OF 1 assms(2) marker_evolves] assms(2) activate_evolves [OF a]])
  have "w' = w \<or> w' = w1 \<or> w' = ?w3 \<or> (\<exists>claimed. w' = exit_task (h_rt h) (h_cfg h) (h_now h) (agent_caller h) claimed True ?td ?w3)"
    using assms(1) q a
    by (cases q; cases x) (auto simp: handle_activation_def Let_def split: if_splits py_error.splits sum.splits)
  then show ?thesis using 1 3 evolves_trans [OF 3 assms(2) exit_evolves] by auto
qed

lemma post_bash_evolves:
  assumes "post_bash h cmd w = (w', r)" and "counts pol"
  shows "evolves rt cfg pol w w'"
proof (cases "activation_dir cmd")
  case None
  show ?thesis
  proof (cases "task_dir_from_command h w cmd")
    case (Some td)
    from assms(1) None Some consider "w' = w" | w1 ok where
      "set_task_dir (h_rt h) (h_cfg h) (h_now h) (h_pid h) (h_session h) False td w = Inr (w1, ok)" "w' = touch_task (h_now h) td w1"
      by (auto simp: post_bash_def Let_def elim!: check_then_cases)
    then show ?thesis
    proof cases
      case (2 w1 ok)
      then show ?thesis using evolves_trans [OF set_task_dir_evolves [OF 2(1) assms(2)] assms(2) touch_evolves] by simp
    qed simp
  qed (use assms None in \<open>simp add: post_bash_def\<close>)
qed (use assms handle_activation_evolves in \<open>auto simp: post_bash_def\<close>)

lemma decide_evolves:
  assumes "decide h ev w = (w', r)" and "counts pol"
  shows "evolves rt cfg pol w w'"
  using assms
  by (cases ev)
    (auto simp: decide_def intro: pre_bash_evolves pre_edit_evolves pre_task_evolves post_bash_evolves post_edit_evolves
      post_task_evolves on_stop_evolves)

subsection \<open>The machine\<close>

text \<open>
  One step: a script run to its exit, a hook, a release by a session or a supervisor, the scaffold's new
  directory, or a lifecycle step alone, which includes a transaction that is cut short and healed by the
  next entry. The policies are those of the \<open>task.yaml\<close> files.
\<close>

inductive machine_step :: "runtime \<Rightarrow> config \<Rightarrow> policies \<Rightarrow> world \<Rightarrow> world \<Rightarrow> bool"
  for rt :: runtime and cfg :: config and pol :: policies where
  Pipeline: "e_rt env = rt \<Longrightarrow> e_cfg env = cfg \<Longrightarrow> governed pol env \<Longrightarrow> pipeline_main env argv w = (w', rc) \<Longrightarrow> machine_step rt cfg pol w w'"
| Baseline: "e_rt env = rt \<Longrightarrow> e_cfg env = cfg \<Longrightarrow> governed pol env \<Longrightarrow> baseline_main env dir dev url w = (w', rc) \<Longrightarrow> machine_step rt cfg pol w w'"
| CreatePlan: "e_rt env = rt \<Longrightarrow> e_cfg env = cfg \<Longrightarrow> create_plan_main env skills tree dir w = (w', rc) \<Longrightarrow> machine_step rt cfg pol w w'"
| Resume: "e_rt env = rt \<Longrightarrow> e_cfg env = cfg \<Longrightarrow> resume_main env force target w = (w', rc) \<Longrightarrow> machine_step rt cfg pol w w'"
| Hook: "h_rt h = rt \<Longrightarrow> h_cfg h = cfg \<Longrightarrow> decide h ev w = (w', d) \<Longrightarrow> machine_step rt cfg pol w w'"
| Release: "clear_active_task rt cfg now s target force w = Inr (w', ok) \<Longrightarrow> machine_step rt cfg pol w w'"
| Scaffold: "fmlookup (tasks w) td = None \<Longrightarrow> machine_step rt cfg pol w ((put_task td empty_fs w)\<lparr>listing := td # listing w\<rparr>)"
| Cut: "task_step rt cfg (pol td) (task_at w td) fs \<Longrightarrow> machine_step rt cfg pol w (put_task td fs w)"

lemma machine_step_evolves:
  assumes "machine_step rt cfg pol w w'" and "counts pol"
  shows "evolves rt cfg pol w w'"
  using assms(1)
proof cases
  case (Pipeline env argv rc)
  then show ?thesis using pipeline_evolves [OF _ assms(2)] by blast
next
  case (Baseline env dir dev url rc)
  then show ?thesis using baseline_evolves [OF _ assms(2)] by blast
next
  case (CreatePlan env skills tree dir rc)
  then show ?thesis using create_plan_evolves [OF assms(2)] by blast
next
  case (Resume env force dir rc)
  then show ?thesis using resume_evolves [OF assms(2)] by blast
next
  case (Hook h ev d)
  then show ?thesis using decide_evolves [OF _ assms(2)] by blast
next
  case (Release now s expected force ok)
  then show ?thesis by (intro clear_evolves)
next
  case (Scaffold td)
  then show ?thesis by (simp add: evolves_def task_at_def)
next
  case (Cut td fs)
  then show ?thesis by (simp add: evolves_step)
qed

definition machine_reachable :: "runtime \<Rightarrow> config \<Rightarrow> policies \<Rightarrow> world \<Rightarrow> bool" where
  "machine_reachable rt cfg pol = (machine_step rt cfg pol)\<^sup>*\<^sup>* \<lparr>tasks = fmempty, session_index = fmempty, listing = []\<rparr>"

lemma machine_evolves: "machine_reachable rt cfg pol w \<Longrightarrow> counts pol
    \<Longrightarrow> evolves rt cfg pol \<lparr>tasks = fmempty, session_index = fmempty, listing = []\<rparr> w"
  unfolding machine_reachable_def
  by (induction rule: rtranclp_induct) (auto dest: machine_step_evolves intro: evolves_trans)

lemma machine_task_reachable: "machine_reachable rt cfg pol w \<Longrightarrow> counts pol \<Longrightarrow> reachable rt cfg (pol td) (task_at w td)"
proof -
  assume "machine_reachable rt cfg pol w" "counts pol"
  then have e: "evolves rt cfg pol \<lparr>tasks = fmempty, session_index = fmempty, listing = []\<rparr> w" by (rule machine_evolves)
  have "task_at \<lparr>tasks = fmempty, session_index = fmempty, listing = []\<rparr> td = empty_fs" by (simp add: task_at_def)
  then show ?thesis using e empty_life unfolding evolves_def reachable_def by metis
qed

lemma machine_life: "machine_reachable rt cfg pol w \<Longrightarrow> counts pol \<Longrightarrow> life_inv (task_at w td)"
  using machine_task_reachable reachable_inv by (metis counts_def)

text \<open>
  C2. Scripts, hooks, supervisors and crashes, in any order and on any directories, drive each task directory
  through steps of the lifecycle: what one directory holds in a reachable world is reachable for it alone.
\<close>

theorem machine_refines_lifecycle:
  assumes "machine_reachable rt cfg pol w" and "\<forall>td. is_count (tc_max_rounds (pol td))"
  shows "reachable rt cfg (pol td) (task_at w td)"
  using machine_task_reachable [OF assms(1)] assms(2) by (simp add: counts_def)

lemma reachable_alone:
  assumes "reachable rt cfg (pol td) fs"
  shows "machine_reachable rt cfg pol \<lparr>tasks = fmupd td fs fmempty, session_index = fmempty, listing = [td]\<rparr>"
  using assms unfolding reachable_def machine_reachable_def
proof (induction rule: rtranclp_induct)
  case base
  have "machine_step rt cfg pol \<lparr>tasks = fmempty, session_index = fmempty, listing = []\<rparr>
      \<lparr>tasks = fmupd td empty_fs fmempty, session_index = fmempty, listing = [td]\<rparr>"
    using machine_step.Scaffold [of "\<lparr>tasks = fmempty, session_index = fmempty, listing = []\<rparr>" td rt cfg pol] by (simp add: put_task_def)
  then show ?case by (rule r_into_rtranclp)
next
  case (step fs fs')
  let ?w = "\<lparr>tasks = fmupd td fs fmempty, session_index = fmempty, listing = [td]\<rparr>"
  have "machine_step rt cfg pol ?w (put_task td fs' ?w)" by (rule machine_step.Cut) (simp add: task_at_def step)
  moreover have "put_task td fs' ?w = \<lparr>tasks = fmupd td fs' fmempty, session_index = fmempty, listing = [td]\<rparr>"
    by (simp add: put_task_def)
  ultimately show ?case using step.IH by simp
qed

subsection \<open>What a script finds\<close>

lemma life_consistent: "life_inv fs \<Longrightarrow> \<exists>r. require_state_consistency now raises True fs = Inr (fs, r) \<and> consistent r"
  using consistent_inv [OF life_inv_task_inv, of fs] life_inv_idle [of fs]
  by (auto simp: require_state_consistency_def replay_intent_def read_intent_NoFile)

lemma put_same: "fmlookup (tasks w) td = Some fs \<Longrightarrow> put_task td fs w = w"
proof -
  assume "fmlookup (tasks w) td = Some fs"
  then have "fmupd td fs (tasks w) = tasks w" by (intro fmap_ext) auto
  then show ?thesis by (simp add: put_task_def)
qed

lemma enter_life:
  assumes "enter_task rt cfg now c td w = (w', r)" and "life_inv (task_at w td)" and "c_role c = AGENT"
  shows "r = Inr True \<and> task_at w' td = touch_heartbeat now (save_state now
           (fmupd ''owner'' (owner_record (c_session c) (c_pid c) now) (state_or_fresh now (task_at w td))) (task_at w td))
    \<or> (\<exists>e. r = Inl e \<and> e \<noteq> TaskConsistencyError)"
proof (cases "fmlookup (tasks w) td")
  case (Some fs)
  have fs: "task_at w td = fs" using Some by (rule task_at_lookup)
  obtain rep where rep: "require_state_consistency now False True fs = Inr (fs, rep)" "consistent rep"
    using life_consistent assms(2) fs by blast
  note same = put_same [OF Some]
  note e = assms(1) Some rep assms(3)
  show ?thesis
  proof (cases "set_task_dir rt cfg now (c_pid c) (c_session c) (c_force c) td w")
    case (Inl err)
    have "err \<noteq> TaskConsistencyError"
      using Inl by (auto simp: set_task_dir_def Let_def claim_refused_def release_prior_def owner_session_def owner_of_def
          split: option.splits if_splits pyval.splits)
    then show ?thesis using e Inl by (auto simp: enter_task_def same)
  next
    case (Inr q)
    obtain w2 ok where q: "q = (w2, ok)" by (cases q)
    show ?thesis
    proof (cases ok)
      case False
      then show ?thesis using e Inr q by (auto simp: enter_task_def same)
    next
      case True
      with Inr q obtain w1 where w2: "w2 = write_session_index rt (c_session c) td
         (put_task td (save_state now (fmupd ''owner'' (owner_record (c_session c) (c_pid c) now) (state_or_fresh now fs)) fs) w1)"
        using Some by (auto elim: set_task_dirE)
      then have "the (fmlookup (tasks w2) td) = save_state now (fmupd ''owner'' (owner_record (c_session c) (c_pid c) now) (state_or_fresh now fs)) fs"
        by simp
      then show ?thesis using e Inr q True by (auto simp: enter_task_def same fs)
    qed
  qed
qed (use assms in \<open>auto simp: enter_task_def\<close>)


text \<open>
  C6. The types the progress record promises hold in every reachable world: the counters of a loaded record are
  non-negative integers, the next round is one after the last row of the history, and the plan version is
  zero exactly while there is no plan and otherwise the one on disk.
\<close>

theorem progress_typed:
  assumes "machine_reachable rt cfg pol w" and "\<forall>td. is_count (tc_max_rounds (pol td))"
    and "load_progress (task_at w td) = Some p"
  shows "wf_progress p \<and> (\<exists>n v. next_round p = Inr (PInt (int n + 1)) \<and> read_last_history_round (task_at w td) = Inr (Some (int n))
     \<and> plan_version p = PInt (int v) \<and> (v = 0 \<longleftrightarrow> plan_file (task_at w td) = None)
     \<and> (0 < v \<longrightarrow> read_plan_version_from_disk (task_at w td) = Some (int v)))"
  using machine_life [OF assms(1), of td]
proof (rule life_invE)
  show "counts pol" using assms(2) by (simp add: counts_def)
  fix n v assume c: "committed n v (task_at w td)"
  then obtain st where st: "committed_state st n v" "load_progress (task_at w td) = Some (state_progress st)" "plan_at v (task_at w td)"
    "read_last_history_round (task_at w td) = Inr (Some (int n))" by (elim committedE)
  then have "p = state_progress st" using assms(3) by simp
  then show ?thesis
    using st by (auto simp: committed_state_def plan_at_def next_round_def py_inc_def plan_version_on_disk split: option.splits
        intro!: exI [of _ n] exI [of _ v])
qed (use assms(3) not_committed_load in simp_all)

subsection \<open>No evaluation is wasted\<close>

definition entered :: "engine_env \<Rightarrow> task_fs \<Rightarrow> task_fs" where
  "entered env fs = touch_heartbeat (e_now env) (save_state (e_now env) (fmupd ''owner''
     (owner_record (c_session (e_caller env)) (c_pid (e_caller env)) (e_now env)) (state_or_fresh (e_now env) fs)) fs)"

lemma entered_life: "life_inv fs \<Longrightarrow> life_inv (entered env fs)"
  unfolding entered_def by (intro touch_life control_save_keeps) simp_all

lemma entered_field:
  assumes "dget (state_or_empty fs) k \<noteq> PNone" and "k \<notin> {''owner'', ''last_touched''}"
  shows "dget (state_or_empty (entered env fs)) k = sanitize_floats (sanitize_floats (dget (state_or_empty fs) k))"
proof -
  have "state_or_empty fs \<noteq> fmempty" using assms(1) by auto
  then have "state_or_fresh (e_now env) fs = state_or_empty fs" by (auto simp: state_or_fresh_def state_or_empty_def split: option.splits)
  then show ?thesis using assms(2)
    by (auto simp: entered_def touch_heartbeat_def state_or_fresh_def [of _ "save_state _ _ _"] sanitize_dict_def [symmetric])
qed

lemma with_task_open_cong:
  assumes "life_inv (task_at w td)" and "body' (entered env (task_at w td)) = body (entered env (task_at w td))"
  shows "with_task_open (env\<lparr>e_eval_kernel := k, e_check := q\<rparr>) force td body' w = with_task_open env force td body w"
proof -
  let ?c = "(e_caller env)\<lparr>c_role := AGENT, c_force := force\<rparr>"
  obtain w1 r where r: "enter_task (e_rt env) (e_cfg env) (e_now env) ?c td w = (w1, r)"
    by (cases "enter_task (e_rt env) (e_cfg env) (e_now env) ?c td w")
  have "r = Inr True \<and> task_at w1 td = entered env (task_at w td) \<or> (\<exists>e. r = Inl e)"
    using enter_life [OF r assms(1)] by (auto simp: entered_def)
  then show ?thesis using r assms(2) by (auto simp: with_task_open_def Let_def)
qed

lemma pending_settle_only:
  assumes "life_inv (task_at w td)" and "pending_settle (task_at w td) = PDict d" and "d \<noteq> fmempty"
  shows "with_task_open (env\<lparr>e_eval_kernel := k, e_check := q\<rparr>) False td (pipeline_body (env\<lparr>e_eval_kernel := k, e_check := q\<rparr>) td) w =
    with_task_open env False td (pipeline_body env td) w"
proof (rule with_task_open_cong [OF assms(1)])
  let ?fs = "entered env (task_at w td)"
  have "dget (state_or_empty (task_at w td)) ''pending_settle'' = PDict d" using assms(2) by (simp add: pending_settle_def)
  then have "pending_settle ?fs = PDict (sanitize_dict (sanitize_dict d))"
    using entered_field [of "task_at w td" "''pending_settle''" env] by (simp add: pending_settle_def sanitize_dict_def [symmetric])
  then have "truthy (pending_settle ?fs)" using assms(3) by (simp add: sanitize_dict_empty_iff)
  then show "pipeline_body (env\<lparr>e_eval_kernel := k, e_check := q\<rparr>) td ?fs = pipeline_body env td ?fs"
    by (simp add: pipeline_body_def reading_def settle_exit_def)
qed

lemma baseline_once:
  assumes "life_inv (task_at w td)" and "load_progress (task_at w td) = Some p"
  shows "with_task_open (env\<lparr>e_eval_kernel := k, e_check := q\<rparr>) False td (baseline_body (env\<lparr>e_eval_kernel := k, e_check := q\<rparr>) dev urls td) w =
    with_task_open env False td (baseline_body env dev urls td) w"
proof (rule with_task_open_cong [OF assms(1)])
  let ?fs = "entered env (task_at w td)"
  have life: "life_inv ?fs" using assms(1) by (rule entered_life)
  from assms(1) have "dget (state_or_empty (task_at w td)) ''progress_initialized'' = PBool True"
    using assms(2) not_committed_load by (auto simp: committed_state_def elim!: life_invE elim: committedE)
  then have "dget (state_or_empty ?fs) ''progress_initialized'' = PBool True"
    using entered_field [of "task_at w td" "''progress_initialized''" env] by simp
  then have "load_progress ?fs \<noteq> None" by (auto simp: load_progress_def state_or_empty_def split: option.splits)
  with life obtain n v where "committed n v ?fs" using not_committed_load by (auto elim: life_invE)
  then have "classify_baseline ?fs \<noteq> PROCEED" by (rule committed_not_proceed)
  then have "snd (baseline_preflight (e_now env) ?fs) \<noteq> Inr PROCEED"
    using precheck_life [OF life] by (simp add: baseline_preflight_def require_phase_def)
  then obtain fs1 pr where "baseline_preflight (e_now env) ?fs = (fs1, pr)" "pr \<noteq> Inr PROCEED"
    by (cases "baseline_preflight (e_now env) ?fs") simp
  then show "baseline_body (env\<lparr>e_eval_kernel := k, e_check := q\<rparr>) dev urls td ?fs = baseline_body env dev urls td ?fs"
    by (auto simp: baseline_body_def split: sum.splits BaselinePrecheckOutcome.splits)
qed

text \<open>
  C4. Neither a recorded round nor a committed baseline is evaluated again: while a round waits for its settlement
  the pipeline settles without the checks and without the kernel, and once a baseline is committed its script ends without
  the kernel, whatever they would have answered.
\<close>

theorem no_second_evaluation:
  assumes "machine_reachable rt cfg pol w" and "\<forall>td. is_count (tc_max_rounds (pol td))" and "dir \<noteq> ''--trace''"
  shows "((\<exists>d. pending_settle (task_at w (e_abspath env dir)) = PDict d \<and> d \<noteq> fmempty) \<longrightarrow>
       pipeline_main (env\<lparr>e_eval_kernel := k, e_check := q\<rparr>) (dir # args) w = pipeline_main env (dir # args) w)
    \<and> (load_progress (task_at w (e_abspath env dir)) \<noteq> None \<longrightarrow>
       baseline_main (env\<lparr>e_eval_kernel := k, e_check := q\<rparr>) dir dev url w = baseline_main env dir dev url w)"
proof (intro conjI impI)
  have life: "life_inv (task_at w (e_abspath env dir))" using machine_life [OF assms(1)] assms(2) by (simp add: counts_def)
  show "pipeline_main (env\<lparr>e_eval_kernel := k, e_check := q\<rparr>) (dir # args) w = pipeline_main env (dir # args) w"
    if pend: "\<exists>d. pending_settle (task_at w (e_abspath env dir)) = PDict d \<and> d \<noteq> fmempty"
    using pend pending_settle_only [OF life] assms(3) by (auto simp: pipeline_main_def Let_def)
  show "baseline_main (env\<lparr>e_eval_kernel := k, e_check := q\<rparr>) dir dev url w = baseline_main env dir dev url w"
    if prog: "load_progress (task_at w (e_abspath env dir)) \<noteq> None"
  proof -
    have "fmlookup (tasks w) (e_abspath env dir) \<noteq> None"
      using prog by (auto simp: task_at_def load_progress_def load_state_def empty_fs_def split: option.splits)
    then have "make_state_dir (e_abspath env dir) w = w" by (auto simp: make_state_dir_def)
    then show ?thesis using prog baseline_once [OF life] by (auto simp: baseline_main_def Let_def split: sum.split option.split)
  qed
qed

subsection \<open>A concrete world\<close>

text \<open>One directory, whose first round is recorded and not settled, and whose history was at the end before.\<close>

definition demo_policies :: policies where
  "demo_policies td = demo_config"

lemma demo_policies_count: "\<forall>td. is_count (tc_max_rounds (demo_policies td))"
  by (simp add: demo_policies_def demo_count)

lemma demo_machine:
  obtains w where "machine_reachable demo_runtime demo_cfg demo_policies w"
    "\<exists>d. pending_settle (task_at w ''A'') = PDict d \<and> d \<noteq> fmempty" "read_last_history_round (task_at w ''A'') = Inr (Some 1)"
    "load_progress (task_at w ''A'') \<noteq> None"
proof -
  obtain fs where fs: "task_run demo_runtime demo_cfg demo_config 0 fs" "\<exists>d. pending_settle fs = PDict d \<and> d \<noteq> fmempty"
    "read_last_history_round fs = Inr (Some 1)" using demo_overrun by blast
  let ?w = "\<lparr>tasks = fmupd ''A'' fs fmempty, session_index = fmempty, listing = [''A'']\<rparr>"
  have w: "machine_reachable demo_runtime demo_cfg demo_policies ?w"
    by (rule reachable_alone) (simp add: demo_policies_def task_run_reachable [OF fs(1)])
  have t: "task_at ?w ''A'' = fs" by (simp add: task_at_def)
  have "life_inv fs" using machine_life [OF w, of "''A''"] demo_policies_count by (simp add: counts_def t)
  then have "load_progress fs \<noteq> None" using fs(3) uncommitted_log [of fs] by (auto elim!: life_invE elim: committedE)
  then show thesis using that [OF w] fs t by simp
qed

theorem machine_refines_lifecycle_witness:
  "\<exists>w. read_last_history_round (task_at w ''A'') = Inr (Some 1) \<and> reachable demo_runtime demo_cfg demo_config (task_at w ''A'')"
proof -
  obtain w where w: "machine_reachable demo_runtime demo_cfg demo_policies w" "read_last_history_round (task_at w ''A'') = Inr (Some 1)"
    using demo_machine by blast
  from machine_refines_lifecycle [OF w(1) demo_policies_count, of "''A''"] w(2) show ?thesis by (auto simp: demo_policies_def)
qed

theorem progress_typed_witness:
  "\<exists>w p. load_progress (task_at w ''A'') = Some p \<and> wf_progress p \<and> next_round p = Inr (PInt 2)"
proof -
  obtain w where w: "machine_reachable demo_runtime demo_cfg demo_policies w" "read_last_history_round (task_at w ''A'') = Inr (Some 1)"
    "load_progress (task_at w ''A'') \<noteq> None" using demo_machine by blast
  then obtain p where p: "load_progress (task_at w ''A'') = Some p" by blast
  from progress_typed [OF w(1) demo_policies_count p] w(2) p show ?thesis by auto
qed

definition demo_agent :: caller where
  "demo_agent = \<lparr>c_session = ''s'', c_pid = 7, c_role = AGENT, c_force = False\<rparr>"


definition demo_env :: engine_env where
  "demo_env = \<lparr>e_rt = demo_runtime, e_cfg = demo_cfg, e_now = 9, e_caller = demo_agent, e_config = (\<lambda>td. Inr None),
     e_check = \<lparr>qe_diff = Inl (RuntimeError []), qe_dsl = [], qe_exists = (\<lambda>p. False), qe_code_ok = (\<lambda>p. Inr False), qe_smoke = SmokeTimeout\<rparr>,
     e_eval_kernel = (\<lambda>d u s. Inl (RuntimeError [])), e_git = demo_git, e_tree_clean = (\<lambda>td. True), e_abspath = (\<lambda>td. td)\<rparr>"

theorem no_second_evaluation_witness:
  "\<exists>w. read_last_history_round (task_at w ''A'') = Inr (Some 1)
     \<and> (\<forall>k q. pipeline_main (demo_env\<lparr>e_eval_kernel := k, e_check := q\<rparr>) [''A''] w = pipeline_main demo_env [''A''] w)"
proof -
  obtain w where w: "machine_reachable demo_runtime demo_cfg demo_policies w" "read_last_history_round (task_at w ''A'') = Inr (Some 1)"
    "\<exists>d. pending_settle (task_at w ''A'') = PDict d \<and> d \<noteq> fmempty" using demo_machine by blast
  from no_second_evaluation [OF w(1) demo_policies_count, of "''A''" demo_env] w(2,3) show ?thesis
    by (auto simp: demo_env_def intro!: exI [of _ w])
qed

end
