(* ===== verification/Device_Pool.thy ===== *)
theory Device_Pool
  imports Py_Text "HOL-Library.Multiset"
begin

text \<open>
  \<open>src/op_autoresearch/core/async_pool/device_pool.py\<close>: device leases. The free queue is a
  list in FIFO order and the lease table a list of entries in insertion order, as the dict
  keeps them. \<open>acquire_device\<close> takes a device off the queue and enters the lease in two steps
  between which the event loop may run other tasks, so the model has a third place for a
  device, \<open>in_hand\<close>, and the pool is a step relation over which all the coroutines
  interleave. The clock is an argument of the operations that read it.
\<close>

subsection \<open>State\<close>

datatype deadline = Never | At real

record lease =
  l_device :: int
  l_owner :: string
  l_id :: nat
  l_deadline :: deadline

record device_pool =
  device_list :: "int list"
  available_devices :: "int list"
  in_hand :: "int list"
  leases :: "lease list"
  lease_seq :: nat
  ttl :: "real option"
  reaper :: bool
  reap_interval :: "real option"

datatype pool_error = EmptyDeviceList | NoDeviceFree | TokenPairRequired | InactiveLease

subsection \<open>Construction\<close>

text \<open>\<open>[int(x.strip()) for x in env.split(",") if x.strip()]\<close>.\<close>

fun int_list :: "string list \<Rightarrow> int list res" where
  "int_list [] = Inr []"
| "int_list (x # xs) =
     (if strip x = [] then int_list xs
      else bindR (int_of_str (strip x)) (\<lambda>i. bindR (int_list xs) (\<lambda>is. Inr (i # is))))"

definition configured_devices :: "string option \<Rightarrow> int list \<Rightarrow> int list" where
  "configured_devices env devs = (case env of
      None \<Rightarrow> devs
    | Some s \<Rightarrow> if s = [] then devs
                else (case int_list (split_on CHR '','' s) of Inl _ \<Rightarrow> devs | Inr is \<Rightarrow> is))"

definition init_pool :: "string option \<Rightarrow> int list \<Rightarrow> real option \<Rightarrow> pool_error + device_pool" where
  "init_pool env devs lease_ttl =
     (let ds = configured_devices env devs
      in if ds = [] then Inl EmptyDeviceList
         else Inr \<lparr>device_list = ds, available_devices = ds, in_hand = [], leases = [], lease_seq = 0,
                   ttl = lease_ttl, reaper = False, reap_interval = None\<rparr>)"

text \<open>\<open>self._ttl\<close> as a truth value.\<close>

definition has_ttl :: "device_pool \<Rightarrow> bool" where
  "has_ttl p = (case ttl p of None \<Rightarrow> False | Some t \<Rightarrow> t \<noteq> 0)"

definition fresh_deadline :: "real \<Rightarrow> device_pool \<Rightarrow> deadline" where
  "fresh_deadline now p = (case ttl p of None \<Rightarrow> Never | Some t \<Rightarrow> At (now + t))"

subsection \<open>Acquire and release\<close>

text \<open>The awaited \<open>get()\<close>: a device off the head of the queue, or a wait.\<close>

definition dequeue :: "device_pool \<Rightarrow> (device_pool \<times> int) option" where
  "dequeue p = (case available_devices p of
      [] \<Rightarrow> None
    | d # ds \<Rightarrow> Some (p\<lparr>available_devices := ds, in_hand := d # in_hand p\<rparr>, d))"

fun find_lease :: "int \<Rightarrow> lease list \<Rightarrow> lease option" where
  "find_lease d [] = None"
| "find_lease d (l # ls) = (if l_device l = d then Some l else find_lease d ls)"

text \<open>\<open>self._leases[d] = l\<close>: a new key goes to the end, an old one keeps its place.\<close>

fun put_lease :: "lease \<Rightarrow> lease list \<Rightarrow> lease list" where
  "put_lease l [] = [l]"
| "put_lease l (m # ms) = (if l_device m = l_device l then l # ms else m # put_lease l ms)"

definition del_lease :: "int \<Rightarrow> lease list \<Rightarrow> lease list" where
  "del_lease d ls = filter (\<lambda>l. l_device l \<noteq> d) ls"

text \<open>The second half of \<open>acquire_device\<close>, under the lock.\<close>

definition grant :: "real \<Rightarrow> string \<Rightarrow> bool \<Rightarrow> int \<Rightarrow> device_pool \<Rightarrow> device_pool \<times> nat" where
  "grant now owner renewable d p =
     (let dl = (if renewable \<and> has_ttl p then fresh_deadline now p else Never);
          n = lease_seq p + 1
      in (p\<lparr>in_hand := remove1 d (in_hand p), lease_seq := n,
            leases := put_lease \<lparr>l_device = d, l_owner = owner, l_id = n, l_deadline = dl\<rparr> (leases p)\<rparr>, n))"

text \<open>Its exception handler: the device goes back to the queue.\<close>

definition put_back :: "int \<Rightarrow> device_pool \<Rightarrow> device_pool" where
  "put_back d p = p\<lparr>in_hand := remove1 d (in_hand p), available_devices := available_devices p @ [d]\<rparr>"

text \<open>\<open>acquire_device\<close> when nothing else runs in between; a timed wait on an empty queue fails.\<close>

definition acquire_device :: "real \<Rightarrow> string \<Rightarrow> bool \<Rightarrow> device_pool \<Rightarrow> pool_error + device_pool \<times> int \<times> nat" where
  "acquire_device now owner renewable p = (case dequeue p of
      None \<Rightarrow> Inl NoDeviceFree
    | Some (p1, d) \<Rightarrow> (case grant now owner renewable d p1 of (p2, n) \<Rightarrow> Inr (p2, d, n)))"

definition release_lease :: "int \<Rightarrow> nat option \<Rightarrow> device_pool \<Rightarrow> device_pool \<times> bool" where
  "release_lease d expect p = (case find_lease d (leases p) of
      None \<Rightarrow> (p, False)
    | Some l \<Rightarrow>
        if (case expect of None \<Rightarrow> False | Some n \<Rightarrow> l_id l \<noteq> n) then (p, False)
        else (p\<lparr>leases := del_lease d (leases p), available_devices := available_devices p @ [d]\<rparr>, True))"

definition release_device :: "int \<Rightarrow> nat \<Rightarrow> device_pool \<Rightarrow> device_pool \<times> bool" where
  "release_device d n p = release_lease d (Some n) p"

definition force_release_device :: "int \<Rightarrow> device_pool \<Rightarrow> device_pool \<times> bool" where
  "force_release_device d p = release_lease d None p"

subsection \<open>Renewal and reaping\<close>

definition renew_if :: "(lease \<Rightarrow> bool) \<Rightarrow> deadline \<Rightarrow> lease list \<Rightarrow> lease list" where
  "renew_if P dl ls = map (\<lambda>l. if P l then l\<lparr>l_deadline := dl\<rparr> else l) ls"

definition renew :: "real \<Rightarrow> string \<Rightarrow> device_pool \<Rightarrow> device_pool \<times> nat" where
  "renew now owner p =
     (if \<not> has_ttl p then (p, 0)
      else let P = (\<lambda>l. l_owner l = owner \<and> l_deadline l \<noteq> Never)
           in (p\<lparr>leases := renew_if P (fresh_deadline now p) (leases p)\<rparr>, length (filter P (leases p))))"

definition renew_lease :: "real \<Rightarrow> int \<Rightarrow> nat \<Rightarrow> string option \<Rightarrow> device_pool \<Rightarrow> device_pool \<times> bool" where
  "renew_lease now d n owner p =
     (if \<not> has_ttl p then (p, False)
      else case find_lease d (leases p) of
             None \<Rightarrow> (p, False)
           | Some l \<Rightarrow>
               if l_id l \<noteq> n \<or> (case owner of None \<Rightarrow> False | Some w \<Rightarrow> l_owner l \<noteq> w) \<or> l_deadline l = Never
               then (p, False)
               else (p\<lparr>leases := put_lease (l\<lparr>l_deadline := fresh_deadline now p\<rparr>) (leases p)\<rparr>, True))"

text \<open>\<open>keepalive\<close>: the argument check and one beat.\<close>

definition renew_once :: "real \<Rightarrow> string \<Rightarrow> int option \<Rightarrow> nat option \<Rightarrow> device_pool \<Rightarrow> pool_error + device_pool \<times> nat" where
  "renew_once now owner dev tok p = (case (dev, tok) of
      (None, None) \<Rightarrow> Inr (renew now owner p)
    | (Some d, Some n) \<Rightarrow> (case renew_lease now d n (Some owner) p of
          (p', True) \<Rightarrow> Inr (p', 1) | (_, False) \<Rightarrow> Inl InactiveLease)
    | _ \<Rightarrow> Inl TokenPairRequired)"

definition start_reaper :: "real \<Rightarrow> device_pool \<Rightarrow> device_pool" where
  "start_reaper interval p =
     (if \<not> has_ttl p \<or> reaper p then p else p\<lparr>reap_interval := Some interval, reaper := True\<rparr>)"

definition stop_reaper :: "device_pool \<Rightarrow> device_pool" where
  "stop_reaper p = p\<lparr>reaper := False\<rparr>"

definition expired :: "real \<Rightarrow> lease \<Rightarrow> bool" where
  "expired now l = (case l_deadline l of Never \<Rightarrow> False | At t \<Rightarrow> t < now)"

text \<open>One turn of \<open>_reap_loop\<close>.\<close>

definition reap :: "real \<Rightarrow> device_pool \<Rightarrow> device_pool \<times> lease list" where
  "reap now p =
     (let gone = filter (expired now) (leases p)
      in (p\<lparr>leases := filter (\<lambda>l. \<not> expired now l) (leases p),
            available_devices := available_devices p @ map l_device gone\<rparr>, gone))"

definition free_count :: "device_pool \<Rightarrow> nat" where
  "free_count p = length (available_devices p)"

definition leased :: "device_pool \<Rightarrow> (int \<times> string) list" where
  "leased p = map (\<lambda>l. (l_device l, l_owner l)) (leases p)"

subsection \<open>The pool as a transition system\<close>

inductive pool_step :: "device_pool \<Rightarrow> device_pool \<Rightarrow> bool" where
  Dequeue: "dequeue p = Some (p', d) \<Longrightarrow> pool_step p p'"
| Grant: "d \<in> set (in_hand p) \<Longrightarrow> pool_step p (fst (grant now owner renewable d p))"
| PutBack: "d \<in> set (in_hand p) \<Longrightarrow> pool_step p (put_back d p)"
| Release: "pool_step p (fst (release_device d n p))"
| ForceRelease: "pool_step p (fst (force_release_device d p))"
| Renew: "pool_step p (fst (renew now owner p))"
| RenewLease: "pool_step p (fst (renew_lease now d n owner' p))"
| Reap: "pool_step p (fst (reap now p))"
| StartReaper: "pool_step p (start_reaper interval p)"
| StopReaper: "pool_step p (stop_reaper p)"

inductive_cases pool_stepE: "pool_step p p'"

definition pool_reachable :: "device_pool \<Rightarrow> device_pool \<Rightarrow> bool" where
  "pool_reachable p q = pool_step\<^sup>*\<^sup>* p q"

subsection \<open>Conservation of devices\<close>

definition held :: "device_pool \<Rightarrow> int list" where
  "held p = map l_device (leases p)"

text \<open>Every device is in exactly one of the three places, and no two leases share a device or a token.\<close>

definition pool_inv :: "device_pool \<Rightarrow> bool" where
  "pool_inv p \<longleftrightarrow> distinct (device_list p)
     \<and> mset (available_devices p @ in_hand p @ held p) = mset (device_list p)
     \<and> distinct (map l_id (leases p)) \<and> list_all (\<lambda>l. l_id l \<le> lease_seq p) (leases p)"

lemma pool_inv_distinct: "pool_inv p \<Longrightarrow> distinct (available_devices p @ in_hand p @ held p)"
  unfolding pool_inv_def by (metis mset_eq_imp_distinct_iff)

lemma put_lease_new: "l_device l \<notin> l_device ` set ls \<Longrightarrow> put_lease l ls = ls @ [l]"
  by (induction ls) auto

lemma find_lease_Some: "find_lease d ls = Some l \<Longrightarrow> l \<in> set ls \<and> l_device l = d"
  by (induction ls) (auto split: if_splits)

lemma find_lease_None: "find_lease d ls = None \<longleftrightarrow> d \<notin> l_device ` set ls"
  by (induction ls) auto

lemma put_lease_old:
  "distinct (map l_device ls) \<Longrightarrow> find_lease d ls = Some l \<Longrightarrow> l_device m = d \<Longrightarrow>
     put_lease m ls = map (\<lambda>x. if x = l then m else x) ls"
proof (induction ls)
  case (Cons x xs)
  show ?case
  proof (cases "l_device x = d")
    case True
    then have "l = x" "l \<notin> set xs" using Cons by auto
    then have "map (\<lambda>y. if y = l then m else y) xs = xs" by (intro map_idI) auto
    with True Cons(4) \<open>l = x\<close> show ?thesis by simp
  next
    case False
    then show ?thesis using Cons find_lease_Some [of d xs l] by auto
  qed
qed simp

lemma mset_del_lease:
  "distinct (map l_device ls) \<Longrightarrow> d \<in> l_device ` set ls \<Longrightarrow>
     mset (map l_device (del_lease d ls)) + {#d#} = mset (map l_device ls)"
proof (induction ls)
  case (Cons l ls)
  show ?case
  proof (cases "l_device l = d")
    case True
    then have "d \<notin> l_device ` set ls" using Cons(2) by auto
    then have "del_lease d ls = ls" unfolding del_lease_def by (intro filter_True) auto
    then show ?thesis using True by (simp add: del_lease_def)
  qed (use Cons in \<open>auto simp: del_lease_def\<close>)
qed simp

lemma held_distinct: "pool_inv p \<Longrightarrow> distinct (map l_device (leases p))"
  using pool_inv_distinct by (auto simp: held_def)

lemma pool_inv_move:
  assumes "pool_inv p" and "device_list q = device_list p"
    and "mset (available_devices q) + mset (in_hand q) + mset (held q)
       = mset (available_devices p) + mset (in_hand p) + mset (held p)"
    and "distinct (map l_id (leases q))" and "list_all (\<lambda>l. l_id l \<le> lease_seq q) (leases q)"
  shows "pool_inv q"
  using assms by (simp add: pool_inv_def add.assoc)

lemma leases_update_inv:
  assumes "pool_inv p" and "\<And>l. l_id (f l) = l_id l" and "\<And>l. l_device (f l) = l_device l"
  shows "pool_inv (p\<lparr>leases := map f (leases p)\<rparr>)"
proof -
  have m: "map l_device (map f (leases p)) = map l_device (leases p)" "map l_id (map f (leases p)) = map l_id (leases p)"
    using assms(2,3) by simp_all
  show ?thesis
  proof (rule pool_inv_move [OF assms(1)])
    show "mset (available_devices (p\<lparr>leases := map f (leases p)\<rparr>)) + mset (in_hand (p\<lparr>leases := map f (leases p)\<rparr>))
        + mset (held (p\<lparr>leases := map f (leases p)\<rparr>)) = mset (available_devices p) + mset (in_hand p) + mset (held p)"
      using m(1) by (metis (no_types, lifting) device_pool.select_convs(2,3,4) device_pool.surjective device_pool.update_convs(4) held_def)
    show "distinct (map l_id (leases (p\<lparr>leases := map f (leases p)\<rparr>)))"
      using m(2) assms(1) by (simp del: map_map add: pool_inv_def)
  qed (use assms in \<open>auto simp: pool_inv_def list_all_iff\<close>)
qed

lemma grant_inv:
  assumes "pool_inv p" and "d \<in> set (in_hand p)"
  shows "pool_inv (fst (grant now owner renewable d p))"
proof -
  have nd: "d \<notin> l_device ` set (leases p)" using pool_inv_distinct [OF assms(1)] assms(2) by (auto simp: held_def)
  let ?q = "fst (grant now owner renewable d p)"
  have "mset (in_hand p) = add_mset d (mset (remove1 d (in_hand p)))" using assms(2) by simp
  moreover have "in_hand ?q = remove1 d (in_hand p)" "available_devices ?q = available_devices p"
      "held ?q = held p @ [d]" "device_list ?q = device_list p"
    using nd by (simp_all add: grant_def Let_def held_def put_lease_new)
  ultimately show ?thesis using assms(1) nd
    by (intro pool_inv_move [OF assms(1)])
       (auto simp: grant_def Let_def pool_inv_def put_lease_new list_all_iff)
qed

lemma release_inv: "pool_inv p \<Longrightarrow> pool_inv (fst (release_lease d expect p))"
proof (cases "find_lease d (leases p)")
  case (Some l)
  assume inv: "pool_inv p"
  have "mset (map l_device (del_lease d (leases p))) + {#d#} = mset (held p)"
    using mset_del_lease [OF held_distinct [OF inv]] find_lease_Some [OF Some] by (force simp: held_def)
  moreover have "distinct (map l_id (del_lease d (leases p)))" "list_all (\<lambda>l. l_id l \<le> lease_seq p) (del_lease d (leases p))"
    using inv by (auto simp: del_lease_def pool_inv_def list_all_iff distinct_map_filter)
  ultimately have "pool_inv (p\<lparr>leases := del_lease d (leases p), available_devices := available_devices p @ [d]\<rparr>)"
    by (intro pool_inv_move [OF inv]) (auto simp: held_def [of "p\<lparr>leases := _, available_devices := _\<rparr>"])
  then show ?thesis using inv Some by (simp add: release_lease_def)
qed (simp add: release_lease_def)

lemma reap_inv: "pool_inv p \<Longrightarrow> pool_inv (fst (reap now p))"
proof -
  assume inv: "pool_inv p"
  have "mset (filter (expired now) ls) + mset (filter (\<lambda>l. \<not> expired now l) ls) = mset ls" for ls
    by (induction ls) auto
  from this [of "leases p"] have "image_mset l_device (mset (filter (expired now) (leases p)))
      + image_mset l_device (mset (filter (\<lambda>l. \<not> expired now l) (leases p))) = image_mset l_device (mset (leases p))"
    by (metis image_mset_union)
  then show ?thesis using inv
    by (auto simp: reap_def Let_def pool_inv_def held_def list_all_iff distinct_map_filter ac_simps)
qed

lemma renew_lease_eq:
  assumes "distinct (map l_device (leases p))"
  shows "fst (renew_lease now d n w p) = p \<or>
    (\<exists>l. find_lease d (leases p) = Some l \<and> l_id l = n \<and> fst (renew_lease now d n w p) =
       p\<lparr>leases := map (\<lambda>x. if x = l then x\<lparr>l_deadline := fresh_deadline now p\<rparr> else x) (leases p)\<rparr>)"
proof (cases "find_lease d (leases p)")
  case (Some l)
  have "put_lease (l\<lparr>l_deadline := fresh_deadline now p\<rparr>) (leases p)
      = map (\<lambda>x. if x = l then l\<lparr>l_deadline := fresh_deadline now p\<rparr> else x) (leases p)"
    using find_lease_Some [OF Some] by (intro put_lease_old [OF assms Some]) simp
  also have "\<dots> = map (\<lambda>x. if x = l then x\<lparr>l_deadline := fresh_deadline now p\<rparr> else x) (leases p)" by simp
  finally show ?thesis using Some by (auto simp: renew_lease_def)
qed (simp add: renew_lease_def)

lemma renew_lease_inv:
  assumes "pool_inv p"
  shows "pool_inv (fst (renew_lease now d n w p))"
proof -
  have upd: "pool_inv (p\<lparr>leases := map (\<lambda>x. if x = l then x\<lparr>l_deadline := dl\<rparr> else x) (leases p)\<rparr>)" for l dl
    using assms by (rule leases_update_inv) simp_all
  show ?thesis
    using renew_lease_eq [OF held_distinct [OF assms], of now d n w]
    by (elim disjE exE conjE) (simp_all only: upd assms)
qed

lemma renew_inv: "pool_inv p \<Longrightarrow> pool_inv (fst (renew now owner p))"
  by (auto simp: renew_def renew_if_def Let_def intro!: leases_update_inv)

lemma reaper_inv: "pool_inv p \<Longrightarrow> pool_inv (start_reaper i p)" "pool_inv p \<Longrightarrow> pool_inv (stop_reaper p)"
  by (simp_all add: start_reaper_def stop_reaper_def pool_inv_def held_def)

lemma pool_step_inv: "pool_step p q \<Longrightarrow> pool_inv p \<Longrightarrow> pool_inv q"
proof (induction rule: pool_step.induct)
  case (Dequeue p p' d)
  then show ?case by (auto simp: dequeue_def pool_inv_def held_def split: list.splits)
next
  case (PutBack d p)
  then show ?case by (auto simp: put_back_def pool_inv_def held_def)
qed (simp_all add: grant_inv release_inv reap_inv renew_inv renew_lease_inv release_device_def force_release_device_def
    reaper_inv)

lemma init_inv: "init_pool env devs t = Inr p \<Longrightarrow> distinct (configured_devices env devs) \<Longrightarrow> pool_inv p"
  by (auto simp: init_pool_def Let_def pool_inv_def held_def split: if_splits)

lemma reachable_pool_inv: "pool_reachable p q \<Longrightarrow> pool_inv p \<Longrightarrow> pool_inv q"
  unfolding pool_reachable_def by (induction rule: rtranclp_induct) (auto intro: pool_step_inv)

subsection \<open>Lease tokens\<close>

text \<open>
  The contract of a table that hands out numbered tokens: numbers only grow, and a step can
  only add tokens numbered past those already issued. A token that is not in the table is
  then out for good.
\<close>

locale token_table =
  fixes step :: "'s \<Rightarrow> 's \<Rightarrow> bool"
    and inv :: "'s \<Rightarrow> bool"
    and holds :: "'s \<Rightarrow> 'r \<Rightarrow> nat \<Rightarrow> bool"
    and issued :: "'s \<Rightarrow> nat"
  assumes step_keeps: "inv s \<Longrightarrow> step s s' \<Longrightarrow> inv s'"
    and issued_grows: "step s s' \<Longrightarrow> issued s \<le> issued s'"
    and only_new: "inv s \<Longrightarrow> step s s' \<Longrightarrow> holds s' r n \<Longrightarrow> holds s r n \<or> issued s < n"
begin

lemma retired_step:
  "inv s \<Longrightarrow> step s s' \<Longrightarrow> n \<le> issued s \<Longrightarrow> \<not> holds s r n \<Longrightarrow> n \<le> issued s' \<and> \<not> holds s' r n"
  using issued_grows only_new by (metis leD le_trans)

lemma retired:
  assumes "step\<^sup>*\<^sup>* s s'" and "inv s" and "n \<le> issued s" and "\<not> holds s r n"
  shows "inv s' \<and> n \<le> issued s' \<and> \<not> holds s' r n"
  using assms(1) by (induction rule: rtranclp_induct) (use assms(2-4) retired_step step_keeps in blast)+

end

definition holds_lease :: "device_pool \<Rightarrow> int \<Rightarrow> nat \<Rightarrow> bool" where
  "holds_lease p d n = list_ex (\<lambda>l. l_device l = d \<and> l_id l = n) (leases p)"

lemma put_lease_subset: "x \<in> set (put_lease l ls) \<Longrightarrow> x = l \<or> x \<in> set ls"
  by (induction ls) (auto split: if_splits)

lemma grant_fields: "lease_seq (fst (grant now w r d p)) = Suc (lease_seq p)"
  by (simp add: grant_def Let_def)

lemma seq_step: "pool_step p q \<Longrightarrow> lease_seq p \<le> lease_seq q"
  by (erule pool_stepE)
     (auto simp: dequeue_def grant_fields put_back_def release_device_def force_release_device_def release_lease_def renew_def
      renew_lease_def reap_def start_reaper_def stop_reaper_def Let_def split: option.splits list.splits if_splits)

lemma holds_release: "holds_lease (fst (release_lease d e p)) d' n \<Longrightarrow> holds_lease p d' n"
  by (auto simp: release_lease_def holds_lease_def list_ex_iff del_lease_def split: option.splits if_splits)

lemma holds_update:
  "(\<And>l. l_id (f l) = l_id l) \<Longrightarrow> (\<And>l. l_device (f l) = l_device l) \<Longrightarrow>
     holds_lease (p\<lparr>leases := map f (leases p)\<rparr>) d n = holds_lease p d n"
  by (simp add: holds_lease_def list_ex_iff)

lemma holds_step:
  assumes "pool_inv p" and "pool_step p q" and "holds_lease q d n"
  shows "holds_lease p d n \<or> lease_seq p < n"
  using assms(2,3)
proof (cases rule: pool_step.cases)
  case (Grant d' now owner renewable)
  then show ?thesis using assms(3)
    by (auto simp: grant_def Let_def holds_lease_def list_ex_iff dest!: put_lease_subset)
next
  case (RenewLease now d' n' w)
  then show ?thesis
    using renew_lease_eq [OF held_distinct [OF assms(1)], of now d' n' w] assms(3)
    by (auto simp: holds_update)
next
  case (Release d' n')
  then show ?thesis using assms(3) holds_release by (simp add: release_device_def)
next
  case (ForceRelease d')
  then show ?thesis using assms(3) holds_release by (simp add: force_release_device_def)
qed (auto simp: dequeue_def put_back_def renew_def renew_if_def reap_def start_reaper_def stop_reaper_def holds_lease_def
    list_ex_iff Let_def split: list.splits if_splits)

interpretation leases_tokens: token_table pool_step pool_inv holds_lease lease_seq
  by unfold_locales (auto intro: pool_step_inv seq_step dest: holds_step)

lemma holds_find: "pool_inv p \<Longrightarrow> \<not> holds_lease p d n \<Longrightarrow> find_lease d (leases p) = Some l \<Longrightarrow> l_id l \<noteq> n"
  using find_lease_Some by (auto simp: holds_lease_def list_ex_iff)

lemma holds_released:
  assumes "pool_inv p"
  shows "\<not> holds_lease (fst (release_device d n p)) d n"
proof (cases "find_lease d (leases p)")
  case None
  then have "release_device d n p = (p, False)" by (simp add: release_device_def release_lease_def)
  moreover have "d \<notin> l_device ` set (leases p)" using None find_lease_None by blast
  ultimately show ?thesis by (auto simp: holds_lease_def list_ex_iff)
next
  case (Some l)
  have "l' = l" if "l' \<in> set (leases p)" "l_device l' = d" for l'
    using that find_lease_Some [OF Some] held_distinct [OF assms] by (auto simp: distinct_map inj_on_def)
  then show ?thesis using Some
    by (auto simp: release_device_def release_lease_def holds_lease_def list_ex_iff del_lease_def)
qed

lemma seq_release: "lease_seq (fst (release_device d n p)) = lease_seq p"
  by (simp add: release_device_def release_lease_def split: option.splits)

subsection \<open>Properties\<close>

text \<open>C30. No device is lost or leased twice: from a pool over distinct devices, after any interleaving of
  acquisitions (also half-done and interrupted ones), releases, forced releases, renewals and reaping, every
  device is exactly once in the free queue, in the hands of an acquirer or under one lease.\<close>
theorem pool_conserves_devices:
  assumes "init_pool env devs t = Inr p" and "distinct (configured_devices env devs)" and "pool_reachable p q"
  shows "mset (available_devices q @ in_hand q @ map fst (leased q)) = mset (configured_devices env devs)
    \<and> distinct (available_devices q @ in_hand q @ map fst (leased q))"
proof -
  have inv: "pool_inv q" using reachable_pool_inv [OF assms(3)] init_inv [OF assms(1,2)] by blast
  have l: "map fst (leased q) = held q" by (simp add: leased_def held_def)
  have "device_list q = device_list p"
    using assms(3) unfolding pool_reachable_def
  proof (induction rule: rtranclp_induct)
    case (step y z)
    from step(2) have "device_list z = device_list y"
      by (rule pool_stepE)
         (auto simp: dequeue_def grant_def put_back_def release_device_def force_release_device_def release_lease_def renew_def
          renew_lease_def reap_def start_reaper_def stop_reaper_def Let_def split: option.splits list.splits if_splits)
    with step show ?case by simp
  qed simp
  then have "device_list q = configured_devices env devs" using assms(1) by (auto simp: init_pool_def Let_def split: if_splits)
  with inv pool_inv_distinct [OF inv] show ?thesis by (simp add: pool_inv_def l)
qed

text \<open>C31. A release is final: once \<open>release_device\<close> has run with a token, whatever happens to the pool
  afterwards, that token is never honoured again: a second release leaves the pool as it is and reports
  failure, and so does a renewal, even when the device is leased again by the same owner.\<close>
theorem release_final:
  assumes "pool_inv p" and "n \<le> lease_seq p" and "pool_reachable (fst (release_device d n p)) q"
  shows "release_device d n q = (q, False) \<and> renew_lease now d n w q = (q, False) \<and> \<not> holds_lease q d n"
proof -
  have inv: "pool_inv (fst (release_device d n p))" using release_inv [OF assms(1)] by (simp add: release_device_def)
  have q: "pool_inv q" "\<not> holds_lease q d n"
    using leases_tokens.retired [OF assms(3) [unfolded pool_reachable_def] inv, of n d] assms(2) holds_released [OF assms(1)]
    by (auto simp: seq_release)
  then have "l_id l \<noteq> n" if "find_lease d (leases q) = Some l" for l using holds_find that by blast
  then show ?thesis using q
    by (auto simp: release_device_def release_lease_def renew_lease_def split: option.splits)
qed

text \<open>The reaper takes exactly the expired leases: after a turn at \<open>now\<close> no lease past its deadline is
  left, every other lease is kept as it was, non-expiring ones among them, each reclaimed device is back in
  the queue, and a lease renewed less than a TTL ago is not reclaimed.\<close>
theorem reap_exact:
  assumes "pool_inv p"
  shows "leases (fst (reap now p)) = filter (\<lambda>l. l_deadline l = Never \<or> (\<exists>t. l_deadline l = At t \<and> now \<le> t)) (leases p)
    \<and> available_devices (fst (reap now p)) = available_devices p
        @ map l_device (filter (\<lambda>l. \<exists>t. l_deadline l = At t \<and> t < now) (leases p))
    \<and> (renew_lease then' d n w p = (p', True) \<and> ttl p = Some t \<and> now \<le> then' + t \<longrightarrow> holds_lease (fst (reap now p')) d n)"
proof -
  have e: "(\<lambda>l. \<not> expired now l) = (\<lambda>l. l_deadline l = Never \<or> (\<exists>t. l_deadline l = At t \<and> now \<le> t))"
      "expired now = (\<lambda>l. \<exists>t. l_deadline l = At t \<and> t < now)"
    by (auto simp: expired_def fun_eq_iff split: deadline.splits)
  have "holds_lease (fst (reap now p')) d n"
    if r: "renew_lease then' d n w p = (p', True)" "ttl p = Some t" "now \<le> then' + t"
  proof -
    from r(1) obtain l where l: "find_lease d (leases p) = Some l" "l_id l = n"
        "p' = p\<lparr>leases := put_lease (l\<lparr>l_deadline := fresh_deadline then' p\<rparr>) (leases p)\<rparr>"
      by (auto simp: renew_lease_def split: option.splits if_splits)
    let ?l = "l\<lparr>l_deadline := fresh_deadline then' p\<rparr>"
    have "?l \<in> set (put_lease ?l ls)" for ls by (induction ls) auto
    moreover have "\<not> expired now ?l" using r(2,3) by (simp add: expired_def fresh_deadline_def)
    ultimately have "?l \<in> set (leases (fst (reap now p')))" by (simp add: reap_def Let_def l(3))
    moreover have "l_device ?l = d \<and> l_id ?l = n" using find_lease_Some [OF l(1)] l(2) by simp
    ultimately show ?thesis unfolding holds_lease_def list_ex_iff by blast
  qed
  then show ?thesis unfolding reap_def Let_def e [symmetric] by (auto simp: reap_def)
qed

subsection \<open>A pool of one device\<close>

definition demo_pool :: "nat \<Rightarrow> lease list \<Rightarrow> int list \<Rightarrow> int list \<Rightarrow> device_pool" where
  "demo_pool n ls free hand = \<lparr>device_list = [0], available_devices = free, in_hand = hand, leases = ls, lease_seq = n,
     ttl = Some 60, reaper = False, reap_interval = None\<rparr>"

definition demo_lease :: "nat \<Rightarrow> lease" where
  "demo_lease n = \<lparr>l_device = 0, l_owner = ''op'', l_id = n, l_deadline = At 60\<rparr>"

lemma demo_init: "init_pool None [0] (Some 60) = Inr (demo_pool 0 [] [0] [])"
  by (simp add: init_pool_def configured_devices_def demo_pool_def Let_def)

lemma demo_dequeue: "pool_step (demo_pool n [] [0] []) (demo_pool n [] [] [0])"
  by (rule Dequeue [of _ _ 0]) (simp add: dequeue_def demo_pool_def)

lemma demo_grant: "pool_step (demo_pool n [] [] [0]) (demo_pool (Suc n) [demo_lease (Suc n)] [] [])"
  using Grant [of 0 "demo_pool n [] [] [0]" 0 "''op''" True]
  by (simp add: grant_def demo_pool_def demo_lease_def has_ttl_def fresh_deadline_def)

lemma demo_acquired: "pool_reachable (demo_pool n [] [0] []) (demo_pool (Suc n) [demo_lease (Suc n)] [] [])"
  unfolding pool_reachable_def
  by (rule converse_rtranclp_into_rtranclp [where r = pool_step, OF demo_dequeue])
     (rule r_into_rtranclp [where r = pool_step, OF demo_grant])

lemma demo_pool_inv: "pool_inv (demo_pool (Suc n) [demo_lease (Suc n)] [] [])"
  by (simp add: pool_inv_def demo_pool_def demo_lease_def held_def)

lemma demo_released: "release_device 0 1 (demo_pool 1 [demo_lease 1] [] []) = (demo_pool 1 [] [0] [], True)"
  by (simp add: release_device_def release_lease_def demo_pool_def demo_lease_def del_lease_def)

theorem pool_conserves_devices_witness:
  "mset (available_devices (demo_pool 1 [demo_lease 1] [] []) @ in_hand (demo_pool 1 [demo_lease 1] [] [])
       @ map fst (leased (demo_pool 1 [demo_lease 1] [] []))) = mset (configured_devices None [0])"
  using pool_conserves_devices [OF demo_init _ demo_acquired [of 0]] by (simp add: configured_devices_def)

theorem release_final_witness:
  "release_device 0 1 (demo_pool 2 [demo_lease 2] [] []) = (demo_pool 2 [demo_lease 2] [] [], False)"
  using release_final [of "demo_pool 1 [demo_lease 1] [] []" 1 0 "demo_pool 2 [demo_lease 2] [] []" 0 None]
    demo_pool_inv [of 0] demo_acquired [of 1] demo_released
  by (simp add: demo_pool_def numeral_2_eq_2)

lemma demo_renewed: "renew_lease 0 0 1 None (demo_pool 1 [demo_lease 1] [] []) = (demo_pool 1 [demo_lease 1] [] [], True)"
  by (simp add: renew_lease_def demo_pool_def demo_lease_def has_ttl_def fresh_deadline_def)

theorem reap_exact_witness:
  "leases (fst (reap 61 (demo_pool 1 [demo_lease 1] [] []))) = []
   \<and> holds_lease (fst (reap 50 (demo_pool 1 [demo_lease 1] [] []))) 0 1"
proof -
  have inv: "pool_inv (demo_pool 1 [demo_lease 1] [] [])" using demo_pool_inv [of 0] by simp
  have "leases (fst (reap 61 (demo_pool 1 [demo_lease 1] [] []))) = []"
    using reap_exact [OF inv, of 61] by (simp add: demo_pool_def demo_lease_def)
  moreover have "holds_lease (fst (reap 50 (demo_pool 1 [demo_lease 1] [] []))) 0 1"
    using reap_exact [OF inv, of 50 0 0 1 None "demo_pool 1 [demo_lease 1] [] []" 60] demo_renewed
    by (simp add: demo_pool_def)
  ultimately show ?thesis ..
qed

end
