(* ===== verification/Worker_Manager.thy ===== *)
theory Worker_Manager
  imports Device_Pool
begin

text \<open>
  \<open>src/op_autoresearch/core/worker/manager.py\<close>: registration and least-loaded selection of
  workers. A worker object is its identity, a number. Every method runs under one lock, so a
  method is one step. The HTTP status probe of a remote worker is an argument: it failed, or
  it returned the device ids the daemon reported.
\<close>

subsection \<open>State and the methods of WorkerManager\<close>

record WorkerInfo =
  worker :: nat
  backend :: string
  arch :: string
  tags :: "string list"
  capacity :: int
  load :: int

type_synonym manager = "WorkerInfo list"

record request =
  rq_backend :: string
  rq_arch :: "string option"
  rq_tags :: "string list"

definition register :: "nat \<Rightarrow> string \<Rightarrow> string \<Rightarrow> string list \<Rightarrow> int \<Rightarrow> manager \<Rightarrow> manager" where
  "register w b a ts cap ws = ws @ [\<lparr>worker = w, backend = b, arch = a, tags = ts, capacity = max 1 cap, load = 0\<rparr>]"

text \<open>The three filters; an absent or empty architecture and an empty tag set do not filter.\<close>

definition matches :: "request \<Rightarrow> WorkerInfo \<Rightarrow> bool" where
  "matches rq info \<longleftrightarrow> backend info = rq_backend rq
     \<and> (case rq_arch rq of None \<Rightarrow> True | Some a \<Rightarrow> a = [] \<or> arch info = a)
     \<and> list_all (\<lambda>t. t \<in> set (tags info)) (rq_tags rq)"

definition load_ratio :: "WorkerInfo \<Rightarrow> real" where
  "load_ratio info = of_int (load info) / of_int (capacity info)"

text \<open>\<open>min(candidates, key=...)\<close>: the first of the least; candidates by position.\<close>

fun first_min :: "(nat \<Rightarrow> real) \<Rightarrow> nat \<Rightarrow> nat list \<Rightarrow> nat" where
  "first_min f b [] = b"
| "first_min f b (i # is) = first_min f (if f i < f b then i else b) is"

definition candidates :: "request \<Rightarrow> manager \<Rightarrow> nat list" where
  "candidates rq ws = filter (\<lambda>i. matches rq (ws ! i)) [0..<length ws]"

definition add_load :: "int \<Rightarrow> WorkerInfo \<Rightarrow> WorkerInfo" where
  "add_load k info = info\<lparr>load := load info + k\<rparr>"

definition select :: "request \<Rightarrow> manager \<Rightarrow> manager \<times> nat option" where
  "select rq ws = (case candidates rq ws of
      [] \<Rightarrow> (ws, None)
    | c # cs \<Rightarrow> let i = first_min (\<lambda>i. load_ratio (ws ! i)) c cs
               in (ws[i := add_load 1 (ws ! i)], Some (worker (ws ! i))))"

fun update_first :: "nat \<Rightarrow> (WorkerInfo \<Rightarrow> WorkerInfo) \<Rightarrow> manager \<Rightarrow> manager \<times> bool" where
  "update_first w f [] = ([], False)"
| "update_first w f (info # ws) =
     (if worker info = w then (f info # ws, True)
      else (case update_first w f ws of (ws', ok) \<Rightarrow> (info # ws', ok)))"

definition reserve :: "nat \<Rightarrow> manager \<Rightarrow> manager \<times> bool" where
  "reserve w ws = update_first w (add_load 1) ws"

definition has_worker :: "request \<Rightarrow> manager \<Rightarrow> bool" where
  "has_worker rq ws = list_ex (matches rq) ws"

definition list_matching :: "request \<Rightarrow> manager \<Rightarrow> nat list" where
  "list_matching rq ws = map worker (filter (matches rq) ws)"

definition lower_load :: "WorkerInfo \<Rightarrow> WorkerInfo" where
  "lower_load info = info\<lparr>load := max 0 (load info - 1)\<rparr>"

definition release :: "nat \<Rightarrow> manager \<Rightarrow> manager \<times> bool" where
  "release w ws = update_first w lower_load ws"

definition get_status :: "manager \<Rightarrow> (string \<times> string \<times> int \<times> int \<times> string list) list" where
  "get_status ws = map (\<lambda>i. (backend i, arch i, load i, capacity i, tags i)) ws"

subsection \<open>Registration of local and remote workers\<close>

datatype probe = ProbeFailed | Reported "int list"

datatype register_error =
    PoolError pool_error
  | NoWorkerUrl
  | Unverified
  | EmptyReport
  | DeviceMismatch
  | NoWorkerAvailable

text \<open>The new worker's identity is an argument; a local worker comes with its pool.\<close>

definition register_local_worker ::
    "nat \<Rightarrow> string option \<Rightarrow> int list \<Rightarrow> string \<Rightarrow> string \<Rightarrow> string list \<Rightarrow> manager \<Rightarrow> register_error + manager \<times> device_pool" where
  "register_local_worker w env devs b a ts ws = (case init_pool env devs None of
      Inl e \<Rightarrow> Inl (PoolError e)
    | Inr pool \<Rightarrow> Inr (register w b a ts (int (length devs)) ws, pool))"

text \<open>The verification of the probe against the expected devices; an empty or absent list expects nothing.\<close>

definition remote_devices :: "probe \<Rightarrow> int list \<Rightarrow> register_error + int list" where
  "remote_devices pr expected =
     (let remote = (case pr of ProbeFailed \<Rightarrow> [] | Reported ds \<Rightarrow> ds)
      in if expected = [] then Inr remote
         else if pr = ProbeFailed then Inl Unverified
         else if remote = [] then Inl EmptyReport
         else if list_ex (\<lambda>d. d \<in> set expected) remote then Inr remote
         else Inl DeviceMismatch)"

definition remote_capacity :: "int option \<Rightarrow> probe \<Rightarrow> int list \<Rightarrow> register_error + int" where
  "remote_capacity cap pr expected = (case (cap, expected) of
      (Some c, []) \<Rightarrow> Inr c
    | (_, _) \<Rightarrow> (case remote_devices pr expected of
          Inl e \<Rightarrow> Inl e
        | Inr ds \<Rightarrow> Inr (case cap of Some c \<Rightarrow> c | None \<Rightarrow> if ds \<noteq> [] then int (length ds) else 1)))"

definition register_remote_worker ::
    "nat \<Rightarrow> string \<Rightarrow> string \<Rightarrow> string option \<Rightarrow> string option \<Rightarrow> int option \<Rightarrow> string list \<Rightarrow> int list \<Rightarrow> probe
      \<Rightarrow> manager \<Rightarrow> register_error + manager \<times> string" where
  "register_remote_worker w b a worker_url env_url cap ts expected pr ws =
     (case (case worker_url of Some u \<Rightarrow> Some u | None \<Rightarrow> env_url) of
        None \<Rightarrow> Inl NoWorkerUrl
      | Some url \<Rightarrow> (case remote_capacity cap pr expected of
            Inl e \<Rightarrow> Inl e
          | Inr c \<Rightarrow> Inr (register w b a ts (max 1 c) ws, url)))"

datatype registered = Remote string | Local device_pool

definition truthy_url :: "string option \<Rightarrow> string option" where
  "truthy_url u = (case u of Some s \<Rightarrow> if s = [] then None else Some s | None \<Rightarrow> None)"

definition register_worker ::
    "nat \<Rightarrow> string \<Rightarrow> string \<Rightarrow> int list \<Rightarrow> string option \<Rightarrow> string option \<Rightarrow> string option \<Rightarrow> string list \<Rightarrow> probe
      \<Rightarrow> manager \<Rightarrow> register_error + manager \<times> registered" where
  "register_worker w b a devs worker_url env_url env_devs ts pr ws =
     (case (case truthy_url worker_url of Some u \<Rightarrow> Some u | None \<Rightarrow> truthy_url env_url) of
        Some url \<Rightarrow>
          (case register_remote_worker w b a (Some url) env_url None ts devs pr ws of
             Inl e \<Rightarrow> Inl e | Inr (ws', u) \<Rightarrow> Inr (ws', Remote u))
      | None \<Rightarrow>
          if devs \<noteq> [] then
            (case register_local_worker w env_devs devs b a ts ws of
               Inl e \<Rightarrow> Inl e | Inr (ws', pool) \<Rightarrow> Inr (ws', Local pool))
          else Inl NoWorkerAvailable)"

subsection \<open>Selection\<close>

lemma first_min_spec:
  "first_min f b is \<in> insert b (set is) \<and> (\<forall>j \<in> insert b (set is). f (first_min f b is) \<le> f j)"
proof (induction "is" arbitrary: b)
  case (Cons i "is")
  from Cons [of "if f i < f b then i else b"] show ?case by (auto split: if_splits)
qed simp

lemma candidates_iff: "i \<in> set (candidates rq ws) \<longleftrightarrow> i < length ws \<and> matches rq (ws ! i)"
  by (auto simp: candidates_def)

lemma select_None: "candidates rq ws = [] \<longleftrightarrow> \<not> has_worker rq ws"
  by (auto simp: candidates_def has_worker_def list_ex_iff filter_empty_conv all_set_conv_all_nth)

lemma selectE:
  assumes "select rq ws = (ws', Some w)"
  obtains i where "i < length ws" "matches rq (ws ! i)" "w = worker (ws ! i)" "ws' = ws[i := add_load 1 (ws ! i)]"
    "\<forall>j < length ws. matches rq (ws ! j) \<longrightarrow> load_ratio (ws ! i) \<le> load_ratio (ws ! j)"
proof -
  from assms obtain c cs where c: "candidates rq ws = c # cs" by (cases "candidates rq ws") (auto simp: select_def)
  define i where "i = first_min (\<lambda>i. load_ratio (ws ! i)) c cs"
  have set: "set (candidates rq ws) = insert c (set cs)" using c by simp
  have i: "i \<in> set (candidates rq ws)" "\<forall>j \<in> set (candidates rq ws). load_ratio (ws ! i) \<le> load_ratio (ws ! j)"
    using first_min_spec [of "\<lambda>i. load_ratio (ws ! i)" c cs] unfolding set i_def by auto
  have "ws' = ws[i := add_load 1 (ws ! i)]" "w = worker (ws ! i)"
    using assms c by (auto simp: select_def i_def Let_def)
  with i show thesis using that by (auto simp: candidates_iff)
qed

text \<open>Selection is least-loaded: \<open>select\<close> answers nobody exactly when \<open>has_worker\<close> says no, and then
  changes nothing; otherwise the worker it returns matches the request, no matching worker has a smaller load per
  capacity, its load goes up by one and no other entry changes.\<close>
theorem select_least_loaded:
  "(snd (select rq ws) = None \<longleftrightarrow> \<not> has_worker rq ws) \<and> (snd (select rq ws) = None \<longrightarrow> fst (select rq ws) = ws)
   \<and> (\<forall>w. snd (select rq ws) = Some w \<longrightarrow> (\<exists>i < length ws. matches rq (ws ! i) \<and> worker (ws ! i) = w
        \<and> fst (select rq ws) = ws[i := (ws ! i)\<lparr>load := load (ws ! i) + 1\<rparr>]
        \<and> (\<forall>j < length ws. matches rq (ws ! j) \<longrightarrow> load_ratio (ws ! i) \<le> load_ratio (ws ! j))))"
proof -
  have "snd (select rq ws) = None \<longleftrightarrow> candidates rq ws = []" "candidates rq ws = [] \<Longrightarrow> fst (select rq ws) = ws"
    by (auto simp: select_def Let_def split: list.splits)
  moreover have "\<exists>i < length ws. matches rq (ws ! i) \<and> worker (ws ! i) = w
        \<and> fst (select rq ws) = ws[i := (ws ! i)\<lparr>load := load (ws ! i) + 1\<rparr>]
        \<and> (\<forall>j < length ws. matches rq (ws ! j) \<longrightarrow> load_ratio (ws ! i) \<le> load_ratio (ws ! j))"
    if w: "snd (select rq ws) = Some w" for w
  proof -
    have "select rq ws = (fst (select rq ws), Some w)" using w by (metis prod.collapse)
    from selectE [OF this] show ?thesis by (metis add_load_def)
  qed
  ultimately show ?thesis using select_None by blast
qed

subsection \<open>Load accounting\<close>

text \<open>
  The manager beside the multiset of jobs in flight, one element per worker handed out and not
  yet given back. A client gives back what it holds; a worker object is registered once.
\<close>

inductive mgr_step :: "manager \<times> nat multiset \<Rightarrow> manager \<times> nat multiset \<Rightarrow> bool" where
  Register: "w \<notin> worker ` set ws \<Longrightarrow> mgr_step (ws, out) (register w b a ts cap ws, out)"
| Select: "select rq ws = (ws', Some w) \<Longrightarrow> mgr_step (ws, out) (ws', add_mset w out)"
| SelectNone: "select rq ws = (ws', None) \<Longrightarrow> mgr_step (ws, out) (ws', out)"
| Reserve: "reserve w ws = (ws', True) \<Longrightarrow> mgr_step (ws, out) (ws', add_mset w out)"
| GiveBack: "w \<in># out \<Longrightarrow> release w ws = (ws', ok) \<Longrightarrow> mgr_step (ws, out) (ws', out - {#w#})"

definition mgr_inv :: "manager \<times> nat multiset \<Rightarrow> bool" where
  "mgr_inv s \<longleftrightarrow> (case s of (ws, out) \<Rightarrow> distinct (map worker ws) \<and> set_mset out \<subseteq> worker ` set ws
     \<and> list_all (\<lambda>i. load i = int (count out (worker i)) \<and> 1 \<le> capacity i) ws)"

lemma update_first_eq:
  assumes "distinct (map worker ws)" and "\<And>i. worker (f i) = worker i"
  shows "update_first w f ws = (map (\<lambda>i. if worker i = w then f i else i) ws, w \<in> worker ` set ws)"
  using assms(1)
proof (induction ws)
  case (Cons i ws)
  show ?case
  proof (cases "worker i = w")
    case True
    then have "\<forall>j \<in> set ws. worker j \<noteq> w" using Cons(2) by (metis distinct.simps(2) image_eqI list.map(2) set_map)
    then have "map (\<lambda>j. if worker j = w then f j else j) ws = ws" by (intro map_idI) auto
    with True show ?thesis by simp
  qed (use Cons in \<open>auto split: prod.splits\<close>)
qed simp

lemma list_update_by_worker:
  assumes "distinct (map worker ws)" and "i < length ws"
  shows "ws[i := f (ws ! i)] = map (\<lambda>x. if worker x = worker (ws ! i) then f x else x) ws"
proof (rule nth_equalityI)
  fix j assume "j < length (ws[i := f (ws ! i)])"
  then show "ws[i := f (ws ! i)] ! j = map (\<lambda>x. if worker x = worker (ws ! i) then f x else x) ws ! j"
    using assms nth_eq_iff_index_eq [OF assms(1), of i j] by (auto simp: nth_list_update)
qed simp

lemma add_load_fields [simp]: "worker (add_load k i) = worker i" "load (add_load k i) = load i + k" "capacity (add_load k i) = capacity i"
  by (simp_all add: add_load_def)

lemma lower_load_fields [simp]: "worker (lower_load i) = worker i" "load (lower_load i) = max 0 (load i - 1)"
  "capacity (lower_load i) = capacity i"
  by (simp_all add: lower_load_def)

lemma mgr_inv_map:
  assumes "mgr_inv (ws, out)" and "\<And>i. worker (f i) = worker i" and "\<And>i. capacity (f i) = capacity i"
    and "set_mset out' \<subseteq> worker ` set ws"
    and "\<And>i. i \<in> set ws \<Longrightarrow> load (f i) = int (count out' (worker i))"
  shows "mgr_inv (map f ws, out')"
proof -
  have "map worker (map f ws) = map worker ws" "worker ` set (map f ws) = worker ` set ws"
    using assms(2) by (simp_all add: image_image)
  then show ?thesis using assms by (simp add: mgr_inv_def list_all_iff del: map_map)
qed

lemma mgr_inv_flight: "mgr_inv (ws, out) \<Longrightarrow> set_mset out \<subseteq> worker ` set ws"
  by (simp add: mgr_inv_def)

lemma mgr_inv_load: "mgr_inv (ws, out) \<Longrightarrow> i \<in> set ws \<Longrightarrow> load i = int (count out (worker i))"
  by (simp add: mgr_inv_def list_all_iff)

lemma mgr_step_inv: "mgr_step s t \<Longrightarrow> mgr_inv s \<Longrightarrow> mgr_inv t"
proof (induction rule: mgr_step.induct)
  case (Register w ws out b a ts cap)
  then have "count out w = 0" by (auto simp: mgr_inv_def count_eq_zero_iff)
  with Register show ?case by (auto simp: mgr_inv_def register_def list_all_iff)
next
  case (Select rq ws ws' w out)
  from Select(1) obtain i where i: "i < length ws" "w = worker (ws ! i)" "ws' = ws[i := add_load 1 (ws ! i)]"
    by (elim selectE)
  have "ws' = map (\<lambda>x. if worker x = w then add_load 1 x else x) ws"
    using list_update_by_worker [of ws i "add_load 1"] Select(2) i by (simp add: mgr_inv_def)
  moreover have "w \<in> worker ` set ws" using i by simp
  ultimately show ?case using mgr_inv_load [OF Select(2)] mgr_inv_flight [OF Select(2)]
    by (simp only:) (rule mgr_inv_map [OF Select(2)], auto)
next
  case (SelectNone rq ws ws' out)
  then show ?case by (auto simp: select_def Let_def split: list.splits)
next
  case (Reserve w ws ws' out)
  have "ws' = map (\<lambda>x. if worker x = w then add_load 1 x else x) ws" "w \<in> worker ` set ws"
    using Reserve update_first_eq [of ws "add_load 1" w] by (auto simp: reserve_def mgr_inv_def)
  then show ?case using mgr_inv_load [OF Reserve(2)] mgr_inv_flight [OF Reserve(2)]
    by (simp only:) (rule mgr_inv_map [OF Reserve(2)], auto)
next
  case (GiveBack w out ws ws' ok)
  have "ws' = map (\<lambda>x. if worker x = w then lower_load x else x) ws"
    using GiveBack update_first_eq [of ws lower_load w] by (auto simp: release_def mgr_inv_def)
  moreover have "0 < count out w" using GiveBack(1) by simp
  ultimately show ?case using mgr_inv_load [OF GiveBack(3)] mgr_inv_flight [OF GiveBack(3)]
    by (simp only:) (rule mgr_inv_map [OF GiveBack(3)], auto simp: of_nat_diff dest: in_diffD)
qed

text \<open>C32. The load counters count the jobs in flight: in every state the manager reaches from an empty one by
  registrations, selections, reservations and returns of handed-out workers, the load of each worker is the number
  of its jobs in flight, its capacity is at least one, and a worker that is in flight is registered.\<close>
theorem load_counts_jobs:
  assumes "mgr_step\<^sup>*\<^sup>* ([], {#}) (ws, out)"
  shows "list_all (\<lambda>i. load i = int (count out (worker i)) \<and> 1 \<le> capacity i) ws \<and> set_mset out \<subseteq> worker ` set ws"
proof -
  have "mgr_inv (ws, out)"
    using assms by (induction rule: rtranclp_induct) (auto simp: mgr_inv_def [of "([], {#})"] dest: mgr_step_inv)
  then show ?thesis by (simp add: mgr_inv_def)
qed

subsection \<open>Registration\<close>

text \<open>A task is never bound to a daemon that lacks its devices: when \<open>register_worker\<close> registers a remote
  worker for expected devices, the probe succeeded and reported one of them; a worker is added only on success, with
  a capacity of at least one.\<close>
theorem register_worker_verified:
  assumes "register_worker w b a devs worker_url env_url env_devs ts pr ws = Inr (ws', r)"
  shows "\<exists>cap \<ge> 1. ws' = ws @ [\<lparr>worker = w, backend = b, arch = a, tags = ts, capacity = cap, load = 0\<rparr>]
    \<and> (case r of
         Remote url \<Rightarrow> url \<noteq> [] \<and> (devs \<noteq> [] \<longrightarrow> (\<exists>ds d. pr = Reported ds \<and> d \<in> set ds \<and> d \<in> set devs))
       | Local pool \<Rightarrow> device_list pool = configured_devices env_devs devs \<and> device_list pool \<noteq> [])"
proof (cases "case truthy_url worker_url of Some u \<Rightarrow> Some u | None \<Rightarrow> truthy_url env_url")
  case None
  then show ?thesis using assms
    by (auto simp: register_worker_def register_local_worker_def register_def init_pool_def Let_def
        split: if_splits sum.splits)
next
  case (Some url)
  then have "url \<noteq> []" by (auto simp: truthy_url_def split: option.splits if_splits)
  with Some show ?thesis using assms
    by (auto simp: register_worker_def register_remote_worker_def remote_capacity_def remote_devices_def register_def Let_def
        list_ex_iff split: if_splits sum.splits option.splits list.splits probe.splits)
qed

subsection \<open>Two workers\<close>

definition demo_workers :: manager where
  "demo_workers = register 2 ''cuda'' ''a100'' [] 4 (register 1 ''cuda'' ''a100'' [] 1 [])"

definition demo_request :: request where
  "demo_request = \<lparr>rq_backend = ''cuda'', rq_arch = None, rq_tags = []\<rparr>"

definition busy_workers :: manager where
  "busy_workers = fst (select demo_request demo_workers)"

lemma demo_selects:
  "select demo_request demo_workers = (busy_workers, Some 1)"
  "snd (select demo_request busy_workers) = Some 2"
  by (simp_all add: busy_workers_def select_def candidates_def demo_workers_def register_def demo_request_def matches_def
      load_ratio_def add_load_def Let_def upt_rec nth_Cons')

theorem select_least_loaded_witness:
  "\<exists>i < length busy_workers. worker (busy_workers ! i) = 2
     \<and> (\<forall>j < length busy_workers. matches demo_request (busy_workers ! j) \<longrightarrow>
          load_ratio (busy_workers ! i) \<le> load_ratio (busy_workers ! j))"
  using select_least_loaded [of demo_request busy_workers] demo_selects(2) by blast

theorem load_counts_jobs_witness:
  "list_all (\<lambda>i. load i = int (count {#1#} (worker i)) \<and> 1 \<le> capacity i) busy_workers"
proof -
  have 1: "mgr_step ([], {#}) (register 1 ''cuda'' ''a100'' [] 1 [], {#})" by (rule Register) simp
  have 2: "mgr_step (register 1 ''cuda'' ''a100'' [] 1 [], {#}) (demo_workers, {#})"
    unfolding demo_workers_def by (rule Register) (simp add: register_def)
  have 3: "mgr_step (demo_workers, {#}) (busy_workers, {#1#})" using demo_selects(1) by (rule Select)
  have "mgr_step\<^sup>*\<^sup>* ([], {#}) (busy_workers, {#1#})"
    by (rule rtranclp.rtrancl_into_rtrancl [where r = mgr_step, OF rtranclp.rtrancl_into_rtrancl [where r = mgr_step,
          OF r_into_rtranclp [where r = mgr_step, OF 1] 2] 3])
  from load_counts_jobs [OF this] show ?thesis by simp
qed

theorem register_worker_verified_witness:
  "\<exists>ws' cap. register_worker 1 ''cuda'' ''a100'' [0] (Some ''http://h'') None None [] (Reported [0, 1]) [] = Inr (ws', Remote ''http://h'')
     \<and> 1 \<le> cap \<and> ws' = [\<lparr>worker = 1, backend = ''cuda'', arch = ''a100'', tags = [], capacity = cap, load = 0\<rparr>]"
proof -
  obtain ws' where "register_worker 1 ''cuda'' ''a100'' [0] (Some ''http://h'') None None [] (Reported [0, 1]) []
      = Inr (ws', Remote ''http://h'')"
    by (simp add: register_worker_def register_remote_worker_def remote_capacity_def remote_devices_def truthy_url_def Let_def)
  with register_worker_verified [OF this] show ?thesis by auto
qed

end
