(* ===== verification/Profile_Plan.thy ===== *)
theory Profile_Plan
  imports Py_Value
begin

text \<open>
  \<open>scripts/utils/profile_plan.py\<close>: sizing one profile run from the per-shape wall times
  measured during verification. Wall times are microseconds, the budget is seconds.
\<close>

record profile_settings =
  override_base_section :: "dict option"
  skip_base_profile :: bool
  run_times :: "int option"

record ProfilePlan =
  settings :: profile_settings
  too_slow :: "(real \<times> real) option"

definition empty_settings :: profile_settings where
  "empty_settings = \<lparr>override_base_section = None, skip_base_profile = False, run_times = None\<rparr>"

text \<open>\<open>_fit\<close>, called for a non-zero estimate only.\<close>

definition fit :: "real \<Rightarrow> int \<Rightarrow> real \<Rightarrow> int" where
  "fit budget_s warmup est_us = \<lfloor>budget_s / (est_us / 1000000)\<rfloor> - (1 + warmup)"

definition max_wall :: "real list \<Rightarrow> real" where
  "max_wall ws = (if ws = [] then 0 else Max (set ws))"

definition plan_profile ::
    "real list \<Rightarrow> real list \<Rightarrow> real option \<Rightarrow> int \<Rightarrow> int \<Rightarrow> dict option \<Rightarrow> bool \<Rightarrow> ProfilePlan" where
  "plan_profile ref_walls impl_walls eval_timeout warmup repeats sticky_section base_only =
     (let budget_s = (case eval_timeout of None \<Rightarrow> 0 | Some t \<Rightarrow> t)
      in if budget_s \<le> 0 \<or> (ref_walls = [] \<and> impl_walls = [])
         then \<lparr>settings = empty_settings, too_slow = None\<rparr>
         else
           let max_impl = (if impl_walls \<noteq> [] \<and> \<not> base_only then max_wall impl_walls else 0)
           in if max_impl \<noteq> 0 \<and> fit budget_s warmup max_impl < 1
              then \<lparr>settings = empty_settings, too_slow = Some (max_impl, budget_s)\<rparr>
              else
                let max_ref = max_wall ref_walls;
                    s0 = (if base_only then empty_settings
                          else case sticky_section of
                                 Some d \<Rightarrow> empty_settings\<lparr>override_base_section := Some d,
                                                         skip_base_profile := True\<rparr>
                               | None \<Rightarrow> if max_ref \<noteq> 0 \<and> fit budget_s warmup max_ref < 1
                                         then empty_settings\<lparr>skip_base_profile := True\<rparr>
                                         else empty_settings);
                    base_profiled = (\<not> skip_base_profile s0);
                    binding = max max_impl (if base_profiled then max_ref else 0);
                    run_eff = max 1 (min repeats (fit budget_s warmup binding))
                in \<lparr>settings = (if binding \<noteq> 0 \<and> run_eff < repeats
                                then s0\<lparr>run_times := Some run_eff\<rparr> else s0),
                    too_slow = None\<rparr>)"

text \<open>The number of timed runs the verifier performs, and the walls of the sides it profiles.\<close>

definition effective_runs :: "ProfilePlan \<Rightarrow> int \<Rightarrow> int" where
  "effective_runs p repeats = (case run_times (settings p) of None \<Rightarrow> repeats | Some n \<Rightarrow> n)"

definition profiled_walls :: "ProfilePlan \<Rightarrow> real list \<Rightarrow> real list \<Rightarrow> real list" where
  "profiled_walls p ref_walls impl_walls =
     impl_walls @ (if skip_base_profile (settings p) then [] else ref_walls)"

text \<open>Seconds that one sync call, the warm-up and \<open>n\<close> timed runs of a wall \<open>w\<close> take.\<close>

definition run_seconds :: "int \<Rightarrow> int \<Rightarrow> real \<Rightarrow> real" where
  "run_seconds warmup n w = real_of_int (1 + warmup + n) * (w / 1000000)"

subsection \<open>The fit\<close>

lemma fit_ge_iff:
  assumes "0 < est"
  shows "n \<le> fit budget warmup est \<longleftrightarrow> run_seconds warmup n est \<le> budget"
proof -
  have "n \<le> fit budget warmup est \<longleftrightarrow> n + (1 + warmup) \<le> \<lfloor>budget / (est / 1000000)\<rfloor>"
    by (simp only: fit_def le_diff_eq)
  also have "\<dots> \<longleftrightarrow> real_of_int (n + (1 + warmup)) \<le> budget / (est / 1000000)"
    by (simp only: le_floor_iff)
  also have "\<dots> \<longleftrightarrow> run_seconds warmup n est \<le> budget"
    using assms by (simp add: run_seconds_def field_simps)
  finally show ?thesis .
qed

lemma max_wall_Nil [simp]: "max_wall [] = 0"
  by (simp add: max_wall_def)

lemma max_wall_ge: "w \<in> set ws \<Longrightarrow> w \<le> max_wall ws"
  by (auto simp: max_wall_def intro: Max_ge)

lemma max_wall_nonneg: "list_all (\<lambda>w. 0 \<le> w) ws \<Longrightarrow> 0 \<le> max_wall ws"
  using Max_in [of "set ws"] by (auto simp: max_wall_def list_all_iff)

lemma max_wall_in: "max_wall ws \<noteq> 0 \<Longrightarrow> max_wall ws \<in> set ws"
  using Max_in [of "set ws"] by (auto simp: max_wall_def split: if_splits)

lemma run_seconds_mono:
  "w \<le> w' \<Longrightarrow> 0 \<le> warmup \<Longrightarrow> 1 \<le> n \<Longrightarrow> run_seconds warmup n w \<le> run_seconds warmup n w'"
  unfolding run_seconds_def by (intro mult_left_mono) auto

lemma max_wall_append:
  assumes "list_all (\<lambda>w. 0 \<le> w) xs" and "list_all (\<lambda>w. 0 \<le> w) ys"
  shows "max_wall (xs @ ys) = max (max_wall xs) (max_wall ys)"
proof (cases "xs = [] \<or> ys = []")
  case True
  then show ?thesis using max_wall_nonneg [OF assms(1)] max_wall_nonneg [OF assms(2)]
    by (auto simp: max_absorb1 max_absorb2)
next
  case False
  then show ?thesis by (simp add: max_wall_def Max_Un)
qed

text \<open>
  The whole decision for a round that profiles kernel and reference (\<open>base_only\<close> off):
  the binding wall is the slowest side profiled and the runs are the largest that fit.
\<close>

lemma plan_profile_cases:
  assumes "0 < budget" and "ref_walls \<noteq> [] \<or> impl_walls \<noteq> []"
    and "list_all (\<lambda>w. 0 \<le> w) ref_walls" and "list_all (\<lambda>w. 0 \<le> w) impl_walls"
    and p: "p = plan_profile ref_walls impl_walls (Some budget) warmup repeats sticky False"
    and "too_slow p = None" and "1 \<le> repeats"
  obtains "binding" where "binding = max_wall (profiled_walls p ref_walls impl_walls)"
    and "effective_runs p repeats =
           (if binding = 0 then repeats else min repeats (fit budget warmup binding))"
    and "binding \<noteq> 0 \<Longrightarrow> 1 \<le> fit budget warmup binding"
proof -
  let ?mi = "max_wall impl_walls" and ?mr = "max_wall ref_walls"
  let ?b = "max_wall (profiled_walls p ref_walls impl_walls)"
  have nn: "0 \<le> ?mi" "0 \<le> ?mr" using assms by (simp_all add: max_wall_nonneg)
  have mi: "(if impl_walls \<noteq> [] then ?mi else 0) = ?mi" by (simp add: max_wall_def)
  have nslow: "\<not> (?mi \<noteq> 0 \<and> fit budget warmup ?mi < 1)"
    using assms(1,2,6) unfolding p plan_profile_def Let_def by (auto simp: mi split: if_splits)
  define s0 where "s0 = (case sticky of
      Some d \<Rightarrow> empty_settings\<lparr>override_base_section := Some d, skip_base_profile := True\<rparr>
    | None \<Rightarrow> if ?mr \<noteq> 0 \<and> fit budget warmup ?mr < 1
              then empty_settings\<lparr>skip_base_profile := True\<rparr> else empty_settings)"
  define skip where "skip = skip_base_profile s0"
  define B where "B = max ?mi (if skip then 0 else ?mr)"
  define R where "R = max 1 (min repeats (fit budget warmup B))"
  have s0: "run_times s0 = None" by (simp add: s0_def empty_settings_def split: option.splits)
  have skip: "?mr \<noteq> 0 \<Longrightarrow> \<not> skip \<Longrightarrow> 1 \<le> fit budget warmup ?mr"
    by (auto simp: skip_def s0_def split: option.splits if_splits)
  have cond: "\<not> (budget \<le> 0 \<or> ref_walls = [] \<and> impl_walls = [])" using assms(1,2) by auto
  have bp: "(if \<not> skip then ?mr else 0) = (if skip then 0 else ?mr)" by simp
  have peq: "p = \<lparr>settings = (if B \<noteq> 0 \<and> R < repeats then s0\<lparr>run_times := Some R\<rparr> else s0),
                 too_slow = None\<rparr>"
    unfolding p plan_profile_def Let_def option.case if_not_P [OF cond] simp_thms if_False if_True mi
      if_not_P [OF nslow] s0_def [symmetric] skip_def [symmetric] bp B_def [symmetric] R_def [symmetric]
    by (rule TrueI)
  have sk: "skip_base_profile (settings p) = skip" by (simp add: peq skip_def)
  have be: "?b = B"
    using nn assms(3,4) unfolding B_def by (simp add: profiled_walls_def sk max_wall_append max_absorb1)
  have fit1: "1 \<le> fit budget warmup ?b" if "?b \<noteq> 0"
    using that nslow skip unfolding be B_def by (auto simp: max_def split: if_splits)
  have "effective_runs p repeats = (if B \<noteq> 0 \<and> R < repeats then R else repeats)"
    by (simp add: effective_runs_def peq s0)
  with fit1 have "effective_runs p repeats =
      (if ?b = 0 then repeats else min repeats (fit budget warmup ?b))"
    using assms(7) unfolding be R_def by auto
  from that [OF refl this fit1] show thesis .
qed

subsection \<open>Properties\<close>

text \<open>
  Budget of a profile run: unless the plan declares the kernel too slow, the number of
  timed runs is between one and the configured repeats, every wall of a side that is actually
  profiled fits the budget with it, and when it was reduced below the configured repeats one
  more run would exceed the budget on some profiled wall. The plan declares the kernel too
  slow iff a single timed run of its slowest shape does not fit.
\<close>

theorem plan_profile_budget:
  assumes "0 < budget" and "ref_walls \<noteq> [] \<or> impl_walls \<noteq> []"
    and "list_all (\<lambda>w. 0 \<le> w) ref_walls" and "list_all (\<lambda>w. 0 \<le> w) impl_walls"
    and "0 \<le> warmup" and "1 \<le> repeats"
    and p: "p = plan_profile ref_walls impl_walls (Some budget) warmup repeats sticky False"
  shows "(too_slow p \<noteq> None \<longleftrightarrow> list_ex (\<lambda>w. 0 < w \<and> budget < run_seconds warmup 1 w) impl_walls)
     \<and> (too_slow p = None \<longrightarrow>
          1 \<le> effective_runs p repeats \<and> effective_runs p repeats \<le> repeats
        \<and> list_all (\<lambda>w. run_seconds warmup (effective_runs p repeats) w \<le> budget)
            (profiled_walls p ref_walls impl_walls)
        \<and> (effective_runs p repeats < repeats \<longrightarrow>
             list_ex (\<lambda>w. budget < run_seconds warmup (effective_runs p repeats + 1) w)
               (profiled_walls p ref_walls impl_walls)))"
proof -
  let ?mi = "max_wall impl_walls"
  have mi: "(if impl_walls \<noteq> [] then ?mi else 0) = ?mi" by (simp add: max_wall_def)
  have nn: "0 \<le> ?mi" using assms(4) by (rule max_wall_nonneg)
  have "too_slow p \<noteq> None \<longleftrightarrow> ?mi \<noteq> 0 \<and> fit budget warmup ?mi < 1"
    using assms(1,2) unfolding p plan_profile_def Let_def by (auto simp: mi)
  also have "\<dots> \<longleftrightarrow> 0 < ?mi \<and> budget < run_seconds warmup 1 ?mi"
    using nn fit_ge_iff [of ?mi 1 budget warmup] by auto
  also have "\<dots> \<longleftrightarrow> list_ex (\<lambda>w. 0 < w \<and> budget < run_seconds warmup 1 w) impl_walls"
  proof
    assume "0 < ?mi \<and> budget < run_seconds warmup 1 ?mi"
    with max_wall_in [of impl_walls] show "list_ex (\<lambda>w. 0 < w \<and> budget < run_seconds warmup 1 w) impl_walls"
      by (auto simp: list_ex_iff)
  next
    assume "list_ex (\<lambda>w. 0 < w \<and> budget < run_seconds warmup 1 w) impl_walls"
    then obtain w where w: "w \<in> set impl_walls" "0 < w" "budget < run_seconds warmup 1 w"
      by (auto simp: list_ex_iff)
    with run_seconds_mono [OF max_wall_ge [OF w(1)] assms(5), of 1] max_wall_ge [OF w(1)]
    show "0 < ?mi \<and> budget < run_seconds warmup 1 ?mi" by simp
  qed
  finally have slow: "too_slow p \<noteq> None \<longleftrightarrow> list_ex (\<lambda>w. 0 < w \<and> budget < run_seconds warmup 1 w) impl_walls" .
  let ?n = "effective_runs p repeats" and ?ws = "profiled_walls p ref_walls impl_walls"
  have ok: "1 \<le> ?n \<and> ?n \<le> repeats \<and> list_all (\<lambda>w. run_seconds warmup ?n w \<le> budget) ?ws
      \<and> (?n < repeats \<longrightarrow> list_ex (\<lambda>w. budget < run_seconds warmup (?n + 1) w) ?ws)"
    if ts: "too_slow p = None"
  proof -
    obtain b where b: "b = max_wall ?ws"
        "?n = (if b = 0 then repeats else min repeats (fit budget warmup b))"
        "b \<noteq> 0 \<Longrightarrow> 1 \<le> fit budget warmup b"
      using plan_profile_cases [OF assms(1-4) p ts assms(6)] by blast
    have wnn: "list_all (\<lambda>w. 0 \<le> w) ?ws" using assms(3,4) by (simp add: profiled_walls_def)
    then have bnn: "0 \<le> b" unfolding b(1) by (rule max_wall_nonneg)
    have n1: "1 \<le> ?n" using b(2,3) assms(6) by auto
    have fits: "run_seconds warmup ?n b \<le> budget"
      using b(2) bnn fit_ge_iff [of b ?n budget warmup] assms(1)
      by (cases "b = 0") (auto simp: run_seconds_def)
    have more: "budget < run_seconds warmup (?n + 1) b \<and> b \<in> set ?ws" if "?n < repeats"
      using that b(1,2) bnn fit_ge_iff [of b "?n + 1" budget warmup] max_wall_in [of ?ws]
      by (auto split: if_splits)
    have "run_seconds warmup ?n w \<le> budget" if "w \<in> set ?ws" for w
      using run_seconds_mono [OF max_wall_ge [OF that] assms(5) n1] fits b(1) by simp
    moreover have "?n \<le> repeats" using b(2) by simp
    ultimately show ?thesis using n1 more unfolding list_all_iff list_ex_iff by blast
  qed
  show ?thesis using slow ok by blast
qed

theorem plan_profile_budget_witness:
  "run_times (settings (plan_profile [4000000] [1000000] (Some 10) 2 100 None False)) = Some 7
   \<and> run_seconds 2 7 1000000 \<le> 10 \<and> 10 < run_seconds 2 8 1000000"
proof -
  let ?p = "plan_profile [4000000] [1000000] (Some 10) 2 100 None False"
  have e: "run_times (settings ?p) = Some 7" "skip_base_profile (settings ?p)" "too_slow ?p = None"
    by (simp_all add: plan_profile_def fit_def max_wall_def empty_settings_def)
  show ?thesis
    using plan_profile_budget [of 10 "[4000000]" "[1000000]" 2 100 ?p None] e
    by (simp add: effective_runs_def profiled_walls_def)
qed

end
