(* ===== verification/Aggregate.thy ===== *)
theory Aggregate
  imports Py_Value
begin

text \<open>
  \<open>src/op_autoresearch/op/verifier/aggregate.py\<close>: how per-shape arrays collapse to one
  scalar. Latencies use the arithmetic mean, speedups the geometric mean of the per-shape
  ratios.
\<close>

definition finite_num :: "pyval \<Rightarrow> real option" where
  "finite_num x = (case num_of x of Some (Fin r) \<Rightarrow> Some r | _ \<Rightarrow> None)"

definition mean_us :: "pyval list \<Rightarrow> real option" where
  "mean_us values =
     (let nums = List.map_filter finite_num values
      in if nums = [] then None else Some (sum_list nums / of_nat (length nums)))"

fun geomean_loop :: "pyval list \<Rightarrow> real \<Rightarrow> nat \<Rightarrow> (real \<times> nat) option" where
  "geomean_loop [] log_sum n = Some (log_sum, n)"
| "geomean_loop (v # vs) log_sum n =
     (case finite_num v of
        None \<Rightarrow> None
      | Some f \<Rightarrow> if f \<le> 0 then None else geomean_loop vs (log_sum + ln f) (Suc n))"

definition geomean :: "pyval list \<Rightarrow> real option" where
  "geomean values =
     (case geomean_loop values 0 0 of
        None \<Rightarrow> None
      | Some (log_sum, n) \<Rightarrow> if n = 0 then None else Some (exp (log_sum / of_nat n)))"

definition pair_ratio :: "pyval \<Rightarrow> pyval \<Rightarrow> real option" where
  "pair_ratio a b =
     (case (finite_num a, finite_num b) of
        (Some fa, Some fb) \<Rightarrow> if fa > 0 \<and> fb > 0 then Some (fa / fb) else None
      | _ \<Rightarrow> None)"

definition per_shape_ratio :: "pyval list \<Rightarrow> pyval list \<Rightarrow> real list" where
  "per_shape_ratio numer denom =
     map (\<lambda>(a, b). case pair_ratio a b of Some r \<Rightarrow> r | None \<Rightarrow> 0) (zip numer denom)"

definition valid_ratios :: "pyval list \<Rightarrow> pyval list \<Rightarrow> real list" where
  "valid_ratios numer denom = List.map_filter (\<lambda>(a, b). pair_ratio a b) (zip numer denom)"

definition geomean_ratio :: "pyval list \<Rightarrow> pyval list \<Rightarrow> real option" where
  "geomean_ratio numer denom = geomean (map (\<lambda>r. PFloat (Fin r)) (valid_ratios numer denom))"

subsection \<open>The logarithmic loop against the reference definition\<close>

lemma finite_num_Fin [simp]: "finite_num (PFloat (Fin r)) = Some r"
  by (simp add: finite_num_def)

lemma prod_list_pos: "\<forall>r \<in> set rs. 0 < r \<Longrightarrow> 0 < prod_list (rs :: real list)"
  by (induction rs) auto

lemma geomean_loop_pos:
  assumes "\<forall>r \<in> set rs. 0 < r"
  shows "geomean_loop (map (\<lambda>r. PFloat (Fin r)) rs) l n = Some (l + ln (prod_list rs), n + length rs)"
  using assms
proof (induction rs arbitrary: l n)
  case (Cons r rs)
  then have "0 < prod_list rs" by (intro prod_list_pos) simp
  with Cons show ?case by (simp add: ln_mult)
qed simp

lemma geomean_pos:
  assumes "rs \<noteq> []" and "\<forall>r \<in> set rs. 0 < r"
  shows "geomean (map (\<lambda>r. PFloat (Fin r)) rs) = Some (root (length rs) (prod_list rs))"
proof -
  have pos: "0 < prod_list rs" using assms(2) by (rule prod_list_pos)
  have "exp (ln (prod_list rs) / real (length rs)) = root (length rs) (prod_list rs)"
    using pos assms(1) by (simp add: root_powr_inverse powr_def)
  then show ?thesis
    using assms by (simp add: geomean_def geomean_loop_pos)
qed

lemma geomean_empty: "geomean [] = None"
  by (simp add: geomean_def)

lemma geomean_loop_Some:
  "geomean_loop vs l n = Some (l', n') \<Longrightarrow>
   \<exists>rs. map finite_num vs = map Some rs \<and> (\<forall>r \<in> set rs. 0 < r) \<and> n' = n + length rs"
proof (induction vs arbitrary: l n)
  case (Cons v vs)
  then obtain f where f: "finite_num v = Some f" "0 < f"
      "geomean_loop vs (l + ln f) (Suc n) = Some (l', n')"
    by (auto split: option.splits if_splits)
  with Cons.IH obtain rs where "map finite_num vs = map Some rs" "\<forall>r \<in> set rs. 0 < r"
      "n' = Suc n + length rs" by blast
  with f have "map finite_num (v # vs) = map Some (f # rs) \<and> (\<forall>r \<in> set (f # rs). 0 < r)
      \<and> n' = n + length (f # rs)" by simp
  then show ?case by blast
qed simp

lemma valid_ratios_pos: "r \<in> set (valid_ratios xs ys) \<Longrightarrow> 0 < r"
  by (auto simp: valid_ratios_def List.map_filter_def pair_ratio_def
      split: option.splits if_splits)

lemma pair_ratio_swap: "pair_ratio b a = map_option inverse (pair_ratio a b)"
  by (auto simp: pair_ratio_def inverse_eq_divide split: option.splits)

lemma valid_ratios_swap: "valid_ratios ys xs = map inverse (valid_ratios xs ys)"
proof (induction xs ys rule: list_induct2')
  case (4 x xs y ys)
  then show ?case
    by (cases "pair_ratio x y")
       (simp_all add: valid_ratios_def List.map_filter_def pair_ratio_swap [of y x])
qed (simp_all add: valid_ratios_def List.map_filter_def)

lemma prod_list_inverse: "prod_list (map inverse rs) = inverse (prod_list (rs :: real list))"
  by (induction rs) (simp_all add: inverse_mult_distrib mult.commute)

text \<open>Bounds of a geometric mean.\<close>

lemma prod_list_upper:
  assumes "\<forall>r \<in> set rs. 0 < r \<and> r \<le> (m::real)" and "0 < m"
  shows "prod_list rs \<le> m ^ length rs" and "0 < prod_list rs"
  using assms by (induction rs) (auto intro!: mult_mono)

lemma prod_list_lower:
  assumes "\<forall>r \<in> set rs. (m::real) \<le> r" and "0 < m"
  shows "m ^ length rs \<le> prod_list rs"
  using assms
proof (induction rs)
  case (Cons r rs)
  then show ?case by (auto intro!: mult_mono)
qed simp

lemma geomean_root_bounds:
  assumes "rs \<noteq> []" and "0 < lo" and "\<forall>r \<in> set rs. lo \<le> r \<and> r \<le> (hi::real)"
  shows "lo \<le> root (length rs) (prod_list rs) \<and> root (length rs) (prod_list rs) \<le> hi"
proof -
  let ?n = "length rs"
  have n: "0 < ?n" using assms(1) by simp
  have hi: "0 < hi" using assms by (cases rs) auto
  have "lo ^ ?n \<le> prod_list rs" using assms by (intro prod_list_lower) auto
  then have "root ?n (lo ^ ?n) \<le> root ?n (prod_list rs)" using n by simp
  moreover have "prod_list rs \<le> hi ^ ?n" using assms hi by (intro prod_list_upper) auto
  then have "root ?n (prod_list rs) \<le> root ?n (hi ^ ?n)" using n by simp
  ultimately show ?thesis
    using n hi assms(2) by (simp add: real_root_power_cancel)
qed

subsection \<open>Properties\<close>

text \<open>
  The speedup aggregate: when at least one shape has a valid ratio, the loop over
  logarithms returns the \<open>n\<close>-th root of the product of the valid ratios; it lies between
  any positive lower bound and any upper bound of the ratios, and swapping the two arrays
  gives the reciprocal. With no valid pair the aggregate is absent.
\<close>

theorem geomean_ratio_spec:
  fixes numer denom :: "pyval list"
  defines "rs \<equiv> valid_ratios numer denom"
  shows "geomean_ratio numer denom =
           (if rs = [] then None else Some (root (length rs) (prod_list rs)))
       \<and> geomean_ratio denom numer = map_option inverse (geomean_ratio numer denom)
       \<and> (\<forall>g lo hi. geomean_ratio numer denom = Some g \<and> 0 < lo \<and>
             list_all (\<lambda>r. lo \<le> r \<and> r \<le> hi) rs \<longrightarrow> lo \<le> g \<and> g \<le> hi)"
proof -
  have pos: "\<forall>r \<in> set rs. 0 < r" unfolding rs_def by (auto intro: valid_ratios_pos)
  have eq: "geomean_ratio numer denom =
      (if rs = [] then None else Some (root (length rs) (prod_list rs)))"
    using geomean_pos [OF _ pos] unfolding geomean_ratio_def rs_def [symmetric]
    by (cases "rs = []") (simp_all add: geomean_empty)
  have ipos: "\<forall>r \<in> set (map inverse rs). 0 < r" using pos by auto
  have eq': "geomean_ratio denom numer =
      (if rs = [] then None else Some (root (length rs) (inverse (prod_list rs))))"
    using geomean_pos [OF _ ipos] unfolding geomean_ratio_def valid_ratios_swap [of denom]
      rs_def [symmetric]
    by (cases "rs = []") (simp_all add: geomean_empty prod_list_inverse o_def)
  have inv: "geomean_ratio denom numer = map_option inverse (geomean_ratio numer denom)"
    using eq eq' by (simp add: real_root_inverse)
  have bnd: "lo \<le> g \<and> g \<le> hi"
    if "geomean_ratio numer denom = Some g" "0 < lo" "list_all (\<lambda>r. lo \<le> r \<and> r \<le> hi) rs"
    for g lo hi
    using that eq geomean_root_bounds [of rs lo hi]
    by (auto simp: list_all_iff split: if_splits)
  show ?thesis using eq inv bnd by blast
qed

theorem geomean_ratio_spec_witness:
  "geomean_ratio [PInt 8, PInt 2, PFloat PosInf] [PInt 2, PInt 2, PInt 1] = Some 2
   \<and> geomean_ratio [PInt 2, PInt 2, PInt 1] [PInt 8, PInt 2, PFloat PosInf] = Some (1 / 2)"
proof -
  have rs: "valid_ratios [PInt 8, PInt 2, PFloat PosInf] [PInt 2, PInt 2, PInt 1] = [4, 1]"
    by (simp add: valid_ratios_def List.map_filter_def pair_ratio_def finite_num_def)
  have r4: "root 2 (4::real) = 2"
    using real_root_power_cancel [of 2 2] by simp
  show ?thesis
    using geomean_ratio_spec [of "[PInt 8, PInt 2, PFloat PosInf]" "[PInt 2, PInt 2, PInt 1]"]
    unfolding rs by (simp add: r4 numeral_2_eq_2 [symmetric])
qed

end
