(* ===== verification/Eval_Bridge.thy ===== *)
theory Eval_Bridge
  imports Engine Worker_Manager Profile_Plan Aggregate
begin

text \<open>
  \<open>scripts/utils/eval_bridge.py\<close>: one evaluation, from the request of the evaluation client to the
  document it answers with. The verifier that runs the kernel, the probe of a remote worker, the
  extractor of failure signals and the file system are functions of the environment; the worker manager
  is the state. What a message says beyond its fixed text is left out, and so are wall times that are not
  finite. A JSON text or object where the code expects an array stands for a \<open>TypeError\<close>.
\<close>

subsection \<open>The environment\<close>

record profile_request =
  pr_timeout :: int
  pr_keep_res :: bool
  pr_settings :: profile_settings

record bridge_env =
  b_rt :: runtime
  b_task_dir :: string
  b_entry_file :: string
  b_exists :: "string \<Rightarrow> bool"
  b_read_seed :: "unit res"
  b_backend :: string
  b_status_arch :: "string \<Rightarrow> string option"
  b_url_port :: "string \<Rightarrow> int option"
  b_config_doc :: "dict option"
  b_keys :: "dict \<Rightarrow> string list"
  b_probe :: "string \<Rightarrow> probe"
  b_worker :: nat
  b_env_devices :: "string option"
  b_progress :: "Progress option res"
  b_ref_cases :: int
  b_build :: "unit res"
  b_verify :: "(bool \<times> string option) res"
  b_sidecar :: pyval
  b_profile :: "profile_request \<Rightarrow> dict res"
  b_warmup :: int
  b_repeats :: int
  b_keep_res :: bool
  b_signals :: "string \<Rightarrow> dict"
  b_traceback :: string
  b_write_report :: "unit res"

subsection \<open>Requests and workers\<close>

text \<open>\<open>device_id\<close> as the clients pass it: nothing, a number, a list, or text.\<close>

definition normalize_device_ids :: "pyval \<Rightarrow> int list res" where
  "normalize_device_ids device_id = (case device_id of
      PNone \<Rightarrow> Inr []
    | PStr s \<Rightarrow> all_ints int_of_str (stripped_parts s)
    | PList xs \<Rightarrow> all_ints py_int xs
    | v \<Rightarrow> bindR (py_int v) (\<lambda>i. Inr [i]))"

definition infra_fail :: "string \<Rightarrow> dict" where
  "infra_fail msg = fmap_of_list [(''outcome'', PStr ''infra_fail''), (''correctness'', PBool False), (''metrics'', PDict fmempty),
     (''error'', PStr msg), (''error_source'', PNone)]"

text \<open>The first seed file that is missing; reading the two may raise, joining a name that is no text does.\<close>

definition load_seed_files :: "bridge_env \<Rightarrow> pyval \<Rightarrow> dict option res" where
  "load_seed_files env ref_file = (case ref_file of
      PStr ref \<Rightarrow>
        if \<not> b_exists env (b_entry_file env)
        then Inr (Some (infra_fail (''primary editable '' @ b_entry_file env @ '' not found in '' @ b_task_dir env)))
        else if \<not> b_exists env ref then Inr (Some (infra_fail (''reference file '' @ ref @ '' not found in '' @ b_task_dir env)))
        else bindR (b_read_seed env) (\<lambda>_. Inr None)
    | _ \<Rightarrow> Inl TypeError)"

definition with_scheme :: "string \<Rightarrow> string" where
  "with_scheme url = (if starts_with ''http://'' url \<or> starts_with ''https://'' url then url else ''http://'' @ url)"

definition remote_host_for_url :: "bridge_env \<Rightarrow> string \<Rightarrow> string option res" where
  "remote_host_for_url env url = (case b_url_port env (if contains ''://'' url then url else ''http://'' @ url) of
      None \<Rightarrow> Inr None
    | Some port \<Rightarrow> (case b_config_doc env of
        None \<Rightarrow> Inr None
      | Some doc \<Rightarrow>
          bindR (as_mapping (py_or (dget doc ''worker'') (PDict fmempty))) (\<lambda>wk.
          bindR (py_int (dget_default wk ''port'' (PInt (-1)))) (\<lambda>p.
            if p \<noteq> port then Inr None
            else bindR (as_mapping (py_or (dget doc ''remote_worker'') (PDict fmempty))) (\<lambda>remote.
                 bindR (as_mapping (py_or (dget remote ''hosts'') (PDict fmempty))) (\<lambda>hosts.
                   Inr (case b_keys env hosts of [] \<Rightarrow> None | alias # _ \<Rightarrow> Some alias)))))))"

definition registration_failed :: dict where
  "registration_failed = infra_fail ''worker registration failed''"

definition worker_gone :: "bridge_env \<Rightarrow> string \<Rightarrow> dict" where
  "worker_gone env target = infra_fail (''registered worker disappeared for backend='' @ b_backend env @ '' arch='' @ target)"

definition register_for_eval :: "bridge_env \<Rightarrow> string \<Rightarrow> int list \<Rightarrow> string option \<Rightarrow> manager \<Rightarrow> manager option" where
  "register_for_eval env target device_ids worker_url ws = (case truthy_url worker_url of
      Some u \<Rightarrow> (case remote_host_for_url env (with_scheme u) of
          Inl _ \<Rightarrow> None
        | Inr _ \<Rightarrow> (case register_remote_worker (b_worker env) (b_backend env) target (Some (with_scheme u)) None None [] device_ids
            (b_probe env (with_scheme u)) ws of Inl _ \<Rightarrow> None | Inr (ws', _) \<Rightarrow> Some ws'))
    | None \<Rightarrow> (case register_local_worker (b_worker env) (b_env_devices env)
            (if device_ids = [] then [0] else device_ids) (b_backend env) target [] ws of
          Inl _ \<Rightarrow> None | Inr (ws', _) \<Rightarrow> Some ws'))"

definition acquire_worker :: "bridge_env \<Rightarrow> string \<Rightarrow> int list \<Rightarrow> string option \<Rightarrow> manager \<Rightarrow> manager \<times> (dict + nat)" where
  "acquire_worker env target device_ids worker_url ws = (case register_for_eval env target device_ids worker_url ws of
      None \<Rightarrow> (ws, Inl registration_failed)
    | Some ws' \<Rightarrow> (case reserve (b_worker env) ws' of
          (ws'', True) \<Rightarrow> (ws'', Inr (b_worker env))
        | (ws'', False) \<Rightarrow> (ws'', Inl (worker_gone env target))))"

subsection \<open>Budgets and the anchor\<close>

definition resolve_eval_timeout_s :: "bridge_env \<Rightarrow> TaskConfig \<Rightarrow> int res" where
  "resolve_eval_timeout_s env config = bindR (py_int (cf_eval_timeout config)) (\<lambda>t.
     Inr (t * (if cf_num_cases config > 0 then cf_num_cases config else b_ref_cases env)))"

definition sidecar_dict :: "pyval \<Rightarrow> dict" where
  "sidecar_dict sidecar = (case sidecar of PDict d \<Rightarrow> d | _ \<Rightarrow> fmempty)"

text \<open>\<open>list(v or [])\<close>.\<close>

definition array_or_empty :: "pyval \<Rightarrow> pyval list res" where
  "array_or_empty v = (if \<not> truthy v then Inr [] else case v of PList xs \<Rightarrow> Inr xs | _ \<Rightarrow> Inl TypeError)"

definition dicts_of :: "pyval list \<Rightarrow> dict list" where
  "dicts_of xs = concat (map (\<lambda>x. case x of PDict d \<Rightarrow> [d] | _ \<Rightarrow> []) xs)"

definition sticky_baseline_override :: "bridge_env \<Rightarrow> pyval \<Rightarrow> StickyOverride option res" where
  "sticky_baseline_override env sidecar =
     bindR (array_or_empty (dget (sidecar_dict sidecar) ''per_case'')) (\<lambda>per_case.
     let descs = filter truthy (map (\<lambda>c. dget c ''case_desc'') (dicts_of per_case))
     in bindR (py_int (py_or (py_or (dget (sidecar_dict sidecar) ''num_cases'') (PInt (int (length descs)))) (PInt 1))) (\<lambda>num_cases.
          Inr (case bindR (b_progress env) (\<lambda>p. bindR (current_fingerprint (b_rt env) (PInt num_cases) (PList descs)) (\<lambda>fp.
                 Inr (sd_override (sticky_override_from_progress p fp)))) of
               Inl _ \<Rightarrow> None | Inr ov \<Rightarrow> ov)))"

definition wall_times :: "string \<Rightarrow> pyval list \<Rightarrow> real list" where
  "wall_times key per_case = filter (\<lambda>r. 0 < r) (concat (map (\<lambda>c. case num_of (dget c key) of Some (Fin r) \<Rightarrow> [r] | _ \<Rightarrow> []) (dicts_of per_case)))"

definition make_profile_section :: "pyval \<Rightarrow> pyval \<Rightarrow> string \<Rightarrow> dict" where
  "make_profile_section avg_us per_case_us method = fmap_of_list [(''avg_us'', to_float avg_us),
     (''per_case_us'', case per_case_us of PList (x # xs) \<Rightarrow> PList (map to_float (x # xs)) | _ \<Rightarrow> PList [to_float avg_us]),
     (''method'', PStr method)]"

text \<open>The section of a committed baseline.\<close>

definition override_section :: "StickyOverride \<Rightarrow> dict" where
  "override_section ov = make_profile_section (so_metric ov) (so_per_shape_us ov) ''override''"

text \<open>\<open>float(eval_timeout or 0)\<close>, for a value that \<open>int\<close> has accepted.\<close>

definition budget_seconds :: "pyval \<Rightarrow> real option" where
  "budget_seconds v = (case v of
      PStr s \<Rightarrow> (case int_of_str s of Inl _ \<Rightarrow> None | Inr i \<Rightarrow> Some (of_int i))
    | _ \<Rightarrow> (case num_of v of Some (Fin t) \<Rightarrow> Some t | _ \<Rightarrow> None))"

definition profile_plan :: "bridge_env \<Rightarrow> pyval \<Rightarrow> TaskConfig \<Rightarrow> bool \<Rightarrow> StickyOverride option \<Rightarrow> ProfilePlan res" where
  "profile_plan env sidecar config base_only override =
     bindR (as_mapping (py_or sidecar (PDict fmempty))) (\<lambda>d.
     bindR (array_or_empty (dget d ''per_case'')) (\<lambda>per_case.
       Inr (plan_profile (wall_times ''ref_wall_us'' per_case) (wall_times ''impl_wall_us'' per_case)
              (budget_seconds (cf_eval_timeout config)) (b_warmup env) (b_repeats env)
              (if base_only then None else map_option override_section override) base_only)))"

subsection \<open>Answers\<close>

text \<open>\<open>_float\<close> of a number: finite or nothing.\<close>

definition bridge_float :: "pyval \<Rightarrow> real option" where
  "bridge_float v = (case num_of v of Some (Fin r) \<Rightarrow> Some r | _ \<Rightarrow> None)"

definition real_val :: "real option \<Rightarrow> pyval" where
  "real_val r = (case r of None \<Rightarrow> PNone | Some x \<Rightarrow> PFloat (Fin x))"

definition last_chars :: "nat \<Rightarrow> string \<Rightarrow> string" where
  "last_chars n s = drop (length s - n) s"

definition case_labels :: "nat \<Rightarrow> pyval list" where
  "case_labels n = map (\<lambda>i. PStr (''case'' @ nat_str i)) [0..<n]"

definition labels_for :: "nat \<Rightarrow> pyval list \<Rightarrow> pyval list" where
  "labels_for n descs = (if length descs \<noteq> n then case_labels n else descs)"

definition base_metrics_from_profile :: "dict \<Rightarrow> dict res" where
  "base_metrics_from_profile profile = (case bridge_float (dget profile ''base_time'') of
      None \<Rightarrow> Inr fmempty
    | Some base_us \<Rightarrow>
        if base_us \<le> 0 then Inr fmempty
        else bindR (array_or_empty (dget profile ''per_shape_base_us'')) (\<lambda>bases0.
             bindR (array_or_empty (dget profile ''case_descs'')) (\<lambda>descs.
               let bases = (if bases0 = [] then [PFloat (Fin base_us)] else bases0); n = length bases
               in Inr (fmap_of_list [(''ref_latency_us'', PFloat (Fin base_us)), (''num_cases'', PInt (int n)),
                    (''per_shape_base_us'', PList bases), (''per_shape_descs'', PList (labels_for n descs))]))))"

definition add_failure_signals :: "bridge_env \<Rightarrow> string \<Rightarrow> dict \<Rightarrow> dict" where
  "add_failure_signals env text_log payload =
     (if b_signals env text_log = fmempty then payload else fmupd ''failure_signals'' (PDict (b_signals env text_log)) payload)"

text \<open>A field of every case of the sidecar; \<open>c.get\<close> raises on what is no mapping.\<close>

fun per_case_field :: "(dict \<Rightarrow> pyval) \<Rightarrow> pyval list \<Rightarrow> pyval list res" where
  "per_case_field f [] = Inr []"
| "per_case_field f (c # cs) = bindR (as_mapping c) (\<lambda>d. bindR (per_case_field f cs) (\<lambda>rest. Inr (f d # rest)))"

definition case_status :: "dict \<Rightarrow> pyval" where
  "case_status c = (if truthy (dget c ''correctness'') then PStr ''PASS'' else py_or (dget c ''failure_kind'') (PStr ''FAIL''))"

definition per_case_metrics :: "pyval list \<Rightarrow> dict \<Rightarrow> dict res" where
  "per_case_metrics per_case metrics =
     (if per_case = [] then Inr metrics
      else bindR (per_case_field (\<lambda>c. dget_default c ''case_desc'' (PStr [])) per_case) (\<lambda>descs.
           bindR (per_case_field case_status per_case) (\<lambda>status.
           bindR (per_case_field (\<lambda>c. dget c ''impl_wall_us'') per_case) (\<lambda>gens.
           bindR (per_case_field (\<lambda>c. dget c ''ref_wall_us'') per_case) (\<lambda>bases.
             Inr (metrics ++\<^sub>f fmap_of_list [(''num_cases'', PInt (int (length per_case))), (''per_shape_descs'', PList descs),
               (''per_shape_status'', PList status), (''per_shape_gen_us'', PList gens), (''per_shape_base_us'', PList bases)]))))))"

definition verify_fail_payload :: "bridge_env \<Rightarrow> string option \<Rightarrow> pyval \<Rightarrow> dict \<Rightarrow> string option \<Rightarrow> dict res" where
  "verify_fail_payload env verify_log sidecar metrics report_path =
     (let text_log = (case verify_log of None \<Rightarrow> [] | Some s \<Rightarrow> s); d = sidecar_dict sidecar; es = dget d ''error_source'';
          source = (if py_eq es (PStr ''ref'') \<or> py_eq es (PStr ''kernel'') then es else PStr ''kernel'')
      in bindR (array_or_empty (dget d ''per_case'')) (\<lambda>per_case.
         bindR (per_case_metrics per_case metrics) (\<lambda>ms.
           let p0 = fmap_of_list [(''outcome'', PStr ''kernel_fail''), (''correctness'', PBool False), (''metrics'', PDict ms),
                 (''error'', PStr (last_chars 2000 (if text_log = [] then ''verify failed'' else text_log))), (''error_source'', source),
                 (''raw_output_tail'', PStr (last_chars 4000 text_log))];
               p1 = (if dget d ''failed_indices'' \<noteq> PNone then fmupd ''failed_indices'' (dget d ''failed_indices'') p0 else p0);
               p2 = add_failure_signals env text_log p1
           in (case report_path of
                None \<Rightarrow> Inr p2
              | Some path \<Rightarrow> bindR (b_write_report env) (\<lambda>_. Inr (fmupd ''fail_report'' (PStr path) p2))))))"

definition profile_fail_payload :: "bridge_env \<Rightarrow> dict" where
  "profile_fail_payload env = add_failure_signals env (b_traceback env)
     (fmap_of_list [(''outcome'', PStr ''kernel_fail''), (''correctness'', PBool True), (''metrics'', PDict fmempty),
        (''error'', PStr ''profile raised''), (''error_source'', PStr ''kernel''), (''raw_output_tail'', PStr (last_chars 4000 (b_traceback env)))])"

definition with_per_case :: "pyval \<Rightarrow> dict \<Rightarrow> dict" where
  "with_per_case sidecar payload = (let pc = dget (sidecar_dict sidecar) ''per_case''
     in if truthy pc then fmupd ''per_case'' pc payload else payload)"

definition too_slow_payload :: "pyval \<Rightarrow> dict" where
  "too_slow_payload sidecar = with_per_case sidecar
     (fmap_of_list [(''outcome'', PStr ''kernel_fail''), (''correctness'', PBool True), (''metrics'', PDict fmempty),
        (''error'', PStr ''kernel too slow to profile within the per-shape budget''), (''error_source'', PStr ''kernel'')])"

definition verify_ok_payload :: "pyval \<Rightarrow> dict res" where
  "verify_ok_payload sidecar = (let d = sidecar_dict sidecar
     in bindR (py_int (py_or (dget d ''num_cases'') (PInt 1))) (\<lambda>n.
          Inr (with_per_case sidecar (fmap_of_list [(''outcome'', PStr ''ok''), (''correctness'', PBool True),
            (''metrics'', PDict (fmap_of_list [(''num_cases'', PInt n), (''max_abs_diff'', dget d ''worst_max_abs_diff'')])),
            (''error'', PNone), (''error_source'', PNone)]))))"

definition ok_answer :: "real \<Rightarrow> real option \<Rightarrow> pyval list \<Rightarrow> pyval list \<Rightarrow> pyval list \<Rightarrow> dict" where
  "ok_answer gen_us base_us gens bases descs = fmap_of_list [(''outcome'', PStr ''ok''), (''correctness'', PBool True),
     (''metrics'', PDict (fmap_of_list [(''latency_us'', PFloat (Fin gen_us)), (''ref_latency_us'', real_val base_us),
        (''speedup_vs_ref'', real_val (if bases \<noteq> [] then geomean_ratio bases gens else None)),
        (''num_cases'', PInt (int (length gens))), (''per_shape_gen_us'', PList gens), (''per_shape_base_us'', PList bases),
        (''per_shape_descs'', PList (labels_for (length gens) descs))])),
     (''error'', PNone), (''error_source'', PNone)]"

definition ok_payload :: "dict \<Rightarrow> dict res" where
  "ok_payload profile = (case bridge_float (dget profile ''gen_time'') of
      None \<Rightarrow> Inr (infra_fail ''profile returned invalid gen_time'')
    | Some gen_us \<Rightarrow>
        if gen_us \<le> 0 then Inr (infra_fail ''profile returned invalid gen_time'')
        else bindR (array_or_empty (dget profile ''per_shape_gen_us'')) (\<lambda>gens.
             if gens = [] then Inr (infra_fail ''profile_result missing per_shape_gen_us'')
             else bindR (array_or_empty (dget profile ''per_shape_base_us'')) (\<lambda>bases.
                  bindR (array_or_empty (dget profile ''case_descs'')) (\<lambda>descs.
                    let base_us = bridge_float (dget profile ''base_time'')
                    in if base_us \<noteq> None \<and> length bases \<noteq> length gens
                       then Inr (ok_answer gen_us None gens [] descs)
                       else Inr (ok_answer gen_us base_us gens bases descs)))))"

subsection \<open>One evaluation\<close>

definition iteration_verify_dir :: "bridge_env \<Rightarrow> pyval \<Rightarrow> pyval \<Rightarrow> string res" where
  "iteration_verify_dir env op current_step = (case op of
      PStr op_name \<Rightarrow> Inr (b_task_dir env @ ''/.ar_state/op_autoresearch_verify/'' @ op_name @ ''/Iteration'' @ op_name @ ''_Step'' @ py_str (b_rt env) current_step @ ''_verify'')
    | _ \<Rightarrow> Inl TypeError)"

definition profile_req :: "bridge_env \<Rightarrow> int \<Rightarrow> ProfilePlan \<Rightarrow> profile_request" where
  "profile_req env timeout_s plan = \<lparr>pr_timeout = timeout_s, pr_keep_res = (b_keep_res env \<and> b_backend env = ''ascend''),
     pr_settings = settings plan\<rparr>"

text \<open>The reference is profiled after a failed verification only while no baseline is committed; a failure of that is a warning.\<close>

definition reference_metrics :: "bridge_env \<Rightarrow> TaskConfig \<Rightarrow> bool \<Rightarrow> int \<Rightarrow> StickyOverride option \<Rightarrow> dict" where
  "reference_metrics env config verify_only timeout_s override =
     (if verify_only \<or> override \<noteq> None then fmempty
      else (case bindR (profile_plan env (b_sidecar env) config True None) (\<lambda>plan.
                 bindR (b_profile env (profile_req env timeout_s plan)) base_metrics_from_profile) of
              Inl _ \<Rightarrow> fmempty | Inr m \<Rightarrow> m))"

definition profiled_payload :: "bridge_env \<Rightarrow> TaskConfig \<Rightarrow> int \<Rightarrow> StickyOverride option \<Rightarrow> dict res" where
  "profiled_payload env config timeout_s override =
     bindR (profile_plan env (b_sidecar env) config False override) (\<lambda>plan.
       if too_slow plan \<noteq> None then Inr (too_slow_payload (b_sidecar env))
       else (case b_profile env (profile_req env timeout_s plan) of
               Inl _ \<Rightarrow> Inr (profile_fail_payload env)
             | Inr profile \<Rightarrow> ok_payload profile))"

definition verified_payload :: "bridge_env \<Rightarrow> TaskConfig \<Rightarrow> pyval \<Rightarrow> bool \<Rightarrow> dict res" where
  "verified_payload env config current_step verify_only =
     bindR (b_verify env) (\<lambda>(verify_ok, verify_log).
     bindR (resolve_eval_timeout_s env config) (\<lambda>timeout_s.
     bindR (sticky_baseline_override env (b_sidecar env)) (\<lambda>override.
       if \<not> verify_ok
       then bindR (if verify_only then Inr None
                   else bindR (iteration_verify_dir env (cf_name config) current_step) (\<lambda>dir. Inr (Some (dir @ ''/eval_fail_report.json''))))
              (verify_fail_payload env verify_log (b_sidecar env) (reference_metrics env config verify_only timeout_s override))
       else if verify_only then verify_ok_payload (b_sidecar env)
       else profiled_payload env config timeout_s override)))"

definition build_verifier :: "bridge_env \<Rightarrow> TaskConfig \<Rightarrow> unit res" where
  "build_verifier env config = bindR (b_build env) (\<lambda>_. bindR (resolve_eval_timeout_s env config) (\<lambda>_. Inr ()))"

text \<open>The architecture of the task, or of the worker when the task names none.\<close>

definition eval_arch :: "bridge_env \<Rightarrow> TaskConfig \<Rightarrow> string option \<Rightarrow> string option" where
  "eval_arch env config worker_url = truthy_url (if truthy (cf_arch config) then Some (py_str (b_rt env) (cf_arch config))
     else Option.bind (truthy_url worker_url) (\<lambda>u. b_status_arch env (with_scheme u)))"

definition eval_kernel :: "bridge_env \<Rightarrow> TaskConfig \<Rightarrow> pyval \<Rightarrow> string option \<Rightarrow> pyval \<Rightarrow> bool \<Rightarrow> manager \<Rightarrow> manager \<times> dict res" where
  "eval_kernel env config device_id worker_url current_step verify_only ws =
     (case load_seed_files env (cf_ref_file config) of
        Inl e \<Rightarrow> (ws, Inl e)
      | Inr (Some fail) \<Rightarrow> (ws, Inr fail)
      | Inr None \<Rightarrow> (case normalize_device_ids device_id of
          Inl e \<Rightarrow> (ws, Inl e)
        | Inr device_ids \<Rightarrow> (case eval_arch env config worker_url of
            None \<Rightarrow> (ws, Inr (infra_fail ''task.yaml missing arch and could not derive it from worker''))
          | Some target \<Rightarrow> (case acquire_worker env target device_ids worker_url ws of
              (ws1, Inl fail) \<Rightarrow> (ws1, Inr fail)
            | (ws1, Inr w) \<Rightarrow> (case build_verifier env config of
                Inl e \<Rightarrow> (ws1, Inl e)
              | Inr _ \<Rightarrow> (fst (release w ws1), verified_payload env config current_step verify_only))))))"

text \<open>What the evaluation client reads of the answer.\<close>

definition report_of :: "runtime \<Rightarrow> dict \<Rightarrow> kernel_report res" where
  "report_of rt raw =
     bindR (as_mapping (py_or (dget raw ''metrics'') (PDict fmempty))) (\<lambda>metrics.
     bindR (as_mapping (py_or (dget raw ''failure_signals'') (PDict fmempty))) (\<lambda>signals.
       Inr \<lparr>kr_outcome = py_or (dget raw ''outcome'') (PStr ''infra_fail''), kr_metrics = metrics, kr_error = dget raw ''error'',
            kr_raw_output_tail = py_str rt (py_or (dget raw ''raw_output_tail'') (PStr [])), kr_error_source = dget raw ''error_source'',
            kr_fail_report = (case dget raw ''fail_report'' of PStr p \<Rightarrow> Some p | _ \<Rightarrow> None), kr_failure_signals = signals\<rparr>))"

end
