(* ===== verification/Bridge_Facts.thy ===== *)
theory Bridge_Facts
  imports Eval_Bridge
begin

text \<open>
  What the evaluation bridge guarantees its clients: the shape of an answer, the worker it gives back, and
  that a committed baseline is not measured again.
\<close>

subsection \<open>The shape of an answer\<close>

definition is_bool :: "pyval \<Rightarrow> bool" where
  "is_bool v = (case v of PBool _ \<Rightarrow> True | _ \<Rightarrow> False)"

definition answer_typed :: "dict \<Rightarrow> bool" where
  "answer_typed d \<longleftrightarrow> outcome_of (dget d ''outcome'') \<noteq> None \<and> is_bool (dget d ''correctness'')
     \<and> is_dict (dget d ''metrics'') \<and> (dget d ''outcome'' = PStr ''ok'' \<longrightarrow> dget d ''correctness'' = PBool True \<and> dget d ''error'' = PNone)"

definition metrics_aligned :: "dict \<Rightarrow> bool" where
  "metrics_aligned m \<longleftrightarrow> (\<exists>t gens bases descs. dget m ''latency_us'' = PFloat (Fin t) \<and> 0 < t
     \<and> dget m ''per_shape_gen_us'' = PList gens \<and> gens \<noteq> [] \<and> dget m ''num_cases'' = PInt (int (length gens))
     \<and> dget m ''per_shape_base_us'' = PList bases \<and> (dget m ''ref_latency_us'' \<noteq> PNone \<longrightarrow> length bases = length gens)
     \<and> dget m ''per_shape_descs'' = PList descs \<and> length descs = length gens)"

lemma outcome_texts [simp]:
  "outcome_of (PStr ''ok'') \<noteq> None" "outcome_of (PStr ''kernel_fail'') \<noteq> None" "outcome_of (PStr ''infra_fail'') \<noteq> None"
  by code_simp+

lemma dget_listed: "dget (fmap_of_list kvs) k = (case map_of kvs k of None \<Rightarrow> PNone | Some v \<Rightarrow> v)"
  by (simp add: dget_def fmlookup_of_list)

lemmas answer_simps = answer_typed_def is_bool_def is_dict_def dget_listed Let_def

lemma infra_fail_typed: "answer_typed (infra_fail msg)" "dget (infra_fail msg) ''outcome'' \<noteq> PStr ''ok''"
  by (simp_all add: infra_fail_def answer_simps del: fmap_of_list_simps)

lemma typed_upd: "answer_typed d \<Longrightarrow> k \<notin> {''outcome'', ''correctness'', ''metrics'', ''error''} \<Longrightarrow> answer_typed (fmupd k v d)"
  by (auto simp: answer_typed_def)

definition kernel_failed :: "dict \<Rightarrow> bool" where
  "kernel_failed d \<longleftrightarrow> answer_typed d \<and> dget d ''outcome'' = PStr ''kernel_fail''"

lemma kernel_failed_upd:
  "kernel_failed d \<Longrightarrow> k \<notin> {''outcome'', ''correctness'', ''metrics'', ''error''} \<Longrightarrow> kernel_failed (fmupd k v d)"
  by (auto simp: kernel_failed_def intro: typed_upd)

lemma kernel_failed_signals: "kernel_failed d \<Longrightarrow> kernel_failed (add_failure_signals env text d)"
  by (auto simp: add_failure_signals_def intro: kernel_failed_upd)

lemma kernel_failed_base:
  "kernel_failed (fmap_of_list ((''outcome'', PStr ''kernel_fail'') # (''correctness'', PBool b) # (''metrics'', PDict m) # (''error'', e) # rest))"
  by (simp add: kernel_failed_def answer_simps del: fmap_of_list_simps)

lemma verify_fail_typed: "verify_fail_payload env l sc m path = Inr d \<Longrightarrow> kernel_failed d"
  by (auto simp: verify_fail_payload_def Let_def simp del: fmap_of_list_simps split: option.splits if_splits
      intro!: kernel_failed_signals kernel_failed_upd kernel_failed_base)

lemma per_case_typed: "answer_typed d \<Longrightarrow> answer_typed (with_per_case sc d)"
  "dget (with_per_case sc d) ''outcome'' = dget d ''outcome''" "dget (with_per_case sc d) ''metrics'' = dget d ''metrics''"
  by (auto simp: with_per_case_def Let_def intro: typed_upd)

lemma too_slow_typed: "kernel_failed (too_slow_payload sc)"
  using kernel_failed_base by (simp add: too_slow_payload_def kernel_failed_def per_case_typed del: fmap_of_list_simps)

lemma profile_fail_typed: "kernel_failed (profile_fail_payload env)"
  unfolding profile_fail_payload_def by (intro kernel_failed_signals kernel_failed_base)

lemma verify_ok_typed: "verify_ok_payload sc = Inr d \<Longrightarrow> answer_typed d"
  by (auto simp: verify_ok_payload_def Let_def simp del: fmap_of_list_simps intro!: per_case_typed(1))
     (simp add: answer_simps del: fmap_of_list_simps)

text \<open>An answer that reports success carries aligned metrics.\<close>

definition answer_sound :: "dict \<Rightarrow> bool" where
  "answer_sound d \<longleftrightarrow> answer_typed d \<and> (dget d ''outcome'' = PStr ''ok'' \<longrightarrow> (\<exists>m. dget d ''metrics'' = PDict m \<and> metrics_aligned m))"

lemma failed_sound: "kernel_failed d \<Longrightarrow> answer_sound d" "answer_sound (infra_fail msg)"
  by (simp_all add: kernel_failed_def answer_sound_def infra_fail_typed)

lemma ok_answer_sound:
  assumes "0 < t" and "gens \<noteq> []" and "base_us \<noteq> None \<longrightarrow> length bases = length gens"
  shows "answer_sound (ok_answer t base_us gens bases descs)"
proof -
  have "length (labels_for (length gens) descs) = length gens" by (simp add: labels_for_def case_labels_def)
  then show ?thesis using assms
    by (auto simp: answer_sound_def ok_answer_def answer_simps metrics_aligned_def real_val_def simp del: fmap_of_list_simps
        split: option.splits)
qed

lemma ok_payload_sound: "ok_payload profile = Inr d \<Longrightarrow> answer_sound d"
  by (auto simp: ok_payload_def Let_def split: option.splits if_splits intro!: failed_sound(2) ok_answer_sound)

lemma profiled_sound: "profiled_payload env config t ov = Inr d \<Longrightarrow> answer_sound d"
  by (auto simp: profiled_payload_def split: sum.splits if_splits
      intro: ok_payload_sound failed_sound(1) [OF too_slow_typed] failed_sound(1) [OF profile_fail_typed])

lemma verified_sound:
  assumes "verified_payload env config step False = Inr d"
  shows "answer_sound d"
proof -
  from assms obtain ok log_text where v: "b_verify env = Inr (ok, log_text)" by (auto simp: verified_payload_def)
  show ?thesis
  proof (cases ok)
    case True
    then obtain t ov where "profiled_payload env config t ov = Inr d" using assms v by (auto simp: verified_payload_def)
    then show ?thesis by (rule profiled_sound)
  next
    case False
    then obtain m path where "verify_fail_payload env log_text (b_sidecar env) m path = Inr d"
      using assms v by (auto simp: verified_payload_def)
    then show ?thesis using failed_sound(1) verify_fail_typed by blast
  qed
qed

lemma seed_fail_sound: "load_seed_files env ref = Inr (Some d) \<Longrightarrow> answer_sound d"
  by (auto simp: load_seed_files_def split: pyval.splits if_splits intro: failed_sound(2))

lemma acquire_fail_sound: "acquire_worker env target ids url ws = (ws', Inl d) \<Longrightarrow> answer_sound d"
  by (auto simp: acquire_worker_def registration_failed_def worker_gone_def
      split: option.splits prod.splits bool.splits intro: failed_sound(2))

text \<open>
  C7. Every answer of an evaluation is one the recorders can read: its outcome is one of the three names, the
  verdict a truth value, the metrics a mapping; a success has a positive latency, a verdict of correct and no
  error, and its per-shape arrays and labels have one entry per case, the reference's too where a
  reference latency is given.
\<close>

theorem evaluation_answers_sound:
  assumes "eval_kernel env config device_id worker_url step False ws = (ws', Inr d)"
  shows "answer_sound d"
  using assms
  by (auto simp: eval_kernel_def split: sum.splits option.splits prod.splits
      dest: verified_sound seed_fail_sound acquire_fail_sound intro: failed_sound(2))

subsection \<open>The worker of an evaluation\<close>

lemma update_first_fresh:
  "w \<notin> worker ` set ws \<Longrightarrow> update_first w f ws = (ws, False)"
  "w \<notin> worker ` set ws \<Longrightarrow> worker info = w \<Longrightarrow> update_first w f (ws @ [info]) = (ws @ [f info], True)"
  by (induction ws) auto

text \<open>What acquiring a worker does to the manager: nothing, or one entry more, reserved once.\<close>

definition entry :: "bridge_env \<Rightarrow> WorkerInfo \<Rightarrow> bool" where
  "entry env info \<longleftrightarrow> worker info = b_worker env \<and> backend info = b_backend env \<and> 1 \<le> capacity info"

lemma registered:
  "register_remote_worker w b a u v c ts e p ws = Inr (ws', x) \<Longrightarrow> \<exists>cap. ws' = register w b a ts cap ws"
  "register_local_worker w d e b a ts ws = Inr (ws', y) \<Longrightarrow> \<exists>cap. ws' = register w b a ts cap ws"
  by (auto simp: register_remote_worker_def register_local_worker_def split: option.splits sum.splits)

lemma reserve_registered:
  assumes "b_worker env \<notin> worker ` set ws"
  obtains info where "reserve (b_worker env) (register (b_worker env) (b_backend env) a ts cap ws) = (ws @ [info], True)"
    "entry env info" "load info = 1"
proof -
  have "reserve (b_worker env) (register (b_worker env) (b_backend env) a ts cap ws)
      = (ws @ [\<lparr>worker = b_worker env, backend = b_backend env, arch = a, tags = ts, capacity = max 1 cap, load = 1\<rparr>], True)"
    using assms by (simp add: reserve_def register_def update_first_fresh add_load_def)
  then show thesis by (rule that) (simp_all add: entry_def)
qed

text \<open>What acquiring a worker does to the manager: nothing, or one entry more, reserved once.\<close>

lemma acquired:
  assumes "b_worker env \<notin> worker ` set ws" and "acquire_worker env target ids url ws = (ws1, r)"
  shows "(\<exists>fail. r = Inl fail \<and> ws1 = ws) \<or> (r = Inr (b_worker env) \<and> (\<exists>info. ws1 = ws @ [info] \<and> entry env info \<and> load info = 1))"
proof -
  have new: "\<exists>cap. ws0 = register (b_worker env) (b_backend env) target [] cap ws"
    if "register_for_eval env target ids url ws = Some ws0" for ws0
    using that by (auto simp: register_for_eval_def split: option.splits sum.splits dest: registered)
  show ?thesis
  proof (cases "register_for_eval env target ids url ws")
    case (Some ws0)
    from new [OF Some] obtain cap where "ws0 = register (b_worker env) (b_backend env) target [] cap ws" ..
    then obtain info where "reserve (b_worker env) ws0 = (ws @ [info], True)" "entry env info" "load info = 1"
      using reserve_registered [OF assms(1)] by metis
    then show ?thesis using assms(2) Some by (auto simp: acquire_worker_def)
  qed (use assms(2) in \<open>auto simp: acquire_worker_def\<close>)
qed

text \<open>Where an evaluation leaves the manager.\<close>

lemma eval_kernelE:
  assumes "eval_kernel env config device_id worker_url step verify_only ws = (ws', r)"
  obtains (early) "ws' = ws"
  | (acquiring) target ids ws1 x where "acquire_worker env target ids worker_url ws = (ws1, x)"
      "ws' = (case x of Inl _ \<Rightarrow> ws1 | Inr w \<Rightarrow> (case build_verifier env config of Inl _ \<Rightarrow> ws1 | Inr _ \<Rightarrow> fst (release w ws1)))"
proof (cases "load_seed_files env (cf_ref_file config) = Inr None \<and> (\<exists>ids. normalize_device_ids device_id = Inr ids)
    \<and> (\<exists>target. eval_arch env config worker_url = Some target)")
  case False
  then have "ws' = ws" using assms by (auto simp: eval_kernel_def split: sum.splits option.splits)
  then show thesis by (rule early)
next
  case True
  then obtain ids target where e: "load_seed_files env (cf_ref_file config) = Inr None" "normalize_device_ids device_id = Inr ids"
    "eval_arch env config worker_url = Some target" by blast
  obtain ws1 x where a: "acquire_worker env target ids worker_url ws = (ws1, x)" by force
  show thesis using assms acquiring [OF a] by (simp add: eval_kernel_def e a split: sum.splits)
qed


text \<open>
  A verifier that cannot be built keeps its worker: the exception leaves the reservation behind, and
  the entry counts one job for ever, although none is in flight.
\<close>

theorem build_failure_leaks:
  assumes "b_worker env \<notin> worker ` set ws" and "build_verifier env config = Inl e"
    and "load_seed_files env (cf_ref_file config) = Inr None" and "normalize_device_ids device_id = Inr ids"
    and "eval_arch env config worker_url = Some target" and "acquire_worker env target ids worker_url ws = (ws1, Inr w)"
  shows "\<exists>info. eval_kernel env config device_id worker_url step verify_only ws = (ws @ [info], Inl e) \<and> load info = 1"
proof -
  from acquired [OF assms(1,6)] obtain info where "ws1 = ws @ [info]" "load info = 1" by auto
  moreover have "eval_kernel env config device_id worker_url step verify_only ws = (ws1, Inl e)"
    using assms(2-6) by (simp add: eval_kernel_def)
  ultimately show ?thesis by simp
qed

subsection \<open>A committed baseline\<close>

lemma sticky_settings:
  fixes s :: profile_settings
  assumes "s = empty_settings\<lparr>override_base_section := Some d, skip_base_profile := True\<rparr>"
  shows "skip_base_profile (if c then s\<lparr>run_times := n\<rparr> else s) \<and> override_base_section (if c then s\<lparr>run_times := n\<rparr> else s) = Some d"
  using assms by (simp add: empty_settings_def)

lemma plan_profile_sticky:
  assumes "too_slow (plan_profile refs impls (Some t) w r (Some d) False) = None" and "0 < t" and "refs \<noteq> [] \<or> impls \<noteq> []"
  shows "skip_base_profile (settings (plan_profile refs impls (Some t) w r (Some d) False))
    \<and> override_base_section (settings (plan_profile refs impls (Some t) w r (Some d) False)) = Some d"
proof -
  let ?mi = "if impls \<noteq> [] \<and> \<not> False then max_wall impls else 0"
  have c: "\<not> (t \<le> 0 \<or> refs = [] \<and> impls = [])" using assms(2,3) by auto
  have s: "\<not> (?mi \<noteq> 0 \<and> fit t w ?mi < 1)"
  proof
    assume slow: "?mi \<noteq> 0 \<and> fit t w ?mi < 1"
    show False using assms(1) unfolding plan_profile_def Let_def option.case if_not_P [OF c] if_P [OF slow] by simp
  qed
  show ?thesis unfolding plan_profile_def Let_def option.case if_not_P [OF c] if_not_P [OF s] ProfilePlan.select_convs if_False
    by (rule sticky_settings) (rule refl)
qed

lemma measured_sidecar:
  assumes "array_or_empty (dget (sidecar_dict sidecar) ''per_case'') = Inr per_case" and "per_case \<noteq> []"
  shows "as_mapping (py_or sidecar (PDict fmempty)) = Inr (sidecar_dict sidecar)"
proof (cases sidecar)
  case (PDict d)
  then show ?thesis by (cases "d = fmempty") (simp_all add: as_mapping_def py_or_def sidecar_dict_def)
qed (use assms in \<open>simp_all add: sidecar_dict_def array_or_empty_def\<close>)

lemma wall_times_Nil [simp]: "wall_times key [] = []"
  by (simp add: wall_times_def dicts_of_def)

lemma committed_skips_reference:
  assumes "profile_plan env sidecar config False (Some ov) = Inr plan" and "too_slow plan = None"
    and "array_or_empty (dget (sidecar_dict sidecar) ''per_case'') = Inr per_case"
    and "wall_times ''ref_wall_us'' per_case \<noteq> [] \<or> wall_times ''impl_wall_us'' per_case \<noteq> []"
    and "budget_seconds (cf_eval_timeout config) = Some t" and "0 < t"
  shows "skip_base_profile (settings plan) \<and> override_base_section (settings plan) = Some (override_section ov)"
proof -
  have "plan = plan_profile (wall_times ''ref_wall_us'' per_case) (wall_times ''impl_wall_us'' per_case) (Some t)
      (b_warmup env) (b_repeats env) (Some (override_section ov)) False"
    using assms(1,3,5) measured_sidecar [OF assms(3)] assms(4) by (cases "per_case = []") (simp_all add: profile_plan_def)
  then show ?thesis using plan_profile_sticky [OF _ assms(6,4)] assms(2) by simp
qed

lemma profiler_irrelevant:
  fixes env :: bridge_env
  shows "b_signals (env\<lparr>b_profile := p\<rparr>) = b_signals env" "resolve_eval_timeout_s (env\<lparr>b_profile := p\<rparr>) config = resolve_eval_timeout_s env config"
    "sticky_baseline_override (env\<lparr>b_profile := p\<rparr>) sc = sticky_baseline_override env sc"
    "profile_plan (env\<lparr>b_profile := p\<rparr>) sc config bo ov = profile_plan env sc config bo ov"
    "verify_fail_payload (env\<lparr>b_profile := p\<rparr>) = verify_fail_payload env"
    "profile_fail_payload (env\<lparr>b_profile := p\<rparr>) = profile_fail_payload env"
    "iteration_verify_dir (env\<lparr>b_profile := p\<rparr>) nm step = iteration_verify_dir env nm step"
    "profile_req (env\<lparr>b_profile := p\<rparr>) t plan = profile_req env t plan"
  by (simp_all add: fun_eq_iff resolve_eval_timeout_s_def sticky_baseline_override_def profile_plan_def verify_fail_payload_def
      profile_fail_payload_def iteration_verify_dir_def profile_req_def add_failure_signals_def cong: if_cong pyval.case_cong option.case_cong)

lemma profiled_payload_committed:
  assumes "\<And>plan. profile_plan env (b_sidecar env) config False ov = Inr plan \<Longrightarrow> too_slow plan = None \<Longrightarrow> skip_base_profile (settings plan)"
    and "\<forall>rq. skip_base_profile (pr_settings rq) \<longrightarrow> p rq = b_profile env rq"
  shows "profiled_payload (env\<lparr>b_profile := p\<rparr>) config t ov = profiled_payload env config t ov"
proof (cases "profile_plan env (b_sidecar env) config False ov")
  case (Inr plan)
  have "p (profile_req env t plan) = b_profile env (profile_req env t plan)" if "too_slow plan = None"
    using assms(1) [OF Inr that] assms(2) by (simp add: profile_req_def)
  then show ?thesis by (cases "too_slow plan = None") (auto simp: profiled_payload_def profiler_irrelevant Inr split: sum.split)
qed (simp add: profiled_payload_def profiler_irrelevant)

text \<open>
  A committed baseline is not measured again: once the task's progress holds one that fits the shapes of
  the verification, the answer is the same whatever the profiler says to a request that would
  measure the reference, provided the verification has measured a wall time and the budget is positive.
\<close>

theorem committed_baseline_reused:
  assumes "sticky_baseline_override env (b_sidecar env) = Inr (Some ov)"
    and "array_or_empty (dget (sidecar_dict (b_sidecar env)) ''per_case'') = Inr per_case"
    and "wall_times ''ref_wall_us'' per_case \<noteq> [] \<or> wall_times ''impl_wall_us'' per_case \<noteq> []"
    and "budget_seconds (cf_eval_timeout config) = Some t" and "0 < t"
    and "\<forall>rq. skip_base_profile (pr_settings rq) \<longrightarrow> p rq = b_profile env rq"
  shows "verified_payload (env\<lparr>b_profile := p\<rparr>) config step verify_only = verified_payload env config step verify_only"
proof -
  have "profiled_payload (env\<lparr>b_profile := p\<rparr>) config n (Some ov) = profiled_payload env config n (Some ov)" for n
    by (rule profiled_payload_committed [OF _ assms(6)]) (use committed_skips_reference [OF _ _ assms(2-5)] in blast)
  moreover have "reference_metrics env' config verify_only n (Some ov) = fmempty" for env' n by (simp add: reference_metrics_def)
  ultimately show ?thesis
    unfolding verified_payload_def by (simp add: profiler_irrelevant assms(1) split_def cong: if_cong)
qed

subsection \<open>A concrete evaluation\<close>

definition demo_task_config :: TaskConfig where
  "demo_task_config = \<lparr>cf_name = PStr ''op'', cf_description = PStr [], cf_arch = PStr ''a100'', cf_editable_files = [PStr ''kernel.py''],
     cf_ref_file = PStr ''reference.py'', cf_data_files = [], cf_eval_timeout = PInt 60, cf_num_cases = 1,
     cf_primary_metric = PStr ''latency_us'', cf_lower_is_better = PBool True, cf_improvement_threshold = PFloat (Fin 0), cf_constraints = [],
     cf_smoke_test_script = PNone, cf_smoke_test_timeout = PInt 10, cf_code_checker_enabled = True, cf_max_rounds = PInt 30,
     cf_devices = [0], cf_worker_urls = [], cf_dsl_config = fmempty\<rparr>"

definition demo_shape :: pyval where
  "demo_shape = PDict (fmap_of_list [(''ref_wall_us'', PInt 9), (''impl_wall_us'', PInt 7)])"

definition demo_sidecar :: pyval where
  "demo_sidecar = PDict (fmap_of_list [(''per_case'', PList [demo_shape])])"

definition demo_profile :: dict where
  "demo_profile = fmap_of_list [(''gen_time'', PInt 7), (''per_shape_gen_us'', PList [PInt 7])]"

definition demo_bridge :: bridge_env where
  "demo_bridge = \<lparr>b_rt = demo_runtime, b_task_dir = ''t'', b_entry_file = ''kernel.py'', b_exists = (\<lambda>_. True), b_read_seed = Inr (),
     b_backend = ''cuda'', b_status_arch = (\<lambda>_. None), b_url_port = (\<lambda>_. None), b_config_doc = None, b_keys = (\<lambda>_. []),
     b_probe = (\<lambda>_. ProbeFailed), b_worker = 1, b_env_devices = None,
     b_progress = Inr (Some (Progress_default\<lparr>baseline_metric := PInt 9, baseline_source := PStr ''ref''\<rparr>)), b_ref_cases = 1,
     b_build = Inr (), b_verify = Inr (True, None), b_sidecar = demo_sidecar, b_profile = (\<lambda>_. Inr demo_profile), b_warmup = 5, b_repeats = 50,
     b_keep_res = False, b_signals = (\<lambda>_. fmempty), b_traceback = [], b_write_report = Inr ()\<rparr>"

lemma demo_override: "\<exists>ov. sticky_baseline_override demo_bridge demo_sidecar = Inr (Some ov)"
  by (simp add: demo_bridge_def demo_sidecar_def demo_shape_def sticky_baseline_override_def sidecar_dict_def array_or_empty_def dicts_of_def dget_def
      py_or_def py_int_def current_fingerprint_def sticky_override_from_progress_def py_eq_def valid_metric_def
      fingerprint_mismatch_def Progress_default_def shape_signature_def)

lemma demo_budget:
  "array_or_empty (dget (sidecar_dict demo_sidecar) ''per_case'') = Inr [demo_shape]" "wall_times ''impl_wall_us'' [demo_shape] = [7]"
  "budget_seconds (cf_eval_timeout demo_task_config) = Some 60" "b_sidecar demo_bridge = demo_sidecar"
  by (simp_all add: demo_sidecar_def demo_shape_def sidecar_dict_def array_or_empty_def dget_def wall_times_def dicts_of_def
      demo_task_config_def budget_seconds_def demo_bridge_def)

lemma demo_verified: "verified_payload demo_bridge demo_task_config step False = Inr (ok_answer 7 None [PInt 7] [] [])"
proof -
  obtain ov where ov: "sticky_baseline_override demo_bridge demo_sidecar = Inr (Some ov)" using demo_override by blast
  have slow: "too_slow (plan_profile refs [7] (Some 60) 5 50 st False) = None" for refs st
    by (simp add: plan_profile_def max_wall_def fit_def Let_def)
  have "as_mapping (py_or demo_sidecar (PDict fmempty)) = Inr (sidecar_dict demo_sidecar)" by (rule measured_sidecar [OF demo_budget(1)]) simp
  then obtain plan where plan: "profile_plan demo_bridge demo_sidecar demo_task_config False (Some ov) = Inr plan" "too_slow plan = None"
    by (simp add: profile_plan_def demo_budget slow demo_bridge_def)
  have pay: "ok_payload demo_profile = Inr (ok_answer 7 None [PInt 7] [] [])"
    by (simp add: ok_payload_def demo_profile_def bridge_float_def array_or_empty_def dget_def Let_def)
  have t: "resolve_eval_timeout_s demo_bridge demo_task_config = Inr 60"
    by (simp add: resolve_eval_timeout_s_def demo_task_config_def py_int_def)
  have env: "b_verify demo_bridge = Inr (True, None)" "b_profile demo_bridge = (\<lambda>_. Inr demo_profile)"
    by (simp_all add: demo_bridge_def)
  show ?thesis by (simp add: verified_payload_def profiled_payload_def env demo_budget(4) t ov plan pay)
qed

definition demo_entry :: "int \<Rightarrow> WorkerInfo" where
  "demo_entry n = \<lparr>worker = 1, backend = ''cuda'', arch = ''a100'', tags = [], capacity = 1, load = n\<rparr>"

lemma demo_start:
  "load_seed_files demo_bridge (cf_ref_file demo_task_config) = Inr None" "normalize_device_ids (PInt 0) = Inr [0]"
  "eval_arch demo_bridge demo_task_config None = Some ''a100''" "acquire_worker demo_bridge ''a100'' [0] None [] = ([demo_entry 1], Inr 1)"
  "build_verifier demo_bridge demo_task_config = Inr ()" "release 1 [demo_entry 1] = ([demo_entry 0], True)"
  by (simp_all add: load_seed_files_def demo_bridge_def demo_task_config_def normalize_device_ids_def py_int_def eval_arch_def
      truthy_url_def py_str_def acquire_worker_def register_for_eval_def register_local_worker_def init_pool_def configured_devices_def
      register_def reserve_def add_load_def demo_entry_def build_verifier_def resolve_eval_timeout_s_def release_def lower_load_def Let_def)

lemma demo_eval: "eval_kernel demo_bridge demo_task_config (PInt 0) None step False [] = ([demo_entry 0], Inr (ok_answer 7 None [PInt 7] [] []))"
  by (simp add: eval_kernel_def demo_start(1-5) demo_verified demo_start(6) [simplified])

theorem evaluation_answers_sound_witness: "\<exists>ws d. eval_kernel demo_bridge demo_task_config (PInt 0) None (PInt 0) False [] = (ws, Inr d)
    \<and> dget d ''outcome'' = PStr ''ok'' \<and> answer_sound d"
  using evaluation_answers_sound [OF demo_eval [of "PInt 0"]] demo_eval [of "PInt 0"]
  by (auto simp: ok_answer_def dget_def)


definition demo_broken :: bridge_env where
  "demo_broken = demo_bridge\<lparr>b_build := Inl (RuntimeError ''adapter'')\<rparr>"

theorem build_failure_leaks_witness: "\<exists>info. eval_kernel demo_broken demo_task_config (PInt 0) None (PInt 0) False []
    = ([info], Inl (RuntimeError ''adapter'')) \<and> load info = 1"
proof -
  have "load_seed_files demo_broken (cf_ref_file demo_task_config) = Inr None" "eval_arch demo_broken demo_task_config None = Some ''a100''"
    "acquire_worker demo_broken ''a100'' [0] None [] = ([demo_entry 1], Inr 1)"
    "build_verifier demo_broken demo_task_config = Inl (RuntimeError ''adapter'')"
    by (simp_all add: demo_broken_def load_seed_files_def demo_bridge_def demo_task_config_def eval_arch_def truthy_url_def py_str_def
        acquire_worker_def register_for_eval_def register_local_worker_def init_pool_def configured_devices_def register_def reserve_def
        add_load_def demo_entry_def build_verifier_def Let_def)
  from build_failure_leaks [OF _ this(4,1) demo_start(2) this(2,3)] show ?thesis by simp
qed

theorem committed_baseline_reused_witness:
  "verified_payload (demo_bridge\<lparr>b_profile := (\<lambda>rq. if skip_base_profile (pr_settings rq) then Inr demo_profile else Inl (RuntimeError []))\<rparr>)
     demo_task_config (PInt 1) False = Inr (ok_answer 7 None [PInt 7] [] [])"
proof -
  obtain ov where ov: "sticky_baseline_override demo_bridge (b_sidecar demo_bridge) = Inr (Some ov)"
    using demo_override demo_budget(4) by auto
  show ?thesis
    by (rule trans [OF committed_baseline_reused [OF ov, unfolded demo_budget(4), OF demo_budget(1) _ demo_budget(3)] demo_verified])
       (simp_all add: demo_budget(2), simp add: demo_bridge_def)
qed

end
