(* ===== verification/Cache_Lock.thy ===== *)
theory Cache_Lock
  imports AR_Prelude
begin

text \<open>
  The lock directories of the verifier's data cache (\<open>verifier_data_cache_lock\<close> of
  \<open>src/op_autoresearch/op/verifier/data_cache.py\<close>): the wait of one process over what it finds at each
  attempt, and the calls of concurrent processes. A lock directory is its time of creation.
\<close>

subsection \<open>The wait of one process\<close>

definition is_stale_lock :: "real \<Rightarrow> real \<Rightarrow> real option \<Rightarrow> bool" where
  "is_stale_lock stale_after wall mtime \<longleftrightarrow> stale_after \<le> 0 \<or> (case mtime of None \<Rightarrow> False | Some m \<Rightarrow> stale_after < wall - m)"

text \<open>
  What attempt \<open>k\<close> finds: whether the directory could be made, what \<open>stat\<close> then says of it (nothing when
  it is gone or cannot be read), and the two clocks; the wait starts at \<open>lv_start\<close>.
\<close>

record lock_view =
  lv_made :: "nat \<Rightarrow> bool"
  lv_mtime :: "nat \<Rightarrow> real option"
  lv_wall :: "nat \<Rightarrow> real"
  lv_clock :: "nat \<Rightarrow> real"
  lv_start :: real

datatype wait_outcome = Acquired | WaitTimeout

definition stale_at :: "real \<Rightarrow> lock_view \<Rightarrow> nat \<Rightarrow> bool" where
  "stale_at stale_after v k = is_stale_lock stale_after (lv_wall v k) (lv_mtime v k)"

text \<open>The loop: a stale directory is removed and the next attempt made at once, a fresh one is waited for.\<close>

partial_function (option) cache_lock_wait :: "real \<Rightarrow> real \<Rightarrow> lock_view \<Rightarrow> nat \<Rightarrow> wait_outcome option" where
  "cache_lock_wait timeout stale_after v k =
     (if lv_made v k then Some Acquired
      else if stale_at stale_after v k then cache_lock_wait timeout stale_after v (Suc k)
      else if timeout \<le> 0 \<or> timeout \<le> lv_clock v k - lv_start v then Some WaitTimeout
      else cache_lock_wait timeout stale_after v (Suc k))"

lemma wait_made: "lv_made v k \<Longrightarrow> cache_lock_wait timeout stale_after v k = Some Acquired"
  by (subst cache_lock_wait.simps) simp

lemma wait_stale: "\<not> lv_made v k \<Longrightarrow> stale_at stale_after v k \<Longrightarrow>
    cache_lock_wait timeout stale_after v k = cache_lock_wait timeout stale_after v (Suc k)"
  by (subst cache_lock_wait.simps) simp

lemma wait_over: "\<not> lv_made v k \<Longrightarrow> \<not> stale_at stale_after v k \<Longrightarrow> timeout \<le> lv_clock v k - lv_start v \<Longrightarrow>
    cache_lock_wait timeout stale_after v k = Some WaitTimeout"
  by (subst cache_lock_wait.simps) simp

lemma wait_more: "\<not> lv_made v k \<Longrightarrow> \<not> stale_at stale_after v k \<Longrightarrow>
    cache_lock_wait timeout stale_after v k = Some WaitTimeout
    \<or> cache_lock_wait timeout stale_after v k = cache_lock_wait timeout stale_after v (Suc k)"
  by (subst (1 2) cache_lock_wait.simps) simp

text \<open>
  The wait for a lock directory ends, with the lock or with a timeout, whoever else competes for it: it is
  enough that a sleep takes its 0.2 seconds, the clock does not run back, and that a directory judged stale is gone
  after its removal, or has been made anew and is not stale at once.
\<close>

theorem lock_wait_ends:
  assumes sleeps: "\<forall>k. \<not> lv_made v k \<longrightarrow> \<not> stale_at stale_after v k \<longrightarrow> lv_clock v k + 1/5 \<le> lv_clock v (Suc k)"
    and clock: "\<forall>k. lv_clock v k \<le> lv_clock v (Suc k)"
    and removed: "\<forall>k. \<not> lv_made v k \<longrightarrow> stale_at stale_after v k \<longrightarrow> lv_made v (Suc k) \<or> \<not> stale_at stale_after v (Suc k)"
  shows "\<exists>r. cache_lock_wait timeout stale_after v 0 = Some r"
proof -
  have "\<exists>r. cache_lock_wait timeout stale_after v k = Some r" if "timeout \<le> lv_clock v k - lv_start v + of_nat n / 5" for n k
    using that
  proof (induction n arbitrary: k)
    case 0
    consider "lv_made v k" | "\<not> lv_made v k" "\<not> stale_at stale_after v k" | "\<not> lv_made v k" "stale_at stale_after v k" "lv_made v (Suc k)"
      | "\<not> lv_made v k" "stale_at stale_after v k" "\<not> lv_made v (Suc k)" "\<not> stale_at stale_after v (Suc k)"
      using removed by blast
    moreover have "timeout \<le> lv_clock v (Suc k) - lv_start v" using 0 clock [rule_format, of k] by simp
    ultimately show ?case using 0 by cases (auto simp: wait_made wait_over wait_stale)
  next
    case (Suc n)
    have fresh: "\<exists>r. cache_lock_wait timeout stale_after v j = Some r"
      if j: "\<not> lv_made v j" "\<not> stale_at stale_after v j" "lv_clock v k \<le> lv_clock v j" for j
    proof -
      have "timeout \<le> lv_clock v (Suc j) - lv_start v + of_nat n / 5"
        using sleeps [rule_format, OF j(1,2)] j(3) Suc(2) by (simp add: field_simps)
      then show ?thesis using Suc(1) wait_more [OF j(1,2)] by metis
    qed
    consider "lv_made v k" | "\<not> lv_made v k" "\<not> stale_at stale_after v k" | "\<not> lv_made v k" "stale_at stale_after v k" "lv_made v (Suc k)"
      | "\<not> lv_made v k" "stale_at stale_after v k" "\<not> lv_made v (Suc k)" "\<not> stale_at stale_after v (Suc k)"
      using removed by blast
    then show ?case using fresh [of k] fresh [of "Suc k"] clock by cases (auto simp: wait_made wait_stale)
  qed
  moreover obtain n :: nat where "5 * (timeout - (lv_clock v 0 - lv_start v)) \<le> of_nat n" using real_arch_simple by blast
  ultimately show ?thesis by (simp add: field_simps)
qed

text \<open>
  A stale lock directory that cannot be removed is waited for without end: the removal only logs its failure, and the
  loop goes on to the next attempt without a pause and without a look at the timeout, however short.
\<close>

theorem unremovable_lock_spins:
  assumes "\<forall>k. \<not> lv_made v k \<and> lv_mtime v k = Some m \<and> stale_after < lv_wall v k - m"
  shows "cache_lock_wait timeout stale_after v k = None"
proof -
  have stuck: "\<not> lv_made v j" "stale_at stale_after v j" for j using assms by (simp_all add: stale_at_def is_stale_lock_def)
  have "\<not> (w = v \<and> s = stale_after)" if "cache_lock_wait t s w j = Some r" for t s w j r
    by (rule cache_lock_wait.raw_induct [OF _ that, where P = "\<lambda>t s w j r. \<not> (w = v \<and> s = stale_after)"])
       (use stuck in \<open>auto split: if_splits\<close>)
  then show ?thesis by (metis not_Some_eq)
qed

definition demo_view :: lock_view where
  "demo_view = \<lparr>lv_made = (\<lambda>k. k = 2), lv_mtime = (\<lambda>k. if k = 0 then Some 0 else None), lv_wall = (\<lambda>_. 9), lv_clock = of_nat, lv_start = 0\<rparr>"

theorem lock_wait_ends_witness: "\<exists>r. cache_lock_wait 600 5 demo_view 0 = Some r \<and> r = Acquired"
proof -
  obtain r where r: "cache_lock_wait 600 5 demo_view 0 = Some r"
    using lock_wait_ends [of demo_view 5 600] by (auto simp: demo_view_def stale_at_def is_stale_lock_def)
  have "cache_lock_wait 600 5 demo_view 0 = cache_lock_wait 600 5 demo_view 1"
    by (subst cache_lock_wait.simps) (simp add: demo_view_def stale_at_def is_stale_lock_def)
  also have "\<dots> = cache_lock_wait 600 5 demo_view 2"
    by (subst cache_lock_wait.simps) (simp add: demo_view_def stale_at_def is_stale_lock_def numeral_2_eq_2)
  also have "\<dots> = Some Acquired" by (simp add: wait_made demo_view_def)
  finally show ?thesis using r by simp
qed

theorem unremovable_lock_spins_witness:
  "cache_lock_wait 600 3600 \<lparr>lv_made = (\<lambda>_. False), lv_mtime = (\<lambda>_. Some 0), lv_wall = (\<lambda>k. 4000 + of_nat k), lv_clock = of_nat, lv_start = 0\<rparr> 0 = None"
  by (rule unremovable_lock_spins [where m = 0]) simp

subsection \<open>Concurrent processes\<close>

type_synonym proc = nat

datatype cache_pc = Trying | Checking | Removing | Critical | Left

record cache_lock =
  cl_now :: real
  cl_dir :: "real option"
  cl_at :: "proc \<Rightarrow> cache_pc"

definition try_acquire_cache_lock :: "real \<Rightarrow> real option \<Rightarrow> real option \<times> bool" where
  "try_acquire_cache_lock t d = (case d of None \<Rightarrow> (Some t, True) | Some m \<Rightarrow> (Some m, False))"

text \<open>The removal takes whatever directory is there; it may also fail.\<close>

definition release_cache_lock :: "bool \<Rightarrow> real option \<Rightarrow> real option" where
  "release_cache_lock removable d = (if removable then None else d)"

definition move :: "proc \<Rightarrow> cache_pc \<Rightarrow> cache_lock \<Rightarrow> cache_lock" where
  "move p c s = s\<lparr>cl_at := (cl_at s)(p := c)\<rparr>"

text \<open>The next system call of a process; \<open>ok\<close> tells whether a removal succeeds, \<open>out\<close> whether its timeout is over.\<close>

definition cache_call :: "real \<Rightarrow> bool \<Rightarrow> bool \<Rightarrow> proc \<Rightarrow> cache_lock \<Rightarrow> cache_lock" where
  "cache_call stale_after ok out p s = (case cl_at s p of
      Trying \<Rightarrow> (case try_acquire_cache_lock (cl_now s) (cl_dir s) of
          (d, made) \<Rightarrow> move p (if made then Critical else Checking) (s\<lparr>cl_dir := d\<rparr>))
    | Checking \<Rightarrow> move p (if is_stale_lock stale_after (cl_now s) (cl_dir s) then Removing else if out then Left else Trying) s
    | Removing \<Rightarrow> move p Trying (s\<lparr>cl_dir := release_cache_lock ok (cl_dir s)\<rparr>)
    | Critical \<Rightarrow> move p Left (s\<lparr>cl_dir := release_cache_lock ok (cl_dir s)\<rparr>)
    | Left \<Rightarrow> s)"

inductive cache_step :: "real \<Rightarrow> cache_lock \<Rightarrow> cache_lock \<Rightarrow> bool" for stale_after :: real where
  Call: "cache_step stale_after s (cache_call stale_after ok out p s)"
| Tick: "0 \<le> d \<Longrightarrow> cache_step stale_after s (s\<lparr>cl_now := cl_now s + d\<rparr>)"

inductive_cases cache_stepE: "cache_step stale_after s t"

definition cache_start :: "real \<Rightarrow> real option \<Rightarrow> cache_lock" where
  "cache_start t d = \<lparr>cl_now = t, cl_dir = d, cl_at = (\<lambda>_. Trying)\<rparr>"

text \<open>No directory is left standing for longer than the stale time.\<close>

definition timely :: "real \<Rightarrow> cache_lock \<Rightarrow> bool" where
  "timely stale_after s \<longleftrightarrow> \<not> is_stale_lock stale_after (cl_now s) (cl_dir s)"

definition excludes :: "cache_lock \<Rightarrow> bool" where
  "excludes s \<longleftrightarrow> (\<forall>p. cl_at s p \<noteq> Removing) \<and> (\<forall>p. cl_at s p = Critical \<longrightarrow> cl_dir s \<noteq> None)
     \<and> (\<forall>p q. cl_at s p = Critical \<longrightarrow> cl_at s q = Critical \<longrightarrow> p = q)"

lemma call_excludes:
  assumes "excludes s" and "timely stale_after s"
  shows "excludes (cache_call stale_after ok out p s)"
proof (cases "cl_at s p")
  case Trying
  then show ?thesis using assms
    by (cases "cl_dir s") (auto simp: excludes_def cache_call_def move_def try_acquire_cache_lock_def)
next
  case Checking
  then show ?thesis using assms by (auto simp: excludes_def cache_call_def move_def timely_def)
next
  case Critical
  then have "cl_at s q \<noteq> Critical" if "q \<noteq> p" for q using assms(1) that by (auto simp: excludes_def)
  then show ?thesis using Critical assms by (auto simp: excludes_def cache_call_def move_def release_cache_lock_def)
qed (use assms in \<open>auto simp: excludes_def cache_call_def\<close>)

text \<open>
  C11. The lock directory serialises: in a run in which no directory is left standing for longer than the stale time,
  at most one process is past the lock, and while it is, the directory is there.
\<close>

theorem cache_lock_excludes:
  assumes "(\<lambda>s t. cache_step stale_after s t \<and> timely stale_after s)\<^sup>*\<^sup>* (cache_start t0 None) s"
  shows "(\<forall>p. cl_at s p = Critical \<longrightarrow> cl_dir s \<noteq> None) \<and> (\<forall>p q. cl_at s p = Critical \<longrightarrow> cl_at s q = Critical \<longrightarrow> p = q)"
proof -
  have "excludes s"
    using assms
  proof (induction rule: rtranclp_induct)
    case (step s t)
    then show ?case by (auto elim!: cache_stepE intro: call_excludes) (simp add: excludes_def)
  qed (simp add: excludes_def cache_start_def)
  then show ?thesis by (simp add: excludes_def)
qed

lemma calls_reachable: "(cache_step stale_after)\<^sup>*\<^sup>* s (fold (cache_call stale_after True False) ps s)"
proof (induction ps arbitrary: s)
  case (Cons p ps)
  have "cache_step stale_after s (cache_call stale_after True False p s)" by (rule Call)
  then show ?case using Cons by (simp add: converse_rtranclp_into_rtranclp)
qed simp

lemma call_simps:
  "f p = Trying \<Longrightarrow> cache_call sa ok out p \<lparr>cl_now = t, cl_dir = None, cl_at = f\<rparr> = \<lparr>cl_now = t, cl_dir = Some t, cl_at = f(p := Critical)\<rparr>"
  "f p = Trying \<Longrightarrow> cache_call sa ok out p \<lparr>cl_now = t, cl_dir = Some m, cl_at = f\<rparr> = \<lparr>cl_now = t, cl_dir = Some m, cl_at = f(p := Checking)\<rparr>"
  "f p = Checking \<Longrightarrow> sa < t - m \<Longrightarrow>
     cache_call sa ok out p \<lparr>cl_now = t, cl_dir = Some m, cl_at = f\<rparr> = \<lparr>cl_now = t, cl_dir = Some m, cl_at = f(p := Removing)\<rparr>"
  "f p = Removing \<Longrightarrow> cache_call sa True out p \<lparr>cl_now = t, cl_dir = d, cl_at = f\<rparr> = \<lparr>cl_now = t, cl_dir = None, cl_at = f(p := Trying)\<rparr>"
  by (simp_all add: cache_call_def move_def try_acquire_cache_lock_def release_cache_lock_def is_stale_lock_def)

text \<open>
  The lock directory does not exclude once one is stale. Where a process has died in possession of it, two others can
  both get past it at one instant: both judge it stale, and the second removes the directory that the first
  has just made. And a process that is still at work after the stale time is joined by a second one.
\<close>

theorem cache_lock_race:
  assumes "0 < stale_after" and "stale_after < t - m" and "p \<noteq> q"
  shows "(\<exists>s. (cache_step stale_after)\<^sup>*\<^sup>* (cache_start t (Some m)) s \<and> cl_at s p = Critical \<and> cl_at s q = Critical \<and> cl_now s = t)
    \<and> (\<exists>s. (cache_step stale_after)\<^sup>*\<^sup>* (cache_start t None) s \<and> cl_at s p = Critical \<and> cl_at s q = Critical)"
proof
  define s where "s = fold (cache_call stale_after True False) [p, q, p, q, p, p, q, q] (cache_start t (Some m))"
  have "cl_at s p = Critical \<and> cl_at s q = Critical \<and> cl_now s = t"
    using assms by (simp add: s_def cache_start_def call_simps)
  moreover have "(cache_step stale_after)\<^sup>*\<^sup>* (cache_start t (Some m)) s" unfolding s_def by (rule calls_reachable)
  ultimately show "\<exists>s. (cache_step stale_after)\<^sup>*\<^sup>* (cache_start t (Some m)) s \<and> cl_at s p = Critical \<and> cl_at s q = Critical \<and> cl_now s = t"
    by blast
  define u where "u = cache_call stale_after True False p (cache_start t None)"
  define v where "v = u\<lparr>cl_now := cl_now u + (stale_after + 1)\<rparr>"
  define w where "w = fold (cache_call stale_after True False) [q, q, q, q] v"
  have "cl_at w p = Critical \<and> cl_at w q = Critical"
    using assms by (simp add: u_def v_def w_def cache_start_def call_simps)
  moreover have "cache_step stale_after (cache_start t None) u" unfolding u_def by (rule Call)
  moreover have "cache_step stale_after u v" unfolding v_def using assms(1) by (intro Tick) simp
  moreover have "(cache_step stale_after)\<^sup>*\<^sup>* v w" unfolding w_def by (rule calls_reachable)
  ultimately show "\<exists>s. (cache_step stale_after)\<^sup>*\<^sup>* (cache_start t None) s \<and> cl_at s p = Critical \<and> cl_at s q = Critical"
    by (meson converse_rtranclp_into_rtranclp)
qed

theorem cache_lock_excludes_witness:
  "\<exists>s. (cache_step 3600)\<^sup>*\<^sup>* (cache_start 0 None) s \<and> cl_at s 1 = Critical \<and> (\<forall>q. cl_at s q = Critical \<longrightarrow> q = 1)"
proof -
  let ?s = "cache_call 3600 True False 1 (cache_start 0 None)"
  have c: "cache_step 3600 (cache_start 0 None) ?s" "timely 3600 (cache_start 0 None)" "cl_at ?s 1 = Critical"
    by (rule Call) (simp_all add: timely_def cache_start_def is_stale_lock_def call_simps)
  then have "(\<lambda>s t. cache_step 3600 s t \<and> timely 3600 s)\<^sup>*\<^sup>* (cache_start 0 None) ?s" by blast
  from cache_lock_excludes [OF this] c show ?thesis by blast
qed

theorem cache_lock_race_witness:
  "\<exists>s. (cache_step 3600)\<^sup>*\<^sup>* (cache_start 4000 (Some 0)) s \<and> cl_at s 1 = Critical \<and> cl_at s 2 = Critical \<and> cl_now s = 4000"
  by (rule cache_lock_race [of 3600 4000 0 1 2, THEN conjunct1]) simp_all

end
