(* ===== verification/Eval_Worker.thy ===== *)
theory Eval_Worker
  imports Eval_Bridge Json_IO Device_Pool
begin

text \<open>
  The machines that evaluate: the budgets they resolve (\<open>core/worker/eval_config.py\<close>), the sections of a profile
  (\<open>op/verifier/profiler_utils.py\<close>), the local worker (\<open>core/worker/local_worker.py\<close>), the service in front of it
  (\<open>worker/server.py\<close>) and the worker that calls the service (\<open>core/worker/remote_worker.py\<close>), all below
  \<open>src/op_autoresearch\<close>. The outcome of every subprocess, the files it writes, the roofline model, the adapter's
  flags and the answers of the network are functions of the environment; texts of errors are left out.
\<close>

subsection \<open>Budgets\<close>

record EvalDefaults =
  ed_eval_timeout :: int
  ed_reference_timeout :: int
  ed_warmup_times :: int
  ed_run_times :: int
  ed_kill_grace_s :: pyfloat
  ed_kill_drain_s :: pyfloat

definition EvalDefaults_default :: EvalDefaults where
  "EvalDefaults_default = \<lparr>ed_eval_timeout = 600, ed_reference_timeout = 120, ed_warmup_times = 5, ed_run_times = 50,
     ed_kill_grace_s = Fin 5, ed_kill_drain_s = Fin 2\<rparr>"

text \<open>\<open>int\<close> of an infinity raises what is not caught.\<close>

definition positive_int :: "pyval \<Rightarrow> int \<Rightarrow> int res" where
  "positive_int v deflt = (case py_int v of
      Inr i \<Rightarrow> Inr (if 0 < i then i else deflt)
    | Inl e \<Rightarrow> if e = OverflowError then Inl OverflowError else Inr deflt)"

definition positive_float :: "(string \<Rightarrow> pyfloat option) \<Rightarrow> pyval \<Rightarrow> pyfloat \<Rightarrow> pyfloat" where
  "positive_float fl v deflt = (case (case v of PStr s \<Rightarrow> fl s | _ \<Rightarrow> num_of v) of
      None \<Rightarrow> deflt | Some f \<Rightarrow> if fle (Fin 0) f then f else deflt)"

text \<open>The nearest \<open>config.yaml\<close>: the given path, or the first of the directory and, when asked for, its parents.\<close>

definition resolve_config :: "(string \<Rightarrow> bool) \<Rightarrow> string list \<Rightarrow> string option \<Rightarrow> bool \<Rightarrow> string option" where
  "resolve_config is_file dirs config_path walk_parents = (case config_path of
      Some p \<Rightarrow> if is_file p then Some p else None
    | None \<Rightarrow> find is_file (map (\<lambda>d. d @ ''/config.yaml'') (if walk_parents then dirs else take 1 dirs)))"

text \<open>The document is nothing when there is no file or it cannot be read.\<close>

definition from_config :: "(string \<Rightarrow> pyfloat option) \<Rightarrow> pyval option \<Rightarrow> EvalDefaults res" where
  "from_config fl doc = (case doc of
      Some (PDict data) \<Rightarrow>
        (let d = EvalDefaults_default
         in bindR (as_mapping (py_or (dget data ''defaults'') (PDict fmempty))) (\<lambda>defaults_block.
            bindR (as_mapping (py_or (dget data ''eval'') (PDict fmempty))) (\<lambda>eval_block.
            bindR (positive_int (dget defaults_block ''eval_timeout'') (ed_eval_timeout d)) (\<lambda>et.
            bindR (positive_int (dget defaults_block ''reference_data_timeout'') (ed_reference_timeout d)) (\<lambda>rt.
            bindR (positive_int (dget eval_block ''warmup'') (ed_warmup_times d)) (\<lambda>w.
            bindR (positive_int (dget eval_block ''repeats'') (ed_run_times d)) (\<lambda>r.
              Inr \<lparr>ed_eval_timeout = et, ed_reference_timeout = rt, ed_warmup_times = w, ed_run_times = r,
                ed_kill_grace_s = positive_float fl (dget defaults_block ''kill_grace_s'') (ed_kill_grace_s d),
                ed_kill_drain_s = positive_float fl (dget defaults_block ''kill_drain_s'') (ed_kill_drain_s d)\<rparr>)))))))
    | _ \<Rightarrow> Inr EvalDefaults_default)"

definition env_val :: "(string \<Rightarrow> string option) \<Rightarrow> string \<Rightarrow> pyval" where
  "env_val getenv key = (case getenv key of None \<Rightarrow> PNone | Some s \<Rightarrow> PStr s)"

definition eval_defaults :: "(string \<Rightarrow> pyfloat option) \<Rightarrow> (string \<Rightarrow> string option) \<Rightarrow> pyval option \<Rightarrow> EvalDefaults res" where
  "eval_defaults fl getenv doc =
     bindR (from_config fl doc) (\<lambda>b.
     bindR (positive_int (env_val getenv ''OP_AUTORESEARCH_EVAL_TIMEOUT_S'') (ed_eval_timeout b)) (\<lambda>et.
     bindR (positive_int (env_val getenv ''OP_AUTORESEARCH_EVAL_REFERENCE_TIMEOUT_S'') (ed_reference_timeout b)) (\<lambda>rt.
     bindR (positive_int (env_val getenv ''OP_AUTORESEARCH_EVAL_WARMUP_TIMES'') (ed_warmup_times b)) (\<lambda>w.
     bindR (positive_int (env_val getenv ''OP_AUTORESEARCH_EVAL_RUN_TIMES'') (ed_run_times b)) (\<lambda>r.
       Inr \<lparr>ed_eval_timeout = et, ed_reference_timeout = rt, ed_warmup_times = w, ed_run_times = r,
         ed_kill_grace_s = positive_float fl (env_val getenv ''OP_AUTORESEARCH_EVAL_KILL_GRACE_S'') (ed_kill_grace_s b),
         ed_kill_drain_s = positive_float fl (env_val getenv ''OP_AUTORESEARCH_EVAL_KILL_DRAIN_S'') (ed_kill_drain_s b)\<rparr>)))))"

definition resolve_eval_timeout :: "EvalDefaults res \<Rightarrow> pyval \<Rightarrow> int res" where
  "resolve_eval_timeout defaults v = bindR defaults (\<lambda>d. positive_int v (ed_eval_timeout d))"

definition resolve_reference_timeout :: "EvalDefaults res \<Rightarrow> pyval \<Rightarrow> int res" where
  "resolve_reference_timeout defaults v = bindR defaults (\<lambda>d. positive_int v (ed_reference_timeout d))"

definition resolve_warmup_times :: "EvalDefaults res \<Rightarrow> pyval \<Rightarrow> int res" where
  "resolve_warmup_times defaults v = bindR defaults (\<lambda>d. positive_int v (ed_warmup_times d))"

definition resolve_run_times :: "EvalDefaults res \<Rightarrow> pyval \<Rightarrow> int res" where
  "resolve_run_times defaults v = bindR defaults (\<lambda>d. positive_int v (ed_run_times d))"

subsection \<open>Sections of a profile\<close>

definition finite_value :: "pyval \<Rightarrow> real option" where
  "finite_value v = (case num_of v of Some (Fin r) \<Rightarrow> Some r | _ \<Rightarrow> None)"

text \<open>The result file of a profile script: nothing when it is missing or cannot be parsed; what is no object raises.\<close>

definition read_profile_result_from_json :: "pyval option \<Rightarrow> dict option res" where
  "read_profile_result_from_json doc = (case doc of
      None \<Rightarrow> Inr None
    | Some v \<Rightarrow> bindR (as_mapping v) (\<lambda>d.
        let first = finite_value (dget d ''avg_time_us'');
            avg = (if first \<noteq> None \<and> first \<noteq> Some 0 then first else finite_value (dget d ''execution_time_us''));
            cases = (case dget d ''per_case_us'' of PList xs \<Rightarrow> List.map_filter finite_value xs | _ \<Rightarrow> [])
        in Inr (map_option (\<lambda>a. fmap_of_list [(''avg_us'', PFloat (Fin a)),
             (''per_case_us'', PList (map (\<lambda>r. PFloat (Fin r)) (if cases = [] then [a] else cases))), (''method'', dget d ''method'')]) avg)))"

definition valid_override :: "pyval \<Rightarrow> dict option" where
  "valid_override v = (case v of
      PDict d \<Rightarrow> (case num_of (dget d ''avg_us'') of Some (Fin r) \<Rightarrow> if 0 < r then Some d else None | _ \<Rightarrow> None)
    | _ \<Rightarrow> None)"

record profile_machine =
  pm_defaults :: "EvalDefaults res"
  pm_extract :: "unit res"
  pm_python :: "bool res"
  pm_base_script :: bool
  pm_gen_script :: bool
  pm_run_base :: "bool res"
  pm_run_gen :: "bool res"
  pm_base_json :: "pyval option"
  pm_gen_json :: "pyval option"
  pm_trace_base :: "pyfloat option res"
  pm_trace_gen :: "pyfloat option res"
  pm_roofline :: "dict res"
  pm_artifacts :: dict

type_synonym sections = "dict option \<times> dict option"

text \<open>The scripts are run one after the other; each writes its result file.\<close>

definition script_section :: "bool \<Rightarrow> bool res \<Rightarrow> pyval option \<Rightarrow> dict option res" where
  "script_section exists run json =
     (if exists then bindR run (\<lambda>ok. if ok then read_profile_result_from_json json else Inr None) else Inr None)"

definition run_profile_scripts_and_collect_results :: "profile_machine \<Rightarrow> pyval \<Rightarrow> sections res" where
  "run_profile_scripts_and_collect_results pm override =
     bindR (case (override, valid_override override) of
         (PDict _, Some d) \<Rightarrow> Inr (Some d)
       | (v, _) \<Rightarrow> if v \<noteq> PNone \<and> \<not> is_dict v then Inl AttributeError else script_section (pm_base_script pm) (pm_run_base pm) (pm_base_json pm)) (\<lambda>base.
     bindR (script_section (pm_gen_script pm) (pm_run_gen pm) (pm_gen_json pm)) (\<lambda>gen. Inr (base, gen)))"

text \<open>An external profiler attributes one time to a script; an exception ends the loop with what there is.\<close>

definition trace_section :: "string \<Rightarrow> pyfloat option \<Rightarrow> dict option" where
  "trace_section method avg = map_option (\<lambda>f. make_profile_section (PFloat f) PNone method) avg"

definition run_trace_profiling :: "profile_machine \<Rightarrow> string \<Rightarrow> sections" where
  "run_trace_profiling pm method =
     (let gen = (if pm_gen_script pm then (case pm_trace_gen pm of Inl _ \<Rightarrow> None | Inr r \<Rightarrow> trace_section method r) else None)
      in if pm_base_script pm
         then (case pm_trace_base pm of Inl _ \<Rightarrow> (None, None) | Inr r \<Rightarrow> (trace_section method r, gen))
         else (None, gen))"

subsection \<open>Roofline figures\<close>

definition positive_num :: "pyval \<Rightarrow> real option" where
  "positive_num v = (case num_of v of Some (Fin r) \<Rightarrow> if 0 < r then Some r else None | _ \<Rightarrow> None)"

definition roofline_ratio :: "nat \<Rightarrow> pyval list \<Rightarrow> pyval \<Rightarrow> pyval list \<Rightarrow> pyval \<Rightarrow> real option" where
  "roofline_ratio n numer numer_scalar denom denom_scalar =
     (let scalar = (case (positive_num numer_scalar, positive_num denom_scalar) of (Some a, Some b) \<Rightarrow> Some (a / b) | _ \<Rightarrow> None)
      in if 0 < n \<and> length numer = n \<and> length denom = n
         then (case geomean_ratio numer denom of Some g \<Rightarrow> Some g | None \<Rightarrow> scalar) else scalar)"

definition or_zero :: "real option \<Rightarrow> pyval" where
  "or_zero r = PFloat (Fin (case r of None \<Rightarrow> 0 | Some x \<Rightarrow> x))"

definition augment_roofline_metrics :: "dict \<Rightarrow> pyval \<Rightarrow> pyval \<Rightarrow> pyval list \<Rightarrow> pyval list \<Rightarrow> dict res" where
  "augment_roofline_metrics roofline gen_us base_us gens bases =
     bindR (array_or_empty (dget roofline ''case_times_us'')) (\<lambda>case_times.
       let n = length case_times; time = dget roofline ''time_us''
       in Inr (fmupd ''speedup_vs_baseline'' (or_zero (roofline_ratio n case_times time bases base_us))
            (fmupd ''gap_vs_generated'' (real_val (roofline_ratio n gens gen_us case_times time))
              (fmupd ''speedup_vs_generated'' (or_zero (roofline_ratio n case_times time gens gen_us)) roofline))))"

subsection \<open>The local worker\<close>

definition empty_profile_result :: "string option \<Rightarrow> dict" where
  "empty_profile_result err = (let d = fmap_of_list [(''gen_time'', PNone), (''base_time'', PNone), (''speedup'', PFloat (Fin 0)),
     (''per_shape_gen_us'', PList []), (''per_shape_base_us'', PList []), (''gen_method'', PNone), (''base_method'', PNone),
     (''roofline_time'', PNone), (''roofline_speedup'', PFloat (Fin 0)), (''roofline'', PNone), (''artifacts'', PDict fmempty)]
     in case err of None \<Rightarrow> d | Some e \<Rightarrow> fmupd ''error'' (PStr e) d)"

definition dict_item :: "dict \<Rightarrow> string \<Rightarrow> pyval res" where
  "dict_item d k = (case fmlookup d k of None \<Rightarrow> Inl KeyError | Some v \<Rightarrow> Inr v)"

definition as_array :: "pyval \<Rightarrow> pyval list res" where
  "as_array v = (case v of PList xs \<Rightarrow> Inr xs | _ \<Rightarrow> Inl TypeError)"

text \<open>The time, the times per shape and the method of a section; the time of no section is infinite.\<close>

definition section_fields :: "dict option \<Rightarrow> (pyval \<times> pyval list \<times> pyval) res" where
  "section_fields sec = (case sec of
      None \<Rightarrow> Inr (PFloat PosInf, [], PNone)
    | Some d \<Rightarrow> bindR (dict_item d ''avg_us'') (\<lambda>avg. bindR (dict_item d ''per_case_us'') (\<lambda>v. bindR (as_array v) (\<lambda>xs.
        Inr (avg, xs, dget d ''method'')))))"

definition below_inf :: "pyval \<Rightarrow> pyval res" where
  "below_inf v = (case num_of v of None \<Rightarrow> Inl TypeError | Some f \<Rightarrow> Inr (if flt f PosInf then v else PNone))"

definition roofline_fields :: "profile_machine \<Rightarrow> sections \<Rightarrow> pyval \<Rightarrow> pyval \<Rightarrow> pyval list \<Rightarrow> pyval list \<Rightarrow> (pyval \<times> pyval \<times> pyval) res" where
  "roofline_fields pm secs gen_us base_us gens bases = (case snd secs of
      None \<Rightarrow> Inr (PNone, PNone, PFloat (Fin 0))
    | Some _ \<Rightarrow> bindR (pm_roofline pm) (\<lambda>r. bindR (augment_roofline_metrics r gen_us (if fst secs = None then PNone else base_us) gens bases) (\<lambda>a.
        Inr (PDict a, if truthy (dget a ''success'') then dget a ''time_us'' else PNone, dget_default a ''speedup_vs_generated'' (PFloat (Fin 0))))))"

definition profile_speedup :: "sections \<Rightarrow> pyval list \<Rightarrow> pyval list \<Rightarrow> pyval" where
  "profile_speedup secs bases gens = (if fst secs \<noteq> None \<and> snd secs \<noteq> None then or_zero (geomean_ratio bases gens) else PFloat (Fin 0))"

definition profile_document :: "profile_machine \<Rightarrow> sections \<Rightarrow> string option \<Rightarrow> dict res" where
  "profile_document pm secs err =
     bindR (section_fields (snd secs)) (\<lambda>(gen_us, gens, gen_method).
     bindR (section_fields (fst secs)) (\<lambda>(base_us, bases, base_method).
     bindR (roofline_fields pm secs gen_us base_us gens bases) (\<lambda>(roofline, roofline_time, roofline_speedup).
     bindR (below_inf gen_us) (\<lambda>gen_time. bindR (below_inf base_us) (\<lambda>base_time.
       let d = fmap_of_list [(''gen_time'', gen_time), (''base_time'', base_time), (''speedup'', profile_speedup secs bases gens),
             (''per_shape_gen_us'', PList gens), (''per_shape_base_us'', PList bases), (''gen_method'', gen_method), (''base_method'', base_method),
             (''roofline_time'', roofline_time), (''roofline_speedup'', roofline_speedup), (''roofline'', roofline), (''artifacts'', PDict (pm_artifacts pm))]
       in Inr (case err of None \<Rightarrow> d | Some e \<Rightarrow> fmupd ''error'' (PStr e) d))))))"

text \<open>A missing section of the kernel spoils the profile, a missing one of the reference only where it is all there is.\<close>

definition collect_profile :: "profile_machine \<Rightarrow> pyval \<Rightarrow> sections \<Rightarrow> dict res" where
  "collect_profile pm override secs =
     (let base_requested = (pm_base_script pm \<or> valid_override override \<noteq> None)
      in if pm_gen_script pm \<and> snd secs = None then Inr (empty_profile_result (Some ''generation profile failed''))
         else if base_requested \<and> fst secs = None
         then (if snd secs = None then Inr (empty_profile_result (Some ''base profile failed''))
               else profile_document pm secs (Some ''base profile failed''))
         else if \<not> base_requested \<and> \<not> pm_gen_script pm then Inr (empty_profile_result (Some ''no profile section requested''))
         else profile_document pm secs None)"

definition profile_sections :: "profile_machine \<Rightarrow> string \<Rightarrow> pyval \<Rightarrow> sections option res" where
  "profile_sections pm platform override =
     bindR (pm_python pm) (\<lambda>python.
       if python \<or> platform = ''cpu'' then bindR (run_profile_scripts_and_collect_results pm override) (\<lambda>secs. Inr (Some secs))
       else if platform = ''ascend'' then Inr (Some (run_trace_profiling pm ''msprof''))
       else if platform = ''cuda'' then Inr (Some (run_trace_profiling pm ''nsys''))
       else Inr None)"

definition local_profile_body :: "profile_machine \<Rightarrow> string \<Rightarrow> pyval \<Rightarrow> dict res" where
  "local_profile_body pm own_backend opts =
     bindR (pm_extract pm) (\<lambda>_. bindR (as_mapping opts) (\<lambda>st.
     bindR (resolve_run_times (pm_defaults pm) (dget st ''run_times'')) (\<lambda>_.
     bindR (resolve_warmup_times (pm_defaults pm) (dget st ''warmup_times'')) (\<lambda>_.
     bindR (resolve_eval_timeout (pm_defaults pm) (dget st ''timeout'')) (\<lambda>_.
     bindR (profile_sections pm (case dget_default st ''backend'' (PStr own_backend) of PStr b \<Rightarrow> b | _ \<Rightarrow> []) (dget st ''override_base_section'')) (\<lambda>secs.
       case secs of None \<Rightarrow> Inr (empty_profile_result None)
       | Some s \<Rightarrow> collect_profile pm (dget st ''override_base_section'') s))))))"

definition local_profile :: "profile_machine \<Rightarrow> string \<Rightarrow> pyval \<Rightarrow> dict" where
  "local_profile pm own_backend opts = (case local_profile_body pm own_backend opts of
      Inl _ \<Rightarrow> empty_profile_result (Some ''profiling failed'') | Inr d \<Rightarrow> d)"

text \<open>A script that ran to its end has a return code and output; a negative code is a signal.\<close>

datatype script_exit = TimedOut | Exit int string

record script_machine =
  sm_defaults :: "EvalDefaults res"
  sm_extract :: "unit res"
  sm_script :: bool
  sm_run :: "script_exit res"
  sm_artifacts :: dict
  sm_result_json :: "pyval option res"
  sm_float :: "string \<Rightarrow> pyfloat option"
  sm_reference :: "string option"

definition signal_names :: "(int \<times> string) list" where
  "signal_names = [(1, ''SIGHUP''), (2, ''SIGINT''), (3, ''SIGQUIT''), (6, ''SIGABRT''), (9, ''SIGKILL''), (11, ''SIGSEGV''), (13, ''SIGPIPE''), (15, ''SIGTERM'')]"

definition get_signal_name :: "int \<Rightarrow> string" where
  "get_signal_name n = (case map_of signal_names n of Some s \<Rightarrow> s | None \<Rightarrow> ''SIG('' @ int_str n @ '')'')"

definition verify_output :: "int \<Rightarrow> string \<Rightarrow> string" where
  "verify_output rc out = (if rc < 0 \<and> strip out = []
     then ''Process terminated by signal '' @ int_str (- rc) @ '' ('' @ get_signal_name (- rc) @ '').'' @ [newline]
        @ ''No output captured (process died before writing to stdout/stderr).'' @ [newline]
     else out)"

definition local_verify :: "script_machine \<Rightarrow> pyval \<Rightarrow> (bool \<times> string \<times> dict) res" where
  "local_verify sm timeout = bindR (resolve_eval_timeout (sm_defaults sm) timeout) (\<lambda>t.
     Inr (case bindR (sm_extract sm) (\<lambda>_. if sm_script sm then bindR (sm_run sm) (\<lambda>x. Inr (Some x)) else Inr None) of
         Inl _ \<Rightarrow> (False, ''verification failed'', fmempty)
       | Inr None \<Rightarrow> (False, ''Verification script not found.'', fmempty)
       | Inr (Some TimedOut) \<Rightarrow> (False, ''Verification timed out after '' @ int_str t @ '' seconds.'', fmempty)
       | Inr (Some (Exit rc out)) \<Rightarrow> (rc = 0, verify_output rc out, sm_artifacts sm)))"

definition single_failed :: "string \<Rightarrow> dict" where
  "single_failed l = fmap_of_list [(''time_us'', PNone), (''success'', PBool False), (''log'', PStr l)]"

text \<open>The time a script printed, when it wrote no result file: the last \<open>PROFILE_RESULT:\<close> that is a number.\<close>

definition printed_time :: "script_machine \<Rightarrow> pyval \<Rightarrow> string \<Rightarrow> pyval" where
  "printed_time sm t line = (case index_of ''PROFILE_RESULT:'' line of
      None \<Rightarrow> t
    | Some i \<Rightarrow> (let r = drop (i + 15) line; u = (case index_of ''PROFILE_RESULT:'' r of None \<Rightarrow> r | Some j \<Rightarrow> take j r)
        in case sm_float sm (strip u) of None \<Rightarrow> t | Some f \<Rightarrow> PFloat f))"

definition single_time :: "script_machine \<Rightarrow> string \<Rightarrow> pyval res" where
  "single_time sm out = bindR (sm_result_json sm) (\<lambda>doc. case doc of
      Some v \<Rightarrow> bindR (as_mapping v) (\<lambda>d. Inr (dget d ''avg_time_us''))
    | None \<Rightarrow> Inr (foldl (printed_time sm) PNone (split_lines out)))"

definition usable_time :: "script_machine \<Rightarrow> pyval \<Rightarrow> real option" where
  "usable_time sm v = (case (case v of PStr s \<Rightarrow> sm_float sm s | _ \<Rightarrow> num_of v) of Some (Fin r) \<Rightarrow> if r \<le> 0 then None else Some r | _ \<Rightarrow> None)"

definition local_profile_single_task :: "script_machine \<Rightarrow> pyval \<Rightarrow> dict" where
  "local_profile_single_task sm opts =
     (case bindR (sm_extract sm) (\<lambda>_. if \<not> sm_script sm then Inr (single_failed ''Profile script not found'')
        else bindR (as_mapping opts) (\<lambda>st. bindR (resolve_eval_timeout (sm_defaults sm) (dget st ''timeout'')) (\<lambda>t. bindR (sm_run sm) (\<lambda>x. case x of
            TimedOut \<Rightarrow> Inr (single_failed (''Timed out after '' @ int_str t @ '' seconds''))
          | Exit rc out \<Rightarrow> if rc \<noteq> 0 then Inr (single_failed out)
              else bindR (single_time sm out) (\<lambda>v. Inr (fmap_of_list [(''time_us'', real_val (usable_time sm v)),
                 (''success'', PBool (usable_time sm v \<noteq> None)), (''log'', PStr out)])))))) of
        Inl _ \<Rightarrow> single_failed ''profiling failed'' | Inr d \<Rightarrow> d)"

definition local_generate_reference :: "script_machine \<Rightarrow> pyval \<Rightarrow> (bool \<times> string \<times> string) res" where
  "local_generate_reference sm timeout = bindR (resolve_reference_timeout (sm_defaults sm) timeout) (\<lambda>t.
     Inr (case bindR (sm_extract sm) (\<lambda>_. if sm_script sm then bindR (sm_run sm) (\<lambda>x. Inr (Some x)) else Inr None) of
         Inl _ \<Rightarrow> (False, ''reference generation failed'', [])
       | Inr None \<Rightarrow> (False, ''Verification script not found.'', [])
       | Inr (Some TimedOut) \<Rightarrow> (False, ''Reference generation timed out after '' @ int_str t @ '' seconds.'', [])
       | Inr (Some (Exit rc out)) \<Rightarrow>
           if rc \<noteq> 0 then (False, out, [])
           else if \<not> contains ''REFERENCE_GENERATION_SUCCESS'' out then (False, ''Reference generation did not complete successfully:'' @ [newline] @ out, [])
           else (case sm_reference sm of None \<Rightarrow> (False, ''Reference file not found after generation.'', []) | Some b \<Rightarrow> (True, out, b))))"

subsection \<open>The service\<close>

definition json_safe :: "pyval \<Rightarrow> pyval" where
  "json_safe v = sanitize_floats v"

datatype reply = Reply pyval | HttpStatus nat | NoConnection | RequestFailed

text \<open>The lease of the caller is kept alive around the work; an error becomes a status. A missing key is a \<open>LookupError\<close>.\<close>

definition guarded :: "unit res \<Rightarrow> pyval res \<Rightarrow> reply" where
  "guarded keepalive work = (case bindR keepalive (\<lambda>_. work) of
      Inr v \<Rightarrow> Reply v
    | Inl e \<Rightarrow> HttpStatus (if e = LookupError \<or> e = KeyError then 409 else if e = ValueError then 400 else 500))"

definition serve_verify :: "bool \<Rightarrow> unit res \<Rightarrow> script_machine \<Rightarrow> pyval \<Rightarrow> reply" where
  "serve_verify ready keepalive sm timeout = (if \<not> ready then HttpStatus 503
     else guarded keepalive (bindR (resolve_eval_timeout (sm_defaults sm) timeout) (\<lambda>t. bindR (local_verify sm (PInt t)) (\<lambda>(ok, l, artifacts).
       Inr (json_safe (PDict (fmap_of_list [(''success'', PBool ok), (''log'', PStr l), (''artifacts'', PDict artifacts)])))))))"

text \<open>The settings arrive as text; \<open>None\<close> is text that is no JSON.\<close>

definition serve_profile :: "bool \<Rightarrow> unit res \<Rightarrow> profile_machine \<Rightarrow> string \<Rightarrow> pyval option \<Rightarrow> reply" where
  "serve_profile ready keepalive pm own_backend opts = (if \<not> ready then HttpStatus 503 else case opts of
      None \<Rightarrow> HttpStatus 400
    | Some st \<Rightarrow> guarded keepalive (Inr (json_safe (PDict (local_profile pm own_backend st)))))"

definition serve_profile_single_task :: "bool \<Rightarrow> unit res \<Rightarrow> script_machine \<Rightarrow> pyval option \<Rightarrow> reply" where
  "serve_profile_single_task ready keepalive sm opts = (if \<not> ready then HttpStatus 503 else case opts of
      None \<Rightarrow> HttpStatus 400
    | Some st \<Rightarrow> guarded keepalive (Inr (json_safe (PDict (local_profile_single_task sm st)))))"

definition serve_generate_reference :: "(string \<Rightarrow> string) \<Rightarrow> bool \<Rightarrow> unit res \<Rightarrow> script_machine \<Rightarrow> pyval \<Rightarrow> reply" where
  "serve_generate_reference base64 ready keepalive sm timeout = (if \<not> ready then HttpStatus 503
     else guarded keepalive (bindR (resolve_reference_timeout (sm_defaults sm) timeout) (\<lambda>t. bindR (local_generate_reference sm (PInt t)) (\<lambda>(ok, l, bytes).
       Inr (PDict (fmap_of_list [(''success'', PBool ok), (''log'', PStr l), (''reference_data'', PStr (if ok then base64 bytes else []))]))))))"

text \<open>\<open>acquire_device\<close> answers with the lease the pool granted, or why it did not.\<close>

definition serve_acquire_device :: "bool \<Rightarrow> (int \<times> nat) res \<Rightarrow> reply" where
  "serve_acquire_device ready granted = (if \<not> ready then HttpStatus 503 else case granted of
      Inr (d, n) \<Rightarrow> Reply (PDict (fmap_of_list [(''device_id'', PInt d), (''lease_id'', PInt (int n))]))
    | Inl e \<Rightarrow> HttpStatus (if e = TimeoutError then 503 else 500))"

definition serve_release_device :: "bool \<Rightarrow> int \<Rightarrow> nat \<Rightarrow> device_pool \<Rightarrow> device_pool \<times> reply" where
  "serve_release_device ready d n p = (if \<not> ready then (p, HttpStatus 503)
     else (fst (release_device d n p), Reply (PDict (fmap_of_list [(''status'', PStr ''ok'')]))))"

text \<open>The health check takes a free device and puts it back, at the end of the queue.\<close>

definition health_probe :: "device_pool \<Rightarrow> device_pool \<times> int option" where
  "health_probe p = (case available_devices p of
      [] \<Rightarrow> (p, None) | d # ds \<Rightarrow> (p\<lparr>available_devices := ds @ [d]\<rparr>, Some d))"

definition worker_variables :: "string list" where
  "worker_variables = [''WORKER_BACKEND'', ''WORKER_ARCH'', ''WORKER_DEVICES'']"

definition env_text :: "(string \<Rightarrow> string option) \<Rightarrow> string \<Rightarrow> string" where
  "env_text getenv key = (case getenv key of None \<Rightarrow> [] | Some s \<Rightarrow> strip s)"

definition get_worker_config :: "(string \<Rightarrow> string option) \<Rightarrow> (string \<Rightarrow> string \<Rightarrow> unit res) \<Rightarrow> (string \<times> string \<times> int list) res" where
  "get_worker_config getenv check_backend_arch =
     (let v = env_text getenv; missing = filter (\<lambda>n. v n = []) worker_variables
      in if missing \<noteq> [] then Inl (RuntimeError (''worker configuration missing: '' @ join '', '' missing))
         else bindR (check_backend_arch (v ''WORKER_BACKEND'') (v ''WORKER_ARCH'')) (\<lambda>_.
              bindR (all_ints (\<lambda>s. int_of_str (strip s)) (split_on CHR '','' (v ''WORKER_DEVICES''))) (\<lambda>devices.
                if list_ex (\<lambda>d. d < 0) devices then Inl ValueError else Inr (v ''WORKER_BACKEND'', v ''WORKER_ARCH'', devices))))"

subsection \<open>The remote worker\<close>

text \<open>\<open>WORKER_TRANSIENT_ATTEMPTS\<close>, two when it is not set.\<close>

definition transient_retry_attempts :: "string option \<Rightarrow> nat res" where
  "transient_retry_attempts v = bindR (int_of_str (case v of None \<Rightarrow> ''2'' | Some s \<Rightarrow> s)) (\<lambda>n. Inr (nat (max 1 n)))"

text \<open>Attempts that are left, from attempt \<open>k\<close> on; what the network answers to each, and how often the tunnel was rebuilt.\<close>

fun post_attempts :: "(nat \<Rightarrow> reply) \<Rightarrow> nat \<Rightarrow> nat \<Rightarrow> reply \<times> nat" where
  "post_attempts net 0 k = (NoConnection, 0)"
| "post_attempts net (Suc n) k = (case net k of
      NoConnection \<Rightarrow> if n = 0 then (NoConnection, 0) else (case post_attempts net n (Suc k) of (r, c) \<Rightarrow> (r, Suc c))
    | r \<Rightarrow> (r, 0))"

record remote_env =
  re_defaults :: "EvalDefaults res"
  re_callback :: bool
  re_attempts :: "string option"
  re_net :: "nat \<Rightarrow> reply"

definition post_with_reconnect :: "remote_env \<Rightarrow> reply res" where
  "post_with_reconnect re = bindR (if re_callback re then transient_retry_attempts (re_attempts re) else Inr 1) (\<lambda>n.
     Inr (fst (post_attempts (re_net re) n 0)))"

text \<open>The document of an answer, for the callers that read fields of it.\<close>

definition reply_document :: "reply res \<Rightarrow> dict option" where
  "reply_document r = (case r of Inr (Reply (PDict d)) \<Rightarrow> Some d | _ \<Rightarrow> None)"

definition remote_verify :: "remote_env \<Rightarrow> pyval \<Rightarrow> (pyval \<times> pyval \<times> pyval) res" where
  "remote_verify re timeout = bindR (resolve_eval_timeout (re_defaults re) timeout) (\<lambda>_. Inr (case reply_document (post_with_reconnect re) of
      Some d \<Rightarrow> (dget_default d ''success'' (PBool False), dget_default d ''log'' (PStr []), dget_default d ''artifacts'' (PDict fmempty))
    | None \<Rightarrow> (PBool False, PStr ''remote verification failed'', PDict fmempty)))"

definition remote_profile :: "remote_env \<Rightarrow> dict \<Rightarrow> dict res" where
  "remote_profile re opts = bindR (resolve_eval_timeout (re_defaults re) (dget opts ''timeout'')) (\<lambda>_.
     Inr (case reply_document (post_with_reconnect re) of Some d \<Rightarrow> d | None \<Rightarrow> empty_profile_result (Some ''remote profiling failed'')))"

text \<open>The answer is handed on as it is.\<close>

definition remote_profile_single_task :: "remote_env \<Rightarrow> dict \<Rightarrow> pyval res" where
  "remote_profile_single_task re opts = bindR (resolve_eval_timeout (re_defaults re) (dget opts ''timeout'')) (\<lambda>_.
     Inr (case post_with_reconnect re of Inr (Reply v) \<Rightarrow> v | _ \<Rightarrow> PDict (single_failed ''remote profiling failed'')))"

definition remote_generate_reference :: "(string \<Rightarrow> string option) \<Rightarrow> remote_env \<Rightarrow> pyval \<Rightarrow> (bool \<times> pyval \<times> string) res" where
  "remote_generate_reference unbase64 re timeout = bindR (resolve_reference_timeout (re_defaults re) timeout) (\<lambda>_.
     Inr (case reply_document (post_with_reconnect re) of
        None \<Rightarrow> (False, PStr ''remote reference generation failed'', [])
      | Some d \<Rightarrow>
          if \<not> truthy (dget_default d ''success'' (PBool False)) then (False, dget_default d ''log'' (PStr []), [])
          else (case dget_default d ''reference_data'' (PStr []) of
              PStr [] \<Rightarrow> (False, PStr ''No reference data in response'', [])
            | PStr s \<Rightarrow> (case unbase64 s of Some b \<Rightarrow> (True, dget_default d ''log'' (PStr []), b) | None \<Rightarrow> (False, PStr ''remote reference generation failed'', []))
            | v \<Rightarrow> (False, PStr (if truthy v then ''remote reference generation failed'' else ''No reference data in response''), []))))"

text \<open>The lease of a coroutine: the task, the device and the token it holds.\<close>

type_synonym active_lease = "(string \<times> int \<times> int) option"

definition is_int :: "pyval \<Rightarrow> int option" where
  "is_int v = (case v of PInt i \<Rightarrow> Some i | PBool b \<Rightarrow> Some (if b then 1 else 0) | _ \<Rightarrow> None)"

definition remote_acquire_device :: "remote_env \<Rightarrow> string \<Rightarrow> active_lease \<Rightarrow> active_lease \<times> (int \<times> int) res" where
  "remote_acquire_device re task_id active = (case reply_document (post_with_reconnect re) of
      Some d \<Rightarrow> (case (is_int (dget d ''device_id''), is_int (dget d ''lease_id'')) of
          (Some dev, Some n) \<Rightarrow> (Some (task_id, dev, n), Inr (dev, n))
        | _ \<Rightarrow> (active, Inl (RuntimeError ''invalid lease token'')))
    | None \<Rightarrow> (active, Inl (RuntimeError ''Failed to acquire remote device'')))"

definition remote_release_device :: "string \<Rightarrow> int \<Rightarrow> int \<Rightarrow> active_lease \<Rightarrow> active_lease" where
  "remote_release_device task_id dev n active = (if active = Some (task_id, dev, n) then None else active)"

definition attach_active_lease :: "active_lease \<Rightarrow> dict \<Rightarrow> string \<Rightarrow> dict" where
  "attach_active_lease active data task_id = (case active of
      Some (t, dev, n) \<Rightarrow> if t = task_id then fmupd ''lease_id'' (PStr (int_str n)) (fmupd ''device_id'' (PStr (int_str dev)) data) else data
    | None \<Rightarrow> data)"

end
