(* ===== verification/Data_Cache.thy ===== *)
theory Data_Cache
  imports Baseline_Anchor
begin

text \<open>
  The persistent data cache of the verifier (\<open>src/op_autoresearch/op/verifier/data_cache.py\<close>): its configuration,
  its keys, and the files of reference data and baseline results. Environment variables, path expansion, the
  dump of Python's parser, \<open>float\<close> of a text and the outcome of file accesses are functions of the environment. A
  file of results is the document it holds, or nothing when its text is no JSON; hashes are taken of the text.
\<close>

subsection \<open>Configuration\<close>

record cache_env =
  ce_rt :: runtime
  ce_getenv :: "string \<Rightarrow> string option"
  ce_expandvars :: "string \<Rightarrow> string"
  ce_expanduser :: "string \<Rightarrow> string"
  ce_path :: "string \<Rightarrow> string"
  ce_home_cache :: string
  ce_ast_dump :: "string \<Rightarrow> string option"
  ce_float :: "string \<Rightarrow> pyfloat option"
  ce_now :: real
  ce_readable :: "string \<Rightarrow> bool"
  ce_writable :: "string \<Rightarrow> bool"
  ce_removable :: "string \<Rightarrow> bool"

record VerifierDataCacheConfig =
  enabled :: bool
  cache_dir :: string
  cache_reference_data :: bool
  cache_baseline_result :: bool

definition get_data_cache_options :: "pyval \<Rightarrow> dict" where
  "get_data_cache_options config = (case config of
      PDict d \<Rightarrow> (case py_or (dget d ''data_cache'') (PDict fmempty) of PDict raw \<Rightarrow> raw | _ \<Rightarrow> fmempty)
    | _ \<Rightarrow> fmempty)"

definition parse_bool :: "pyval \<Rightarrow> bool \<Rightarrow> bool" where
  "parse_bool v deflt = (case v of
      PBool b \<Rightarrow> b
    | PInt i \<Rightarrow> i \<noteq> 0
    | PFloat f \<Rightarrow> f \<noteq> Fin 0
    | PStr s \<Rightarrow> (let t = map lower (strip s)
        in if t \<in> {''1'', ''true'', ''yes'', ''on''} then True
           else if t \<in> {''0'', ''false'', ''no'', ''off''} then False else deflt)
    | _ \<Rightarrow> deflt)"

definition get_env_override :: "cache_env \<Rightarrow> string \<Rightarrow> string" where
  "get_env_override env key = (case ce_getenv env (''OP_AUTORESEARCH_'' @ key) of None \<Rightarrow> [] | Some s \<Rightarrow> strip s)"

definition str_or :: "cache_env \<Rightarrow> pyval \<Rightarrow> string \<Rightarrow> string" where
  "str_or env v deflt = (if truthy v then py_str (ce_rt env) v else deflt)"

definition path_join :: "string \<Rightarrow> string \<Rightarrow> string" where
  "path_join d f = (if f \<noteq> [] \<and> f ! 0 = CHR ''/'' then f else if d = [] \<or> last d = CHR ''/'' then d @ f else d @ ''/'' @ f)"

definition normalize_cache_dir :: "cache_env \<Rightarrow> pyval \<Rightarrow> string" where
  "normalize_cache_dir env dir =
     (let stripped = strip (str_or env dir (ce_home_cache env));
          raw = ce_expandvars env (if stripped = [] then ce_home_cache env else stripped)
      in ce_path env (case ce_getenv env ''HOME'' of
           Some home \<Rightarrow>
             if home \<noteq> [] \<and> (raw = ''~'' \<or> starts_with ''~/'' raw \<or> starts_with (CHR ''~'' # [CHR 0x5C]) raw)
             then (if 1 < length raw then path_join home (drop 2 raw) else home)
             else ce_expanduser env raw
         | None \<Rightarrow> ce_expanduser env raw))"

definition load_verifier_data_cache_config :: "cache_env \<Rightarrow> pyval \<Rightarrow> VerifierDataCacheConfig" where
  "load_verifier_data_cache_config env config =
     (let raw = get_data_cache_options config;
          env_enabled = get_env_override env ''VERIFY_DATA_CACHE''; env_dir = get_env_override env ''VERIFY_DATA_CACHE_DIR'';
          en = parse_bool (dget raw ''enabled'') False
      in \<lparr>enabled = (if env_enabled = [] then en else parse_bool (PStr env_enabled) en),
          cache_dir = normalize_cache_dir env (PStr (if env_dir = [] then str_or env (dget raw ''cache_dir'') (ce_home_cache env) else env_dir)),
          cache_reference_data = parse_bool (dget raw ''cache_reference_data'') True,
          cache_baseline_result = parse_bool (dget raw ''cache_baseline_result'') True\<rparr>)"

definition get_verifier_data_cache_key_id :: "cache_env \<Rightarrow> pyval \<Rightarrow> string \<Rightarrow> string" where
  "get_verifier_data_cache_key_id env config default_task_id =
     (let key_id = strip (str_or env (dget (get_data_cache_options config) ''cache_key_id'') [])
      in if key_id = [] then strip default_task_id else key_id)"

text \<open>The configuration is changed in place.\<close>

definition set_verifier_data_cache_key_id :: "cache_env \<Rightarrow> pyval \<Rightarrow> string \<Rightarrow> bool \<Rightarrow> pyval" where
  "set_verifier_data_cache_key_id env config key_id overwrite = (case config of
      PDict d \<Rightarrow>
        let raw = (case dget d ''data_cache'' of PDict r \<Rightarrow> r | _ \<Rightarrow> fmempty);
            raw' = (if overwrite \<or> strip (str_or env (dget raw ''cache_key_id'') []) = []
                    then fmupd ''cache_key_id'' (PStr (strip key_id)) raw else raw)
        in PDict (fmupd ''data_cache'' (PDict raw') d)
    | _ \<Rightarrow> config)"

definition build_workflow_data_cache_key_id :: "string list \<Rightarrow> string" where
  "build_workflow_data_cache_key_id components = join '':'' (map strip components)"

subsection \<open>Keys\<close>

definition is_name_char :: "char \<Rightarrow> bool" where
  "is_name_char c \<longleftrightarrow> is_word c \<or> c = CHR ''-''"

definition strip_char :: "char \<Rightarrow> string \<Rightarrow> string" where
  "strip_char c s = rev (dropWhile (\<lambda>x. x = c) (rev (dropWhile (\<lambda>x. x = c) s)))"

definition sanitize_name :: "string \<Rightarrow> string" where
  "sanitize_name name = (let s = strip_char CHR ''_'' (map (\<lambda>c. if is_name_char c then c else CHR ''_'') name)
     in if s = [] then ''entry'' else s)"

definition normalize_framework_code :: "cache_env \<Rightarrow> string \<Rightarrow> string" where
  "normalize_framework_code env code = (let stripped = strip code
     in if stripped = [] then [] else case ce_ast_dump env stripped of Some d \<Rightarrow> d | None \<Rightarrow> stripped)"

text \<open>\<open>json.dumps\<close> of an object with text and number values, its keys given in sorted order, with non-ASCII text kept.\<close>

definition hex_digit :: "nat \<Rightarrow> char" where
  "hex_digit n = ''0123456789abcdef'' ! n"

definition json_char :: "char \<Rightarrow> string" where
  "json_char c = (let n = (of_char c :: nat) in
     if n = 34 then [CHR 0x5C, CHR 0x22] else if n = 92 then [CHR 0x5C, CHR 0x5C]
     else if n = 10 then [CHR 0x5C, CHR ''n''] else if n = 13 then [CHR 0x5C, CHR ''r'']
     else if n = 9 then [CHR 0x5C, CHR ''t''] else if n = 8 then [CHR 0x5C, CHR ''b''] else if n = 12 then [CHR 0x5C, CHR ''f'']
     else if n < 32 then [CHR 0x5C, CHR ''u'', CHR ''0'', CHR ''0'', hex_digit (n div 16), hex_digit (n mod 16)]
     else [c])"

definition json_string :: "string \<Rightarrow> string" where
  "json_string s = CHR 0x22 # concat (map json_char s) @ [CHR 0x22]"

datatype json_scalar = JText string | JNumber int

fun json_value :: "json_scalar \<Rightarrow> string" where
  "json_value (JText s) = json_string s"
| "json_value (JNumber i) = int_str i"

definition json_member :: "string \<times> json_scalar \<Rightarrow> string" where
  "json_member kv = json_string (fst kv) @ '': '' @ json_value (snd kv)"

definition json_object :: "(string \<times> json_scalar) list \<Rightarrow> string" where
  "json_object kvs = ''{'' @ join '', '' (map json_member kvs) @ ''}''"

definition build_hash :: "cache_env \<Rightarrow> (string \<times> json_scalar) list \<Rightarrow> string" where
  "build_hash env payload = sha256_hex (ce_rt env) (json_object payload)"

record cache_request =
  cr_op_name :: string
  cr_framework_code :: string
  cr_framework :: string
  cr_backend :: string
  cr_arch :: string
  cr_bench_type :: string
  cr_task_id :: string
  cr_dsl :: string
  cr_warmup_times :: int
  cr_run_times :: int

definition reference_payload :: "cache_env \<Rightarrow> cache_request \<Rightarrow> (string \<times> json_scalar) list" where
  "reference_payload env rq = [(''arch'', JText (cr_arch rq)), (''backend'', JText (cr_backend rq)), (''bench_type'', JText (cr_bench_type rq)),
     (''framework'', JText (cr_framework rq)), (''framework_code'', JText (normalize_framework_code env (cr_framework_code rq))),
     (''op_name'', JText (cr_op_name rq)), (''task_id'', JText (cr_task_id rq)), (''type'', JText ''reference_data''), (''version'', JNumber 2)]"

definition baseline_payload :: "cache_env \<Rightarrow> cache_request \<Rightarrow> (string \<times> json_scalar) list" where
  "baseline_payload env rq = [(''arch'', JText (cr_arch rq)), (''backend'', JText (cr_backend rq)), (''bench_type'', JText (cr_bench_type rq)),
     (''dsl'', JText (cr_dsl rq)), (''framework'', JText (cr_framework rq)),
     (''framework_code'', JText (normalize_framework_code env (cr_framework_code rq))), (''op_name'', JText (cr_op_name rq)),
     (''run_times'', JNumber (cr_run_times rq)), (''task_id'', JText (cr_task_id rq)), (''type'', JText ''baseline_profile''), (''version'', JNumber 2),
     (''warmup_times'', JNumber (cr_warmup_times rq))]"

definition build_reference_cache_key :: "cache_env \<Rightarrow> cache_request \<Rightarrow> string" where
  "build_reference_cache_key env rq = build_hash env (reference_payload env rq)"

definition build_baseline_cache_key :: "cache_env \<Rightarrow> cache_request \<Rightarrow> string" where
  "build_baseline_cache_key env rq = build_hash env (baseline_payload env rq)"

definition cache_root :: "cache_env \<Rightarrow> VerifierDataCacheConfig \<Rightarrow> string" where
  "cache_root env cfg = normalize_cache_dir env (PStr (cache_dir cfg))"

definition cache_stem :: "string \<Rightarrow> string \<Rightarrow> string" where
  "cache_stem op_name key = sanitize_name op_name @ ''_'' @ key"

definition reference_cache_paths :: "cache_env \<Rightarrow> VerifierDataCacheConfig \<Rightarrow> string \<Rightarrow> string \<Rightarrow> string \<times> string" where
  "reference_cache_paths env cfg op_name key = (let base = cache_root env cfg @ ''/reference/'' @ cache_stem op_name key
     in (base @ ''.pt'', base @ ''.json''))"

definition baseline_cache_path :: "cache_env \<Rightarrow> VerifierDataCacheConfig \<Rightarrow> string \<Rightarrow> string \<Rightarrow> string" where
  "baseline_cache_path env cfg op_name key = cache_root env cfg @ ''/baseline/'' @ cache_stem op_name key @ ''.json''"

definition cache_lock_dir :: "cache_env \<Rightarrow> VerifierDataCacheConfig \<Rightarrow> string \<Rightarrow> string \<Rightarrow> string \<Rightarrow> string" where
  "cache_lock_dir env cfg namespace op_name key =
     cache_root env cfg @ ''/.locks/'' @ sanitize_name namespace @ ''_'' @ cache_stem op_name key @ ''.lock''"

subsection \<open>Files\<close>

text \<open>The files of the cache: reference data by path, and documents by path; a document whose text is no JSON is \<open>None\<close>.\<close>

record cache_fs =
  cf_data :: "(string, string) fmap"
  cf_docs :: "(string, pyval option) fmap"

text \<open>\<open>os.replace\<close> of a temporary file: the whole content or none.\<close>

definition write_data :: "cache_env \<Rightarrow> string \<Rightarrow> string \<Rightarrow> cache_fs \<Rightarrow> cache_fs \<times> bool" where
  "write_data env path content fs = (if ce_writable env path then (fs\<lparr>cf_data := fmupd path content (cf_data fs)\<rparr>, True) else (fs, False))"

definition write_doc :: "cache_env \<Rightarrow> string \<Rightarrow> dict \<Rightarrow> cache_fs \<Rightarrow> cache_fs \<times> bool" where
  "write_doc env path doc fs = (if ce_writable env path then (fs\<lparr>cf_docs := fmupd path (Some (PDict doc)) (cf_docs fs)\<rparr>, True) else (fs, False))"

definition unlink_data :: "cache_env \<Rightarrow> string \<Rightarrow> cache_fs \<Rightarrow> cache_fs" where
  "unlink_data env path fs = (if ce_removable env path then fs\<lparr>cf_data := fmdrop path (cf_data fs)\<rparr> else fs)"

definition unlink_doc :: "cache_env \<Rightarrow> string \<Rightarrow> cache_fs \<Rightarrow> cache_fs" where
  "unlink_doc env path fs = (if ce_removable env path then fs\<lparr>cf_docs := fmdrop path (cf_docs fs)\<rparr> else fs)"

definition read_reference_data_from_cache :: "cache_env \<Rightarrow> VerifierDataCacheConfig \<Rightarrow> string \<Rightarrow> string \<Rightarrow> cache_fs \<Rightarrow> string option" where
  "read_reference_data_from_cache env cfg op_name key fs =
     (if \<not> enabled cfg \<or> \<not> cache_reference_data cfg then None
      else let path = fst (reference_cache_paths env cfg op_name key)
           in if ce_readable env path then fmlookup (cf_data fs) path else None)"

definition write_reference_data_to_cache ::
    "cache_env \<Rightarrow> VerifierDataCacheConfig \<Rightarrow> string \<Rightarrow> string \<Rightarrow> string \<Rightarrow> dict \<Rightarrow> cache_fs \<Rightarrow> cache_fs \<times> string option" where
  "write_reference_data_to_cache env cfg op_name key bytes metadata fs =
     (if \<not> enabled cfg \<or> \<not> cache_reference_data cfg \<or> bytes = [] then (fs, None)
      else let (data_path, meta_path) = reference_cache_paths env cfg op_name key;
               payload = fmap_of_list [(''type'', PStr ''reference_data''), (''cache_key'', PStr key), (''op_name'', PStr op_name),
                 (''created_at'', PTime (ce_now env)), (''size_bytes'', PInt (int (length bytes)))] ++\<^sub>f metadata
           in (case write_data env data_path bytes fs of
                 (fs1, False) \<Rightarrow> (fs1, None)
               | (fs1, True) \<Rightarrow> (case write_doc env meta_path payload fs1 of
                     (fs2, False) \<Rightarrow> (fs2, None)
                   | (fs2, True) \<Rightarrow> (fs2, Some data_path))))"

definition delete_reference_data_from_cache :: "cache_env \<Rightarrow> VerifierDataCacheConfig \<Rightarrow> string \<Rightarrow> string \<Rightarrow> cache_fs \<Rightarrow> cache_fs" where
  "delete_reference_data_from_cache env cfg op_name key fs = (let (data_path, meta_path) = reference_cache_paths env cfg op_name key
     in unlink_doc env meta_path (unlink_data env data_path fs))"

text \<open>A result that cannot be read is removed.\<close>

definition read_baseline_result_from_cache :: "cache_env \<Rightarrow> VerifierDataCacheConfig \<Rightarrow> string \<Rightarrow> string \<Rightarrow> cache_fs \<Rightarrow> cache_fs \<times> pyval" where
  "read_baseline_result_from_cache env cfg op_name key fs =
     (if \<not> enabled cfg \<or> \<not> cache_baseline_result cfg then (fs, PNone)
      else let path = baseline_cache_path env cfg op_name key
           in (case fmlookup (cf_docs fs) path of
                 None \<Rightarrow> (fs, PNone)
               | Some doc \<Rightarrow> (case (ce_readable env path, doc) of
                     (True, Some v) \<Rightarrow> (fs, v)
                   | _ \<Rightarrow> (unlink_doc env path fs, PNone))))"

definition write_baseline_result_to_cache ::
    "cache_env \<Rightarrow> VerifierDataCacheConfig \<Rightarrow> string \<Rightarrow> string \<Rightarrow> dict \<Rightarrow> dict \<Rightarrow> cache_fs \<Rightarrow> cache_fs \<times> string option" where
  "write_baseline_result_to_cache env cfg op_name key result_data metadata fs =
     (if \<not> enabled cfg \<or> \<not> cache_baseline_result cfg \<or> result_data = fmempty then (fs, None)
      else let path = baseline_cache_path env cfg op_name key;
               payload = fmap_of_list [(''type'', PStr ''baseline_profile''), (''cache_key'', PStr key), (''op_name'', PStr op_name),
                 (''created_at'', PTime (ce_now env))] ++\<^sub>f result_data ++\<^sub>f metadata
           in (case write_doc env path payload fs of (fs1, ok) \<Rightarrow> (fs1, if ok then Some path else None)))"

definition delete_baseline_result_from_cache :: "cache_env \<Rightarrow> VerifierDataCacheConfig \<Rightarrow> string \<Rightarrow> string \<Rightarrow> cache_fs \<Rightarrow> cache_fs" where
  "delete_baseline_result_from_cache env cfg op_name key fs = unlink_doc env (baseline_cache_path env cfg op_name key) fs"

text \<open>\<open>float(v)\<close>, where it does not raise.\<close>

definition float_of :: "cache_env \<Rightarrow> pyval \<Rightarrow> pyfloat option" where
  "float_of env v = (case v of PStr s \<Rightarrow> ce_float env s | _ \<Rightarrow> num_of v)"

definition usable_us :: "pyfloat option \<Rightarrow> real option" where
  "usable_us f = (case f of Some (Fin r) \<Rightarrow> if 0 < r then Some r else None | _ \<Rightarrow> None)"

fun first_usable :: "real option list \<Rightarrow> real option" where
  "first_usable [] = None"
| "first_usable (x # xs) = (case x of None \<Rightarrow> first_usable xs | Some r \<Rightarrow> Some r)"

definition extract_baseline_time_us :: "cache_env \<Rightarrow> pyval \<Rightarrow> real option res" where
  "extract_baseline_time_us env v =
     (if \<not> truthy v then Inr None
      else case v of
          PDict d \<Rightarrow> Inr (first_usable (map (\<lambda>k. usable_us (float_of env (dget d k))) [''avg_time_us'', ''execution_time_us'', ''base_time_us'']))
        | _ \<Rightarrow> Inl AttributeError)"

definition build_baseline_cache_payload :: "real \<Rightarrow> int \<Rightarrow> int \<Rightarrow> string option \<Rightarrow> dict \<Rightarrow> dict" where
  "build_baseline_cache_payload base_us warmup runs method extra =
     (let p = fmap_of_list [(''avg_time_us'', PFloat (Fin base_us)), (''execution_time_us'', PFloat (Fin base_us)),
            (''execution_time_ms'', PFloat (Fin (base_us / 1000))), (''warmup_times'', PInt warmup), (''run_times'', PInt runs)]
      in (case method of None \<Rightarrow> p | Some m \<Rightarrow> if m = [] then p else fmupd ''method'' (PStr m) p) ++\<^sub>f extra)"

subsection \<open>Keys tell requests apart\<close>

text \<open>A reader of one escaped character.\<close>

definition hex_val :: "char \<Rightarrow> nat" where
  "hex_val c = (let n = of_char c in if n < 58 then n - 48 else n - 87)"

definition unescape :: "char \<Rightarrow> char" where
  "unescape c = (let n = (of_char c :: nat) in
     if n = 110 then CHR 0x0A else if n = 114 then CHR 0x0D else if n = 116 then CHR 0x09 else if n = 98 then CHR 0x08
     else if n = 102 then CHR 0x0C else c)"

fun json_next :: "string \<Rightarrow> (char \<times> string) option" where
  "json_next [] = None"
| "json_next (c # s) = (if c \<noteq> CHR 0x5C then Some (c, s) else case s of
      [] \<Rightarrow> None
    | e # t \<Rightarrow> if e \<noteq> CHR ''u'' then Some (unescape e, t) else case t of
          a # b # h # l # rest \<Rightarrow> Some (char_of (16 * hex_val h + hex_val l), rest)
        | _ \<Rightarrow> None)"

lemma hex_val_digit: "n < 16 \<Longrightarrow> hex_val (hex_digit n) = n"
proof -
  assume "n < 16"
  then have "n \<in> set [0..<16]" by simp
  moreover have "list_all (\<lambda>n. hex_val (hex_digit n) = n) [0..<16]" by code_simp
  ultimately show ?thesis by (simp only: list_all_iff)
qed

lemma char_of_code: "(of_char c :: nat) = n \<Longrightarrow> c = char_of n"
  by auto

lemma json_char_control:
  "(of_char c :: nat) < 32 \<Longrightarrow> (of_char c :: nat) \<notin> {8, 9, 10, 12, 13} \<Longrightarrow>
     json_char c = [CHR 0x5C, CHR ''u'', CHR ''0'', CHR ''0'', hex_digit (of_char c div 16), hex_digit (of_char c mod 16)]"
  by (simp add: json_char_def Let_def)

lemma json_next_char: "json_next (json_char c @ x) = Some (c, x)"
proof -
  let ?n = "of_char c :: nat"
  consider (special) "?n \<in> {34, 92, 10, 13, 9, 8, 12}" | (control) "?n < 32" "?n \<notin> {8, 9, 10, 12, 13}"
    | (plain) "32 \<le> ?n" "?n \<noteq> 34" "?n \<noteq> 92" by (metis insert_iff not_le)
  then show ?thesis
  proof cases
    case special
    moreover have "char_of (34 :: nat) = CHR 0x22" "char_of (92 :: nat) = CHR 0x5C" "char_of (10 :: nat) = CHR 0x0A" "char_of (13 :: nat) = CHR 0x0D"
      "char_of (9 :: nat) = CHR 0x09" "char_of (8 :: nat) = CHR 0x08" "char_of (12 :: nat) = CHR 0x0C" by code_simp+
    ultimately have "c \<in> {CHR 0x22, CHR 0x5C, CHR 0x0A, CHR 0x0D, CHR 0x09, CHR 0x08, CHR 0x0C}" by (auto dest!: char_of_code)
    then show ?thesis by (auto simp: json_char_def unescape_def)
  next
    case control
    have h: "hex_val (hex_digit (?n div 16)) = ?n div 16" "hex_val (hex_digit (?n mod 16)) = ?n mod 16"
      using control(1) by (simp_all add: hex_val_digit)
    have "16 * (?n div 16) + ?n mod 16 = ?n" by (rule mult_div_mod_eq)
    then show ?thesis using h by (simp add: json_char_control [OF control])
  next
    case plain
    then have "c \<noteq> CHR 0x5C" by auto
    then show ?thesis using plain by (simp add: json_char_def Let_def)
  qed
qed

lemma json_char_prefix_free: "json_char c @ x = json_char d @ y \<Longrightarrow> c = d \<and> x = y"
  by (metis json_next_char option.inject prod.inject)

lemma json_char_no_quote: "json_char c @ x \<noteq> CHR 0x22 # y"
proof
  assume e: "json_char c @ x = CHR 0x22 # y"
  have "json_next (CHR 0x22 # y) = Some (c, x)" by (rule json_next_char [of c x, unfolded e])
  then have "c = CHR 0x22" by simp
  moreover have "json_char (CHR 0x22) = [CHR 0x5C, CHR 0x22]" by code_simp
  ultimately show False using e by simp
qed

lemma json_string_prefix_free: "json_string s @ x = json_string t @ y \<Longrightarrow> s = t \<and> x = y"
proof (induction s arbitrary: t)
  case Nil
  show ?case
  proof (cases t)
    case (Cons d u)
    then have "json_char d @ concat (map json_char u) @ CHR 0x22 # y = CHR 0x22 # x" using Nil by (simp add: json_string_def)
    then show ?thesis using json_char_no_quote by blast
  qed (use Nil in \<open>simp add: json_string_def\<close>)
next
  case (Cons c s)
  show ?case
  proof (cases t)
    case Nil
    then have "json_char c @ concat (map json_char s) @ CHR 0x22 # x = CHR 0x22 # y" using Cons(2) by (simp add: json_string_def)
    then show ?thesis using json_char_no_quote by blast
  next
    case t: (Cons d u)
    then have "json_char c @ concat (map json_char s) @ CHR 0x22 # x = json_char d @ concat (map json_char u) @ CHR 0x22 # y"
      using Cons(2) by (simp add: json_string_def)
    from json_char_prefix_free [OF this] have "c = d" "json_string s @ x = json_string u @ y" by (simp_all add: json_string_def)
    then show ?thesis using Cons(1) [of u] t by simp
  qed
qed

text \<open>What follows a number in an object.\<close>

definition stops :: "string \<Rightarrow> bool" where
  "stops s \<longleftrightarrow> s \<noteq> [] \<and> \<not> is_digit (hd s)"

lemma nat_str_stops:
  assumes "stops x" and "stops y" and "nat_str m @ x = nat_str n @ y"
  shows "m = n \<and> x = y"
proof -
  have d: "takeWhile is_digit (nat_str k @ z) = nat_str k" if "stops z" for k z
  proof -
    have "takeWhile is_digit (nat_str k @ z) = nat_str k @ takeWhile is_digit z"
      using nat_str_digits [of k] by (intro takeWhile_append2) (simp add: list_all_iff)
    then show ?thesis using that by (cases z) (simp_all add: stops_def)
  qed
  have "nat_str m = nat_str n" using d [OF assms(1), of m] d [OF assms(2), of n] assms(3) by simp
  then show ?thesis using assms(3) nat_str_inj by auto
qed

lemma nat_str_first: "nat_str n @ x = c # y \<Longrightarrow> is_digit c"
  using nat_str_digits [of n] by (cases "nat_str n") auto

lemma int_str_stops:
  assumes "stops x" and "stops y" and "int_str i @ x = int_str j @ y"
  shows "i = j \<and> x = y"
proof -
  have minus: "\<not> is_digit CHR ''-''" by code_simp
  consider "i < 0" "j < 0" | "0 \<le> i" "0 \<le> j" | "i < 0" "0 \<le> j" | "0 \<le> i" "j < 0" by linarith
  then show ?thesis
  proof cases
    case 1
    then have "nat (- i) = nat (- j) \<and> x = y" using assms(3) by (intro nat_str_stops [OF assms(1,2)]) (simp add: int_str_def)
    then show ?thesis using 1 by (simp add: eq_nat_nat_iff)
  next
    case 2
    then have "nat i = nat j \<and> x = y" using assms(3) by (intro nat_str_stops [OF assms(1,2)]) (simp add: int_str_def)
    then show ?thesis using 2 by (simp add: eq_nat_nat_iff)
  next
    case 3
    then show ?thesis using assms(3) nat_str_first [of "nat j" y] minus by (auto simp: int_str_def dest: sym)
  next
    case 4
    then show ?thesis using assms(3) nat_str_first [of "nat i" x] minus by (auto simp: int_str_def)
  qed
qed

lemma int_str_no_quote: "int_str i @ x \<noteq> CHR 0x22 # y"
proof
  assume e: "int_str i @ x = CHR 0x22 # y"
  have "\<not> is_digit CHR 0x22" by code_simp
  then show False using e nat_str_first [of "nat i" x "CHR 0x22" y] by (auto simp: int_str_def split: if_splits)
qed

lemma json_value_stops:
  assumes "stops x" and "stops y" and "json_value v @ x = json_value w @ y"
  shows "v = w \<and> x = y"
proof (cases v)
  case v: (JText s)
  show ?thesis
  proof (cases w)
    case (JText t)
    then show ?thesis using json_string_prefix_free [of s x t y] assms(3) v by simp
  next
    case (JNumber j)
    then have "int_str j @ y = CHR 0x22 # concat (map json_char s) @ CHR 0x22 # x" using assms(3) v by (simp add: json_string_def)
    then show ?thesis using int_str_no_quote by blast
  qed
next
  case v: (JNumber i)
  show ?thesis
  proof (cases w)
    case (JText t)
    then have "int_str i @ x = CHR 0x22 # concat (map json_char t) @ CHR 0x22 # y" using assms(3) v by (simp add: json_string_def)
    then show ?thesis using int_str_no_quote by blast
  next
    case (JNumber j)
    then show ?thesis using int_str_stops [OF assms(1,2), of i j] assms(3) v by simp
  qed
qed

lemma json_member_stops:
  assumes "stops x" and "stops y" and "json_member a @ x = json_member b @ y"
  shows "a = b \<and> x = y"
proof -
  have "json_string (fst a) @ '': '' @ json_value (snd a) @ x = json_string (fst b) @ '': '' @ json_value (snd b) @ y"
    using assms(3) by (simp add: json_member_def)
  from json_string_prefix_free [OF this] have "fst a = fst b" "json_value (snd a) @ x = json_value (snd b) @ y" by simp_all
  with json_value_stops [OF assms(1,2)] show ?thesis by (metis prod.expand)
qed

definition json_rest :: "(string \<times> json_scalar) list \<Rightarrow> string" where
  "json_rest kvs = concat (map (\<lambda>kv. '', '' @ json_member kv) kvs) @ ''}''"

lemma json_rest_stops: "stops (json_rest kvs)"
  by (cases kvs) (simp_all add: json_rest_def stops_def is_digit_def)

lemma json_rest_inj: "json_rest as = json_rest bs \<Longrightarrow> as = bs"
proof (induction as arbitrary: bs)
  case Nil
  then show ?case by (cases bs) (simp_all add: json_rest_def)
next
  case (Cons a as)
  then obtain b cs where b: "bs = b # cs" by (cases bs) (simp_all add: json_rest_def)
  then have "json_member a @ json_rest as = json_member b @ json_rest cs" using Cons(2) by (simp add: json_rest_def)
  then show ?case using json_member_stops [OF json_rest_stops json_rest_stops] Cons(1) b by blast
qed

lemma json_object_Cons: "json_object (kv # kvs) = CHR ''{'' # json_member kv @ json_rest kvs"
proof -
  have "join d (x # xs) = x @ concat (map (\<lambda>y. d @ y) xs)" for d x xs by (induction xs arbitrary: x) auto
  then show ?thesis by (simp add: json_object_def json_rest_def comp_def)
qed

lemma json_object_Nil: "json_object [] = ''{}''"
  by (simp add: json_object_def)

lemma json_object_inj: "json_object as = json_object bs \<Longrightarrow> as = bs"
proof (cases as; cases bs)
  fix a as' b bs' assume ab: "as = a # as'" "bs = b # bs'" and e: "json_object as = json_object bs"
  then have "json_member a @ json_rest as' = json_member b @ json_rest bs'" by (simp add: json_object_Cons)
  then show "as = bs" using json_member_stops [OF json_rest_stops json_rest_stops] json_rest_inj ab by blast
qed (simp_all add: json_object_Cons json_object_Nil json_member_def json_string_def)

text \<open>The code of a request counts up to the dump of its parse.\<close>

definition same_request :: "cache_env \<Rightarrow> cache_request \<Rightarrow> cache_request \<Rightarrow> bool" where
  "same_request env a b \<longleftrightarrow> a\<lparr>cr_framework_code := normalize_framework_code env (cr_framework_code a)\<rparr>
     = b\<lparr>cr_framework_code := normalize_framework_code env (cr_framework_code b)\<rparr>"

text \<open>
  A key of the cache stands for one request: unless the hash function collides on the two texts, two requests for a
  baseline have the same key exactly when they agree in every field, their code up to the dump of its
  parse; and the key of a baseline is never the key of reference data. The text that is hashed quotes
  every field, so no choice of names can shift one field into another.
\<close>

theorem baseline_key_identifies:
  assumes "\<forall>x y. x \<in> {baseline_payload env a, baseline_payload env b, reference_payload env b} \<longrightarrow>
      y \<in> {baseline_payload env a, baseline_payload env b, reference_payload env b} \<longrightarrow>
      sha256_hex (ce_rt env) (json_object x) = sha256_hex (ce_rt env) (json_object y) \<longrightarrow> json_object x = json_object y"
  shows "(build_baseline_cache_key env a = build_baseline_cache_key env b \<longleftrightarrow> same_request env a b)
    \<and> build_baseline_cache_key env a \<noteq> build_reference_cache_key env b"
proof -
  have hash: "build_hash env x = build_hash env y \<longleftrightarrow> x = y"
    if "x \<in> {baseline_payload env a, baseline_payload env b, reference_payload env b}"
      "y \<in> {baseline_payload env a, baseline_payload env b, reference_payload env b}" for x y
    using assms [rule_format, OF that] json_object_inj [of x y] unfolding build_hash_def by blast
  have "build_baseline_cache_key env a = build_baseline_cache_key env b \<longleftrightarrow> baseline_payload env a = baseline_payload env b"
    unfolding build_baseline_cache_key_def by (rule hash) simp_all
  also have "\<dots> \<longleftrightarrow> same_request env a b"
    unfolding same_request_def by (cases a; cases b) (auto simp: baseline_payload_def)
  finally have same: "build_baseline_cache_key env a = build_baseline_cache_key env b \<longleftrightarrow> same_request env a b" .
  have "length (baseline_payload env a) \<noteq> length (reference_payload env b)" by (simp add: baseline_payload_def reference_payload_def)
  then have "build_baseline_cache_key env a \<noteq> build_reference_cache_key env b"
    unfolding build_baseline_cache_key_def build_reference_cache_key_def by (subst hash) auto
  with same show ?thesis ..
qed

definition demo_keys :: cache_env where
  "demo_keys = \<lparr>ce_rt = demo_runtime, ce_getenv = (\<lambda>_. None), ce_expandvars = (\<lambda>s. s), ce_expanduser = (\<lambda>s. s), ce_path = (\<lambda>s. s),
     ce_home_cache = ''/h'', ce_ast_dump = (\<lambda>_. None), ce_float = (\<lambda>_. None), ce_now = 0, ce_readable = (\<lambda>_. True), ce_writable = (\<lambda>_. True),
     ce_removable = (\<lambda>_. True)\<rparr>"

theorem baseline_key_identifies_witness:
  "build_baseline_cache_key demo_keys \<lparr>cr_op_name = ''a'', cr_framework_code = ''c'', cr_framework = ''torch'', cr_backend = ''cuda'', cr_arch = ''x'',
      cr_bench_type = ''sol'', cr_task_id = ''b'', cr_dsl = ''d'', cr_warmup_times = 5, cr_run_times = 50\<rparr>
   \<noteq> build_baseline_cache_key demo_keys \<lparr>cr_op_name = ''a'', cr_framework_code = ''c'', cr_framework = ''torch'', cr_backend = ''cuda'', cr_arch = ''x'',
      cr_bench_type = ''sol'', cr_task_id = ''b'', cr_dsl = ''d'', cr_warmup_times = 55, cr_run_times = 0\<rparr>"
proof -
  have "sha256_hex (ce_rt demo_keys) x = x" for x by (simp add: demo_keys_def demo_runtime_def)
  then show ?thesis by (subst baseline_key_identifies [THEN conjunct1]) (simp_all add: same_request_def)
qed

end
