(* ===== verification/Baseline_Cache.thy ===== *)
theory Baseline_Cache
  imports Data_Cache Cache_Lock Edit_Check
begin

text \<open>
  The clients of the data cache: the measurement of a baseline ahead of the tasks
  (\<open>op/verifier/baseline_profiler.py\<close>), and the methods of \<open>KernelVerifier\<close> that look up and store baselines and
  reference data. A function returns the cache it leaves. What other processes do to the cache while a process waits
  for a lock is a function of the environment, and so are the measurement and the generation of reference data, with
  the exceptions they raise; the benchmark problem of a request is named by the text that enters its key.
\<close>

subsection \<open>Measuring a baseline once\<close>

record profile_env =
  pv_cache :: cache_env
  pv_config :: dict
  pv_lock :: "wait_outcome res"
  pv_others :: "cache_fs \<Rightarrow> cache_fs"
  pv_worker :: bool
  pv_measure :: "dict res"

definition cache_cfg :: "profile_env \<Rightarrow> VerifierDataCacheConfig" where
  "cache_cfg pv = load_verifier_data_cache_config (pv_cache pv) (PDict (pv_config pv))"

definition caches_baseline :: "profile_env \<Rightarrow> bool" where
  "caches_baseline pv \<longleftrightarrow> enabled (cache_cfg pv) \<and> cache_baseline_result (cache_cfg pv)"

text \<open>A usable entry, or nothing; an entry without a usable time is removed.\<close>

definition try_read_baseline_cache :: "cache_env \<Rightarrow> VerifierDataCacheConfig \<Rightarrow> string \<Rightarrow> string \<Rightarrow> cache_fs \<Rightarrow> cache_fs \<times> real option res" where
  "try_read_baseline_cache env cfg op_name key fs =
     (case read_baseline_result_from_cache env cfg op_name key fs of (fs1, entry) \<Rightarrow>
        (case extract_baseline_time_us env entry of
           Inl e \<Rightarrow> (fs1, Inl e)
         | Inr (Some t) \<Rightarrow> (fs1, Inr (Some t))
         | Inr None \<Rightarrow> (if truthy entry then delete_baseline_result_from_cache env cfg op_name key fs1 else fs1, Inr None)))"

text \<open>\<open>time_us\<close> of a successful measurement; comparing what is no number raises. No worker answers with NaN.\<close>

definition measured_us :: "dict \<Rightarrow> real option res" where
  "measured_us result =
     (if \<not> truthy (dget_default result ''success'' (PBool False)) then Inr None
      else let v = dget result ''time_us''
           in if \<not> truthy v then Inr None else if is_number v then Inr (usable_us (num_of v)) else Inl TypeError)"

text \<open>The key of a request and the identifier it is filed under.\<close>

definition filed :: "profile_env \<Rightarrow> string \<Rightarrow> cache_request \<Rightarrow> cache_request" where
  "filed pv default_id rq = rq\<lparr>cr_task_id := get_verifier_data_cache_key_id (pv_cache pv) (PDict (pv_config pv)) default_id\<rparr>"

definition baseline_key :: "profile_env \<Rightarrow> cache_request \<Rightarrow> string" where
  "baseline_key pv rq = build_baseline_cache_key (pv_cache pv) (filed pv ''baseline_profile'' rq)"

definition profile_metadata :: "profile_env \<Rightarrow> cache_request \<Rightarrow> dict" where
  "profile_metadata pv rq = fmap_of_list [(''framework'', PStr (cr_framework rq)), (''dsl'', PStr (cr_dsl rq)),
     (''cache_key_id'', PStr (cr_task_id (filed pv ''baseline_profile'' rq))), (''backend'', PStr (cr_backend rq)),
     (''arch'', PStr (cr_arch rq)), (''bench_type'', PStr (cr_bench_type rq))]"

text \<open>The result of a measurement, stored when the cache is on.\<close>

definition handle_profile_result :: "profile_env \<Rightarrow> cache_request \<Rightarrow> string \<Rightarrow> (dict \<Rightarrow> dict) \<Rightarrow> dict \<Rightarrow> cache_fs \<Rightarrow> cache_fs \<times> real option" where
  "handle_profile_result pv rq method extra result fs = (case measured_us result of
      Inr (Some t) \<Rightarrow>
        (if caches_baseline pv
         then fst (write_baseline_result_to_cache (pv_cache pv) (cache_cfg pv) (cr_op_name rq) (baseline_key pv rq)
                (build_baseline_cache_payload t (cr_warmup_times rq) (cr_run_times rq) (Some method) (extra result)) (profile_metadata pv rq) fs)
         else fs, Some t)
    | _ \<Rightarrow> (fs, None))"

definition measure_baseline :: "profile_env \<Rightarrow> cache_request \<Rightarrow> string \<Rightarrow> (dict \<Rightarrow> dict) \<Rightarrow> cache_fs \<Rightarrow> cache_fs \<times> real option" where
  "measure_baseline pv rq method extra fs =
     (if \<not> pv_worker pv then (fs, None)
      else case pv_measure pv of Inl _ \<Rightarrow> (fs, None) | Inr result \<Rightarrow> handle_profile_result pv rq method extra result fs)"

text \<open>Read, wait for the lock, read again, measure, store; every exception ends in no baseline.\<close>

definition run_cached_baseline_profile :: "profile_env \<Rightarrow> cache_request \<Rightarrow> string \<Rightarrow> (dict \<Rightarrow> dict) \<Rightarrow> cache_fs \<Rightarrow> cache_fs \<times> real option" where
  "run_cached_baseline_profile pv rq method extra fs =
     (let rd = try_read_baseline_cache (pv_cache pv) (cache_cfg pv) (cr_op_name rq) (baseline_key pv rq)
      in if \<not> caches_baseline pv then measure_baseline pv rq method extra fs
         else case rd fs of
             (fs1, Inl _) \<Rightarrow> (fs1, None)
           | (fs1, Inr (Some t)) \<Rightarrow> (fs1, Some t)
           | (fs1, Inr None) \<Rightarrow> (case pv_lock pv of
               Inr Acquired \<Rightarrow> (case rd (pv_others pv fs1) of
                   (fs2, Inl _) \<Rightarrow> (fs2, None)
                 | (fs2, Inr (Some t)) \<Rightarrow> (fs2, Some t)
                 | (fs2, Inr None) \<Rightarrow> measure_baseline pv rq method extra fs2)
             | _ \<Rightarrow> (pv_others pv fs1, None)))"

definition profile_kernelbench_baseline :: "profile_env \<Rightarrow> cache_request \<Rightarrow> cache_fs \<Rightarrow> cache_fs \<times> real option" where
  "profile_kernelbench_baseline pv rq = run_cached_baseline_profile pv (rq\<lparr>cr_bench_type := ''kernelbench''\<rparr>) ''profile_single_task'' (\<lambda>_. fmempty)"

text \<open>The text after the first \<open>base time:\<close> of a line, up to the next.\<close>

definition after_base_time :: "string \<Rightarrow> string option" where
  "after_base_time l = (case index_of ''base time:'' l of
      None \<Rightarrow> None
    | Some i \<Rightarrow> let r = drop (i + 10) l in Some (case index_of ''base time:'' r of None \<Rightarrow> r | Some j \<Rightarrow> take j r))"

definition log_time :: "cache_env \<Rightarrow> string \<Rightarrow> string \<Rightarrow> pyval list" where
  "log_time env op_name line = (let l = strip line
     in if l = [] \<or> \<not> contains op_name l \<or> \<not> contains ''us'' l \<or> contains ''Geometric mean'' l then []
        else (case after_base_time l of
            None \<Rightarrow> []
          | Some s \<Rightarrow> (case ce_float env (strip (replace_all ''us'' [] (strip s))) of None \<Rightarrow> [] | Some f \<Rightarrow> [PFloat f])))"

definition parse_profile_log_times :: "cache_env \<Rightarrow> string \<Rightarrow> string list \<Rightarrow> pyval list" where
  "parse_profile_log_times env op_name lines = concat (map (log_time env op_name) lines)"

definition label_extra :: "profile_env \<Rightarrow> cache_request \<Rightarrow> string \<Rightarrow> dict \<Rightarrow> dict" where
  "label_extra pv rq label result =
     (let times = parse_profile_log_times (pv_cache pv) (cr_op_name rq) (case dget result ''log'' of PStr s \<Rightarrow> splitlines s | _ \<Rightarrow> [])
      in fmap_of_list [(label @ ''_count'', PInt (int (length times))), (label @ ''_times_us'', PList times)])"

text \<open>The two benchmark suites that bring their problems in a directory; the identity of a directory may raise.\<close>

definition profile_sol_baseline ::
    "profile_env \<Rightarrow> cache_request \<Rightarrow> (pyval \<Rightarrow> string res) \<Rightarrow> cache_fs \<Rightarrow> (cache_fs \<times> real option) res" where
  "profile_sol_baseline pv rq identity fs =
     (let dir = dget_default (pv_config pv) ''sol_problem_dir'' (PStr [])
      in if \<not> truthy dir then Inr (fs, None)
         else bindR (identity dir) (\<lambda>src. Inr (run_cached_baseline_profile pv (rq\<lparr>cr_bench_type := ''sol'', cr_framework_code := src\<rparr>)
                ''sol_profile_single_task'' (label_extra pv rq ''workload'') fs)))"

definition profile_cann_baseline :: "profile_env \<Rightarrow> cache_request \<Rightarrow> string \<Rightarrow> cache_fs \<Rightarrow> cache_fs \<times> real option" where
  "profile_cann_baseline pv rq dir fs = run_cached_baseline_profile pv (rq\<lparr>cr_bench_type := ''cann'', cr_framework_code := dir\<rparr>)
     ''cann_profile_single_task'' (label_extra pv rq ''case'') fs"

text \<open>A time is finite, or nothing.\<close>

definition positive_us :: "real option \<Rightarrow> real option" where
  "positive_us t = (case t of None \<Rightarrow> None | Some r \<Rightarrow> if r \<le> 0 then None else Some r)"

definition set_baseline_in_config :: "dict \<Rightarrow> real option \<Rightarrow> dict res" where
  "set_baseline_in_config config t = (case positive_us t of
      None \<Rightarrow> Inr config
    | Some r \<Rightarrow> bindR (case fmlookup config ''profile_settings'' of None \<Rightarrow> Inr fmempty | Some (PDict d) \<Rightarrow> Inr d | Some _ \<Rightarrow> Inl TypeError) (\<lambda>d.
        Inr (fmupd ''profile_settings'' (PDict (fmupd ''skip_base_profile'' (PBool True) (fmupd ''override_base_section''
          (PDict (fmap_of_list [(''avg_us'', PFloat (Fin r)), (''per_case_us'', PList [PFloat (Fin r)]), (''method'', PStr ''override'')])) d))) config)))"

subsection \<open>Baselines of the verifier\<close>

record verifier =
  vf_profile :: profile_env
  vf_request :: cache_request
  vf_task_id :: string
  vf_sol_identity :: "pyval \<Rightarrow> string res"

definition get_baseline_cache_source :: "verifier \<Rightarrow> string option res" where
  "get_baseline_cache_source vf =
     (let config = pv_config (vf_profile vf); bench = cr_bench_type (vf_request vf)
      in if bench = ''cann'' then (case dget config ''cann_problem_dir'' of
             PStr s \<Rightarrow> Inr (if s = [] then None else Some s) | v \<Rightarrow> if truthy v then Inl AttributeError else Inr None)
         else if bench \<noteq> ''sol'' then Inr (Some (cr_framework_code (vf_request vf)))
         else let dir = dget config ''sol_problem_dir''
              in Inr (if \<not> truthy dir then None else case vf_sol_identity vf dir of Inl _ \<Rightarrow> None | Inr s \<Rightarrow> Some s))"

definition get_baseline_cache_key :: "verifier \<Rightarrow> string option res" where
  "get_baseline_cache_key vf = bindR (get_baseline_cache_source vf) (\<lambda>src. Inr (map_option (\<lambda>s.
     build_baseline_cache_key (pv_cache (vf_profile vf)) (filed (vf_profile vf) (vf_task_id vf) ((vf_request vf)\<lparr>cr_framework_code := s\<rparr>))) src))"

definition cached_benches :: "string list" where
  "cached_benches = [''kernelbench'', ''sol'', ''cann'']"

definition get_cached_baseline_time_us :: "verifier \<Rightarrow> cache_fs \<Rightarrow> cache_fs \<times> real option res" where
  "get_cached_baseline_time_us vf fs =
     (if cr_bench_type (vf_request vf) \<notin> set cached_benches \<or> \<not> caches_baseline (vf_profile vf) then (fs, Inr None)
      else case get_baseline_cache_key vf of
          Inl e \<Rightarrow> (fs, Inl e)
        | Inr None \<Rightarrow> (fs, Inr None)
        | Inr (Some key) \<Rightarrow> try_read_baseline_cache (pv_cache (vf_profile vf)) (cache_cfg (vf_profile vf)) (cr_op_name (vf_request vf)) key fs)"

text \<open>The stored document is the result file of the profile when there is one that can be read as an object.\<close>

definition store_baseline_result :: "verifier \<Rightarrow> real option \<Rightarrow> dict option \<Rightarrow> cache_fs \<Rightarrow> cache_fs res" where
  "store_baseline_result vf t result_file fs =
     (let pv = vf_profile vf; rq = vf_request vf
      in case positive_us t of
          None \<Rightarrow> Inr fs
        | Some r \<Rightarrow>
            if cr_bench_type rq \<notin> set cached_benches \<or> \<not> caches_baseline pv then Inr fs
            else bindR (get_baseline_cache_key vf) (\<lambda>key. case key of
                None \<Rightarrow> Inr fs
              | Some k \<Rightarrow> Inr (fst (write_baseline_result_to_cache (pv_cache pv) (cache_cfg pv) (cr_op_name rq) k
                  (case result_file of Some d \<Rightarrow> d | None \<Rightarrow> build_baseline_cache_payload r (cr_warmup_times rq) (cr_run_times rq) None fmempty)
                  (fmap_of_list [(''framework'', PStr (cr_framework rq)), (''task_id'', PStr (vf_task_id vf)),
                    (''cache_key_id'', PStr (cr_task_id (filed pv (vf_task_id vf) rq))), (''dsl'', PStr (cr_dsl rq)),
                    (''backend'', PStr (cr_backend rq)), (''arch'', PStr (cr_arch rq)), (''bench_type'', PStr (cr_bench_type rq))]) fs))))"

subsection \<open>Reference data of the verifier\<close>

record reference_env =
  rf_dynamic_shape :: bool
  rf_load :: "string \<Rightarrow> pyval option"
  rf_generate :: "(bool \<times> string) res"

definition is_valid_cached_reference_data :: "reference_env \<Rightarrow> string \<Rightarrow> string \<Rightarrow> bool" where
  "is_valid_cached_reference_data rf framework bytes =
     (bytes \<noteq> [] \<and> (framework = ''torch'' \<longrightarrow> (case rf_load rf bytes of
        Some (PDict d) \<Rightarrow> fmlookup d ''outputs'' \<noteq> None \<and> truthy (dget d ''save_inputs'') \<and> dget d ''inputs'' \<noteq> PNone
      | _ \<Rightarrow> False)))"

definition clear_managed_reference_data :: "dict \<Rightarrow> dict" where
  "clear_managed_reference_data config =
     (if \<not> truthy (dget config ''_data_cache_reference_key'') then config
      else fmdrop ''_data_cache_reference_key'' (fmdrop ''use_reference_inputs'' (fmdrop ''use_reference_data'' (fmdrop ''reference_data'' config))))"

definition reference_key :: "verifier \<Rightarrow> string" where
  "reference_key vf = build_reference_cache_key (pv_cache (vf_profile vf)) (filed (vf_profile vf) (vf_task_id vf) (vf_request vf))"

definition apply_cached_reference_data :: "verifier \<Rightarrow> string \<Rightarrow> dict \<Rightarrow> dict" where
  "apply_cached_reference_data vf bytes config =
     (if bytes = [] then config
      else fmupd ''_data_cache_reference_key'' (PStr (reference_key vf)) (fmupd ''reference_data'' (PStr bytes)
             (fmupd ''use_reference_inputs'' (PBool True) (fmupd ''use_reference_data'' (PBool True) config))))"

text \<open>What the configuration says before the cache is asked: whether to go on, and what is left of it.\<close>

definition settle_reference_config :: "verifier \<Rightarrow> dict \<Rightarrow> dict \<times> bool" where
  "settle_reference_config vf config =
     (let cfg = cache_cfg (vf_profile vf); on = (enabled cfg \<and> cache_reference_data cfg); managed = dget config ''_data_cache_reference_key''
      in if truthy (dget config ''use_reference_data'') \<and> truthy (dget config ''reference_data'')
         then (if \<not> truthy managed then (config, False)
               else if \<not> on then (clear_managed_reference_data config, False)
               else if py_eq managed (PStr (reference_key vf)) then (config, False)
               else (clear_managed_reference_data config, True))
         else (config, on))"

text \<open>What is generated is stored and used, even where it cannot be stored.\<close>

definition generate_reference_data :: "verifier \<Rightarrow> reference_env \<Rightarrow> cache_fs \<Rightarrow> cache_fs \<times> string option" where
  "generate_reference_data vf rf fs =
     (let pv = vf_profile vf; rq = vf_request vf
      in if \<not> pv_worker pv then (fs, None)
         else case rf_generate rf of
             Inr (True, c # cs) \<Rightarrow>
               (fst (write_reference_data_to_cache (pv_cache pv) (cache_cfg pv) (cr_op_name rq) (reference_key vf) (c # cs)
                  (fmap_of_list [(''framework'', PStr (cr_framework rq)), (''task_id'', PStr (vf_task_id vf)),
                    (''cache_key_id'', PStr (cr_task_id (filed pv (vf_task_id vf) rq))), (''backend'', PStr (cr_backend rq)),
                    (''arch'', PStr (cr_arch rq)), (''bench_type'', PStr (cr_bench_type rq)), (''save_inputs'', PBool True)]) fs), Some (c # cs))
           | _ \<Rightarrow> (fs, None))"

text \<open>Under the lock: a valid entry is used, an invalid one removed; what is generated is stored and used.\<close>

definition fetch_reference_data :: "verifier \<Rightarrow> reference_env \<Rightarrow> cache_fs \<Rightarrow> cache_fs \<times> string option" where
  "fetch_reference_data vf rf fs =
     (let pv = vf_profile vf; env = pv_cache pv; cfg = cache_cfg pv; rq = vf_request vf; key = reference_key vf;
          cached = (case read_reference_data_from_cache env cfg (cr_op_name rq) key fs of Some (c # cs) \<Rightarrow> Some (c # cs) | _ \<Rightarrow> None)
      in (case cached of
            Some bytes \<Rightarrow> if is_valid_cached_reference_data rf (cr_framework rq) bytes then (fs, Some bytes)
              else generate_reference_data vf rf (delete_reference_data_from_cache env cfg (cr_op_name rq) key fs)
          | None \<Rightarrow> generate_reference_data vf rf fs))"

definition prepare_cached_reference_data :: "verifier \<Rightarrow> reference_env \<Rightarrow> dict \<Rightarrow> cache_fs \<Rightarrow> (dict \<times> cache_fs) \<times> string option res" where
  "prepare_cached_reference_data vf rf config fs =
     (if cr_bench_type (vf_request vf) \<noteq> ''kernelbench'' \<or> rf_dynamic_shape rf
      then ((clear_managed_reference_data config, fs), Inr None)
      else (case settle_reference_config vf config of
          (config', False) \<Rightarrow> ((config', fs), Inr None)
        | (config', True) \<Rightarrow>
            let cfg = cache_cfg (vf_profile vf)
            in if \<not> enabled cfg \<or> \<not> cache_reference_data cfg then ((config', fs), Inr None)
               else (case pv_lock (vf_profile vf) of
                   Inr Acquired \<Rightarrow> (case fetch_reference_data vf rf (pv_others (vf_profile vf) fs) of (fs', r) \<Rightarrow> ((config', fs'), Inr r))
                 | Inr WaitTimeout \<Rightarrow> ((config', pv_others (vf_profile vf) fs), Inr None)
                 | Inl e \<Rightarrow> ((config', pv_others (vf_profile vf) fs), Inl e))))"

end
