(* ===== verification/Cache_Facts.thy ===== *)
theory Cache_Facts
  imports Baseline_Cache
begin

text \<open>
  What the data cache guarantees its clients: a baseline is measured once, the verifier finds what was measured
  ahead of it, and reference data that a caller brings is kept.
\<close>

subsection \<open>What is stored is read back\<close>

definition result_path :: "profile_env \<Rightarrow> cache_request \<Rightarrow> string" where
  "result_path pv rq = baseline_cache_path (pv_cache pv) (cache_cfg pv) (cr_op_name rq) (baseline_key pv rq)"

definition accessible :: "profile_env \<Rightarrow> cache_request \<Rightarrow> bool" where
  "accessible pv rq \<longleftrightarrow> ce_writable (pv_cache pv) (result_path pv rq) \<and> ce_readable (pv_cache pv) (result_path pv rq)"

text \<open>The file of a request holds a usable time.\<close>

definition holds_time :: "profile_env \<Rightarrow> cache_request \<Rightarrow> real \<Rightarrow> cache_fs \<Rightarrow> bool" where
  "holds_time pv rq t fs \<longleftrightarrow> ce_readable (pv_cache pv) (result_path pv rq)
     \<and> (\<exists>v. fmlookup (cf_docs fs) (result_path pv rq) = Some (Some v) \<and> extract_baseline_time_us (pv_cache pv) v = Inr (Some t))"

lemma read_result:
  "caches_baseline pv \<Longrightarrow> read_baseline_result_from_cache (pv_cache pv) (cache_cfg pv) (cr_op_name rq) (baseline_key pv rq) fs =
     (case fmlookup (cf_docs fs) (result_path pv rq) of None \<Rightarrow> (fs, PNone)
      | Some doc \<Rightarrow> (case (ce_readable (pv_cache pv) (result_path pv rq), doc) of
            (True, Some v) \<Rightarrow> (fs, v) | _ \<Rightarrow> (unlink_doc (pv_cache pv) (result_path pv rq) fs, PNone)))"
  by (simp add: read_baseline_result_from_cache_def caches_baseline_def result_path_def [symmetric] Let_def)

abbreviation try_read :: "profile_env \<Rightarrow> cache_request \<Rightarrow> cache_fs \<Rightarrow> cache_fs \<times> real option res" where
  "try_read pv rq fs \<equiv> try_read_baseline_cache (pv_cache pv) (cache_cfg pv) (cr_op_name rq) (baseline_key pv rq) fs"

lemma try_read_hit:
  "caches_baseline pv \<Longrightarrow> try_read pv rq fs = (fs', Inr (Some t)) \<longleftrightarrow> fs' = fs \<and> holds_time pv rq t fs"
  by (auto simp: try_read_baseline_cache_def read_result holds_time_def extract_baseline_time_us_def
      split: option.splits bool.splits prod.splits sum.splits if_splits)

lemma extract_positive: "extract_baseline_time_us env v = Inr (Some t) \<Longrightarrow> 0 < t"
  by (auto simp: extract_baseline_time_us_def usable_us_def split: if_splits pyval.splits option.splits pyfloat.splits)

lemma stored_payload:
  assumes "''avg_time_us'' |\<notin>| fmdom extra" and "''avg_time_us'' |\<notin>| fmdom metadata" and "0 < t"
  shows "extract_baseline_time_us env (PDict (base ++\<^sub>f build_baseline_cache_payload t w r method extra ++\<^sub>f metadata)) = Inr (Some t)"
    (is "extract_baseline_time_us env (PDict ?d) = _")
proof -
  have d: "fmlookup ?d ''avg_time_us'' = Some (PFloat (Fin t))"
    using assms(1,2) by (simp add: build_baseline_cache_payload_def Let_def split: option.split)
  have "?d \<noteq> fmempty" using d by (metis fmempty_lookup option.distinct(1))
  then show ?thesis using d assms(3) by (simp add: extract_baseline_time_us_def dget_def float_of_def usable_us_def)
qed

lemma metadata_times [simp]: "''avg_time_us'' |\<notin>| fmdom (profile_metadata pv rq)"
  by (simp add: profile_metadata_def)

lemma payload_not_empty [simp]: "build_baseline_cache_payload t w r method extra \<noteq> fmempty"
proof
  assume "build_baseline_cache_payload t w r method extra = fmempty"
  then have "''run_times'' |\<notin>| fmdom (build_baseline_cache_payload t w r method extra)" by simp
  then show False by (simp add: build_baseline_cache_payload_def Let_def split: option.splits if_splits)
qed

lemma measured_positive: "measured_us d = Inr (Some t) \<Longrightarrow> 0 < t"
  by (auto simp: measured_us_def usable_us_def Let_def split: if_splits option.splits pyfloat.splits)

lemma handled_holds:
  assumes "handle_profile_result pv rq method extra result fs = (fs', Some t)" and "caches_baseline pv" and "accessible pv rq"
    and "''avg_time_us'' |\<notin>| fmdom (extra result)"
  shows "holds_time pv rq t fs'"
proof -
  have t: "measured_us result = Inr (Some t)" using assms(1) by (auto simp: handle_profile_result_def split: sum.splits option.splits)
  then have "extract_baseline_time_us (pv_cache pv) (PDict (base ++\<^sub>f build_baseline_cache_payload t w r (Some method) (extra result) ++\<^sub>f profile_metadata pv rq))
      = Inr (Some t)" for base w r
    using assms(4) measured_positive by (intro stored_payload) simp_all
  then show ?thesis using assms t
    by (auto simp: handle_profile_result_def write_baseline_result_to_cache_def caches_baseline_def holds_time_def accessible_def
        write_doc_def result_path_def Let_def)
qed

lemma run_holds:
  assumes "run_cached_baseline_profile pv rq method extra fs = (fs', Some t)" and "caches_baseline pv" and "accessible pv rq"
    and "\<And>result. ''avg_time_us'' |\<notin>| fmdom (extra result)"
  shows "holds_time pv rq t fs'"
proof -
  obtain fs1 r where first: "try_read pv rq fs = (fs1, r)" by force
  obtain fs2 q where second: "try_read pv rq (pv_others pv fs1) = (fs2, q)" by force
  have run: "run_cached_baseline_profile pv rq method extra fs = (case r of
      Inl _ \<Rightarrow> (fs1, None) | Inr (Some t) \<Rightarrow> (fs1, Some t)
    | Inr None \<Rightarrow> (case pv_lock pv of
        Inr Acquired \<Rightarrow> (case q of Inl _ \<Rightarrow> (fs2, None) | Inr (Some t) \<Rightarrow> (fs2, Some t) | Inr None \<Rightarrow> measure_baseline pv rq method extra fs2)
      | _ \<Rightarrow> (pv_others pv fs1, None)))"
    using assms(2) by (simp add: run_cached_baseline_profile_def first second split: sum.split option.split wait_outcome.split)
  consider (hit) "r = Inr (Some t)" "fs' = fs1" | (late) "q = Inr (Some t)" "fs' = fs2"
    | (measured) "measure_baseline pv rq method extra fs2 = (fs', Some t)"
  proof (cases "r = Inr None \<and> pv_lock pv = Inr Acquired")
    case True
    then show thesis using run assms(1) that(2,3) by (cases q) (auto split: option.splits)
  next
    case False
    then show thesis using run assms(1) that(1)
      by (cases r; cases "pv_lock pv") (auto split: option.splits wait_outcome.splits)
  qed
  then show ?thesis
  proof cases
    case hit
    then show ?thesis using try_read_hit [OF assms(2), of rq fs fs1 t] first by simp
  next
    case late
    then show ?thesis using try_read_hit [OF assms(2), of rq "pv_others pv fs1" fs2 t] second by simp
  next
    case measured
    then obtain result where "handle_profile_result pv rq method extra result fs2 = (fs', Some t)"
      unfolding measure_baseline_def by (cases "pv_worker pv"; cases "pv_measure pv") simp_all
    then show ?thesis by (rule handled_holds [OF _ assms(2,3)]) (rule assms(4))
  qed
qed

lemma run_hit:
  assumes "holds_time pv rq t fs" and "caches_baseline pv"
  shows "run_cached_baseline_profile pv rq method extra fs = (fs, Some t)"
proof -
  have "try_read pv rq fs = (fs, Inr (Some t))" using try_read_hit [OF assms(2), of rq fs fs t] assms(1) by simp
  then show ?thesis using assms(2) by (simp add: run_cached_baseline_profile_def)
qed

text \<open>
  C12. A baseline is measured once: when a run has returned a time and the file of the request can be written and read, a later
  run for the same request returns the same time and leaves the cache as it is, whatever worker, lock and other
  processes it would find and whatever its measurement would say.
\<close>

theorem baseline_measured_once:
  assumes "run_cached_baseline_profile pv rq method extra fs = (fs', Some t)" and "caches_baseline pv" and "accessible pv rq"
    and "\<forall>result. ''avg_time_us'' |\<notin>| fmdom (extra result)"
  shows "run_cached_baseline_profile (pv\<lparr>pv_worker := wk, pv_lock := lk, pv_others := oth, pv_measure := m\<rparr>) rq method' extra' fs' = (fs', Some t)"
proof (rule run_hit)
  have "holds_time pv rq t fs'" using assms by (intro run_holds) auto
  then show "holds_time (pv\<lparr>pv_worker := wk, pv_lock := lk, pv_others := oth, pv_measure := m\<rparr>) rq t fs'"
    by (simp add: holds_time_def result_path_def baseline_key_def filed_def cache_cfg_def)
  show "caches_baseline (pv\<lparr>pv_worker := wk, pv_lock := lk, pv_others := oth, pv_measure := m\<rparr>)"
    using assms(2) by (simp add: caches_baseline_def cache_cfg_def)
qed

lemma label_extra_times: "''avg_time_us'' |\<notin>| fmdom (label_extra pv rq label result)"
proof -
  have "label @ ''_count'' \<noteq> ''avg_time_us''"
  proof
    assume "label @ ''_count'' = ''avg_time_us''"
    then have "rev (label @ ''_count'') = rev ''avg_time_us''" by (rule arg_cong)
    then show False by simp
  qed
  moreover have "label @ ''_times_us'' \<noteq> ''avg_time_us''"
  proof
    assume "label @ ''_times_us'' = ''avg_time_us''"
    then have "rev (label @ ''_times_us'') = rev ''avg_time_us''" by (rule arg_cong)
    then show False by simp
  qed
  ultimately show ?thesis by (simp add: label_extra_def Let_def)
qed

definition key_id_set :: "profile_env \<Rightarrow> bool" where
  "key_id_set pv \<longleftrightarrow> strip (str_or (pv_cache pv) (dget (get_data_cache_options (PDict (pv_config pv))) ''cache_key_id'') []) \<noteq> []"

lemma filed_id: "key_id_set pv \<Longrightarrow> filed pv a rq = filed pv b rq"
  by (simp add: key_id_set_def filed_def get_verifier_data_cache_key_id_def Let_def)

text \<open>
  The verifier finds what was measured ahead of it: after a KernelBench baseline has been measured, a verifier of the same
  operator, code, platform and repetition counts gets that time from the cache, whatever its task, where the
  configuration names the identifier the cache files results under.
\<close>

theorem verifier_finds_baseline:
  assumes "profile_kernelbench_baseline pv rq fs = (fs', Some t)" and "caches_baseline pv"
    and "accessible pv (rq\<lparr>cr_bench_type := ''kernelbench''\<rparr>)" and "key_id_set pv"
    and "vf_profile vf = pv" and "vf_request vf = rq\<lparr>cr_bench_type := ''kernelbench''\<rparr>"
  shows "get_cached_baseline_time_us vf fs' = (fs', Inr (Some t))"
proof -
  let ?rq = "rq\<lparr>cr_bench_type := ''kernelbench''\<rparr>"
  have "holds_time pv ?rq t fs'"
    using assms(1-3) unfolding profile_kernelbench_baseline_def by (intro run_holds) auto
  then have hit: "try_read pv ?rq fs' = (fs', Inr (Some t))" using try_read_hit [OF assms(2), of ?rq fs' fs' t] by simp
  have "get_baseline_cache_key vf = Inr (Some (baseline_key pv ?rq))"
    using filed_id [OF assms(4), of "vf_task_id vf" ?rq "''baseline_profile''"]
    by (simp add: get_baseline_cache_key_def get_baseline_cache_source_def assms(5,6) baseline_key_def filed_def Let_def)
  then show ?thesis using hit assms(2) by (simp add: get_cached_baseline_time_us_def assms(5,6) cached_benches_def)
qed

text \<open>
  An entry of the cache that is no object is never replaced: with a JSON array in the file of a request, every run ends
  without a baseline and leaves the file as it is, whatever a measurement would say. Reading the entry
  raises, and the handler takes that for a failed measurement.
\<close>

theorem array_entry_sticks:
  assumes "caches_baseline pv" and "ce_readable (pv_cache pv) (result_path pv rq)"
    and "fmlookup (cf_docs fs) (result_path pv rq) = Some (Some (PList (x # xs)))"
  shows "run_cached_baseline_profile pv rq method extra fs = (fs, None)"
proof -
  have "try_read pv rq fs = (fs, Inl AttributeError)"
    using assms by (simp add: try_read_baseline_cache_def read_result extract_baseline_time_us_def)
  then show ?thesis using assms(1) by (simp add: run_cached_baseline_profile_def)
qed

subsection \<open>Reference data\<close>

lemma fetched_valid:
  assumes "fetch_reference_data vf rf fs = (fs', Some bytes)"
  shows "is_valid_cached_reference_data rf (cr_framework (vf_request vf)) bytes \<or> rf_generate rf = Inr (True, bytes)"
proof -
  have gen: "rf_generate rf = Inr (True, bytes)" if "generate_reference_data vf rf h = (h', Some bytes)" for h h'
    using that by (auto simp: generate_reference_data_def Let_def split: if_splits sum.splits prod.splits bool.splits list.splits)
  show ?thesis using assms unfolding fetch_reference_data_def Let_def
    by (auto split: option.splits list.splits if_splits dest: gen)
qed

text \<open>
  Reference data that the caller has put into the configuration is not touched and not replaced; and data the cache
  hands out was valid for the framework or has just been generated, and was handed out only to a configuration that
  brought none of its own.
\<close>

theorem reference_data_sound:
  assumes "prepare_cached_reference_data vf rf config fs = ((config', fs'), r)"
  shows "(truthy (dget config ''use_reference_data'') \<and> truthy (dget config ''reference_data'') \<and> \<not> truthy (dget config ''_data_cache_reference_key'')
      \<longrightarrow> config' = config \<and> fs' = fs \<and> r = Inr None)
    \<and> (\<forall>bytes. r = Inr (Some bytes) \<longrightarrow> is_valid_cached_reference_data rf (cr_framework (vf_request vf)) bytes \<or> rf_generate rf = Inr (True, bytes))"
proof (rule conjI; (intro allI)?; rule impI)
  assume own: "truthy (dget config ''use_reference_data'') \<and> truthy (dget config ''reference_data'') \<and> \<not> truthy (dget config ''_data_cache_reference_key'')"
  then have "clear_managed_reference_data config = config" "settle_reference_config vf config = (config, False)"
    by (simp_all add: clear_managed_reference_data_def settle_reference_config_def)
  then have "prepare_cached_reference_data vf rf config fs = ((config, fs), Inr None)" by (simp add: prepare_cached_reference_data_def)
  then show "config' = config \<and> fs' = fs \<and> r = Inr None" using assms by simp
next
  fix bytes assume "r = Inr (Some bytes)"
  then have some: "snd (prepare_cached_reference_data vf rf config fs) = Inr (Some bytes)" using assms by simp
  obtain c go where settle: "settle_reference_config vf config = (c, go)" by force
  let ?h = "pv_others (vf_profile vf) fs"
  obtain fs2 b where fetch: "fetch_reference_data vf rf ?h = (fs2, b)" by force
  have "b = Some bytes"
    using some unfolding prepare_cached_reference_data_def Let_def settle fetch
    by (cases go; cases "pv_lock (vf_profile vf)") (auto split: if_splits wait_outcome.splits)
  then have "fetch_reference_data vf rf ?h = (fs2, Some bytes)" using fetch by simp
  then show "is_valid_cached_reference_data rf (cr_framework (vf_request vf)) bytes \<or> rf_generate rf = Inr (True, bytes)"
    by (rule fetched_valid)
qed

subsection \<open>A concrete cache\<close>

definition demo_cache :: cache_env where
  "demo_cache = \<lparr>ce_rt = demo_runtime, ce_getenv = (\<lambda>_. None), ce_expandvars = (\<lambda>s. s), ce_expanduser = (\<lambda>s. s), ce_path = (\<lambda>s. s),
     ce_home_cache = ''/h'', ce_ast_dump = (\<lambda>_. None), ce_float = (\<lambda>_. None), ce_now = 0, ce_readable = (\<lambda>_. True), ce_writable = (\<lambda>_. True),
     ce_removable = (\<lambda>_. True)\<rparr>"

definition demo_pv :: profile_env where
  "demo_pv = \<lparr>pv_cache = demo_cache,
     pv_config = fmap_of_list [(''data_cache'', PDict (fmap_of_list [(''enabled'', PBool True), (''cache_key_id'', PStr ''k'')]))],
     pv_lock = Inr Acquired, pv_others = (\<lambda>fs. fs), pv_worker = True,
     pv_measure = Inr (fmap_of_list [(''success'', PBool True), (''time_us'', PInt 5)])\<rparr>"

definition demo_rq :: cache_request where
  "demo_rq = \<lparr>cr_op_name = ''op'', cr_framework_code = ''c'', cr_framework = ''torch'', cr_backend = ''cuda'', cr_arch = ''a100'',
     cr_bench_type = ''kernelbench'', cr_task_id = [], cr_dsl = ''triton'', cr_warmup_times = 5, cr_run_times = 50\<rparr>"

definition empty_cache :: cache_fs where
  "empty_cache = \<lparr>cf_data = fmempty, cf_docs = fmempty\<rparr>"

lemma demo_caches: "caches_baseline demo_pv" "accessible demo_pv rq" "key_id_set demo_pv"
  by (simp_all add: caches_baseline_def accessible_def key_id_set_def demo_pv_def demo_cache_def cache_cfg_def
      load_verifier_data_cache_config_def get_data_cache_options_def dget_def py_or_def parse_bool_def get_env_override_def
      str_or_def py_str_def strip_def lstrip_def rstrip_def is_space_def Let_def)

lemma demo_read: "try_read demo_pv rq empty_cache = (empty_cache, Inr None)"
  by (simp add: try_read_baseline_cache_def read_result [OF demo_caches(1)] empty_cache_def extract_baseline_time_us_def)

lemma demo_first_run: "\<exists>fs. profile_kernelbench_baseline demo_pv demo_rq empty_cache = (fs, Some 5)"
proof -
  have "measured_us (fmap_of_list [(''success'', PBool True), (''time_us'', PInt 5)]) = Inr (Some 5)"
    by (simp add: measured_us_def dget_def dget_default_def is_number_def usable_us_def)
  then have "\<exists>fs. measure_baseline demo_pv rq mth (\<lambda>_. fmempty) empty_cache = (fs, Some 5)" for rq mth
    by (simp add: measure_baseline_def handle_profile_result_def demo_pv_def)
  moreover have "pv_lock demo_pv = Inr Acquired" "pv_others demo_pv = (\<lambda>fs. fs)" by (simp_all add: demo_pv_def)
  ultimately show ?thesis
    by (simp add: profile_kernelbench_baseline_def run_cached_baseline_profile_def demo_caches(1) Let_def
        demo_read [of "demo_rq\<lparr>cr_bench_type := ''kernelbench''\<rparr>", simplified])
qed

theorem baseline_measured_once_witness:
  "\<exists>fs. run_cached_baseline_profile (demo_pv\<lparr>pv_worker := False, pv_lock := Inr WaitTimeout, pv_others := id, pv_measure := Inl TypeError\<rparr>)
      demo_rq ''m'' (\<lambda>_. fmempty) fs = (fs, Some 5)"
proof -
  have rq: "demo_rq\<lparr>cr_bench_type := ''kernelbench''\<rparr> = demo_rq" by (simp add: demo_rq_def)
  obtain fs where "profile_kernelbench_baseline demo_pv demo_rq empty_cache = (fs, Some 5)" using demo_first_run by blast
  then have "run_cached_baseline_profile demo_pv demo_rq ''profile_single_task'' (\<lambda>_. fmempty) empty_cache = (fs, Some 5)"
    by (simp add: profile_kernelbench_baseline_def rq)
  from baseline_measured_once [OF this demo_caches(1,2)] show ?thesis by (intro exI [of _ fs]) simp
qed

theorem verifier_finds_baseline_witness:
  "\<exists>fs. get_cached_baseline_time_us \<lparr>vf_profile = demo_pv, vf_request = demo_rq, vf_task_id = ''7'', vf_sol_identity = (\<lambda>_. Inl TypeError)\<rparr> fs = (fs, Inr (Some 5))"
proof -
  obtain fs where r: "profile_kernelbench_baseline demo_pv demo_rq empty_cache = (fs, Some 5)" using demo_first_run by blast
  have "demo_rq = demo_rq\<lparr>cr_bench_type := ''kernelbench''\<rparr>" by (simp add: demo_rq_def)
  from verifier_finds_baseline [OF r demo_caches(1,2,3) _ _, of "\<lparr>vf_profile = demo_pv, vf_request = demo_rq, vf_task_id = ''7'', vf_sol_identity = (\<lambda>_. Inl TypeError)\<rparr>"] this
  show ?thesis by auto
qed

theorem array_entry_sticks_witness:
  "\<exists>fs. fmlookup (cf_docs fs) (result_path demo_pv demo_rq) = Some (Some (PList [PInt 5]))
     \<and> run_cached_baseline_profile demo_pv demo_rq ''m'' (\<lambda>_. fmempty) fs = (fs, None)"
proof -
  let ?fs = "\<lparr>cf_data = fmempty, cf_docs = fmupd (result_path demo_pv demo_rq) (Some (PList [PInt 5])) fmempty\<rparr>"
  have "ce_readable (pv_cache demo_pv) (result_path demo_pv demo_rq)" using demo_caches(2) by (simp add: accessible_def)
  from array_entry_sticks [OF demo_caches(1) this, of ?fs] show ?thesis by (intro exI [of _ ?fs]) simp
qed

theorem reference_data_sound_witness:
  "\<exists>c. prepare_cached_reference_data \<lparr>vf_profile = demo_pv, vf_request = demo_rq, vf_task_id = ''7'', vf_sol_identity = (\<lambda>_. Inl TypeError)\<rparr>
      \<lparr>rf_dynamic_shape = False, rf_load = (\<lambda>_. None), rf_generate = Inl TypeError\<rparr> c empty_cache = ((c, empty_cache), Inr None)
    \<and> dget c ''reference_data'' = PStr ''x''"
proof -
  let ?vf = "\<lparr>vf_profile = demo_pv, vf_request = demo_rq, vf_task_id = ''7'', vf_sol_identity = (\<lambda>_. Inl TypeError)\<rparr>"
  let ?rf = "\<lparr>rf_dynamic_shape = False, rf_load = (\<lambda>_. None), rf_generate = Inl TypeError\<rparr>"
  let ?c = "fmap_of_list [(''use_reference_data'', PBool True), (''reference_data'', PStr ''x'')]"
  obtain c fs r where p: "prepare_cached_reference_data ?vf ?rf ?c empty_cache = ((c, fs), r)" by (metis prod.collapse)
  have "c = ?c \<and> fs = empty_cache \<and> r = Inr None"
    using reference_data_sound [OF p] by (simp add: dget_def)
  then show ?thesis using p by (intro exI [of _ ?c]) (simp add: dget_def)
qed

end
