(* ===== verification/Profile_Run.thy ===== *)
theory Profile_Run
  imports Eval_Worker Cache_Facts
begin

text \<open>
  \<open>KernelVerifier.run_profile\<close> (\<open>src/op_autoresearch/op/verifier/kernel_verifier.py\<close>): from the settings of
  the bridge to the document it reads, over the data cache and a worker. The adapter, the lease of a device, the
  generation and packing of the project and the worker are functions of the environment; the worker is told whether the
  package holds a script for the reference and one for the kernel. The record of speedups and the summary of
  autotuning are left out.
\<close>

record run_env =
  rn_verifier :: verifier
  rn_defaults :: "EvalDefaults res"
  rn_prepare :: "unit res"
  rn_acquire :: "unit res"
  rn_project :: "unit res"
  rn_last_verify :: "bool option"
  rn_sidecar :: pyval
  rn_static :: dict
  rn_worker :: "bool \<Rightarrow> bool \<Rightarrow> dict \<Rightarrow> dict res"
  rn_base_artifact :: "dict \<Rightarrow> dict option"
  rn_unique_dir :: string

text \<open>The settings the bridge passes.\<close>

definition request_settings :: "profile_request \<Rightarrow> dict" where
  "request_settings rq = (let ps = pr_settings rq in
     fmap_of_list ((''timeout'', PInt (pr_timeout rq)) # (''keep_res'', PBool (pr_keep_res rq))
       # (case override_base_section ps of None \<Rightarrow> [] | Some d \<Rightarrow> [(''override_base_section'', PDict d)])
       @ (if skip_base_profile ps then [(''skip_base_profile'', PBool True)] else [])
       @ (case run_times ps of None \<Rightarrow> [] | Some n \<Rightarrow> [(''run_times'', PInt n)])))"

text \<open>A baseline of the data cache stands in where the caller gives none.\<close>

definition with_cached_baseline :: "run_env \<Rightarrow> int \<Rightarrow> int \<Rightarrow> dict \<Rightarrow> cache_fs \<Rightarrow> cache_fs \<times> dict res" where
  "with_cached_baseline rn warmup runs opts fs =
     (if dget opts ''override_base_section'' \<noteq> PNone then (fs, Inr opts)
      else let vf = (rn_verifier rn)\<lparr>vf_request := (vf_request (rn_verifier rn))\<lparr>cr_warmup_times := warmup, cr_run_times := runs\<rparr>\<rparr>
           in (case get_cached_baseline_time_us vf fs of
                 (fs1, Inl e) \<Rightarrow> (fs1, Inl e)
               | (fs1, Inr None) \<Rightarrow> (fs1, Inr opts)
               | (fs1, Inr (Some t)) \<Rightarrow> (fs1, Inr (fmupd ''skip_base_profile'' (PBool True)
                    (fmupd ''override_base_section'' (PDict (make_profile_section (PFloat (Fin t)) PNone ''override'')) opts)))))"

definition skips_base :: "dict \<Rightarrow> bool" where
  "skips_base opts \<longleftrightarrow> truthy (dget_default opts ''skip_base_profile'' (PBool False)) \<or> valid_override (dget opts ''override_base_section'') \<noteq> None"

definition full_settings :: "run_env \<Rightarrow> dict \<Rightarrow> dict" where
  "full_settings rn opts = opts ++\<^sub>f rn_static rn"

definition case_descs_of :: "pyval \<Rightarrow> pyval list res" where
  "case_descs_of sidecar = (case sidecar of
      PDict d \<Rightarrow> bindR (array_or_empty (dget d ''per_case'')) (\<lambda>cs. Inr (map (\<lambda>c. dget_default c ''case_desc'' (PStr [])) (dicts_of cs)))
    | _ \<Rightarrow> Inr [])"

text \<open>A value that enters a comparison or a formatted message has to be a number.\<close>

definition printable :: "pyval \<Rightarrow> unit res" where
  "printable v = (if is_number v then Inr () else Inl TypeError)"

definition printable_if :: "bool \<Rightarrow> pyval \<Rightarrow> unit res" where
  "printable_if b v = (if b then printable v else Inr ())"

definition finite_positive :: "pyval \<Rightarrow> real option" where
  "finite_positive v = (case num_of v of Some (Fin r) \<Rightarrow> if 0 < r then Some r else None | _ \<Rightarrow> None)"

definition profile_result :: "dict \<Rightarrow> pyval list \<Rightarrow> pyval list \<Rightarrow> pyval list \<Rightarrow> string \<Rightarrow> dict res" where
  "profile_result result gens bases descs unique_dir =
     bindR (printable (dget_default result ''speedup'' (PFloat (Fin 0)))) (\<lambda>_.
     bindR (printable_if (dget result ''gen_time'' \<noteq> PNone) (dget result ''gen_time'')) (\<lambda>_.
     bindR (printable_if (dget result ''roofline_time'' \<noteq> PNone) (dget result ''roofline_time'')) (\<lambda>_.
     bindR (printable_if (dget result ''roofline_time'' \<noteq> PNone) (dget_default result ''roofline_speedup'' (PFloat (Fin 0)))) (\<lambda>_.
       Inr ((let d = empty_profile_result None in if dget result ''error'' \<noteq> PNone then fmupd ''error'' (dget result ''error'') d else d)
         ++\<^sub>f fmap_of_list [(''gen_time'', dget result ''gen_time''), (''base_time'', dget result ''base_time''),
           (''speedup'', dget_default result ''speedup'' (PFloat (Fin 0))), (''per_shape_gen_us'', PList gens), (''per_shape_base_us'', PList bases),
           (''case_descs'', PList descs), (''gen_method'', dget result ''gen_method''), (''base_method'', dget result ''base_method''),
           (''roofline_time'', dget result ''roofline_time''), (''roofline_speedup'', dget_default result ''roofline_speedup'' (PFloat (Fin 0))),
           (''roofline'', dget result ''roofline''), (''artifacts'', dget_default result ''artifacts'' (PDict fmempty)),
           (''unique_dir'', PStr unique_dir)])))))"

text \<open>What is done with the worker's result; a baseline that was measured is stored.\<close>

definition digest_result :: "run_env \<Rightarrow> int \<Rightarrow> int \<Rightarrow> bool \<Rightarrow> dict \<Rightarrow> cache_fs \<Rightarrow> cache_fs \<times> dict res" where
  "digest_result rn warmup runs skip_base result fs =
     (let base = dget result ''base_time'';
          vf = (rn_verifier rn)\<lparr>vf_request := (vf_request (rn_verifier rn))\<lparr>cr_warmup_times := warmup, cr_run_times := runs\<rparr>\<rparr>
      in case bindR (array_or_empty (dget result ''per_shape_gen_us'')) (\<lambda>gens. bindR (array_or_empty (dget result ''per_shape_base_us'')) (\<lambda>bases.
              bindR (case_descs_of (rn_sidecar rn)) (\<lambda>descs. bindR (printable_if (base \<noteq> PNone) base) (\<lambda>_. Inr (gens, bases, descs))))) of
           Inl e \<Rightarrow> (fs, Inl e)
         | Inr (gens, bases, descs) \<Rightarrow>
             (case (if skip_base then Inr fs else store_baseline_result vf (finite_positive base) (rn_base_artifact rn result) fs) of
                Inl e \<Rightarrow> (fs, Inl e)
              | Inr fs1 \<Rightarrow> (fs1, profile_result result gens bases descs (rn_unique_dir rn))))"

definition run_profile_body :: "run_env \<Rightarrow> dict \<Rightarrow> cache_fs \<Rightarrow> cache_fs \<times> dict res" where
  "run_profile_body rn opts0 fs =
     (case bindR (rn_prepare rn) (\<lambda>_. bindR (resolve_run_times (rn_defaults rn) (dget opts0 ''run_times'')) (\<lambda>runs.
           bindR (resolve_warmup_times (rn_defaults rn) (dget opts0 ''warmup_times'')) (\<lambda>warmup. Inr (runs, warmup)))) of
        Inl e \<Rightarrow> (fs, Inl e)
      | Inr (runs, warmup) \<Rightarrow> (case with_cached_baseline rn warmup runs opts0 fs of
          (fs1, Inl e) \<Rightarrow> (fs1, Inl e)
        | (fs1, Inr opts) \<Rightarrow>
            (case bindR (rn_acquire rn) (\<lambda>_. bindR (rn_project rn) (\<lambda>_.
                  rn_worker rn (\<not> skips_base opts) (rn_last_verify rn \<noteq> Some False) (full_settings rn opts))) of
               Inl e \<Rightarrow> (fs1, Inl e)
             | Inr result \<Rightarrow> digest_result rn warmup runs (skips_base opts) result fs1)))"

definition run_profile :: "run_env \<Rightarrow> dict \<Rightarrow> cache_fs \<Rightarrow> cache_fs \<times> dict" where
  "run_profile rn opts fs = (case run_profile_body rn opts fs of
      (fs1, Inr d) \<Rightarrow> (fs1, d)
    | (fs1, Inl _) \<Rightarrow> (fs1, fmupd ''unique_dir'' (PStr (rn_unique_dir rn)) (fmupd ''case_descs'' (PList []) (empty_profile_result (Some ''profiling failed'')))))"

end
