(* ===== verification/Profile_Facts.thy ===== *)
theory Profile_Facts
  imports Profile_Run Bridge_Facts
begin

text \<open>
  The profile of an evaluation from end to end: the bridge asks the verifier, the verifier asks a worker, the worker
  may be behind a service. What the whole chain answers, and where a failure or a committed baseline gets lost on the way.
\<close>

subsection \<open>The chain\<close>

text \<open>The verifier over a local worker, and the bridge over that verifier.\<close>

definition at_worker :: "run_env \<Rightarrow> profile_machine \<Rightarrow> string \<Rightarrow> run_env" where
  "at_worker rn pm own_backend = rn\<lparr>rn_worker := (\<lambda>base gen opts.
     Inr (local_profile (pm\<lparr>pm_base_script := base, pm_gen_script := gen\<rparr>) own_backend (PDict opts)))\<rparr>"

definition over_verifier :: "bridge_env \<Rightarrow> run_env \<Rightarrow> cache_fs \<Rightarrow> bridge_env" where
  "over_verifier env rn fs = env\<lparr>b_profile := (\<lambda>rq. Inr (snd (run_profile rn (request_settings rq) fs)))\<rparr>"

lemma run_profile_cases:
  obtains (failed) "snd (run_profile rn opts fs) = fmupd ''unique_dir'' (PStr (rn_unique_dir rn))
      (fmupd ''case_descs'' (PList []) (empty_profile_result (Some ''profiling failed'')))"
  | (measured) opts' r gens bases descs where "dget opts ''override_base_section'' \<noteq> PNone \<longrightarrow> opts' = opts"
      "rn_worker rn (\<not> skips_base opts') (rn_last_verify rn \<noteq> Some False) (full_settings rn opts') = Inr r"
      "array_or_empty (dget r ''per_shape_gen_us'') = Inr gens" "array_or_empty (dget r ''per_shape_base_us'') = Inr bases"
      "profile_result r gens bases descs (rn_unique_dir rn) = Inr (snd (run_profile rn opts fs))"
proof (cases "run_profile_body rn opts fs")
  case (Pair fs2 x)
  show thesis
  proof (cases x)
    case (Inl e)
    then show thesis using failed Pair by (simp add: run_profile_def)
  next
    case (Inr d)
    from Pair [unfolded Inr] obtain runs warmup fs1 opts' r where
      c: "with_cached_baseline rn warmup runs opts fs = (fs1, Inr opts')" and
      w: "rn_worker rn (\<not> skips_base opts') (rn_last_verify rn \<noteq> Some False) (full_settings rn opts') = Inr r" and
      g: "digest_result rn warmup runs (skips_base opts') r fs1 = (fs2, Inr d)"
      unfolding run_profile_body_def by (auto split: sum.splits prod.splits)
    from g obtain gens bases descs where "array_or_empty (dget r ''per_shape_gen_us'') = Inr gens"
      "array_or_empty (dget r ''per_shape_base_us'') = Inr bases" "profile_result r gens bases descs (rn_unique_dir rn) = Inr d"
      unfolding digest_result_def Let_def by (auto split: sum.splits prod.splits)
    moreover have "dget opts ''override_base_section'' \<noteq> PNone \<longrightarrow> opts' = opts"
      using c by (auto simp: with_cached_baseline_def)
    ultimately show thesis using measured w Pair Inr by (simp add: run_profile_def)
  qed
qed

lemma profile_result_fields:
  assumes "profile_result r gens bases descs u = Inr d"
  shows "dget d ''gen_time'' = dget r ''gen_time''" "dget d ''base_time'' = dget r ''base_time''"
    "dget d ''per_shape_gen_us'' = PList gens" "dget d ''per_shape_base_us'' = PList bases" "dget d ''case_descs'' = PList descs"
  using assms by (auto simp: profile_result_def dget_def Let_def)

lemma empty_profile_fields [simp]:
  "dget (empty_profile_result err) ''gen_time'' = PNone" "dget (empty_profile_result err) ''base_time'' = PNone"
  "dget (empty_profile_result err) ''per_shape_gen_us'' = PList []" "dget (empty_profile_result err) ''per_shape_base_us'' = PList []"
  by (simp_all add: empty_profile_result_def dget_def Let_def split: option.split)

subsection \<open>What a worker measures\<close>

text \<open>A section with a time and a time per shape.\<close>

definition proper_section :: "dict \<Rightarrow> bool" where
  "proper_section d \<longleftrightarrow> (\<exists>f x xs. dget d ''avg_us'' = PFloat f \<and> dget d ''per_case_us'' = PList (x # xs))"

lemma script_section_proper: "script_section exists run json = Inr (Some d) \<Longrightarrow> proper_section d"
  by (auto simp: script_section_def read_profile_result_from_json_def proper_section_def dget_def Let_def neq_Nil_conv
      split: if_splits option.splits sum.splits)

lemma trace_section_proper: "trace_section method avg = Some d \<Longrightarrow> proper_section d"
  by (auto simp: trace_section_def make_profile_section_def proper_section_def dget_def to_float_def)

lemma gen_section_proper:
  assumes "profile_sections pm platform override = Inr (Some (base, Some d))"
  shows "proper_section d"
  using assms by (auto simp: profile_sections_def run_profile_scripts_and_collect_results_def run_trace_profiling_def Let_def
      split: if_splits sum.splits option.splits dest: script_section_proper trace_section_proper)

lemma document_fields:
  assumes "profile_document pm (base, gen) err = Inr r"
  shows "(case gen of None \<Rightarrow> dget r ''gen_time'' = PNone \<and> dget r ''per_shape_gen_us'' = PList []
      | Some d \<Rightarrow> dget r ''gen_time'' \<in> {dget d ''avg_us'', PNone} \<and> dget r ''per_shape_gen_us'' = dget d ''per_case_us'')"
    and "(case base of None \<Rightarrow> dget r ''base_time'' = PNone \<and> dget r ''per_shape_base_us'' = PList []
      | Some d \<Rightarrow> dget r ''base_time'' \<in> {dget d ''avg_us'', PNone} \<and> dget r ''per_shape_base_us'' = dget d ''per_case_us'')"
proof -
  from assms obtain gu gens gm bu bases bm rf rt rs gt bt where
    g: "section_fields gen = Inr (gu, gens, gm)" and b: "section_fields base = Inr (bu, bases, bm)" and
    t: "below_inf gu = Inr gt" "below_inf bu = Inr bt" and
    r: "dget r ''gen_time'' = gt" "dget r ''base_time'' = bt" "dget r ''per_shape_gen_us'' = PList gens" "dget r ''per_shape_base_us'' = PList bases"
    by (auto simp: profile_document_def Let_def dget_def split: prod.splits option.splits sum.splits)
  have sec: "case sec of None \<Rightarrow> y = PNone \<and> PList xs = PList []
      | Some d \<Rightarrow> y \<in> {dget d ''avg_us'', PNone} \<and> PList xs = dget d ''per_case_us''"
    if "section_fields sec = Inr (a, xs, m)" "below_inf a = Inr y" for sec a xs m y
    using that by (auto simp: section_fields_def below_inf_def dict_item_def as_array_def dget_def
        split: option.splits pyval.splits if_splits)
  show "case gen of None \<Rightarrow> dget r ''gen_time'' = PNone \<and> dget r ''per_shape_gen_us'' = PList []
      | Some d \<Rightarrow> dget r ''gen_time'' \<in> {dget d ''avg_us'', PNone} \<and> dget r ''per_shape_gen_us'' = dget d ''per_case_us''"
    using sec [OF g t(1)] r by (auto split: option.splits)
  show "case base of None \<Rightarrow> dget r ''base_time'' = PNone \<and> dget r ''per_shape_base_us'' = PList []
      | Some d \<Rightarrow> dget r ''base_time'' \<in> {dget d ''avg_us'', PNone} \<and> dget r ''per_shape_base_us'' = dget d ''per_case_us''"
    using sec [OF b t(2)] r by (auto split: option.splits)
qed

lemma local_profile_cases:
  obtains (nothing) "dget (local_profile pm own opts) ''gen_time'' = PNone" "dget (local_profile pm own opts) ''base_time'' = PNone"
      "dget (local_profile pm own opts) ''per_shape_gen_us'' = PList []" "dget (local_profile pm own opts) ''per_shape_base_us'' = PList []"
  | (document) st platform base gen err where "opts = PDict st"
      "platform = (case dget_default st ''backend'' (PStr own) of PStr b \<Rightarrow> b | _ \<Rightarrow> [])"
      "profile_sections pm platform (dget st ''override_base_section'') = Inr (Some (base, gen))"
      "pm_gen_script pm \<longrightarrow> gen \<noteq> None"
      "profile_document pm (base, gen) err = Inr (local_profile pm own opts)"
proof (cases "local_profile_body pm own opts")
  case (Inl e)
  then show thesis by - (rule nothing, simp_all add: local_profile_def)
next
  case (Inr r)
  then obtain st where st: "opts = PDict st" unfolding local_profile_body_def as_mapping_def by (cases opts) auto
  obtain secs where s: "profile_sections pm (case dget_default st ''backend'' (PStr own) of PStr b \<Rightarrow> b | _ \<Rightarrow> []) (dget st ''override_base_section'') = Inr secs"
    and r: "(case secs of None \<Rightarrow> Inr (empty_profile_result None) | Some s \<Rightarrow> collect_profile pm (dget st ''override_base_section'') s) = Inr r"
    using Inr unfolding local_profile_body_def st as_mapping_def by auto
  show thesis
  proof (cases "\<exists>err. r = empty_profile_result err")
    case True
    then show thesis using Inr by - (rule nothing, auto simp: local_profile_def)
  next
    case False
    then obtain base gen where secs: "secs = Some (base, gen)" using r by (cases secs) auto
    have "\<exists>err. profile_document pm (base, gen) err = Inr r" "pm_gen_script pm \<longrightarrow> gen \<noteq> None"
      using r False unfolding secs by (auto simp: collect_profile_def Let_def split: if_splits)
    then show thesis using document [OF st refl s [unfolded secs]] Inr by (auto simp: local_profile_def)
  qed
qed


subsection \<open>What the bridge answers\<close>

lemma over_verifier_payload:
  "profiled_payload (over_verifier env rn fs) config t ov =
     bindR (profile_plan env (b_sidecar env) config False ov) (\<lambda>plan.
       if too_slow plan \<noteq> None then Inr (too_slow_payload (b_sidecar env))
       else ok_payload (snd (run_profile rn (request_settings (profile_req env t plan)) fs)))"
  by (simp add: profiled_payload_def over_verifier_def profiler_irrelevant cong: if_cong)

lemma no_time_no_answer: "dget p ''gen_time'' = PNone \<Longrightarrow> ok_payload p = Inr (infra_fail ''profile returned invalid gen_time'')"
  by (simp add: ok_payload_def bridge_float_def)

abbreviation reported_base :: "dict \<Rightarrow> pyval list \<Rightarrow> pyval list \<Rightarrow> real option" where
  "reported_base r gens bases \<equiv> (if length bases = length gens then bridge_float (dget r ''base_time'') else None)"

lemma ok_payload_measured:
  assumes "dget p ''gen_time'' \<in> {PFloat f, PNone}" and "dget p ''per_shape_gen_us'' = PList gens" and "gens \<noteq> []"
    and "dget p ''per_shape_base_us'' = PList bases" and "dget p ''case_descs'' = PList descs" and "ok_payload p = Inr d"
  shows "d = infra_fail ''profile returned invalid gen_time''
    \<or> (\<exists>g. 0 < g \<and> d = ok_answer g (reported_base p gens bases) gens
          (if length bases = length gens \<or> bridge_float (dget p ''base_time'') = None then bases else []) descs)"
proof -
  have a: "array_or_empty (PList xs) = Inr xs" for xs by (simp add: array_or_empty_def)
  from assms(6) show ?thesis unfolding ok_payload_def assms(2,4,5) a Let_def using assms(3)
    by (cases "bridge_float (dget p ''gen_time'')"; cases "bridge_float (dget p ''base_time'')") (auto simp: not_le split: if_splits)
qed

abbreviation requested :: "run_env \<Rightarrow> profile_machine \<Rightarrow> dict \<Rightarrow> profile_machine" where
  "requested rn pm opts \<equiv> pm\<lparr>pm_base_script := \<not> skips_base opts, pm_gen_script := rn_last_verify rn \<noteq> Some False\<rparr>"

abbreviation platform :: "run_env \<Rightarrow> string \<Rightarrow> dict \<Rightarrow> string" where
  "platform rn own opts \<equiv> (case dget_default (full_settings rn opts) ''backend'' (PStr own) of PStr b \<Rightarrow> b | _ \<Rightarrow> [])"

text \<open>A profile over a local worker either has no time for the kernel or the measurement of a proper section.\<close>

lemma run_at_worker_cases:
  obtains (nothing) "dget (snd (run_profile (at_worker rn pm own) opts0 fs)) ''gen_time'' = PNone"
  | (sections) opts base sec err r f gens bases descs where
      "dget opts0 ''override_base_section'' \<noteq> PNone \<longrightarrow> opts = opts0"
      "profile_sections (requested rn pm opts) (platform rn own opts) (dget (full_settings rn opts) ''override_base_section'') = Inr (Some (base, Some sec))"
      "profile_document (requested rn pm opts) (base, Some sec) err = Inr r"
      "dget sec ''per_case_us'' = PList gens" "gens \<noteq> []" "dget r ''per_shape_base_us'' = PList bases" "dget r ''gen_time'' \<in> {PFloat f, PNone}"
      "profile_result r gens bases descs (rn_unique_dir rn) = Inr (snd (run_profile (at_worker rn pm own) opts0 fs))"
proof (cases rule: run_profile_cases [of "at_worker rn pm own" opts0 fs])
  case failed
  then show thesis by - (rule nothing, simp)
next
  case (measured opts r gens bases descs)
  let ?pm = "requested rn pm opts"
  have r: "r = local_profile ?pm own (PDict (full_settings rn opts))"
    using measured(2) by (simp add: at_worker_def full_settings_def)
  have t: "dget (snd (run_profile (at_worker rn pm own) opts0 fs)) ''gen_time'' = dget r ''gen_time''"
    by (rule profile_result_fields [OF measured(5)])
  show thesis
  proof (cases rule: local_profile_cases [of ?pm own "PDict (full_settings rn opts)"])
    case nothing
    then show thesis using that(1) t r by simp
  next
    case (document st pf base gen err)
    note df = document_fields(1) [OF document(5), folded r]
    show thesis
    proof (cases gen)
      case None
      then have "dget r ''gen_time'' = PNone" using df by simp
      then show thesis using that(1) t by simp
    next
      case (Some sec)
      have "proper_section sec" using document(3) unfolding Some by (rule gen_section_proper)
      then obtain f x xs where sec: "dget sec ''avg_us'' = PFloat f" "dget sec ''per_case_us'' = PList (x # xs)"
        unfolding proper_section_def by blast
      have gens: "gens = x # xs" using measured(3) df sec(2) unfolding Some by (simp add: array_or_empty_def)
      have bases: "dget r ''per_shape_base_us'' = PList bases"
        using measured(4) document(5) unfolding r [symmetric]
        by (auto simp: profile_document_def Let_def dget_def array_or_empty_def split: prod.splits option.splits sum.splits if_splits)
      have "profile_sections ?pm (platform rn own opts) (dget (full_settings rn opts) ''override_base_section'') = Inr (Some (base, Some sec))"
        using document(1-3) Some by simp
      then show thesis
        by (rule sections [OF measured(1) _ document(5) [folded r, unfolded Some] _ _ bases, of gens f descs])
           (use sec gens df Some measured(5) in \<open>auto simp: at_worker_def\<close>)
    qed
  qed
qed

text \<open>The answer after a profile: too slow to be measured, not measured, or the measurement of a kernel's section.\<close>

lemma chain_answer:
  assumes "profiled_payload (over_verifier env (at_worker rn pm own) fs) config t ov = Inr d"
  obtains (slow) "d = too_slow_payload (b_sidecar env)"
  | (unmeasured) "d = infra_fail ''profile returned invalid gen_time''"
  | (measured) plan opts sec base gens bases r err descs g where
      "profile_plan env (b_sidecar env) config False ov = Inr plan" "too_slow plan = None"
      "dget (request_settings (profile_req env t plan)) ''override_base_section'' \<noteq> PNone \<longrightarrow> opts = request_settings (profile_req env t plan)"
      "profile_sections (requested rn pm opts) (platform rn own opts) (dget (full_settings rn opts) ''override_base_section'') = Inr (Some (base, Some sec))"
      "profile_document (requested rn pm opts) (base, Some sec) err = Inr r"
      "dget sec ''per_case_us'' = PList gens" "gens \<noteq> []" "dget r ''per_shape_base_us'' = PList bases" "0 < g"
      "d = ok_answer g (reported_base r gens bases) gens
         (if length bases = length gens \<or> bridge_float (dget r ''base_time'') = None then bases else []) descs"
proof -
  from assms obtain plan where plan: "profile_plan env (b_sidecar env) config False ov = Inr plan"
    by (auto simp: over_verifier_payload)
  show thesis
  proof (cases "too_slow plan = None")
    case False
    then show thesis using slow assms by (simp add: over_verifier_payload plan)
  next
    case fast: True
    let ?rq = "request_settings (profile_req env t plan)"
    let ?p = "snd (run_profile (at_worker rn pm own) ?rq fs)"
    have ok: "ok_payload ?p = Inr d" using assms fast by (simp add: over_verifier_payload plan)
    show thesis
    proof (cases rule: run_at_worker_cases [of rn pm own ?rq fs])
      case nothing
      then show thesis using unmeasured no_time_no_answer ok by simp
    next
      case (sections opts base sec err r f gens bases descs)
      note fields = profile_result_fields [OF sections(8)]
      from ok_payload_measured [OF _ fields(3) sections(5) fields(4,5) ok, of f] sections(7) fields(1)
      consider "d = infra_fail ''profile returned invalid gen_time''" | g where "0 < g" "d = ok_answer g (reported_base ?p gens bases) gens
          (if length bases = length gens \<or> bridge_float (dget ?p ''base_time'') = None then bases else []) descs" by auto
      then show thesis
      proof cases
        case 1
        then show thesis by (rule unmeasured)
      next
        case 2
        then show thesis unfolding fields(2) by (rule measured [OF plan fast sections(1-6)])
      qed
    qed
  qed
qed

text \<open>
  What an evaluation answers once its kernel is verified and the profile went through a local worker: the kernel is
  blamed only for being too slow to be measured, and unless there is no time for the kernel the answer is a success
  with aligned metrics. The check for missing times per shape never fires.
\<close>

theorem profile_chain_answers:
  assumes "profiled_payload (over_verifier env (at_worker rn pm own) fs) config t ov = Inr d"
  shows "d = too_slow_payload (b_sidecar env) \<or> d = infra_fail ''profile returned invalid gen_time''
    \<or> (dget d ''outcome'' = PStr ''ok'' \<and> (\<exists>m. dget d ''metrics'' = PDict m \<and> metrics_aligned m))"
  using assms
proof (cases rule: chain_answer)
  case (measured plan opts sec base gens bases r err descs g)
  have "dget d ''outcome'' = PStr ''ok''" unfolding measured(10) by (simp add: ok_answer_def dget_def)
  moreover have "answer_sound d" unfolding measured(10) using measured(7,9) by (auto intro!: ok_answer_sound)
  ultimately show ?thesis by (simp add: answer_sound_def)
qed simp_all

text \<open>
  The failure of a profile is never the kernel's: when the profile script of a verified kernel crashes, the worker and
  the verifier catch the exception, and the answer is a failure of the infrastructure, not the
  \<open>kernel_fail\<close> the bridge has ready for a profile that raises.
\<close>

theorem profile_crash_is_infra:
  assumes "profiled_payload (over_verifier env (at_worker rn pm own) fs) config t ov = Inr d"
    and "pm_python pm = Inr True" and "\<forall>ok. pm_run_gen pm = Inr ok \<longrightarrow> \<not> ok"
  shows "d = too_slow_payload (b_sidecar env) \<or> d = infra_fail ''profile returned invalid gen_time''"
  using assms(1)
proof (cases rule: chain_answer)
  case (measured plan opts sec base gens bases r err descs g)
  have "script_section x (pm_run_gen pm) j \<noteq> Inr (Some sec)" for x j
    using assms(3) by (cases "pm_run_gen pm") (auto simp: script_section_def split: if_splits)
  then show ?thesis using measured(4) assms(2)
    by (auto simp: profile_sections_def run_profile_scripts_and_collect_results_def split: sum.splits option.splits)
qed simp_all

subsection \<open>A committed baseline on its way\<close>

text \<open>The times per shape the bridge hands down for a committed baseline.\<close>

definition committed_times :: "StickyOverride \<Rightarrow> pyval list" where
  "committed_times ov = (case so_per_shape_us ov of PList (x # xs) \<Rightarrow> map to_float (x # xs) | _ \<Rightarrow> [to_float (so_metric ov)])"

lemma override_section_fields:
  "dget (override_section ov) ''avg_us'' = to_float (so_metric ov)" "dget (override_section ov) ''per_case_us'' = PList (committed_times ov)"
  by (simp_all add: override_section_def make_profile_section_def committed_times_def dget_def split: pyval.split list.split)

lemma sticky_metric:
  assumes "sticky_baseline_override env sc = Inr (Some ov)"
  obtains b where "0 < b" "so_metric ov = PFloat (Fin b)"
proof -
  obtain p fp where "sd_override (sticky_override_from_progress p fp) = Some ov"
    using assms by (auto simp: sticky_baseline_override_def Let_def split: sum.splits)
  then have v: "valid_metric (so_metric ov)" "to_float (so_metric ov) = so_metric ov"
    by (auto simp: sticky_override_from_progress_def split: option.splits if_splits)
  then obtain r where "0 < r" "num_of (so_metric ov) = Some (Fin r)" by (auto simp: valid_metric_iff)
  then show thesis using that v(2) by (simp add: to_float_def)
qed

lemma committed_request:
  assumes "skip_base_profile (settings plan)" and "override_base_section (settings plan) = Some sec"
  shows "dget (request_settings (profile_req env t plan)) ''override_base_section'' = PDict sec"
    "skips_base (request_settings (profile_req env t plan))"
  using assms by (simp_all add: request_settings_def profile_req_def skips_base_def dget_default_def dget_def split: option.split)

lemma document_base:
  assumes "profile_document pm (Some d, gen) err = Inr r" and "dget d ''avg_us'' = PFloat (Fin b)"
  shows "dget r ''base_time'' = PFloat (Fin b)"
proof -
  from assms(1) obtain bu bases bm where s: "section_fields (Some d) = Inr (bu, bases, bm)" and b: "below_inf bu = Inr (dget r ''base_time'')"
    by (auto simp: profile_document_def Let_def dget_def split: prod.splits option.splits sum.splits)
  from s have "bu = dget d ''avg_us''" by (auto simp: section_fields_def dict_item_def dget_def split: option.splits)
  with b assms(2) show ?thesis by (simp add: below_inf_def)
qed

text \<open>With a committed baseline in force the settings that reach the worker hold its section, and no script for the reference is packed.\<close>

lemma committed_chain:
  assumes "sticky_baseline_override env (b_sidecar env) = Inr (Some ov)"
    and "array_or_empty (dget (sidecar_dict (b_sidecar env)) ''per_case'') = Inr per_case"
    and "wall_times ''ref_wall_us'' per_case \<noteq> [] \<or> wall_times ''impl_wall_us'' per_case \<noteq> []"
    and "budget_seconds (cf_eval_timeout config) = Some t" and "0 < t" and "''override_base_section'' |\<notin>| fmdom (rn_static rn)"
    and "profiled_payload (over_verifier env (at_worker rn pm own) fs) config n (Some ov) = Inr d" and "dget d ''outcome'' = PStr ''ok''"
  obtains opts base sec gens bases r err descs g where
    "profile_sections (pm\<lparr>pm_base_script := False, pm_gen_script := rn_last_verify rn \<noteq> Some False\<rparr>) (platform rn own opts)
       (PDict (override_section ov)) = Inr (Some (base, Some sec))"
    "profile_document (pm\<lparr>pm_base_script := False, pm_gen_script := rn_last_verify rn \<noteq> Some False\<rparr>) (base, Some sec) err = Inr r"
    "dget r ''per_shape_base_us'' = PList bases"
    "d = ok_answer g (reported_base r gens bases) gens
       (if length bases = length gens \<or> bridge_float (dget r ''base_time'') = None then bases else []) descs"
  using assms(7)
proof (cases rule: chain_answer)
  case slow
  then show thesis using assms(8) too_slow_typed [of "b_sidecar env"] by (simp add: kernel_failed_def)
next
  case unmeasured
  then show thesis using assms(8) infra_fail_typed(2) by blast
next
  case (measured plan opts sec base gens bases r err descs g)
  note c = committed_skips_reference [OF measured(1,2) assms(2-5)]
  note rq = committed_request [OF c [THEN conjunct1] c [THEN conjunct2], of env n]
  have o: "opts = request_settings (profile_req env n plan)" using measured(3) rq(1) by simp
  have "dget (full_settings rn opts) ''override_base_section'' = PDict (override_section ov)" "skips_base opts"
    using rq assms(6) unfolding o by (auto simp: full_settings_def dget_def)
  note o = this
  have pm: "requested rn pm opts = pm\<lparr>pm_base_script := False, pm_gen_script := rn_last_verify rn \<noteq> Some False\<rparr>" using o(2) by simp
  show thesis by (rule that [OF measured(4) [unfolded o(1) pm] measured(5) [unfolded pm] measured(8) measured(10)])
qed


text \<open>
  Behind an external profiler the committed baseline is lost: the worker counts it as a requested reference, but
  the sections of \<open>msprof\<close> and \<open>nsys\<close> come from scripts alone and the one for the reference was not packed. A
  success then reports no reference latency at all.
\<close>

theorem trace_profile_drops_committed:
  assumes "sticky_baseline_override env (b_sidecar env) = Inr (Some ov)"
    and "array_or_empty (dget (sidecar_dict (b_sidecar env)) ''per_case'') = Inr per_case"
    and "wall_times ''ref_wall_us'' per_case \<noteq> [] \<or> wall_times ''impl_wall_us'' per_case \<noteq> []"
    and "budget_seconds (cf_eval_timeout config) = Some t" and "0 < t" and "''override_base_section'' |\<notin>| fmdom (rn_static rn)"
    and "pm_python pm = Inr False" and "fmlookup (rn_static rn) ''backend'' = Some (PStr backend_name)" and "backend_name \<noteq> ''cpu''"
    and "profiled_payload (over_verifier env (at_worker rn pm own) fs) config n (Some ov) = Inr d" and "dget d ''outcome'' = PStr ''ok''"
  shows "\<exists>m. dget d ''metrics'' = PDict m \<and> dget m ''ref_latency_us'' = PNone \<and> dget m ''per_shape_base_us'' = PList []"
proof (cases rule: committed_chain [OF assms(1-6,10,11)])
  case (1 opts base sec gens bases r err descs g)
  have "base = None"
    using 1(1) assms(7-9) by (auto simp: profile_sections_def full_settings_def dget_default_def run_trace_profiling_def Let_def split: if_splits)
  then have "dget r ''base_time'' = PNone" "bases = []" using document_fields(2) [OF 1(2)] 1(3) by simp_all
  then show ?thesis unfolding 1(4) by (simp add: ok_answer_def dget_def bridge_float_def real_val_def)
qed

subsection \<open>A worker behind a service\<close>

lemma post_attempts_first:
  "fst (post_attempts net n k) = (if \<exists>i<n. net (k + i) \<noteq> NoConnection then net (k + (LEAST i. net (k + i) \<noteq> NoConnection)) else NoConnection)"
proof (induction n arbitrary: k)
  case (Suc n)
  show ?case
  proof (cases "net k = NoConnection")
    case True
    have L: "(LEAST i. net (k + i) \<noteq> NoConnection) = Suc (LEAST i. net (Suc k + i) \<noteq> NoConnection)" if "net (k + j) \<noteq> NoConnection" for j
      using Least_Suc [of "\<lambda>i. net (k + i) \<noteq> NoConnection", OF that] True by simp
    have E: "(\<exists>i<Suc n. net (k + i) \<noteq> NoConnection) \<longleftrightarrow> (\<exists>i<n. net (Suc k + i) \<noteq> NoConnection)"
      using True by (auto simp: less_Suc_eq_0_disj)
    show ?thesis
    proof (cases "\<exists>i<n. net (Suc k + i) \<noteq> NoConnection")
      case w: True
      then have "n \<noteq> 0" "\<exists>j. net (k + j) \<noteq> NoConnection" using E by auto
      then show ?thesis using True w E L Suc.IH [of "Suc k"] by (auto split: prod.split)
    next
      case False
      then show ?thesis using True E Suc.IH [of "Suc k"] by (auto split: prod.split)
    qed
  next
    case False
    then have "(LEAST i. net (k + i) \<noteq> NoConnection) = 0" by (intro Least_eq_0) simp
    then show ?thesis using False by (cases "net k") (auto intro: exI [of _ 0])
  qed
qed simp

text \<open>
  C10. A remote worker is a local one behind a lossy wire: as long as each attempt either finds no connection or is answered
  by the service, the client gets what the local worker would answer, with what JSON cannot carry made null, if
  some attempt of the ones it is allowed gets through, and the empty result with an error otherwise.
\<close>

theorem remote_profile_is_local:
  assumes "resolve_eval_timeout (re_defaults re) (dget opts ''timeout'') = Inr t"
    and "(if re_callback re then transient_retry_attempts (re_attempts re) else Inr 1) = Inr n"
    and "\<forall>i. re_net re i = NoConnection \<or> re_net re i = serve_profile True (Inr ()) pm own (Some (PDict opts))"
  shows "remote_profile re opts = Inr (if \<exists>i<n. re_net re i \<noteq> NoConnection then sanitize_dict (local_profile pm own (PDict opts))
     else empty_profile_result (Some ''remote profiling failed''))"
proof -
  have served: "serve_profile True (Inr ()) pm own (Some (PDict opts)) = Reply (PDict (sanitize_dict (local_profile pm own (PDict opts))))"
    by (simp add: serve_profile_def guarded_def json_safe_def sanitize_dict_def)
  have "re_net re (LEAST i. re_net re i \<noteq> NoConnection) \<noteq> NoConnection" if "\<exists>i<n. re_net re i \<noteq> NoConnection"
    by (rule LeastI_ex) (use that in blast)
  then have "fst (post_attempts (re_net re) n 0) = (if \<exists>i<n. re_net re i \<noteq> NoConnection
      then Reply (PDict (sanitize_dict (local_profile pm own (PDict opts)))) else NoConnection)"
    using assms(3) by (auto simp: post_attempts_first served)
  then have "reply_document (post_with_reconnect re) = (if \<exists>i<n. re_net re i \<noteq> NoConnection
      then Some (sanitize_dict (local_profile pm own (PDict opts))) else None)"
    unfolding post_with_reconnect_def assms(2) by (simp only: bindR_simps reply_document_def) (simp split: if_split)
  then show ?thesis using assms(1) by (auto simp: remote_profile_def)
qed

subsection \<open>A concrete profile\<close>

definition demo_ov :: StickyOverride where
  "demo_ov = \<lparr>so_metric = PFloat (Fin 9), so_per_shape_us = PNone\<rparr>"

definition demo_plan :: ProfilePlan where
  "demo_plan = \<lparr>settings = empty_settings\<lparr>override_base_section := Some (override_section demo_ov), skip_base_profile := True\<rparr>, too_slow = None\<rparr>"

definition demo_bench :: run_env where
  "demo_bench = \<lparr>rn_verifier = \<lparr>vf_profile = demo_pv, vf_request = demo_rq, vf_task_id = ''7'', vf_sol_identity = (\<lambda>_. Inl TypeError)\<rparr>,
     rn_defaults = Inr EvalDefaults_default, rn_prepare = Inr (), rn_acquire = Inr (), rn_project = Inr (), rn_last_verify = Some True,
     rn_sidecar = demo_sidecar, rn_static = fmap_of_list [(''backend'', PStr ''cuda'')], rn_worker = (\<lambda>_ _ _. Inl TypeError),
     rn_base_artifact = (\<lambda>_. None), rn_unique_dir = ''u''\<rparr>"

definition demo_worker :: "bool \<Rightarrow> bool \<Rightarrow> profile_machine" where
  "demo_worker python ok = \<lparr>pm_defaults = Inr EvalDefaults_default, pm_extract = Inr (), pm_python = Inr python, pm_base_script = True,
     pm_gen_script = True, pm_run_base = Inr True, pm_run_gen = Inr ok, pm_base_json = None,
     pm_gen_json = Some (PDict (fmap_of_list [(''avg_time_us'', PInt 7)])), pm_trace_base = Inr None, pm_trace_gen = Inr (Some (Fin 7)),
     pm_roofline = Inr fmempty, pm_artifacts = fmempty\<rparr>"

definition demo_chain :: "bool \<Rightarrow> bool \<Rightarrow> bridge_env" where
  "demo_chain python ok = over_verifier demo_bridge (at_worker demo_bench (demo_worker python ok) ''cuda'') \<lparr>cf_data = fmempty, cf_docs = fmempty\<rparr>"

lemma demo_sticky: "sticky_baseline_override demo_bridge (b_sidecar demo_bridge) = Inr (Some demo_ov)"
  by (simp add: demo_bridge_def demo_sidecar_def demo_shape_def sticky_baseline_override_def sidecar_dict_def array_or_empty_def dicts_of_def dget_def
      py_or_def py_int_def current_fingerprint_def sticky_override_from_progress_def py_eq_def valid_metric_def demo_ov_def to_float_def valid_per_shape_def
      fingerprint_mismatch_def Progress_default_def shape_signature_def)

lemma demo_profile_plan: "profile_plan demo_bridge (b_sidecar demo_bridge) demo_task_config False (Some demo_ov) = Inr demo_plan"
proof -
  have w: "wall_times ''ref_wall_us'' [demo_shape] = [9]" by (simp add: demo_shape_def wall_times_def dicts_of_def dget_def)
  have p: "plan_profile [9] [7] (Some 60) 5 50 (Some s) False
      = \<lparr>settings = empty_settings\<lparr>override_base_section := Some s, skip_base_profile := True\<rparr>, too_slow = None\<rparr>" for s
    by (simp add: plan_profile_def max_wall_def fit_def Let_def)
  have "as_mapping (py_or demo_sidecar (PDict fmempty)) = Inr (sidecar_dict demo_sidecar)" by (rule measured_sidecar [OF demo_budget(1)]) simp
  moreover have "b_warmup demo_bridge = 5" "b_repeats demo_bridge = 50" by (simp_all add: demo_bridge_def)
  ultimately show ?thesis by (simp add: profile_plan_def demo_budget w p demo_plan_def)
qed

definition demo_opts :: dict where
  "demo_opts = fmap_of_list [(''timeout'', PInt 60), (''keep_res'', PBool False), (''override_base_section'', PDict (override_section demo_ov)), (''skip_base_profile'', PBool True)]"

lemma demo_request: "request_settings (profile_req demo_bridge 60 demo_plan) = demo_opts"
  by (simp add: request_settings_def profile_req_def demo_plan_def empty_settings_def demo_opts_def demo_bridge_def del: fmap_of_list_simps)

lemma demo_full: "dget (full_settings demo_bench demo_opts) ''override_base_section'' = PDict (override_section demo_ov)"
    "dget_default (full_settings demo_bench demo_opts) ''backend'' v = PStr ''cuda''" "dget (full_settings demo_bench demo_opts) ''run_times'' = PNone"
    "dget (full_settings demo_bench demo_opts) ''warmup_times'' = PNone" "dget (full_settings demo_bench demo_opts) ''timeout'' = PInt 60"
  by (simp_all add: full_settings_def demo_bench_def demo_opts_def dget_def dget_default_def)

lemma demo_skips: "skips_base demo_opts" "dget demo_opts ''override_base_section'' = PDict (override_section demo_ov)"
    "dget demo_opts ''run_times'' = PNone" "dget demo_opts ''warmup_times'' = PNone"
  by (simp_all add: skips_base_def demo_opts_def dget_default_def dget_def)

abbreviation demo_packed :: "bool \<Rightarrow> bool \<Rightarrow> profile_machine" where
  "demo_packed python ok \<equiv> demo_worker python ok\<lparr>pm_base_script := False, pm_gen_script := True\<rparr>"

abbreviation demo_measured :: "bool \<Rightarrow> bool \<Rightarrow> dict" where
  "demo_measured python ok \<equiv> local_profile (demo_packed python ok) ''cuda'' (PDict (full_settings demo_bench demo_opts))"

lemmas demo_worker_simps = local_profile_def local_profile_body_def as_mapping_def resolve_run_times_def resolve_warmup_times_def
  resolve_eval_timeout_def positive_int_def py_int_def demo_full profile_sections_def demo_worker_def

lemma demo_crash: "demo_measured True False = empty_profile_result (Some ''generation profile failed'')"
  by (simp add: demo_worker_simps run_profile_scripts_and_collect_results_def script_section_def collect_profile_def is_dict_def split: option.split)

lemma demo_override_valid: "valid_override (PDict (override_section demo_ov)) = Some (override_section demo_ov)"
  by (simp add: valid_override_def override_section_fields demo_ov_def to_float_def)

lemma demo_gen_section: "read_profile_result_from_json (Some (PDict (fmap_of_list [(''avg_time_us'', PInt 7)])))
    = Inr (Some (fmap_of_list [(''avg_us'', PFloat (Fin 7)), (''per_case_us'', PList [PFloat (Fin 7)]), (''method'', PNone)]))"
  by (simp add: read_profile_result_from_json_def as_mapping_def dget_def finite_value_def)

lemma demo_document:
  assumes "dget g ''avg_us'' = PFloat (Fin 7)" and "dget g ''per_case_us'' = PList [PFloat (Fin 7)]" and "''avg_us'' |\<in>| fmdom g" and "''per_case_us'' |\<in>| fmdom g"
    and "pm_roofline pm = Inr fmempty" and "base = None \<or> base = Some (override_section demo_ov)"
  obtains r x y z where "profile_document pm (base, Some g) err = Inr r" "dget r ''gen_time'' = PFloat (Fin 7)" "dget r ''per_shape_gen_us'' = PList [PFloat (Fin 7)]"
    "dget r ''base_time'' = (if base = None then PNone else PFloat (Fin 9))" "dget r ''per_shape_base_us'' = PList (if base = None then [] else [PFloat (Fin 9)])"
    "fmlookup r ''speedup'' = Some (PFloat (Fin x))" "dget r ''roofline_time'' = PNone" "dget r ''roofline_speedup'' = PFloat y"
proof -
  have g: "section_fields (Some g) = Inr (PFloat (Fin 7), [PFloat (Fin 7)], dget g ''method'')"
    using assms(1-4) by (auto simp: section_fields_def dict_item_def as_array_def dget_def split: option.splits)
  have "''avg_us'' |\<in>| fmdom (override_section demo_ov)" "''per_case_us'' |\<in>| fmdom (override_section demo_ov)"
    by (simp_all add: override_section_def make_profile_section_def)
  then have b: "section_fields base = Inr (if base = None then PFloat PosInf else PFloat (Fin 9), if base = None then [] else [PFloat (Fin 9)],
      if base = None then PNone else dget (override_section demo_ov) ''method'')"
    using assms(6) override_section_fields [of demo_ov]
    by (auto simp: section_fields_def dict_item_def as_array_def dget_def demo_ov_def to_float_def committed_times_def split: option.splits)
  let ?bu = "if base = None then PFloat PosInf else PFloat (Fin 9)" and ?bs = "if base = None then [] else [PFloat (Fin 9)]"
  obtain v y where rf: "roofline_fields pm (base, Some g) (PFloat (Fin 7)) ?bu [PFloat (Fin 7)] ?bs = Inr (v, PNone, PFloat y)"
    by (simp add: roofline_fields_def assms(5) augment_roofline_metrics_def array_or_empty_def dget_def dget_default_def or_zero_def Let_def)
  have t: "below_inf (PFloat (Fin 7)) = Inr (PFloat (Fin 7))" "below_inf ?bu = Inr (if base = None then PNone else PFloat (Fin 9))"
    by (simp_all add: below_inf_def)
  have sp: "\<exists>x. profile_speedup (base, Some g) ?bs [PFloat (Fin 7)] = PFloat (Fin x)" by (simp add: profile_speedup_def or_zero_def)
  then obtain x where sp: "profile_speedup (base, Some g) ?bs [PFloat (Fin 7)] = PFloat (Fin x)" ..
  have doc: "profile_document pm (base, Some g) err = Inr (let d = fmap_of_list [(''gen_time'', PFloat (Fin 7)), (''base_time'', if base = None then PNone else PFloat (Fin 9)),
      (''speedup'', PFloat (Fin x)), (''per_shape_gen_us'', PList [PFloat (Fin 7)]), (''per_shape_base_us'', PList ?bs), (''gen_method'', dget g ''method''),
      (''base_method'', if base = None then PNone else dget (override_section demo_ov) ''method''),
      (''roofline_time'', PNone), (''roofline_speedup'', PFloat y), (''roofline'', v), (''artifacts'', PDict (pm_artifacts pm))]
      in case err of None \<Rightarrow> d | Some e \<Rightarrow> fmupd ''error'' (PStr e) d)"
    unfolding profile_document_def snd_conv fst_conv g b bindR_simps prod.case rf t sp Let_def by (rule refl)
  show thesis
    by (rule that [OF doc, of x y]) (simp_all add: dget_listed dget_def fmlookup_of_list Let_def split: option.split del: fmap_of_list_simps)
qed

lemma demo_measures:
  obtains r x y where "demo_measured python True = r" "dget r ''gen_time'' = PFloat (Fin 7)" "dget r ''per_shape_gen_us'' = PList [PFloat (Fin 7)]"
    "dget r ''base_time'' = (if python then PFloat (Fin 9) else PNone)" "dget r ''per_shape_base_us'' = PList (if python then [PFloat (Fin 9)] else [])"
    "fmlookup r ''speedup'' = Some (PFloat (Fin x))" "dget r ''roofline_time'' = PNone" "dget r ''roofline_speedup'' = PFloat y"
proof (cases python)
  case True
  let ?g = "fmap_of_list [(''avg_us'', PFloat (Fin 7)), (''per_case_us'', PList [PFloat (Fin 7)]), (''method'', PNone)]"
  obtain r x y where r: "profile_document (demo_packed True True) (Some (override_section demo_ov), Some ?g) None = Inr r"
    and f: "dget r ''gen_time'' = PFloat (Fin 7)" "dget r ''per_shape_gen_us'' = PList [PFloat (Fin 7)]"
      "dget r ''base_time'' = PFloat (Fin 9)" "dget r ''per_shape_base_us'' = PList [PFloat (Fin 9)]"
      "fmlookup r ''speedup'' = Some (PFloat (Fin x))" "dget r ''roofline_time'' = PNone" "dget r ''roofline_speedup'' = PFloat y"
    by (rule demo_document [of ?g "demo_packed True True" "Some (override_section demo_ov)" None]) (simp_all add: dget_def demo_worker_def)
  have "profile_sections (demo_packed True True) ''cuda'' (PDict (override_section demo_ov)) = Inr (Some (Some (override_section demo_ov), Some ?g))"
    by (simp add: profile_sections_def demo_worker_def run_profile_scripts_and_collect_results_def script_section_def demo_override_valid demo_gen_section
        del: fmap_of_list_simps)
  moreover have "collect_profile (demo_packed True True) (PDict (override_section demo_ov)) (Some (override_section demo_ov), Some ?g) = Inr r"
    by (simp add: collect_profile_def r del: fmap_of_list_simps)
  ultimately have "demo_measured True True = r"
    by (simp add: local_profile_def local_profile_body_def as_mapping_def resolve_run_times_def resolve_warmup_times_def
      resolve_eval_timeout_def positive_int_def py_int_def demo_full demo_worker_def del: fmap_of_list_simps)
  then show thesis using that [of r x y] f True by simp
next
  case False
  let ?g = "make_profile_section (PFloat (Fin 7)) PNone ''nsys''"
  have g: "''avg_us'' |\<in>| fmdom ?g" "''per_case_us'' |\<in>| fmdom ?g" "dget ?g ''avg_us'' = PFloat (Fin 7)" "dget ?g ''per_case_us'' = PList [PFloat (Fin 7)]"
    by (simp_all add: make_profile_section_def dget_def to_float_def)
  obtain r x y where r: "profile_document (demo_packed False True) (None, Some ?g) (Some ''base profile failed'') = Inr r"
    and f: "dget r ''gen_time'' = PFloat (Fin 7)" "dget r ''per_shape_gen_us'' = PList [PFloat (Fin 7)]"
      "dget r ''base_time'' = PNone" "dget r ''per_shape_base_us'' = PList []"
      "fmlookup r ''speedup'' = Some (PFloat (Fin x))" "dget r ''roofline_time'' = PNone" "dget r ''roofline_speedup'' = PFloat y"
    by (rule demo_document [of ?g "demo_packed False True" None "Some ''base profile failed''"]) (simp_all add: g demo_worker_def)
  have "profile_sections (demo_packed False True) ''cuda'' (PDict (override_section demo_ov)) = Inr (Some (None, Some ?g))"
    by (simp add: profile_sections_def demo_worker_def run_trace_profiling_def trace_section_def)
  moreover have "collect_profile (demo_packed False True) (PDict (override_section demo_ov)) (None, Some ?g) = Inr r"
    by (simp add: collect_profile_def r demo_override_valid)
  ultimately have "demo_measured False True = r"
    by (simp add: local_profile_def local_profile_body_def as_mapping_def resolve_run_times_def resolve_warmup_times_def
      resolve_eval_timeout_def positive_int_def py_int_def demo_full demo_worker_def)
  then show thesis using that [of r x y] f False by simp
qed

lemma demo_descs: "case_descs_of demo_sidecar = Inr [PStr []]"
  by (simp add: case_descs_of_def demo_sidecar_def demo_shape_def array_or_empty_def dicts_of_def dget_def dget_default_def)

lemma demo_profiled:
  "run_profile_body (at_worker demo_bench (demo_worker python ok) ''cuda'') demo_opts fs
     = digest_result (at_worker demo_bench (demo_worker python ok) ''cuda'') 5 50 True (demo_measured python ok) fs"
  by (simp add: run_profile_body_def at_worker_def with_cached_baseline_def demo_skips resolve_run_times_def resolve_warmup_times_def
      positive_int_def py_int_def EvalDefaults_default_def demo_bench_def full_settings_def)

lemma demo_payload:
  "profiled_payload (demo_chain python ok) demo_task_config 60 (Some demo_ov)
     = ok_payload (snd (run_profile (at_worker demo_bench (demo_worker python ok) ''cuda'') demo_opts \<lparr>cf_data = fmempty, cf_docs = fmempty\<rparr>))"
  by (simp add: demo_chain_def over_verifier_payload demo_profile_plan demo_request) (simp add: demo_plan_def)

lemma demo_reports: "\<exists>d. profiled_payload (demo_chain python True) demo_task_config 60 (Some demo_ov) = Inr d \<and> dget d ''outcome'' = PStr ''ok''
    \<and> (\<exists>m. dget d ''metrics'' = PDict m \<and> dget m ''per_shape_gen_us'' = PList [PFloat (Fin 7)])"
proof -
  let ?rn = "at_worker demo_bench (demo_worker python True) ''cuda''"
  obtain r x y where r: "demo_measured python True = r" "dget r ''gen_time'' = PFloat (Fin 7)" "dget r ''per_shape_gen_us'' = PList [PFloat (Fin 7)]"
    "dget r ''base_time'' = (if python then PFloat (Fin 9) else PNone)" "dget r ''per_shape_base_us'' = PList (if python then [PFloat (Fin 9)] else [])"
    "fmlookup r ''speedup'' = Some (PFloat (Fin x))" "dget r ''roofline_time'' = PNone" "dget r ''roofline_speedup'' = PFloat y"
    by (rule demo_measures)
  let ?bs = "if python then [PFloat (Fin 9)] else []"
  obtain p where p: "profile_result r [PFloat (Fin 7)] ?bs [PStr []] ''u'' = Inr p"
    using r by (simp add: profile_result_def printable_if_def printable_def dget_default_def is_number_def)
  note f = profile_result_fields [OF p]
  have "digest_result ?rn 5 50 True r fs = (fs, Inr p)" for fs
    using p by (cases python) (simp_all add: digest_result_def r(3-5) array_or_empty_def at_worker_def demo_bench_def demo_descs printable_if_def printable_def is_number_def Let_def)
  then have "ok_payload (snd (run_profile ?rn demo_opts fs)) = ok_payload p" for fs by (simp add: run_profile_def demo_profiled r(1))
  moreover have "ok_payload p = Inr (ok_answer 7 (if python then Some 9 else None) [PFloat (Fin 7)] ?bs [PStr []])"
    using r(2-5) by (simp add: ok_payload_def f bridge_float_def array_or_empty_def)
  ultimately show ?thesis by (simp add: demo_payload ok_answer_def dget_def)
qed

theorem profile_chain_answers_witness: "\<exists>d m. profiled_payload (demo_chain True True) demo_task_config 60 (Some demo_ov) = Inr d
    \<and> dget d ''metrics'' = PDict m \<and> metrics_aligned m"
proof -
  obtain d where d: "profiled_payload (demo_chain True True) demo_task_config 60 (Some demo_ov) = Inr d" "dget d ''outcome'' = PStr ''ok''"
    using demo_reports by blast
  have "d \<noteq> too_slow_payload (b_sidecar demo_bridge)" using d(2) too_slow_typed [of "b_sidecar demo_bridge"] by (auto simp: kernel_failed_def)
  moreover have "d \<noteq> infra_fail ''profile returned invalid gen_time''" using d(2) infra_fail_typed(2) by blast
  ultimately show ?thesis using profile_chain_answers [OF d(1) [unfolded demo_chain_def]] d(1) by blast
qed

theorem profile_crash_is_infra_witness: "\<exists>d. profiled_payload (demo_chain True False) demo_task_config 60 (Some demo_ov) = Inr d
    \<and> (d = too_slow_payload (b_sidecar demo_bridge) \<or> d = infra_fail ''profile returned invalid gen_time'')"
proof -
  have "profile_result (empty_profile_result (Some ''generation profile failed'')) [] [] [PStr []] ''u'' \<noteq> Inl e" for e
    by (simp add: profile_result_def printable_if_def printable_def empty_profile_result_def dget_default_def dget_def is_number_def)
  then obtain p where p: "profile_result (empty_profile_result (Some ''generation profile failed'')) [] [] [PStr []] ''u'' = Inr p"
    by (cases "profile_result (empty_profile_result (Some ''generation profile failed'')) [] [] [PStr []] ''u''") auto
  have "digest_result (at_worker demo_bench (demo_worker True False) ''cuda'') 5 50 True (empty_profile_result (Some ''generation profile failed'')) fs = (fs, Inr p)" for fs
    using p by (simp add: digest_result_def array_or_empty_def at_worker_def demo_bench_def demo_descs printable_if_def Let_def)
  then have "ok_payload (snd (run_profile (at_worker demo_bench (demo_worker True False) ''cuda'') demo_opts fs)) = ok_payload p" for fs
    by (simp add: run_profile_def demo_profiled demo_crash)
  moreover have "dget p ''gen_time'' = PNone" using profile_result_fields(1) [OF p] by simp
  ultimately have d: "profiled_payload (demo_chain True False) demo_task_config 60 (Some demo_ov) = Inr (infra_fail ''profile returned invalid gen_time'')"
    by (simp add: demo_payload no_time_no_answer)
  from profile_crash_is_infra [OF d [unfolded demo_chain_def]] d show ?thesis by (simp add: demo_worker_def)
qed

lemma demo_static: "''override_base_section'' |\<notin>| fmdom (rn_static demo_bench)" "fmlookup (rn_static demo_bench) ''backend'' = Some (PStr ''cuda'')"
  by (simp_all add: demo_bench_def)


theorem trace_profile_drops_committed_witness: "\<exists>d m. profiled_payload (demo_chain False True) demo_task_config 60 (Some demo_ov) = Inr d
    \<and> dget d ''outcome'' = PStr ''ok'' \<and> dget d ''metrics'' = PDict m \<and> dget m ''ref_latency_us'' = PNone"
proof -
  obtain d where d: "profiled_payload (demo_chain False True) demo_task_config 60 (Some demo_ov) = Inr d" "dget d ''outcome'' = PStr ''ok''"
    using demo_reports by blast
  have w: "wall_times ''ref_wall_us'' [demo_shape] \<noteq> [] \<or> wall_times ''impl_wall_us'' [demo_shape] \<noteq> []" by (simp add: demo_budget)
  from trace_profile_drops_committed [OF demo_sticky demo_budget(1) [folded demo_budget(4)] w demo_budget(3) _ demo_static(1) _ demo_static(2) _ d(1) [unfolded demo_chain_def] d(2)]
    d show ?thesis by (auto simp: demo_worker_def)
qed

theorem remote_profile_is_local_witness:
  "remote_profile \<lparr>re_defaults = Inr EvalDefaults_default, re_callback = True, re_attempts = Some ''3'',
     re_net = (\<lambda>i. if i = 0 then NoConnection else serve_profile True (Inr ()) (demo_worker True True) ''cuda'' (Some (PDict demo_opts)))\<rparr> demo_opts
   = Inr (sanitize_dict (local_profile (demo_worker True True) ''cuda'' (PDict demo_opts)))"
proof -
  let ?re = "\<lparr>re_defaults = Inr EvalDefaults_default, re_callback = True, re_attempts = Some ''3'',
     re_net = (\<lambda>i. if i = 0 then NoConnection else serve_profile True (Inr ()) (demo_worker True True) ''cuda'' (Some (PDict demo_opts)))\<rparr>"
  have t: "resolve_eval_timeout (re_defaults ?re) (dget demo_opts ''timeout'') = Inr 60"
    by (simp add: resolve_eval_timeout_def positive_int_def py_int_def demo_opts_def dget_def)
  have "int_of_str ''3'' = Inr 3" by code_simp
  then have n: "(if re_callback ?re then transient_retry_attempts (re_attempts ?re) else Inr 1) = Inr 3"
    by (simp add: transient_retry_attempts_def)
  have s: "serve_profile True (Inr ()) (demo_worker True True) ''cuda'' (Some (PDict demo_opts)) \<noteq> NoConnection"
    by (simp add: serve_profile_def guarded_def)
  have "\<exists>i<(3::nat). re_net ?re i \<noteq> NoConnection" by (rule exI [of _ 1]) (simp add: s)
  then show ?thesis using remote_profile_is_local [OF t n, of "demo_worker True True" "''cuda''"] by simp
qed

end
