(* ===== verification/Batch_Manifest.thy ===== *)
theory Batch_Manifest
  imports State_Store "HOL-Library.List_Lexorder" "HOL-Library.Char_ord"
begin

text \<open>
  The manifest and progress file of a batch (\<open>scripts/batch/manifest.py\<close>) with the kernel layout rule
  it delegates to (\<open>op/utils/task_layout.py\<close>). Paths are normalised strings; the file system is
  asked through three functions. The cases of a progress file keep the order of the JSON object.
\<close>

subsection \<open>Paths and the kernel layout\<close>

record batch_fs =
  is_dir :: "string \<Rightarrow> bool"
  is_file :: "string \<Rightarrow> bool"
  resolve_path :: "string \<Rightarrow> string"

definition slash :: char where
  "slash = CHR ''/''"

definition path_join :: "string \<Rightarrow> string \<Rightarrow> string" where
  "path_join d p = (if starts_with [slash] p then p else d @ [slash] @ p)"

definition path_name :: "string \<Rightarrow> string" where
  "path_name p = rev (takeWhile (\<lambda>c. c \<noteq> slash) (rev p))"

text \<open>The layout fields of a DSL adapter; the entry template is the function it formats to.\<close>

record dsl_layout =
  entry_filename :: "string \<Rightarrow> string"
  kernel_arg_is_directory :: bool
  kernel_project_dir_name :: "string option"

datatype layout_error = FileNotFoundError | LayoutValueError

definition resolve_kernel_paths_for_op ::
    "batch_fs \<Rightarrow> dsl_layout \<Rightarrow> string \<Rightarrow> string \<Rightarrow> layout_error + string \<times> string" where
  "resolve_kernel_paths_for_op fsq adapter kernel_dir op =
     (let canonical = entry_filename adapter op;
          legacy = op @ ''_kernel.py''
      in if \<not> kernel_arg_is_directory adapter then
           (case filter (is_file fsq) (map (path_join kernel_dir) [canonical, legacy]) of
              py # _ \<Rightarrow> Inr (py, py)
            | [] \<Rightarrow> Inl FileNotFoundError)
         else (case kernel_project_dir_name adapter of
             None \<Rightarrow> Inl LayoutValueError
           | Some subdir \<Rightarrow>
               if subdir = [] then Inl LayoutValueError
               else let op_root = path_join kernel_dir op;
                        kernel_arg = path_join op_root subdir
                    in if \<not> is_dir fsq kernel_arg then Inl FileNotFoundError
                       else (case filter (is_file fsq) (map (path_join op_root) [canonical, legacy]) of
                               cand # _ \<Rightarrow> Inr (kernel_arg, cand)
                             | [] \<Rightarrow> Inl FileNotFoundError)))"

subsection \<open>The manifest\<close>

record resolved_case =
  rc_op :: string
  rc_ref :: string
  rc_kernel :: string
  rc_module :: string

fun resolve_ops ::
    "batch_fs \<Rightarrow> dsl_layout \<Rightarrow> string \<Rightarrow> string \<Rightarrow> string list \<Rightarrow> pyval list \<Rightarrow> resolved_case list res" where
  "resolve_ops fsq adapter ref_dir kernel_dir seen [] = Inr []"
| "resolve_ops fsq adapter ref_dir kernel_dir seen (entry # ops) = (case entry of
      PStr raw \<Rightarrow>
        let op = strip raw; ref_path = path_join ref_dir (op @ ''_ref.py'')
        in if op = [] then Inl (ManifestError ''empty op_name in manifest.ops'')
           else if op \<in> set seen then Inl (ManifestError ''duplicate op_name'')
           else if \<not> is_file fsq ref_path then Inl (ManifestError ''ref not found'')
           else (case resolve_kernel_paths_for_op fsq adapter kernel_dir op of
               Inl _ \<Rightarrow> Inl (ManifestError ''kernel not found'')
             | Inr (kernel_arg, kernel_module) \<Rightarrow>
                 bindR (resolve_ops fsq adapter ref_dir kernel_dir (op # seen) ops) (\<lambda>cases.
                   Inr (\<lparr>rc_op = op, rc_ref = ref_path, rc_kernel = kernel_arg, rc_module = kernel_module\<rparr> # cases)))
    | _ \<Rightarrow> Inl (ManifestError ''manifest.ops entries must be strings''))"

text \<open>\<open>(batch_dir / raw).resolve()\<close>, required to be a directory.\<close>

definition manifest_dir :: "batch_fs \<Rightarrow> string \<Rightarrow> pyval \<Rightarrow> string res" where
  "manifest_dir fsq batch_dir raw =
     (if \<not> truthy raw then Inl (ManifestError ''directory is required'')
      else (case raw of
          PStr p \<Rightarrow> (let d = resolve_path fsq (path_join batch_dir p)
                      in if is_dir fsq d then Inr d else Inl (ManifestError ''directory not found''))
        | _ \<Rightarrow> Inl TypeError))"

definition resolve_cases :: "batch_fs \<Rightarrow> dsl_layout \<Rightarrow> string \<Rightarrow> dict \<Rightarrow> string \<Rightarrow> resolved_case list res" where
  "resolve_cases fsq adapter batch_dir manifest mode =
     (if mode \<noteq> ''ref-kernel'' then Inl (ManifestError ''bad mode'')
      else (case dget manifest ''ops'' of
          PList ops \<Rightarrow>
            if ops = [] then Inl (ManifestError ''manifest.ops must be a non-empty list'')
            else bindR (manifest_dir fsq batch_dir (dget manifest ''ref_dir'')) (\<lambda>ref_dir.
                 bindR (manifest_dir fsq batch_dir (dget manifest ''kernel_dir'')) (\<lambda>kernel_dir.
                   resolve_ops fsq adapter ref_dir kernel_dir [] ops))
        | _ \<Rightarrow> Inl (ManifestError ''manifest.ops must be a non-empty list'')))"

subsection \<open>The progress file\<close>

type_synonym cases = "(string \<times> dict) list"

record batch_progress =
  bp_mode :: "string option"
  bp_cases :: cases

datatype progress_file = Absent | Corrupt | Stored batch_progress

definition load_progress_file :: "progress_file \<Rightarrow> batch_progress res" where
  "load_progress_file f = (case f of
      Absent \<Rightarrow> Inr \<lparr>bp_mode = None, bp_cases = []\<rparr>
    | Corrupt \<Rightarrow> Inl (ManifestError ''corrupt progress file'')
    | Stored p \<Rightarrow> Inr p)"

definition save_progress_file :: "batch_progress \<Rightarrow> progress_file" where
  "save_progress_file p = Stored (p\<lparr>bp_cases := map (\<lambda>(op, c). (op, sanitize_dict c)) (bp_cases p)\<rparr>)"

text \<open>Assignment to a key of an ordered dictionary.\<close>

fun put_case :: "string \<Rightarrow> dict \<Rightarrow> cases \<Rightarrow> cases" where
  "put_case op c [] = [(op, c)]"
| "put_case op c ((op', c') # cs) = (if op' = op then (op, c) # cs else (op', c') # put_case op c cs)"

definition blank_result :: pyval where
  "blank_result = PDict (fmap_of_list [(''baseline_metric'', PNone), (''best_metric'', PNone),
     (''rounds'', PNone), (''consecutive_failures'', PNone)])"

definition pending_case :: "resolved_case \<Rightarrow> dict" where
  "pending_case c = fmap_of_list [(''op_name'', PStr (rc_op c)), (''ref'', PStr (rc_ref c)), (''kernel'', PStr (rc_kernel c)),
     (''status'', PStr ''pending''), (''task_dir'', PNone), (''started_at'', PNone), (''finished_at'', PNone),
     (''final_phase'', PNone), (''rc'', PNone), (''result'', blank_result), (''note'', PStr [])]"

definition merged_case :: "cases \<Rightarrow> resolved_case \<Rightarrow> dict" where
  "merged_case old c = (case map_of old (rc_op c) of
      None \<Rightarrow> pending_case c
    | Some existing \<Rightarrow> fmupd ''kernel'' (PStr (rc_kernel c)) (fmupd ''ref'' (PStr (rc_ref c)) existing))"

definition merge_cases :: "batch_progress \<Rightarrow> resolved_case list \<Rightarrow> string \<Rightarrow> batch_progress \<times> string list" where
  "merge_cases p resolved mode =
     (let old = bp_cases p;
          dropped = sort (filter (\<lambda>op. op \<notin> rc_op ` set resolved) (map fst old));
          new = fold (\<lambda>c. put_case (rc_op c) (merged_case old c)) resolved []
      in (\<lparr>bp_mode = Some mode, bp_cases = new\<rparr>, dropped))"

definition valid_statuses :: "string list" where
  "valid_statuses = [''pending'', ''running'', ''done'', ''error'', ''skip'']"

definition update_case :: "string \<Rightarrow> dict \<Rightarrow> progress_file \<Rightarrow> progress_file res" where
  "update_case op changes f = bindR (load_progress_file f) (\<lambda>p.
     case map_of (bp_cases p) op of
       None \<Rightarrow> Inl (ManifestError ''unknown op_name'')
     | Some c \<Rightarrow>
         (case fmlookup changes ''status'' of
            Some s \<Rightarrow> if \<exists>v \<in> set valid_statuses. py_eq s (PStr v)
                       then Inr (save_progress_file (p\<lparr>bp_cases := put_case op (c ++\<^sub>f changes) (bp_cases p)\<rparr>))
                       else Inl (ManifestError ''invalid status'')
          | None \<Rightarrow> Inr (save_progress_file (p\<lparr>bp_cases := put_case op (c ++\<^sub>f changes) (bp_cases p)\<rparr>))))"

subsection \<open>What a task reports\<close>

definition batch_phase :: "task_fs \<Rightarrow> string" where
  "batch_phase fs = (case load_state fs of
      None \<Rightarrow> ''UNKNOWN''
    | Some _ \<Rightarrow> (if read_phase fs = INIT then ''UNKNOWN'' else phase_name (read_phase fs)))"

definition view_number :: "task_view \<Rightarrow> string \<Rightarrow> pyval" where
  "view_number v k = (case map_of (tv_numbers v) k of None \<Rightarrow> PNone | Some x \<Rightarrow> x)"

definition read_task_state :: "config \<Rightarrow> real \<Rightarrow> task_fs \<Rightarrow> dict res" where
  "read_task_state cfg now fs = bindR (task_summary cfg now fs) (\<lambda>summary.
     let blank = fmap_of_list [(''progress_initialized'', PBool False), (''baseline_metric'', PNone), (''best_metric'', PNone),
           (''best_speedup'', PNone), (''rounds'', PNone), (''consecutive_failures'', PNone)]
     in case summary of
          None \<Rightarrow> Inr blank
        | Some v \<Rightarrow>
            if \<not> tv_progress_initialized v then Inr blank
            else Inr (fmap_of_list [(''progress_initialized'', PBool True),
              (''baseline_metric'', view_number v ''baseline_metric''), (''best_metric'', view_number v ''best_metric''),
              (''best_speedup'', view_number v ''best_speedup''), (''rounds'', view_number v ''eval_rounds''),
              (''consecutive_failures'', view_number v ''consecutive_failures'')]))"

subsection \<open>Task directory names\<close>

definition is_py_digit :: "char \<Rightarrow> bool" where
  "is_py_digit c = (is_digit c \<or> of_char c \<in> {178, 179, 185 :: nat})"

definition is_hex :: "char \<Rightarrow> bool" where
  "is_hex c = (c \<in> set ''0123456789abcdef'')"

text \<open>The last split of \<open>rsplit("_", 2)\<close>: what stands before and after the last underscore.\<close>

definition rsplit_last :: "string \<Rightarrow> (string \<times> string) option" where
  "rsplit_last s = (if CHR ''_'' \<notin> set s then None
     else Some (rev (tl (dropWhile (\<lambda>c. c \<noteq> CHR ''_'') (rev s))), rev (takeWhile (\<lambda>c. c \<noteq> CHR ''_'') (rev s))))"

definition task_dir_belongs_to_op :: "string \<Rightarrow> string \<Rightarrow> bool" where
  "task_dir_belongs_to_op name op = (case rsplit_last name of
      None \<Rightarrow> False
    | Some (front, rand) \<Rightarrow> (case rsplit_last front of
        None \<Rightarrow> False
      | Some (head, ts) \<Rightarrow>
          head = op \<and> list_all is_py_digit ts \<and> ts \<noteq> [] \<and> length rand = 6 \<and> list_all is_hex rand))"

text \<open>The first entry of greatest modification time.\<close>

fun newest :: "(string \<Rightarrow> real) \<Rightarrow> string list \<Rightarrow> string option" where
  "newest mt [] = None"
| "newest mt (d # ds) = (case newest mt ds of None \<Rightarrow> Some d | Some e \<Rightarrow> Some (if mt d < mt e then e else d))"

definition pick_new_task_dir :: "(string \<Rightarrow> real) \<Rightarrow> string list \<Rightarrow> string set \<Rightarrow> string \<Rightarrow> string option" where
  "pick_new_task_dir mt current pre op =
     newest mt (filter (\<lambda>d. d \<notin> pre \<and> task_dir_belongs_to_op (path_name d) op) current)"

subsection \<open>Directory names name their operator\<close>

lemma rsplit_last_iff:
  "rsplit_last s = Some (a, b) \<longleftrightarrow> s = a @ CHR ''_'' # b \<and> CHR ''_'' \<notin> set b"
proof
  assume r: "rsplit_last s = Some (a, b)"
  let ?P = "\<lambda>c. c \<noteq> CHR ''_''"
  from r have "CHR ''_'' \<in> set (rev s)" by (auto simp: rsplit_last_def split: if_splits)
  then have "dropWhile ?P (rev s) \<noteq> []" by (auto simp: dropWhile_eq_Nil_conv)
  moreover from this have "hd (dropWhile ?P (rev s)) = CHR ''_''" using hd_dropWhile by blast
  ultimately have "rev s = takeWhile ?P (rev s) @ CHR ''_'' # tl (dropWhile ?P (rev s))"
    by (metis list.collapse takeWhile_dropWhile_id)
  then have "s = rev (tl (dropWhile ?P (rev s))) @ CHR ''_'' # rev (takeWhile ?P (rev s))"
    by (metis append.assoc append_Cons append_Nil rev.simps(2) rev_append rev_rev_ident)
  with r show "s = a @ CHR ''_'' # b \<and> CHR ''_'' \<notin> set b"
    by (auto simp: rsplit_last_def dest: set_takeWhileD split: if_splits)
next
  assume "s = a @ CHR ''_'' # b \<and> CHR ''_'' \<notin> set b"
  then show "rsplit_last s = Some (a, b)"
    by (auto simp: rsplit_last_def takeWhile_append dropWhile_append)
qed

lemma digits_no_underscore: "list_all is_py_digit ts \<Longrightarrow> CHR ''_'' \<notin> set ts"
  by (auto simp: list_all_iff is_py_digit_def is_digit_def)

lemma hex_no_underscore: "list_all is_hex r \<Longrightarrow> CHR ''_'' \<notin> set r"
  by (auto simp: list_all_iff is_hex_def)

lemma belongs_splits:
  "task_dir_belongs_to_op name op \<longleftrightarrow>
     (\<exists>ts rand front. rsplit_last name = Some (front, rand) \<and> rsplit_last front = Some (op, ts)
        \<and> ts \<noteq> [] \<and> list_all is_py_digit ts \<and> length rand = 6 \<and> list_all is_hex rand)"
  unfolding task_dir_belongs_to_op_def by (simp split: option.split prod.split) blast

text \<open>
  A directory name belongs to an operator exactly when it is that operator's name followed by an
  underscore, a non-empty run of digits, an underscore and six hexadecimal digits. The operator name
  may itself hold underscores, and no name belongs to two operators.
\<close>

theorem task_dir_belongs_iff:
  "task_dir_belongs_to_op name op \<longleftrightarrow>
     (\<exists>ts rand. name = op @ ''_'' @ ts @ ''_'' @ rand \<and> ts \<noteq> [] \<and> list_all is_py_digit ts
        \<and> length rand = 6 \<and> list_all is_hex rand)"
  unfolding belongs_splits using digits_no_underscore hex_no_underscore by (simp add: rsplit_last_iff) blast

lemma newest_None: "newest mt ds = None \<longleftrightarrow> ds = []"
  by (cases ds) (auto split: option.splits)

lemma newest_mem: "newest mt ds = Some d \<Longrightarrow> d \<in> set ds \<and> (\<forall>e \<in> set ds. mt e \<le> mt d)"
proof (induction ds arbitrary: d)
  case (Cons x ds)
  show ?case
  proof (cases "newest mt ds")
    case None
    then show ?thesis using Cons.prems by (simp add: newest_None)
  next
    case (Some e)
    then show ?thesis using Cons.IH [OF Some] Cons.prems by (cases "mt x < mt e") force+
  qed
qed simp

subsection \<open>Resolution and merging\<close>

lemma put_case_keys: "map fst (put_case op c cs) = (if op \<in> fst ` set cs then map fst cs else map fst cs @ [op])"
  by (induction cs) (force simp: image_iff)+

lemma map_of_put_case: "map_of (put_case op c cs) = (map_of cs)(op \<mapsto> c)"
  by (induction cs) auto

lemma fold_put_case:
  assumes "distinct (map rc_op rs)" and "rc_op ` set rs \<inter> fst ` set acc = {}"
  shows "fold (\<lambda>c. put_case (rc_op c) (f c)) rs acc = acc @ map (\<lambda>c. (rc_op c, f c)) rs"
  using assms
proof (induction rs arbitrary: acc)
  case (Cons r rs)
  have "put_case (rc_op r) (f r) acc = acc @ [(rc_op r, f r)]"
    using Cons.prems(2) by (induction acc) auto
  then show ?case using Cons by auto
qed simp

lemma resolve_ops_sound:
  assumes "resolve_ops fsq adapter ref_dir kernel_dir seen ops = Inr cs"
  shows "map (PStr \<circ> rc_op) cs = map (\<lambda>v. case v of PStr s \<Rightarrow> PStr (strip s) | _ \<Rightarrow> v) ops
    \<and> distinct (map rc_op cs) \<and> rc_op ` set cs \<inter> set seen = {} \<and> [] \<notin> rc_op ` set cs
    \<and> (\<forall>c \<in> set cs. is_file fsq (rc_ref c) \<and> is_file fsq (rc_module c)
         \<and> (if kernel_arg_is_directory adapter then is_dir fsq (rc_kernel c) else rc_kernel c = rc_module c))"
  using assms
proof (induction ops arbitrary: seen cs)
  case (Cons v ops)
  then obtain raw where v: "v = PStr raw" by (cases v) auto
  let ?op = "strip raw"
  from Cons.prems v obtain k m cs' where ok: "?op \<noteq> []" "?op \<notin> set seen" "is_file fsq (path_join ref_dir (?op @ ''_ref.py''))"
    and km: "resolve_kernel_paths_for_op fsq adapter kernel_dir ?op = Inr (k, m)"
    and rest: "resolve_ops fsq adapter ref_dir kernel_dir (?op # seen) ops = Inr cs'"
    and cs: "cs = \<lparr>rc_op = ?op, rc_ref = path_join ref_dir (?op @ ''_ref.py''), rc_kernel = k, rc_module = m\<rparr> # cs'"
    by (auto simp: Let_def split: if_splits sum.splits)
  have "is_file fsq m \<and> (if kernel_arg_is_directory adapter then is_dir fsq k else k = m)"
    using km by (auto simp: resolve_kernel_paths_for_op_def Let_def filter_eq_Cons_iff
        split: if_splits list.splits option.splits)
  then show ?case using Cons.IH [OF rest] ok v cs by auto
qed simp

text \<open>
  A manifest that resolves lists every operator once, stripped, in manifest order; the reference and
  the wrapper module of each are files, and its kernel argument is the wrapper itself or, for
  a directory layout, an existing directory.
\<close>

theorem resolve_cases_sound:
  assumes "resolve_cases fsq adapter batch_dir manifest mode = Inr cs"
  shows "(\<exists>ops. dget manifest ''ops'' = PList ops \<and> ops \<noteq> []
      \<and> map (PStr \<circ> rc_op) cs = map (\<lambda>v. case v of PStr s \<Rightarrow> PStr (strip s) | _ \<Rightarrow> v) ops)
    \<and> distinct (map rc_op cs) \<and> [] \<notin> rc_op ` set cs
    \<and> (\<forall>c \<in> set cs. is_file fsq (rc_ref c) \<and> is_file fsq (rc_module c)
         \<and> (if kernel_arg_is_directory adapter then is_dir fsq (rc_kernel c) else rc_kernel c = rc_module c))"
proof -
  from assms obtain ops ref_dir kernel_dir where ops: "dget manifest ''ops'' = PList ops" "ops \<noteq> []"
    and r: "resolve_ops fsq adapter ref_dir kernel_dir [] ops = Inr cs"
    by (auto simp: resolve_cases_def split: if_splits pyval.splits)
  show ?thesis using resolve_ops_sound [OF r] ops by auto
qed

text \<open>
  Merging makes the manifest the source of truth: the progress holds exactly the resolved operators
  in their order, a new one is pending, a surviving one keeps every field but its two paths,
  and the operators reported as dropped are exactly the old ones no longer listed.
\<close>

theorem merge_cases_spec:
  assumes "distinct (map rc_op rs)" and "merge_cases p rs mode = (p', dropped)"
  shows "map fst (bp_cases p') = map rc_op rs
    \<and> set dropped = fst ` set (bp_cases p) - rc_op ` set rs \<and> sorted dropped
    \<and> (\<forall>c \<in> set rs. \<exists>e'. map_of (bp_cases p') (rc_op c) = Some e'
         \<and> (case map_of (bp_cases p) (rc_op c) of
              None \<Rightarrow> e' = pending_case c
            | Some e \<Rightarrow> dget e' ''ref'' = PStr (rc_ref c) \<and> dget e' ''kernel'' = PStr (rc_kernel c)
                \<and> (\<forall>k. k \<noteq> ''ref'' \<longrightarrow> k \<noteq> ''kernel'' \<longrightarrow> dget e' k = dget e k)))"
proof -
  have new: "bp_cases p' = map (\<lambda>c. (rc_op c, merged_case (bp_cases p) c)) rs"
    using assms fold_put_case [OF assms(1), of "[]" "merged_case (bp_cases p)"] by (auto simp: merge_cases_def Let_def)
  have look: "map_of (bp_cases p') (rc_op c) = Some (merged_case (bp_cases p) c)" if "c \<in> set rs" for c
    unfolding new using assms(1) that by (intro map_of_is_SomeI) (auto simp: comp_def)
  have "map fst (bp_cases p') = map rc_op rs" by (simp add: new comp_def)
  moreover have "set dropped = fst ` set (bp_cases p) - rc_op ` set rs \<and> sorted dropped"
    using assms(2) by (force simp: merge_cases_def Let_def)
  ultimately show ?thesis using look by (auto simp: merged_case_def split: option.split)
qed

subsection \<open>A manifest of two operators\<close>

definition demo_files :: batch_fs where
  "demo_files = \<lparr>is_dir = (\<lambda>p. p \<in> {''/b/r'', ''/b/k''}),
     is_file = (\<lambda>p. p \<in> {''/b/r/add_ref.py'', ''/b/k/add_kernel.py'', ''/b/r/mul_ref.py'', ''/b/k/mul_kernel.py''}),
     resolve_path = (\<lambda>p. p)\<rparr>"

definition demo_layout :: dsl_layout where
  "demo_layout = \<lparr>entry_filename = (\<lambda>_. ''kernel.py''), kernel_arg_is_directory = False, kernel_project_dir_name = None\<rparr>"

definition demo_manifest :: dict where
  "demo_manifest = fmap_of_list [(''ops'', PList [PStr '' add'', PStr ''mul'']), (''ref_dir'', PStr ''r''), (''kernel_dir'', PStr ''k'')]"

definition demo_case :: "string \<Rightarrow> resolved_case" where
  "demo_case op = \<lparr>rc_op = op, rc_ref = ''/b/r/'' @ op @ ''_ref.py'', rc_kernel = ''/b/k/'' @ op @ ''_kernel.py'',
     rc_module = ''/b/k/'' @ op @ ''_kernel.py''\<rparr>"

lemma demo_resolved:
  "resolve_cases demo_files demo_layout ''/b'' demo_manifest ''ref-kernel'' = Inr [demo_case ''add'', demo_case ''mul'']"
  by code_simp

theorem resolve_cases_sound_witness:
  "distinct (map rc_op [demo_case ''add'', demo_case ''mul'']) \<and> is_file demo_files (rc_module (demo_case ''mul''))"
  using resolve_cases_sound [OF demo_resolved] by simp

theorem merge_cases_spec_witness:
  "map fst (bp_cases (fst (merge_cases \<lparr>bp_mode = None, bp_cases = [(''sub'', fmempty)]\<rparr> [demo_case ''add''] ''ref-kernel''))) = [''add'']
   \<and> set (snd (merge_cases \<lparr>bp_mode = None, bp_cases = [(''sub'', fmempty)]\<rparr> [demo_case ''add''] ''ref-kernel'')) = {''sub''}"
  using merge_cases_spec [of "[demo_case ''add'']" "\<lparr>bp_mode = None, bp_cases = [(''sub'', fmempty)]\<rparr>" "''ref-kernel''", OF _ surjective_pairing]
  by (simp add: demo_case_def)

end
