(* ===== verification/Batch_Lock.thy ===== *)
theory Batch_Lock
  imports Py_Text
begin

text \<open>
  The lock file of a batch directory (\<open>acquire_lock\<close> and \<open>release_lock\<close> of \<open>scripts/batch/run.py\<close>),
  first for a caller that runs alone, then call by call for concurrent processes. A lock file
  is known by the process that created it, since the process id is written through the open descriptor
  and not through the name.
\<close>

subsection \<open>One caller\<close>

type_synonym pid = int

datatype lock_outcome = Locked | ActiveElsewhere pid | ClaimedConcurrently

definition lock_pid :: "string option \<Rightarrow> pid" where
  "lock_pid content = (case content of None \<Rightarrow> -1 | Some s \<Rightarrow>
     (case int_of_str (strip s) of Inr n \<Rightarrow> n | Inl _ \<Rightarrow> -1))"

definition live_lock :: "(pid \<Rightarrow> bool) \<Rightarrow> pid \<Rightarrow> bool" where
  "live_lock alive p = (p > 0 \<and> alive p)"

text \<open>The attempts that are left, two at the start; the lock file is its content.\<close>

fun acquire_attempts :: "nat \<Rightarrow> (pid \<Rightarrow> bool) \<Rightarrow> pid \<Rightarrow> string option \<Rightarrow> string option \<times> lock_outcome" where
  "acquire_attempts 0 alive me f = (f, Locked)"
| "acquire_attempts (Suc n) alive me f = (case f of
      None \<Rightarrow> (Some (int_str me), Locked)
    | Some _ \<Rightarrow>
        let p = lock_pid f
        in if live_lock alive p then (f, ActiveElsewhere p)
           else if n = 1 then acquire_attempts n alive me None
           else (f, ClaimedConcurrently))"

definition acquire_lock :: "(pid \<Rightarrow> bool) \<Rightarrow> pid \<Rightarrow> string option \<Rightarrow> string option \<times> lock_outcome" where
  "acquire_lock alive me f = acquire_attempts 2 alive me f"

definition release_lock :: "string option \<Rightarrow> string option" where
  "release_lock f = None"

lemma digit_char_facts: "is_digit c \<Longrightarrow> \<not> is_space c \<and> c \<noteq> CHR ''-'' \<and> c \<noteq> CHR ''+'' \<and> c \<noteq> CHR ''_''"
  by (auto simp: is_digit_def is_space_def Let_def)

lemma digits_int_digits: "list_all is_digit s \<Longrightarrow> s \<noteq> [] \<Longrightarrow> int_digits s"
  by (induction s rule: int_digits.induct) (auto dest: digit_char_facts)

lemma int_of_digits:
  assumes "list_all is_digit s" and "s \<noteq> []"
  shows "strip s = s" and "int_of_str s = Inr (int (digits_val s))"
proof -
  show st: "strip s = s"
    using assms digit_char_facts by (intro strip_id) (auto simp: list_all_iff)
  obtain c cs where s: "s = c # cs" using assms(2) by (cases s) auto
  have "filter (\<lambda>c. c \<noteq> CHR ''_'') s = s"
    using assms(1) digit_char_facts by (intro filter_True) (auto simp: list_all_iff)
  moreover have "c \<noteq> CHR ''-'' \<and> c \<noteq> CHR ''+''" using assms(1) s digit_char_facts by simp
  ultimately show "int_of_str s = Inr (int (digits_val s))"
    using digits_int_digits [OF assms] s st by (simp add: int_of_str_def Let_def)
qed

lemma lock_pid_own: "0 < me \<Longrightarrow> lock_pid (Some (int_str me)) = me"
  by (simp add: lock_pid_def int_str_def int_of_digits nat_str_digits)

text \<open>
  A caller that runs alone is refused by the recorded live process and changes nothing; it takes
  over a free, unreadable or stale lock, writes its own id, and refuses every later caller while it lives.
\<close>

theorem acquire_lock_alone:
  assumes "acquire_lock alive me f = (f', r)"
  shows "(f \<noteq> None \<and> live_lock alive (lock_pid f) \<longrightarrow> f' = f \<and> r = ActiveElsewhere (lock_pid f))
    \<and> (\<not> (f \<noteq> None \<and> live_lock alive (lock_pid f)) \<longrightarrow> r = Locked \<and> f' = Some (int_str me))
    \<and> (r = Locked \<longrightarrow> me > 0 \<and> alive me \<longrightarrow> acquire_lock alive other f' = (f', ActiveElsewhere me))"
  using assms
  by (auto simp: acquire_lock_def numeral_2_eq_2 lock_pid_own live_lock_def Let_def split: option.splits if_splits)

theorem acquire_lock_alone_witness:
  "acquire_lock (\<lambda>p. p = 7) 7 (Some ''12'') = (Some ''7'', Locked) \<and> acquire_lock (\<lambda>p. p = 7) 9 (Some ''7'') = (Some ''7'', ActiveElsewhere 7)"
proof -
  have a: "acquire_lock (\<lambda>p. p = 7) 7 (Some ''12'') = (Some ''7'', Locked)" by code_simp
  have "acquire_lock (\<lambda>p. p = 7) 9 (Some ''7'') = (Some ''7'', ActiveElsewhere 7)"
    by (rule acquire_lock_alone [OF a, of 9, THEN conjunct2, THEN conjunct2, rule_format]) simp_all
  with a show ?thesis by blast
qed

subsection \<open>Concurrent callers\<close>

datatype lock_file = NoLock | Old string | By pid

datatype lock_pc = Open nat | Collided nat | Unlink | Write | Holding | Exited

record lock_state =
  lock_entry :: lock_file
  written :: "pid \<Rightarrow> bool"
  where_at :: "pid \<Rightarrow> lock_pc"

definition lock_content :: "lock_state \<Rightarrow> string option" where
  "lock_content s = (case lock_entry s of
      NoLock \<Rightarrow> None | Old c \<Rightarrow> Some c | By p \<Rightarrow> Some (if written s p then int_str p else []))"

definition go :: "pid \<Rightarrow> lock_pc \<Rightarrow> lock_state \<Rightarrow> lock_state" where
  "go p c s = s\<lparr>where_at := (where_at s)(p := c)\<rparr>"

text \<open>One system call of one process; the liveness test and the decision go with the read.\<close>

definition lock_call :: "(pid \<Rightarrow> bool) \<Rightarrow> pid \<Rightarrow> lock_state \<Rightarrow> lock_state" where
  "lock_call alive p s = (case where_at s p of
      Open a \<Rightarrow> if lock_entry s = NoLock then go p Write (s\<lparr>lock_entry := By p\<rparr>) else go p (Collided a) s
    | Collided a \<Rightarrow>
        if live_lock alive (lock_pid (lock_content s)) then go p Exited s
        else if a = 0 then go p Unlink s
        else go p Exited s
    | Unlink \<Rightarrow> go p (Open 1) (s\<lparr>lock_entry := NoLock\<rparr>)
    | Write \<Rightarrow> go p Holding (s\<lparr>written := (written s)(p := True)\<rparr>)
    | Holding \<Rightarrow> go p Exited (s\<lparr>lock_entry := NoLock\<rparr>)
    | Exited \<Rightarrow> s)"

inductive lock_step :: "(pid \<Rightarrow> bool) \<Rightarrow> lock_state \<Rightarrow> lock_state \<Rightarrow> bool" for alive :: "pid \<Rightarrow> bool" where
  Call: "alive p \<Longrightarrow> lock_step alive s (lock_call alive p s)"

definition lock_start :: "lock_file \<Rightarrow> lock_state" where
  "lock_start f = \<lparr>lock_entry = f, written = (\<lambda>_. False), where_at = (\<lambda>_. Open 0)\<rparr>"

lemma schedule_reachable:
  "\<forall>p \<in> set ps. alive p \<Longrightarrow> (lock_step alive)\<^sup>*\<^sup>* s (fold (lock_call alive) ps s)"
proof (induction ps arbitrary: s)
  case (Cons p ps)
  then have "lock_step alive s (lock_call alive p s)" by (simp add: Call)
  then show ?case using Cons by (simp add: converse_rtranclp_into_rtranclp)
qed simp

text \<open>
  C40. The lock does not exclude. Two live processes can both come to hold it, from a stale lock (both judge
  it stale, and the second removes the file the first has just created) and even from no lock
  at all (the second reads the file before the first has written its id, and takes it for stale).
\<close>

theorem lock_race:
  assumes "alive p" and "alive q" and "p \<noteq> q" and "\<not> live_lock alive (lock_pid (Some c))"
  shows "(\<exists>s. (lock_step alive)\<^sup>*\<^sup>* (lock_start (Old c)) s \<and> where_at s p = Holding \<and> where_at s q = Holding)
    \<and> (\<exists>s. (lock_step alive)\<^sup>*\<^sup>* (lock_start NoLock) s \<and> where_at s p = Holding \<and> where_at s q = Holding)"
proof -
  have e: "\<not> live_lock alive (lock_pid (Some []))" by code_simp
  let ?s = "fold (lock_call alive) [p, q, p, q, p, p, p, q, q, q] (lock_start (Old c))"
  have "where_at ?s p = Holding \<and> where_at ?s q = Holding"
    using assms(3,4) by (simp add: lock_call_def lock_start_def go_def lock_content_def)
  then have old: "\<exists>s. (lock_step alive)\<^sup>*\<^sup>* (lock_start (Old c)) s \<and> where_at s p = Holding \<and> where_at s q = Holding"
    using schedule_reachable [of "[p, q, p, q, p, p, p, q, q, q]" alive] assms(1,2) by force
  let ?t = "fold (lock_call alive) [p, q, q, q, q, q, p] (lock_start NoLock)"
  have "where_at ?t p = Holding \<and> where_at ?t q = Holding"
    using assms(3) e by (simp add: lock_call_def lock_start_def go_def lock_content_def)
  then have "\<exists>s. (lock_step alive)\<^sup>*\<^sup>* (lock_start NoLock) s \<and> where_at s p = Holding \<and> where_at s q = Holding"
    using schedule_reachable [of "[p, q, q, q, q, q, p]" alive] assms(1,2) by force
  with old show ?thesis ..
qed

theorem lock_race_witness:
  "\<exists>s. (lock_step (\<lambda>p. p < 3))\<^sup>*\<^sup>* (lock_start (Old ''12'')) s \<and> where_at s 1 = Holding \<and> where_at s 2 = Holding"
proof -
  have "\<not> live_lock (\<lambda>p. p < 3) (lock_pid (Some ''12''))" by code_simp
  then show ?thesis by (intro lock_race [THEN conjunct1]) simp_all
qed

end
