(* ===== verification/Batch_Run.thy ===== *)
theory Batch_Run
  imports Batch_Manifest Batch_Lock Ownership_Steps
begin

text \<open>
  The batch driver (\<open>scripts/batch/run.py\<close>): recovery of stale cases, the run of one case with its
  bounded resumes, and the queue. The agent process it launches is a parameter: a list of events
  (what it did to the disk and the line it printed), its exit code and whether the run was interrupted.
\<close>

record batch_state =
  b_progress :: progress_file
  b_world :: world
  b_mtime :: "string \<Rightarrow> real"
  b_now :: real

datatype launch = Claude string | OpenCode string | Resume string nat

type_synonym agent_run = "((batch_state \<Rightarrow> batch_state) \<times> string) list \<times> int \<times> bool"
type_synonym agent = "launch \<Rightarrow> batch_state \<Rightarrow> agent_run"

record batch_env =
  be_rt :: runtime
  be_cfg :: config
  be_session :: string
  be_pid :: int
  be_alive :: "int \<Rightarrow> bool"
  be_retries :: nat
  be_agent :: agent

type_synonym 'a brun = "batch_state \<times> 'a res"

definition bindB :: "'a brun \<Rightarrow> ('a \<Rightarrow> batch_state \<Rightarrow> 'b brun) \<Rightarrow> 'b brun" where
  "bindB m f = (case m of (b, Inl e) \<Rightarrow> (b, Inl e) | (b, Inr x) \<Rightarrow> f x b)"

lemma bindB_simps [simp]: "bindB (b, Inl e) f = (b, Inl e)" "bindB (b, Inr x) f = f x b"
  by (simp_all add: bindB_def)

lemma bindB_Inr: "bindB m f = (b', Inr y) \<longleftrightarrow> (\<exists>b x. m = (b, Inr x) \<and> f x b = (b', Inr y))"
  by (cases m; cases "snd m") (auto simp: bindB_def)

lemma bindB_InrE:
  assumes "bindB m f = (b', Inr y)"
  obtains b x where "m = (b, Inr x)" "f x b = (b', Inr y)"
  using assms by (auto simp: bindB_Inr)

subsection \<open>Recovery on restart\<close>

definition runner_alive :: "(int \<Rightarrow> bool) \<Rightarrow> pyval \<Rightarrow> bool" where
  "runner_alive alive v = (case v of PInt n \<Rightarrow> n > 0 \<and> alive n | PBool b \<Rightarrow> b \<and> alive 1 | _ \<Rightarrow> False)"

text \<open>\<open>(c.get("note") or "").strip()\<close> with a tag appended.\<close>

definition tag_note :: "dict \<Rightarrow> string \<Rightarrow> dict res" where
  "tag_note c tag = (case py_or (dget c ''note'') (PStr []) of
      PStr s \<Rightarrow> Inr (fmupd ''note'' (PStr (if strip s = [] then tag else strip s @ ''; '' @ tag)) c)
    | _ \<Rightarrow> Inl AttributeError)"

definition harvest_tag :: string where
  "harvest_tag = ''harvested completed task on batch restart after runner exit''"

definition demote_tag :: string where
  "demote_tag = ''stale running, demoted on batch restart (no live runner_pid, task not active in state.json)''"

datatype recovery = Untouched | Harvested | Demoted

definition demote_case :: "real \<Rightarrow> dict \<Rightarrow> (dict \<times> recovery) res" where
  "demote_case now c = bindR (tag_note (fmupd ''finished_at'' (PTime now) (fmupd ''status'' (PStr ''error'') c)) demote_tag)
     (\<lambda>c'. Inr (c', Demoted))"

definition harvest_case :: "config \<Rightarrow> real \<Rightarrow> task_fs \<Rightarrow> dict \<Rightarrow> (dict \<times> recovery) res" where
  "harvest_case cfg now fs c = bindR (read_task_state cfg now fs) (\<lambda>result.
     bindR (tag_note (c ++\<^sub>f fmap_of_list [(''status'', PStr ''done''), (''finished_at'', PTime now),
        (''final_phase'', PStr ''FINISH''), (''rc'', PInt 0), (''result'', PDict result)]) harvest_tag) (\<lambda>c'. Inr (c', Harvested)))"

definition recover_case :: "config \<Rightarrow> (int \<Rightarrow> bool) \<Rightarrow> real \<Rightarrow> world \<Rightarrow> dict \<Rightarrow> (dict \<times> recovery) res" where
  "recover_case cfg alive now w c =
     (if \<not> py_eq (dget c ''status'') (PStr ''running'') then Inr (c, Untouched)
      else if runner_alive alive (dget c ''runner_pid'') then Inr (c, Untouched)
      else if \<not> truthy (dget c ''task_dir'') then demote_case now c
      else (case dget c ''task_dir'' of
          PStr td \<Rightarrow> bindR (is_task_active cfg now (task_at w td)) (\<lambda>active.
            if active then Inr (c, Untouched)
            else if batch_phase (task_at w td) = ''FINISH'' then harvest_case cfg now (task_at w td) c
            else demote_case now c)
        | _ \<Rightarrow> Inl TypeError))"

fun recover_cases :: "config \<Rightarrow> (int \<Rightarrow> bool) \<Rightarrow> real \<Rightarrow> world \<Rightarrow> cases \<Rightarrow> (cases \<times> nat \<times> nat) res" where
  "recover_cases cfg alive now w [] = Inr ([], 0, 0)"
| "recover_cases cfg alive now w ((op, c) # cs) =
     bindR (recover_case cfg alive now w c) (\<lambda>(c', act).
     bindR (recover_cases cfg alive now w cs) (\<lambda>(cs', demoted, harvested).
       Inr ((op, c') # cs', (if act = Demoted then 1 else 0) + demoted, (if act = Harvested then 1 else 0) + harvested)))"

definition recover_stale_running ::
    "config \<Rightarrow> (int \<Rightarrow> bool) \<Rightarrow> real \<Rightarrow> world \<Rightarrow> batch_progress \<Rightarrow> (batch_progress \<times> nat \<times> nat) res" where
  "recover_stale_running cfg alive now w p = bindR (recover_cases cfg alive now w (bp_cases p)) (\<lambda>(cs, demoted, harvested).
     Inr (p\<lparr>bp_cases := cs\<rparr>, demoted, harvested))"

subsection \<open>One case\<close>

definition set_case :: "string \<Rightarrow> dict \<Rightarrow> batch_state \<Rightarrow> unit brun" where
  "set_case op changes b = (case update_case op changes (b_progress b) of
      Inl e \<Rightarrow> (b, Inl e) | Inr f \<Rightarrow> (b\<lparr>b_progress := f\<rparr>, Inr ()))"

definition recorded_task_dir :: "string \<Rightarrow> batch_state \<Rightarrow> pyval res" where
  "recorded_task_dir op b = bindR (load_progress_file (b_progress b)) (\<lambda>p.
     Inr (case map_of (bp_cases p) op of None \<Rightarrow> PNone | Some c \<Rightarrow> dget c ''task_dir''))"

text \<open>\<open>_begin_case\<close>: the directories that exist before, or nothing when the owner is live.\<close>

definition begin_case :: "batch_env \<Rightarrow> string \<Rightarrow> string option \<Rightarrow> batch_state \<Rightarrow> string set option brun" where
  "begin_case e op prev b =
     bindB (set_case op (fmap_of_list [(''status'', PStr ''running''), (''started_at'', PTime (b_now b)), (''finished_at'', PNone),
        (''task_dir'', PNone), (''final_phase'', PNone), (''rc'', PNone), (''runner_pid'', PInt (be_pid e)), (''note'', PStr [])]) b)
     (\<lambda>_ b1. case clear_active_task (be_rt e) (be_cfg e) (b_now b1) (be_session e) prev False (b_world b1) of
          Inl err \<Rightarrow> (b1, Inl err)
        | Inr (w, True) \<Rightarrow> (b1\<lparr>b_world := w\<rparr>, Inr (Some (set (listing w))))
        | Inr (w, False) \<Rightarrow>
            bindB (set_case op (fmap_of_list [(''status'', PStr ''error''), (''finished_at'', PTime (b_now b1)),
                     (''note'', PStr ''aborted: prior owner still active'')]) (b1\<lparr>b_world := w\<rparr>))
              (\<lambda>_ b2. (b2, Inr None)))"

definition usable_task_dir :: "batch_state \<Rightarrow> string \<Rightarrow> pyval \<Rightarrow> string option" where
  "usable_task_dir b op raw = (case raw of
      PStr td \<Rightarrow> if fmlookup (tasks (b_world b)) td \<noteq> None \<and> task_dir_belongs_to_op (path_name td) op then Some td else None
    | _ \<Rightarrow> None)"

definition find_task_dir :: "string \<Rightarrow> string set \<Rightarrow> pyval \<Rightarrow> batch_state \<Rightarrow> string option res" where
  "find_task_dir op pre candidate b = bindR (recorded_task_dir op b) (\<lambda>recorded.
     Inr (case usable_task_dir b op candidate of
        Some td \<Rightarrow> Some td
      | None \<Rightarrow> (case usable_task_dir b op recorded of
          Some td \<Rightarrow> Some td
        | None \<Rightarrow> pick_new_task_dir (b_mtime b) (listing (b_world b)) pre op)))"

text \<open>\<open>with open_task(td, role=SUPERVISOR): pass\<close>; the result says whether the heal was accepted.\<close>

definition supervise :: "batch_env \<Rightarrow> string \<Rightarrow> batch_state \<Rightarrow> bool brun" where
  "supervise e td b =
     (case enter_task (be_rt e) (be_cfg e) (b_now b)
             \<lparr>c_session = be_session e, c_pid = be_pid e, c_role = SUPERVISOR, c_force = False\<rparr> td (b_world b) of
        (w, Inr _) \<Rightarrow> (b\<lparr>b_world := w\<rparr>, Inr True)
      | (w, Inl err) \<Rightarrow> (b\<lparr>b_world := w\<rparr>, if err = TaskConsistencyError then Inr False else Inl err))"

record case_result =
  cr_phase :: string
  cr_result :: dict
  cr_done :: bool
  cr_refused :: bool

definition read_case_result :: "batch_env \<Rightarrow> string \<Rightarrow> bool \<Rightarrow> batch_state \<Rightarrow> case_result brun" where
  "read_case_result e td interrupted b = bindB (supervise e td b) (\<lambda>healed b1.
     let fs = task_at (b_world b1) td in
     case read_task_state (be_cfg e) (b_now b1) fs of
       Inl err \<Rightarrow> (b1, Inl err)
     | Inr result \<Rightarrow> (b1, Inr \<lparr>cr_phase = batch_phase fs, cr_result = result,
         cr_done = (batch_phase fs = ''FINISH'' \<and> \<not> interrupted \<and> healed), cr_refused = (\<not> healed)\<rparr>))"

definition case_note :: "case_result \<Rightarrow> int \<Rightarrow> bool \<Rightarrow> nat \<Rightarrow> string" where
  "case_note r rc interrupted retries =
     (let note = (if cr_done r then []
                  else ''phase='' @ cr_phase r @ '' rc='' @ int_str rc @ (if interrupted then ''; interrupted'' else [])
                       @ (if cr_refused r then ''; post-run heal refused'' else []));
          retry_note = ''transient_retries='' @ nat_str retries
      in if retries = 0 then note else if note = [] then retry_note else retry_note @ ''; '' @ note)"

definition finish_case :: "string \<Rightarrow> string \<Rightarrow> case_result \<Rightarrow> int \<Rightarrow> bool \<Rightarrow> nat \<Rightarrow> batch_state \<Rightarrow> int brun" where
  "finish_case op td r rc interrupted retries b =
     bindB (set_case op (fmap_of_list [(''status'', PStr (if cr_done r then ''done'' else ''error'')), (''task_dir'', PStr td),
        (''finished_at'', PTime (b_now b)), (''final_phase'', PStr (cr_phase r)), (''rc'', PInt rc), (''result'', PDict (cr_result r)),
        (''note'', PStr (case_note r rc interrupted retries))]) b)
     (\<lambda>_ b'. (b', Inr (if interrupted then 130 else if cr_done r then 0 else 1)))"

text \<open>\<open>_stream_subprocess\<close>: the events in order, each line handed to the callback.\<close>

definition stream_subprocess ::
    "batch_env \<Rightarrow> launch \<Rightarrow> (string \<Rightarrow> 'c \<times> batch_state \<Rightarrow> 'c \<times> batch_state) \<Rightarrow> 'c \<Rightarrow> batch_state
      \<Rightarrow> 'c \<times> batch_state \<times> int \<times> bool" where
  "stream_subprocess e l cb c b = (case be_agent e l b of (events, rc, interrupted) \<Rightarrow>
     (case fold (\<lambda>(act, line) (c', b'). cb line (c', act b')) events (c, b) of
        (c', b') \<Rightarrow> (c', b', rc, interrupted)))"

definition run_agent :: "batch_env \<Rightarrow> launch \<Rightarrow> batch_state \<Rightarrow> batch_state \<times> int \<times> bool" where
  "run_agent e l b = snd (stream_subprocess e l (\<lambda>_ s. s) () b)"

record attempt_state =
  at_result :: case_result
  at_rc :: int
  at_interrupted :: bool
  at_count :: nat

text \<open>
  The resume loop; the first argument counts the retries that are left. The refused heal of a
  resumed run is swallowed here: \<open>cr_refused\<close> keeps its value from before the loop.
\<close>

fun resume_loop :: "nat \<Rightarrow> batch_env \<Rightarrow> string \<Rightarrow> attempt_state \<Rightarrow> batch_state \<Rightarrow> attempt_state brun" where
  "resume_loop 0 e td a b = (b, Inr a)"
| "resume_loop (Suc n) e td a b =
     (if cr_done (at_result a) \<or> cr_phase (at_result a) = ''FINISH'' then (b, Inr a)
      else (case run_agent e (Resume td (Suc (at_count a))) b of (b1, r_rc, r_int) \<Rightarrow>
        bindB (supervise e td b1) (\<lambda>_ b2.
          let fs = task_at (b_world b2) td; interrupted = (at_interrupted a \<or> r_int) in
          case read_task_state (be_cfg e) (b_now b2) fs of
            Inl err \<Rightarrow> (b2, Inl err)
          | Inr result \<Rightarrow>
              let a' = \<lparr>at_result = \<lparr>cr_phase = batch_phase fs, cr_result = result,
                          cr_done = (batch_phase fs = ''FINISH'' \<and> \<not> interrupted), cr_refused = cr_refused (at_result a)\<rparr>,
                        at_rc = r_rc, at_interrupted = interrupted, at_count = Suc (at_count a)\<rparr>
              in if r_int then (b2, Inr a') else resume_loop n e td a' b2)))"

definition transient_crash :: "case_result \<Rightarrow> int \<Rightarrow> bool \<Rightarrow> bool" where
  "transient_crash r rc interrupted = (\<not> cr_done r \<and> rc \<noteq> 0 \<and> \<not> interrupted \<and> \<not> cr_refused r
     \<and> cr_phase r \<noteq> ''FINISH'' \<and> dget (cr_result r) ''progress_initialized'' = PBool True)"

definition no_task_dir :: "string \<Rightarrow> string \<Rightarrow> int \<Rightarrow> bool \<Rightarrow> batch_state \<Rightarrow> int brun" where
  "no_task_dir op msg rc interrupted b =
     bindB (set_case op (fmap_of_list [(''status'', PStr ''error''), (''finished_at'', PTime (b_now b)), (''rc'', PInt rc),
        (''note'', PStr (msg @ ''; rc='' @ int_str rc @ (if interrupted then ''; interrupted'' else [])))]) b)
     (\<lambda>_ b'. (b', Inr (if interrupted then 130 else 2)))"

definition run_one :: "batch_env \<Rightarrow> string \<Rightarrow> string option \<Rightarrow> batch_state \<Rightarrow> int brun" where
  "run_one e op prev b = bindB (begin_case e op prev b) (\<lambda>context b1.
     case context of
       None \<Rightarrow> (b1, Inr 2)
     | Some pre \<Rightarrow> (case run_agent e (Claude op) b1 of (b2, rc, interrupted) \<Rightarrow>
         (case find_task_dir op pre PNone b2 of
            Inl err \<Rightarrow> (b2, Inl err)
          | Inr None \<Rightarrow> no_task_dir op ''no task_dir found'' rc interrupted b2
          | Inr (Some td) \<Rightarrow>
              bindB (read_case_result e td interrupted b2) (\<lambda>r b3.
              bindB (resume_loop (if transient_crash r rc interrupted then be_retries e else 0) e td
                       \<lparr>at_result = r, at_rc = rc, at_interrupted = interrupted, at_count = 0\<rparr> b3) (\<lambda>a b4.
                finish_case op td (at_result a) (at_rc a) (at_interrupted a) (at_count a) b4)))))"

definition marker :: string where
  "marker = ''[run_loop] task_dir=''"

text \<open>The line callback: the first announced directory is bound and recorded.\<close>

definition bind_task_dir ::
    "string \<Rightarrow> string \<Rightarrow> string option res \<times> batch_state \<Rightarrow> string option res \<times> batch_state" where
  "bind_task_dir op line s = (case s of
      (Inr None, b) \<Rightarrow>
        if starts_with marker (strip line) then
          (let td = strip (drop (length marker) (strip line)) in
           if td = [] then s
           else (case set_case op (fmap_of_list [(''task_dir'', PStr td)]) b of
                   (b', Inl err) \<Rightarrow> (Inl err, b')
                 | (b', Inr _) \<Rightarrow> (Inr (Some td), b')))
        else s
    | _ \<Rightarrow> s)"

definition run_one_opencode :: "batch_env \<Rightarrow> bool \<Rightarrow> string \<Rightarrow> string option \<Rightarrow> batch_state \<Rightarrow> int brun" where
  "run_one_opencode e has_run_loop op prev b = bindB (begin_case e op prev b) (\<lambda>context b1.
     case context of
       None \<Rightarrow> (b1, Inr 2)
     | Some pre \<Rightarrow>
         if \<not> has_run_loop then
           bindB (set_case op (fmap_of_list [(''status'', PStr ''error''), (''finished_at'', PTime (b_now b1)),
                    (''note'', PStr ''opencode driver missing'')]) b1) (\<lambda>_ b2. (b2, Inr 2))
         else (case stream_subprocess e (OpenCode op) (bind_task_dir op) (Inr None) b1 of
             (Inl err, b2, rc, interrupted) \<Rightarrow> (b2, Inl err)
           | (Inr bound, b2, rc, interrupted) \<Rightarrow>
               (case find_task_dir op pre (case bound of None \<Rightarrow> PNone | Some td \<Rightarrow> PStr td) b2 of
                  Inl err \<Rightarrow> (b2, Inl err)
                | Inr None \<Rightarrow> no_task_dir op ''no task_dir from run_loop'' rc interrupted b2
                | Inr (Some td) \<Rightarrow>
                    bindB (read_case_result e td interrupted b2) (\<lambda>r b3.
                      finish_case op td r rc interrupted 0 b3))))"

subsection \<open>The queue\<close>

record batch_args =
  ba_retry_errored :: bool
  ba_only :: string
  ba_limit :: nat
  ba_opencode :: bool
  ba_run_loop :: bool

definition only_ops :: "batch_args \<Rightarrow> string list" where
  "only_ops args = filter (\<lambda>s. s \<noteq> []) (map strip (split_on (CHR '','') (ba_only args)))"

definition queued :: "batch_args \<Rightarrow> dict \<Rightarrow> bool" where
  "queued args c =
     ((py_eq (dget c ''status'') (PStr ''pending'') \<or> ba_retry_errored args \<and> py_eq (dget c ''status'') (PStr ''error''))
      \<and> (only_ops args = [] \<or> (\<exists>op \<in> set (only_ops args). py_eq (dget c ''op_name'') (PStr op))))"

definition filter_queue :: "batch_args \<Rightarrow> batch_progress \<Rightarrow> dict list" where
  "filter_queue args p = filter (queued args) (map snd (bp_cases p))"

definition run_driver :: "batch_env \<Rightarrow> batch_args \<Rightarrow> string \<Rightarrow> string option \<Rightarrow> batch_state \<Rightarrow> int brun" where
  "run_driver e args op prev b =
     (if ba_opencode args then run_one_opencode e (ba_run_loop args) op prev b else run_one e op prev b)"

definition refresh_prev :: "string \<Rightarrow> string option \<Rightarrow> batch_state \<Rightarrow> string option res" where
  "refresh_prev op prev b = bindR (recorded_task_dir op b) (\<lambda>v.
     case v of PStr td \<Rightarrow> Inr (if td = [] then prev else Some td) | _ \<Rightarrow> if truthy v then Inl TypeError else Inr prev)"

record totals =
  n_ok :: nat
  n_failed :: nat
  n_skipped :: nat
  n_stopped :: bool

text \<open>The cases of the queue in order; code 130 stops it.\<close>

fun drive_queue :: "batch_env \<Rightarrow> batch_args \<Rightarrow> string option \<Rightarrow> totals \<Rightarrow> dict list \<Rightarrow> batch_state \<Rightarrow> totals brun" where
  "drive_queue e args prev t [] b = (b, Inr t)"
| "drive_queue e args prev t (c # cs) b = (case dget c ''op_name'' of
      PStr op \<Rightarrow> (case load_progress_file (b_progress b) of
          Inl err \<Rightarrow> (b, Inl err)
        | Inr p \<Rightarrow>
            if \<not> (\<exists>c' \<in> set (filter_queue args p). py_eq (dget c' ''op_name'') (PStr op))
            then drive_queue e args prev (t\<lparr>n_skipped := Suc (n_skipped t)\<rparr>) cs b
            else bindB (run_driver e args op prev b) (\<lambda>rc b1.
              case refresh_prev op prev b1 of
                Inl err \<Rightarrow> (b1, Inl err)
              | Inr prev1 \<Rightarrow>
                  if rc = 0 then drive_queue e args prev1 (t\<lparr>n_ok := Suc (n_ok t)\<rparr>) cs b1
                  else if rc = 130 then (b1, Inr (t\<lparr>n_failed := Suc (n_failed t), n_stopped := True\<rparr>))
                  else drive_queue e args prev1 (t\<lparr>n_failed := Suc (n_failed t)\<rparr>) cs b1))
    | _ \<Rightarrow> (b, Inl KeyError))"

text \<open>\<open>main\<close> with the lock held, from the recovery to the exit code.\<close>

definition run_batch :: "batch_env \<Rightarrow> batch_args \<Rightarrow> resolved_case list \<Rightarrow> batch_state \<Rightarrow> int brun" where
  "run_batch e args resolved b =
     (case bindR (load_progress_file (b_progress b)) (recover_stale_running (be_cfg e) (be_alive e) (b_now b) (b_world b)) of
        Inl err \<Rightarrow> (b, Inl err)
      | Inr (p, _, _) \<Rightarrow>
          let p1 = fst (merge_cases p resolved ''ref-kernel'');
              b1 = b\<lparr>b_progress := save_progress_file p1\<rparr>;
              queue = filter_queue args p1
          in if queue = [] then (b1, Inr 0)
             else bindB (drive_queue e args None \<lparr>n_ok = 0, n_failed = 0, n_skipped = 0, n_stopped = False\<rparr>
                           (if ba_limit args = 0 then queue else take (ba_limit args) queue) b1) (\<lambda>t b2.
                    (b2, Inr (if n_stopped t then 130 else if n_failed t = 0 then 0 else 1))))"

end
