(* ===== verification/Batch_Facts.thy ===== *)
theory Batch_Facts
  imports Batch_Run
begin

text \<open>
  What the batch driver promises: recovery spares whatever may still be running, a case that was run is
  settled with the exit code that says so, the resumes are bounded, and a batch writes no case outside
  its queue.
\<close>

subsection \<open>Recovery\<close>

lemma tag_note_status: "tag_note c tag = Inr c' \<Longrightarrow> k \<noteq> ''note'' \<Longrightarrow> dget c' k = dget c k"
  by (auto simp: tag_note_def split: pyval.splits)

text \<open>
  C37. Recovery on restart leaves a case alone unless it is marked running, its runner is dead and its task
  has no live owner; a case it does touch becomes done when its task reached FINISH and error
  otherwise, so nothing it touched stays running.
\<close>

theorem recover_case_spec:
  assumes "recover_case cfg alive now w c = Inr (c', act)"
  shows "act = Untouched \<and> c' = c
       \<and> (py_eq (dget c ''status'') (PStr ''running'') \<longrightarrow> runner_alive alive (dget c ''runner_pid'')
            \<or> (\<exists>td. dget c ''task_dir'' = PStr td \<and> is_task_active cfg now (task_at w td) = Inr True))
   \<or> act = Harvested \<and> dget c' ''status'' = PStr ''done''
       \<and> (\<exists>td. dget c ''task_dir'' = PStr td \<and> batch_phase (task_at w td) = ''FINISH'' \<and> is_task_active cfg now (task_at w td) = Inr False)
       \<and> \<not> runner_alive alive (dget c ''runner_pid'')
   \<or> act = Demoted \<and> dget c' ''status'' = PStr ''error''
       \<and> (\<forall>td. dget c ''task_dir'' = PStr td \<and> td \<noteq> [] \<longrightarrow> batch_phase (task_at w td) \<noteq> ''FINISH'' \<and> is_task_active cfg now (task_at w td) = Inr False)
       \<and> \<not> runner_alive alive (dget c ''runner_pid'')"
proof -
  have d: "act = Demoted \<and> dget c' ''status'' = PStr ''error''" if "demote_case now c = Inr (c', act)"
    using that by (auto simp: demote_case_def tag_note_status)
  have h: "act = Harvested \<and> dget c' ''status'' = PStr ''done''" if "harvest_case cfg now fs c = Inr (c', act)" for fs
    using that by (auto simp: harvest_case_def tag_note_status dget_def [of "_ ++\<^sub>f _"] fmlookup_of_list)
  show ?thesis
  proof (cases "py_eq (dget c ''status'') (PStr ''running'') \<and> \<not> runner_alive alive (dget c ''runner_pid'')
      \<and> truthy (dget c ''task_dir'')")
    case False
    then show ?thesis using assms d by (auto simp: recover_case_def split: if_splits)
  next
    case True
    then obtain td active where td: "dget c ''task_dir'' = PStr td" "td \<noteq> []" "is_task_active cfg now (task_at w td) = Inr active"
      and r: "(if active then Inr (c, Untouched) else if batch_phase (task_at w td) = ''FINISH'' then harvest_case cfg now (task_at w td) c
            else demote_case now c) = Inr (c', act)"
      using assms by (auto simp: recover_case_def split: pyval.splits)
    show ?thesis
    proof (cases active)
      case True
      then show ?thesis using r td by auto
    next
      case False
      then show ?thesis using r td h d True by (cases "batch_phase (task_at w td) = ''FINISH''") auto
    qed
  qed
qed

subsection \<open>One case\<close>

definition case_of :: "string \<Rightarrow> batch_state \<Rightarrow> dict option" where
  "case_of op b = (case b_progress b of Stored p \<Rightarrow> map_option sanitize_dict (map_of (bp_cases p) op) | _ \<Rightarrow> None)"

lemma map_of_sanitized: "map_of (map (\<lambda>(op, c). (op, sanitize_dict c)) cs) op = map_option sanitize_dict (map_of cs op)"
  by (induction cs) auto

lemma case_of_save: "case_of op (b\<lparr>b_progress := save_progress_file p\<rparr>) = map_option sanitize_dict (map_of (bp_cases p) op)"
  by (simp add: case_of_def save_progress_file_def map_of_sanitized option.map_comp comp_def)

lemma set_case_Inr:
  assumes "set_case op changes b = (b', Inr u)"
  shows "\<exists>c. case_of op b = Some (sanitize_dict c) \<and> case_of op b' = Some (sanitize_dict (c ++\<^sub>f changes))"
    and "b_world b' = b_world b" and "b_now b' = b_now b" and "op' \<noteq> op \<longrightarrow> case_of op' b' = case_of op' b"
proof -
  from assms obtain f where f: "update_case op changes (b_progress b) = Inr f" and b': "b' = b\<lparr>b_progress := f\<rparr>"
    by (auto simp: set_case_def split: sum.splits)
  from f obtain p c where p: "load_progress_file (b_progress b) = Inr p" "map_of (bp_cases p) op = Some c"
    and fp: "f = save_progress_file (p\<lparr>bp_cases := put_case op (c ++\<^sub>f changes) (bp_cases p)\<rparr>)"
    by (auto simp: update_case_def split: option.splits if_splits)
  have look: "case_of x b = map_option sanitize_dict (map_of (bp_cases p) x)" for x
    using p by (auto simp: case_of_def load_progress_file_def split: progress_file.splits)
  have after: "case_of x b' = map_option sanitize_dict (map_of (put_case op (c ++\<^sub>f changes) (bp_cases p)) x)" for x
    by (simp add: b' fp case_of_save)
  show "\<exists>c. case_of op b = Some (sanitize_dict c) \<and> case_of op b' = Some (sanitize_dict (c ++\<^sub>f changes))"
    using look after p(2) by (auto simp: map_of_put_case)
  show "b_world b' = b_world b" "b_now b' = b_now b" "op' \<noteq> op \<longrightarrow> case_of op' b' = case_of op' b"
    using look after by (simp_all add: b' map_of_put_case)
qed

definition case_field :: "string \<Rightarrow> string \<Rightarrow> batch_state \<Rightarrow> pyval" where
  "case_field op k b = (case case_of op b of None \<Rightarrow> PNone | Some c \<Rightarrow> dget c k)"

lemma set_case_field:
  assumes "set_case op changes b = (b', Inr u)" and "fmlookup changes k = Some v"
  shows "case_field op k b' = sanitize_floats v"
proof -
  obtain c where "case_of op b' = Some (sanitize_dict (c ++\<^sub>f changes))" using set_case_Inr(1) [OF assms(1)] by blast
  then show ?thesis using assms(2) by (auto simp: case_field_def dget_def dest: fmdomI)
qed

lemma finish_case_settles:
  assumes "finish_case op td r rc interrupted n b = (b', Inr code)" and "cr_done r \<longrightarrow> \<not> interrupted"
  shows "case_field op ''status'' b' = PStr (if code = 0 then ''done'' else ''error'')"
    and "code = 0 \<longleftrightarrow> cr_done r" and "b_world b' = b_world b"
    and "case_field op ''task_dir'' b' = PStr td" and "case_field op ''final_phase'' b' = PStr (cr_phase r)"
proof -
  from assms(1) obtain u where s: "set_case op (fmap_of_list [(''status'', PStr (if cr_done r then ''done'' else ''error'')), (''task_dir'', PStr td),
        (''finished_at'', PTime (b_now b)), (''final_phase'', PStr (cr_phase r)), (''rc'', PInt rc), (''result'', PDict (cr_result r)),
        (''note'', PStr (case_note r rc interrupted n))]) b = (b', Inr u)"
    and code: "code = (if interrupted then 130 else if cr_done r then 0 else 1)"
    by (auto simp: finish_case_def bindB_Inr)
  show c: "code = 0 \<longleftrightarrow> cr_done r" using code assms(2) by simp
  show "b_world b' = b_world b" by (rule set_case_Inr(2) [OF s])
  show "case_field op ''status'' b' = PStr (if code = 0 then ''done'' else ''error'')"
    using set_case_field [OF s, of "''status''"] c by (simp add: fmlookup_of_list)
  show "case_field op ''task_dir'' b' = PStr td" "case_field op ''final_phase'' b' = PStr (cr_phase r)"
    using set_case_field [OF s, of "''task_dir''"] set_case_field [OF s, of "''final_phase''"] by (simp_all add: fmlookup_of_list)
qed

text \<open>What a result says of the directory it was read from.\<close>

definition result_true :: "string \<Rightarrow> case_result \<Rightarrow> bool \<Rightarrow> batch_state \<Rightarrow> bool" where
  "result_true td r interrupted b \<longleftrightarrow> cr_phase r = batch_phase (task_at (b_world b) td)
     \<and> (cr_done r \<longrightarrow> cr_phase r = ''FINISH'' \<and> \<not> interrupted)"

lemma read_case_result_true:
  "read_case_result e td interrupted b = (b', Inr r) \<Longrightarrow> result_true td r interrupted b'"
  by (auto simp: read_case_result_def result_true_def Let_def elim!: bindB_InrE split: sum.splits)

lemma resume_loop_true:
  "resume_loop n e td a b = (b', Inr a') \<Longrightarrow> result_true td (at_result a) (at_interrupted a) b
     \<Longrightarrow> result_true td (at_result a') (at_interrupted a') b' \<and> at_count a' \<le> at_count a + n"
proof (induction n arbitrary: a b)
  case (Suc n)
  show ?case
  proof (cases "cr_done (at_result a) \<or> cr_phase (at_result a) = ''FINISH''")
    case True
    then show ?thesis using Suc.prems by simp
  next
    case False
    obtain b1 r_rc r_int where run: "run_agent e (Resume td (Suc (at_count a))) b = (b1, r_rc, r_int)" by (metis surj_pair)
    from Suc.prems(1) False run obtain ok b2 where "supervise e td b1 = (b2, Inr ok)" by (auto simp: bindB_Inr)
    moreover obtain result where "read_task_state (be_cfg e) (b_now b2) (task_at (b_world b2) td) = Inr result"
      using Suc.prems(1) False run calculation by (auto simp: Let_def split: sum.splits)
    moreover define a2 where "a2 = \<lparr>at_result = \<lparr>cr_phase = batch_phase (task_at (b_world b2) td), cr_result = result,
        cr_done = (batch_phase (task_at (b_world b2) td) = ''FINISH'' \<and> \<not> (at_interrupted a \<or> r_int)), cr_refused = cr_refused (at_result a)\<rparr>,
        at_rc = r_rc, at_interrupted = at_interrupted a \<or> r_int, at_count = Suc (at_count a)\<rparr>"
    ultimately have step: "(if r_int then (b2, Inr a2) else resume_loop n e td a2 b2) = (b', Inr a')"
      using Suc.prems(1) False run by (cases r_int) (auto simp: Let_def)
    have "result_true td (at_result a2) (at_interrupted a2) b2" by (auto simp: result_true_def a2_def)
    then show ?thesis
      using step Suc.IH [of a2 b2] by (cases r_int) (auto simp: a2_def)
  qed
qed simp

lemma begin_case_refused:
  "begin_case e op prev b = (b', Inr None) \<Longrightarrow> case_field op ''status'' b' = PStr ''error''"
  by (auto simp: begin_case_def fmlookup_of_list elim!: bindB_InrE split: sum.splits prod.splits bool.splits
      dest!: set_case_field [where k = "''status''" and v = "PStr ''error''"])

lemma no_task_dir_settles:
  assumes "no_task_dir op msg rc interrupted b = (b', Inr code)"
  shows "case_field op ''status'' b' = PStr ''error''" and "code \<noteq> 0"
proof -
  from assms obtain u where s: "set_case op (fmap_of_list [(''status'', PStr ''error''), (''finished_at'', PTime (b_now b)), (''rc'', PInt rc),
        (''note'', PStr (msg @ ''; rc='' @ int_str rc @ (if interrupted then ''; interrupted'' else [])))]) b = (b', Inr u)"
    and c: "code = (if interrupted then 130 else 2)" by (auto simp: no_task_dir_def bindB_Inr)
  show "case_field op ''status'' b' = PStr ''error''" using set_case_field [OF s, of "''status''"] by (simp add: fmlookup_of_list)
  show "code \<noteq> 0" using c by simp
qed

text \<open>
  C36. When the run of a case returns, the case is settled: code 0 exactly when it is recorded as done, any
  other code when it is recorded as an error, never as running; and a case recorded as done has a
  task directory whose state is in phase FINISH.
\<close>

theorem run_one_settles:
  assumes "run_one e op prev b = (b', Inr code)"
  shows "case_field op ''status'' b' = PStr (if code = 0 then ''done'' else ''error'')
    \<and> (code = 0 \<longrightarrow> (\<exists>td. case_field op ''task_dir'' b' = PStr td \<and> batch_phase (task_at (b_world b') td) = ''FINISH''
      \<and> case_field op ''final_phase'' b' = PStr ''FINISH''))"
proof -
  from assms obtain ctx b1 where bc: "begin_case e op prev b = (b1, Inr ctx)"
    by (auto simp: run_one_def bindB_Inr)
  show ?thesis
  proof (cases ctx)
    case None
    then show ?thesis using assms bc begin_case_refused [of e op prev b b1] by (auto simp: run_one_def)
  next
    case (Some pre)
    obtain b2 rc interrupted where run: "run_agent e (Claude op) b1 = (b2, rc, interrupted)" by (metis surj_pair)
    from assms bc Some run obtain found where found: "find_task_dir op pre PNone b2 = Inr found"
      by (auto simp: run_one_def split: sum.splits)
    show ?thesis
    proof (cases found)
      case None
      then have "no_task_dir op ''no task_dir found'' rc interrupted b2 = (b', Inr code)"
        using assms bc Some run found by (simp add: run_one_def)
      from no_task_dir_settles [OF this] show ?thesis by simp
    next
      case (Some td)
      from assms bc \<open>ctx = Some pre\<close> run found Some obtain r b3 a b4 where
        r: "read_case_result e td interrupted b2 = (b3, Inr r)"
        and a: "resume_loop (if transient_crash r rc interrupted then be_retries e else 0) e td
             \<lparr>at_result = r, at_rc = rc, at_interrupted = interrupted, at_count = 0\<rparr> b3 = (b4, Inr a)"
        and f: "finish_case op td (at_result a) (at_rc a) (at_interrupted a) (at_count a) b4 = (b', Inr code)"
        by (auto simp: run_one_def bindB_Inr)
      have t: "result_true td (at_result a) (at_interrupted a) b4"
        using resume_loop_true [OF a] read_case_result_true [OF r] by simp
      then have "cr_done (at_result a) \<longrightarrow> \<not> at_interrupted a" by (simp add: result_true_def)
      from finish_case_settles [OF f this] t show ?thesis by (auto simp: result_true_def)
    qed
  qed
qed

text \<open>
  A refused heal counts against the first run of a case but not against a resumed one: where the state is
  in phase FINISH but inconsistent with the plan or the history, the resume loop reports the case as
  done, while \<open>_read_case_result\<close> on the same directory reports it as failed.
\<close>

theorem resume_swallows_refusal:
  assumes "run_agent e (Resume td (Suc (at_count a))) b = (b1, rc, False)" and "supervise e td b1 = (b2, Inr False)"
    and "\<not> at_interrupted a" and "\<not> cr_done (at_result a)" and "cr_phase (at_result a) \<noteq> ''FINISH''"
    and "read_task_state (be_cfg e) (b_now b2) (task_at (b_world b2) td) = Inr result"
    and "batch_phase (task_at (b_world b2) td) = ''FINISH''"
  shows "\<exists>a' r. resume_loop (Suc n) e td a b = (b2, Inr a') \<and> cr_done (at_result a')
    \<and> read_case_result e td False b1 = (b2, Inr r) \<and> \<not> cr_done r \<and> cr_refused r"
proof -
  let ?a = "\<lparr>at_result = \<lparr>cr_phase = ''FINISH'', cr_result = result, cr_done = True, cr_refused = cr_refused (at_result a)\<rparr>,
     at_rc = rc, at_interrupted = False, at_count = Suc (at_count a)\<rparr>"
  have "resume_loop n e td ?a b2 = (b2, Inr ?a)" by (cases n) simp_all
  then have "resume_loop (Suc n) e td a b = (b2, Inr ?a)" using assms by (simp add: Let_def)
  moreover have "read_case_result e td False b1 = (b2, Inr \<lparr>cr_phase = ''FINISH'', cr_result = result, cr_done = False, cr_refused = True\<rparr>)"
    using assms by (simp add: read_case_result_def Let_def)
  ultimately show ?thesis by force
qed

subsection \<open>Cases outside the queue\<close>

definition launch_for :: "launch \<Rightarrow> string \<Rightarrow> bool" where
  "launch_for l op = (case l of Claude o' \<Rightarrow> op = o' | OpenCode o' \<Rightarrow> op = o'
     | Resume td _ \<Rightarrow> task_dir_belongs_to_op (path_name td) op)"

text \<open>An agent writes no case but that of the operator it was launched for.\<close>

definition agent_local :: "batch_env \<Rightarrow> bool" where
  "agent_local e \<longleftrightarrow> (\<forall>l b act line op. (act, line) \<in> set (fst (be_agent e l b)) \<longrightarrow> \<not> launch_for l op
     \<longrightarrow> (\<forall>b'. case_of op (act b') = case_of op b'))"

definition keeps :: "string \<Rightarrow> batch_state \<Rightarrow> 'a brun \<Rightarrow> bool" where
  "keeps op b m \<longleftrightarrow> case_of op (fst m) = case_of op b"

lemma case_of_world [simp]: "case_of op (b\<lparr>b_world := w\<rparr>) = case_of op b"
  by (simp add: case_of_def)

lemma set_case_keeps: "op' \<noteq> op \<Longrightarrow> keeps op' b (set_case op ch b)"
proof (cases "set_case op ch b")
  case (Pair b' r)
  assume ne: "op' \<noteq> op"
  show ?thesis
  proof (cases r)
    case (Inl err)
    then have "b' = b" using Pair by (auto simp: set_case_def split: sum.splits)
    then show ?thesis using Pair by (simp add: keeps_def)
  next
    case (Inr u)
    then show ?thesis using Pair ne set_case_Inr(4) [of op ch b b' u op'] by (simp add: keeps_def)
  qed
qed

lemma bindB_keeps:
  assumes "keeps op b m" and "\<And>x b1. m = (b1, Inr x) \<Longrightarrow> keeps op b1 (f x b1)"
  shows "keeps op b (bindB m f)"
  using assms by (cases m; cases "snd m") (auto simp: keeps_def)

lemma keeps_pure [simp]: "keeps op b (b, r)" "keeps op b (b\<lparr>b_world := w\<rparr>, r)"
  by (simp_all add: keeps_def)

lemma keeps_world: "keeps op (b\<lparr>b_world := w\<rparr>) m = keeps op b m"
  by (simp add: keeps_def)

lemma supervise_keeps: "keeps op b (supervise e td b)"
  by (auto simp: supervise_def split: prod.splits sum.splits)

lemma stream_keeps:
  assumes "agent_local e" and "\<not> launch_for l op" and "\<And>line c b0. case_of op (snd (cb line (c, b0))) = case_of op b0"
  shows "case_of op (fst (snd (stream_subprocess e l cb c b))) = case_of op b"
proof -
  obtain events rc intr where ag: "be_agent e l b = (events, rc, intr)" by (metis surj_pair)
  have "case_of op (snd (fold (\<lambda>(act, line) (c', b'). cb line (c', act b')) evs s)) = case_of op (snd s)"
    if "set evs \<subseteq> set events" for evs s
    using that
  proof (induction evs arbitrary: s)
    case (Cons ev evs)
    obtain act line c0 b0 where p: "ev = (act, line)" "s = (c0, b0)" by (cases ev; cases s)
    have "(act, line) \<in> set (fst (be_agent e l b))" using ag p(1) Cons.prems by simp
    then have "case_of op (act b0) = case_of op b0" using assms(1,2) unfolding agent_local_def by blast
    moreover have "set evs \<subseteq> set events" using Cons.prems by simp
    ultimately show ?case using Cons.IH p assms(3) by simp
  qed simp
  from this [of events "(c, b)"] show ?thesis by (auto simp: stream_subprocess_def ag split: prod.splits)
qed

lemma run_agent_keeps:
  "agent_local e \<Longrightarrow> \<not> launch_for l op \<Longrightarrow> case_of op (fst (run_agent e l b)) = case_of op b"
  unfolding run_agent_def by (rule stream_keeps) simp_all

lemma bind_task_dir_cases:
  "bind_task_dir op line (c, b) = (c, b) \<or> (\<exists>ch. snd (bind_task_dir op line (c, b)) = fst (set_case op ch b))"
proof (cases "c = Inr None")
  case True
  let ?td = "strip (drop (length marker) (strip line))"
  show ?thesis
  proof (cases "starts_with marker (strip line) \<and> ?td \<noteq> []")
    case True
    then have "snd (bind_task_dir op line (c, b)) = fst (set_case op (fmap_of_list [(''task_dir'', PStr ?td)]) b)"
      unfolding bind_task_dir_def \<open>c = Inr None\<close> Let_def
      by (cases "set_case op (fmap_of_list [(''task_dir'', PStr ?td)]) b") (simp split: sum.split)
    then show ?thesis by (intro disjI2 exI)
  next
    case False
    then show ?thesis unfolding bind_task_dir_def \<open>c = Inr None\<close> Let_def by simp
  qed
next
  case False
  then have "bind_task_dir op line (c, b) = (c, b)" unfolding bind_task_dir_def by (cases c; cases "projr c") simp_all
  then show ?thesis ..
qed

lemma bind_task_dir_keeps: "op' \<noteq> op \<Longrightarrow> case_of op' (snd (bind_task_dir op line (c, b))) = case_of op' b"
  using bind_task_dir_cases [of op line c b] set_case_keeps [of op' op b] by (auto simp: keeps_def)

lemma belongs_unique: "task_dir_belongs_to_op n op \<Longrightarrow> task_dir_belongs_to_op n op' \<Longrightarrow> op' = op"
  by (auto simp: belongs_splits)

lemma find_task_dir_belongs:
  "find_task_dir op pre cand b = Inr (Some td) \<Longrightarrow> task_dir_belongs_to_op (path_name td) op"
  by (auto simp: find_task_dir_def usable_task_dir_def pick_new_task_dir_def dest!: newest_mem
      split: option.splits pyval.splits if_splits)

lemma begin_case_keeps: "op' \<noteq> op \<Longrightarrow> keeps op' b (begin_case e op prev b)"
  unfolding begin_case_def
  by (intro bindB_keeps set_case_keeps)
     (auto intro!: bindB_keeps set_case_keeps [THEN keeps_world [THEN iffD1]] split: sum.split prod.split bool.split)

lemma read_case_result_keeps: "keeps op' b (read_case_result e td intr b)"
  unfolding read_case_result_def by (intro bindB_keeps supervise_keeps) (auto simp: Let_def split: sum.split)

lemma finish_case_keeps: "op' \<noteq> op \<Longrightarrow> keeps op' b (finish_case op td r rc intr n b)"
  unfolding finish_case_def by (intro bindB_keeps set_case_keeps) auto

lemma no_task_dir_keeps: "op' \<noteq> op \<Longrightarrow> keeps op' b (no_task_dir op msg rc intr b)"
  unfolding no_task_dir_def by (intro bindB_keeps set_case_keeps) auto

lemma keeps_trans: "case_of op b1 = case_of op b \<Longrightarrow> keeps op b1 m \<Longrightarrow> keeps op b m"
  by (simp add: keeps_def)

lemma resume_loop_keeps:
  "agent_local e \<Longrightarrow> \<not> task_dir_belongs_to_op (path_name td) op' \<Longrightarrow> keeps op' b (resume_loop n e td a b)"
proof (induction n arbitrary: a b)
  case (Suc n)
  obtain b1 rc intr where run: "run_agent e (Resume td (Suc (at_count a))) b = (b1, rc, intr)" by (metis surj_pair)
  have k: "case_of op' b1 = case_of op' b"
    using run_agent_keeps [OF Suc.prems(1), of "Resume td (Suc (at_count a))" op' b] Suc.prems(2) run
    by (simp add: launch_for_def)
  show ?case
    unfolding resume_loop.simps run
    by (simp, intro impI keeps_trans [OF k] bindB_keeps supervise_keeps)
       (auto simp: Let_def Suc.IH [OF Suc.prems] split: sum.split)
qed simp

lemma run_one_keeps:
  assumes "agent_local e" and "op' \<noteq> op"
  shows "keeps op' b (run_one e op prev b)"
  unfolding run_one_def
proof (rule bindB_keeps [OF begin_case_keeps [OF assms(2)]])
  fix ctx b1
  obtain b2 rc intr where run: "run_agent e (Claude op) b1 = (b2, rc, intr)" by (metis surj_pair)
  have k: "case_of op' b2 = case_of op' b1"
    using run_agent_keeps [OF assms(1), of "Claude op" op' b1] assms(2) run by (simp add: launch_for_def)
  have rest: "keeps op' b1 (bindB (read_case_result e td intr b2) (\<lambda>r b3.
      bindB (resume_loop (n r) e td (a0 r) b3) (\<lambda>a b4. finish_case op td (at_result a) (at_rc a) (at_interrupted a) (at_count a) b4)))"
    if "find_task_dir op pre PNone b2 = Inr (Some td)" for td pre n a0
  proof -
    have "\<not> task_dir_belongs_to_op (path_name td) op'"
      using find_task_dir_belongs [OF that] belongs_unique assms(2) by blast
    then show ?thesis
      by (intro keeps_trans [OF k] bindB_keeps read_case_result_keeps resume_loop_keeps [OF assms(1)] finish_case_keeps [OF assms(2)])
  qed
  have none: "keeps op' b1 (no_task_dir op m rc intr b2)" "keeps op' b1 (b2, Inl err)" for m and err :: py_error
    using keeps_trans [OF k no_task_dir_keeps [OF assms(2)]] k by (simp_all add: keeps_def)
  show "keeps op' b1 (case ctx of None \<Rightarrow> (b1, Inr 2)
     | Some pre \<Rightarrow> (case run_agent e (Claude op) b1 of (b2, rc, interrupted) \<Rightarrow>
         (case find_task_dir op pre PNone b2 of
            Inl err \<Rightarrow> (b2, Inl err)
          | Inr None \<Rightarrow> no_task_dir op ''no task_dir found'' rc interrupted b2
          | Inr (Some td) \<Rightarrow>
              bindB (read_case_result e td interrupted b2) (\<lambda>r b3.
              bindB (resume_loop (if transient_crash r rc interrupted then be_retries e else 0) e td
                       \<lparr>at_result = r, at_rc = rc, at_interrupted = interrupted, at_count = 0\<rparr> b3) (\<lambda>a b4.
                finish_case op td (at_result a) (at_rc a) (at_interrupted a) (at_count a) b4)))))"
    by (auto simp: run none intro: rest split: option.split sum.split)
qed

lemma run_one_opencode_keeps:
  assumes "agent_local e" and "op' \<noteq> op"
  shows "keeps op' b (run_one_opencode e has op prev b)"
  unfolding run_one_opencode_def
proof (rule bindB_keeps [OF begin_case_keeps [OF assms(2)]])
  fix ctx b1
  obtain bound b2 rc intr where run: "stream_subprocess e (OpenCode op) (bind_task_dir op) (Inr None) b1 = (bound, b2, rc, intr)"
    by (metis surj_pair)
  have k: "case_of op' b2 = case_of op' b1"
    using stream_keeps [OF assms(1), of "OpenCode op" op' "bind_task_dir op" "Inr None" b1] bind_task_dir_keeps [OF assms(2)] assms(2) run
    by (simp add: launch_for_def)
  have tail: "keeps op' b1 (bindB (read_case_result e td intr b2) (\<lambda>r b3. finish_case op td r rc intr 0 b3))" for td
    by (intro keeps_trans [OF k] bindB_keeps read_case_result_keeps finish_case_keeps [OF assms(2)])
  have none: "keeps op' b1 (no_task_dir op m rc intr b2)" "keeps op' b1 (b2, Inl err)" for m and err :: py_error
    using keeps_trans [OF k no_task_dir_keeps [OF assms(2)]] k by (simp_all add: keeps_def)
  have missing: "keeps op' b1 (bindB (set_case op ch b1) (\<lambda>_ b2. (b2, Inr (2 :: int))))" for ch
    by (intro bindB_keeps set_case_keeps assms(2)) simp
  show "keeps op' b1 (case ctx of None \<Rightarrow> (b1, Inr 2)
     | Some pre \<Rightarrow>
         if \<not> has then
           bindB (set_case op (fmap_of_list [(''status'', PStr ''error''), (''finished_at'', PTime (b_now b1)),
                    (''note'', PStr ''opencode driver missing'')]) b1) (\<lambda>_ b2. (b2, Inr 2))
         else (case stream_subprocess e (OpenCode op) (bind_task_dir op) (Inr None) b1 of
             (Inl err, b2, rc, interrupted) \<Rightarrow> (b2, Inl err)
           | (Inr bound, b2, rc, interrupted) \<Rightarrow>
               (case find_task_dir op pre (case bound of None \<Rightarrow> PNone | Some td \<Rightarrow> PStr td) b2 of
                  Inl err \<Rightarrow> (b2, Inl err)
                | Inr None \<Rightarrow> no_task_dir op ''no task_dir from run_loop'' rc interrupted b2
                | Inr (Some td) \<Rightarrow>
                    bindB (read_case_result e td interrupted b2) (\<lambda>r b3.
                      finish_case op td r rc interrupted 0 b3))))"
    by (simp add: run none missing tail split: option.split sum.split)
qed

lemma drive_queue_keeps:
  assumes "agent_local e" and "\<forall>c \<in> set cs. dget c ''op_name'' \<noteq> PStr op'"
  shows "keeps op' b (drive_queue e args prev t cs b)"
  using assms(2)
proof (induction cs arbitrary: prev t b)
  case (Cons c cs)
  have d: "keeps op' b (run_driver e args op prev b)" if "op' \<noteq> op" for op
    using run_one_keeps [OF assms(1) that] run_one_opencode_keeps [OF assms(1) that] by (simp add: run_driver_def)
  show ?case
    using Cons.prems d Cons.IH
    by (auto simp: keeps_pure intro!: bindB_keeps split: pyval.split sum.split)
qed simp

text \<open>
  A batch writes only the cases of its queue: with agents that write no case but their own operator's,
  an operator whose case is not selected (finished, failed without \<open>--retry-errored\<close>, running
  elsewhere or outside \<open>--only\<close>) ends with the case the recovery and the merge gave it.
\<close>

theorem batch_keeps_others:
  assumes "agent_local e" and "load_progress_file (b_progress b) = Inr p0"
    and "recover_stale_running (be_cfg e) (be_alive e) (b_now b) (b_world b) p0 = Inr (p, demoted, harvested)"
    and "fst (merge_cases p resolved ''ref-kernel'') = p1"
    and "\<forall>(op, c) \<in> set (bp_cases p1). dget c ''op_name'' = PStr op" and "distinct (map fst (bp_cases p1))"
    and "map_of (bp_cases p1) op' = Some c'" and "\<not> queued args c'"
  shows "case_of op' (fst (run_batch e args resolved b)) = Some (sanitize_dict c')"
proof -
  let ?b1 = "b\<lparr>b_progress := save_progress_file p1\<rparr>"
  let ?q = "if ba_limit args = 0 then filter_queue args p1 else take (ba_limit args) (filter_queue args p1)"
  have start: "case_of op' ?b1 = Some (sanitize_dict c')" using assms(7) by (simp add: case_of_save)
  have "dget c ''op_name'' \<noteq> PStr op'" if c: "c \<in> set (filter_queue args p1)" for c
  proof
    assume n: "dget c ''op_name'' = PStr op'"
    obtain op where op: "(op, c) \<in> set (bp_cases p1)" "queued args c" using c by (auto simp: filter_queue_def)
    then have "op = op'" using assms(5) n by auto
    then have "c = c'" using op(1) assms(6,7) by (simp add: map_of_is_SomeI)
    then show False using op(2) assms(8) by simp
  qed
  then have "\<forall>c \<in> set ?q. dget c ''op_name'' \<noteq> PStr op'" by (auto dest: in_set_takeD)
  from drive_queue_keeps [OF assms(1) this] have
    k: "keeps op' ?b1 (bindB (drive_queue e args None t ?q ?b1) (\<lambda>t b2. (b2, Inr (code t))))" for t and code :: "totals \<Rightarrow> int"
    by (intro bindB_keeps) auto
  have "keeps op' ?b1 (run_batch e args resolved b)"
    using assms(2-4) k by (cases "ba_limit args = 0") (simp_all add: run_batch_def Let_def)
  then show ?thesis using start by (simp add: keeps_def)
qed

subsection \<open>A batch of two operators\<close>

definition demo_env :: batch_env where
  "demo_env = \<lparr>be_rt = demo_runtime, be_cfg = demo_limits, be_session = [], be_pid = 7, be_alive = (\<lambda>p. p = 7), be_retries = 2,
     be_agent = (\<lambda>_ _. ([], 1, False))\<rparr>"

definition demo_batch :: batch_state where
  "demo_batch = \<lparr>b_progress = save_progress_file \<lparr>bp_mode = None, bp_cases = [(''add'', pending_case (demo_case ''add''))]\<rparr>,
     b_world = \<lparr>tasks = fmempty, session_index = fmempty, listing = []\<rparr>, b_mtime = (\<lambda>_. 0), b_now = 1\<rparr>"

definition demo_args :: batch_args where
  "demo_args = \<lparr>ba_retry_errored = False, ba_only = ''mul'', ba_limit = 0, ba_opencode = False, ba_run_loop = False\<rparr>"

lemma demo_local: "agent_local demo_env"
  by (simp add: agent_local_def demo_env_def)

definition orphan :: dict where
  "orphan = fmap_of_list [(''status'', PStr ''running''), (''runner_pid'', PInt 8)]"

theorem recover_case_spec_witness:
  "\<exists>c'. recover_case demo_limits (\<lambda>p. p = 7) 1 (b_world demo_batch) orphan = Inr (c', Demoted) \<and> dget c' ''status'' = PStr ''error''"
proof -
  have "\<exists>c'. recover_case demo_limits (\<lambda>p. p = 7) 1 (b_world demo_batch) orphan = Inr (c', Demoted)"
    by (simp add: recover_case_def orphan_def dget_def fmlookup_of_list runner_alive_def demote_case_def tag_note_def py_or_def)
  then obtain c' where r: "recover_case demo_limits (\<lambda>p. p = 7) 1 (b_world demo_batch) orphan = Inr (c', Demoted)" by blast
  from recover_case_spec [OF r] r show ?thesis by auto
qed

lemma demo_merged:
  "merge_cases \<lparr>bp_mode = None, bp_cases = [(''add'', c)]\<rparr> [demo_case ''add'', demo_case ''mul''] ''ref-kernel'' =
     (\<lparr>bp_mode = Some ''ref-kernel'', bp_cases = [(''add'', merged_case [(''add'', c)] (demo_case ''add'')),
        (''mul'', pending_case (demo_case ''mul''))]\<rparr>, [])"
  by (simp add: merge_cases_def Let_def demo_case_def merged_case_def)

lemma demo_case_op: "rc_op (demo_case op) = op"
  by (simp add: demo_case_def)

lemma pending_case_fields: "dget (pending_case c) ''op_name'' = PStr (rc_op c)" "dget (pending_case c) ''status'' = PStr ''pending''"
  by (simp_all add: pending_case_def dget_def fmlookup_of_list)

lemma demo_merged_fields:
  "k \<noteq> ''kernel'' \<Longrightarrow> k \<noteq> ''ref'' \<Longrightarrow> dget (merged_case [(''add'', c)] (demo_case ''add'')) k = dget c k"
  by (simp add: merged_case_def demo_case_def)

theorem batch_keeps_others_witness:
  "case_of ''add'' (fst (run_batch demo_env demo_args [demo_case ''add'', demo_case ''mul''] demo_batch))
     = Some (sanitize_dict (merged_case [(''add'', sanitize_dict (pending_case (demo_case ''add'')))] (demo_case ''add'')))"
proof -
  let ?c = "sanitize_dict (pending_case (demo_case ''add''))"
  let ?p = "\<lparr>bp_mode = None, bp_cases = [(''add'', ?c)]\<rparr>"
  have l: "load_progress_file (b_progress demo_batch) = Inr ?p"
    by (simp add: load_progress_file_def demo_batch_def save_progress_file_def)
  have r: "recover_stale_running (be_cfg demo_env) (be_alive demo_env) (b_now demo_batch) (b_world demo_batch) ?p = Inr (?p, 0, 0)"
    by (simp add: recover_stale_running_def recover_case_def pending_case_fields py_eq_PStr_iff)
  have q: "\<not> queued demo_args (merged_case [(''add'', ?c)] (demo_case ''add''))"
    by (simp add: queued_def demo_merged_fields pending_case_fields py_eq_PStr_iff demo_case_op)
       (simp add: only_ops_def demo_args_def strip_def lstrip_def rstrip_def is_space_def Let_def)
  show ?thesis
    by (rule batch_keeps_others [OF demo_local l r arg_cong [OF demo_merged, of fst] _ _ _ q])
       (simp_all add: demo_merged_fields pending_case_fields demo_case_op)
qed

lemma set_case_ok:
  assumes "case_of op b \<noteq> None" and "fmlookup ch ''status'' = Some (PStr s)" and "s \<in> set valid_statuses"
  shows "\<exists>b'. set_case op ch b = (b', Inr ()) \<and> b_world b' = b_world b \<and> b_mtime b' = b_mtime b \<and> b_now b' = b_now b
     \<and> case_field op ''task_dir'' b' = (case fmlookup ch ''task_dir'' of Some v \<Rightarrow> sanitize_floats v | None \<Rightarrow> case_field op ''task_dir'' b)
     \<and> case_of op b' \<noteq> None"
proof -
  obtain p c where p: "b_progress b = Stored p" "map_of (bp_cases p) op = Some c"
    using assms(1) by (auto simp: case_of_def split: progress_file.splits)
  let ?f = "save_progress_file (p\<lparr>bp_cases := put_case op (c ++\<^sub>f ch) (bp_cases p)\<rparr>)"
  have "update_case op ch (b_progress b) = Inr ?f"
    using p assms(2,3) by (auto simp: update_case_def load_progress_file_def py_eq_PStr_iff)
  then have s: "set_case op ch b = (b\<lparr>b_progress := ?f\<rparr>, Inr ())" by (simp add: set_case_def)
  have "case_of op b = Some (sanitize_dict c)" using p by (simp add: case_of_def)
  moreover have "case_of op (b\<lparr>b_progress := ?f\<rparr>) = Some (sanitize_dict (c ++\<^sub>f ch))"
    unfolding case_of_save by (simp add: map_of_put_case)
  ultimately show ?thesis unfolding s
    by (auto simp: case_field_def dget_def fmdom_notI fmdomI split: option.splits)
qed

lemma demo_begin:
  "\<exists>b1. begin_case demo_env ''add'' None demo_batch = (b1, Inr (Some {})) \<and> b_world b1 = b_world demo_batch \<and> case_of ''add'' b1 \<noteq> None"
proof -
  let ?ch = "fmap_of_list [(''status'', PStr ''running''), (''started_at'', PTime (b_now demo_batch)), (''finished_at'', PNone),
      (''task_dir'', PNone), (''final_phase'', PNone), (''rc'', PNone), (''runner_pid'', PInt (be_pid demo_env)), (''note'', PStr [])]"
  have "case_of ''add'' demo_batch \<noteq> None" by (simp add: case_of_def demo_batch_def save_progress_file_def)
  then obtain b1 where b1: "set_case ''add'' ?ch demo_batch = (b1, Inr ())" "b_world b1 = b_world demo_batch" "case_of ''add'' b1 \<noteq> None"
    using set_case_ok [of "''add''" demo_batch ?ch "''running''"] by (auto simp: fmlookup_of_list valid_statuses_def)
  have "clear_active_task (be_rt demo_env) (be_cfg demo_env) t (be_session demo_env) None False w = Inr (w, True)" for t w
    by (simp add: clear_active_task_def read_session_index_def clear_session_index_def demo_env_def)
  moreover have "b1\<lparr>b_world := b_world demo_batch\<rparr> = b1" "listing (b_world demo_batch) = []" using b1(2) by (simp_all add: demo_batch_def)
  ultimately show ?thesis using b1 unfolding begin_case_def by (simp del: fmap_of_list_simps)
qed

lemma no_task_dir_ok:
  assumes "case_of op b \<noteq> None"
  shows "\<exists>b'. no_task_dir op msg rc intr b = (b', Inr (if intr then 130 else 2))"
proof -
  let ?ch = "fmap_of_list [(''status'', PStr ''error''), (''finished_at'', PTime (b_now b)), (''rc'', PInt rc),
        (''note'', PStr (msg @ ''; rc='' @ int_str rc @ (if intr then ''; interrupted'' else [])))]"
  obtain b1 where "set_case op ?ch b = (b1, Inr ())"
    using set_case_ok [OF assms, of ?ch "''error''"] by (auto simp: fmlookup_of_list valid_statuses_def)
  then show ?thesis unfolding no_task_dir_def by (simp del: fmap_of_list_simps)
qed

theorem run_one_settles_witness:
  "\<exists>b'. run_one demo_env ''add'' None demo_batch = (b', Inr 2) \<and> case_field ''add'' ''status'' b' = PStr ''error''"
proof -
  obtain b1 where "begin_case demo_env ''add'' None demo_batch = (b1, Inr (Some {}))" and b1: "b_world b1 = b_world demo_batch"
    "case_of ''add'' b1 \<noteq> None" using demo_begin by blast
  moreover have "run_agent demo_env (Claude ''add'') b1 = (b1, 1, False)"
    by (simp add: run_agent_def stream_subprocess_def demo_env_def)
  moreover have "find_task_dir ''add'' {} PNone b1 = Inr None"
  proof -
    have "usable_task_dir b1 ''add'' v = None" for v
      by (simp add: usable_task_dir_def b1(1) demo_batch_def split: pyval.split)
    moreover have "pick_new_task_dir (b_mtime b1) (listing (b_world b1)) {} ''add'' = None"
      by (simp add: pick_new_task_dir_def b1(1) demo_batch_def)
    moreover obtain v where "recorded_task_dir ''add'' b1 = Inr v"
      using b1(2) by (auto simp: recorded_task_dir_def case_of_def load_progress_file_def split: progress_file.splits)
    ultimately show ?thesis by (simp add: find_task_dir_def)
  qed
  moreover have "\<exists>b'. no_task_dir ''add'' msg 1 False b1 = (b', Inr 2)" for msg
    using no_task_dir_ok [OF b1(2), of msg 1 False] by simp
  ultimately have "\<exists>b'. run_one demo_env ''add'' None demo_batch = (b', Inr 2)" by (simp add: run_one_def)
  then obtain b' where r: "run_one demo_env ''add'' None demo_batch = (b', Inr 2)" by blast
  from run_one_settles [OF r] r show ?thesis by simp
qed

subsection \<open>A finished task with a plan nobody committed\<close>

definition torn_dir :: string where
  "torn_dir = ''/t/add_1_abcdef''"

definition torn_fs :: task_fs where
  "torn_fs = (save_state 0 (fmupd ''phase'' (PStr ''FINISH'') (fresh_state 0)) empty_fs)\<lparr>plan_file := Some ''# Plan v1''\<rparr>"

definition torn_batch :: batch_state where
  "torn_batch = demo_batch\<lparr>b_world := \<lparr>tasks = fmap_of_list [(torn_dir, torn_fs)], session_index = fmempty, listing = [torn_dir]\<rparr>\<rparr>"

definition crashed :: attempt_state where
  "crashed = \<lparr>at_result = \<lparr>cr_phase = ''PLAN'', cr_result = fmempty, cr_done = False, cr_refused = False\<rparr>, at_rc = 1,
     at_interrupted = False, at_count = 0\<rparr>"

lemma torn_state: "load_state torn_fs = Some (fmupd ''last_touched'' (PTime 0) (fmupd ''phase'' (PStr ''FINISH'') (sanitize_dict (fresh_state 0))))"
  by (simp add: torn_fs_def load_state_def save_state_def atomic_write_json_def sanitize_dict_def [symmetric])

lemma torn_version: "header_version (strip (takeWhile (\<lambda>c. c \<noteq> newline) ''# Plan v1'')) = Some 1"
  by code_simp

lemma torn_expected:
  "expected_int (fmupd ''last_touched'' t (fmupd ''phase'' v (sanitize_dict (fresh_state 0)))) k = Inr 0"
  if "k = ''expected_plan_version'' \<or> k = ''expected_history_round''"
  using that by (auto simp: expected_int_def fresh_state_def dget_def fmlookup_of_list py_or_def sanitize_dict_def)

lemma torn_files:
  "read_plan_version_from_disk torn_fs = Some 1" "read_last_history_round torn_fs = Inr None" "read_intent torn_fs = None"
proof -
  have f: "plan_file torn_fs = Some ''# Plan v1''" "history_file torn_fs = None" "intent_file torn_fs = NoFile"
    by (simp_all add: torn_fs_def save_state_def empty_fs_def)
  show "read_plan_version_from_disk torn_fs = Some 1"
    unfolding read_plan_version_from_disk_def f option.case torn_version ..
  show "read_last_history_round torn_fs = Inr None" "read_intent torn_fs = None"
    by (simp_all add: read_last_history_round_def read_intent_def f)
qed

lemma torn_report: "\<exists>report. check_state_consistency torn_fs = Inr report \<and> \<not> consistent report"
  by (simp add: check_state_consistency_def torn_state torn_expected torn_files Let_def)

lemma torn_phase: "batch_phase torn_fs = ''FINISH''"
proof -
  have "phase_of (PStr ''FINISH'') = Some FINISH" by code_simp
  then have "read_phase torn_fs = FINISH" by (simp add: read_phase_def torn_state)
  then show ?thesis by (simp add: batch_phase_def torn_state)
qed

lemma torn_summary: "\<exists>result. read_task_state demo_limits t torn_fs = Inr result"
proof -
  obtain report where r: "check_state_consistency torn_fs = Inr report" using torn_report by blast
  have "owner_of (fmupd ''last_touched'' (PTime 0) (fmupd ''phase'' (PStr ''FINISH'') (sanitize_dict (fresh_state 0)))) = Inr fmempty"
    by (simp add: owner_of_def fresh_state_def dget_def fmlookup_of_list py_or_def)
  then obtain v where "task_summary demo_limits t torn_fs = Inr (Some v)" by (simp add: task_summary_def torn_state r)
  then show ?thesis by (simp add: read_task_state_def Let_def)
qed

lemma torn_supervise: "supervise demo_env torn_dir torn_batch = (torn_batch, Inr False)"
proof -
  have w: "fmlookup (tasks (b_world torn_batch)) torn_dir = Some torn_fs"
    by (simp add: torn_batch_def fmlookup_of_list)
  moreover from w have "put_task torn_dir torn_fs (b_world torn_batch) = b_world torn_batch"
    by (simp add: put_task_def fmap_ext)
  moreover obtain report where "require_state_consistency t False True torn_fs = Inr (torn_fs, report)" "\<not> consistent report" for t
    using torn_report by (auto simp: require_state_consistency_def replay_intent_def torn_files)
  ultimately show ?thesis by (simp add: supervise_def enter_task_def)
qed

theorem resume_swallows_refusal_witness:
  "\<exists>a' r. resume_loop 2 demo_env torn_dir crashed torn_batch = (torn_batch, Inr a') \<and> cr_done (at_result a')
    \<and> read_case_result demo_env torn_dir False torn_batch = (torn_batch, Inr r) \<and> \<not> cr_done r"
proof -
  have fs: "task_at (b_world torn_batch) torn_dir = torn_fs" by (simp add: task_at_def torn_batch_def fmlookup_of_list)
  have run: "run_agent demo_env (Resume torn_dir (Suc (at_count crashed))) torn_batch = (torn_batch, 1, False)"
    by (simp add: run_agent_def stream_subprocess_def demo_env_def)
  obtain result where st: "read_task_state (be_cfg demo_env) (b_now torn_batch) (task_at (b_world torn_batch) torn_dir) = Inr result"
    using torn_summary fs by (auto simp: demo_env_def)
  have "\<exists>a' r. resume_loop (Suc 1) demo_env torn_dir crashed torn_batch = (torn_batch, Inr a') \<and> cr_done (at_result a')
    \<and> read_case_result demo_env torn_dir False torn_batch = (torn_batch, Inr r) \<and> \<not> cr_done r \<and> cr_refused r"
    by (rule resume_swallows_refusal [OF run torn_supervise _ _ _ st]) (simp_all add: crashed_def fs torn_phase)
  then show ?thesis unfolding Suc_1 by blast
qed

end
