(* ===== verification/Cann_Compare.thy ===== *)
theory Cann_Compare
  imports Py_Text "HOL-Library.Word"
begin

text \<open>
  \<open>op/cann_correctness/core.py\<close> (below \<open>src/op_autoresearch\<close>): the gate that decides whether the output of a kernel is
  correct. A tensor is its dtype, its shape and its cells in row-major order; a cell is an integer or the real number
  (or infinity, or NaN) a float denotes. Integers are compared in 64 bits, as the code does. Conversions between dtypes,
  the bit view, the largest number of a dtype and broadcasting are functions of the environment. Texts of messages are left out.
\<close>

subsection \<open>Thresholds\<close>

definition precision_thresholds :: "(string \<times> real) list" where
  "precision_thresholds = [(''float16'', 1 / 2 ^ 10), (''bfloat16'', 1 / 2 ^ 7), (''float32'', 1 / 2 ^ 13), (''float64'', 1 / 2 ^ 13),
     (''hifloat32'', 1 / 2 ^ 11), (''float8_e4m3fn'', 1 / 2 ^ 3), (''float8_e5m2'', 1 / 2 ^ 2), (''int8'', 0), (''int16'', 0), (''int32'', 0),
     (''int64'', 0), (''uint8'', 0), (''uint16'', 0), (''uint32'', 0), (''uint64'', 0)]"

definition small_value_thresholds :: "(string \<times> real) list" where
  "small_value_thresholds = [(''float16'', 1 / 2 ^ 11), (''bfloat16'', 1 / 2 ^ 8), (''float32'', 1 / 2 ^ 14), (''float64'', 1 / 2 ^ 14),
     (''hifloat32'', 1 / 2 ^ 12), (''float8_e4m3fn'', 1 / 2 ^ 4), (''float8_e5m2'', 1 / 2 ^ 3)]"

definition small_value_error_thresholds :: "(string \<times> real) list" where
  "small_value_error_thresholds = [(''float16'', 1 / 2 ^ 16), (''bfloat16'', 1 / 2 ^ 16), (''float32'', 1 / 2 ^ 30), (''float64'', 1 / 2 ^ 30),
     (''hifloat32'', 1 / 2 ^ 28), (''float8_e4m3fn'', 1 / 2 ^ 6), (''float8_e5m2'', 1 / 2 ^ 5)]"

definition cancel_boundary_thresholds :: "(string \<times> real) list" where
  "cancel_boundary_thresholds = [(''float32'', 1 / 2 ^ 8), (''float64'', 1 / 2 ^ 8), (''float16'', 1 / 2 ^ 5), (''bfloat16'', 1 / 2 ^ 3),
     (''hifloat32'', 1 / 2 ^ 8), (''float8_e4m3fn'', 1 / 2 ^ 1), (''float8_e5m2'', 1 / 2 ^ 0)]"

definition cancel_zero_thresholds :: "(string \<times> real) list" where
  "cancel_zero_thresholds = [(''float32'', 1 / 2 ^ 8), (''float64'', 1 / 2 ^ 8), (''float16'', 1 / 2 ^ 5), (''bfloat16'', 1 / 2 ^ 3),
     (''hifloat32'', 1 / 2 ^ 8), (''float8_e4m3fn'', 1 / 2 ^ 1), (''float8_e5m2'', 1 / 2 ^ 0)]"

definition lowered :: "string \<Rightarrow> string" where
  "lowered s = map lower s"

definition table_get :: "(string \<times> real) list \<Rightarrow> string \<Rightarrow> real" where
  "table_get tbl dtype = (case map_of tbl (lowered dtype) of Some t \<Rightarrow> t | None \<Rightarrow> the (map_of tbl ''float32''))"

definition get_threshold :: "string \<Rightarrow> real" where
  "get_threshold = table_get precision_thresholds"

definition get_small_value_threshold :: "string \<Rightarrow> real" where
  "get_small_value_threshold = table_get small_value_thresholds"

definition get_small_value_error :: "string \<Rightarrow> real" where
  "get_small_value_error = table_get small_value_error_thresholds"

definition get_cancel_boundary :: "string \<Rightarrow> real" where
  "get_cancel_boundary = table_get cancel_boundary_thresholds"

definition get_cancel_zero_threshold :: "string \<Rightarrow> real" where
  "get_cancel_zero_threshold = table_get cancel_zero_thresholds"

definition integer_dtypes :: "string list" where
  "integer_dtypes = [''int8'', ''int16'', ''int32'', ''int64'', ''uint8'', ''uint16'', ''uint32'', ''uint64'']"

subsection \<open>Tensors\<close>

datatype cells = Ints "int list" | Floats "pyfloat list"

record tensor =
  tn_dtype :: string
  tn_shape :: "nat list"
  tn_cells :: cells

record tensor_env =
  te_to :: "string \<Rightarrow> cells \<Rightarrow> cells"
  te_long :: "pyfloat \<Rightarrow> int"
  te_bits :: "string \<Rightarrow> tensor \<Rightarrow> int list"
  te_max :: "string \<Rightarrow> real"
  te_broadcast :: "tensor \<Rightarrow> nat list \<Rightarrow> cells option"

definition doubles :: "cells \<Rightarrow> pyfloat list" where
  "doubles c = (case c of Ints xs \<Rightarrow> map (\<lambda>i. Fin (of_int i)) xs | Floats fs \<Rightarrow> fs)"

definition longs :: "tensor_env \<Rightarrow> cells \<Rightarrow> 64 word list" where
  "longs env c = (case c of Ints xs \<Rightarrow> map word_of_int xs | Floats fs \<Rightarrow> map (\<lambda>f. word_of_int (te_long env f)) fs)"

definition is_floating_point :: "tensor \<Rightarrow> bool" where
  "is_floating_point t = (case tn_cells t of Floats _ \<Rightarrow> True | Ints _ \<Rightarrow> False)"

definition numel :: "tensor \<Rightarrow> nat" where
  "numel t = prod_list (tn_shape t)"

definition tally :: "('a \<Rightarrow> bool) \<Rightarrow> 'a list \<Rightarrow> nat" where
  "tally P xs = length (filter P xs)"

subsection \<open>One tensor\<close>

datatype mismatch = ShapeMismatch | BitsDiffer nat | IntegerMismatch nat nat | NanPositions nat | InfSigns | FloatMismatch nat nat nat nat nat

record verdict =
  vd_passed :: bool
  vd_mere :: real
  vd_mare :: real
  vd_error :: "mismatch option"

definition accepted :: "real \<Rightarrow> real \<Rightarrow> verdict" where
  "accepted mere mare = \<lparr>vd_passed = True, vd_mere = mere, vd_mare = mare, vd_error = None\<rparr>"

definition refused :: "mismatch \<Rightarrow> verdict" where
  "refused m = \<lparr>vd_passed = False, vd_mere = 0, vd_mare = 0, vd_error = Some m\<rparr>"

definition bit_view_dtypes :: "string list" where
  "bit_view_dtypes = [''float16'', ''bfloat16'', ''float32'', ''float64'']"

definition compare_bits :: "tensor_env \<Rightarrow> tensor \<Rightarrow> tensor \<Rightarrow> verdict" where
  "compare_bits env out gold =
     (let ps = zip (te_bits env (tn_dtype out) out) (te_bits env (tn_dtype out) gold); n = tally (\<lambda>(a, b). a \<noteq> b) ps
      in if n = 0 then accepted 0 0 else refused (BitsDiffer n))"

text \<open>\<open>torch.abs\<close> of a 64-bit integer: the least one is its own absolute value.\<close>

definition word_abs :: "64 word \<Rightarrow> 64 word" where
  "word_abs w = (if sint w < 0 then - w else w)"

definition exceeds :: "real \<Rightarrow> 64 word \<times> 64 word \<Rightarrow> bool" where
  "exceeds threshold p = (max threshold 0 < of_int (sint (word_abs (fst p - snd p))))"

definition first_index :: "('a \<Rightarrow> bool) \<Rightarrow> 'a list \<Rightarrow> nat" where
  "first_index P xs = length (takeWhile (\<lambda>x. \<not> P x) xs)"

definition compare_ints :: "tensor_env \<Rightarrow> tensor \<Rightarrow> tensor \<Rightarrow> real \<Rightarrow> verdict" where
  "compare_ints env out gold threshold =
     (let ps = zip (longs env (tn_cells out)) (longs env (tn_cells gold)); n = tally (exceeds threshold) ps
      in if n = 0 then accepted 0 0 else refused (IntegerMismatch n (first_index (exceeds threshold) ps)))"

definition isnan :: "pyfloat \<Rightarrow> bool" where
  "isnan f = (f = NaN)"

definition isinf :: "pyfloat \<Rightarrow> bool" where
  "isinf f = (f = PosInf \<or> f = NegInf)"

text \<open>An infinity against what is none counts as the largest finite number of its sign.\<close>

definition saturated :: "real \<Rightarrow> pyfloat \<Rightarrow> pyfloat \<Rightarrow> pyfloat" where
  "saturated m a b = (if isinf a \<and> \<not> isinf b then Fin (if a = PosInf then m else - m) else a)"

definition saturate :: "real \<Rightarrow> pyfloat \<times> pyfloat \<Rightarrow> pyfloat \<times> pyfloat" where
  "saturate m p = (saturated m (fst p) (snd p), saturated m (snd p) (fst p))"

definition relative_error :: "pyfloat \<times> pyfloat \<Rightarrow> pyfloat" where
  "relative_error p = fdiv (fabs (fsub (fst p) (snd p))) (fadd (fabs (snd p)) (Fin (1 / 10 ^ 7)))"

definition valid_pair :: "pyfloat \<times> pyfloat \<Rightarrow> bool" where
  "valid_pair p = (\<not> isnan (relative_error p) \<and> \<not> isinf (relative_error p) \<and> \<not> (isinf (fst p) \<and> isinf (snd p)))"

definition finite_part :: "pyfloat \<Rightarrow> real" where
  "finite_part f = (case f of Fin r \<Rightarrow> r | _ \<Rightarrow> 0)"

text \<open>The relative errors that count.\<close>

definition errors_of :: "(pyfloat \<times> pyfloat) list \<Rightarrow> real list" where
  "errors_of ps = map (\<lambda>p. finite_part (relative_error p)) (filter valid_pair ps)"

definition mean_of :: "real list \<Rightarrow> real" where
  "mean_of xs = sum_list xs / real (length xs)"

definition max_of :: "real list \<Rightarrow> real" where
  "max_of xs = foldr max (tl xs) (hd xs)"

text \<open>The two domains in which a large relative error may be excused.\<close>

definition small_value :: "string \<Rightarrow> pyfloat \<times> pyfloat \<Rightarrow> bool" where
  "small_value dtype p = (valid_pair p \<and> flt (fabs (snd p)) (Fin (get_small_value_threshold dtype)))"

definition cancelled :: "string \<Rightarrow> pyfloat \<times> pyfloat \<Rightarrow> bool" where
  "cancelled dtype p = (flt (fabs (fst p)) (Fin (get_cancel_zero_threshold dtype)) \<and> flt (fabs (snd p)) (Fin (get_cancel_boundary dtype))
     \<and> fle (Fin (get_small_value_threshold dtype)) (fabs (snd p)) \<and> valid_pair p)"

definition misses :: "real \<Rightarrow> pyfloat \<times> pyfloat \<Rightarrow> bool" where
  "misses threshold p = (valid_pair p \<and> flt (Fin (10 * threshold)) (relative_error p))"

definition normal_miss :: "real \<Rightarrow> string \<Rightarrow> pyfloat \<times> pyfloat \<Rightarrow> bool" where
  "normal_miss threshold dtype p = (misses threshold p \<and> \<not> small_value dtype p \<and> \<not> cancelled dtype p)"

definition cpu_diff :: "(pyfloat \<times> pyfloat) \<times> pyfloat \<Rightarrow> pyfloat" where
  "cpu_diff q = fabs (fsub (snd q) (snd (fst q)))"

text \<open>How many outputs of a domain are off, of the kernel and of the reference in the same precision, and of how many.\<close>

record domain_count =
  dc_errors :: nat
  dc_cpu_errors :: nat
  dc_total :: nat

definition small_count :: "string \<Rightarrow> ((pyfloat \<times> pyfloat) \<times> pyfloat) list \<Rightarrow> domain_count" where
  "small_count dtype qs = (let e = Fin (get_small_value_error dtype)
     in \<lparr>dc_errors = tally (\<lambda>q. small_value dtype (fst q) \<and> flt e (fabs (fsub (fst (fst q)) (snd (fst q))))) qs,
         dc_cpu_errors = tally (\<lambda>q. small_value dtype (fst q) \<and> flt e (cpu_diff q)) qs, dc_total = tally (\<lambda>q. small_value dtype (fst q)) qs\<rparr>)"

definition cancel_count :: "real \<Rightarrow> string \<Rightarrow> ((pyfloat \<times> pyfloat) \<times> pyfloat) list \<Rightarrow> domain_count" where
  "cancel_count threshold dtype qs =
     \<lparr>dc_errors = tally (\<lambda>q. cancelled dtype (fst q) \<and> flt (Fin (10 * threshold)) (relative_error (fst q))) qs,
      dc_cpu_errors = tally (\<lambda>q. cancelled dtype (fst q) \<and> flt (Fin (10 * threshold)) (fdiv (cpu_diff q) (fadd (fabs (snd (fst q))) (Fin (1 / 10 ^ 7))))) qs,
      dc_total = tally (\<lambda>q. cancelled dtype (fst q)) qs\<rparr>"

definition excused :: "domain_count \<Rightarrow> bool" where
  "excused c = (if 0 < dc_total c then real (dc_errors c) / real (max (dc_cpu_errors c) 1) \<le> 2 else True)"

definition judge :: "real \<Rightarrow> string \<Rightarrow> ((pyfloat \<times> pyfloat) \<times> pyfloat) list \<Rightarrow> verdict" where
  "judge threshold dtype qs =
     (let ps = map fst qs; es = errors_of ps; s = small_count dtype qs; c = cancel_count threshold dtype qs; n = tally (normal_miss threshold dtype) ps;
          rest = errors_of (filter (\<lambda>p. \<not> small_value dtype p \<and> \<not> cancelled dtype p) ps); ok = (n = 0 \<and> excused s \<and> excused c)
      in \<lparr>vd_passed = ok, vd_mere = (if n = 0 then mean_of es else if rest = [] then 0 else mean_of rest),
          vd_mare = (if n = 0 then max_of es else if rest = [] then 0 else max_of rest),
          vd_error = (if ok then None else Some (FloatMismatch n (dc_errors s) (dc_total s) (dc_errors c) (dc_total c)))\<rparr>)"

text \<open>The reference in the precision of the output stands in where no native output is given.\<close>

definition native_cells :: "tensor_env \<Rightarrow> tensor \<Rightarrow> tensor \<Rightarrow> tensor option \<Rightarrow> pyfloat list res" where
  "native_cells env out gold native = (case native of
      None \<Rightarrow> Inr (doubles (te_to env (tn_dtype out) (tn_cells gold)))
    | Some t \<Rightarrow> (case te_broadcast env t (tn_shape gold) of None \<Rightarrow> Inl (RuntimeError ''shape'') | Some c \<Rightarrow> Inr (doubles c)))"

definition compare_floats :: "tensor_env \<Rightarrow> tensor \<Rightarrow> tensor \<Rightarrow> real \<Rightarrow> string \<Rightarrow> tensor option \<Rightarrow> verdict res" where
  "compare_floats env out gold threshold dtype native =
     (let ps = zip (doubles (tn_cells out)) (doubles (te_to env (tn_dtype out) (tn_cells gold)));
          nan_diff = (\<lambda>p. isnan (fst p) \<noteq> isnan (snd p));
          ss = map (saturate (te_max env (tn_dtype out))) ps;
          signs_differ = (\<lambda>p. isinf (fst p) \<and> isinf (snd p) \<and> fst p \<noteq> snd p);
          es = errors_of ss
      in if list_ex nan_diff ps then Inr (refused (NanPositions (first_index nan_diff ps)))
         else if list_ex signs_differ ps then Inr (refused InfSigns)
         else if es = [] then Inr (accepted 0 0)
         else if mean_of es < threshold \<and> max_of es < 10 * threshold then Inr (accepted (mean_of es) (max_of es))
         else bindR (native_cells env out gold native) (\<lambda>ns. Inr (judge threshold dtype (zip ss ns))))"

definition compare_single_tensor :: "tensor_env \<Rightarrow> tensor \<Rightarrow> tensor \<Rightarrow> real \<Rightarrow> string \<Rightarrow> tensor option \<Rightarrow> verdict res" where
  "compare_single_tensor env out gold threshold dtype native =
     (if tn_shape out \<noteq> tn_shape gold then Inr (refused ShapeMismatch)
      else if threshold = 0 \<and> is_floating_point out \<and> tn_dtype out \<in> set bit_view_dtypes then Inr (compare_bits env out gold)
      else if tn_dtype out \<in> set integer_dtypes then Inr (compare_ints env out gold threshold)
      else compare_floats env out gold threshold dtype native)"

subsection \<open>All outputs\<close>

text \<open>What a model returns.\<close>

datatype out_value = OTensor tensor | OSeq "out_value list" | OOther

definition as_tensor :: "out_value \<Rightarrow> tensor option" where
  "as_tensor v = (case v of OTensor t \<Rightarrow> Some t | _ \<Rightarrow> None)"

definition normalize_outputs :: "out_value \<Rightarrow> tensor option list" where
  "normalize_outputs v = (case v of
      OTensor t \<Rightarrow> [Some t]
    | OSeq xs \<Rightarrow> concat (map (\<lambda>x. case x of OSeq ys \<Rightarrow> map as_tensor ys | _ \<Rightarrow> [as_tensor x]) xs)
    | OOther \<Rightarrow> [])"

datatype remark = Skipped | NonePlaceholder | Mismatched mismatch

record output_result =
  or_index :: nat
  or_passed :: bool
  or_mere :: real
  or_mare :: real
  or_error :: "remark option"
  or_weight :: nat

definition get_output_threshold :: "(string \<times> real) list \<Rightarrow> string \<Rightarrow> real" where
  "get_output_threshold custom dtype = (case map_of custom (lowered dtype) of Some t \<Rightarrow> t | None \<Rightarrow> get_threshold dtype)"

definition passed_over :: "nat \<Rightarrow> remark \<Rightarrow> output_result" where
  "passed_over i r = \<lparr>or_index = i, or_passed = True, or_mere = 0, or_mare = 0, or_error = Some r, or_weight = 0\<rparr>"

definition native_at :: "tensor option list option \<Rightarrow> nat \<Rightarrow> tensor option res" where
  "native_at natives i = (case natives of None \<Rightarrow> Inr None | Some ns \<Rightarrow> if i < length ns then Inr (ns ! i) else Inl LookupError)"

definition compare_one :: "tensor_env \<Rightarrow> (string \<times> real) list \<Rightarrow> nat list \<Rightarrow> tensor option list option \<Rightarrow> nat \<Rightarrow> tensor option \<Rightarrow> tensor option \<Rightarrow> output_result res" where
  "compare_one env custom ignored natives i out gold =
     (if i \<in> set ignored then Inr (passed_over i Skipped)
      else case (out, gold) of
          (Some t, Some g) \<Rightarrow> bindR (native_at natives i) (\<lambda>n.
            bindR (compare_single_tensor env t g (get_output_threshold custom (tn_dtype t)) (tn_dtype t) n) (\<lambda>v.
              Inr \<lparr>or_index = i, or_passed = vd_passed v, or_mere = vd_mere v, or_mare = vd_mare v,
                or_error = map_option Mismatched (vd_error v), or_weight = numel t\<rparr>))
        | _ \<Rightarrow> Inr (passed_over i NonePlaceholder))"

fun compare_each :: "tensor_env \<Rightarrow> (string \<times> real) list \<Rightarrow> nat list \<Rightarrow> tensor option list option \<Rightarrow> nat \<Rightarrow> tensor option list \<Rightarrow> tensor option list \<Rightarrow> output_result list res" where
  "compare_each env custom ignored natives i (out # outs) (gold # golds) =
     bindR (compare_one env custom ignored natives i out gold) (\<lambda>r.
     bindR (compare_each env custom ignored natives (Suc i) outs golds) (\<lambda>rs. Inr (r # rs)))"
| "compare_each env custom ignored natives i _ _ = Inr []"

datatype report_error = CountMismatch nat nat | FirstFailure "remark option" | Raised py_error

record report =
  rp_passed :: bool
  rp_mere :: real
  rp_mare :: real
  rp_error :: "report_error option"
  rp_results :: "output_result list"

definition failed_report :: "report_error \<Rightarrow> report" where
  "failed_report e = \<lparr>rp_passed = False, rp_mere = 0, rp_mare = 0, rp_error = Some e, rp_results = []\<rparr>"

definition summarise :: "output_result list \<Rightarrow> report" where
  "summarise rs = (let total = sum_list (map or_weight rs); bad = filter (\<lambda>r. \<not> or_passed r) rs
     in \<lparr>rp_passed = list_all or_passed rs,
         rp_mere = (if 0 < total then sum_list (map (\<lambda>r. or_mere r * real (or_weight r)) rs) / real total else 0),
         rp_mare = foldl (\<lambda>m r. max m (or_mare r)) 0 rs,
         rp_error = (case bad of [] \<Rightarrow> None | r # _ \<Rightarrow> Some (FirstFailure (or_error r))), rp_results = rs\<rparr>)"

definition compare_tensors :: "tensor_env \<Rightarrow> (string \<times> real) list \<Rightarrow> nat list \<Rightarrow> out_value \<Rightarrow> out_value \<Rightarrow> out_value option \<Rightarrow> report" where
  "compare_tensors env custom ignored out gold native =
     (let outs = normalize_outputs out; golds = normalize_outputs gold
      in if length outs \<noteq> length golds then failed_report (CountMismatch (length outs) (length golds))
         else case compare_each env custom ignored (map_option normalize_outputs native) 0 outs golds of
             Inl e \<Rightarrow> failed_report (Raised e) | Inr rs \<Rightarrow> summarise rs)"

subsection \<open>Index outputs\<close>

text \<open>The position of a coordinate in row-major order, and back.\<close>

fun offset_of :: "nat list \<Rightarrow> nat list \<Rightarrow> nat" where
  "offset_of (d # ds) (c # cs) = c * prod_list ds + offset_of ds cs"
| "offset_of _ _ = 0"

fun coords_of :: "nat list \<Rightarrow> nat \<Rightarrow> nat list" where
  "coords_of [] k = []"
| "coords_of (d # ds) k = k div prod_list ds # coords_of ds (k mod prod_list ds)"

text \<open>\<open>x.gather(dim, idx)\<close>: where each cell comes from.\<close>

definition gather_source :: "nat list \<Rightarrow> nat \<Rightarrow> nat list \<Rightarrow> nat \<Rightarrow> int \<Rightarrow> nat" where
  "gather_source x_shape ax idx_shape k j = offset_of x_shape ((coords_of idx_shape k)[ax := nat j])"

definition take_cells :: "cells \<Rightarrow> nat list \<Rightarrow> cells" where
  "take_cells c is = (case c of Ints xs \<Rightarrow> Ints (map (\<lambda>i. xs ! i) is) | Floats fs \<Rightarrow> Floats (map (\<lambda>i. fs ! i) is))"

definition gather_cells :: "tensor_env \<Rightarrow> tensor \<Rightarrow> nat \<Rightarrow> nat list \<Rightarrow> int list \<Rightarrow> string \<Rightarrow> cells" where
  "gather_cells env x ax idx_shape idx dtype =
     te_to env dtype (take_cells (tn_cells x) (map (\<lambda>(k, j). gather_source (tn_shape x) ax idx_shape k j) (zip [0..<length idx] idx)))"

definition same_cell :: "pyfloat \<Rightarrow> pyfloat \<Rightarrow> bool" where
  "same_cell a b = (feq a b \<or> isnan a \<and> isnan b)"

definition indices_of :: "tensor_env \<Rightarrow> tensor \<Rightarrow> int list" where
  "indices_of env t = map sint (longs env (tn_cells t))"

definition validate_index_output :: "tensor_env \<Rightarrow> out_value \<Rightarrow> int \<Rightarrow> out_value \<Rightarrow> out_value \<Rightarrow> bool" where
  "validate_index_output env x ax idx vals = (case (x, idx, vals) of
      (OTensor x, OTensor idx, OTensor vals) \<Rightarrow>
        (let n = length (tn_shape x); dim_n = (if 0 \<le> ax then ax else int n + ax); d = nat dim_n; js = indices_of env idx
         in length (tn_shape idx) = n \<and> 0 \<le> dim_n \<and> dim_n < int n \<and> tn_shape idx = tn_shape vals
            \<and> list_all (\<lambda>e. e = d \<or> tn_shape idx ! e \<le> tn_shape x ! e) [0..<n]
            \<and> list_all (\<lambda>j. 0 \<le> j \<and> j < int (tn_shape x ! d)) js
            \<and> list_all (\<lambda>(a, b). same_cell a b) (zip (doubles (gather_cells env x d (tn_shape idx) js (tn_dtype vals))) (doubles (tn_cells vals))))
    | _ \<Rightarrow> False)"

subsection \<open>The gate of one output\<close>

record gather_spec =
  gs_input :: nat
  gs_dim_arg :: nat
  gs_value_output :: nat

definition index_gather_registry :: "(string \<times> (nat \<times> gather_spec) list) list" where
  "index_gather_registry = [(''top_k'', [(1, \<lparr>gs_input = 0, gs_dim_arg = 2, gs_value_output = 0\<rparr>)]),
     (''TopK'', [(1, \<lparr>gs_input = 0, gs_dim_arg = 2, gs_value_output = 0\<rparr>)])]"

definition index_gather_spec :: "string option \<Rightarrow> nat \<Rightarrow> gather_spec option" where
  "index_gather_spec op_name i = (case op_name of
      Some (c # cs) \<Rightarrow> Option.bind (map_of index_gather_registry (c # cs)) (\<lambda>m. map_of m i) | _ \<Rightarrow> None)"

definition op_key :: "string \<Rightarrow> string" where
  "op_key name = filter (\<lambda>c. c \<noteq> CHR ''_'') (lowered name)"

definition ignore_output_registry :: "(string \<times> nat list) list" where
  "ignore_output_registry = [(''moegatingtopksoftmax'', [1, 2])]"

definition is_ignored_output :: "string option \<Rightarrow> nat \<Rightarrow> bool" where
  "is_ignored_output op_name i = (case op_name of
      Some (c # cs) \<Rightarrow> (case map_of ignore_output_registry (op_key (c # cs)) of Some xs \<Rightarrow> i \<in> set xs | None \<Rightarrow> False) | _ \<Rightarrow> False)"

definition precision_threshold_registry :: "(string \<times> (string \<times> real) list) list" where
  "precision_threshold_registry = [
     (''foreachaddcdivscalar'', [(''float32'', 5 / 1000), (''float16'', 1 / 100), (''bfloat16'', 1 / 100)]),
     (''applyadamw'', [(''float32'', 5 / 1000), (''float16'', 1 / 100), (''bfloat16'', 1 / 100)]),
     (''applyrotaryposemb'', [(''float32'', 5 / 1000), (''float16'', 1 / 100), (''bfloat16'', 1 / 100)]),
     (''dynamicquant'', [(''int8'', 1)]),
     (''groupnorm'', [(''float16'', 5 / 1000), (''float32'', 5 / 1000), (''bfloat16'', 1 / 100)]),
     (''unsortedsegmentsum'', [(''float32'', 1 / 1000)]),
     (''addrmsnormdynamicquant'', [(''int8'', 1)]),
     (''dequantswigluquant'', [(''int8'', 1)]),
     (''roialign'', [(''float16'', 1 / 10), (''float32'', 1 / 100)]),
     (''unique'', [(''bfloat16'', 0), (''float16'', 0), (''float32'', 0), (''int8'', 0)]),
     (''groupedmatmulswigluquant'', [(''int8'', 1), (''float32'', 1 / 1000)]),
     (''gru'', [(''float32'', 5 / 100), (''float16'', 5 / 100), (''bfloat16'', 5 / 100)]),
     (''lstm'', [(''float32'', 5 / 100), (''float16'', 5 / 100), (''bfloat16'', 5 / 100)])]"

definition precision_threshold_spec :: "string option \<Rightarrow> (string \<times> real) list" where
  "precision_threshold_spec op_name = (case op_name of
      Some (c # cs) \<Rightarrow> (case map_of precision_threshold_registry (op_key (c # cs)) of Some t \<Rightarrow> t | None \<Rightarrow> []) | _ \<Rightarrow> [])"

text \<open>An argument of the operator, as the gate reads it.\<close>

datatype op_arg = ATensor tensor | ANumber int | AOther

definition arg_value :: "op_arg \<Rightarrow> out_value" where
  "arg_value a = (case a of ATensor t \<Rightarrow> OTensor t | _ \<Rightarrow> OOther)"

definition arg_int :: "op_arg \<Rightarrow> int res" where
  "arg_int a = (case a of ANumber i \<Rightarrow> Inr i | _ \<Rightarrow> Inl TypeError)"

definition item :: "'a list \<Rightarrow> nat \<Rightarrow> 'a res" where
  "item xs i = (if i < length xs then Inr (xs ! i) else Inl LookupError)"

definition outputs_of :: "out_value \<Rightarrow> out_value list" where
  "outputs_of v = (case v of OSeq xs \<Rightarrow> xs | _ \<Rightarrow> [v])"

datatype gate = Pass | Skip | AssertionError

definition assert_outputs :: "tensor_env \<Rightarrow> out_value \<Rightarrow> out_value \<Rightarrow> nat \<Rightarrow> out_value option \<Rightarrow> string option \<Rightarrow> op_arg list option \<Rightarrow> out_value option \<Rightarrow> gate res" where
  "assert_outputs env impl gold i native op_name inputs all_outputs =
     (if is_ignored_output op_name i then Inr Skip
      else case (index_gather_spec op_name i, inputs, all_outputs) of
          (Some spec, Some ins, Some outs) \<Rightarrow>
            bindR (item ins (gs_input spec)) (\<lambda>x. bindR (item ins (gs_dim_arg spec)) (\<lambda>a. bindR (arg_int a) (\<lambda>ax.
            bindR (item (outputs_of outs) (gs_value_output spec)) (\<lambda>vals.
              Inr (if validate_index_output env (arg_value x) ax impl vals then Pass else AssertionError)))))
        | _ \<Rightarrow> Inr (if rp_passed (compare_tensors env (precision_threshold_spec op_name) [] impl gold native) then Pass else AssertionError))"

end
