(* ===== verification/Cann_Facts.thy ===== *)
theory Cann_Facts
  imports Cann_Compare
begin

text \<open>
  What the gate of \<open>Cann_Compare\<close> accepts: integers within the tolerance as long as the difference fits 64 bits, floats that
  are close to the golden value or in a domain where the reference is off as well, indices that point at the values beside them.
\<close>

subsection \<open>Integers\<close>

lemma tally_zero: "tally P xs = 0 \<longleftrightarrow> (\<forall>x\<in>set xs. \<not> P x)"
  by (auto simp: tally_def filter_empty_conv)

lemma sint_word_of_int: "- (2 ^ 63) \<le> i \<Longrightarrow> i < 2 ^ 63 \<Longrightarrow> sint (word_of_int i :: 64 word) = i"
  by (simp add: sint_sbintrunc' signed_take_bit_int_eq_self)

lemma exceeds_exact:
  assumes "\<bar>a\<bar> < 2 ^ 62" and "\<bar>b\<bar> < 2 ^ 62"
  shows "exceeds t (word_of_int a, word_of_int b) \<longleftrightarrow> max t 0 < of_int \<bar>a - b\<bar>"
proof -
  have d: "sint (word_of_int a - word_of_int b :: 64 word) = a - b" and m: "sint (- (word_of_int a - word_of_int b) :: 64 word) = - (a - b)"
    unfolding wi_hom_sub wi_hom_neg by (rule sint_word_of_int; use assms in simp)+
  have "sint (word_abs (word_of_int a - word_of_int b)) = \<bar>a - b\<bar>"
    unfolding word_abs_def d if_distrib [of sint] m by simp
  then show ?thesis unfolding exceeds_def fst_conv snd_conv by (simp only:)
qed

text \<open>
  C15. Integer outputs are compared exactly: for cells below two to the power of 62 the gate accepts a tensor of an
  integer dtype if and only if no cell is further from the golden one than the tolerance.
\<close>

theorem int_gate_exact:
  assumes "tn_dtype out \<in> set integer_dtypes" and "tn_cells out = Ints xs" and "tn_cells gold = Ints ys" and "tn_shape out = tn_shape gold"
    and "length xs = length ys" and "\<forall>x\<in>set xs \<union> set ys. \<bar>x\<bar> < 2 ^ 62"
  shows "\<exists>v. compare_single_tensor env out gold threshold dtype native = Inr v
    \<and> (vd_passed v \<longleftrightarrow> list_all2 (\<lambda>x y. of_int \<bar>x - y\<bar> \<le> max threshold 0) xs ys)"
proof -
  have z: "zip (longs env (Ints xs)) (longs env (Ints ys)) = map (\<lambda>q. (word_of_int (fst q), word_of_int (snd q))) (zip xs ys)"
    by (simp add: longs_def zip_map_map case_prod_beta)
  have e: "\<not> exceeds threshold (word_of_int (fst q), word_of_int (snd q)) \<longleftrightarrow> of_int \<bar>fst q - snd q\<bar> \<le> max threshold 0"
    if "q \<in> set (zip xs ys)" for q
  proof -
    have "fst q \<in> set xs" "snd q \<in> set ys" using that set_zip_leftD [of "fst q" "snd q"] set_zip_rightD [of "fst q" "snd q"] by simp_all
    then have "\<bar>fst q\<bar> < 2 ^ 62" "\<bar>snd q\<bar> < 2 ^ 62" using assms(6) by blast+
    from exceeds_exact [OF this] show ?thesis by (simp only: not_less)
  qed
  have "tally (exceeds threshold) (zip (longs env (Ints xs)) (longs env (Ints ys))) = 0
      \<longleftrightarrow> (\<forall>q\<in>set (zip xs ys). \<not> exceeds threshold (word_of_int (fst q), word_of_int (snd q)))"
    unfolding tally_zero z set_map by blast
  also have "\<dots> \<longleftrightarrow> list_all2 (\<lambda>x y. of_int \<bar>x - y\<bar> \<le> max threshold 0) xs ys"
    unfolding list_all2_iff using assms(5) ball_cong [OF refl e] by (simp add: case_prod_beta)
  finally have n: "tally (exceeds threshold) (zip (longs env (tn_cells out)) (longs env (tn_cells gold))) = 0
      \<longleftrightarrow> list_all2 (\<lambda>x y. of_int \<bar>x - y\<bar> \<le> max threshold 0) xs ys" unfolding assms(2,3) .
  moreover have "compare_single_tensor env out gold threshold dtype native = Inr (compare_ints env out gold threshold)"
    using assms(1-4) by (simp add: compare_single_tensor_def is_floating_point_def)
  moreover have "vd_passed (compare_ints env out gold threshold) \<longleftrightarrow> list_all2 (\<lambda>x y. of_int \<bar>x - y\<bar> \<le> max threshold 0) xs ys"
    unfolding n [symmetric] by (simp add: compare_ints_def accepted_def refused_def Let_def)
  ultimately show ?thesis by blast
qed

text \<open>
  At the ends of the 64 bits the difference wraps around: the greatest integer against minus one is off by two to
  the power of 63, whose absolute value is negative, and the gate accepts it with a tolerance of zero.
\<close>

theorem int_gate_wraps:
  "compare_single_tensor env \<lparr>tn_dtype = ''int64'', tn_shape = [1], tn_cells = Ints [2 ^ 63 - 1]\<rparr>
     \<lparr>tn_dtype = ''int64'', tn_shape = [1], tn_cells = Ints [- 1]\<rparr> (get_threshold ''int64'') ''int64'' native = Inr (accepted 0 0)"
proof -
  have "\<not> exceeds t (word_of_int (2 ^ 63 - 1), word_of_int (- 1))" if "t = 0" for t
    unfolding exceeds_def word_abs_def that by simp
  moreover have "get_threshold ''int64'' = 0" by (simp add: get_threshold_def table_get_def precision_thresholds_def lowered_def lower_def)
  ultimately show ?thesis
    by (simp add: compare_single_tensor_def is_floating_point_def integer_dtypes_def compare_ints_def longs_def tally_def accepted_def)
qed

subsection \<open>Floats\<close>

lemma max_of_ge: "x \<in> set xs \<Longrightarrow> x \<le> max_of xs"
proof (cases xs)
  case (Cons y ys)
  have "x \<in> insert y (set ys) \<Longrightarrow> x \<le> foldr max ys y" by (induction ys) auto
  then show "x \<in> set xs \<Longrightarrow> x \<le> max_of xs" using Cons by (simp add: max_of_def)
qed simp

text \<open>What a pair is after saturation, when NaNs agree and infinities have the same sign.\<close>

lemma saturated_cases:
  assumes "isnan a = isnan g" and "\<not> (isinf a \<and> isinf g \<and> a \<noteq> g)"
  obtains (nan) "isnan a" "isnan g" | (inf) "isinf a" "a = g" | (fin) r s where "saturate m (a, g) = (Fin r, Fin s)"
  using assms by (cases a; cases g) (auto simp: isnan_def isinf_def saturate_def saturated_def)

lemma relative_error_Fin: "relative_error (Fin r, Fin s) = Fin (\<bar>r - s\<bar> / (\<bar>s\<bar> + 1 / 10 ^ 7))"
  by (simp add: relative_error_def fsub_def)

lemma finite_pair_valid: "valid_pair (Fin r, Fin s)"
  by (simp add: valid_pair_def relative_error_Fin isnan_def isinf_def)

lemma bounded_pair:
  fixes r s t :: real
  shows "\<bar>r - s\<bar> / (\<bar>s\<bar> + 1 / 10 ^ 7) \<le> t \<Longrightarrow> \<bar>r - s\<bar> \<le> t * (\<bar>s\<bar> + 1 / 10 ^ 7)"
proof -
  have "0 < \<bar>s\<bar> + 1 / (10 ^ 7 :: real)" by (rule add_nonneg_pos) simp_all
  then show "\<bar>r - s\<bar> / (\<bar>s\<bar> + 1 / 10 ^ 7) \<le> t \<Longrightarrow> ?thesis" by (simp only: pos_divide_le_eq)
qed

text \<open>A pair of an output and the golden value that the gate may let through.\<close>

definition close_pair :: "real \<Rightarrow> string \<Rightarrow> pyfloat \<times> pyfloat \<Rightarrow> bool" where
  "close_pair threshold dtype p \<longleftrightarrow> (\<exists>r s. p = (Fin r, Fin s)
     \<and> (\<bar>r - s\<bar> \<le> 10 * threshold * (\<bar>s\<bar> + 1 / 10 ^ 7) \<or> small_value dtype p \<or> cancelled dtype p))"

lemma passed_pairs_close:
  assumes "errors_of ss = [] \<or> max_of (errors_of ss) < 10 * threshold \<or> tally (normal_miss threshold dtype) ss = 0"
    and "(Fin r, Fin s) \<in> set ss"
  shows "close_pair threshold dtype (Fin r, Fin s)"
proof -
  let ?e = "\<bar>r - s\<bar> / (\<bar>s\<bar> + 1 / 10 ^ 7)"
  have "finite_part (relative_error (Fin r, Fin s)) \<in> set (errors_of ss)"
    unfolding errors_of_def set_map set_filter using assms(2) finite_pair_valid by blast
  then have e: "?e \<in> set (errors_of ss)" by (simp only: relative_error_Fin finite_part_def pyfloat.case)
  have "?e \<le> 10 * threshold \<or> small_value dtype (Fin r, Fin s) \<or> cancelled dtype (Fin r, Fin s)"
  proof (cases "tally (normal_miss threshold dtype) ss = 0")
    case True
    then have "\<not> normal_miss threshold dtype (Fin r, Fin s)" using assms(2) unfolding tally_zero by blast
    then show ?thesis by (auto simp: normal_miss_def misses_def finite_pair_valid relative_error_Fin)
  next
    case False
    then have "max_of (errors_of ss) < 10 * threshold" using assms(1) e by auto
    then show ?thesis using max_of_ge [OF e] by linarith
  qed
  then show ?thesis unfolding close_pair_def using bounded_pair by blast
qed

text \<open>In a domain at most twice as many outputs are off as of the reference in the same precision, or two.\<close>

definition within_reference :: "domain_count \<Rightarrow> bool" where
  "within_reference c \<longleftrightarrow> dc_total c = 0 \<or> dc_errors c \<le> 2 * max (dc_cpu_errors c) 1"

lemma ratio_two:
  assumes "real m / real (max k 1) \<le> 2"
  shows "m \<le> 2 * max k (1::nat)"
proof -
  have "0 < real (max k 1)" by simp
  from assms [unfolded pos_divide_le_eq [OF this]] have "real m \<le> real (2 * max k 1)" unfolding of_nat_mult of_nat_numeral .
  then show ?thesis by (rule of_nat_le_iff [THEN iffD1])
qed

lemma excused_within: "excused c \<Longrightarrow> within_reference c"
  unfolding excused_def within_reference_def using ratio_two [of "dc_errors c" "dc_cpu_errors c"] by (cases "dc_total c = 0") (simp_all only: if_True if_False neq0_conv simp_thms)


definition gate_pairs :: "tensor_env \<Rightarrow> tensor \<Rightarrow> tensor \<Rightarrow> (pyfloat \<times> pyfloat) list" where
  "gate_pairs env out gold = zip (doubles (tn_cells out)) (doubles (te_to env (tn_dtype out) (tn_cells gold)))"

definition saturated_pairs :: "tensor_env \<Rightarrow> tensor \<Rightarrow> tensor \<Rightarrow> (pyfloat \<times> pyfloat) list" where
  "saturated_pairs env out gold = map (saturate (te_max env (tn_dtype out))) (gate_pairs env out gold)"

lemma compare_floats_passed:
  assumes "compare_floats env out gold threshold dtype native = Inr v" and "vd_passed v"
  shows "\<forall>p\<in>set (gate_pairs env out gold). isnan (fst p) = isnan (snd p) \<and> \<not> (isinf (fst p) \<and> isinf (snd p) \<and> fst p \<noteq> snd p)"
    and "errors_of (saturated_pairs env out gold) = [] \<or> max_of (errors_of (saturated_pairs env out gold)) < 10 * threshold
      \<or> (\<exists>ns. native_cells env out gold native = Inr ns \<and> vd_passed (judge threshold dtype (zip (saturated_pairs env out gold) ns)))"
  using assms
  by (auto simp: compare_floats_def gate_pairs_def saturated_pairs_def Let_def list_ex_iff refused_def split: if_splits)

lemma judge_passed:
  assumes "vd_passed (judge threshold dtype qs)"
  shows "tally (normal_miss threshold dtype) (map fst qs) = 0" "within_reference (small_count dtype qs)" "within_reference (cancel_count threshold dtype qs)"
  using assms by (simp_all add: judge_def Let_def excused_within)


subsection \<open>All outputs\<close>

lemma compare_each_at:
  "compare_each env custom ignored natives k outs golds = Inr rs \<Longrightarrow> length outs = length golds \<Longrightarrow>
     length rs = length outs \<and> (\<forall>i<length outs. compare_one env custom ignored natives (k + i) (outs ! i) (golds ! i) = Inr (rs ! i))"
proof (induction env custom ignored natives k outs golds arbitrary: rs rule: compare_each.induct)
  case (1 env custom ignored natives k out outs gold golds)
  then obtain r rs' where r: "compare_one env custom ignored natives k out gold = Inr r"
    "compare_each env custom ignored natives (Suc k) outs golds = Inr rs'" "rs = r # rs'" by auto
  with 1 show ?case by (auto simp: nth_Cons split: nat.split)
qed simp_all

text \<open>
  A pass covers every output: as many outputs as golden ones, and each that is not ignored and is a tensor beside a
  golden tensor has passed on its own, with the threshold of its dtype.
\<close>

theorem gate_covers_outputs:
  assumes "rp_passed (compare_tensors env custom ignored out gold native)"
  shows "length (normalize_outputs out) = length (normalize_outputs gold)
    \<and> (\<forall>i t g. i < length (normalize_outputs out) \<and> i \<notin> set ignored \<and> normalize_outputs out ! i = Some t \<and> normalize_outputs gold ! i = Some g
        \<longrightarrow> (\<exists>n v. compare_single_tensor env t g (get_output_threshold custom (tn_dtype t)) (tn_dtype t) n = Inr v \<and> vd_passed v))"
proof -
  let ?o = "normalize_outputs out" and ?g = "normalize_outputs gold"
  have l: "length ?o = length ?g" using assms by (auto simp: compare_tensors_def failed_report_def Let_def split: if_splits)
  obtain rs where rs: "compare_each env custom ignored (map_option normalize_outputs native) 0 ?o ?g = Inr rs" "list_all or_passed rs"
    using assms l by (auto simp: compare_tensors_def failed_report_def summarise_def Let_def split: if_splits sum.splits)
  note at = compare_each_at [OF rs(1) l]
  have "\<exists>n v. compare_single_tensor env t g (get_output_threshold custom (tn_dtype t)) (tn_dtype t) n = Inr v \<and> vd_passed v"
    if i: "i < length ?o" "i \<notin> set ignored" "?o ! i = Some t" "?g ! i = Some g" for i t g
  proof -
    have "compare_one env custom ignored (map_option normalize_outputs native) i (Some t) (Some g) = Inr (rs ! i)" using at i by auto
    then obtain n v where c: "compare_single_tensor env t g (get_output_threshold custom (tn_dtype t)) (tn_dtype t) n = Inr v"
      and r: "or_passed (rs ! i) = vd_passed v" using i(2) by (auto simp: compare_one_def dest!: arg_cong [where f = or_passed])
    have "or_passed (rs ! i)" using rs(2) at i(1) by (simp add: list_all_length)
    then show ?thesis using c r by blast
  qed
  then show ?thesis using l by blast
qed

text \<open>
  An output that is no tensor passes unseen: where the kernel returns \<open>None\<close>, or a bare number, for an output, the
  pair counts as a placeholder, and a kernel that returns nothing else is accepted against any golden tensor.
\<close>

theorem none_output_accepted:
  "rp_passed (compare_tensors env custom [] (OSeq [OOther]) (OSeq [OTensor golden]) native)"
  by (simp add: compare_tensors_def normalize_outputs_def as_tensor_def compare_one_def passed_over_def summarise_def Let_def)

subsection \<open>Indices\<close>

lemma offset_lt: "list_all2 (<) cs ds \<Longrightarrow> offset_of ds cs < prod_list ds"
proof (induction cs ds rule: list_all2_induct)
  case (Cons c cs d ds)
  have "c * prod_list ds + offset_of ds cs < c * prod_list ds + prod_list ds" using Cons.IH by simp
  also have "\<dots> = Suc c * prod_list ds" by simp
  also have "\<dots> \<le> d * prod_list ds" using Cons.hyps(1) by (intro mult_le_mono1) simp
  finally show ?case by simp
qed simp

lemma coords_lt: "k < prod_list ds \<Longrightarrow> list_all2 (<) (coords_of ds k) ds"
proof (induction ds arbitrary: k)
  case (Cons d ds)
  have "0 < prod_list ds" using Cons.prems by (cases "prod_list ds") simp_all
  then have "k mod prod_list ds < prod_list ds" by simp
  moreover have "k div prod_list ds < d" using Cons.prems by (simp add: less_mult_imp_div_less)
  ultimately show ?case using Cons.IH by simp
qed simp

text \<open>Gathering stays inside the tensor it reads.\<close>

lemma gather_source_lt:
  assumes "k < prod_list idx_shape" and "length idx_shape = length x_shape" and "\<forall>e<length x_shape. e = d \<or> idx_shape ! e \<le> x_shape ! e"
    and "d < length x_shape" and "0 \<le> j" and "j < int (x_shape ! d)"
  shows "gather_source x_shape d idx_shape k j < prod_list x_shape"
proof -
  have c: "list_all2 (<) (coords_of idx_shape k) idx_shape" by (rule coords_lt [OF assms(1)])
  have l: "length (coords_of idx_shape k) = length x_shape" using list_all2_lengthD [OF c] assms(2) by simp
  have "list_all2 (<) ((coords_of idx_shape k)[d := nat j]) x_shape"
    unfolding list_all2_conv_all_nth
  proof (intro conjI allI impI)
    fix e assume e: "e < length ((coords_of idx_shape k)[d := nat j])"
    show "(coords_of idx_shape k)[d := nat j] ! e < x_shape ! e"
    proof (cases "e = d")
      case True
      then show ?thesis using assms(4-6) l by (simp add: nat_less_iff)
    next
      case False
      have "coords_of idx_shape k ! e < idx_shape ! e" using list_all2_nthD [OF c] e by simp
      then show ?thesis using False assms(3) e l by fastforce
    qed
  qed (simp add: l)
  then show ?thesis unfolding gather_source_def by (rule offset_lt)
qed

lemma doubles_take: "\<forall>i\<in>set js. i < length (doubles c) \<Longrightarrow> doubles (take_cells c js) = map (\<lambda>i. doubles c ! i) js"
  by (cases c) (auto simp: take_cells_def doubles_def)

text \<open>
  An index output that passes points at the values beside it: every index is inside the dimension, the cell it
  selects is inside the input, and that cell, in the dtype of the values, equals the value in the same place,
  or both are NaN. Which of several equal cells an index selects does not matter.
\<close>

theorem index_gate_sound:
  assumes "validate_index_output env (OTensor x) ax (OTensor idx) (OTensor vals)"
    and "length (indices_of env idx) = numel idx" and "length (doubles (tn_cells vals)) = numel vals"
    and "length (doubles (te_to env (tn_dtype vals) (tn_cells x))) = numel x"
    and "\<forall>js. (\<forall>i\<in>set js. i < numel x) \<longrightarrow> te_to env (tn_dtype vals) (take_cells (tn_cells x) js) = take_cells (te_to env (tn_dtype vals) (tn_cells x)) js"
  shows "\<exists>d<length (tn_shape x). int d = (if 0 \<le> ax then ax else int (length (tn_shape x)) + ax)
    \<and> (\<forall>k<numel idx. let j = indices_of env idx ! k; src = gather_source (tn_shape x) d (tn_shape idx) k j
         in 0 \<le> j \<and> j < int (tn_shape x ! d) \<and> src < numel x
            \<and> same_cell (doubles (te_to env (tn_dtype vals) (tn_cells x)) ! src) (doubles (tn_cells vals) ! k))"
proof -
  let ?n = "length (tn_shape x)" and ?js = "indices_of env idx" and ?to = "te_to env (tn_dtype vals)"
  define dn where "dn = (if 0 \<le> ax then ax else int ?n + ax)"
  define d where "d = nat dn"
  have v: "length (tn_shape idx) = ?n" "0 \<le> dn" "dn < int ?n" "tn_shape idx = tn_shape vals"
    "list_all (\<lambda>e. e = d \<or> tn_shape idx ! e \<le> tn_shape x ! e) [0..<?n]"
    "list_all (\<lambda>j. 0 \<le> j \<and> j < int (tn_shape x ! d)) ?js"
    "list_all (\<lambda>(a, b). same_cell a b) (zip (doubles (gather_cells env x d (tn_shape idx) ?js (tn_dtype vals))) (doubles (tn_cells vals)))"
    using assms(1) unfolding validate_index_output_def prod.case out_value.case Let_def dn_def [symmetric] d_def [symmetric] by blast+
  have d: "d < ?n" "int d = dn" using v(2,3) by (simp_all add: d_def)
  define src where "src = map (\<lambda>(k, j). gather_source (tn_shape x) d (tn_shape idx) k j) (zip [0..<length ?js] ?js)"
  have j: "0 \<le> ?js ! k \<and> ?js ! k < int (tn_shape x ! d)" if "k < numel idx" for k
    using v(6) assms(2) that by (simp add: list_all_length)
  have s: "src ! k = gather_source (tn_shape x) d (tn_shape idx) k (?js ! k)" if "k < numel idx" for k
    using that assms(2) by (simp add: src_def)
  have lt: "src ! k < numel x" if k: "k < numel idx" for k
    unfolding s [OF k] numel_def
    by (rule gather_source_lt) (use k j [OF k] v(1,5) d(1) in \<open>simp_all add: numel_def list_all_iff\<close>)
  have len: "length src = numel idx" using assms(2) by (simp add: src_def)
  have inside: "\<forall>i\<in>set src. i < numel x" using lt len by (auto simp: in_set_conv_nth)
  have "gather_cells env x d (tn_shape idx) ?js (tn_dtype vals) = take_cells (?to (tn_cells x)) src"
    unfolding gather_cells_def src_def [symmetric] using assms(5) inside by blast
  then have g: "doubles (gather_cells env x d (tn_shape idx) ?js (tn_dtype vals)) = map (\<lambda>i. doubles (?to (tn_cells x)) ! i) src"
    using doubles_take inside assms(4) by simp
  have same: "same_cell (doubles (?to (tn_cells x)) ! (src ! k)) (doubles (tn_cells vals) ! k)" if k: "k < numel idx" for k
    using v(7) k len assms(3) v(4) unfolding g by (simp add: list_all_length numel_def)
  show ?thesis
    unfolding Let_def using d j lt same s dn_def by (intro exI [of _ d]) simp
qed

subsection \<open>Concrete outputs\<close>

definition demo_tensors :: tensor_env where
  "demo_tensors = \<lparr>te_to = (\<lambda>_ c. c), te_long = (\<lambda>_. 0), te_bits = (\<lambda>_ _. []), te_max = (\<lambda>_. 65504), te_broadcast = (\<lambda>_ _. None)\<rparr>"

definition demo_floats :: "pyfloat list \<Rightarrow> tensor" where
  "demo_floats fs = \<lparr>tn_dtype = ''float32'', tn_shape = [length fs], tn_cells = Floats fs\<rparr>"

definition demo_ints :: "int list \<Rightarrow> tensor" where
  "demo_ints xs = \<lparr>tn_dtype = ''int32'', tn_shape = [length xs], tn_cells = Ints xs\<rparr>"

theorem int_gate_exact_witness:
  "\<exists>v. compare_single_tensor demo_tensors (demo_ints [3, 5]) (demo_ints [3, 6]) 0 ''int32'' None = Inr v \<and> \<not> vd_passed v"
  using int_gate_exact [of "demo_ints [3, 5]" "[3, 5]" "demo_ints [3, 6]" "[3, 6]" demo_tensors 0 "''int32''" None]
  by (auto simp: demo_ints_def integer_dtypes_def)

lemma demo_close: "compare_single_tensor demo_tensors (demo_floats [Fin 1, NaN]) (demo_floats [Fin 1, NaN]) (1 / 8) ''float32'' None = Inr (accepted 0 0)"
proof -
  have e: "errors_of [(Fin 1, Fin 1), (NaN, NaN)] = [0]"
    by (simp add: errors_of_def valid_pair_def relative_error_def fsub_def isnan_def isinf_def finite_part_def)
  show ?thesis
    by (simp add: compare_single_tensor_def demo_floats_def is_floating_point_def integer_dtypes_def compare_floats_def doubles_def demo_tensors_def
        saturate_def saturated_def isnan_def isinf_def e mean_of_def max_of_def Let_def)
qed


theorem gate_covers_outputs_witness: "\<exists>n v. compare_single_tensor demo_tensors (demo_ints [4]) (demo_ints [4]) 0 ''int32'' n = Inr v \<and> vd_passed v"
proof -
  have t: "get_output_threshold [(''int32'', 0)] ''int32'' = 0" by (simp add: get_output_threshold_def lowered_def lower_def)
  have "compare_single_tensor demo_tensors (demo_ints [4]) (demo_ints [4]) 0 ''int32'' None = Inr (accepted 0 0)"
    by (simp add: compare_single_tensor_def demo_ints_def is_floating_point_def integer_dtypes_def compare_ints_def longs_def tally_def exceeds_def
        word_abs_def accepted_def)
  then have "rp_passed (compare_tensors demo_tensors [(''int32'', 0)] [] (OSeq [OTensor (demo_ints [4])]) (OTensor (demo_ints [4])) None)"
    by (simp add: compare_tensors_def normalize_outputs_def as_tensor_def compare_one_def native_at_def summarise_def accepted_def Let_def demo_ints_def t)
  from gate_covers_outputs [OF this] show ?thesis by (simp add: normalize_outputs_def as_tensor_def demo_ints_def t)
qed

lemma demo_fields [simp]:
  "tn_shape (demo_floats fs) = [length fs]" "tn_cells (demo_floats fs) = Floats fs" "tn_dtype (demo_floats fs) = ''float32''"
  "tn_shape (demo_ints xs) = [length xs]" "tn_cells (demo_ints xs) = Ints xs" "te_to demo_tensors t c = c"
  by (simp_all add: demo_floats_def demo_ints_def demo_tensors_def)

theorem index_gate_sound_witness:
  "same_cell (doubles (tn_cells (demo_floats [Fin 3, Fin 5])) ! gather_source [2] 0 [1] 0 1) (Fin 5)"
proof -
  let ?x = "demo_floats [Fin 3, Fin 5]" and ?i = "demo_ints [1]" and ?v = "demo_floats [Fin 5]"
  have js: "indices_of demo_tensors ?i = [1]" by (simp add: indices_of_def longs_def)
  have ok: "validate_index_output demo_tensors (OTensor ?x) (- 1) (OTensor ?i) (OTensor ?v)"
    by (simp add: validate_index_output_def js gather_cells_def take_cells_def gather_source_def doubles_def same_cell_def feq_def Let_def)
  have "\<exists>d<1. int d = 0 \<and> (\<forall>k<1::nat. same_cell (doubles (tn_cells ?x) ! gather_source [2] d [1] k ([1] ! k)) (doubles (tn_cells ?v) ! k))"
    using index_gate_sound [OF ok] js by (simp add: numel_def doubles_def Let_def numeral_2_eq_2)
  then show ?thesis by (simp add: doubles_def)
qed

end
