(* ===== verification/Code_Check.thy ===== *)
theory Code_Check
  imports Edit_Check Shell_Text
begin

text \<open>
  \<open>op/utils/code_checker\<close> (below \<open>src/op_autoresearch\<close>): the static check of a generated kernel, with its policy
  \<open>op/config/code_checker.yaml\<close>. A program is its syntax tree with the nodes the checks look at; every other node is
  \<open>Other\<close> with its children. The parser, the compiler, the tokenizer and the search for modules are
  functions of the environment. The texts of the messages are left out.
\<close>

subsection \<open>Policy\<close>

definition triton_module_name :: string where
  "triton_module_name = ''triton''"

definition triton_decorators :: "string list" where
  "triton_decorators = [''jit'', ''autotune'', ''heuristics'']"

definition tl_module_name :: string where
  "tl_module_name = ''tilelang''"

definition tl_decorators :: "string list" where
  "tl_decorators = [''jit'']"

definition torch_call_prefixes :: "string list" where
  "torch_call_prefixes = [''torch'', ''torch.nn.functional'', ''torch.functional'', ''nn.functional'', ''F'', ''torch.linalg'', ''linalg'',
     ''torch.fft'', ''fft'', ''torch.special'', ''special'', ''torch.sparse'', ''sparse'']"

definition torch_compute_ops_hard :: "string list" where
  "torch_compute_ops_hard = [''matmul'', ''mm'', ''bmm'', ''addmm'', ''addmv'', ''addbmm'', ''baddbmm'', ''einsum'', ''dot'', ''mv'', ''inner'',
     ''outer'', ''linear'', ''bilinear'', ''multi_dot'', ''vecdot'', ''cross'', ''tensorinv'', ''tensorsolve'', ''svd'', ''svdvals'', ''qr'',
     ''lu'', ''lu_factor'', ''eig'', ''eigvals'', ''eigh'', ''eigvalsh'', ''solve'', ''solve_triangular'', ''lu_solve'', ''lstsq'', ''inv'',
     ''pinv'', ''conv1d'', ''conv2d'', ''conv3d'', ''conv_transpose1d'', ''conv_transpose2d'', ''conv_transpose3d'', ''softmax'',
     ''log_softmax'', ''logsumexp'', ''embedding'', ''embedding_bag'', ''scaled_dot_product_attention'', ''multi_head_attention_forward'',
     ''fft'', ''ifft'', ''fft2'', ''ifft2'', ''fftn'', ''ifftn'', ''rfft'', ''irfft'', ''rfft2'', ''irfft2'', ''rfftn'', ''irfftn'',
     ''hfft'', ''ihfft'', ''hfft2'', ''ihfft2'', ''hfftn'', ''ihfftn'']"

definition torch_compute_ops_soft :: "string list" where
  "torch_compute_ops_soft = [''relu'', ''gelu'', ''silu'', ''sigmoid'', ''tanh'', ''leaky_relu'', ''elu'', ''hardswish'', ''mish'', ''exp'', ''log'',
     ''sqrt'', ''rsqrt'', ''pow'', ''sin'', ''cos'', ''abs'', ''clamp'', ''clamp_min'', ''clamp_max'', ''sum'', ''mean'', ''prod'', ''norm'',
     ''vector_norm'', ''matrix_norm'', ''amax'', ''amin'', ''argmax'', ''argmin'', ''layer_norm'', ''batch_norm'', ''group_norm'',
     ''instance_norm'', ''max_pool1d'', ''max_pool2d'', ''max_pool3d'', ''avg_pool1d'', ''avg_pool2d'', ''avg_pool3d'',
     ''adaptive_avg_pool2d'', ''interpolate'', ''cumsum'', ''cumprod'']"

definition torch_call_prefixes_ordered :: "string list" where
  "torch_call_prefixes_ordered = rev (sort_key length torch_call_prefixes)"

definition ascendc_text_suffixes :: "string list" where
  "ascendc_text_suffixes = [''.asc'', ''.c'', ''.cc'', ''.cmake'', ''.cpp'', ''.cxx'', ''.h'', ''.hpp'', ''.py'', ''.txt'']"

definition ascendc_text_filenames :: "string list" where
  "ascendc_text_filenames = [''CMakeLists.txt'', ''CMakePresets.json'']"

subsection \<open>Syntax trees\<close>

text \<open>
  The numbers are line numbers. A function holds its arguments and body, its decorators, and what comes after
  them; a class its bases, its body and its decorators; an import its names, each with the name given after \<open>as\<close>.
\<close>

datatype node =
    Name string
  | Attribute node string
  | Call nat node "node list"
  | Subscript node node
  | MatMult nat node node
  | FunctionDef string "node list" "node list" "node list"
  | ClassDef string "node list" "node list" "node list"
  | Assign "node list" node
  | Import nat "(string \<times> string option) list"
  | ImportFrom nat "string option" nat "(string \<times> string option) list"
  | Other "node list"

fun children :: "node \<Rightarrow> node list" where
  "children (Name i) = []"
| "children (Attribute v a) = [v]"
| "children (Call n f args) = f # args"
| "children (Subscript v i) = [v, i]"
| "children (MatMult n l r) = [l, r]"
| "children (FunctionDef f inner decs after) = inner @ decs @ after"
| "children (ClassDef c bases body decs) = bases @ body @ decs"
| "children (Assign targets v) = targets @ [v]"
| "children (Import n names) = []"
| "children (ImportFrom n m lev names) = []"
| "children (Other xs) = xs"

text \<open>\<open>ast.walk\<close>: breadth first, with a queue.\<close>

definition queue_size :: "node list \<Rightarrow> nat" where
  "queue_size q = sum_list (map (\<lambda>n. 2 * size n + 1) q)"

lemma queue_size_simps [simp]:
  "queue_size [] = 0" "queue_size (n # q) = 2 * size n + 1 + queue_size q" "queue_size (p @ q) = queue_size p + queue_size q"
  by (simp_all add: queue_size_def)

lemma queue_size_le: "queue_size xs \<le> 2 * size_list size xs"
  by (induction xs) simp_all

lemma size_children: "queue_size (children n) \<le> 2 * size n"
proof (cases n)
  case (Call l f args)
  then show ?thesis using queue_size_le [of args] by simp
next
  case (FunctionDef f inner decs after)
  then show ?thesis using queue_size_le [of inner] queue_size_le [of decs] queue_size_le [of after] by simp
next
  case (ClassDef c bases body decs)
  then show ?thesis using queue_size_le [of bases] queue_size_le [of body] queue_size_le [of decs] by simp
next
  case (Assign targets v)
  then show ?thesis using queue_size_le [of targets] by simp
next
  case (Other xs)
  then show ?thesis using queue_size_le [of xs] by simp
qed simp_all

function walk_queue :: "node list \<Rightarrow> node list" where
  "walk_queue [] = []"
| "walk_queue (n # queue) = n # walk_queue (queue @ children n)"
  by pat_completeness auto
termination by (relation "measure queue_size") (use size_children in \<open>auto simp: less_Suc_eq_le\<close>)

definition ast_walk :: "node \<Rightarrow> node list" where
  "ast_walk tree = walk_queue [tree]"

definition is_model_new :: "node \<Rightarrow> bool" where
  "is_model_new n = (case n of ClassDef c _ _ _ \<Rightarrow> c = ''ModelNew'' | _ \<Rightarrow> False)"

definition find_model_new_class :: "node \<Rightarrow> node option" where
  "find_model_new_class tree = List.find is_model_new (ast_walk tree)"

definition is_forward :: "node \<Rightarrow> bool" where
  "is_forward n = (case n of FunctionDef f _ _ _ \<Rightarrow> f = ''forward'' | _ \<Rightarrow> False)"

definition find_forward :: "node \<Rightarrow> node option" where
  "find_forward cls = (case cls of ClassDef _ _ body _ \<Rightarrow> List.find is_forward body | _ \<Rightarrow> None)"

fun dotted_name :: "node \<Rightarrow> string option" where
  "dotted_name (Name i) = Some i"
| "dotted_name (Attribute v a) = (case dotted_name v of Some (c # cs) \<Rightarrow> Some ((c # cs) @ ''.'' @ a) | _ \<Rightarrow> None)"
| "dotted_name _ = None"

subsection \<open>Imports and decorators\<close>

definition first_part :: "string \<Rightarrow> string" where
  "first_part m = takeWhile (\<lambda>c. c \<noteq> CHR ''.'') m"

definition local_name :: "string \<times> string option \<Rightarrow> string" where
  "local_name a = (case snd a of Some (c # cs) \<Rightarrow> c # cs | _ \<Rightarrow> fst a)"

definition alias_targets :: "string list" where
  "alias_targets = [triton_module_name, tl_module_name]"

definition alias_entries :: "node \<Rightarrow> (string \<times> string) list" where
  "alias_entries n = (case n of
      Import _ names \<Rightarrow> map (\<lambda>a. (local_name a, fst a)) (filter (\<lambda>a. first_part (fst a) \<in> set alias_targets) names)
    | ImportFrom _ (Some (c # cs)) _ names \<Rightarrow>
        if first_part (c # cs) \<in> set alias_targets then map (\<lambda>a. (local_name a, (c # cs) @ ''.'' @ fst a)) names else []
    | _ \<Rightarrow> [])"

text \<open>The entries in the order in which the dictionary is filled; a later one replaces an earlier one.\<close>

definition collect_import_aliases :: "node \<Rightarrow> (string \<times> string) list" where
  "collect_import_aliases tree = concat (map alias_entries (ast_walk tree))"

definition resolve_alias :: "(string \<times> string) list \<Rightarrow> string \<Rightarrow> string option" where
  "resolve_alias aliases i = map_of (rev aliases) i"

text \<open>The dotted name up to its last part, and the last part, where there are two.\<close>

definition rsplit_dot :: "string \<Rightarrow> (string \<times> string) option" where
  "rsplit_dot s = (let r = takeWhile (\<lambda>c. c \<noteq> CHR ''.'') (rev s)
     in if length r < length s then Some (take (length s - length r - 1) s, rev r) else None)"

fun namespace_decorator :: "string \<Rightarrow> string list \<Rightarrow> (string \<times> string) list \<Rightarrow> node \<Rightarrow> bool" where
  "namespace_decorator m decs aliases (Call n f args) = namespace_decorator m decs aliases f"
| "namespace_decorator m decs aliases (Attribute v a) = (v = Name m \<and> a \<in> set decs)"
| "namespace_decorator m decs aliases (Name i) = (case Option.bind (resolve_alias aliases i) rsplit_dot of
     Some (p, a) \<Rightarrow> p = m \<and> a \<in> set decs | None \<Rightarrow> False)"
| "namespace_decorator m decs aliases _ = False"

definition is_triton_decorator :: "(string \<times> string) list \<Rightarrow> node \<Rightarrow> bool" where
  "is_triton_decorator = namespace_decorator triton_module_name triton_decorators"

definition is_tilelang_decorator :: "(string \<times> string) list \<Rightarrow> node \<Rightarrow> bool" where
  "is_tilelang_decorator = namespace_decorator tl_module_name tl_decorators"

definition decorated_functions :: "node \<Rightarrow> (node \<Rightarrow> bool) \<Rightarrow> string list" where
  "decorated_functions tree P = concat (map (\<lambda>n. case n of FunctionDef f _ decs _ \<Rightarrow> if list_ex P decs then [f] else [] | _ \<Rightarrow> []) (ast_walk tree))"

subsection \<open>Errors\<close>

record CheckError =
  ce_line :: nat
  ce_type :: string
  ce_snippet :: string
  ce_strategy :: "string option"

definition err :: "nat \<Rightarrow> string \<Rightarrow> CheckError" where
  "err line etype = \<lparr>ce_line = line, ce_type = etype, ce_snippet = [], ce_strategy = Some ''rewrite''\<rparr>"

definition fixable :: "nat \<Rightarrow> string \<Rightarrow> string \<Rightarrow> CheckError" where
  "fixable line etype snippet = \<lparr>ce_line = line, ce_type = etype, ce_snippet = snippet, ce_strategy = Some ''fix''\<rparr>"

subsection \<open>Torch calls in the forward method\<close>

definition match_torch_call_prefix :: "string \<Rightarrow> string option" where
  "match_torch_call_prefix name = List.find (\<lambda>p. starts_with (p @ ''.'') name) torch_call_prefixes_ordered"

text \<open>Line, dotted name and method of a call in a torch namespace that is no call of the DSL's own operators.\<close>

definition torch_call :: "string option \<Rightarrow> node \<Rightarrow> (nat \<times> string \<times> string) option" where
  "torch_call skip n = (case n of
      Call line (Attribute v a) _ \<Rightarrow> (case dotted_name (Attribute v a) of
          Some name \<Rightarrow>
            if (case skip of Some p \<Rightarrow> p \<noteq> [] \<and> starts_with p name | None \<Rightarrow> False) then None
            else if match_torch_call_prefix name = None then None else Some (line, name, a)
        | None \<Rightarrow> None)
    | _ \<Rightarrow> None)"

definition hard_use :: "string option \<Rightarrow> node \<Rightarrow> (nat \<times> string) option" where
  "hard_use skip n = (case n of
      MatMult line _ _ \<Rightarrow> Some (line, ''@ (matmul operator)'')
    | _ \<Rightarrow> (case torch_call skip n of
          Some (line, name, a) \<Rightarrow> if a \<in> set torch_compute_ops_hard then Some (line, name) else None | None \<Rightarrow> None))"

definition soft_use :: "string option \<Rightarrow> node \<Rightarrow> (nat \<times> string) option" where
  "soft_use skip n = (case torch_call skip n of
      Some (line, name, a) \<Rightarrow> if a \<notin> set torch_compute_ops_hard \<and> a \<in> set torch_compute_ops_soft then Some (line, name) else None
    | None \<Rightarrow> None)"

definition forbidden_compute_in_forward :: "node \<Rightarrow> string \<Rightarrow> bool \<Rightarrow> string option \<Rightarrow> string option \<Rightarrow> CheckError list" where
  "forbidden_compute_in_forward fwd hard_etype kernel_present soft_etype skip =
     (let hard_calls = List.map_filter (hard_use skip) (ast_walk fwd);
          soft_calls = (case soft_etype of Some _ \<Rightarrow> List.map_filter (soft_use skip) (ast_walk fwd) | None \<Rightarrow> [])
      in (case hard_calls of [] \<Rightarrow> [] | c # _ \<Rightarrow> [err (fst c) hard_etype])
         @ (case (soft_etype, soft_calls) of (Some etype, c # _) \<Rightarrow> if kernel_present then [] else [err (fst c) etype] | _ \<Rightarrow> []))"

subsection \<open>The environment\<close>

datatype compiled = Compiled | CompileError string | CompileCrashed

datatype token_kind = TokenCode | TokenText | TokenLayout

record lint_env =
  le_parse :: "string \<Rightarrow> nat option + node"
  le_compile :: "string \<Rightarrow> compiled"
  le_module :: "string \<Rightarrow> bool"
  le_tokens :: "string \<Rightarrow> (token_kind \<times> nat \<times> nat list) list option"

record checker =
  cc_dsl :: string
  cc_arch :: string
  cc_source_path :: string

definition code_checker :: "string \<Rightarrow> string \<Rightarrow> string \<Rightarrow> checker" where
  "code_checker dsl arch source_path = \<lparr>cc_dsl = str_lower dsl, cc_arch = str_lower arch, cc_source_path = source_path\<rparr>"

subsection \<open>Kernels of the Python DSLs\<close>

text \<open>The shared skeleton: how kernels and their use are found, and the types of the errors.\<close>

record kernel_check =
  kc_applies :: "string \<Rightarrow> bool"
  kc_find_kernels :: "node \<Rightarrow> (string \<times> string) list \<Rightarrow> string list"
  kc_find_used :: "node \<Rightarrow> string list \<Rightarrow> string list"
  kc_no_kernel :: string
  kc_not_called :: string
  kc_hard :: string
  kc_soft :: "string option"
  kc_skip :: "string option"

definition kernel_run :: "kernel_check \<Rightarrow> lint_env \<Rightarrow> string \<Rightarrow> CheckError list" where
  "kernel_run kc env code = (case le_parse env code of
      Inl _ \<Rightarrow> []
    | Inr tree \<Rightarrow>
        (let kernels = kc_find_kernels kc tree (collect_import_aliases tree)
         in if kernels = [] then [err 0 (kc_no_kernel kc)]
            else let used = (if kc_not_called kc \<noteq> [] then kc_find_used kc tree kernels else kernels);
                     errors = (if kc_not_called kc \<noteq> [] \<and> used = [] then [err 0 (kc_not_called kc)] else [])
                 in case Option.bind (find_model_new_class tree) find_forward of
                     None \<Rightarrow> errors
                   | Some fwd \<Rightarrow> errors @ forbidden_compute_in_forward fwd (kc_hard kc) (used \<noteq> []) (kc_soft kc) (kc_skip kc)))"

text \<open>\<open>kernel[grid](...)\<close>\<close>

definition triton_used :: "node \<Rightarrow> string list \<Rightarrow> string list" where
  "triton_used tree kernels = concat (map (\<lambda>n. case n of
      Call _ (Subscript (Name i) _) _ \<Rightarrow> if i \<in> set kernels then [i] else [] | _ \<Rightarrow> []) (ast_walk tree))"

definition triton_check :: kernel_check where
  "triton_check = \<lparr>kc_applies = starts_with ''triton'', kc_find_kernels = (\<lambda>tree aliases. decorated_functions tree (is_triton_decorator aliases)),
     kc_find_used = triton_used, kc_no_kernel = ''no_triton_kernel'', kc_not_called = ''triton_kernel_not_called'',
     kc_hard = ''torch_api_instead_of_kernel'', kc_soft = Some ''torch_api_without_kernel'', kc_skip = None\<rparr>"

text \<open>The names a program assigns the result of \<open>tilelang.compile(...)\<close> to.\<close>

definition assigned_names :: "node list \<Rightarrow> string list" where
  "assigned_names targets = concat (map (\<lambda>t. case t of Name i \<Rightarrow> [i] | _ \<Rightarrow> []) targets)"

definition compile_result_names :: "node \<Rightarrow> string list" where
  "compile_result_names tree = concat (map (\<lambda>n. case n of
      Assign targets (Call _ (Attribute (Name m) a) _) \<Rightarrow> if m = tl_module_name \<and> a = ''compile'' then assigned_names targets else []
    | _ \<Rightarrow> []) (ast_walk tree))"

definition find_tilelang_kernel_calls :: "node \<Rightarrow> string list \<Rightarrow> string list" where
  "find_tilelang_kernel_calls tree kernels = concat (map (\<lambda>n. case n of
      Call _ (Name i) _ \<Rightarrow> if i \<in> set kernels then [i] else if i \<in> set (compile_result_names tree) then kernels else []
    | _ \<Rightarrow> []) (ast_walk tree))"

definition tilelang_check :: kernel_check where
  "tilelang_check = \<lparr>kc_applies = starts_with ''tilelang'', kc_find_kernels = (\<lambda>tree aliases. decorated_functions tree (is_tilelang_decorator aliases)),
     kc_find_used = find_tilelang_kernel_calls, kc_no_kernel = ''no_tilelang_kernel'', kc_not_called = ''tilelang_kernel_not_called'',
     kc_hard = ''torch_api_instead_of_tilelang_kernel'', kc_soft = Some ''torch_api_without_tilelang_kernel'', kc_skip = None\<rparr>"

text \<open>\<open>@pypto.jit\<close>, with any names in between and with or without arguments.\<close>

definition is_pypto_kernel_decorator :: "node \<Rightarrow> bool" where
  "is_pypto_kernel_decorator d = (case dotted_name (case d of Call _ f _ \<Rightarrow> f | _ \<Rightarrow> d) of
      None \<Rightarrow> False
    | Some name \<Rightarrow> name \<noteq> [] \<and> first_part name = ''pypto'' \<and> last (split_on CHR ''.'' name) = ''jit'')"

definition bears_pypto_kernel :: "node \<Rightarrow> bool" where
  "bears_pypto_kernel outer = list_ex (\<lambda>n. case n of FunctionDef _ _ decs _ \<Rightarrow> list_ex is_pypto_kernel_decorator decs | _ \<Rightarrow> False) (ast_walk outer)"

definition pypto_kernels :: "node \<Rightarrow> string list" where
  "pypto_kernels tree = concat (map (\<lambda>n. case n of FunctionDef f _ _ _ \<Rightarrow> if bears_pypto_kernel n then [f] else [] | _ \<Rightarrow> []) (ast_walk tree))"

definition called_names :: "node \<Rightarrow> string list" where
  "called_names tree = concat (map (\<lambda>n. case n of Call _ (Name i) _ \<Rightarrow> [i] | _ \<Rightarrow> []) (ast_walk tree))"

definition pypto_check :: kernel_check where
  "pypto_check = \<lparr>kc_applies = (\<lambda>dsl. dsl = ''pypto''), kc_find_kernels = (\<lambda>tree aliases. pypto_kernels tree),
     kc_find_used = (\<lambda>tree kernels. filter (\<lambda>k. k \<in> set (called_names tree)) kernels), kc_no_kernel = ''no_pypto_kernel'',
     kc_not_called = ''pypto_kernel_not_called'', kc_hard = ''torch_api_instead_of_kernel'', kc_soft = None, kc_skip = None\<rparr>"

subsection \<open>Catlass\<close>

definition catlass_prefix :: string where
  "catlass_prefix = ''torch.ops.catlass.''"

definition is_catlass_call :: "node \<Rightarrow> bool" where
  "is_catlass_call n = (case n of
      Call _ (Attribute v a) _ \<Rightarrow> (case dotted_name (Attribute v a) of Some name \<Rightarrow> starts_with catlass_prefix name | None \<Rightarrow> False)
    | _ \<Rightarrow> False)"

definition catlass_run :: "lint_env \<Rightarrow> string \<Rightarrow> CheckError list" where
  "catlass_run env code = (case le_parse env code of
      Inl _ \<Rightarrow> []
    | Inr tree \<Rightarrow> (case Option.bind (find_model_new_class tree) find_forward of
          None \<Rightarrow> []
        | Some fwd \<Rightarrow>
            (let has_catlass_call = list_ex is_catlass_call (ast_walk fwd)
             in (if has_catlass_call then [] else [err 0 ''no_catlass_call''])
                @ forbidden_compute_in_forward fwd ''torch_api_instead_of_kernel'' has_catlass_call (Some ''torch_api_without_kernel'') (Some catlass_prefix))))"

subsection \<open>The source scan of AscendC\<close>

definition scan_line :: "string \<Rightarrow> bool" where
  "scan_line line = (let stripped = strip line
     in stripped \<noteq> [] \<and> \<not> list_ex (\<lambda>p. starts_with p stripped) [''#'', ''//'', ''/*'', ''*'', ''*/''])"

text \<open>The text after the first \<open>*/\<close>.\<close>

fun after_comment :: "string \<Rightarrow> string option" where
  "after_comment (CHR ''*'' # CHR ''/'' # cs) = Some cs"
| "after_comment (c # cs) = after_comment cs"
| "after_comment [] = None"

lemma after_comment_shorter: "after_comment s = Some t \<Longrightarrow> length t < length s"
  by (induction s rule: after_comment.induct) auto

function sanitize :: "char option \<Rightarrow> string \<Rightarrow> string" where
  "sanitize q [] = []"
| "sanitize (Some q) (c # cs) =
     (if c = backslash \<and> cs \<noteq> [] then sanitize (Some q) (tl cs)
      else if c = q then sanitize None cs else sanitize (Some q) cs)"
| "sanitize None (c # cs) =
     (if c = dquote \<or> c = squote then sanitize (Some c) cs
      else if c = CHR ''#'' then []
      else if c = CHR ''/'' \<and> cs \<noteq> [] \<and> hd cs = CHR ''/'' then []
      else if c = CHR ''/'' \<and> cs \<noteq> [] \<and> hd cs = CHR ''*''
      then (case after_comment (tl cs) of None \<Rightarrow> [] | Some rest \<Rightarrow> sanitize None rest)
      else c # sanitize None cs)"
  by pat_completeness auto
termination
  by (relation "measure (\<lambda>(q, s). length s)") (auto dest!: after_comment_shorter)

definition sanitize_line :: "string \<Rightarrow> string" where
  "sanitize_line line = sanitize None line"

text \<open>Search for a pattern whose first character starts a word.\<close>

fun word_search :: "rx \<Rightarrow> bool \<Rightarrow> string \<Rightarrow> bool" where
  "word_search r prev [] = (\<not> prev \<and> rests r [] \<noteq> [])"
| "word_search r prev (c # cs) = (\<not> prev \<and> rests r (c # cs) \<noteq> [] \<or> word_search r (is_word c) cs)"

definition ident :: rx where
  "ident = Sym (\<lambda>c. c \<in> set ''ABCDEFGHIJKLMNOPQRSTUVWXYZabcdefghijklmnopqrstuvwxyz0123456789_'')"

definition torch_npu_pattern :: rx where
  "torch_npu_pattern = Cat [Lit ''torch_npu'', Rep white, Lit ''.'', Rep white, Lit ''npu_'', Rep1 ident, Rep white, Lit ''('']"

definition aclnn_operators :: "string list" where
  "aclnn_operators = [''Matmul'', ''Mm'', ''BatchMatMul'', ''GroupedMatmul'', ''WeightQuantBatchMatmul'', ''Convolution'', ''Conv1d'', ''Conv2d'',
     ''Conv3d'', ''Softmax'', ''LogSoftmax'', ''Topk'', ''TopK'', ''Sort'', ''LayerNorm'', ''RmsNorm'', ''GroupNorm'']"

definition aclnn_pattern :: rx where
  "aclnn_pattern = Cat [Lit ''aclnn'', Or (map Lit aclnn_operators), Rep ident, Rep white, Lit ''('']"

definition forbidden_patterns :: "(string \<times> rx) list" where
  "forbidden_patterns = [(''torch_npu_builtin_compute'', torch_npu_pattern), (''aclnn_builtin_compute'', aclnn_pattern)]"

definition ascendc_applies :: "checker \<Rightarrow> bool" where
  "ascendc_applies c = (cc_dsl c = ''ascendc'' \<or> cc_dsl c = ''ascendc_catlass'')"

definition should_scan_file :: "checker \<Rightarrow> bool" where
  "should_scan_file c = (cc_source_path c = [] \<or>
     (let name = basename (cc_source_path c) in extension name \<in> set ascendc_text_suffixes \<or> name \<in> set ascendc_text_filenames))"

definition scan_hits :: "nat \<Rightarrow> string \<Rightarrow> CheckError list" where
  "scan_hits line_no line =
     (if \<not> scan_line line \<or> strip (sanitize_line line) = [] then []
      else concat (map (\<lambda>(name, pattern). if word_search pattern False (sanitize_line line)
             then [\<lparr>ce_line = line_no, ce_type = ''ascendc_anti_cheat_'' @ name, ce_snippet = rstrip line, ce_strategy = Some ''rewrite''\<rparr>]
             else []) forbidden_patterns))"

definition ascendc_run :: "string \<Rightarrow> checker \<Rightarrow> CheckError list" where
  "ascendc_run code c =
     (if \<not> should_scan_file c then []
      else concat (map (\<lambda>(k, line). scan_hits (Suc k) line) (zip [0..<length (splitlines code)] (splitlines code))))"

subsection \<open>Autotuning and the A5 interfaces\<close>

text \<open>Where a pattern is first found, and the text after it.\<close>

fun rx_search :: "rx \<Rightarrow> string \<Rightarrow> (nat \<times> string) option" where
  "rx_search r [] = (case rests r [] of t # _ \<Rightarrow> Some (0, t) | [] \<Rightarrow> None)"
| "rx_search r (c # cs) = (case rests r (c # cs) of
     t # _ \<Rightarrow> Some (0, t) | [] \<Rightarrow> map_option (\<lambda>(k, t). (Suc k, t)) (rx_search r cs))"

definition autotune_pattern :: rx where
  "autotune_pattern = Cat [Lit ''@triton.autotune'', Rep white, Lit ''('']"

definition restore_value_pattern :: rx where
  "restore_value_pattern = Cat [Lit ''restore_value'', Rep white, Lit ''='']"

text \<open>How many characters there are up to the parenthesis that closes the depth to zero.\<close>

fun closing :: "int \<Rightarrow> string \<Rightarrow> nat option" where
  "closing d [] = None"
| "closing d (c # cs) = map_option Suc
     (if c = CHR ''('' then closing (d + 1) cs
      else if c = CHR '')'' then (if d - 1 = 0 then Some 0 else closing (d - 1) cs) else closing d cs)"

definition autotune_applies :: "checker \<Rightarrow> bool" where
  "autotune_applies c = starts_with ''triton'' (cc_dsl c)"

definition autotune_run :: "string \<Rightarrow> CheckError list" where
  "autotune_run code = (case rx_search autotune_pattern code of
      None \<Rightarrow> []
    | Some (k, rest) \<Rightarrow>
        (let src = CHR ''('' # rest; block = (case closing 0 src of None \<Rightarrow> [] | Some n \<Rightarrow> take n src)
         in if rx_search restore_value_pattern block = None
            then [fixable (Suc (length (filter (\<lambda>c. c = newline) (take k code)))) ''autotune_missing_restore_value'' []] else []))"

definition a5_applies :: "checker \<Rightarrow> bool" where
  "a5_applies c = (starts_with ''ascend950'' (cc_arch c) \<and> cc_dsl c = ''triton_ascend'')"

text \<open>The policy switches this check off.\<close>

definition a5_enabled :: bool where
  "a5_enabled = False"

definition a5_only_apis :: "string list" where
  "a5_only_apis = [''fixpipe'', ''copy'', ''scope'', ''sync_block_set'', ''sync_block_wait'', ''sub_vec_id'']"

definition is_tl_dot :: "node \<Rightarrow> bool" where
  "is_tl_dot n = (case n of
      Call _ (Attribute (Name i) a) _ \<Rightarrow> a = ''dot'' \<and> i = ''tl''
    | Call _ (Attribute (Attribute (Name i) b) a) _ \<Rightarrow> a = ''dot'' \<and> b = ''language'' \<and> i = ''triton''
    | _ \<Rightarrow> False)"

definition a5_call :: "string \<Rightarrow> string \<Rightarrow> node \<Rightarrow> bool" where
  "a5_call alias api n = (case n of
      Call _ (Attribute (Name i) a) _ \<Rightarrow> i = alias \<and> a = api
    | Call _ (Attribute (Attribute (Name i) _) a) _ \<Rightarrow> i = alias \<and> alias = ''al'' \<and> a \<in> set a5_only_apis \<and> a = api
    | _ \<Rightarrow> False)"

definition a5_error :: "string \<Rightarrow> CheckError" where
  "a5_error etype = \<lparr>ce_line = 0, ce_type = etype, ce_snippet = [], ce_strategy = None\<rparr>"

definition a5_run :: "bool \<Rightarrow> lint_env \<Rightarrow> string \<Rightarrow> CheckError list" where
  "a5_run switched_on env code =
     (if \<not> switched_on then [] else case le_parse env code of
        Inl _ \<Rightarrow> []
      | Inr tree \<Rightarrow>
          (let kernels = filter (\<lambda>n. case n of FunctionDef _ _ decs _ \<Rightarrow> list_ex (is_triton_decorator []) decs | _ \<Rightarrow> False) (ast_walk tree);
               calls = (\<lambda>alias api. list_ex (\<lambda>k. list_ex (a5_call alias api) (ast_walk k)) kernels)
           in if \<not> list_ex (\<lambda>k. list_ex is_tl_dot (ast_walk k)) kernels then []
              else (if calls ''al'' ''scope'' then [] else [a5_error ''a5_missing_scope''])
                   @ (if calls ''al'' ''scope'' \<and> \<not> calls ''al'' ''fixpipe'' then [a5_error ''a5_missing_fixpipe''] else [])
                   @ (if calls ''bl'' ''alloc'' then [] else [a5_error ''a5_missing_bl_alloc''])))"

subsection \<open>The compliance checks\<close>

record compliance_check =
  cp_applies :: "checker \<Rightarrow> bool"
  cp_run :: "lint_env \<Rightarrow> string \<Rightarrow> checker \<Rightarrow> CheckError list"

definition kernel_compliance :: "kernel_check \<Rightarrow> compliance_check" where
  "kernel_compliance kc = \<lparr>cp_applies = (\<lambda>c. kc_applies kc (cc_dsl c)), cp_run = (\<lambda>env code c. kernel_run kc env code)\<rparr>"

definition dsl_compliance_checks :: "compliance_check list" where
  "dsl_compliance_checks = [kernel_compliance triton_check, kernel_compliance tilelang_check, kernel_compliance pypto_check,
     \<lparr>cp_applies = (\<lambda>c. cc_dsl c = ''ascendc_catlass''), cp_run = (\<lambda>env code c. catlass_run env code)\<rparr>,
     \<lparr>cp_applies = ascendc_applies, cp_run = (\<lambda>env code c. ascendc_run code c)\<rparr>]"

definition compliance_checks :: "compliance_check list" where
  "compliance_checks = dsl_compliance_checks @
     [\<lparr>cp_applies = autotune_applies, cp_run = (\<lambda>env code c. autotune_run code)\<rparr>,
      \<lparr>cp_applies = a5_applies, cp_run = (\<lambda>env code c. a5_run a5_enabled env code)\<rparr>]"

definition run_compliance :: "compliance_check list \<Rightarrow> lint_env \<Rightarrow> checker \<Rightarrow> string \<Rightarrow> CheckError list" where
  "run_compliance cs env c code = concat (map (\<lambda>k. cp_run k env code c) (filter (\<lambda>k. cp_applies k c) cs))"

definition check_dsl_compliance :: "lint_env \<Rightarrow> checker \<Rightarrow> string \<Rightarrow> CheckError list" where
  "check_dsl_compliance = run_compliance dsl_compliance_checks"

subsection \<open>Syntax, compilation, imports, stray text\<close>

definition code_line :: "string \<Rightarrow> nat \<Rightarrow> string" where
  "code_line code line = (let ls = split_lines code in if 0 < line \<and> line \<le> length ls then rstrip (ls ! (line - 1)) else [])"

definition check_python_syntax :: "lint_env \<Rightarrow> string \<Rightarrow> CheckError list" where
  "check_python_syntax env code = (case le_parse env code of
      Inr _ \<Rightarrow> []
    | Inl lineno \<Rightarrow> (let line = (case lineno of Some n \<Rightarrow> n | None \<Rightarrow> 0) in [fixable line ''syntax_error'' (code_line code line)]))"

text \<open>The number after the first \<open>line\<close> of a message.\<close>

fun line_of_message :: "string \<Rightarrow> nat" where
  "line_of_message [] = 0"
| "line_of_message (c # cs) =
     (let ds = takeWhile is_digit (drop 5 (c # cs))
      in if starts_with ''line '' (c # cs) \<and> ds \<noteq> [] then digits_val ds else line_of_message cs)"

definition check_py_compile :: "lint_env \<Rightarrow> string \<Rightarrow> CheckError list" where
  "check_py_compile env code = (case le_compile env code of
      CompileError msg \<Rightarrow> [fixable (line_of_message msg) ''compile_error'' (code_line code (line_of_message msg))] | _ \<Rightarrow> [])"

definition remote_modules :: "string list" where
  "remote_modules = [''torch_npu'', ''triton_ascend'', ''tilelang'', ''swft'', ''pypto'', ''tbe'', ''te'', ''acl'', ''aclnnop'']"

definition remote_runtime_modules :: "checker \<Rightarrow> string list" where
  "remote_runtime_modules c = remote_modules @ (if cc_dsl c = ''triton_ascend'' then [''triton''] else [])"

definition imported_modules :: "node \<Rightarrow> (nat \<times> string) list" where
  "imported_modules n = (case n of
      Import line names \<Rightarrow> map (\<lambda>a. (line, fst a)) names
    | ImportFrom line (Some (c # cs)) lev _ \<Rightarrow> if 0 < lev then [] else [(line, c # cs)]
    | _ \<Rightarrow> [])"

fun import_errors :: "lint_env \<Rightarrow> string list \<Rightarrow> string list \<Rightarrow> (nat \<times> string) list \<Rightarrow> CheckError list" where
  "import_errors env remote checked [] = []"
| "import_errors env remote checked ((line, m) # ms) =
     (let top = first_part m
      in if top \<in> set checked \<or> top \<in> set remote then import_errors env remote checked ms
         else (if le_module env top then [] else [fixable line ''import_error'' []]) @ import_errors env remote (top # checked) ms)"

definition check_imports :: "lint_env \<Rightarrow> checker \<Rightarrow> string \<Rightarrow> CheckError list" where
  "check_imports env c code = (case le_parse env code of
      Inl _ \<Rightarrow> []
    | Inr tree \<Rightarrow> import_errors env (remote_runtime_modules c) [] (concat (map imported_modules (ast_walk tree))))"

definition is_cjk :: "nat \<Rightarrow> bool" where
  "is_cjk n = (0x4e00 \<le> n \<and> n \<le> 0x9fff)"

fun stray_text :: "nat list \<Rightarrow> bool" where
  "stray_text (x # y # z # rest) = (is_cjk x \<and> is_cjk y \<and> is_cjk z \<or> stray_text (y # z # rest))"
| "stray_text _ = False"

definition check_stray_chinese :: "lint_env \<Rightarrow> string \<Rightarrow> CheckError list" where
  "check_stray_chinese env code = (case le_tokens env code of
      None \<Rightarrow> []
    | Some ts \<Rightarrow> concat (map (\<lambda>(kind, line, points). if kind = TokenCode \<and> stray_text points then [fixable line ''stray_chinese_text'' []] else []) ts))"

subsection \<open>The check of a file\<close>

definition dsl_names :: "string list" where
  "dsl_names = [''triton_cuda'', ''triton_ascend'', ''swft'', ''ascendc'', ''ascendc_catlass'', ''cpp'', ''cuda_c'', ''tilelang_npuir'',
     ''tilelang_ascend'', ''tilelang_cuda'', ''torch'', ''pypto'']"

definition dsl_alias_map :: "(string \<times> string) list" where
  "dsl_alias_map = map (\<lambda>n. (str_lower n, n)) dsl_names @ [(''triton-russia'', ''triton_ascend'')]"

definition resolve_dsl_name :: "string \<Rightarrow> string option" where
  "resolve_dsl_name dsl = map_of dsl_alias_map (str_lower dsl)"

definition static_check_via_python_ast :: "string \<Rightarrow> bool" where
  "static_check_via_python_ast name = (name \<notin> {''swft'', ''cpp'', ''cuda_c''})"

definition is_python_source :: "string \<Rightarrow> bool" where
  "is_python_source name = (name = [] \<or> extension name = ''.py''
     \<or> \<not> (extension name \<in> set ascendc_text_suffixes \<or> name \<in> set ascendc_text_filenames))"

definition python_errors :: "lint_env \<Rightarrow> checker \<Rightarrow> string \<Rightarrow> CheckError list" where
  "python_errors env c code =
     (let e1 = check_python_syntax env code;
          e2 = (if e1 = [] then check_py_compile env code else e1);
          e3 = (if e2 = [] then check_imports env c code else e2)
      in e3 @ check_stray_chinese env code)"

definition is_syntax_error :: "CheckError \<Rightarrow> bool" where
  "is_syntax_error e = (ce_type e = ''syntax_error'' \<or> ce_type e = ''compile_error'')"

definition check :: "lint_env \<Rightarrow> checker \<Rightarrow> string \<Rightarrow> bool \<times> CheckError list" where
  "check env c code =
     (if strip code = [] then (False, [err 0 ''empty_code''])
      else if cc_dsl c \<noteq> [] \<and> (case resolve_dsl_name (cc_dsl c) of None \<Rightarrow> True | Some name \<Rightarrow> \<not> static_check_via_python_ast name) then (True, [])
      else let steps = (if is_python_source (basename (cc_source_path c)) then python_errors env c code else []);
               errors = steps @ (if list_ex is_syntax_error steps then [] else run_compliance compliance_checks env c code)
           in (errors = [], errors))"

text \<open>How \<open>quick_check.py\<close> asks.\<close>

definition run_codechecker :: "lint_env \<Rightarrow> string \<Rightarrow> string \<Rightarrow> string \<Rightarrow> bool" where
  "run_codechecker env dsl code file_name = fst (check env (code_checker dsl [] file_name) code)"

end
