(* ===== verification/Code_Facts.thy ===== *)
theory Code_Facts
  imports Code_Check "HOL-Library.Multiset"
begin

text \<open>
  What a passed check of \<open>Code_Check\<close> says of a kernel, and what it does not see: the walk visits every node once and
  level by level, a kernel is defined and used and the forward method that was found leaves the core
  computation to it, and every call a line spells out is found by the scan.
\<close>

subsection \<open>The walk\<close>

lemma child_size: "c \<in> set (children n) \<Longrightarrow> size c < size n"
  by (cases n) (auto dest!: size_list_estimation' [where f = size, OF _ order_refl])

function preorder :: "node \<Rightarrow> node list" where
  "preorder n = n # concat (map preorder (children n))"
  by pat_completeness auto
termination by (relation "measure size") (simp_all add: child_size)

declare preorder.simps [simp del]

text \<open>A node and what is below it.\<close>

inductive subnode :: "node \<Rightarrow> node \<Rightarrow> bool" where
  here: "subnode n n"
| below: "c \<in> set (children n) \<Longrightarrow> subnode m c \<Longrightarrow> subnode m n"

lemma preorder_subnode: "m \<in> set (preorder n) \<longleftrightarrow> subnode m n"
proof
  show "m \<in> set (preorder n) \<Longrightarrow> subnode m n"
  proof (induction n rule: preorder.induct)
    case (1 n)
    then show ?case by (subst (asm) (2) preorder.simps) (auto intro: subnode.intros)
  qed
  show "subnode m n \<Longrightarrow> m \<in> set (preorder n)"
    by (induction rule: subnode.induct) (subst preorder.simps, auto)+
qed

lemma walk_preorder: "mset (walk_queue q) = mset (concat (map preorder q))"
proof (induction q rule: walk_queue.induct)
  case (2 n queue)
  then show ?case by (simp add: preorder.simps [of n])
qed simp

lemma walk_subnodes: "set (ast_walk t) = {m. subnode m t}"
proof -
  have "set (ast_walk t) = set (preorder t)"
    using walk_preorder [of "[t]"] unfolding ast_walk_def by (metis append_Nil2 concat.simps list.simps(8,9) set_mset_mset)
  then show ?thesis using preorder_subnode by blast
qed

text \<open>The nodes at a depth.\<close>

definition next_level :: "node list \<Rightarrow> node list" where
  "next_level xs = concat (map children xs)"

definition level :: "nat \<Rightarrow> node list \<Rightarrow> node list" where
  "level k xs = (next_level ^^ k) xs"

lemma walk_append: "walk_queue (xs @ ys) = xs @ walk_queue (ys @ next_level xs)"
  by (induction xs arbitrary: ys) (simp_all add: next_level_def)

lemma queue_size_next: "queue_size (next_level xs) + length xs \<le> queue_size xs"
proof (induction xs)
  case (Cons x xs)
  then show ?case using size_children [of x] by (simp add: next_level_def)
qed (simp add: next_level_def)

lemma walk_levels: "queue_size xs \<le> d \<Longrightarrow> walk_queue xs = concat (map (\<lambda>k. level k xs) [0..<d])"
proof (induction d arbitrary: xs)
  case (Suc d)
  show ?case
  proof (cases "xs = []")
    case True
    have "level k [] = []" for k unfolding level_def by (induction k) (simp_all add: next_level_def)
    then show ?thesis using True by simp
  next
    case False
    then have "queue_size (next_level xs) \<le> d" using Suc.prems queue_size_next [of xs] by (cases xs) simp_all
    then have "walk_queue (next_level xs) = concat (map (\<lambda>k. level k (next_level xs)) [0..<d])" by (rule Suc.IH)
    moreover have "level k (next_level xs) = level (Suc k) xs" for k unfolding level_def by (simp add: funpow_swap1)
    ultimately show ?thesis using walk_append [of xs "[]"]
      by (simp add: upt_conv_Cons map_Suc_upt [symmetric] comp_def level_def del: upt_Suc funpow.simps(2))
  qed
next
  case 0
  then show ?case by (cases xs) simp_all
qed

text \<open>
  The breadth-first walk with a queue visits every node of a tree exactly once, and level by level: what is
  found first is nowhere deeper than anything else that could have been found.
\<close>

theorem walk_by_levels:
  "mset (ast_walk t) = mset (preorder t) \<and> ast_walk t = concat (map (\<lambda>k. level k [t]) [0..<2 * size t + 1])"
  unfolding ast_walk_def by (rule conjI, use walk_preorder [of "[t]"] in simp, rule walk_levels) simp

subsection \<open>What a passed check says\<close>

text \<open>A forward method that leaves the core computation to a kernel.\<close>

definition delegates_nothing :: "string option \<Rightarrow> node \<Rightarrow> bool" where
  "delegates_nothing skip fwd \<longleftrightarrow> (\<forall>m. subnode m fwd \<longrightarrow> hard_use skip m = None)"

lemma map_filter_Nil: "List.map_filter f xs = [] \<longleftrightarrow> (\<forall>x\<in>set xs. f x = None)"
  by (induction xs) (auto simp: List.map_filter_simps split: option.splits)

lemma forbidden_Nil:
  assumes "forbidden_compute_in_forward fwd hard present soft skip = []"
  shows "delegates_nothing skip fwd"
proof -
  have "List.map_filter (hard_use skip) (ast_walk fwd) = []"
    using assms by (auto simp: forbidden_compute_in_forward_def Let_def split: list.splits)
  then show ?thesis unfolding delegates_nothing_def map_filter_Nil walk_subnodes by blast
qed

lemma kernel_run_Nil:
  assumes "kernel_run kc env code = []" and "le_parse env code = Inr tree" and "kc_not_called kc \<noteq> []"
  shows "kc_find_kernels kc tree (collect_import_aliases tree) \<noteq> []"
    and "kc_find_used kc tree (kc_find_kernels kc tree (collect_import_aliases tree)) \<noteq> []"
    and "find_model_new_class tree = Some cls \<Longrightarrow> find_forward cls = Some fwd \<Longrightarrow> delegates_nothing (kc_skip kc) fwd"
proof -
  let ?ks = "kc_find_kernels kc tree (collect_import_aliases tree)"
  show k: "?ks \<noteq> []" using assms by (auto simp: kernel_run_def Let_def)
  then show u: "kc_find_used kc tree ?ks \<noteq> []"
    using assms by (auto simp: kernel_run_def Let_def split: option.splits)
  show "find_model_new_class tree = Some cls \<Longrightarrow> find_forward cls = Some fwd \<Longrightarrow> delegates_nothing (kc_skip kc) fwd"
    using assms k u by (intro forbidden_Nil) (simp add: kernel_run_def Let_def)
qed

lemma passed_check:
  assumes "fst (check env c code)" and "resolve_dsl_name (cc_dsl c) = Some name" and "static_check_via_python_ast name"
  shows "strip code \<noteq> []" and "is_python_source (basename (cc_source_path c)) \<Longrightarrow> python_errors env c code = []"
    and "run_compliance compliance_checks env c code = []"
proof -
  show "strip code \<noteq> []" using assms(1) by (auto simp: check_def)
  let ?steps = "if is_python_source (basename (cc_source_path c)) then python_errors env c code else []"
  have e: "?steps @ (if list_ex is_syntax_error ?steps then [] else run_compliance compliance_checks env c code) = []"
    using assms by (simp only: check_def Let_def fst_conv option.case not_True_eq_False if_False simp_thms split: if_splits)
  then have n: "?steps = []" by simp
  from n show "is_python_source (basename (cc_source_path c)) \<Longrightarrow> python_errors env c code = []" by simp
  from e show "run_compliance compliance_checks env c code = []" unfolding n by simp
qed

lemma run_compliance_Nil: "run_compliance cs env c code = [] \<Longrightarrow> k \<in> set cs \<Longrightarrow> cp_applies k c \<Longrightarrow> cp_run k env code c = []"
  by (auto simp: run_compliance_def)

lemma python_parsed: "python_errors env c code = [] \<Longrightarrow> \<exists>tree. le_parse env code = Inr tree"
  by (auto simp: python_errors_def check_python_syntax_def Let_def split: sum.splits if_splits)

lemma python_dsl:
  assumes "resolve_dsl_name dsl = Some name" and "dsl \<noteq> [] \<and> hd dsl \<in> {CHR ''t'', CHR ''p''}"
  shows "static_check_via_python_ast name"
proof -
  have "(str_lower dsl, name) \<in> set dsl_alias_map" using assms(1) unfolding resolve_dsl_name_def by (rule map_of_SomeD)
  moreover have "hd (str_lower dsl) \<in> {CHR ''t'', CHR ''p''}"
    using assms(2) by (cases dsl) (auto simp: str_lower_def lower_char_def)
  moreover have "list_all (\<lambda>(k, n). hd k \<in> {CHR ''t'', CHR ''p''} \<longrightarrow> static_check_via_python_ast n) dsl_alias_map"
    by code_simp
  ultimately show ?thesis by (auto simp: list_all_iff)
qed

text \<open>What a node is that is no hard use.\<close>

lemma no_hard_use:
  assumes "hard_use None m = None"
  shows "case m of MatMult _ _ _ \<Rightarrow> False
    | Call _ (Attribute v a) _ \<Rightarrow> (case dotted_name (Attribute v a) of
          Some name \<Rightarrow> match_torch_call_prefix name = None \<or> a \<notin> set torch_compute_ops_hard | None \<Rightarrow> True)
    | _ \<Rightarrow> True"
  using assms by (auto simp: hard_use_def torch_call_def simp del: dotted_name.simps split: node.splits option.splits if_splits)

definition kernel_checks :: "kernel_check list" where
  "kernel_checks = [triton_check, tilelang_check, pypto_check]"

text \<open>
  A Python file that passes the check of a kernel DSL parses, defines a kernel of that DSL and uses it, and the
  forward method the check finds neither multiplies with \<open>@\<close> nor calls, at any depth, a core operation of a torch namespace.
\<close>

theorem kernel_gate_sound:
  assumes "fst (check env c code)" and "kc \<in> set kernel_checks" and "kc_applies kc (cc_dsl c)"
    and "resolve_dsl_name (cc_dsl c) \<noteq> None" and "is_python_source (basename (cc_source_path c))"
  shows "\<exists>tree kernels. le_parse env code = Inr tree \<and> kernels = kc_find_kernels kc tree (collect_import_aliases tree) \<and> kernels \<noteq> []
    \<and> kc_find_used kc tree kernels \<noteq> []
    \<and> (\<forall>cls fwd m. find_model_new_class tree = Some cls \<and> find_forward cls = Some fwd \<and> subnode m fwd \<longrightarrow>
         (case m of MatMult _ _ _ \<Rightarrow> False
          | Call _ (Attribute v a) _ \<Rightarrow> (case dotted_name (Attribute v a) of
                Some name \<Rightarrow> match_torch_call_prefix name = None \<or> a \<notin> set torch_compute_ops_hard | None \<Rightarrow> True)
          | _ \<Rightarrow> True))"
proof -
  have "cc_dsl c \<noteq> [] \<and> hd (cc_dsl c) \<in> {CHR ''t'', CHR ''p''}"
    using assms(2,3) by (cases "cc_dsl c") (auto simp: kernel_checks_def triton_check_def tilelang_check_def pypto_check_def)
  then have "static_check_via_python_ast name" if "resolve_dsl_name (cc_dsl c) = Some name" for name
    by (rule python_dsl [OF that])
  then obtain name where "resolve_dsl_name (cc_dsl c) = Some name" "static_check_via_python_ast name" using assms(4) by blast
  note passed = passed_check [OF assms(1) this]
  obtain tree where tree: "le_parse env code = Inr tree" using python_parsed passed(2) assms(5) by blast
  have "kernel_run kc env code = []"
    using run_compliance_Nil [OF passed(3), of "kernel_compliance kc"] assms(2,3)
    by (auto simp: kernel_compliance_def compliance_checks_def dsl_compliance_checks_def kernel_checks_def)
  moreover have "kc_not_called kc \<noteq> []" and skip: "kc_skip kc = None"
    using assms(2) by (auto simp: kernel_checks_def triton_check_def tilelang_check_def pypto_check_def)
  ultimately show ?thesis
    using kernel_run_Nil [OF _ tree, of kc] tree unfolding delegates_nothing_def skip
    by (intro exI [of _ tree] exI conjI refl allI impI) (simp_all, use no_hard_use in blast)
qed

text \<open>A function with a kernel decorator, and a launch of it with a grid.\<close>

definition launches_kernel :: "node \<Rightarrow> bool" where
  "launches_kernel tree \<longleftrightarrow> (\<exists>k inner decs after dec line g args. subnode (FunctionDef k inner decs after) tree \<and> dec \<in> set decs
     \<and> is_triton_decorator (collect_import_aliases tree) dec \<and> subnode (Call line (Subscript (Name k) g) args) tree)"

lemma decorated_functions_iff:
  "k \<in> set (decorated_functions tree P) \<longleftrightarrow> (\<exists>inner decs after. subnode (FunctionDef k inner decs after) tree \<and> list_ex P decs)"
proof -
  have "k \<in> set (case n of FunctionDef f _ decs _ \<Rightarrow> if list_ex P decs then [f] else [] | _ \<Rightarrow> [])
      \<longleftrightarrow> (\<exists>inner decs after. n = FunctionDef k inner decs after \<and> list_ex P decs)" for n
    by (cases n) auto
  then show ?thesis unfolding decorated_functions_def set_concat set_map walk_subnodes image_image by auto
qed

lemma triton_used_iff:
  "k \<in> set (triton_used tree ks) \<longleftrightarrow> k \<in> set ks \<and> (\<exists>line g args. subnode (Call line (Subscript (Name k) g) args) tree)"
proof -
  have "k \<in> set (case n of Call _ (Subscript (Name i) _) _ \<Rightarrow> if i \<in> set ks then [i] else [] | _ \<Rightarrow> [])
      \<longleftrightarrow> k \<in> set ks \<and> (\<exists>line g args. n = Call line (Subscript (Name k) g) args)" for n
    by (auto split: node.splits)
  then show ?thesis unfolding triton_used_def set_concat set_map walk_subnodes image_image by auto
qed

lemma triton_used_Nil: "triton_used tree [] = []"
  using triton_used_iff [of _ tree "[]"] by (cases "triton_used tree []") force+

lemma launches_kernel_iff:
  "launches_kernel tree \<longleftrightarrow> triton_used tree (decorated_functions tree (is_triton_decorator (collect_import_aliases tree))) \<noteq> []"
proof -
  have "launches_kernel tree \<longleftrightarrow> (\<exists>k. k \<in> set (triton_used tree (decorated_functions tree (is_triton_decorator (collect_import_aliases tree)))))"
    unfolding launches_kernel_def triton_used_iff decorated_functions_iff list_ex_iff by blast
  then show ?thesis by (metis list.set_sel(1) emptyE set_empty)
qed

subsection \<open>The gate of an edit\<close>

lemma check_files_passed:
  assumes "ends_with ''.py'' f"
  shows "check_files env True fs = Inr [] \<Longrightarrow> PStr f \<in> set fs \<Longrightarrow> qe_code_ok env f = Inr True"
proof (induction fs)
  case (Cons g fs)
  show ?case
  proof (cases "g = PStr f")
    case True
    then show ?thesis using Cons.prems(1) assms by (auto simp: bindR_eq_Inr split: if_splits)
  next
    case False
    then have "PStr f \<in> set fs" using Cons.prems(2) by simp
    moreover have "check_files env True fs = Inr []" using Cons.prems(1) by (cases g) (auto simp: bindR_eq_Inr)
    ultimately show ?thesis using Cons.IH by blast
  qed
qed simp

lemma python_file: "ends_with ''.py'' f \<Longrightarrow> is_python_source (basename f)"
proof -
  assume "ends_with ''.py'' f"
  then obtain r where "rev f = rev ''.py'' @ r" unfolding ends_with_def using starts_with_iff by blast
  then show ?thesis by (simp add: is_python_source_def basename_def extension_def ascendc_text_suffixes_def ascendc_text_filenames_def Let_def)
qed

lemma triton_dsls:
  "resolve_dsl_name ''triton_ascend'' = Some ''triton_ascend''" "resolve_dsl_name ''triton_cuda'' = Some ''triton_cuda''"
  "static_check_via_python_ast ''triton_ascend''" "static_check_via_python_ast ''triton_cuda''"
  by code_simp+


subsection \<open>What the check does not see\<close>

lemma delegates_forbidden: "delegates_nothing skip fwd \<Longrightarrow> forbidden_compute_in_forward fwd hard True soft skip = []"
proof -
  assume "delegates_nothing skip fwd"
  then have "List.map_filter (hard_use skip) (ast_walk fwd) = []" unfolding map_filter_Nil walk_subnodes delegates_nothing_def by blast
  then show ?thesis by (simp add: forbidden_compute_in_forward_def split: option.splits list.splits)
qed

text \<open>Torch under another name is no torch namespace, and a bare name is not looked at.\<close>

lemma renamed_compute_unseen:
  assumes "first_part name \<notin> {''torch'', ''nn'', ''F'', ''linalg'', ''fft'', ''special'', ''sparse''}"
  shows "dotted_name f = Some name \<Longrightarrow> hard_use skip (Call line f args) = None" and "hard_use skip (Call line (Name i) args) = None"
proof -
  have "\<not> starts_with (p @ ''.'') name" if "p \<in> set torch_call_prefixes_ordered" for p
  proof
    assume "starts_with (p @ ''.'') name"
    then obtain r where "name = (p @ ''.'') @ r" using starts_with_iff by blast
    then have "first_part name = first_part (p @ ''.'')" by (simp add: first_part_def takeWhile_tail)
    moreover have "list_all (\<lambda>p. first_part (p @ ''.'') \<in> {''torch'', ''nn'', ''F'', ''linalg'', ''fft'', ''special'', ''sparse''}) torch_call_prefixes"
      by code_simp
    ultimately show False using that assms by (auto simp: list_all_iff torch_call_prefixes_ordered_def)
  qed
  then have "match_torch_call_prefix name = None" unfolding match_torch_call_prefix_def by (simp add: find_None_iff)
  then show "dotted_name f = Some name \<Longrightarrow> hard_use skip (Call line f args) = None"
    by (auto simp: hard_use_def torch_call_def split: node.splits option.splits)
  show "hard_use skip (Call line (Name i) args) = None" by (simp add: hard_use_def torch_call_def)
qed

text \<open>
  C38. Only the first class of the name is checked: in a module that defines a kernel and launches it in a class
  \<open>ModelNew\<close>, a second class \<open>ModelNew\<close>, which is the one Python keeps, may compute whatever it likes in
  its forward method.
\<close>

theorem decoy_class_passes:
  assumes "le_parse env code = Inr (Other [FunctionDef k inner [Attribute (Name ''triton'') ''jit''] [],
      ClassDef ''ModelNew'' bases [FunctionDef ''forward'' [Call line (Subscript (Name k) grid) args] [] []] [],
      ClassDef ''ModelNew'' bases [FunctionDef ''forward'' cheat [] []] []])"
    and "delegates_nothing None (FunctionDef ''forward'' [Call line (Subscript (Name k) grid) args] [] [])"
    and "strip code \<noteq> []" and "python_errors env (code_checker ''triton_ascend'' [] path) code = []"
    and "rx_search autotune_pattern code = None"
  shows "check env (code_checker ''triton_ascend'' [] path) code = (True, [])"
proof -
  let ?fwd = "FunctionDef ''forward'' [Call line (Subscript (Name k) grid) args] [] []"
  define tree where "tree = Other [FunctionDef k inner [Attribute (Name ''triton'') ''jit''] [], ClassDef ''ModelNew'' bases [?fwd] [],
      ClassDef ''ModelNew'' bases [FunctionDef ''forward'' cheat [] []] []]"
  have parse: "le_parse env code = Inr tree" unfolding tree_def by (rule assms(1))
  have "find_model_new_class tree = Some (ClassDef ''ModelNew'' bases [?fwd] [])"
    by (simp add: find_model_new_class_def ast_walk_def tree_def is_model_new_def)
  then have fwd: "Option.bind (find_model_new_class tree) find_forward = Some ?fwd" by (simp add: find_forward_def is_forward_def)
  have "is_triton_decorator as (Attribute (Name ''triton'') ''jit'')" for as
    by (simp add: is_triton_decorator_def triton_module_name_def triton_decorators_def)
  moreover have "subnode (Call line (Subscript (Name k) grid) args) ?fwd" by (rule below [OF _ here]) simp
  then have "subnode (Call line (Subscript (Name k) grid) args) tree"
    by - (rule below [of "ClassDef ''ModelNew'' bases [?fwd] []"], simp add: tree_def, rule below [of ?fwd], simp)
  moreover have "subnode (FunctionDef k inner [Attribute (Name ''triton'') ''jit''] []) tree" by (rule below [OF _ here]) (simp add: tree_def)
  ultimately have "launches_kernel tree" unfolding launches_kernel_def by (metis list.set_intros(1))
  then have used: "triton_used tree (decorated_functions tree (is_triton_decorator (collect_import_aliases tree))) \<noteq> []"
    unfolding launches_kernel_iff .
  then have "decorated_functions tree (is_triton_decorator (collect_import_aliases tree)) \<noteq> []" by (metis triton_used_Nil)
  then have "kernel_run triton_check env code = []"
    using used parse fwd delegates_forbidden [OF assms(2)] by (simp add: kernel_run_def triton_check_def)
  moreover have "cc_dsl (code_checker ''triton_ascend'' [] path) = ''triton_ascend''" "cc_arch (code_checker ''triton_ascend'' [] path) = []"
    by (simp_all add: code_checker_def str_lower_def lower_char_def)
  ultimately have "run_compliance compliance_checks env (code_checker ''triton_ascend'' [] path) code = []"
    using assms(5) by (simp add: run_compliance_def compliance_checks_def dsl_compliance_checks_def kernel_compliance_def triton_check_def
        tilelang_check_def pypto_check_def ascendc_applies_def autotune_run_def a5_run_def a5_enabled_def)
  moreover have "cc_dsl (code_checker ''triton_ascend'' [] path) = ''triton_ascend''" by (simp add: code_checker_def str_lower_def lower_char_def)
  ultimately show ?thesis using assms(3,4) triton_dsls by (simp add: check_def)
qed

subsection \<open>The source scan\<close>

text \<open>Text without quotes and without what may start a comment.\<close>

definition plain :: "string \<Rightarrow> bool" where
  "plain s \<longleftrightarrow> set s \<inter> {dquote, squote, CHR ''#'', CHR ''/''} = {}"

lemma sanitize_plain: "plain s \<Longrightarrow> sanitize None s = s"
  by (induction s) (auto simp: plain_def)

lemma rests_Rep_self: "s \<in> set (rests (Rep r) s)"
  by (simp add: uniq_def rep_rests.simps [of _ s])

lemma set_uniq [simp]: "set (uniq xs) = set xs"
  by (simp add: uniq_def)

lemma cat_rests_step: "t \<in> set (f s) \<Longrightarrow> u \<in> set (cat_rests fs t) \<Longrightarrow> u \<in> set (cat_rests (f # fs) s)"
  by auto

lemma aclnn_found:
  assumes "a \<in> set aclnn_operators"
  shows "rests aclnn_pattern (''aclnn'' @ a @ CHR ''('' # post) \<noteq> []"
proof -
  let ?t = "a @ CHR ''('' # post"
  have 1: "?t \<in> set (rests (Lit ''aclnn'') (''aclnn'' @ ?t))" by simp
  have 2: "CHR ''('' # post \<in> set (rests (Or (map Lit aclnn_operators)) ?t)"
    using assms starts_with_append [of a "CHR ''('' # post"] by (auto intro!: bexI [of _ a])
  have 3: "post \<in> set (rests (Lit ''('') (CHR ''('' # post))" by simp
  have "post \<in> set (rests aclnn_pattern (''aclnn'' @ ?t))"
    unfolding aclnn_pattern_def rests.simps(3) list.map
    by (rule cat_rests_step, rule 1, rule cat_rests_step, rule 2, rule cat_rests_step, rule rests_Rep_self,
        rule cat_rests_step, rule rests_Rep_self, rule cat_rests_step, rule 3) simp
  then show ?thesis by (metis empty_iff empty_set)
qed

lemma word_search_append:
  "rests r s \<noteq> [] \<Longrightarrow> (if pre = [] then \<not> prev else \<not> is_word (last pre)) \<Longrightarrow> word_search r prev (pre @ s)"
proof (induction pre arbitrary: prev)
  case Nil
  then show ?case by (cases s) simp_all
qed (simp split: if_splits)

text \<open>A line that spells out a call of a built-in operator.\<close>

definition spells_call :: "string \<Rightarrow> bool" where
  "spells_call line \<longleftrightarrow> (\<exists>pre a post. line = pre @ ''aclnn'' @ a @ CHR ''('' # post \<and> a \<in> set aclnn_operators
     \<and> plain line \<and> hd (strip line) \<noteq> CHR ''*'' \<and> (pre = [] \<or> \<not> is_word (last pre)))"

lemma strip_keeps:
  assumes "c \<in> set s" and "\<not> is_space c"
  shows "c \<in> set (strip s)"
proof -
  have keep: "c \<in> set t \<Longrightarrow> c \<in> set (dropWhile is_space t)" for t
    using assms(2) by (induction t) auto
  show ?thesis unfolding strip_def rstrip_def lstrip_def using keep [of s] keep [of "rev (dropWhile is_space s)"] assms(1) by simp
qed

lemma scan_hits_call:
  assumes "spells_call line"
  shows "scan_hits k line \<noteq> []"
proof -
  obtain pre a post where line: "line = pre @ ''aclnn'' @ a @ CHR ''('' # post" "a \<in> set aclnn_operators" "plain line"
    "hd (strip line) \<noteq> CHR ''*''" "pre = [] \<or> \<not> is_word (last pre)" using assms unfolding spells_call_def by blast
  have s: "sanitize_line line = line" unfolding sanitize_line_def by (rule sanitize_plain [OF line(3)])
  have "CHR ''('' \<in> set (strip line)" by (rule strip_keeps) (simp_all add: line(1) is_space_def)
  then obtain c cs where strip: "strip line = c # cs" by (cases "strip line") auto
  have "set (strip line) \<subseteq> set line" unfolding strip_def rstrip_def lstrip_def by (auto dest!: set_dropWhileD)
  then have "c \<noteq> CHR ''#'' \<and> c \<noteq> CHR ''/'' \<and> c \<noteq> CHR ''*''" using line(3,4) strip unfolding plain_def by auto
  then have "scan_line line" unfolding scan_line_def Let_def strip by auto
  moreover have "word_search aclnn_pattern False line"
    unfolding line(1) by (rule word_search_append) (use aclnn_found [OF line(2)] line(5) in auto)
  ultimately show ?thesis unfolding scan_hits_def s strip by (simp add: forbidden_patterns_def)
qed

lemma ascendc_dsls:
  "resolve_dsl_name ''ascendc'' = Some ''ascendc''" "resolve_dsl_name ''ascendc_catlass'' = Some ''ascendc_catlass''"
  "static_check_via_python_ast ''ascendc''" "static_check_via_python_ast ''ascendc_catlass''"
  by code_simp+


text \<open>A line that starts with an asterisk is taken for a comment, so a call behind a store through a pointer is not seen.\<close>

lemma starred_line_unseen: "hd (strip line) = CHR ''*'' \<Longrightarrow> scan_hits k line = []"
  by (cases "strip line") (auto simp: scan_hits_def scan_line_def)

subsection \<open>Concrete files\<close>

definition demo_forward :: "node list \<Rightarrow> node" where
  "demo_forward rest = FunctionDef ''forward'' (Call 9 (Subscript (Name ''k'') (Name ''grid'')) [Name ''x''] # rest) [] []"

definition demo_module :: node where
  "demo_module = Other [FunctionDef ''k'' [] [Attribute (Name ''triton'') ''jit''] [],
     ClassDef ''ModelNew'' [] [demo_forward [Call 10 (Attribute (Name ''torch'') ''empty_like'') [Name ''x'']]] []]"

definition demo_lint :: "node \<Rightarrow> lint_env" where
  "demo_lint tree = \<lparr>le_parse = (\<lambda>_. Inr tree), le_compile = (\<lambda>_. Compiled), le_module = (\<lambda>_. True), le_tokens = (\<lambda>_. Some [])\<rparr>"

definition demo_checker :: checker where
  "demo_checker = code_checker ''triton_ascend'' [] ''kernel.py''"

lemma demo_passes: "check (demo_lint demo_module) demo_checker ''code'' = (True, [])"
  by code_simp

lemma demo_forward_found:
  "find_model_new_class demo_module = Some (ClassDef ''ModelNew'' [] [demo_forward [Call 10 (Attribute (Name ''torch'') ''empty_like'') [Name ''x'']]] [])"
  "find_forward (ClassDef ''ModelNew'' [] [demo_forward rest] []) = Some (demo_forward rest)"
  by (simp_all add: find_model_new_class_def ast_walk_def demo_module_def demo_forward_def is_model_new_def find_forward_def is_forward_def)

theorem kernel_gate_sound_witness:
  "triton_used demo_module (decorated_functions demo_module (is_triton_decorator (collect_import_aliases demo_module))) \<noteq> []
     \<and> ''empty_like'' \<notin> set torch_compute_ops_hard"
proof -
  have "fst (check (demo_lint demo_module) demo_checker ''code'')" "triton_check \<in> set kernel_checks"
    "kc_applies triton_check (cc_dsl demo_checker)" "resolve_dsl_name (cc_dsl demo_checker) \<noteq> None" "is_python_source (basename (cc_source_path demo_checker))"
    by (simp add: demo_passes, simp add: kernel_checks_def, code_simp, code_simp, code_simp)
  from kernel_gate_sound [OF this] obtain tree kernels where t: "le_parse (demo_lint demo_module) ''code'' = Inr tree"
      "kernels = kc_find_kernels triton_check tree (collect_import_aliases tree)" "kc_find_used triton_check tree kernels \<noteq> []"
    and f: "\<forall>cls fwd m. find_model_new_class tree = Some cls \<and> find_forward cls = Some fwd \<and> subnode m fwd \<longrightarrow>
         (case m of MatMult _ _ _ \<Rightarrow> False
          | Call _ (Attribute v a) _ \<Rightarrow> (case dotted_name (Attribute v a) of
                Some name \<Rightarrow> match_torch_call_prefix name = None \<or> a \<notin> set torch_compute_ops_hard | None \<Rightarrow> True)
          | _ \<Rightarrow> True)" by blast
  have tree: "tree = demo_module" using t(1) by (simp add: demo_lint_def)
  let ?call = "Call 10 (Attribute (Name ''torch'') ''empty_like'') [Name ''x'']"
  have "subnode ?call (demo_forward [?call])" by (rule below [OF _ here]) (simp add: demo_forward_def)
  with f tree demo_forward_found have "match_torch_call_prefix ''torch.empty_like'' = None \<or> ''empty_like'' \<notin> set torch_compute_ops_hard" by fastforce
  moreover have "match_torch_call_prefix ''torch.empty_like'' \<noteq> None" by code_simp
  ultimately show ?thesis using t(2,3) by (simp add: tree triton_check_def)
qed

definition demo_edit_config :: TaskConfig where
  "demo_edit_config = \<lparr>cf_name = PStr ''op'', cf_description = PStr [], cf_arch = PStr [], cf_editable_files = [PStr ''kernel.py''],
     cf_ref_file = PStr ''reference.py'', cf_data_files = [], cf_eval_timeout = PInt 60, cf_num_cases = 1,
     cf_primary_metric = PStr ''latency_us'', cf_lower_is_better = PBool True, cf_improvement_threshold = PFloat (Fin 0), cf_constraints = [],
     cf_smoke_test_script = PNone, cf_smoke_test_timeout = PInt 10, cf_code_checker_enabled = True, cf_max_rounds = PInt 30,
     cf_devices = [0], cf_worker_urls = [], cf_dsl_config = fmempty\<rparr>"

definition demo_edit :: check_env where
  "demo_edit = \<lparr>qe_diff = Inr \<lparr>gd_returncode = 0, gd_stdout = ''+x'', gd_stderr = []\<rparr>, qe_dsl = ''triton_ascend'', qe_exists = (\<lambda>_. True),
     qe_code_ok = (\<lambda>f. Inr (run_codechecker (demo_lint demo_module) ''triton_ascend'' ''code'' f)), qe_smoke = SmokeExit 0\<rparr>"


definition demo_decoy :: "node list \<Rightarrow> node" where
  "demo_decoy cheat = Other [FunctionDef ''k'' [] [Attribute (Name ''triton'') ''jit''] [], ClassDef ''ModelNew'' [] [demo_forward []] [],
     ClassDef ''ModelNew'' [] [FunctionDef ''forward'' cheat [] []] []]"

theorem decoy_class_passes_witness:
  "check (demo_lint (demo_decoy [MatMult 14 (Name ''x'') (Name ''y'')])) (code_checker ''triton_ascend'' [] ''kernel.py'') ''code'' = (True, [])"
proof -
  have "preorder (demo_forward []) = [demo_forward [], Call 9 (Subscript (Name ''k'') (Name ''grid'')) [Name ''x''],
      Subscript (Name ''k'') (Name ''grid''), Name ''k'', Name ''grid'', Name ''x'']"
    by (simp add: preorder.simps demo_forward_def)
  then have "delegates_nothing None (demo_forward [])"
    unfolding delegates_nothing_def preorder_subnode [symmetric] by (auto simp: demo_forward_def hard_use_def torch_call_def)
  moreover have "python_errors (demo_lint (demo_decoy [MatMult 14 (Name ''x'') (Name ''y'')])) (code_checker ''triton_ascend'' [] ''kernel.py'') ''code'' = []"
    by code_simp
  moreover have "rx_search autotune_pattern ''code'' = None" "strip ''code'' \<noteq> []" by code_simp+
  ultimately show ?thesis
    by (intro decoy_class_passes) (simp_all add: demo_lint_def demo_decoy_def demo_forward_def)
qed


end
