(* ===== verification/Process_Tree.thy ===== *)
theory Process_Tree
  imports Py_Text "HOL-Library.AList"
begin

text \<open>
  \<open>utils/process_utils.py\<close> (below \<open>src/op_autoresearch\<close>) on Linux: the groups of evaluation processes, how they are ended, and
  the registry from which a successor finds what a dead worker left behind. The operating system is a clock,
  a process table and the signals that were asked for; what a sleep and a signal do to the table is the environment's.
\<close>

subsection \<open>Processes\<close>

datatype signal = SIGTERM | SIGKILL

datatype os_error = ProcessLookupError | PermissionError

record proc =
  pr_start :: string
  pr_group :: int
  pr_zombie :: bool

record os =
  os_now :: real
  os_procs :: "(int \<times> proc) list"
  os_sent :: "(int \<times> signal) list"

record os_env =
  oe_self :: int
  oe_denied :: "int \<Rightarrow> bool"
  oe_slept :: "real \<Rightarrow> os \<Rightarrow> real"
  oe_elapse :: "real \<Rightarrow> os \<Rightarrow> (int \<times> proc) list"
  oe_deliver :: "int \<Rightarrow> signal \<Rightarrow> (int \<times> proc) list \<Rightarrow> (int \<times> proc) list"

text \<open>A sleep takes at least the time that was asked for.\<close>

definition sleep :: "os_env \<Rightarrow> real \<Rightarrow> os \<Rightarrow> os" where
  "sleep env dt s = s\<lparr>os_now := os_now s + max dt (oe_slept env dt s), os_procs := oe_elapse env dt s\<rparr>"

definition process_start_token :: "os \<Rightarrow> int \<Rightarrow> string option" where
  "process_start_token s pid = map_option pr_start (map_of (os_procs s) pid)"

text \<open>Zombies do not count here.\<close>

definition group_alive :: "os \<Rightarrow> int \<Rightarrow> bool" where
  "group_alive s g = list_ex (\<lambda>(p, r). pr_group r = g \<and> \<not> pr_zombie r) (os_procs s)"

definition has_members :: "os \<Rightarrow> int \<Rightarrow> bool" where
  "has_members s g = list_ex (\<lambda>(p, r). pr_group r = g) (os_procs s)"

text \<open>Group 0 is the caller's own.\<close>

definition signal_target :: "os_env \<Rightarrow> os \<Rightarrow> int \<Rightarrow> int" where
  "signal_target env s g = (if g = 0 then (case map_of (os_procs s) (oe_self env) of Some r \<Rightarrow> pr_group r | None \<Rightarrow> 0) else g)"

definition killpg :: "os_env \<Rightarrow> int \<Rightarrow> signal \<Rightarrow> os \<Rightarrow> os_error + os" where
  "killpg env g sg s = (let t = signal_target env s g
     in if \<not> has_members s t then Inl ProcessLookupError
        else if oe_denied env t then Inl PermissionError
        else Inr (s\<lparr>os_procs := oe_deliver env t sg (os_procs s), os_sent := os_sent s @ [(g, sg)]\<rparr>))"

text \<open>\<open>poll()\<close> of the child: a zombie is reaped.\<close>

definition poll_child :: "int \<Rightarrow> os \<Rightarrow> os" where
  "poll_child pid s = s\<lparr>os_procs := filter (\<lambda>(p, r). \<not> (p = pid \<and> pr_zombie r)) (os_procs s)\<rparr>"

definition process_tree_alive :: "os_env \<Rightarrow> int \<Rightarrow> os \<Rightarrow> bool" where
  "process_tree_alive env pid s = has_members s (signal_target env s pid)"

subsection \<open>Waiting\<close>

text \<open>The time that is left, in steps of a twentieth of a second.\<close>

definition steps_left :: "real \<Rightarrow> os \<Rightarrow> nat" where
  "steps_left deadline s = nat \<lceil>20 * (deadline - os_now s)\<rceil>"

lemma steps_left_sleep:
  assumes "os_now s < deadline" and "min (1 / 20) (deadline - os_now s) \<le> dt"
  shows "steps_left deadline (sleep env dt s) < steps_left deadline s"
proof -
  have "20 * (deadline - os_now (sleep env dt s)) \<le> max 0 (20 * (deadline - os_now s) - 1)"
    using assms(2) by (auto simp: sleep_def)
  then have "\<lceil>20 * (deadline - os_now (sleep env dt s))\<rceil> \<le> max 0 (\<lceil>20 * (deadline - os_now s)\<rceil> - 1)"
    by linarith
  moreover have "0 < \<lceil>20 * (deadline - os_now s)\<rceil>" using assms(1) by simp
  ultimately show ?thesis unfolding steps_left_def by linarith
qed

function settle_group :: "os_env \<Rightarrow> int \<Rightarrow> real \<Rightarrow> os \<Rightarrow> os" where
  "settle_group env g deadline s =
     (if group_alive s g \<and> os_now s < deadline then settle_group env g deadline (sleep env (1 / 20) s) else s)"
  by pat_completeness auto
termination
proof (relation "measure (\<lambda>(env, g, deadline, s). steps_left deadline s)", goal_cases)
  case (2 env g deadline s)
  then show ?case using steps_left_sleep [OF _ min.cobounded1, of s deadline env] by simp
qed simp

declare settle_group.simps [simp del]

text \<open>The wait for a whole tree; the synchronous one polls the child at each round.\<close>

function wait_tree :: "bool \<Rightarrow> os_env \<Rightarrow> int \<Rightarrow> real \<Rightarrow> os \<Rightarrow> bool \<times> os" where
  "wait_tree polls env pid deadline s =
     (if process_tree_alive env pid s
      then let s1 = (if polls then poll_child pid s else s); remaining = deadline - os_now s1
           in if remaining \<le> 0 then (False, s1) else wait_tree polls env pid deadline (sleep env (min (1 / 20) remaining) s1)
      else (True, poll_child pid s))"
  by pat_completeness auto
termination
proof (relation "measure (\<lambda>(polls, env, pid, deadline, s). steps_left deadline s)", goal_cases)
  case (2 polls env pid deadline s s1 remaining)
  then have "os_now s1 = os_now s" by (simp add: poll_child_def)
  then have "steps_left deadline s1 = steps_left deadline s" by (simp add: steps_left_def)
  then show ?case using 2 steps_left_sleep [of s1 deadline "min (1 / 20) remaining" env] by simp
qed simp

declare wait_tree.simps [simp del]

definition wait_process_tree :: "os_env \<Rightarrow> int \<Rightarrow> real \<Rightarrow> os \<Rightarrow> bool \<times> os" where
  "wait_process_tree env pid timeout s = wait_tree True env pid (os_now s + max 0 timeout) s"

definition wait_process_tree_async :: "os_env \<Rightarrow> int \<Rightarrow> real \<Rightarrow> os \<Rightarrow> bool \<times> os" where
  "wait_process_tree_async env pid timeout s = wait_tree False env pid (os_now s + max 0 timeout) s"

subsection \<open>Ending a tree\<close>

definition kill_process_tree :: "os_env \<Rightarrow> int \<Rightarrow> bool \<Rightarrow> os \<Rightarrow> os_error + os" where
  "kill_process_tree env pid force s = (case killpg env pid (if force then SIGKILL else SIGTERM) s of
      Inl ProcessLookupError \<Rightarrow> Inr s | r \<Rightarrow> r)"

text \<open>Terminate, wait, kill, wait; whether the tree is gone, and the state, also where signalling raises.\<close>

definition terminate_with :: "(os_env \<Rightarrow> int \<Rightarrow> real \<Rightarrow> os \<Rightarrow> bool \<times> os) \<Rightarrow> os_env \<Rightarrow> int \<Rightarrow> real \<Rightarrow> os \<Rightarrow> (os_error + bool) \<times> os" where
  "terminate_with waits env pid grace s = (case kill_process_tree env pid False s of
      Inl e \<Rightarrow> (Inl e, s)
    | Inr s1 \<Rightarrow> (case waits env pid grace s1 of
          (True, s2) \<Rightarrow> (Inr True, s2)
        | (False, s2) \<Rightarrow> (case kill_process_tree env pid True s2 of
              Inl e \<Rightarrow> (Inl e, s2)
            | Inr s3 \<Rightarrow> (case waits env pid (if 0 < grace then grace else 1) s3 of (gone, s4) \<Rightarrow> (Inr gone, s4)))))"

definition terminate_process_tree :: "os_env \<Rightarrow> int \<Rightarrow> real \<Rightarrow> os \<Rightarrow> (os_error + bool) \<times> os" where
  "terminate_process_tree = terminate_with wait_process_tree"

subsection \<open>The registry\<close>

datatype registry_file = Unreadable | Malformed | Groups "(string \<times> pyval) list"

definition load_registry :: "registry_file \<Rightarrow> (string \<times> pyval) list" where
  "load_registry f = (case f of Groups gs \<Rightarrow> gs | _ \<Rightarrow> [])"

definition token_value :: "string option \<Rightarrow> pyval" where
  "token_value t = (case t of None \<Rightarrow> PNone | Some s \<Rightarrow> PStr s)"

definition group_record :: "os_env \<Rightarrow> real \<Rightarrow> int \<Rightarrow> string \<Rightarrow> string \<Rightarrow> pyval" where
  "group_record env wall pid token owner_token = PDict (fmap_of_list [(''pgid'', PInt pid), (''start_token'', PStr token),
     (''owner_pid'', PInt (oe_self env)), (''owner_start_token'', PStr owner_token), (''registered_at'', PFloat (Fin wall))])"

text \<open>The flag says whether the environment names a registry.\<close>

definition register_process_group :: "bool \<Rightarrow> os_env \<Rightarrow> real \<Rightarrow> int \<Rightarrow> os \<Rightarrow> registry_file \<Rightarrow> registry_file" where
  "register_process_group on env wall pid s f =
     (if \<not> on \<or> pid \<le> 0 then f
      else case (process_start_token s pid, process_start_token s (oe_self env)) of
          (Some token, Some owner) \<Rightarrow> Groups (AList.update (int_str pid) (group_record env wall pid token owner) (load_registry f))
        | _ \<Rightarrow> f)"

definition unregister_process_group :: "bool \<Rightarrow> int \<Rightarrow> os \<Rightarrow> registry_file \<Rightarrow> registry_file" where
  "unregister_process_group on pid s f =
     (if \<not> on \<or> pid \<le> 0 then f
      else let gs = load_registry f; here = map_of gs (int_str pid); token = process_start_token s pid
           in if (case here of Some (PDict d) \<Rightarrow> py_eq (dget d ''start_token'') (token_value token) | _ \<Rightarrow> False)
                \<or> (case here of None \<Rightarrow> False | Some v \<Rightarrow> v \<noteq> PNone) \<and> token = None
              then Groups (AList.delete (int_str pid) gs) else f)"

subsection \<open>Orphans\<close>

text \<open>Group and owner of a record; one that cannot be read is dropped.\<close>

definition read_pid :: "dict \<Rightarrow> string \<Rightarrow> int option res" where
  "read_pid d k = (case fmlookup d k of
      None \<Rightarrow> Inr None
    | Some v \<Rightarrow> (case py_int v of Inr i \<Rightarrow> Inr (Some i) | Inl e \<Rightarrow> if e = TypeError \<or> e = ValueError then Inr None else Inl e))"

definition record_pids :: "dict \<Rightarrow> (int \<times> int) option res" where
  "record_pids d = bindR (read_pid d ''pgid'') (\<lambda>g. case g of None \<Rightarrow> Inr None | Some g \<Rightarrow>
     bindR (read_pid d ''owner_pid'') (\<lambda>p. Inr (map_option (\<lambda>p. (g, p)) p)))"

text \<open>The leader's PID belongs to another generation; the owner is the one that registered the group.\<close>

definition leader_reused :: "os \<Rightarrow> int \<Rightarrow> dict \<Rightarrow> bool" where
  "leader_reused s g d = (case process_start_token s g of None \<Rightarrow> False | Some t \<Rightarrow> \<not> py_eq (PStr t) (dget d ''start_token''))"

definition owner_alive :: "os \<Rightarrow> int \<Rightarrow> dict \<Rightarrow> bool" where
  "owner_alive s p d = py_eq (token_value (process_start_token s p)) (dget d ''owner_start_token'')"

datatype reap_verdict = Dropped | Kept | Reaped int

definition end_group :: "os_env \<Rightarrow> real \<Rightarrow> int \<Rightarrow> os \<Rightarrow> os \<times> reap_verdict" where
  "end_group env grace g s = (case killpg env g SIGTERM s of
      Inl ProcessLookupError \<Rightarrow> (s, Dropped)
    | Inl PermissionError \<Rightarrow> (s, Kept)
    | Inr s1 \<Rightarrow>
        (let s2 = settle_group env g (os_now s1 + grace) s1
         in if \<not> group_alive s2 g then (s2, Reaped g)
            else case killpg env g SIGKILL s2 of
                Inl ProcessLookupError \<Rightarrow> (s2, Dropped)
              | Inl PermissionError \<Rightarrow> (s2, Kept)
              | Inr s3 \<Rightarrow> (let s4 = settle_group env g (os_now s3 + max grace 1) s3 in (s4, if group_alive s4 g then Kept else Reaped g))))"

definition reap_record :: "os_env \<Rightarrow> real \<Rightarrow> os \<Rightarrow> pyval \<Rightarrow> (os \<times> reap_verdict) res" where
  "reap_record env grace s v = (case v of
      PDict d \<Rightarrow> bindR (record_pids d) (\<lambda>ids. Inr (case ids of
          None \<Rightarrow> (s, Dropped)
        | Some (g, p) \<Rightarrow>
            if leader_reused s g d then (s, Dropped)
            else if owner_alive s p d then (s, Kept)
            else if \<not> group_alive s g then (s, Dropped) else end_group env grace g s))
    | _ \<Rightarrow> Inr (s, Dropped))"

fun reap_groups :: "os_env \<Rightarrow> real \<Rightarrow> os \<Rightarrow> (string \<times> pyval) list \<Rightarrow> (os \<times> (string \<times> pyval) list \<times> int list) res" where
  "reap_groups env grace s [] = Inr (s, [], [])"
| "reap_groups env grace s ((k, v) # gs) =
     bindR (reap_record env grace s v) (\<lambda>(s1, verdict). bindR (reap_groups env grace s1 gs) (\<lambda>(s2, survivors, reaped).
       Inr (s2, (if verdict = Kept then (k, v) # survivors else survivors), (case verdict of Reaped g \<Rightarrow> g # reaped | _ \<Rightarrow> reaped))))"

definition reap_orphaned_process_groups :: "bool \<Rightarrow> os_env \<Rightarrow> real \<Rightarrow> os \<Rightarrow> registry_file \<Rightarrow> (os \<times> registry_file \<times> int list) res" where
  "reap_orphaned_process_groups on env grace s f =
     (if \<not> on then Inr (s, f, [])
      else bindR (reap_groups env grace s (load_registry f)) (\<lambda>(s', survivors, reaped). Inr (s', Groups survivors, reaped)))"

subsection \<open>Running a command\<close>

text \<open>
  The command and its pipes: the child's PID, what \<open>communicate\<close> gives within a time, whether the
  owner has cancelled, and the return code. A \<open>communicate\<close> that runs out of time has waited for it.
\<close>

record command =
  cm_pid :: int
  cm_communicate :: "real option \<Rightarrow> os \<Rightarrow> (string \<times> string) option \<times> os"
  cm_cancelled :: "os \<Rightarrow> bool"
  cm_returncode :: "os \<Rightarrow> pyval"

text \<open>The loop of a command that can be cancelled: slices of a tenth of a second up to the deadline.\<close>

partial_function (option) capture_loop :: "command \<Rightarrow> real option \<Rightarrow> os \<Rightarrow> ((string \<times> string) option \<times> os) option" where
  "capture_loop cmd deadline s =
     (if cm_cancelled cmd s \<or> (case deadline of Some d \<Rightarrow> d - os_now s \<le> 0 | None \<Rightarrow> False) then Some (None, s)
      else (case cm_communicate cmd (Some (case deadline of Some d \<Rightarrow> min (1 / 10) (d - os_now s) | None \<Rightarrow> 1 / 10)) s of
          (Some out, s1) \<Rightarrow> Some (Some out, s1)
        | (None, s1) \<Rightarrow> capture_loop cmd deadline s1))"

record captured =
  ca_returncode :: pyval
  ca_stdout :: string
  ca_stderr :: string
  ca_killed :: bool

definition after_kill :: "os_env \<Rightarrow> command \<Rightarrow> real \<Rightarrow> real \<Rightarrow> os \<Rightarrow> (os_error + captured) \<times> os" where
  "after_kill env cmd grace drain s = (case terminate_process_tree env (cm_pid cmd) grace s of
      (Inl e, s1) \<Rightarrow> (Inl e, s1)
    | (Inr gone, s1) \<Rightarrow> (case cm_communicate cmd (Some drain) s1 of (out, s2) \<Rightarrow>
        (Inr \<lparr>ca_returncode = cm_returncode cmd s2, ca_stdout = (case out of Some (a, b) \<Rightarrow> a | None \<Rightarrow> []),
           ca_stderr = (case out of Some (a, b) \<Rightarrow> b | None \<Rightarrow> []), ca_killed = True\<rparr>, s2)))"

definition communicated :: "command \<Rightarrow> real option \<Rightarrow> bool \<Rightarrow> os \<Rightarrow> ((string \<times> string) option \<times> os) option" where
  "communicated cmd timeout cancellable s =
     (if cancellable then capture_loop cmd (map_option (\<lambda>t. os_now s + t) timeout) s else Some (cm_communicate cmd timeout s))"

definition run_command_capture :: "bool \<Rightarrow> os_env \<Rightarrow> real \<Rightarrow> command \<Rightarrow> real option \<Rightarrow> bool \<Rightarrow> real \<Rightarrow> real \<Rightarrow> os \<Rightarrow> registry_file
    \<Rightarrow> ((os_error + captured) \<times> os \<times> registry_file) option" where
  "run_command_capture on env wall cmd timeout cancellable grace drain s f =
     (let f1 = register_process_group on env wall (cm_pid cmd) s f
      in map_option (\<lambda>(out, s1).
           (case (case out of
                Some (a, b) \<Rightarrow> (Inr \<lparr>ca_returncode = cm_returncode cmd s1, ca_stdout = a, ca_stderr = b, ca_killed = False\<rparr>, s1)
              | None \<Rightarrow> after_kill env cmd grace drain s1) of
              (r, s2) \<Rightarrow> (r, s2, unregister_process_group on (cm_pid cmd) s2 f1)))
         (communicated cmd timeout cancellable s))"

text \<open>The asynchronous twin: how the wait for the output ended, and what the caller gets.\<close>

datatype waited = Completed string string | TimedOut | CancelledWait

datatype communicate_end = Output string string bool | CancelledError

definition communicate_or_kill :: "bool \<Rightarrow> os_env \<Rightarrow> real \<Rightarrow> int \<Rightarrow> (os \<Rightarrow> waited \<times> os) \<Rightarrow> real \<Rightarrow> os \<Rightarrow> registry_file
    \<Rightarrow> (os_error + communicate_end) \<times> os \<times> registry_file" where
  "communicate_or_kill on env wall pid wait_for grace s f =
     (let f1 = register_process_group on env wall pid s f
      in case (case wait_for s of
           (Completed a b, s1) \<Rightarrow> (Inr (Output a b False), s1)
         | (w, s1) \<Rightarrow> (case terminate_with wait_process_tree_async env pid grace s1 of
               (Inl e, s2) \<Rightarrow> (Inl e, s2)
             | (Inr gone, s2) \<Rightarrow> (Inr (if w = CancelledWait then CancelledError else Output [] [] True), s2))) of
         (r, s2) \<Rightarrow> (r, s2, unregister_process_group on pid s2 f1))"

end
