(* ===== verification/Process_Facts.thy ===== *)
theory Process_Facts
  imports Process_Tree
begin

text \<open>
  What \<open>Process_Tree\<close> does to processes: the successor of a dead worker spares groups whose owner lives and forgets
  none that runs, ending a tree leaves it gone or both signals sent, and a command that is captured comes back
  with its registration undone.
\<close>

subsection \<open>Orphans\<close>

text \<open>The states that sleeping, and signalling some groups, lead to; and the groups a registry names.\<close>

inductive evolves :: "os_env \<Rightarrow> int set \<Rightarrow> os \<Rightarrow> os \<Rightarrow> bool" for env G where
  at_once: "evolves env G s s"
| slept: "evolves env G s s1 \<Longrightarrow> evolves env G s (sleep env dt s1)"
| signalled: "evolves env G s s1 \<Longrightarrow> killpg env g sg s1 = Inr s2 \<Longrightarrow> g \<in> G \<Longrightarrow> evolves env G s s2"

definition recorded :: "(string \<times> pyval) list \<Rightarrow> int set" where
  "recorded gs = {g. \<exists>k d p. (k, PDict d) \<in> set gs \<and> record_pids d = Inr (Some (g, p))}"

lemma evolves_after: "evolves env G s1 s2 \<Longrightarrow> evolves env G s s1 \<Longrightarrow> evolves env G s s2"
  by (induction rule: evolves.induct) (auto intro: evolves.intros)

lemma settle_evolves: "evolves env G s (settle_group env g d s)"
proof (induction env g d s rule: settle_group.induct)
  case (1 env g d s)
  have "evolves env G s (sleep env (1 / 20) s)" by (rule slept [OF at_once])
  then show ?case using 1 evolves_after [of env G "sleep env (1 / 20) s"] by (subst settle_group.simps) (auto intro: at_once)
qed

lemma settle_sent: "os_sent (settle_group env g d s) = os_sent s"
proof (induction env g d s rule: settle_group.induct)
  case (1 env g d s)
  then show ?case by (subst settle_group.simps) (simp add: sleep_def)
qed

lemma killpg_sent: "killpg env g sg s = Inr s1 \<Longrightarrow> os_sent s1 = os_sent s @ [(g, sg)]"
  by (auto simp: killpg_def Let_def split: if_splits)

lemma killpg_gone: "killpg env g sg s = Inl ProcessLookupError \<Longrightarrow> \<not> has_members s (signal_target env s g)"
  by (auto simp: killpg_def Let_def split: if_splits)

text \<open>When a group was given up, it had no live member or nobody to signal.\<close>

definition vanished :: "os_env \<Rightarrow> int \<Rightarrow> os \<Rightarrow> bool" where
  "vanished env g s \<longleftrightarrow> \<not> group_alive s g \<or> \<not> has_members s (signal_target env s g)"

lemma end_group_facts:
  assumes "end_group env grace g s = (s', verdict)" and "g \<in> G"
  shows "evolves env G s s'" and "\<exists>sigs. os_sent s' = os_sent s @ sigs \<and> fst ` set sigs \<subseteq> {g}"
    and "verdict = Kept \<or> (\<exists>s1. evolves env G s s1 \<and> evolves env G s1 s' \<and> vanished env g s1)"
proof -
  have *: "evolves env G s s' \<and> (\<exists>sigs. os_sent s' = os_sent s @ sigs \<and> fst ` set sigs \<subseteq> {g}) \<and> (verdict = Kept \<or> vanished env g s')"
  proof (cases "killpg env g SIGTERM s")
    case (Inl e)
    then show ?thesis using assms(1) killpg_gone [of env g SIGTERM s] by (cases e) (auto simp: end_group_def vanished_def intro: at_once)
  next
    case (Inr s1)
    define s2 where "s2 = settle_group env g (os_now s1 + grace) s1"
    have e2: "evolves env G s s2" unfolding s2_def by (rule evolves_after [OF settle_evolves signalled [OF at_once Inr assms(2)]])
    have o2: "os_sent s2 = os_sent s @ [(g, SIGTERM)]" unfolding s2_def by (simp add: settle_sent killpg_sent [OF Inr])
    show ?thesis
    proof (cases "group_alive s2 g")
      case False
      then show ?thesis using assms(1) Inr e2 o2 by (auto simp: end_group_def Let_def vanished_def s2_def [symmetric])
    next
      case alive: True
      show ?thesis
      proof (cases "killpg env g SIGKILL s2")
        case (Inl e)
        then show ?thesis using assms(1) Inr e2 o2 alive killpg_gone [of env g SIGKILL s2]
          by (cases e) (auto simp: end_group_def Let_def vanished_def s2_def [symmetric])
      next
        case (Inr s3)
        let ?s4 = "settle_group env g (os_now s3 + max grace 1) s3"
        have "evolves env G s ?s4" by (rule evolves_after [OF settle_evolves signalled [OF e2 Inr assms(2)]])
        moreover have "os_sent ?s4 = os_sent s @ [(g, SIGTERM), (g, SIGKILL)]" by (simp add: settle_sent killpg_sent [OF Inr] o2)
        moreover have "s' = ?s4 \<and> verdict = (if group_alive ?s4 g then Kept else Reaped g)"
          using assms(1) \<open>killpg env g SIGTERM s = Inr s1\<close> alive Inr by (auto simp: end_group_def Let_def s2_def [symmetric])
        ultimately show ?thesis by (auto simp: vanished_def)
      qed
    qed
  qed
  from * show "evolves env G s s'" and "\<exists>sigs. os_sent s' = os_sent s @ sigs \<and> fst ` set sigs \<subseteq> {g}" by blast+
  from * show "verdict = Kept \<or> (\<exists>s1. evolves env G s s1 \<and> evolves env G s1 s' \<and> vanished env g s1)" using at_once by blast
qed

lemma reap_record_facts:
  assumes "reap_record env grace s v = Inr (s', verdict)" and "recorded [(k, v)] \<subseteq> G"
  shows "evolves env G s s'"
    and "\<exists>sigs. os_sent s' = os_sent s @ sigs \<and> (\<forall>(g, sg)\<in>set sigs. \<exists>d p. v = PDict d \<and> record_pids d = Inr (Some (g, p))
           \<and> \<not> leader_reused s g d \<and> \<not> owner_alive s p d)"
    and "v = PDict d \<Longrightarrow> record_pids d = Inr (Some (g, p)) \<Longrightarrow>
           verdict = Kept \<or> leader_reused s g d \<or> (\<exists>s1. evolves env G s s1 \<and> evolves env G s1 s' \<and> vanished env g s1)"
    and "v = PDict d \<Longrightarrow> record_pids d = Inr (Some (g, p)) \<Longrightarrow> \<not> leader_reused s g d \<Longrightarrow> owner_alive s p d \<Longrightarrow> verdict = Kept"
proof -
  have G: "g \<in> G" if "v = PDict d" "record_pids d = Inr (Some (g, p))" for d g p using assms(2) that unfolding recorded_def by auto
  have plain: "s' = s \<or> (\<exists>d g p. v = PDict d \<and> record_pids d = Inr (Some (g, p)) \<and> \<not> leader_reused s g d \<and> \<not> owner_alive s p d
      \<and> end_group env grace g s = (s', verdict))"
    using assms(1) by (auto simp: reap_record_def split: pyval.splits option.splits if_splits)
  then show "evolves env G s s'" using at_once end_group_facts(1) G by blast
  from plain show "\<exists>sigs. os_sent s' = os_sent s @ sigs \<and> (\<forall>(g, sg)\<in>set sigs. \<exists>d p. v = PDict d \<and> record_pids d = Inr (Some (g, p))
           \<and> \<not> leader_reused s g d \<and> \<not> owner_alive s p d)"
  proof (elim disjE exE conjE)
    fix d g p
    assume d: "v = PDict d" "record_pids d = Inr (Some (g, p))" "\<not> leader_reused s g d" "\<not> owner_alive s p d"
      and "end_group env grace g s = (s', verdict)"
    from end_group_facts(2) [OF this(5) G [OF d(1,2)]] obtain sigs where "os_sent s' = os_sent s @ sigs" "fst ` set sigs \<subseteq> {g}" by blast
    with d show ?thesis by (intro exI [of _ sigs]) auto
  qed simp
  show "verdict = Kept \<or> leader_reused s g d \<or> (\<exists>s1. evolves env G s s1 \<and> evolves env G s1 s' \<and> vanished env g s1)"
    if "v = PDict d" "record_pids d = Inr (Some (g, p))"
  proof -
    have "verdict = Kept \<or> leader_reused s g d \<or> s' = s \<and> \<not> group_alive s g \<or> end_group env grace g s = (s', verdict)"
      using assms(1) that by (auto simp: reap_record_def split: if_splits)
    then show ?thesis
    proof (elim disjE conjE)
      assume "s' = s" "\<not> group_alive s g"
      then show ?thesis using at_once by (auto simp: vanished_def)
    qed (simp_all, use end_group_facts(3) [OF _ G [OF that]] in blast)
  qed
  show "v = PDict d \<Longrightarrow> record_pids d = Inr (Some (g, p)) \<Longrightarrow> \<not> leader_reused s g d \<Longrightarrow> owner_alive s p d \<Longrightarrow> verdict = Kept"
    using assms(1) by (simp add: reap_record_def)
qed

lemma reap_Cons:
  assumes "reap_groups env grace s ((k, v) # gs) = Inr (s', survivors, reaped)"
  obtains s1 verdict rest more where "reap_record env grace s v = Inr (s1, verdict)" "reap_groups env grace s1 gs = Inr (s', rest, more)"
    "survivors = (if verdict = Kept then (k, v) # rest else rest)"
  using assms by (auto split: prod.splits)

lemma recorded_one: "record_pids d = Inr (Some (g, p)) \<Longrightarrow> recorded [(k, PDict d)] = {g}"
  by (auto simp: recorded_def)

lemma recorded_Cons: "recorded (kv # gs) = recorded [kv] \<union> recorded gs"
  by (cases kv) (auto simp: recorded_def)

lemma reap_evolves: "reap_groups env grace s gs = Inr (s', survivors, reaped) \<Longrightarrow> recorded gs \<subseteq> G \<Longrightarrow> evolves env G s s'"
proof (induction gs arbitrary: s survivors reaped)
  case (Cons kv gs)
  obtain k v where kv: "kv = (k, v)" by (cases kv)
  have G: "recorded [(k, v)] \<subseteq> G" "recorded gs \<subseteq> G" using Cons.prems(2) recorded_Cons [of kv gs] kv by auto
  from Cons.prems(1) [unfolded kv] show ?case
  proof (rule reap_Cons)
    fix s1 verdict rest more
    assume "reap_record env grace s v = Inr (s1, verdict)" "reap_groups env grace s1 gs = Inr (s', rest, more)"
    then show ?thesis using Cons.IH [OF _ G(2)] reap_record_facts(1) [OF _ G(1)] evolves_after by blast
  qed
qed (simp add: at_once)

text \<open>A signal is meant for a group whose record, at that moment, had no living owner and no other leader.\<close>

definition orphan_signalled :: "os_env \<Rightarrow> int set \<Rightarrow> os \<Rightarrow> (string \<times> pyval) list \<Rightarrow> int \<Rightarrow> bool" where
  "orphan_signalled env G s gs g \<longleftrightarrow> (\<exists>k d p s1. (k, PDict d) \<in> set gs \<and> record_pids d = Inr (Some (g, p)) \<and> evolves env G s s1
     \<and> \<not> leader_reused s1 g d \<and> \<not> owner_alive s1 p d)"

lemma reap_signals:
  "reap_groups env grace s gs = Inr (s', survivors, reaped) \<Longrightarrow> recorded gs \<subseteq> G \<Longrightarrow>
     \<exists>sigs. os_sent s' = os_sent s @ sigs \<and> (\<forall>x\<in>set sigs. orphan_signalled env G s gs (fst x))"
proof (induction gs arbitrary: s survivors reaped)
  case (Cons kv gs)
  obtain k v where kv: "kv = (k, v)" by (cases kv)
  have G: "recorded [(k, v)] \<subseteq> G" "recorded gs \<subseteq> G" using Cons.prems(2) recorded_Cons [of kv gs] kv by auto
  from Cons.prems(1) [unfolded kv] show ?case
  proof (rule reap_Cons)
    fix s1 verdict rest more
    assume one: "reap_record env grace s v = Inr (s1, verdict)" and more: "reap_groups env grace s1 gs = Inr (s', rest, more)"
    obtain xs where xs: "os_sent s1 = os_sent s @ xs" "\<forall>(g, sg)\<in>set xs. \<exists>d p. v = PDict d \<and> record_pids d = Inr (Some (g, p))
           \<and> \<not> leader_reused s g d \<and> \<not> owner_alive s p d" using reap_record_facts(2) [OF one G(1)] by blast
    obtain ys where ys: "os_sent s' = os_sent s1 @ ys" "\<forall>x\<in>set ys. orphan_signalled env G s1 gs (fst x)" using Cons.IH [OF more G(2)] by blast
    have "\<forall>x\<in>set xs. orphan_signalled env G s (kv # gs) (fst x)"
      unfolding orphan_signalled_def kv using xs(2) at_once by fastforce
    moreover have "orphan_signalled env G s (kv # gs) g" if "orphan_signalled env G s1 gs g" for g
      using that evolves_after [OF _ reap_record_facts(1) [OF one G(1)]] unfolding orphan_signalled_def by (meson list.set_intros(2))
    ultimately show ?thesis using xs(1) ys by (intro exI [of _ "xs @ ys"]) auto
  qed
qed simp

lemma reap_keeps:
  "reap_groups env grace s gs = Inr (s', survivors, reaped) \<Longrightarrow> recorded gs \<subseteq> G \<Longrightarrow> (k, PDict d) \<in> set gs \<Longrightarrow> record_pids d = Inr (Some (g, p)) \<Longrightarrow>
     (k, PDict d) \<in> set survivors \<or> (\<exists>s1. evolves env G s s1 \<and> evolves env G s1 s' \<and> \<not> (owner_alive s1 p d \<and> \<not> leader_reused s1 g d))
       \<and> (\<exists>s1. evolves env G s s1 \<and> evolves env G s1 s' \<and> (leader_reused s1 g d \<or> vanished env g s1))"
proof (induction gs arbitrary: s survivors reaped)
  case (Cons kv gs)
  obtain k' v where kv: "kv = (k', v)" by (cases kv)
  have G: "recorded [(k', v)] \<subseteq> G" "recorded gs \<subseteq> G" using Cons.prems(2) recorded_Cons [of kv gs] kv by auto
  from Cons.prems(1) [unfolded kv] show ?case
  proof (rule reap_Cons)
    fix s1 verdict rest more
    assume one: "reap_record env grace s v = Inr (s1, verdict)" and more: "reap_groups env grace s1 gs = Inr (s', rest, more)"
      and survivors: "survivors = (if verdict = Kept then (k', v) # rest else rest)"
    note before = reap_record_facts(1) [OF one G(1)] and after = reap_evolves [OF more G(2)]
    show ?thesis
    proof (cases "(k, PDict d) = (k', v)")
      case False
      then have "(k, PDict d) \<in> set gs" using Cons.prems(3) kv by auto
      moreover have "set rest \<subseteq> set survivors" using survivors by auto
      ultimately show ?thesis using Cons.IH [OF more G(2) _ Cons.prems(4)] evolves_after [OF _ before] by blast
    next
      case True
      then have v: "v = PDict d" by simp
      show ?thesis
      proof (cases "verdict = Kept")
        case True
        then show ?thesis using survivors \<open>(k, PDict d) = (k', v)\<close> by simp
      next
        case False
        then have "leader_reused s g d \<or> (\<exists>s2. evolves env G s s2 \<and> evolves env G s2 s1 \<and> vanished env g s2)"
          and "\<not> (owner_alive s p d \<and> \<not> leader_reused s g d)"
          using reap_record_facts(3,4) [OF one G(1) v Cons.prems(4)] by blast+
        then show ?thesis using at_once evolves_after [OF after before] evolves_after [OF after] by blast
      qed
    qed
  qed
qed simp

text \<open>
  C18. A group whose owner lives is spared: if, whatever happens while the successor cleans up, every record of the group
  has a living owner or a leader of another generation, then no signal is sent to the group; and a record whose owner
  lives and whose leader is not another one all the time is still in the registry afterwards.
\<close>

theorem reap_spares_owned:
  assumes "reap_orphaned_process_groups on env grace s f = Inr (s', f', reaped)"
    and "\<forall>k d p s1. (k, PDict d) \<in> set (load_registry f) \<and> record_pids d = Inr (Some (g, p)) \<and> evolves env (recorded (load_registry f)) s s1 \<longrightarrow>
           owner_alive s1 p d \<or> leader_reused s1 g d"
  shows "(\<exists>sigs. os_sent s' = os_sent s @ sigs \<and> g \<notin> fst ` set sigs)
    \<and> (\<forall>k d p. (k, PDict d) \<in> set (load_registry f) \<and> record_pids d = Inr (Some (g, p)) \<and> (\<forall>s1. evolves env (recorded (load_registry f)) s s1 \<longrightarrow> \<not> leader_reused s1 g d)
         \<longrightarrow> (k, PDict d) \<in> set (load_registry f'))"
proof (cases on)
  case True
  then obtain survivors where run: "reap_groups env grace s (load_registry f) = Inr (s', survivors, reaped)" and f': "load_registry f' = survivors"
    using assms(1) by (auto simp: reap_orphaned_process_groups_def load_registry_def split: prod.splits)
  obtain sigs where sigs: "os_sent s' = os_sent s @ sigs" "\<forall>x\<in>set sigs. orphan_signalled env (recorded (load_registry f)) s (load_registry f) (fst x)"
    using reap_signals [OF run order_refl] by blast
  have "\<not> orphan_signalled env (recorded (load_registry f)) s (load_registry f) g" unfolding orphan_signalled_def using assms(2) by blast
  then have "g \<notin> fst ` set sigs" using sigs(2) by auto
  moreover have "(k, PDict d) \<in> set survivors"
    if "(k, PDict d) \<in> set (load_registry f)" "record_pids d = Inr (Some (g, p))" "\<forall>s1. evolves env (recorded (load_registry f)) s s1 \<longrightarrow> \<not> leader_reused s1 g d" for k d p
    using reap_keeps [OF run order_refl that(1,2)] that assms(2) by blast
  ultimately show ?thesis using sigs(1) f' by blast
next
  case False
  then show ?thesis using assms(1) by (simp add: reap_orphaned_process_groups_def)
qed

text \<open>
  No running orphan is forgotten: a record that is no longer in the registry afterwards had, at some moment in
  between, a leader of another generation, no live member in its group, or nobody there to be signalled.
\<close>

theorem no_orphan_forgotten:
  assumes "reap_orphaned_process_groups on env grace s f = Inr (s', f', reaped)"
    and "(k, PDict d) \<in> set (load_registry f)" and "record_pids d = Inr (Some (g, p))" and "(k, PDict d) \<notin> set (load_registry f')"
  shows "\<exists>s1. evolves env (recorded (load_registry f)) s s1 \<and> evolves env (recorded (load_registry f)) s1 s' \<and> (leader_reused s1 g d \<or> vanished env g s1)"
proof -
  have on using assms(1,2,4) by (auto simp: reap_orphaned_process_groups_def split: if_splits)
  then obtain survivors where run: "reap_groups env grace s (load_registry f) = Inr (s', survivors, reaped)" and f': "load_registry f' = survivors"
    using assms(1) by (auto simp: reap_orphaned_process_groups_def load_registry_def split: prod.splits)
  from reap_keeps [OF run order_refl assms(2,3)] show ?thesis using assms(4) f' by blast
qed

subsection \<open>Ending a tree\<close>

lemma wait_dead: "\<not> process_tree_alive env pid s \<Longrightarrow> wait_tree polls env pid d s = (True, poll_child pid s)"
  by (subst wait_tree.simps) simp

lemma wait_facts:
  "wait_tree polls env pid d s = (gone, s') \<Longrightarrow> 0 < pid \<Longrightarrow>
     os_sent s' = os_sent s \<and> (if gone then \<not> process_tree_alive env pid s' else d \<le> os_now s')"
proof (induction polls env pid d s rule: wait_tree.induct)
  case (1 polls env pid d s)
  let ?s1 = "if polls then poll_child pid s else s" and ?rest = "d - os_now (if polls then poll_child pid s else s)"
  have polled: "os_sent (poll_child pid s) = os_sent s" "os_now (poll_child pid s) = os_now s" by (simp_all add: poll_child_def)
  consider "\<not> process_tree_alive env pid s" | "process_tree_alive env pid s" "?rest \<le> 0" | "process_tree_alive env pid s" "\<not> ?rest \<le> 0" by blast
  then show ?case
  proof cases
    case 1
    then have "gone" "s' = poll_child pid s" using "1.prems"(1) by (simp_all add: wait_dead)
    moreover have "\<not> process_tree_alive env pid (poll_child pid s)"
      using 1 "1.prems"(2) by (auto simp: process_tree_alive_def signal_target_def has_members_def list_ex_iff poll_child_def)
    ultimately show ?thesis using polled by simp
  next
    case 2
    then have "\<not> gone \<and> s' = ?s1" using "1.prems"(1) by (subst (asm) wait_tree.simps) (simp add: Let_def)
    then show ?thesis using 2 polled by auto
  next
    case 3
    then have "wait_tree polls env pid d (sleep env (min (1 / 20) ?rest) ?s1) = (gone, s')"
      using "1.prems"(1) by (subst (asm) wait_tree.simps) (simp add: Let_def)
    with "1.IH" 3 "1.prems"(2) show ?thesis using polled by (simp add: sleep_def)
  qed
qed

lemma kill_facts:
  assumes "kill_process_tree env pid force s = Inr s1"
  shows "s1 = s \<and> \<not> process_tree_alive env pid s \<or> killpg env pid (if force then SIGKILL else SIGTERM) s = Inr s1 \<and> os_now s1 = os_now s"
  using assms by (auto simp: kill_process_tree_def killpg_def Let_def process_tree_alive_def split: if_splits sum.splits os_error.splits)

lemma terminate_facts:
  assumes "0 < pid" and "terminate_with waits env pid grace s = (r, s')" and "waits = wait_process_tree \<or> waits = wait_process_tree_async"
  shows "r = Inr True \<and> \<not> process_tree_alive env pid s'
    \<or> r = Inr False \<and> os_sent s' = os_sent s @ [(pid, SIGTERM), (pid, SIGKILL)]
        \<and> os_now s + max 0 grace + (if 0 < grace then grace else 1) \<le> os_now s'
    \<or> r = Inl PermissionError"
proof -
  obtain polls where w: "\<And>t s. waits env pid t s = wait_tree polls env pid (os_now s + max 0 t) s"
    using assms(3) by (auto simp: wait_process_tree_def wait_process_tree_async_def fun_eq_iff)
  have gone: "\<not> process_tree_alive env pid s2" if "waits env pid t s1 = (True, s2)" for t s1 s2
    using wait_facts [OF that [unfolded w] assms(1)] by simp
  have late: "process_tree_alive env pid s1 \<and> os_sent s2 = os_sent s1 \<and> os_now s1 + max 0 t \<le> os_now s2" if "waits env pid t s1 = (False, s2)" for t s1 s2
    using wait_facts [OF that [unfolded w] assms(1)] that [unfolded w] wait_dead [of env pid s1 polls "os_now s1 + max 0 t"] by auto
  show ?thesis
  proof (cases "kill_process_tree env pid False s")
    case (Inl e)
    then show ?thesis using assms(2) by (cases e) (auto simp: terminate_with_def kill_process_tree_def split: sum.splits os_error.splits)
  next
    case (Inr s1)
    obtain b s2 where first: "waits env pid grace s1 = (b, s2)" by fastforce
    show ?thesis
    proof (cases b)
      case True
      then show ?thesis using assms(2) Inr first gone by (simp add: terminate_with_def)
    next
      case False
      then have l1: "process_tree_alive env pid s1 \<and> os_sent s2 = os_sent s1 \<and> os_now s1 + max 0 grace \<le> os_now s2" using late first by simp
      have k1: "os_sent s1 = os_sent s @ [(pid, SIGTERM)]" "os_now s1 = os_now s"
        using kill_facts [OF Inr] l1 killpg_sent by auto
      show ?thesis
      proof (cases "kill_process_tree env pid True s2")
        case (Inl e)
        then show ?thesis using assms(2) Inr first False
          by (cases e) (auto simp: terminate_with_def kill_process_tree_def split: sum.splits os_error.splits)
      next
        case kill: (Inr s3)
        obtain c s4 where second: "waits env pid (if 0 < grace then grace else 1) s3 = (c, s4)" by fastforce
        have r: "r = Inr c \<and> s' = s4" using assms(2) Inr first False kill second by (simp add: terminate_with_def)
        show ?thesis
        proof (cases c)
          case True
          then show ?thesis using r gone [of "if 0 < grace then grace else 1" s3 s4] second by simp
        next
          case False
          then have l2: "process_tree_alive env pid s3 \<and> os_sent s4 = os_sent s3
            \<and> os_now s3 + max 0 (if 0 < grace then grace else 1) \<le> os_now s4"
            using late [of "if 0 < grace then grace else 1" s3 s4] second by simp
          have "os_sent s3 = os_sent s2 @ [(pid, SIGKILL)]" "os_now s3 = os_now s2" using kill_facts [OF kill] l2 killpg_sent by auto
          then have "os_sent s4 = os_sent s @ [(pid, SIGTERM), (pid, SIGKILL)]" using l1 l2 k1 by simp
          moreover have "os_now s + max 0 grace + (if 0 < grace then grace else 1) \<le> os_now s4"
            using l1 l2 k1 \<open>os_now s3 = os_now s2\<close> by (auto split: if_splits)
          ultimately show ?thesis using r False by simp
        qed
      qed
    qed
  qed
qed

text \<open>
  C19. Ending a process tree settles it: either no process of the group is left, not even a zombie; or the group was
  asked to terminate, killed, and given the full grace period each time; or signalling it is not permitted.
\<close>

theorem terminate_settles:
  assumes "0 < pid" and "terminate_process_tree env pid grace s = (r, s')"
  shows "r = Inr True \<and> \<not> process_tree_alive env pid s'
    \<or> r = Inr False \<and> os_sent s' = os_sent s @ [(pid, SIGTERM), (pid, SIGKILL)]
        \<and> os_now s + max 0 grace + (if 0 < grace then grace else 1) \<le> os_now s'
    \<or> r = Inl PermissionError"
  using terminate_facts [OF assms(1) assms(2) [unfolded terminate_process_tree_def]] by blast

subsection \<open>Running a command\<close>

text \<open>A \<open>communicate\<close> that runs out of time has waited for it.\<close>

definition waits_its_time :: "command \<Rightarrow> bool" where
  "waits_its_time cmd \<longleftrightarrow> (\<forall>w s s1. cm_communicate cmd (Some w) s = (None, s1) \<longrightarrow> os_now s + w \<le> os_now s1)"

lemma capture_loop_ends:
  assumes "waits_its_time cmd"
  shows "\<exists>r. capture_loop cmd (Some d) s = Some r"
proof (induction "nat \<lceil>10 * (d - os_now s)\<rceil>" arbitrary: s rule: less_induct)
  case less
  show ?case
  proof (cases "cm_cancelled cmd s \<or> d - os_now s \<le> 0")
    case True
    then show ?thesis by (subst capture_loop.simps) simp
  next
    case False
    obtain out s1 where c: "cm_communicate cmd (Some (min (1 / 10) (d - os_now s))) s = (out, s1)" by fastforce
    show ?thesis
    proof (cases out)
      case None
      then have "os_now s + min (1 / 10) (d - os_now s) \<le> os_now s1" using assms c unfolding waits_its_time_def by blast
      then have "10 * (d - os_now s1) \<le> max 0 (10 * (d - os_now s) - 1)" by (auto simp: min_def split: if_splits)
      then have "\<lceil>10 * (d - os_now s1)\<rceil> \<le> max 0 (\<lceil>10 * (d - os_now s)\<rceil> - 1)" by linarith
      moreover have "0 < \<lceil>10 * (d - os_now s)\<rceil>" using False by simp
      ultimately have "nat \<lceil>10 * (d - os_now s1)\<rceil> < nat \<lceil>10 * (d - os_now s)\<rceil>" by linarith
      from less [OF this] show ?thesis using False c None by (subst capture_loop.simps) simp
    next
      case (Some ab)
      then show ?thesis using False c by (subst capture_loop.simps) simp
    qed
  qed
qed

lemma own_entry_removed:
  assumes "0 < pid" and "process_start_token s pid = Some token" and "process_start_token s (oe_self env) = Some owner"
    and "process_start_token s' pid \<in> {None, Some token}"
  shows "map_of (load_registry (unregister_process_group True pid s' (register_process_group True env wall pid s f))) k
    = (if k = int_str pid then None else map_of (load_registry f) k)"
proof -
  have reg: "register_process_group True env wall pid s f = Groups (AList.update (int_str pid) (group_record env wall pid token owner) (load_registry f))"
    using assms(1-3) by (simp add: register_process_group_def)
  have "map_of (load_registry (register_process_group True env wall pid s f)) (int_str pid) = Some (group_record env wall pid token owner)"
    unfolding reg by (simp add: load_registry_def update_conv)
  then have "unregister_process_group True pid s' (register_process_group True env wall pid s f)
      = Groups (AList.delete (int_str pid) (load_registry (register_process_group True env wall pid s f)))"
    using assms(1,4) by (auto simp: unregister_process_group_def group_record_def Let_def token_value_def dget_def)
  then show ?thesis unfolding reg by (simp add: load_registry_def delete_conv update_conv)
qed

text \<open>
  C20. A command with a time limit comes back, cancelled or not, and leaves the registry as it found it: whatever the
  command did, the entry that was made for its group is gone, unless the PID belongs to another
  generation by then, and the other entries are the ones from before.
\<close>

theorem capture_returns:
  assumes "waits_its_time cmd" and "0 < cm_pid cmd" and "process_start_token s (cm_pid cmd) = Some token"
    and "process_start_token s (oe_self env) = Some owner"
  shows "\<exists>r s' f'. run_command_capture True env wall cmd (Some t) cancellable grace drain s f = Some (r, s', f')
    \<and> (process_start_token s' (cm_pid cmd) \<in> {None, Some token} \<longrightarrow>
         map_of (load_registry f') = (map_of (load_registry f))(int_str (cm_pid cmd) := None))"
proof -
  obtain out s1 where run: "communicated cmd (Some t) cancellable s = Some (out, s1)"
    using capture_loop_ends [OF assms(1), of "os_now s + t" s] by (cases cancellable; cases "cm_communicate cmd (Some t) s") (auto simp: communicated_def)
  obtain r s2 where rs: "(case out of
                Some (a, b) \<Rightarrow> (Inr \<lparr>ca_returncode = cm_returncode cmd s1, ca_stdout = a, ca_stderr = b, ca_killed = False\<rparr>, s1)
              | None \<Rightarrow> after_kill env cmd grace drain s1) = (r, s2)" by fastforce
  let ?f' = "unregister_process_group True (cm_pid cmd) s2 (register_process_group True env wall (cm_pid cmd) s f)"
  have "run_command_capture True env wall cmd (Some t) cancellable grace drain s f = Some (r, s2, ?f')"
    by (simp add: run_command_capture_def run rs)
  moreover have "map_of (load_registry ?f') = (map_of (load_registry f))(int_str (cm_pid cmd) := None)"
    if "process_start_token s2 (cm_pid cmd) \<in> {None, Some token}"
    using own_entry_removed [OF assms(2-4) that] by (simp add: fun_eq_iff)
  ultimately show ?thesis by blast
qed

subsection \<open>A concrete machine\<close>

text \<open>The worker 7 lives and owns group 20; the worker that owned group 30 is gone. A process that is asked to terminate does.\<close>

definition demo_os :: os where
  "demo_os = \<lparr>os_now = 0, os_procs = [(7, \<lparr>pr_start = ''70'', pr_group = 7, pr_zombie = False\<rparr>),
     (20, \<lparr>pr_start = ''200'', pr_group = 20, pr_zombie = False\<rparr>), (31, \<lparr>pr_start = ''310'', pr_group = 30, pr_zombie = False\<rparr>)], os_sent = []\<rparr>"

definition demo_machine :: os_env where
  "demo_machine = \<lparr>oe_self = 7, oe_denied = (\<lambda>_. False), oe_slept = (\<lambda>_ _. 0), oe_elapse = (\<lambda>_ s. os_procs s),
     oe_deliver = (\<lambda>g _ ps. filter (\<lambda>(p, r). pr_group r \<noteq> g) ps)\<rparr>"

definition demo_record :: "int \<Rightarrow> int \<Rightarrow> string \<Rightarrow> dict" where
  "demo_record g owner token = fmap_of_list [(''pgid'', PInt g), (''start_token'', PStr ''200''), (''owner_pid'', PInt owner), (''owner_start_token'', PStr token)]"

definition demo_registry :: registry_file where
  "demo_registry = Groups [(''20'', PDict (demo_record 20 7 ''70'')), (''30'', PDict (demo_record 30 8 ''80''))]"

lemma demo_pids: "record_pids (demo_record g p t) = Inr (Some (g, p))"
  by (simp add: record_pids_def read_pid_def demo_record_def)

lemma demo_reap:
  "\<exists>s'. reap_orphaned_process_groups True demo_machine 5 demo_os demo_registry = Inr (s', Groups [(''20'', PDict (demo_record 20 7 ''70''))], [30])"
proof -
  define s1 where "s1 = demo_os\<lparr>os_procs := [(7, \<lparr>pr_start = ''70'', pr_group = 7, pr_zombie = False\<rparr>),
     (20, \<lparr>pr_start = ''200'', pr_group = 20, pr_zombie = False\<rparr>)], os_sent := [(30, SIGTERM)]\<rparr>"
  have k: "killpg demo_machine 30 SIGTERM demo_os = Inr s1"
    by (simp add: killpg_def signal_target_def has_members_def demo_os_def demo_machine_def s1_def)
  have dead: "\<not> group_alive s1 30" by (simp add: group_alive_def s1_def)
  then have "end_group demo_machine 5 30 demo_os = (s1, Reaped 30)"
    by (simp add: end_group_def k Let_def settle_group.simps [of demo_machine 30 _ s1])
  then have "reap_record demo_machine 5 demo_os (PDict (demo_record 30 8 ''80'')) = Inr (s1, Reaped 30)"
    by (simp add: reap_record_def demo_pids leader_reused_def owner_alive_def process_start_token_def group_alive_def demo_os_def token_value_def)
      (simp add: demo_record_def dget_def)
  moreover have "reap_record demo_machine 5 demo_os (PDict (demo_record 20 7 ''70'')) = Inr (demo_os, Kept)"
    by (simp add: reap_record_def demo_pids leader_reused_def owner_alive_def process_start_token_def demo_os_def token_value_def)
      (simp add: demo_record_def dget_def)
  ultimately show ?thesis by (simp add: reap_orphaned_process_groups_def demo_registry_def load_registry_def)
qed

lemma demo_recorded: "recorded (load_registry demo_registry) = {20, 30}"
  unfolding demo_registry_def load_registry_def registry_file.case recorded_Cons [of "(''20'', PDict (demo_record 20 7 ''70''))"]
    recorded_one [OF demo_pids] by auto

lemma demo_evolves:
  "evolves demo_machine {20, 30} demo_os s1 \<Longrightarrow> \<exists>X\<subseteq>{20, 30}. os_procs s1 = filter (\<lambda>(p, r). pr_group r \<notin> X) (os_procs demo_os)"
proof (induction rule: evolves.induct)
  case (signalled s s1 g sg s2)
  then obtain X where X: "X \<subseteq> {20, 30}" "os_procs s1 = filter (\<lambda>(p, r). pr_group r \<notin> X) (os_procs s)" by blast
  have "os_procs s2 = filter (\<lambda>(p, r). pr_group r \<noteq> g) (os_procs s1)"
    using signalled.hyps by (auto simp: killpg_def signal_target_def demo_machine_def Let_def split: if_splits)
  also have "\<dots> = filter (\<lambda>(p, r). pr_group r \<notin> insert g X) (os_procs s)"
    unfolding X(2) filter_filter by (rule filter_cong) auto
  finally show ?case using X(1) signalled.hyps(3) by (intro exI [of _ "insert g X"]) auto
qed (auto simp: sleep_def demo_machine_def intro: exI [of _ "{}"])

theorem reap_spares_owned_witness:
  "\<exists>s' f'. reap_orphaned_process_groups True demo_machine 5 demo_os demo_registry = Inr (s', f', [30])
     \<and> (''20'', PDict (demo_record 20 7 ''70'')) \<in> set (load_registry f')"
proof -
  obtain s' f' where run: "reap_orphaned_process_groups True demo_machine 5 demo_os demo_registry = Inr (s', f', [30])" using demo_reap by blast
  have recs: "k = ''20'' \<and> d = demo_record 20 7 ''70'' \<and> p = 7" if "(k, PDict d) \<in> set (load_registry demo_registry)" "record_pids d = Inr (Some (20, p))" for k d p
    using that demo_pids by (auto simp: demo_registry_def load_registry_def)
  have alive: "owner_alive s1 7 (demo_record 20 7 ''70'') \<and> \<not> leader_reused s1 20 (demo_record 20 7 ''70'')"
    if e: "evolves demo_machine (recorded (load_registry demo_registry)) demo_os s1" for s1
  proof -
    obtain X where "X \<subseteq> {20, 30}" "os_procs s1 = filter (\<lambda>(p, r). pr_group r \<notin> X) (os_procs demo_os)"
      using demo_evolves [OF e [unfolded demo_recorded]] by blast
    moreover from this have "7 \<notin> X" by auto
    ultimately show ?thesis
      by (auto simp: owner_alive_def leader_reused_def process_start_token_def demo_os_def token_value_def demo_record_def dget_def)
  qed
  have "\<forall>k d p s1. (k, PDict d) \<in> set (load_registry demo_registry) \<and> record_pids d = Inr (Some (20, p))
      \<and> evolves demo_machine (recorded (load_registry demo_registry)) demo_os s1 \<longrightarrow> owner_alive s1 p d \<or> leader_reused s1 20 d"
    using recs alive by blast
  note spared = conjunct2 [OF reap_spares_owned [OF run this]]
  have "(''20'', PDict (demo_record 20 7 ''70'')) \<in> set (load_registry demo_registry)" by (simp add: demo_registry_def load_registry_def)
  then have "(''20'', PDict (demo_record 20 7 ''70'')) \<in> set (load_registry f')" using spared demo_pids [of 20 7 "''70''"] alive by blast
  then show ?thesis using run by blast
qed

theorem no_orphan_forgotten_witness:
  "\<exists>s1. evolves demo_machine {20, 30} demo_os s1 \<and> (leader_reused s1 30 (demo_record 30 8 ''80'') \<or> vanished demo_machine 30 s1)"
proof -
  obtain s' where run: "reap_orphaned_process_groups True demo_machine 5 demo_os demo_registry = Inr (s', Groups [(''20'', PDict (demo_record 20 7 ''70''))], [30])"
    using demo_reap by blast
  have "(''30'', PDict (demo_record 30 8 ''80'')) \<in> set (load_registry demo_registry)"
    "(''30'', PDict (demo_record 30 8 ''80'')) \<notin> set (load_registry (Groups [(''20'', PDict (demo_record 20 7 ''70''))]))"
    by (simp_all add: demo_registry_def load_registry_def)
  from no_orphan_forgotten [OF run this(1) demo_pids this(2)] show ?thesis unfolding demo_recorded by blast
qed

theorem terminate_settles_witness: "\<exists>s'. terminate_process_tree demo_machine 20 5 demo_os = (Inr True, s') \<and> \<not> process_tree_alive demo_machine 20 s'"
proof -
  define s1 where "s1 = demo_os\<lparr>os_procs := [(7, \<lparr>pr_start = ''70'', pr_group = 7, pr_zombie = False\<rparr>),
     (31, \<lparr>pr_start = ''310'', pr_group = 30, pr_zombie = False\<rparr>)], os_sent := [(20, SIGTERM)]\<rparr>"
  have "killpg demo_machine 20 SIGTERM demo_os = Inr s1"
    by (simp add: killpg_def signal_target_def has_members_def demo_os_def demo_machine_def s1_def)
  moreover have "\<not> process_tree_alive demo_machine 20 s1"
    by (simp add: process_tree_alive_def signal_target_def has_members_def s1_def)
  ultimately have run: "terminate_process_tree demo_machine 20 5 demo_os = (Inr True, poll_child 20 s1)"
    by (simp add: terminate_process_tree_def terminate_with_def kill_process_tree_def wait_process_tree_def wait_dead)
  show ?thesis using terminate_settles [OF _ run] run by simp
qed

definition demo_command :: command where
  "demo_command = \<lparr>cm_pid = 20, cm_communicate = (\<lambda>w s. (None, s\<lparr>os_now := os_now s + (case w of Some t \<Rightarrow> max 0 t | None \<Rightarrow> 0)\<rparr>)),
     cm_cancelled = (\<lambda>_. False), cm_returncode = (\<lambda>_. PInt (- 15))\<rparr>"

theorem capture_returns_witness:
  "\<exists>r s' f'. run_command_capture True demo_machine 1 demo_command (Some 3) True 5 2 demo_os Unreadable = Some (r, s', f')"
proof -
  have "waits_its_time demo_command" by (auto simp: waits_its_time_def demo_command_def)
  moreover have "0 < cm_pid demo_command" "process_start_token demo_os (cm_pid demo_command) = Some ''200''"
    "process_start_token demo_os (oe_self demo_machine) = Some ''70''"
    by (simp_all add: demo_command_def process_start_token_def demo_os_def demo_machine_def)
  ultimately show ?thesis using capture_returns by blast
qed

end
