(* ===== verification/Verify_Text.thy ===== *)
theory Verify_Text
  imports Task_Config Shell_Text
begin

text \<open>
  The text part of \<open>op/verifier/kernel_verifier.py\<close> (below \<open>src/op_autoresearch\<close>): paths, the static check of
  a task description, the search for a multi-shape factory, and the helpers that take the configurations of an
  \<open>@triton.autotune\<close> decorator apart and put them together again.
\<close>

subsection \<open>Paths\<close>

definition join_path :: "string \<Rightarrow> string \<Rightarrow> string" where
  "join_path a b = (if starts_with ''/'' b then b else if a = [] \<or> last a = CHR ''/'' then a @ b else a @ ''/'' @ b)"

definition path_parts :: "string \<Rightarrow> string list" where
  "path_parts p = filter (\<lambda>s. s \<noteq> [] \<and> s \<noteq> ''.'') (split_on CHR ''/'' p)"

fun common_parts :: "string list \<Rightarrow> string list \<Rightarrow> string list" where
  "common_parts (x # xs) (y # ys) = (if x = y then x # common_parts xs ys else [])"
| "common_parts xs ys = []"

text \<open>\<open>os.path.commonpath\<close> of two absolute paths; a mixed pair raises.\<close>

definition commonpath :: "string \<Rightarrow> string \<Rightarrow> string option" where
  "commonpath a b = (if starts_with ''/'' a \<and> starts_with ''/'' b
     then Some (''/'' @ join ''/'' (common_parts (path_parts a) (path_parts b))) else None)"

text \<open>A sidecar of the reference may be written below the directory only.\<close>

definition sidecar_allowed :: "string \<Rightarrow> bool" where
  "sidecar_allowed rel = (\<not> (starts_with ''/'' rel \<or> starts_with ''..'' rel \<or> ''..'' \<in> set (split_on CHR ''/'' rel)))"

subsection \<open>The reference module\<close>

text \<open>What its top level defines; the flag of a function says that it is asynchronous.\<close>

datatype top_item = TopClass string | TopDef bool string | TopOther

datatype parsed = Parsed "top_item list" | BadSyntax string | ParseFailed string

definition missing_components :: "top_item list \<Rightarrow> string list" where
  "missing_components body =
     (if TopClass ''Model'' \<in> set body then [] else [''class Model''])
     @ (if TopDef False ''get_inputs'' \<in> set body then [] else [''function get_inputs''])
     @ (if TopDef False ''get_init_inputs'' \<in> set body then [] else [''function get_init_inputs''])"

definition check_task_desc_static :: "parsed \<Rightarrow> bool \<times> string" where
  "check_task_desc_static p = (case p of
      Parsed body \<Rightarrow> if missing_components body \<noteq> []
        then (False, ''Missing required components in task_desc: '' @ join '', '' (missing_components body)) else (True, [])
    | BadSyntax e \<Rightarrow> (False, ''Syntax error in task_desc: '' @ e)
    | ParseFailed e \<Rightarrow> (False, ''Static check failed: '' @ e))"

definition dyn_factory_names :: "string list" where
  "dyn_factory_names = [''get_inputs_dyn_list'', ''get_input_groups'']"

definition factory_of :: "top_item \<Rightarrow> string option" where
  "factory_of i = (case i of TopDef a f \<Rightarrow> if f \<in> set dyn_factory_names then Some f else None | _ \<Rightarrow> None)"

fun first_some :: "'a option list \<Rightarrow> 'a option" where
  "first_some [] = None"
| "first_some (None # xs) = first_some xs"
| "first_some (Some x # xs) = Some x"

text \<open>A factory that is declared wins; what cannot be parsed is searched as text. Other failures of the parser escape.\<close>

definition resolve_dyn_factory :: "dict \<Rightarrow> string \<Rightarrow> parsed \<Rightarrow> pyval res" where
  "resolve_dyn_factory declared code p =
     (if truthy (dget declared ''inputs_factory'') then Inr (dget declared ''inputs_factory'')
      else case p of
          Parsed body \<Rightarrow> Inr (case first_some (map factory_of body) of Some f \<Rightarrow> PStr f | None \<Rightarrow> PNone)
        | BadSyntax e \<Rightarrow> Inr (case find (\<lambda>f. contains f code) dyn_factory_names of Some f \<Rightarrow> PStr f | None \<Rightarrow> PNone)
        | ParseFailed e \<Rightarrow> Inl ValueError)"

definition detect_dynamic_shape :: "dict \<Rightarrow> string \<Rightarrow> parsed \<Rightarrow> bool res" where
  "detect_dynamic_shape declared code p = (case dget declared ''is_dynamic_shape'' of
      PBool b \<Rightarrow> Inr b
    | _ \<Rightarrow> bindR (resolve_dyn_factory declared code p) (\<lambda>f. Inr (f \<noteq> PNone)))"

subsection \<open>Autotune configurations\<close>

definition detect_triton_autotune :: "string \<Rightarrow> bool" where
  "detect_triton_autotune code = (contains ''@triton.autotune'' code \<or> contains ''@autotune'' code)"

definition configs_rx :: "rx list" where
  "configs_rx = [Lit ''configs'', Rep white, Lit ''='', Rep white, Lit ''['']"

definition autotune_rx :: "rx list" where
  "autotune_rx = [Lit ''@triton.autotune'', Rep white, Lit ''('', Rep white] @ configs_rx"

text \<open>
  \<open>re.search(r + "(.*?)\]", s, re.DOTALL)\<close>: the position, the group and what follows the match. The
  group ends before the first closing bracket.
\<close>

fun block_search :: "rx \<Rightarrow> string \<Rightarrow> (nat \<times> string \<times> string) option" where
  "block_search r [] = None"
| "block_search r (c # cs) = (case find (\<lambda>t. CHR '']'' \<in> set t) (rests r (c # cs)) of
      Some t \<Rightarrow> Some (0, takeWhile (\<lambda>d. d \<noteq> CHR '']'') t, tl (dropWhile (\<lambda>d. d \<noteq> CHR '']'') t))
    | None \<Rightarrow> map_option (\<lambda>(k, x). (Suc k, x)) (block_search r cs))"

text \<open>\<open>triton\.Config\s*\([^)]*\{[^}]+\}[^)]*\)\<close> at the start of a text: what is left of it.\<close>

definition config_body :: "string \<Rightarrow> string list" where
  "config_body u = (let v = dropWhile (\<lambda>c. c \<noteq> CHR 0x7D) u; w = dropWhile (\<lambda>c. c \<noteq> CHR '')'') (tl v)
     in if takeWhile (\<lambda>c. c \<noteq> CHR 0x7D) u = [] \<or> v = [] \<or> w = [] then [] else [tl w])"

definition config_tail :: "string \<Rightarrow> string list" where
  "config_tail t = concat (map (\<lambda>i. config_body (drop (Suc i) t))
     (filter (\<lambda>i. t ! i = CHR 0x7B) (rev [0..<length (takeWhile (\<lambda>c. c \<noteq> CHR '')'') t)])))"

definition config_rx :: "rx list" where
  "config_rx = [Lit ''triton.Config'', Rep white, Lit ''('']"

definition config_at :: "string \<Rightarrow> string option" where
  "config_at s = (case concat (map config_tail (rests (Cat config_rx) s)) of [] \<Rightarrow> None | t # _ \<Rightarrow> Some t)"

lemma uniq_set [simp]: "set (uniq xs) = set xs"
  by (simp add: uniq_def)

lemma cat_rests_shorter:
  "(\<And>f x y. f \<in> set fs \<Longrightarrow> y \<in> set (f x) \<Longrightarrow> length y \<le> length x) \<Longrightarrow> t \<in> set (cat_rests fs s) \<Longrightarrow> length t \<le> length s"
proof (induction fs arbitrary: s)
  case (Cons f fs)
  then obtain u where "u \<in> set (f s)" "t \<in> set (cat_rests fs u)" by auto
  then show ?case using Cons.IH [of u] Cons.prems(1) by (meson le_trans list.set_intros)
qed simp

lemma rep_rests_shorter:
  "(\<And>x y. y \<in> set (f x) \<Longrightarrow> length y \<le> length x) \<Longrightarrow> t \<in> set (rep_rests f s) \<Longrightarrow> length t \<le> length s"
proof (induction f s rule: rep_rests.induct)
  case (1 f s)
  have "t = s \<or> (\<exists>u. u \<in> set (f s) \<and> length u < length s \<and> t \<in> set (rep_rests f u))"
    using 1(3) unfolding rep_rests.simps [of f s] by auto
  then show ?case
  proof (elim disjE exE conjE)
    fix u
    assume u: "u \<in> set (f s)" "length u < length s" "t \<in> set (rep_rests f u)"
    have "u \<in> set (filter (\<lambda>t. length t < length s) (f s))" using u(1,2) by simp
    then have "length t \<le> length u" using 1(2) u(3) by (rule 1(1))
    then show ?thesis using u(2) by simp
  qed simp
qed

lemma rests_shorter: "t \<in> set (rests r s) \<Longrightarrow> length t \<le> length s"
proof (induction r s arbitrary: t rule: rests.induct)
  case (3 rs s)
  then show ?case using cat_rests_shorter [of "map rests rs" t s] by fastforce
next
  case (5 r s)
  then show ?case using rep_rests_shorter [of "rests r" t s] by simp
qed (auto split: list.splits if_splits)

lemma config_body_shorter: "t \<in> set (config_body u) \<Longrightarrow> length t \<le> length u"
proof -
  assume "t \<in> set (config_body u)"
  then have "t = tl (dropWhile (\<lambda>c. c \<noteq> CHR '')'') (tl (dropWhile (\<lambda>c. c \<noteq> CHR 0x7D) u)))"
    by (auto simp: config_body_def Let_def split: if_splits)
  then show ?thesis using length_dropWhile_le [of "\<lambda>c. c \<noteq> CHR '')''" "tl (dropWhile (\<lambda>c. c \<noteq> CHR 0x7D) u)"]
      length_dropWhile_le [of "\<lambda>c. c \<noteq> CHR 0x7D" u] by simp
qed

lemma head_in: "(case xs of [] \<Rightarrow> None | y # _ \<Rightarrow> Some y) = Some x \<Longrightarrow> x \<in> set xs"
  by (cases xs) simp_all

lemma config_at_shorter: "config_at s = Some t \<Longrightarrow> length t < length s"
proof -
  assume "config_at s = Some t"
  then have "t \<in> set (concat (map config_tail (rests (Cat config_rx) s)))"
    unfolding config_at_def by (rule head_in)
  then obtain u where u: "u \<in> set (rests (Cat config_rx) s)" and t: "t \<in> set (config_tail u)"
    unfolding set_concat set_map by (elim UN_E imageE) simp
  from t obtain i where "t \<in> set (config_body (drop (Suc i) u))" "i < length (takeWhile (\<lambda>c. c \<noteq> CHR '')'') u)"
    by (auto simp: config_tail_def)
  then have "length t \<le> length u - Suc i" "u \<noteq> []" using config_body_shorter [of t "drop (Suc i) u"] by auto
  then show ?thesis using rests_shorter [OF u] by (cases u) auto
qed

text \<open>The matches of \<open>re.finditer\<close>, each with what stands before it on its line; the first argument is the text before, reversed.\<close>

function config_scan :: "string \<Rightarrow> string \<Rightarrow> (string \<times> string) list" where
  "config_scan before s = (case config_at s of
      Some t \<Rightarrow> let m = take (length s - length t) s in (rev (takeWhile (\<lambda>c. c \<noteq> newline) before), m) # config_scan (rev m @ before) t
    | None \<Rightarrow> (case s of [] \<Rightarrow> [] | c # cs \<Rightarrow> config_scan (c # before) cs))"
  by pat_completeness auto
termination by (relation "measure (\<lambda>(before, s). length s)") (auto dest: config_at_shorter)

declare config_scan.simps [simp del]

definition extract_autotune_configs :: "string \<Rightarrow> string list" where
  "extract_autotune_configs code = (case block_search (Cat autotune_rx) code of
      None \<Rightarrow> [] | Some (k, g, rest) \<Rightarrow> map snd (filter (\<lambda>(p, m). CHR ''#'' \<notin> set p) (config_scan [] g)))"

function count_of :: "string \<Rightarrow> string \<Rightarrow> nat" where
  "count_of p s = (if p = [] \<or> s = [] then 0 else if starts_with p s then Suc (count_of p (drop (length p) s)) else count_of p (tl s))"
  by pat_completeness auto
termination by (relation "measure (\<lambda>(p, s). length s)") auto

declare count_of.simps [simp del]

definition count_all_autotune_configs :: "string \<Rightarrow> nat" where
  "count_all_autotune_configs code = (case block_search (Cat autotune_rx) code of None \<Rightarrow> 0 | Some (k, g, rest) \<Rightarrow> count_of ''triton.Config'' g)"

text \<open>
  \<open>re.sub\<close> of the first list that is called \<open>configs\<close>. A replacement without a backslash stands for itself; what
  \<open>re\<close> makes of one with a backslash is an argument, which may raise.
\<close>

definition sub_configs :: "(string \<Rightarrow> string \<Rightarrow> string res) \<Rightarrow> string \<Rightarrow> string \<Rightarrow> string res" where
  "sub_configs expand block code = (case block_search (Cat configs_rx) code of
      None \<Rightarrow> Inr code
    | Some (k, g, rest) \<Rightarrow> bindR (if backslash \<in> set block then expand block g else Inr block) (\<lambda>b. Inr (take k code @ b @ rest)))"

definition single_block :: "string \<Rightarrow> string" where
  "single_block config = ''configs=['' @ [newline] @ ''        '' @ config @ '','' @ [newline] @ ''    ]''"

definition generate_single_config_code :: "(string \<Rightarrow> string \<Rightarrow> string res) \<Rightarrow> string \<Rightarrow> string \<Rightarrow> string res" where
  "generate_single_config_code expand code config =
     (if extract_autotune_configs code = [] then Inr code else sub_configs expand (single_block config) code)"

definition final_entry :: "string list \<Rightarrow> string \<Rightarrow> string" where
  "final_entry valid config = (if config \<in> set valid then ''        '' @ config @ '',''
     else join_lines (map (\<lambda>l. if strip l \<noteq> [] then ''        # '' @ l else l) (split_lines config)) @ '',  # Failed verification'')"

definition final_block :: "string list \<Rightarrow> string list \<Rightarrow> string" where
  "final_block valid all = ''configs=['' @ [newline] @ join_lines (map (final_entry valid) all) @ [newline] @ ''    ]''"

definition generate_final_code_with_valid_configs ::
    "(string \<Rightarrow> string \<Rightarrow> string res) \<Rightarrow> string \<Rightarrow> string list \<Rightarrow> string list \<Rightarrow> string res" where
  "generate_final_code_with_valid_configs expand code valid all =
     (if all = [] then Inr code else sub_configs expand (final_block valid all) code)"

text \<open>What counts as a timeout in the log of a failed verification; the fourth text is looked for in a text without capitals.\<close>

definition log_timed_out :: "pyval \<Rightarrow> bool res" where
  "log_timed_out l = (case l of
      PStr s \<Rightarrow> (let low = map lower s in Inr (contains ''timed out'' low \<or> contains ''timeout after'' low \<or> contains ''timeouterror'' low
        \<or> contains ''Calculate timeout'' low))
    | _ \<Rightarrow> Inl AttributeError)"

end
