(* ===== verification/Verify_Run.thy ===== *)
theory Verify_Run
  imports Verify_Text Baseline_Cache Eval_Worker
begin

text \<open>
  \<open>KernelVerifier.run\<close> and what it calls (\<open>op/verifier/kernel_verifier.py\<close> below \<open>src/op_autoresearch\<close>): one
  verification of a kernel, from the lease of a device to the verdict, in the default mode and with each
  autotune configuration on its own. Project generation, the reference cache's generator, links in the file system and
  the worker are functions of the environment; a file is a path with its text.
\<close>

subsection \<open>State and workers\<close>

type_synonym vfiles = "string \<Rightarrow> string option"

datatype worker_kind = Local bool | Remote

text \<open>A worker leases devices from a pool and runs the script of a directory; the flag of a local one says that it has a pool.\<close>

record 'p device_worker =
  dw_kind :: worker_kind
  dw_acquire :: "string \<Rightarrow> 'p \<Rightarrow> 'p \<times> (int \<times> int) res"
  dw_release :: "int \<Rightarrow> int \<Rightarrow> string \<Rightarrow> 'p \<Rightarrow> 'p"
  dw_verify :: "string \<Rightarrow> string \<Rightarrow> int \<Rightarrow> vfiles \<Rightarrow> vfiles \<times> (pyval \<times> pyval \<times> pyval) res"

text \<open>
  The two kinds of worker: a local one runs the script in the directory, where it leaves its files, and a
  remote one is asked over the network and answers with artifacts.
\<close>

definition local_device_worker :: "real \<Rightarrow> (string \<Rightarrow> vfiles \<Rightarrow> script_machine) \<Rightarrow> (string \<Rightarrow> vfiles \<Rightarrow> vfiles) \<Rightarrow> device_pool device_worker" where
  "local_device_worker now machine effect = \<lparr>dw_kind = Local True,
     dw_acquire = (\<lambda>task p. case acquire_device now task False p of Inl e \<Rightarrow> (p, Inl TimeoutError) | Inr (q, d, n) \<Rightarrow> (q, Inr (d, int n))),
     dw_release = (\<lambda>d n task p. fst (release_device d (nat n) p)),
     dw_verify = (\<lambda>task dir t fs. (effect dir fs, bindR (local_verify (machine dir fs) (PInt t)) (\<lambda>(ok, l, artifacts).
       Inr (PBool ok, PStr l, PDict artifacts))))\<rparr>"

definition remote_device_worker :: "remote_env \<Rightarrow> (string \<Rightarrow> vfiles \<Rightarrow> remote_env) \<Rightarrow> active_lease device_worker" where
  "remote_device_worker re asked = \<lparr>dw_kind = Remote, dw_acquire = remote_acquire_device re,
     dw_release = (\<lambda>d n task. remote_release_device task d n),
     dw_verify = (\<lambda>task dir t fs. (fs, remote_verify (asked dir fs) (PInt t)))\<rparr>"

record 'p verify_state =
  vs_files :: vfiles
  vs_pool :: 'p
  vs_cache :: cache_fs
  vs_config :: dict
  vs_worker :: "'p device_worker option"
  vs_code :: string
  vs_ok :: "bool option"
  vs_sidecar :: pyval
  vs_dir :: "string option"
  vs_results :: "dict list"

record 'p verify_env =
  ve_rt :: runtime
  ve_op :: string
  ve_log_dir :: string
  ve_verifier :: verifier
  ve_reference :: reference_env
  ve_defaults :: "EvalDefaults res"
  ve_per_config :: bool
  ve_autotune_dsl :: bool
  ve_cann_precision :: bool
  ve_prepare :: "dict \<Rightarrow> dict \<times> unit res"
  ve_mkdir :: "string \<Rightarrow> unit res"
  ve_generate :: "dict \<Rightarrow> string \<Rightarrow> string \<Rightarrow> int \<Rightarrow> vfiles \<Rightarrow> (dict \<times> vfiles) \<times> unit res"
  ve_local_worker :: "int \<Rightarrow> 'p device_worker"
  ve_pack :: "string \<Rightarrow> vfiles \<Rightarrow> unit res"
  ve_realpath :: "string \<Rightarrow> string res"
  ve_makedirs :: "string \<Rightarrow> unit res"
  ve_writable :: "string \<Rightarrow> bool"
  ve_items :: "dict \<Rightarrow> (string \<times> pyval) list"
  ve_load :: "string \<Rightarrow> pyval res"
  ve_expand :: "string \<Rightarrow> string \<Rightarrow> string res"
  ve_message :: "py_error \<Rightarrow> string"
  ve_append :: "unit res"
  ve_stamp :: string

type_synonym ('p, 'a) action = "'p verify_state \<Rightarrow> 'p verify_state \<times> 'a res"

text \<open>Sequence, \<open>except Exception\<close> and \<open>finally\<close>.\<close>

definition thenS :: "('p, 'a) action \<Rightarrow> ('a \<Rightarrow> ('p, 'b) action) \<Rightarrow> ('p, 'b) action" where
  "thenS f k s = (case f s of (s1, Inl e) \<Rightarrow> (s1, Inl e) | (s1, Inr a) \<Rightarrow> k a s1)"

definition exceptS :: "('p, 'a) action \<Rightarrow> (py_error \<Rightarrow> ('p, 'a) action) \<Rightarrow> ('p, 'a) action" where
  "exceptS f h s = (case f s of (s1, Inl e) \<Rightarrow> h e s1 | (s1, Inr a) \<Rightarrow> (s1, Inr a))"

definition finallyS :: "('p, 'a) action \<Rightarrow> ('p verify_state \<Rightarrow> 'p verify_state) \<Rightarrow> ('p, 'a) action" where
  "finallyS f g s = (case f s of (s1, r) \<Rightarrow> (g s1, r))"

definition resS :: "'a res \<Rightarrow> ('p, 'a) action" where
  "resS r s = (s, r)"

subsection \<open>Files\<close>

text \<open>One artifact; a content that is no text leaves an empty file.\<close>

definition sync_one :: "'p verify_env \<Rightarrow> string \<Rightarrow> string \<Rightarrow> pyval \<Rightarrow> vfiles \<Rightarrow> vfiles \<times> unit res" where
  "sync_one env target rel content fs =
     (if rel = [] then (fs, Inr ())
      else case ve_realpath env (join_path target rel) of
          Inl e \<Rightarrow> (fs, Inl e)
        | Inr full \<Rightarrow>
            if commonpath target full \<noteq> Some target then (fs, Inr ())
            else case ve_makedirs env full of
                Inl e \<Rightarrow> (fs, Inl e)
              | Inr _ \<Rightarrow> (if ve_writable env full then fs(full \<mapsto> (case content of PStr t \<Rightarrow> t | _ \<Rightarrow> [])) else fs, Inr ()))"

fun sync_items :: "'p verify_env \<Rightarrow> string \<Rightarrow> (string \<times> pyval) list \<Rightarrow> vfiles \<Rightarrow> vfiles \<times> unit res" where
  "sync_items env target [] fs = (fs, Inr ())"
| "sync_items env target ((rel, content) # xs) fs = (case sync_one env target rel content fs of
      (fs1, Inl e) \<Rightarrow> (fs1, Inl e) | (fs1, Inr _) \<Rightarrow> sync_items env target xs fs1)"

definition sync_artifacts_to_directory :: "'p verify_env \<Rightarrow> pyval \<Rightarrow> string \<Rightarrow> ('p, unit) action" where
  "sync_artifacts_to_directory env artifacts dir s =
     (if \<not> truthy artifacts then (s, Inr ())
      else case bindR (as_mapping artifacts) (\<lambda>d. bindR (ve_realpath env dir) (\<lambda>target. Inr (d, target))) of
          Inl e \<Rightarrow> (s, Inl e)
        | Inr (d, target) \<Rightarrow> (case sync_items env target (ve_items env d) (vs_files s) of (fs, r) \<Rightarrow> (s\<lparr>vs_files := fs\<rparr>, r)))"

text \<open>The reference module and its sidecars.\<close>

fun write_sidecars :: "'p verify_env \<Rightarrow> string \<Rightarrow> (string \<times> string) list \<Rightarrow> vfiles \<Rightarrow> vfiles \<times> unit res" where
  "write_sidecars env dir [] fs = (fs, Inr ())"
| "write_sidecars env dir ((rel, content) # xs) fs =
     (if \<not> sidecar_allowed rel then write_sidecars env dir xs fs
      else let aux = join_path dir rel
           in case ve_makedirs env aux of
               Inl e \<Rightarrow> (fs, Inl e)
             | Inr _ \<Rightarrow> if ve_writable env aux then write_sidecars env dir xs (fs(aux \<mapsto> content)) else (fs, Inl (RuntimeError ''sidecar'')))"

definition materialize_framework_bundle :: "'p verify_env \<Rightarrow> string \<Rightarrow> string \<Rightarrow> string \<Rightarrow> (string \<times> string) list \<Rightarrow> vfiles \<Rightarrow> vfiles \<times> string res" where
  "materialize_framework_bundle env dir code filename sidecars fs =
     (let py = join_path dir filename
      in if \<not> ve_writable env py then (fs, Inl (RuntimeError ''framework''))
         else (case write_sidecars env dir sidecars (fs(py \<mapsto> code)) of (fs1, r) \<Rightarrow> (fs1, bindR r (\<lambda>_. Inr py))))"

definition remove_tree :: "string \<Rightarrow> 'p verify_state \<Rightarrow> 'p verify_state" where
  "remove_tree dir s = s\<lparr>vs_files := (\<lambda>p. if starts_with (dir @ ''/'') p then None else vs_files s p)\<rparr>"

definition make_dir :: "'p verify_env \<Rightarrow> string \<Rightarrow> ('p, unit) action" where
  "make_dir env dir = resS (ve_mkdir env dir)"

definition generate :: "'p verify_env \<Rightarrow> string \<Rightarrow> string \<Rightarrow> int \<Rightarrow> ('p, unit) action" where
  "generate env code dir dev s = (case ve_generate env (vs_config s) code dir dev (vs_files s) of
      ((config, fs), r) \<Rightarrow> (s\<lparr>vs_config := config, vs_files := fs\<rparr>, r))"

subsection \<open>Running the script\<close>

text \<open>The verifier of a caller that gave no worker makes one, for its device.\<close>

definition usable_worker :: "'p verify_env \<Rightarrow> int \<Rightarrow> ('p, 'p device_worker) action" where
  "usable_worker env dev s = (case vs_worker s of
      None \<Rightarrow> if dev = -1 then (s, Inl (RuntimeError ''Worker not set and device_id=-1''))
        else (s\<lparr>vs_worker := Some (ve_local_worker env dev)\<rparr>, Inr (ve_local_worker env dev))
    | Some w \<Rightarrow> (s, Inr w))"

definition packaged :: "'p verify_env \<Rightarrow> string \<Rightarrow> 'p device_worker \<Rightarrow> ('p, unit) action" where
  "packaged env dir w s = (s, case dw_kind w of
      Local False \<Rightarrow> Inl (RuntimeError ''LocalWorker must have device_pool'')
    | Local True \<Rightarrow> Inr ()
    | Remote \<Rightarrow> ve_pack env dir (vs_files s))"

definition dispatched :: "'p verify_env \<Rightarrow> string \<Rightarrow> int \<Rightarrow> 'p device_worker \<Rightarrow> ('p, pyval \<times> pyval \<times> pyval) action" where
  "dispatched env dir t w s = (case dw_verify w (vf_task_id (ve_verifier env)) dir (t + 30) (vs_files s) of (fs, r) \<Rightarrow> (s\<lparr>vs_files := fs\<rparr>, r))"

definition run_verify :: "'p verify_env \<Rightarrow> string \<Rightarrow> pyval \<Rightarrow> int \<Rightarrow> ('p, pyval \<times> pyval) action" where
  "run_verify env dir timeout dev = thenS (resS (resolve_eval_timeout (ve_defaults env) timeout)) (\<lambda>t.
     exceptS (thenS (usable_worker env dev) (\<lambda>w. thenS (packaged env dir w) (\<lambda>_. thenS (dispatched env dir t w) (\<lambda>(success, l, artifacts).
                thenS (sync_artifacts_to_directory env artifacts dir) (\<lambda>_. resS (Inr (success, l)))))))
             (\<lambda>e. resS (Inr (PBool False, PStr (ve_message env e)))))"

subsection \<open>The record of results\<close>

definition result_info :: "'p verify_env \<Rightarrow> string \<Rightarrow> int \<Rightarrow> pyval \<Rightarrow> string \<Rightarrow> nat \<Rightarrow> nat \<Rightarrow> dict" where
  "result_info env dir step passed logs amount valid =
     (let rq = vf_request (ve_verifier env); d = fmap_of_list [(''task_name'', PStr (ve_op env)), (''task_id'', PStr (vf_task_id (ve_verifier env))),
          (''step'', PInt step), (''verify_dir'', PStr dir), (''passed'', passed), (''error_log'', PStr logs), (''timestamp'', PStr (ve_stamp env)),
          (''framework'', PStr (cr_framework rq)), (''dsl'', PStr (cr_dsl rq)), (''backend'', PStr (cr_backend rq)), (''arch'', PStr (cr_arch rq))]
      in if 0 < amount then fmupd ''autotune_configs'' (PDict (fmap_of_list [(''total'', PInt (int amount)), (''passed'', PInt (int valid))])) d else d)"

definition save_verification_result_to_jsonl :: "'p verify_env \<Rightarrow> string \<Rightarrow> int \<Rightarrow> pyval \<Rightarrow> string \<Rightarrow> nat \<Rightarrow> nat \<Rightarrow> ('p, unit) action" where
  "save_verification_result_to_jsonl env dir step passed logs amount valid s = (case ve_append env of
      Inl e \<Rightarrow> (s, Inl e)
    | Inr _ \<Rightarrow> (s\<lparr>vs_results := vs_results s @ [result_info env dir step passed logs amount valid]\<rparr>, Inr ()))"

subsection \<open>One configuration after the other\<close>

definition nl :: "string \<Rightarrow> string" where
  "nl s = s @ [newline]"

text \<open>A project of its own for a program, and its verification.\<close>

definition verify_alone :: "'p verify_env \<Rightarrow> string res \<Rightarrow> string \<Rightarrow> int \<Rightarrow> int \<Rightarrow> ('p, pyval \<times> pyval) action" where
  "verify_alone env code dir dev timeout = thenS (resS code) (\<lambda>c. thenS (make_dir env dir) (\<lambda>_. thenS (generate env c dir dev) (\<lambda>_.
     run_verify env dir (PInt timeout) 0)))"

definition config_dir :: "string \<Rightarrow> nat \<Rightarrow> string" where
  "config_dir dir num = join_path dir (''config_'' @ nat_str num @ ''_verify'')"

definition fail_fast_note :: "nat \<Rightarrow> nat \<Rightarrow> string" where
  "fail_fast_note timeouts skipped = ''Continuous '' @ nat_str timeouts @ '' individual config Timeout, trigger. Fail-Fast''
     @ (if 0 < skipped then ''Skip the rest '' @ nat_str skipped @ '' individual'' else [])"

definition config_note :: "nat \<Rightarrow> string \<Rightarrow> string" where
  "config_note num config = nl (''--- Config '' @ nat_str num @ '' ---'') @ nl config"

definition anomaly_note :: "'p verify_env \<Rightarrow> py_error \<Rightarrow> string" where
  "anomaly_note env e = nl (nl (''Authentication anomaly: '' @ ve_message env e))"

definition failed_note :: "'p verify_env \<Rightarrow> pyval \<Rightarrow> string" where
  "failed_note env l = nl ''Authentication Failed'' @ nl ''Error Log:'' @ nl (nl (py_str (ve_rt env) l))"

text \<open>The configurations from the one with the given number on: those that pass, and the log. Two timeouts in a row end the loop.\<close>

fun verify_each :: "'p verify_env \<Rightarrow> string \<Rightarrow> string \<Rightarrow> int \<Rightarrow> int \<Rightarrow> nat \<Rightarrow> nat \<Rightarrow> string list \<Rightarrow> 'p verify_state
    \<Rightarrow> 'p verify_state \<times> string list \<times> string" where
  "verify_each env code dir dev timeout num timeouts [] s = (s, [], [])"
| "verify_each env code dir dev timeout num timeouts (config # configs) s =
     (let tmp = config_dir dir num; start = config_note num config;
          go = (\<lambda>n s1 kept note. case verify_each env code dir dev timeout (Suc num) n configs s1 of
                  (s2, valid, logs) \<Rightarrow> (s2, kept @ valid, start @ note @ logs))
      in case verify_alone env (generate_single_config_code (ve_expand env) code config) tmp dev timeout s of
          (s1, Inl e) \<Rightarrow> go 0 s1 [] (anomaly_note env e)
        | (s1, Inr (ok, l)) \<Rightarrow>
            if truthy ok then go 0 (remove_tree tmp s1) [config] (nl ''Validation via '' @ nl '' '')
            else (case log_timed_out l of
                Inl e \<Rightarrow> go 0 s1 [] (failed_note env l @ anomaly_note env e)
              | Inr False \<Rightarrow> go 0 (remove_tree tmp s1) [] (failed_note env l)
              | Inr True \<Rightarrow>
                  if 2 \<le> Suc timeouts
                  then (remove_tree tmp s1, [], start @ failed_note env l @ nl (nl (fail_fast_note (Suc timeouts) (length configs))))
                  else go (Suc timeouts) (remove_tree tmp s1) [] (failed_note env l)))"

subsection \<open>All configurations\<close>

definition configs_header :: "nat \<Rightarrow> nat \<Rightarrow> string" where
  "configs_header amount n = nl ''=== Autotune ConfigArticle by Article Validation==='' @ (let skipped = amount - n in
     if 0 < skipped then nl (''Detected '' @ nat_str amount @ '' individual config,among them '' @ nat_str skipped @ '' A comment has been made'')
       @ nl (nl (''To be validated config Number: '' @ nat_str n))
     else nl (nl (''Total '' @ nat_str n @ '' individual config'')))"

definition restore_value_note :: string where
  "restore_value_note = nl ''[Key issues] Each config pass individually, but all config merge failed. ''
     @ nl ''This is usually due to the lack of restore_value parameters for the @triton.autotune decorator. ''
     @ nl ''Autotune benchmark will repeat the kernel, and the output of different config will pollute each other. ''
     @ nl (''Add a restore_value=['' @ [squote] @ ''all output pointer parameter'' @ [squote] @ ''] to @triton.autotune. '')"

text \<open>The whole program, once every configuration has passed alone; an exception leaves the verdict as it was.\<close>

definition full_code_check :: "'p verify_env \<Rightarrow> string \<Rightarrow> string \<Rightarrow> int \<Rightarrow> int \<Rightarrow> nat \<Rightarrow> nat \<Rightarrow> 'p verify_state \<Rightarrow> 'p verify_state \<times> bool \<times> string" where
  "full_code_check env code dir dev timeout passing amount s =
     (if passing \<noteq> amount \<or> amount \<le> 1 then (s, True, [])
      else let tmp = join_path dir ''full_code_verify''; start = nl [] @ nl '' = = complete code regression verification (all config combined) = = ''
           in case verify_alone env (Inr code) tmp dev timeout s of
               (s1, Inl e) \<Rightarrow> (s1, True, start @ nl (''Full code regression authentication anomaly: '' @ ve_message env e))
             | (s1, Inr (ok, l)) \<Rightarrow>
                 if truthy ok then (remove_tree tmp s1, True, start @ nl ''Full code back authentication via '')
                 else (remove_tree tmp s1, False, start @ nl ''Full code backvalidation failed!'' @ nl ''Error Log:'' @ nl (nl (py_str (ve_rt env) l)) @ restore_value_note))"

definition verdict_note :: "bool \<Rightarrow> nat \<Rightarrow> string" where
  "verdict_note passed n =
     (if passed then nl (''Validation passed, reserved. '' @ nat_str n @ '' That'' @ [squote] @ ''s right. config'')
      else if 0 < n then nl ''PVconfigCould not close temporary folder: %srestore_value''
      else nl ''None of the config failed to verify '')"

text \<open>No configuration is left to be verified: all are commented out, or none was found.\<close>

definition no_configs :: "'p verify_env \<Rightarrow> string \<Rightarrow> string \<Rightarrow> int \<Rightarrow> int \<Rightarrow> nat \<Rightarrow> ('p, bool option \<times> string \<times> string) action" where
  "no_configs env code dir dev step amount =
     (if amount = 0 then resS (Inr (None, [], code))
      else thenS (exceptS (thenS (generate env code dir dev) (\<lambda>_. resS (Inr [])))
                    (\<lambda>e. resS (Inr (nl [] @ nl (''Failed to generate authentication project: '' @ ve_message env e))))) (\<lambda>note.
           let logs = nl ''=== Autotune ConfigAuthentication===''
             @ nl (''Detected '' @ nat_str amount @ '' individual config, all commented (failure to verify)'')
             @ nl ''Skip authentication, directly return failed result '' @ note
           in thenS (save_verification_result_to_jsonl env dir step (PBool False) logs amount 0) (\<lambda>_. resS (Inr (Some False, logs, code)))))"

definition settled_log :: "nat \<Rightarrow> nat \<Rightarrow> nat \<Rightarrow> bool \<Rightarrow> string \<Rightarrow> string \<Rightarrow> string" where
  "settled_log amount n passing passed logs note = configs_header amount n @ logs
     @ nl (''Adopted config Number: '' @ nat_str passing @ ''/'' @ nat_str n) @ note @ verdict_note passed passing
     @ nl [] @ nl ''== Generating Final Validation Project==''"

text \<open>The final program and its project; a project that cannot be generated is a failure.\<close>

definition settle_configs :: "'p verify_env \<Rightarrow> string \<Rightarrow> string \<Rightarrow> int \<Rightarrow> int \<Rightarrow> string list \<Rightarrow> bool \<Rightarrow> string \<Rightarrow> ('p, bool option \<times> string \<times> string) action" where
  "settle_configs env code dir dev step valid passed logs = (let configs = extract_autotune_configs code
     in thenS (resS (generate_final_code_with_valid_configs (ve_expand env) code valid configs)) (\<lambda>final.
        thenS (exceptS (thenS (generate env final dir dev) (\<lambda>_. resS (Inr (passed, logs))))
                 (\<lambda>e. resS (Inr (False, logs @ nl (''Failed to generate final validation project: '' @ ve_message env e))))) (\<lambda>(ok, logs).
        thenS (save_verification_result_to_jsonl env dir step (PBool ok) logs (length configs) (length valid)) (\<lambda>_.
          resS (Inr (Some ok, logs, final))))))"

definition verify_configs_separately :: "'p verify_env \<Rightarrow> string \<Rightarrow> string \<Rightarrow> int \<Rightarrow> int \<Rightarrow> int \<Rightarrow> ('p, bool option \<times> string \<times> string) action" where
  "verify_configs_separately env code dir dev timeout step s =
     (let amount = count_all_autotune_configs code; configs = extract_autotune_configs code; n = length configs
      in if configs = [] then no_configs env code dir dev step amount s
         else case verify_each env code dir dev timeout 1 0 configs s of
             (s1, valid, logs) \<Rightarrow> (case full_code_check env code dir dev timeout (length valid) n s1 of
                (s2, full, note) \<Rightarrow> (let passed = (valid \<noteq> [] \<and> full)
                  in settle_configs env code dir dev step valid passed (settled_log amount n (length valid) passed logs note) s2)))"

subsection \<open>The whole program\<close>

text \<open>The reference cache speaks for the configuration of the moment.\<close>

definition current_verifier :: "'p verify_env \<Rightarrow> 'p verify_state \<Rightarrow> verifier" where
  "current_verifier env s = (ve_verifier env)\<lparr>vf_profile := (vf_profile (ve_verifier env))\<lparr>pv_config := vs_config s, pv_worker := vs_worker s \<noteq> None\<rparr>\<rparr>"

definition use_reference :: "'p verify_env \<Rightarrow> ('p, unit) action" where
  "use_reference env s =
     (if ve_cann_precision env then (s, Inr ())
      else let vf = current_verifier env s
           in case prepare_cached_reference_data vf (ve_reference env) (vs_config s) (vs_cache s) of
               ((config, cache), r) \<Rightarrow> (case r of
                  Inl e \<Rightarrow> (s\<lparr>vs_config := config, vs_cache := cache\<rparr>, Inl e)
                | Inr bytes \<Rightarrow> (s\<lparr>vs_config := (case bytes of None \<Rightarrow> config | Some b \<Rightarrow> apply_cached_reference_data vf b config), vs_cache := cache\<rparr>, Inr ())))"

definition read_sidecar :: "'p verify_env \<Rightarrow> string \<Rightarrow> ('p, unit) action" where
  "read_sidecar env dir s = (s\<lparr>vs_dir := Some dir, vs_sidecar := (case vs_files s (join_path dir ''verify_result.json'') of
      None \<Rightarrow> PNone | Some t \<Rightarrow> (case ve_load env t of Inl _ \<Rightarrow> PNone | Inr v \<Rightarrow> v))\<rparr>, Inr ())"

definition add_text :: "string \<Rightarrow> pyval \<Rightarrow> string res" where
  "add_text a b = (case b of PStr t \<Rightarrow> Inr (a @ t) | _ \<Rightarrow> Inl TypeError)"

definition set_ok :: "bool option \<Rightarrow> ('p, unit) action" where
  "set_ok b s = (s\<lparr>vs_ok := b\<rparr>, Inr ())"

definition set_code :: "string \<Rightarrow> ('p, unit) action" where
  "set_code c s = (s\<lparr>vs_code := c\<rparr>, Inr ())"

definition generated_log :: "'p verify_env \<Rightarrow> string \<Rightarrow> string \<Rightarrow> int \<Rightarrow> ('p, string) action" where
  "generated_log env code dir dev = exceptS (thenS (generate env code dir dev) (\<lambda>_. resS (Inr [])))
     (\<lambda>e. resS (Inr (nl (''Project generation failed: '' @ ve_message env e))))"

text \<open>The script is run whether its project was generated or not.\<close>

definition script_verdict :: "'p verify_env \<Rightarrow> string \<Rightarrow> int \<Rightarrow> ('p, pyval \<times> pyval) action" where
  "script_verdict env dir dev = thenS (\<lambda>s. (s, resolve_eval_timeout (ve_defaults env) (dget (vs_config s) ''verify_timeout'')))
     (\<lambda>timeout. run_verify env dir (PInt timeout) dev)"

definition record_verdict :: "'p verify_env \<Rightarrow> string \<Rightarrow> int \<Rightarrow> string \<Rightarrow> pyval \<times> pyval \<Rightarrow> ('p, pyval \<times> string) action" where
  "record_verdict env dir step gen_log result = thenS (resS (add_text gen_log (snd result))) (\<lambda>logs.
     thenS (read_sidecar env dir) (\<lambda>_.
     thenS (save_verification_result_to_jsonl env dir step (fst result) logs 0 0) (\<lambda>_.
     thenS (set_ok (Some (truthy (fst result)))) (\<lambda>_. resS (Inr (fst result, logs))))))"

definition run_default :: "'p verify_env \<Rightarrow> string \<Rightarrow> string \<Rightarrow> int \<Rightarrow> int \<Rightarrow> ('p, pyval \<times> string) action" where
  "run_default env code dir step dev = thenS (use_reference env) (\<lambda>_.
     thenS (generated_log env code dir dev) (\<lambda>gen_log. thenS (script_verdict env dir dev) (record_verdict env dir step gen_log)))"

definition per_config_mode :: "'p verify_env \<Rightarrow> string \<Rightarrow> 'p verify_state \<Rightarrow> bool" where
  "per_config_mode env code s = ((ve_per_config env \<or> truthy (dget_default (vs_config s) ''verify_per_config'' (PBool False)))
     \<and> ve_autotune_dsl env \<and> detect_triton_autotune code)"

definition run_body :: "'p verify_env \<Rightarrow> string \<Rightarrow> string \<Rightarrow> int \<Rightarrow> int \<Rightarrow> ('p, pyval \<times> string) action" where
  "run_body env code dir step dev s =
     (if \<not> per_config_mode env code s then run_default env code dir step dev s
      else thenS (resS (resolve_eval_timeout (ve_defaults env) (dget (vs_config s) ''verify_timeout''))) (\<lambda>timeout.
           thenS (verify_configs_separately env code dir dev timeout step) (\<lambda>(verdict, logs, final). case verdict of
               None \<Rightarrow> run_default env code dir step dev
             | Some ok \<Rightarrow> thenS (if ok then set_code final else resS (Inr ())) (\<lambda>_.
                 thenS (set_ok (Some ok)) (\<lambda>_. resS (Inr (PBool ok, logs)))))) s)"

definition verify_dir_of :: "'p verify_env \<Rightarrow> int \<Rightarrow> string" where
  "verify_dir_of env step = join_path (join_path (ve_log_dir env) (ve_op env))
     (''Iteration'' @ vf_task_id (ve_verifier env) @ ''_Step'' @ int_str step @ ''_verify'')"

definition prepare :: "'p verify_env \<Rightarrow> ('p, unit) action" where
  "prepare env s = (case ve_prepare env (vs_config s) of (config, r) \<Rightarrow> (s\<lparr>vs_config := config\<rparr>, r))"

text \<open>The device is leased from the worker that is set, and given back at the end.\<close>

definition with_device :: "'p verify_env \<Rightarrow> int \<Rightarrow> (int \<Rightarrow> ('p, 'a) action) \<Rightarrow> ('p, 'a) action" where
  "with_device env device_id work s = (case vs_worker s of
      None \<Rightarrow> work (if device_id \<noteq> -1 then device_id else 0) s
    | Some w \<Rightarrow> (case dw_acquire w (vf_task_id (ve_verifier env)) (vs_pool s) of
          (p, Inl e) \<Rightarrow> (s\<lparr>vs_pool := p\<rparr>, Inl e)
        | (p, Inr (d, n)) \<Rightarrow> finallyS (work d) (\<lambda>s1. s1\<lparr>vs_pool := dw_release w d n (vf_task_id (ve_verifier env)) (vs_pool s1)\<rparr>) (s\<lparr>vs_pool := p\<rparr>)))"

definition verifier_run :: "'p verify_env \<Rightarrow> int \<Rightarrow> int \<Rightarrow> ('p, pyval \<times> string) action" where
  "verifier_run env step device_id s0 =
     (let s = s0\<lparr>vs_ok := None\<rparr>; code = vs_code s; dir = verify_dir_of env step
      in if code = [] then (s\<lparr>vs_ok := Some False\<rparr>, Inr (PBool False, ''No target code found for verification''))
         else thenS (make_dir env dir) (\<lambda>_. thenS (prepare env) (\<lambda>_. with_device env device_id (run_body env code dir step))) s)"

end
