(* ===== verification/Verify_Facts.thy ===== *)
theory Verify_Facts
  imports Verify_Run Cache_Facts
begin

text \<open>
  What a verification owes its callers: the device it leased is back in every case, a pass rests on a script that
  ended with exit code 0, artifacts stay below the directory; and where a pass says less than it seems to.
\<close>

subsection \<open>Actions\<close>

named_theorems steady

lemma thenS_Inr: "thenS f k s = (s', Inr b) \<longleftrightarrow> (\<exists>s1 a. f s = (s1, Inr a) \<and> k a s1 = (s', Inr b))"
  by (auto simp: thenS_def split: prod.splits sum.splits)

lemma exceptS_Inr: "exceptS f h s = (s', Inr a) \<longleftrightarrow> f s = (s', Inr a) \<or> (\<exists>s1 e. f s = (s1, Inl e) \<and> h e s1 = (s', Inr a))"
  by (auto simp: exceptS_def split: prod.splits sum.splits)

lemma resS_eq: "resS r s = (s', r') \<longleftrightarrow> s' = s \<and> r' = r"
  by (auto simp: resS_def)

lemma thenSE:
  assumes "thenS f k s = (s', Inr b)"
  obtains s1 a where "f s = (s1, Inr a)" "k a s1 = (s', Inr b)"
  using assms by (auto simp: thenS_Inr)

lemmas run_simps = thenS_Inr exceptS_Inr resS_eq

text \<open>What no step but the lease of the device touches.\<close>

definition same_setting :: "'p verify_state \<Rightarrow> 'p verify_state \<Rightarrow> bool" where
  "same_setting s s' \<longleftrightarrow> vs_pool s' = vs_pool s \<and> (vs_worker s \<noteq> None \<longrightarrow> vs_worker s' = vs_worker s)"

definition steady :: "('p verify_state \<Rightarrow> 'p verify_state \<times> 'a) \<Rightarrow> bool" where
  "steady f \<longleftrightarrow> (\<forall>s. same_setting s (fst (f s)))"

lemma same_refl [simp]: "same_setting s s"
  by (simp add: same_setting_def)

lemma same_trans: "same_setting s s1 \<Longrightarrow> same_setting s1 s2 \<Longrightarrow> same_setting s s2"
  by (auto simp: same_setting_def)

lemma steadyD: "steady f \<Longrightarrow> f s = (s', r) \<Longrightarrow> same_setting s s'"
  by (metis fst_conv steady_def)

lemma steady_after: "steady f \<Longrightarrow> same_setting s t \<Longrightarrow> same_setting s (fst (f t))"
  using same_trans by (auto simp: steady_def)

lemma steady_then [steady]: "steady f \<Longrightarrow> (\<And>a. steady (k a)) \<Longrightarrow> steady (thenS f k)"
  unfolding steady_def thenS_def by (force split: prod.splits sum.splits intro: same_trans)

lemma steady_except [steady]: "steady f \<Longrightarrow> (\<And>e. steady (h e)) \<Longrightarrow> steady (exceptS f h)"
  unfolding steady_def exceptS_def by (force split: prod.splits sum.splits intro: same_trans)

lemma steady_res [steady]: "steady (resS r)"
  by (simp add: steady_def resS_def)

lemma steady_ask [steady]: "steady (\<lambda>s. (s, r s))"
  by (simp add: steady_def)

lemma steady_prod [steady]: "(\<And>a b. steady (k a b)) \<Longrightarrow> steady (case x of (a, b) \<Rightarrow> k a b)"
  by (cases x) simp

lemma steady_simple [steady]:
  "steady (make_dir env dir)" "steady (generate env code dir dev)" "steady (usable_worker env dev)" "steady (packaged env dir w)"
  "steady (dispatched env dir t w)" "steady (sync_artifacts_to_directory env artifacts dir)"
  "steady (save_verification_result_to_jsonl env dir step passed logs n m)" "steady (use_reference env)" "steady (read_sidecar env dir)"
  "steady (set_ok b)" "steady (set_code c)" "steady (prepare env)"
  by (auto simp: steady_def same_setting_def make_dir_def resS_def generate_def usable_worker_def packaged_def dispatched_def
      sync_artifacts_to_directory_def save_verification_result_to_jsonl_def use_reference_def read_sidecar_def set_ok_def set_code_def prepare_def
      Let_def split: prod.splits sum.splits option.splits)

lemma steady_run_verify [steady]: "steady (run_verify env dir timeout dev)"
  unfolding run_verify_def by (intro steady)

lemma steady_alone [steady]: "steady (verify_alone env code dir dev timeout)"
  unfolding verify_alone_def by (intro steady)

lemma same_remove [simp]: "same_setting s (remove_tree dir s') \<longleftrightarrow> same_setting s s'"
  by (simp add: same_setting_def remove_tree_def)

lemma same_each: "verify_each env code dir dev timeout num timeouts configs s = (s', valid, logs) \<Longrightarrow> same_setting s s'"
proof (induction configs arbitrary: num timeouts s valid logs)
  case (Cons config configs)
  obtain s1 r where a: "verify_alone env (generate_single_config_code (ve_expand env) code config) (config_dir dir num) dev timeout s = (s1, r)"
    by fastforce
  have s1: "same_setting s s1" by (rule steadyD [OF steady_alone a])
  have next_ok: "same_setting s1 s'" if "verify_each env code dir dev timeout (Suc num) n configs t = (s', v, l)" "same_setting s1 t" for n t v l
    using Cons.IH [OF that(1)] that(2) same_trans by blast
  from Cons.prems a s1 same_trans [OF s1] next_ok show ?case
    by (cases r) (auto simp: Let_def split: prod.splits sum.splits bool.splits if_splits)
qed simp

lemma same_full: "full_code_check env code dir dev timeout passing n s = (s', full, note) \<Longrightarrow> same_setting s s'"
proof -
  assume f: "full_code_check env code dir dev timeout passing n s = (s', full, note)"
  obtain s1 r where a: "verify_alone env (Inr code) (join_path dir ''full_code_verify'') dev timeout s = (s1, r)" by fastforce
  show ?thesis using f a steadyD [OF steady_alone a]
    by (cases r) (auto simp: full_code_check_def Let_def split: prod.splits if_splits)
qed

lemma steady_no_configs [steady]: "steady (no_configs env code dir dev step n)"
  unfolding no_configs_def Let_def by (cases "n = 0") (auto intro!: steady)

lemma steady_settle [steady]: "steady (settle_configs env code dir dev step valid passed logs)"
  unfolding settle_configs_def Let_def by (intro steady)

lemma steady_separately [steady]: "steady (verify_configs_separately env code dir dev timeout step)"
  unfolding steady_def
proof
  fix s
  show "same_setting s (fst (verify_configs_separately env code dir dev timeout step s))"
  proof (cases "extract_autotune_configs code = []")
    case True
    then show ?thesis using steady_no_configs [of env code dir dev step "count_all_autotune_configs code"] by (simp add: verify_configs_separately_def steady_def)
  next
    case False
    obtain s1 valid logs where e: "verify_each env code dir dev timeout 1 0 (extract_autotune_configs code) s = (s1, valid, logs)" by (metis prod_cases3)
    obtain s2 full remark where c: "full_code_check env code dir dev timeout (length valid) (length (extract_autotune_configs code)) s1 = (s2, full, remark)"
      by (metis prod_cases3)
    have "same_setting s s2" using same_each [OF e] same_full [OF c] same_trans by blast
    then show ?thesis using False e c
      by (simp add: verify_configs_separately_def Let_def) (rule steady_after [OF steady_settle])
  qed
qed

lemma steady_default [steady]: "steady (run_default env code dir step dev)"
  unfolding run_default_def generated_log_def script_verdict_def record_verdict_def by (intro steady)

lemma steady_body [steady]: "steady (run_body env code dir step dev)"
proof -
  have "steady (thenS (resS r) (\<lambda>timeout. thenS (verify_configs_separately env code dir dev timeout step) (\<lambda>(verdict, logs, final). case verdict of
               None \<Rightarrow> run_default env code dir step dev
             | Some ok \<Rightarrow> thenS (if ok then set_code final else resS (Inr ())) (\<lambda>_.
                 thenS (set_ok (Some ok)) (\<lambda>_. resS (Inr (PBool ok, logs)))))))" for r
    by (intro steady) (auto intro!: steady split: option.splits)
  then show ?thesis using steady_default [of env code dir step dev] by (simp add: steady_def run_body_def)
qed

subsection \<open>Devices\<close>

text \<open>What a caller may expect of a place that leases devices: after the return of what was taken it is as before.\<close>

locale device_source =
  fixes acquire :: "string \<Rightarrow> 'p \<Rightarrow> 'p \<times> (int \<times> int) res"
    and release :: "int \<Rightarrow> int \<Rightarrow> string \<Rightarrow> 'p \<Rightarrow> 'p"
    and restored :: "'p \<Rightarrow> 'p \<Rightarrow> bool"
  assumes untouched: "restored p p"
    and refused: "acquire t p = (q, Inl e) \<Longrightarrow> restored p q"
    and returned: "acquire t p = (q, Inr (d, n)) \<Longrightarrow> restored p (release d n t q)"
begin

lemma with_device_back:
  assumes "vs_worker s = Some w" and "dw_acquire w = acquire" and "dw_release w = release" and "\<And>d. steady (work d)"
  shows "restored (vs_pool s) (vs_pool (fst (with_device env device_id work s)))"
proof (cases "acquire (vf_task_id (ve_verifier env)) (vs_pool s)")
  case (Pair q r)
  show ?thesis
  proof (cases r)
    case (Inl e)
    then show ?thesis using Pair assms(1,2) refused by (simp add: with_device_def)
  next
    case (Inr x)
    obtain d n where x: "x = (d, n)" by (cases x)
    have "vs_pool (fst (work d (s\<lparr>vs_pool := q\<rparr>))) = q"
      using assms(4) [of d] unfolding steady_def same_setting_def by (metis verify_state.select_convs(2) verify_state.surjective verify_state.update_convs(2))
    moreover have "restored (vs_pool s) (release d n (vf_task_id (ve_verifier env)) q)" using Pair Inr x by (intro returned) simp
    ultimately show ?thesis using Pair Inr x assms(1-3) by (simp add: with_device_def finallyS_def split_beta)
  qed
qed

lemma run_restores:
  assumes "vs_worker s = Some w" and "dw_acquire w = acquire" and "dw_release w = release"
  shows "restored (vs_pool s) (vs_pool (fst (verifier_run env step device_id s)))"
proof (cases "vs_code s = []")
  case True
  then show ?thesis using untouched by (simp add: verifier_run_def Let_def)
next
  case False
  define t where "t = s\<lparr>vs_ok := None\<rparr>"
  have t: "vs_worker t = Some w" "vs_pool t = vs_pool s" using assms(1) by (simp_all add: t_def)
  obtain s1 r1 where m: "make_dir env (verify_dir_of env step) t = (s1, r1)" by fastforce
  obtain s2 r2 where p: "prepare env s1 = (s2, r2)" by fastforce
  have s1: "vs_worker s1 = Some w" "vs_pool s1 = vs_pool s" using steadyD [OF steady_simple(1) m] t by (simp_all add: same_setting_def)
  have s2: "vs_worker s2 = Some w" "vs_pool s2 = vs_pool s" using steadyD [OF steady_simple(12) p] s1 by (simp_all add: same_setting_def)
  have "verifier_run env step device_id s = (case r1 of Inl e \<Rightarrow> (s1, Inl e) | Inr _ \<Rightarrow> (case r2 of Inl e \<Rightarrow> (s2, Inl e)
      | Inr _ \<Rightarrow> with_device env device_id (run_body env (vs_code s) (verify_dir_of env step) step) s2))"
    using False m p by (simp add: verifier_run_def Let_def thenS_def t_def split: sum.splits)
  then show ?thesis using s1(2) s2(2) untouched with_device_back [OF s2(1) assms(2,3) steady_body]
    by (auto split: sum.splits)
qed

end

text \<open>The pool of a local worker and the lease of a remote one keep this contract.\<close>

definition same_pool :: "device_pool \<Rightarrow> device_pool \<Rightarrow> bool" where
  "same_pool p q \<longleftrightarrow> (pool_inv p \<longrightarrow> leases q = leases p \<and> in_hand q = in_hand p \<and> mset (available_devices q) = mset (available_devices p))"

lemma pool_returned:
  assumes "acquire_device now t False p = Inr (q, d, n)"
  shows "same_pool p (fst (release_device d n q))"
  unfolding same_pool_def
proof
  assume inv: "pool_inv p"
  from assms obtain ds where ds: "available_devices p = d # ds"
    by (auto simp: acquire_device_def dequeue_def split: list.splits option.splits prod.splits)
  have fresh: "d \<notin> l_device ` set (leases p)" using pool_inv_distinct [OF inv] ds by (auto simp: held_def)
  from assms ds have q: "leases q = leases p @ [\<lparr>l_device = d, l_owner = t, l_id = n, l_deadline = Never\<rparr>]"
      "available_devices q = ds" "in_hand q = in_hand p"
    using fresh by (auto simp: acquire_device_def dequeue_def grant_def Let_def put_lease_new)
  have "find_lease d (ls @ [l]) = Some l" if "d \<notin> l_device ` set ls" "l_device l = d" for ls l
    using that by (induction ls) auto
  then have "find_lease d (leases q) = Some \<lparr>l_device = d, l_owner = t, l_id = n, l_deadline = Never\<rparr>" using fresh by (simp add: q(1))
  moreover have "del_lease d (leases q) = leases p" using fresh by (auto simp: q(1) del_lease_def intro!: filter_True)
  ultimately show "leases (fst (release_device d n q)) = leases p \<and> in_hand (fst (release_device d n q)) = in_hand p
      \<and> mset (available_devices (fst (release_device d n q))) = mset (available_devices p)"
    using q ds by (simp add: release_device_def release_lease_def)
qed

interpretation local_devices: device_source "dw_acquire (local_device_worker now machine effect)"
  "dw_release (local_device_worker now machine effect)" same_pool
proof
  show "same_pool p p" for p by (simp add: same_pool_def)
  show "same_pool p q" if "dw_acquire (local_device_worker now machine effect) t p = (q, Inl e)" for t p q e
    using that by (auto simp: local_device_worker_def same_pool_def split: sum.splits)
  show "same_pool p (dw_release (local_device_worker now machine effect) d n t q)"
    if "dw_acquire (local_device_worker now machine effect) t p = (q, Inr (d, n))" for t p q d n
    using that pool_returned by (auto simp: local_device_worker_def split: sum.splits)
qed

interpretation remote_devices: device_source "dw_acquire (remote_device_worker re asked)"
  "dw_release (remote_device_worker re asked)" "\<lambda>p q. q = p \<or> q = None"
  by unfold_locales
    (auto simp: remote_device_worker_def remote_acquire_device_def remote_release_device_def split: option.splits)


subsection \<open>What a pass rests on\<close>

text \<open>The verify script of a directory ended with exit code 0.\<close>

definition script_passed :: "(string \<Rightarrow> vfiles \<Rightarrow> script_machine) \<Rightarrow> string \<Rightarrow> vfiles \<Rightarrow> bool" where
  "script_passed machine dir fs \<longleftrightarrow> sm_extract (machine dir fs) = Inr () \<and> sm_script (machine dir fs) \<and> (\<exists>out. sm_run (machine dir fs) = Inr (Exit 0 out))"

lemma local_verify_passed:
  "local_verify (machine dir fs) t = Inr (True, l, a) \<Longrightarrow> script_passed machine dir fs"
  by (auto simp: local_verify_def script_passed_def bindR_def split: sum.splits option.splits script_exit.splits if_splits)

lemma run_verify_passed:
  assumes "run_verify env dir timeout dev s = (s', Inr (ok, l))" and "truthy ok" and "vs_worker s = Some (local_device_worker now machine effect)"
  shows "script_passed machine dir (vs_files s)"
proof -
  from assms obtain t out art where "local_verify (machine dir (vs_files s)) (PInt (t + 30)) = Inr (True, out, art)"
    by (fastforce simp: run_verify_def run_simps usable_worker_def packaged_def dispatched_def local_device_worker_def split: prod.splits sum.splits)
  then show ?thesis using local_verify_passed by blast
qed

definition alone_passed :: "'p verify_env \<Rightarrow> (string \<Rightarrow> vfiles \<Rightarrow> script_machine) \<Rightarrow> string \<Rightarrow> string \<Rightarrow> int \<Rightarrow> bool" where
  "alone_passed env machine code dir dev \<longleftrightarrow>
     (\<exists>config fs config1 fs1. ve_generate env config code dir dev fs = ((config1, fs1), Inr ()) \<and> script_passed machine dir fs1)"

lemma verify_alone_passed:
  assumes "verify_alone env rc dir dev timeout s = (s', Inr (ok, l))" and "truthy ok" and "vs_worker s = Some (local_device_worker now machine effect)"
  obtains code where "rc = Inr code" and "alone_passed env machine code dir dev"
proof -
  from assms(1) obtain code s1 s2 where code: "rc = Inr code" and s1: "make_dir env dir s = (s1, Inr ())"
    and s2: "generate env code dir dev s1 = (s2, Inr ())" and run: "run_verify env dir (PInt timeout) 0 s2 = (s', Inr (ok, l))"
    by (auto simp: verify_alone_def run_simps)
  have "vs_worker s2 = Some (local_device_worker now machine effect)"
    using steadyD [OF steady_simple(1) s1] steadyD [OF steady_simple(2) s2] assms(3) by (simp add: same_setting_def)
  then have "script_passed machine dir (vs_files s2)" by (rule run_verify_passed [OF run assms(2)])
  moreover obtain config1 where "ve_generate env (vs_config s1) code dir dev (vs_files s1) = ((config1, vs_files s2), Inr ())"
    using s2 by (auto simp: generate_def split: prod.splits)
  ultimately show ?thesis using that code by (auto simp: alone_passed_def)
qed

lemma each_passed:
  assumes "verify_each env code dir dev timeout num timeouts configs s = (s', valid, logs)" and "vs_worker s = Some (local_device_worker now machine effect)"
    and "config \<in> set valid"
  shows "config \<in> set configs \<and> (\<exists>n c. generate_single_config_code (ve_expand env) code config = Inr c \<and> alone_passed env machine c (config_dir dir n) dev)"
  using assms
proof (induction configs arbitrary: num timeouts s valid logs)
  case (Cons d configs)
  obtain s1 r where a: "verify_alone env (generate_single_config_code (ve_expand env) code d) (config_dir dir num) dev timeout s = (s1, r)"
    by fastforce
  have w: "vs_worker s1 = Some (local_device_worker now machine effect)" "vs_worker (remove_tree t s1) = Some (local_device_worker now machine effect)" for t
    using steadyD [OF steady_alone a] Cons.prems(2) by (simp_all add: same_setting_def remove_tree_def)
  have step: "config \<in> set configs \<and> (\<exists>n c. generate_single_config_code (ve_expand env) code config = Inr c \<and> alone_passed env machine c (config_dir dir n) dev)"
    if "verify_each env code dir dev timeout (Suc num) k configs t = (s', v, l)" "t = s1 \<or> t = remove_tree (config_dir dir num) s1" "config \<in> set v" for k t v l
    using Cons.IH [OF that(1) _ that(3)] that(2) w by blast
  show ?case
  proof (cases r)
    case (Inl e)
    then show ?thesis using Cons.prems a step by (auto simp: Let_def split: prod.splits)
  next
    case (Inr x)
    obtain ok l where x: "x = (ok, l)" by (cases x)
    show ?thesis
    proof (cases "truthy ok")
      case True
      obtain c where c: "generate_single_config_code (ve_expand env) code d = Inr c" "alone_passed env machine c (config_dir dir num) dev"
        using verify_alone_passed [OF _ True Cons.prems(2), of env _ _ dev timeout s1 l] a Inr x by metis
      obtain v lg where v: "verify_each env code dir dev timeout (Suc num) 0 configs (remove_tree (config_dir dir num) s1) = (s', v, lg)" "valid = d # v"
        using Cons.prems(1) a Inr x True by (auto simp: Let_def split: prod.splits)
      show ?thesis
      proof (cases "config = d")
        case True
        then show ?thesis using c by auto
      next
        case False
        then show ?thesis using step [OF v(1)] v(2) Cons.prems(3) by simp
      qed
    next
      case False
      then show ?thesis using Cons.prems a Inr x step by (auto simp: Let_def split: prod.splits sum.splits bool.splits if_splits)
    qed
  qed
qed simp

text \<open>The two ways to a pass: the whole program, or one configuration alone.\<close>

definition whole_passed :: "'p verify_env \<Rightarrow> (string \<Rightarrow> vfiles \<Rightarrow> script_machine) \<Rightarrow> string \<Rightarrow> string \<Rightarrow> string \<Rightarrow> bool" where
  "whole_passed env machine code dir logs \<longleftrightarrow> (\<exists>dev config fs config1 fs1 g. ve_generate env config code dir dev fs = ((config1, fs1), g)
     \<and> script_passed machine dir fs1 \<and> (g = Inr () \<or> starts_with ''Project generation failed: '' logs))"

definition single_passed :: "'p verify_env \<Rightarrow> (string \<Rightarrow> vfiles \<Rightarrow> script_machine) \<Rightarrow> string \<Rightarrow> string \<Rightarrow> string \<Rightarrow> bool" where
  "single_passed env machine code dir c \<longleftrightarrow> c \<in> set (extract_autotune_configs code)
     \<and> (\<exists>n single dev. generate_single_config_code (ve_expand env) code c = Inr single \<and> alone_passed env machine single (config_dir dir n) dev)"

definition recorded_pass :: "'p verify_state \<Rightarrow> bool" where
  "recorded_pass s \<longleftrightarrow> vs_ok s = Some True \<and> truthy (dget (last (vs_results s)) ''passed'')"

lemma starts_append: "starts_with p (p @ s)"
  by (induction p) simp_all

lemma starts_more: "starts_with p s \<Longrightarrow> starts_with p (s @ t)"
  by (induction p s rule: starts_with.induct) simp_all

lemma result_passed: "dget (result_info env dir step passed logs n m) ''passed'' = passed"
  by (simp add: result_info_def Let_def dget_def)

lemma saved_eq: "save_verification_result_to_jsonl env dir step passed logs n m s = (s', Inr u)
    \<longleftrightarrow> ve_append env = Inr () \<and> s' = s\<lparr>vs_results := vs_results s @ [result_info env dir step passed logs n m]\<rparr>"
  by (cases "ve_append env") (auto simp: save_verification_result_to_jsonl_def)

lemma generated_log_facts:
  assumes "generated_log env code dir dev s = (s', Inr gen_log)"
  shows "same_setting s s'"
    and "\<exists>config g. ve_generate env (vs_config s) code dir dev (vs_files s) = ((config, vs_files s'), g)
      \<and> (g = Inr () \<or> starts_with ''Project generation failed: '' gen_log)"
proof -
  have "steady (generated_log env code dir dev)" unfolding generated_log_def by (intro steady)
  then show "same_setting s s'" using assms by (rule steadyD)
  obtain config fs g where "ve_generate env (vs_config s) code dir dev (vs_files s) = ((config, fs), g)" by (metis prod_cases3 surj_pair)
  then show "\<exists>config g. ve_generate env (vs_config s) code dir dev (vs_files s) = ((config, vs_files s'), g)
      \<and> (g = Inr () \<or> starts_with ''Project generation failed: '' gen_log)"
    using assms by (cases g) (auto simp: generated_log_def exceptS_def thenS_def generate_def resS_def nl_def starts_append [of "''Project generation failed: ''", simplified])
qed

lemma verdict_recorded:
  assumes "record_verdict env dir step gen_log result s = (s', Inr (v, logs))"
  shows "v = fst result" and "\<exists>l. logs = gen_log @ l" and "truthy v \<Longrightarrow> recorded_pass s'"
  using assms by (auto simp: record_verdict_def run_simps saved_eq set_ok_def recorded_pass_def result_passed add_text_def split: pyval.splits)

lemma default_passed:
  assumes "run_default env code dir step dev s = (s', Inr (v, logs))" and "truthy v" and "vs_worker s = Some (local_device_worker now machine effect)"
  shows "whole_passed env machine code dir logs" and "recorded_pass s'"
proof -
  from assms(1) obtain s1 s2 s3 gen_log result where s1: "use_reference env s = (s1, Inr ())"
    and s2: "generated_log env code dir dev s1 = (s2, Inr gen_log)" and run: "script_verdict env dir dev s2 = (s3, Inr result)"
    and rest: "record_verdict env dir step gen_log result s3 = (s', Inr (v, logs))"
    unfolding run_default_def thenS_Inr by auto
  note v = verdict_recorded [OF rest] and gen = generated_log_facts [OF s2]
  have w: "vs_worker s2 = Some (local_device_worker now machine effect)"
    using steadyD [OF steady_simple(8) s1] gen(1) assms(3) by (auto simp: same_setting_def)
  from run obtain t where "run_verify env dir (PInt t) dev s2 = (s3, Inr (fst result, snd result))"
    by (auto simp: script_verdict_def thenS_Inr)
  from run_verify_passed [OF this _ w] assms(2) v(1) have "script_passed machine dir (vs_files s2)" by simp
  then show "whole_passed env machine code dir logs" using gen(2) v(2) starts_more unfolding whole_passed_def by metis
  show "recorded_pass s'" by (rule v(3) [OF assms(2)])
qed

lemma separate_passed:
  assumes "verify_configs_separately env code dir dev timeout step s = (s', Inr (Some True, logs, final))"
    and "vs_worker s = Some (local_device_worker now machine effect)"
  shows "\<exists>c. single_passed env machine code dir c" and "truthy (dget (last (vs_results s')) ''passed'')"
proof -
  let ?configs = "extract_autotune_configs code"
  have some: "?configs \<noteq> []"
    using assms(1) by (auto simp: verify_configs_separately_def no_configs_def run_simps Let_def split: if_splits)
  obtain s1 valid l where e: "verify_each env code dir dev timeout 1 0 ?configs s = (s1, valid, l)" by (metis prod_cases3)
  obtain s2 full remark where f: "full_code_check env code dir dev timeout (length valid) (length ?configs) s1 = (s2, full, remark)" by (metis prod_cases3)
  have "valid \<noteq> [] \<and> full \<and> truthy (dget (last (vs_results s')) ''passed'')"
    using assms(1) some e f
    by (auto simp: verify_configs_separately_def settle_configs_def run_simps Let_def saved_eq result_passed)
  then show "truthy (dget (last (vs_results s')) ''passed'')" and "\<exists>c. single_passed env machine code dir c"
    using each_passed [OF e assms(2)] by (auto simp: single_passed_def) (metis list.set_sel(1))
qed

lemma body_passed:
  assumes "run_body env code dir step dev s = (s', Inr (v, logs))" and "truthy v" and "vs_worker s = Some (local_device_worker now machine effect)"
  shows "(whole_passed env machine code dir logs \<or> (\<exists>c. single_passed env machine code dir c)) \<and> recorded_pass s'"
proof (cases "per_config_mode env code s")
  case False
  then show ?thesis using assms default_passed [of env code dir step dev s s' v logs] by (simp add: run_body_def)
next
  case True
  then obtain timeout s1 verdict l final where sep: "verify_configs_separately env code dir dev timeout step s = (s1, Inr (verdict, l, final))"
    and rest: "(case verdict of None \<Rightarrow> run_default env code dir step dev
             | Some ok \<Rightarrow> thenS (if ok then set_code final else resS (Inr ())) (\<lambda>_.
                 thenS (set_ok (Some ok)) (\<lambda>_. resS (Inr (PBool ok, l))))) s1 = (s', Inr (v, logs))"
    using assms(1) by (auto simp: run_body_def thenS_Inr resS_eq split: prod.splits)
  have w: "vs_worker s1 = Some (local_device_worker now machine effect)"
    using steadyD [OF steady_separately sep] assms(3) by (auto simp: same_setting_def)
  show ?thesis
  proof (cases verdict)
    case None
    then show ?thesis using rest w assms(2) default_passed [of env code dir step dev s1 s' v logs] by simp
  next
    case (Some ok)
    then have "v = PBool ok" "s' = (if ok then s1\<lparr>vs_code := final\<rparr> else s1)\<lparr>vs_ok := Some ok\<rparr>"
      using rest by (auto simp: thenS_Inr resS_eq set_ok_def set_code_def split: if_splits)
    then show ?thesis using assms(2,3) sep Some separate_passed [of env code dir dev timeout step s s1 l final] by (simp add: recorded_pass_def)
  qed
qed


subsection \<open>Configurations\<close>

lemma each_subseq: "verify_each env code dir dev timeout num timeouts configs s = (s', valid, logs) \<Longrightarrow> subseq valid configs"
proof (induction configs arbitrary: num timeouts s valid logs)
  case (Cons config configs)
  obtain s1 r where a: "verify_alone env (generate_single_config_code (ve_expand env) code config) (config_dir dir num) dev timeout s = (s1, r)"
    by fastforce
  have skipped: "subseq v (config # configs)" "subseq (config # v) (config # configs)"
    if "verify_each env code dir dev timeout (Suc num) n configs t = (s', v, l)" for n t v l
    using Cons.IH [OF that] by (auto intro: list_emb_Cons)
  from Cons.prems a skipped show ?case
    by (cases r) (auto simp: Let_def split: prod.splits sum.splits bool.splits if_splits)
qed simp

lemma full_check_passed:
  assumes "full_code_check env code dir dev timeout n m s = (s', True, remark)" and "vs_worker s = Some (local_device_worker now machine effect)"
    and "n = m" and "1 < m"
  shows "alone_passed env machine code (join_path dir ''full_code_verify'') dev
    \<or> (\<exists>t e. verify_alone env (Inr code) (join_path dir ''full_code_verify'') dev timeout s = (t, Inl e))"
proof (cases "verify_alone env (Inr code) (join_path dir ''full_code_verify'') dev timeout s")
  case (Pair t r)
  show ?thesis
  proof (cases r)
    case (Inr x)
    obtain ok l where x: "x = (ok, l)" by (cases x)
    with assms Pair Inr have "truthy ok" by (auto simp: full_code_check_def Let_def split: if_splits)
    then show ?thesis using verify_alone_passed [OF _ _ assms(2), of env "Inr code" _ dev timeout t ok l] Pair Inr x by auto
  qed (use Pair in simp)
qed

lemma settled_passed:
  assumes "settle_configs env code dir dev step valid passed logs s = (s', Inr (Some True, l, final))"
  shows "passed \<and> generate_final_code_with_valid_configs (ve_expand env) code valid (extract_autotune_configs code) = Inr final
    \<and> (\<exists>config fs config1 fs1. ve_generate env config final dir dev fs = ((config1, fs1), Inr ()))"
proof -
  from assms obtain s1 where passed: passed and final: "Inr final = generate_final_code_with_valid_configs (ve_expand env) code valid (extract_autotune_configs code)"
    and g: "generate env final dir dev s = (s1, Inr ())"
    by (auto simp: settle_configs_def run_simps Let_def)
  from g have "\<exists>config fs config1 fs1. ve_generate env config final dir dev fs = ((config1, fs1), Inr ())"
    by (auto simp: generate_def split: prod.splits)
  with passed final show ?thesis by simp
qed


subsection \<open>Files\<close>

lemma common_prefix: "prefix (common_parts xs ys) xs \<and> prefix (common_parts xs ys) ys"
  by (induction xs ys rule: common_parts.induct) auto

lemma parts_of_join:
  assumes "list_all (\<lambda>x. x \<noteq> [] \<and> x \<noteq> ''.'' \<and> CHR ''/'' \<notin> set x) xs"
  shows "path_parts (''/'' @ join ''/'' xs) = xs"
proof (cases "xs = []")
  case False
  then have "split_on CHR ''/'' (join ''/'' xs) = xs" using assms by (intro split_on_join) (auto simp: list_all_iff)
  moreover have "filter (\<lambda>s. s \<noteq> [] \<and> s \<noteq> ''.'') xs = xs" using assms by (intro filter_True) (auto simp: list_all_iff)
  ultimately show ?thesis by (simp add: path_parts_def)
qed (simp add: path_parts_def)

lemma parts_clean: "list_all (\<lambda>x. x \<noteq> [] \<and> x \<noteq> ''.'' \<and> CHR ''/'' \<notin> set x) (path_parts p)"
  using split_on_no_sep by (auto simp: path_parts_def list_all_iff)

lemma common_below:
  assumes "commonpath target full = Some target"
  shows "prefix (path_parts target) (path_parts full)"
proof -
  let ?c = "common_parts (path_parts target) (path_parts full)"
  have c: "prefix ?c (path_parts target)" "prefix ?c (path_parts full)" using common_prefix by blast+
  then have "list_all (\<lambda>x. x \<noteq> [] \<and> x \<noteq> ''.'' \<and> CHR ''/'' \<notin> set x) ?c"
    using parts_clean [of full] by (auto simp: list_all_iff dest: set_mono_prefix)
  then have "path_parts target = ?c"
    using assms parts_of_join [of ?c] by (auto simp: commonpath_def split: if_splits)
  with c(2) show ?thesis by simp
qed

lemma sync_below: "sync_items env target xs fs = (fs', r) \<Longrightarrow> fs' p \<noteq> fs p \<Longrightarrow> prefix (path_parts target) (path_parts p)"
proof (induction xs arbitrary: fs)
  case (Cons x xs)
  obtain rel content where x: "x = (rel, content)" by (cases x)
  obtain fs1 r1 where one: "sync_one env target rel content fs = (fs1, r1)" by fastforce
  have "prefix (path_parts target) (path_parts p)" if "fs1 p \<noteq> fs p"
    using one that common_below by (auto simp: sync_one_def split: if_splits sum.splits)
  moreover have "fs' p = fs1 p \<or> prefix (path_parts target) (path_parts p)"
    using Cons x one by (auto split: sum.splits)
  ultimately show ?case using Cons.prems(2) by metis
qed simp

text \<open>
  C24. Artifacts stay below the directory they are meant for, whatever names and contents a worker sends: a file that
  is written has a real path below the real path of the directory.
\<close>

theorem artifacts_contained:
  assumes "sync_artifacts_to_directory env artifacts dir s = (s', r)" and "vs_files s' p \<noteq> vs_files s p"
  shows "\<exists>target. ve_realpath env dir = Inr target \<and> prefix (path_parts target) (path_parts p)"
  using assms sync_below by (fastforce simp: sync_artifacts_to_directory_def bindR_eq_Inr split: if_splits sum.splits prod.splits)

subsection \<open>Passes that say less than they seem to\<close>

lemma local_pass:
  assumes "script_passed machine dir fs" and "sm_artifacts (machine dir fs) = fmempty" and "sm_defaults (machine dir fs) = Inr d" and "0 < t"
  obtains out where "local_verify (machine dir fs) (PInt t) = Inr (True, out, fmempty)"
  using assms by (auto simp: local_verify_def script_passed_def resolve_eval_timeout_def positive_int_def py_int_def verify_output_def)

lemma run_verify_pass:
  assumes "script_passed machine dir (vs_files s)" and "sm_artifacts (machine dir (vs_files s)) = fmempty"
    and "sm_defaults (machine dir (vs_files s)) = Inr d" and "ve_defaults env = Inr d" and "vs_worker s = Some (local_device_worker now machine effect)"
    and "0 < t"
  obtains out where "run_verify env dir (PInt t) dev s = (s\<lparr>vs_files := effect dir (vs_files s)\<rparr>, Inr (PBool True, PStr out))"
proof -
  obtain out where "local_verify (machine dir (vs_files s)) (PInt (t + 30)) = Inr (True, out, fmempty)"
    using local_pass [OF assms(1-3), of "t + 30"] assms(6) by auto
  then have "run_verify env dir (PInt t) dev s = (s\<lparr>vs_files := effect dir (vs_files s)\<rparr>, Inr (PBool True, PStr out))"
    using assms(4-6) by (simp add: run_verify_def thenS_def exceptS_def resS_def resolve_eval_timeout_def positive_int_def py_int_def
      usable_worker_def packaged_def dispatched_def local_device_worker_def sync_artifacts_to_directory_def)
  then show ?thesis by (rule that)
qed

lemma passing_run:
  assumes "\<And>dev. ve_generate env (vs_config s) (vs_code s) (verify_dir_of env step) dev (vs_files s) = ((vs_config s, fs), g)"
    and "script_passed machine (verify_dir_of env step) fs" and "sm_artifacts (machine (verify_dir_of env step) fs) = fmempty"
    and "sm_defaults (machine (verify_dir_of env step) fs) = Inr d" and "ve_defaults env = Inr d"
    and "vs_worker s = Some (local_device_worker now machine effect)" and "available_devices (vs_pool s) \<noteq> []"
    and "vs_code s \<noteq> []" and "\<not> ve_autotune_dsl env" and "ve_cann_precision env" and "dget (vs_config s) ''verify_timeout'' = PInt 60"
    and "ve_mkdir env (verify_dir_of env step) = Inr ()" and "ve_prepare env (vs_config s) = (vs_config s, Inr ())" and "ve_append env = Inr ()"
  shows "\<exists>s' l. verifier_run env step device_id s = (s', Inr (PBool True, l)) \<and> vs_ok s' = Some True"
proof -
  let ?dir = "verify_dir_of env step" and ?w = "local_device_worker now machine effect"
  define t where "t = s\<lparr>vs_ok := None\<rparr>"
  from assms(7) obtain dev ds where "available_devices (vs_pool s) = dev # ds" by (cases "available_devices (vs_pool s)") auto
  then obtain p n where acquired: "dw_acquire ?w (vf_task_id (ve_verifier env)) (vs_pool s) = (p, Inr (dev, n))"
    by (simp add: local_device_worker_def acquire_device_def dequeue_def grant_def Let_def)
  define u where "u = t\<lparr>vs_pool := p\<rparr>"
  define u1 where "u1 = u\<lparr>vs_files := fs\<rparr>"
  have u: "vs_worker u = Some ?w" "vs_files u = vs_files s" "vs_config u = vs_config s" using assms(6) by (simp_all add: u_def t_def)
  have "vs_files u1 = fs" "vs_worker u1 = Some ?w" using u(1) by (simp_all add: u1_def)
  then have pass: "script_passed machine ?dir (vs_files u1)" "sm_artifacts (machine ?dir (vs_files u1)) = fmempty"
      "sm_defaults (machine ?dir (vs_files u1)) = Inr d" and w: "vs_worker u1 = Some ?w" using assms(2-4) by simp_all
  obtain out where out: "run_verify env ?dir (PInt 60) dev u1 = (u1\<lparr>vs_files := effect ?dir (vs_files u1)\<rparr>, Inr (PBool True, PStr out))"
    using run_verify_pass [OF pass assms(5) w, of 60 dev] by auto
  have "generated_log env (vs_code s) ?dir dev u
      = (u1, Inr (case g of Inr _ \<Rightarrow> [] | Inl e \<Rightarrow> nl (''Project generation failed: '' @ ve_message env e)))"
    using assms(1) u by (cases g) (simp_all add: generated_log_def exceptS_def thenS_def generate_def resS_def u1_def u_def t_def)
  then have "\<exists>s1 l. run_default env (vs_code s) ?dir step dev u = (s1, Inr (PBool True, l)) \<and> vs_ok s1 = Some True"
    using out u(3) assms(5,10,11,14)
    by (simp add: run_default_def thenS_def use_reference_def script_verdict_def record_verdict_def resS_def resolve_eval_timeout_def positive_int_def
        py_int_def add_text_def read_sidecar_def saved_eq save_verification_result_to_jsonl_def set_ok_def u1_def)
  then obtain s1 l where run: "run_body env (vs_code s) ?dir step dev u = (s1, Inr (PBool True, l))" "vs_ok s1 = Some True"
    using assms(9) by (auto simp: run_body_def per_config_mode_def)
  have "verifier_run env step device_id s = with_device env device_id (run_body env (vs_code s) ?dir step) t"
    using assms(8,12,13) by (simp add: verifier_run_def Let_def thenS_def make_dir_def resS_def prepare_def t_def)
  also have "\<dots> = (s1\<lparr>vs_pool := dw_release ?w dev n (vf_task_id (ve_verifier env)) (vs_pool s1)\<rparr>, Inr (PBool True, l))"
    using acquired assms(6) run(1) by (simp add: with_device_def finallyS_def t_def u_def)
  finally show ?thesis using run(2) by simp
qed

text \<open>
  C25. A project that is never generated can pass: where the generator raises each time and writes nothing, but an
  earlier verification of the same step left a script that succeeds in the directory, \<open>run\<close> answers with a pass.
\<close>

theorem failed_generation_passes:
  assumes "\<forall>config code dir dev fs. ve_generate env config code dir dev fs = ((config, fs), Inl e)"
    and "script_passed machine (verify_dir_of env step) (vs_files s)" and "sm_artifacts (machine (verify_dir_of env step) (vs_files s)) = fmempty"
    and "sm_defaults (machine (verify_dir_of env step) (vs_files s)) = Inr d" and "ve_defaults env = Inr d"
    and "vs_worker s = Some (local_device_worker now machine effect)" and "available_devices (vs_pool s) \<noteq> []"
    and "vs_code s \<noteq> []" and "\<not> ve_autotune_dsl env" and "ve_cann_precision env" and "dget (vs_config s) ''verify_timeout'' = PInt 60"
    and "ve_mkdir env (verify_dir_of env step) = Inr ()" and "ve_prepare env (vs_config s) = (vs_config s, Inr ())" and "ve_append env = Inr ()"
  shows "\<exists>s' l. verifier_run env step device_id s = (s', Inr (PBool True, l)) \<and> vs_ok s' = Some True"
  by (rule passing_run [OF _ assms(2-)]) (use assms(1) in simp)

text \<open>
  A regression that crashes passes: if every one of several configurations passes alone and the run of the whole
  program raises, the verdict is a pass all the same.
\<close>

theorem crashed_regression_passes:
  assumes "verify_each env code dir dev timeout 1 0 (extract_autotune_configs code) s = (s1, extract_autotune_configs code, logs)"
    and "1 < length (extract_autotune_configs code)"
    and "verify_alone env (Inr code) (join_path dir ''full_code_verify'') dev timeout s1 = (s2, Inl e)"
    and "generate_final_code_with_valid_configs (ve_expand env) code (extract_autotune_configs code) (extract_autotune_configs code) = Inr final"
    and "generate env final dir dev s2 = (s3, Inr ())" and "ve_append env = Inr ()"
  shows "\<exists>s' l. verify_configs_separately env code dir dev timeout step s = (s', Inr (Some True, l, final))"
proof -
  let ?configs = "extract_autotune_configs code"
  have some: "?configs \<noteq> []" using assms(2) by auto
  obtain remark where f: "full_code_check env code dir dev timeout (length ?configs) (length ?configs) s1 = (s2, True, remark)"
    using assms(2,3) by (simp add: full_code_check_def Let_def)
  show ?thesis
    using assms(1,4-6) some f by (simp add: verify_configs_separately_def Let_def settle_configs_def thenS_def exceptS_def resS_def
      save_verification_result_to_jsonl_def)
qed

subsection \<open>Examples\<close>

definition demo_script :: "string \<Rightarrow> vfiles \<Rightarrow> script_machine" where
  "demo_script dir fs = \<lparr>sm_defaults = Inr EvalDefaults_default, sm_extract = Inr (), sm_script = (fs (join_path dir ''verify_op.py'') \<noteq> None),
     sm_run = Inr (Exit 0 ''ok''), sm_artifacts = fmempty, sm_result_json = Inr None, sm_float = (\<lambda>_. None), sm_reference = None\<rparr>"

text \<open>A generator that raises where it is told to, and writes the script elsewhere.\<close>

definition demo_checker :: "(string \<Rightarrow> bool) \<Rightarrow> device_pool verify_env" where
  "demo_checker raises = \<lparr>ve_rt = demo_runtime, ve_op = ''op'', ve_log_dir = ''/l'',
     ve_verifier = \<lparr>vf_profile = demo_pv, vf_request = demo_rq, vf_task_id = ''7'', vf_sol_identity = (\<lambda>_. Inl TypeError)\<rparr>,
     ve_reference = \<lparr>rf_dynamic_shape = False, rf_load = (\<lambda>_. None), rf_generate = Inl TypeError\<rparr>, ve_defaults = Inr EvalDefaults_default,
     ve_per_config = False, ve_autotune_dsl = False, ve_cann_precision = True, ve_prepare = (\<lambda>d. (d, Inr ())), ve_mkdir = (\<lambda>_. Inr ()),
     ve_generate = (\<lambda>config code dir dev fs. if raises dir then ((config, fs), Inl (RuntimeError ''disk full''))
       else ((config, fs(join_path dir ''verify_op.py'' \<mapsto> code)), Inr ())),
     ve_local_worker = (\<lambda>_. local_device_worker 0 demo_script (\<lambda>_ fs. fs)), ve_pack = (\<lambda>_ _. Inr ()), ve_realpath = Inr, ve_makedirs = (\<lambda>_. Inr ()),
     ve_writable = (\<lambda>_. True), ve_items = (\<lambda>_. [(''a'', PStr ''x''), (''/etc/b'', PStr ''y'')]), ve_load = (\<lambda>_. Inl ValueError), ve_expand = (\<lambda>t g. Inl ValueError), ve_message = (\<lambda>_. ''disk full''),
     ve_append = Inr (), ve_stamp = ''now''\<rparr>"

definition demo_before :: "device_pool verify_state" where
  "demo_before = \<lparr>vs_files = (\<lambda>p. if p = ''/l/op/Iteration7_Step1_verify/verify_op.py'' then Some ''old'' else None),
     vs_pool = \<lparr>device_list = [0], available_devices = [0], in_hand = [], leases = [], lease_seq = 0, ttl = None, reaper = False, reap_interval = None\<rparr>,
     vs_cache = empty_cache, vs_config = fmap_of_list [(''verify_timeout'', PInt 60)],
     vs_worker = Some (local_device_worker 0 demo_script (\<lambda>_ fs. fs)), vs_code = ''code'', vs_ok = None, vs_sidecar = PNone, vs_dir = None, vs_results = []\<rparr>"

lemma demo_dir: "verify_dir_of (demo_checker raises) 1 = ''/l/op/Iteration7_Step1_verify''"
proof -
  have "int_str 1 = ''1''" by code_simp
  then have "verify_dir_of (demo_checker raises) 1 = join_path (join_path ''/l'' ''op'') ''Iteration7_Step1_verify''" by (simp add: verify_dir_of_def demo_checker_def)
  also have "\<dots> = ''/l/op/Iteration7_Step1_verify''" by code_simp
  finally show ?thesis .
qed

lemma demo_script_passed: "script_passed demo_script (verify_dir_of (demo_checker raises) 1) (vs_files demo_before)"
proof -
  have "join_path ''/l/op/Iteration7_Step1_verify'' ''verify_op.py'' = ''/l/op/Iteration7_Step1_verify/verify_op.py''" by code_simp
  then show ?thesis by (simp add: demo_dir script_passed_def demo_script_def demo_before_def)
qed

lemma demo_verify_passes: "\<exists>s' l. verifier_run (demo_checker (\<lambda>_. False)) 1 (-1) demo_before = (s', Inr (PBool True, l)) \<and> vs_ok s' = Some True"
proof -
  let ?env = "demo_checker (\<lambda>_. False)" and ?dir = "verify_dir_of (demo_checker (\<lambda>_. False)) 1"
  let ?fs = "(vs_files demo_before)(join_path ?dir ''verify_op.py'' \<mapsto> ''code'')"
  have "script_passed demo_script ?dir ?fs" by (simp add: script_passed_def demo_script_def)
  then show ?thesis
    by (intro passing_run [of ?env demo_before 1 ?fs "Inr ()" demo_script EvalDefaults_default 0 "\<lambda>_ fs. fs"])
      (simp_all add: demo_checker_def demo_before_def demo_script_def dget_def)
qed

theorem failed_generation_passes_witness:
  "\<exists>s' l. verifier_run (demo_checker (\<lambda>_. True)) 1 (-1) demo_before = (s', Inr (PBool True, l)) \<and> vs_ok s' = Some True"
  by (rule failed_generation_passes [OF _ demo_script_passed, where d = EvalDefaults_default and now = 0 and effect = "\<lambda>_ fs. fs"])
    (simp_all add: demo_checker_def demo_before_def demo_script_def dget_def)



theorem artifacts_contained_witness:
  "\<exists>target. ve_realpath (demo_checker (\<lambda>_. False)) ''/r'' = Inr target \<and> prefix (path_parts target) (path_parts ''/r/a'')"
proof -
  have "commonpath ''/r'' ''/r/a'' = Some ''/r''" "commonpath ''/r'' ''/etc/b'' \<noteq> Some ''/r''" "join_path ''/r'' ''a'' = ''/r/a''" "join_path ''/r'' ''/etc/b'' = ''/etc/b''"
    by code_simp+
  then obtain s' where "sync_artifacts_to_directory (demo_checker (\<lambda>_. False)) (PDict (fmap_of_list [(''a'', PStr ''x'')])) ''/r'' demo_before = (s', Inr ())"
    and "vs_files s' ''/r/a'' = Some ''x''"
    by (simp add: sync_artifacts_to_directory_def as_mapping_def demo_checker_def sync_one_def)
  with artifacts_contained [OF this(1), of "''/r/a''"] show ?thesis by (simp add: demo_before_def)
qed

text \<open>Two configurations, and a disk that is full when the whole program is to be verified.\<close>

definition demo_kernel :: string where
  "demo_kernel = ''@triton.autotune(configs=[triton.Config({1}),triton.Config({2})])''"

definition demo_final :: string where
  "demo_final = ''@triton.autotune('' @ final_block [''triton.Config({1})'', ''triton.Config({2})''] [''triton.Config({1})'', ''triton.Config({2})''] @ '')''"

definition full_disk :: "string \<Rightarrow> bool" where
  "full_disk dir = (dir = join_path ''/r'' ''full_code_verify'')"

abbreviation demo_local :: "device_pool device_worker" where
  "demo_local \<equiv> local_device_worker 0 demo_script (\<lambda>_ fs. fs)"

lemma demo_alone:
  assumes "\<not> raises dir" and "vs_worker s = Some demo_local"
  shows "\<exists>s1 l. verify_alone (demo_checker raises) (Inr c) dir dev 60 s = (s1, Inr (PBool True, l)) \<and> vs_worker s1 = Some demo_local"
proof -
  let ?fs = "(vs_files s)(join_path dir ''verify_op.py'' \<mapsto> c)"
  have g: "generate (demo_checker raises) c dir dev s = (s\<lparr>vs_config := vs_config s, vs_files := ?fs\<rparr>, Inr ())"
    using assms(1) by (simp add: generate_def demo_checker_def)
  have p: "script_passed demo_script dir (vs_files (s\<lparr>vs_config := vs_config s, vs_files := ?fs\<rparr>))" by (simp add: script_passed_def demo_script_def)
  have w: "vs_worker (s\<lparr>vs_config := vs_config s, vs_files := ?fs\<rparr>) = Some demo_local" using assms(2) by simp
  have d: "sm_artifacts (demo_script dir fs) = fmempty" "sm_defaults (demo_script dir fs) = Inr EvalDefaults_default"
    "ve_defaults (demo_checker raises) = Inr EvalDefaults_default" for fs
    by (simp_all add: demo_script_def demo_checker_def)
  obtain out where "run_verify (demo_checker raises) dir (PInt 60) 0 (s\<lparr>vs_config := vs_config s, vs_files := ?fs\<rparr>)
      = (s\<lparr>vs_config := vs_config s, vs_files := ?fs\<rparr>\<lparr>vs_files := ?fs\<rparr>, Inr (PBool True, PStr out))"
    using run_verify_pass [OF p d w, of 60 0] by auto
  then show ?thesis using g assms(2) by (simp add: verify_alone_def thenS_def resS_def make_dir_def demo_checker_def)
qed

lemma demo_each:
  assumes "list_all (\<lambda>c. \<not> isl (generate_single_config_code (ve_expand (demo_checker raises)) code c)) configs"
    and "\<And>n. \<not> raises (config_dir dir n)" and "vs_worker s = Some demo_local"
  shows "\<exists>s1 logs. verify_each (demo_checker raises) code dir dev 60 num 0 configs s = (s1, configs, logs) \<and> vs_worker s1 = Some demo_local"
  using assms
proof (induction configs arbitrary: num s)
  case (Cons config configs)
  from Cons.prems(1) obtain c where c: "generate_single_config_code (ve_expand (demo_checker raises)) code config = Inr c"
    by (cases "generate_single_config_code (ve_expand (demo_checker raises)) code config") auto
  obtain s1 l where a: "verify_alone (demo_checker raises) (Inr c) (config_dir dir num) dev 60 s = (s1, Inr (PBool True, l))" "vs_worker s1 = Some demo_local"
    using demo_alone [of raises "config_dir dir num" s c dev] Cons.prems(2,3) by blast
  have "vs_worker (remove_tree (config_dir dir num) s1) = Some demo_local" using a(2) by (simp add: remove_tree_def)
  with Cons.IH [of "remove_tree (config_dir dir num) s1" "Suc num"] Cons.prems(1,2)
  obtain s2 logs where "verify_each (demo_checker raises) code dir dev 60 (Suc num) 0 configs (remove_tree (config_dir dir num) s1) = (s2, configs, logs)"
    "vs_worker s2 = Some demo_local" by auto
  then show ?case using a(1) c by (simp add: Let_def)
qed simp

lemma demo_places: "\<not> full_disk (config_dir ''/r'' n)" "full_disk (join_path ''/r'' ''full_code_verify'')" "\<not> full_disk ''/r''"
  by (simp_all add: full_disk_def config_dir_def join_path_def)

lemma demo_configs: "extract_autotune_configs demo_kernel = [''triton.Config({1})'', ''triton.Config({2})'']"
  by code_simp

lemma demo_singles: "list_all (\<lambda>c. \<not> isl (generate_single_config_code (\<lambda>t g. Inl ValueError) demo_kernel c)) (extract_autotune_configs demo_kernel)"
  by code_simp

lemma demo_finals: "generate_final_code_with_valid_configs (\<lambda>t g. Inl ValueError) demo_kernel (extract_autotune_configs demo_kernel) (extract_autotune_configs demo_kernel)
    = Inr demo_final"
  by code_simp

lemma demo_expand: "ve_expand (demo_checker raises) = (\<lambda>t g. Inl ValueError)" "ve_append (demo_checker raises) = Inr ()"
  by (simp_all add: demo_checker_def)

lemma demo_worker_set: "vs_worker demo_before = Some demo_local"
  by (simp add: demo_before_def)

text \<open>What the two demonstrations share: both configurations pass alone, the run of the whole raises.\<close>

lemma demo_regression:
  obtains s1 s2 s3 logs e where "verify_each (demo_checker full_disk) demo_kernel ''/r'' 0 60 1 0 (extract_autotune_configs demo_kernel) demo_before
      = (s1, extract_autotune_configs demo_kernel, logs)"
    and "verify_alone (demo_checker full_disk) (Inr demo_kernel) (join_path ''/r'' ''full_code_verify'') 0 60 s1 = (s2, Inl e)"
    and "generate (demo_checker full_disk) demo_final ''/r'' 0 s2 = (s3, Inr ())"
proof -
  obtain s1 logs where one: "verify_each (demo_checker full_disk) demo_kernel ''/r'' 0 60 1 0 (extract_autotune_configs demo_kernel) demo_before
      = (s1, extract_autotune_configs demo_kernel, logs)"
    using demo_each [of full_disk demo_kernel "extract_autotune_configs demo_kernel" "''/r''" demo_before 0 1] demo_places(1) demo_worker_set demo_singles
    by (auto simp: demo_expand(1))
  moreover have "\<exists>s2 e. verify_alone (demo_checker full_disk) (Inr demo_kernel) (join_path ''/r'' ''full_code_verify'') 0 60 s1 = (s2, Inl e)"
    using demo_places(2) by (simp add: verify_alone_def thenS_def resS_def make_dir_def generate_def demo_checker_def)
  moreover have "\<exists>s3. generate (demo_checker full_disk) demo_final ''/r'' 0 s2 = (s3, Inr ())" for s2
    using demo_places(3) by (simp add: generate_def demo_checker_def)
  ultimately show ?thesis using that by blast
qed

theorem crashed_regression_passes_witness:
  "\<exists>s' l. verify_configs_separately (demo_checker full_disk) demo_kernel ''/r'' 0 60 1 demo_before = (s', Inr (Some True, l, demo_final))"
proof -
  have two: "1 < length (extract_autotune_configs demo_kernel)" by (simp add: demo_configs)
  show ?thesis
  proof (rule demo_regression)
    fix s1 s2 s3 logs e
    assume a: "verify_each (demo_checker full_disk) demo_kernel ''/r'' 0 60 1 0 (extract_autotune_configs demo_kernel) demo_before
        = (s1, extract_autotune_configs demo_kernel, logs)"
      and b: "verify_alone (demo_checker full_disk) (Inr demo_kernel) (join_path ''/r'' ''full_code_verify'') 0 60 s1 = (s2, Inl e)"
      and c: "generate (demo_checker full_disk) demo_final ''/r'' 0 s2 = (s3, Inr ())"
    show ?thesis by (rule crashed_regression_passes [OF a two b _ c demo_expand(2)]) (simp add: demo_expand(1) demo_finals)
  qed
qed

text \<open>Where nothing raises, the whole program passes.\<close>

lemma demo_all_pass:
  "\<exists>s' l. verify_configs_separately (demo_checker (\<lambda>_. False)) demo_kernel ''/r'' 0 60 1 demo_before = (s', Inr (Some True, l, demo_final))"
proof -
  let ?env = "demo_checker (\<lambda>_. False)" and ?configs = "extract_autotune_configs demo_kernel"
  have two: "1 < length ?configs" "?configs \<noteq> []" by (simp_all add: demo_configs)
  obtain s1 logs where one: "verify_each ?env demo_kernel ''/r'' 0 60 1 0 ?configs demo_before = (s1, ?configs, logs)" "vs_worker s1 = Some demo_local"
    using demo_each [of "\<lambda>_. False" demo_kernel ?configs "''/r''" demo_before 0 1] demo_worker_set demo_singles by (auto simp: demo_expand(1))
  obtain s2 l where "verify_alone ?env (Inr demo_kernel) (join_path ''/r'' ''full_code_verify'') 0 60 s1 = (s2, Inr (PBool True, l))"
    using demo_alone [of "\<lambda>_. False" "join_path ''/r'' ''full_code_verify''" s1 demo_kernel 0] one(2) by blast
  then obtain remark s3 where full: "full_code_check ?env demo_kernel ''/r'' 0 60 (length ?configs) (length ?configs) s1 = (s3, True, remark)"
    using two(1) by (simp add: full_code_check_def Let_def)
  obtain s4 where "generate ?env demo_final ''/r'' 0 s3 = (s4, Inr ())" by (simp add: generate_def demo_checker_def)
  with one(1) two(2) full demo_finals show ?thesis
    by (simp add: verify_configs_separately_def Let_def settle_configs_def thenS_def exceptS_def resS_def save_verification_result_to_jsonl_def demo_expand)
qed


text \<open>
  The first list called \<open>configs\<close> is replaced, not the one of the decorator: with another list in front, a program with
  one configuration still has them all.
\<close>

definition demo_decoy :: string where
  "demo_decoy = ''my_configs = [0]'' @ [newline] @ demo_kernel"

lemma decoy_list_replaced:
  "\<exists>c. generate_single_config_code (\<lambda>t g. Inl ValueError) demo_decoy ''triton.Config({1})'' = Inr c
     \<and> extract_autotune_configs c = extract_autotune_configs demo_decoy"
proof -
  let ?c = "''my_'' @ single_block ''triton.Config({1})'' @ [newline] @ demo_kernel"
  have "generate_single_config_code (\<lambda>t g. Inl ValueError) demo_decoy ''triton.Config({1})'' = Inr ?c" by code_simp
  moreover have "extract_autotune_configs ?c = extract_autotune_configs demo_decoy" by code_simp
  ultimately show ?thesis by blast
qed

text \<open>A text without capitals does not hold one with capitals.\<close>

lemma capital_unseen: "\<not> contains ''Calculate timeout'' (map lower s)"
proof -
  have l: "lower c \<noteq> CHR ''C''" for c
  proof
    assume c: "lower c = CHR ''C''"
    have "(of_char (lower c) :: nat) = (if 65 \<le> (of_char c :: nat) \<and> (of_char c :: nat) \<le> 90 then of_char c + 32 else of_char c)"
      by (auto simp: lower_def Let_def)
    then show False using c by (auto split: if_splits)
  qed
  show ?thesis
    by (induction s) (use l l [symmetric] in auto)
qed

end
