(* ===== verification/Spec2Isabelle.thy ===== *)
theory Spec2Isabelle
  imports Machine Bridge_Facts Cache_Lock Profile_Facts Metric_Policy Profile_Plan Aggregate Worker_Manager Batch_Facts Cann_Facts Code_Facts Process_Facts Verify_Facts
begin

text \<open>
  \<^bold>\<open>The program.\<close> An autoresearch workspace optimises one kernel per task directory. A phase machine
  (\<open>scripts/phase_machine\<close>, \<open>scripts/workflow\<close>, \<open>scripts/task_handle.py\<close>) drives a task through
  baseline, planning, edit rounds, diagnosis and finish; everything it knows is in a few files of
  \<open>.ar_state/\<close>: the state record, the history log, the plan, and a write-ahead intent that makes a
  transaction over those files recoverable. A batch driver (\<open>scripts/batch\<close>) runs many tasks one after
  the other through an external agent. Evaluations run on workers (\<open>src/op_autoresearch/core\<close>) that
  lease devices from a pool.

  \<^bold>\<open>Theories, from the bottom.\<close>

  \<^item> \<open>AR_Prelude\<close>, \<open>Py_Value\<close>, \<open>Py_Text\<close>: errors as a sum type, Python values, dictionaries as
    finite maps, string operations, and the lemmas every component shares.
  \<^item> \<open>Json_IO\<close> (\<open>scripts/utils/json_io.py\<close>), \<open>Progress_Model\<close> (\<open>phase_machine/models.py\<close>),
    \<open>State_Store\<close> and \<open>Journal\<close> (\<open>phase_machine/state_store.py\<close>): a task directory as the record
    \<open>task_fs\<close>, its state, history and plan header, the consistency check, and the intent with its
    replay. The locale \<open>journaled_txn\<close> states what makes a write sequence recoverable; each of the
    three transactions below interprets it.
  \<^item> \<open>Baseline_Anchor\<close>, \<open>Workflow_Baseline\<close>, \<open>Workflow_Round\<close> (\<open>workflow/\<close>): the anchor
    of the baseline, the baseline commit, the decision and the commit of a round.
  \<^item> \<open>Plan_Parser\<close>, \<open>Plan_Store\<close>, \<open>Plan_Facts\<close>, \<open>Create_Plan\<close>, \<open>Plan_Roundtrip\<close>,
    \<open>Plan_Contract\<close> (\<open>validators.py\<close>, \<open>planning.py\<close>, \<open>engine/create_plan.py\<close>): the plan as
    text, its parser, its settlement, and what the writer owes the reader.
  \<^item> \<open>Task_Handle\<close>, \<open>Task_Invariant\<close>, \<open>Lifecycle\<close> (\<open>task_handle.py\<close>, \<open>workflow/transition.py\<close>):
    the operations of an entered task, the invariant of a task directory, and the step relation of
    operations, crashes and heals.
  \<^item> \<open>Ownership\<close>, \<open>Ownership_Steps\<close> (\<open>state_store.py\<close>, \<open>Task.__enter__\<close> and \<open>__exit__\<close>): claims,
    releases and the session index over all task directories, and their interleavings.
  \<^item> \<open>Shell_Text\<close>, \<open>Phase_Policy\<close> (\<open>phase_machine/phase_policy.py\<close>): shell words, a backtracking
    matcher for the patterns of the source, the classifier of shell commands, and the rules for
    commands and edits of each phase. \<open>Hooks\<close>, \<open>Hook_Facts\<close> (\<open>scripts/decide.py\<close>): what the agent is
    answered before and after a tool call and at a stop, and what that changes on disk.
  \<^item> \<open>Task_Config\<close> (\<open>task_config/loader.py\<close>, \<open>op/utils/dsl_project_config.py\<close>), \<open>Edit_Check\<close>
    (\<open>engine/quick_check.py\<close>), \<open>Engine\<close> (\<open>task_config/eval_client.py\<close>, \<open>engine/pipeline.py\<close>, \<open>baseline.py\<close>,
    \<open>create_plan.py\<close>, \<open>scripts/resume.py\<close>): the configuration of a task, the check of an edit, and the
    scripts an agent runs, from their arguments to the exit code. The kernel evaluation is a parameter.
    \<open>Eval_Bridge\<close>, \<open>Bridge_Facts\<close> (\<open>utils/eval_bridge.py\<close>): what stands behind that parameter, from the request to
    the answer, over the worker manager; the verifier and the profiler are parameters.
  \<^item> \<open>Cache_Lock\<close>, \<open>Data_Cache\<close>, \<open>Baseline_Cache\<close>, \<open>Cache_Facts\<close> (\<open>op/verifier/data_cache.py\<close>,
    \<open>baseline_profiler.py\<close>, the cache methods of \<open>kernel_verifier.py\<close>): the lock of an entry as processes that
    interleave system calls, the keys and files, and who reads and fills them.
  \<^item> \<open>Eval_Worker\<close>, \<open>Profile_Run\<close>, \<open>Profile_Facts\<close> (\<open>core/worker\<close>, \<open>worker/server.py\<close>, \<open>profiler_utils.py\<close>,
    \<open>KernelVerifier.run_profile\<close>): what stands behind the profiler of the bridge, down to the result files of
    the scripts, and the service with its client; subprocesses and the network are parameters. \<open>Profile_Facts\<close>
    puts the bridge, the verifier, the cache and the worker together.
  \<^item> \<open>Verify_Text\<close>, \<open>Verify_Run\<close>, \<open>Verify_Facts\<close> (\<open>KernelVerifier.run\<close> and its helpers): one verification, from the lease of a
    device to the verdict, for the whole program or with every autotune configuration on its own; project generation is a
    parameter. The locale \<open>device_source\<close> states what leasing promises; the pool and the remote worker interpret it.
  \<^item> \<open>Cann_Compare\<close>, \<open>Cann_Facts\<close> (\<open>op/cann_correctness/core.py\<close>): the gate that decides whether the output of a
    kernel is correct, from one cell to all outputs, and what it lets through.
  \<^item> \<open>Code_Check\<close>, \<open>Code_Facts\<close> (\<open>op/utils/code_checker\<close>, \<open>op/config/code_checker.yaml\<close>): the static check of a
    generated kernel over its syntax tree and its text, with the policy; the parser is a parameter. What the edit
    check takes as the verdict of the checker is this check.
  \<^item> \<open>Round_Budget\<close>, \<open>Machine\<close>: the budget of rounds over a life of a task; and scripts, hooks,
    supervisors and crashes as one step relation over all task directories, which the lifecycle of each
    directory simulates.
  \<^item> \<open>Batch_Manifest\<close>, \<open>Batch_Lock\<close>, \<open>Batch_Run\<close>, \<open>Batch_Facts\<close> (\<open>scripts/batch\<close>): the manifest
    and progress file, the lock, recovery, the run of a case, the queue.
  \<^item> \<open>Metric_Policy\<close>, \<open>Profile_Plan\<close>, \<open>Aggregate\<close>: constraints and improvement, the profiling
    budget, the geometric mean of speedups.
  \<^item> \<open>Device_Pool\<close>, \<open>Worker_Manager\<close> (\<open>src/op_autoresearch/core\<close>): leases under interleaved
    coroutines, with the locale \<open>token_table\<close> for the lease tokens, and load balancing.
    \<open>Process_Tree\<close>, \<open>Process_Facts\<close> (\<open>utils/process_utils.py\<close>): the process groups of evaluations, how they are
    ended, and the registry by which a successor finds those a dead worker left behind.

  \<^bold>\<open>What the lemmas show.\<close> A reachable task directory is consistent, and a crash at any
  durable step of a transaction heals to the state before or after it. What scripts and hooks do to the
  world is made of such steps, so no agent is refused a task as inconsistent, nothing is evaluated twice, and
  the rounds of a task stay within its budget. A loaded configuration names no path outside the task. A plan that was written is
  read back, settling an item moves it to the history once, and identifiers are never
  reused. A session owns at most one task. A device is free, in hand or leased exactly once, and
  a released token is never honoured again. An answer of an evaluation
  has the shape its readers expect, its worker is given back, and a committed baseline is not measured again but
  reported. A baseline that is in the cache is found and not measured twice, waiting for the lock of an entry ends, and
  a remote worker answers what a local one would. A pass of the verifier rests on a script that ended with exit code 0, its
  device is given back however it ends, and its artifacts stay in their directory. An output that passes the accuracy gate is close to the golden one,
  or off where the reference is off as well, and a Triton file that passes the static check launches a kernel and leaves the core
  computation to it. A process tree that is ended is gone or was sent both signals, and
  the groups of a living worker are left alone by its successor. The files of the state machine are out of the agent's reach,
  and a diagnosis ends. Recovery of a batch spares live cases, and a case that was run
  is settled. The theorems of kind \<open>error\<close> show where the code does not do what its comments say.

  \<^bold>\<open>Abstractions.\<close> Floats are exact reals with infinities and NaN; timestamps are the instants they
  denote; characters are Latin-1. A transaction under the file lock is one step, except that a crash may fall
  between its durable writes. The clock, the process id, git, the hash function and the number formatter are
  arguments. The agent process of a batch is a parameter, a function to a list of events. Recursion is
  structural or has a measure; the resume loop of a case counts the retries that are left, so no
  fuel is invented. The wait for the cache lock and a command without a time limit may run for ever and are partial functions; when they end is proved.

  \<^bold>\<open>Not modelled.\<close> What runs on devices, adapters and code templates, the parser of
  generated code, SSH tunnels, prompt texts, dashboards and reports: they are
  input and output around the modelled core, or run code that is not part of the repository.
\<close>

end
